(* ===== verification/Prelude.thy ===== *)
theory Prelude imports Main "HOL-Library.AList" "HOL-Library.Multiset" begin

text \<open>
  What every component of the model shares: Go maps, Go's \<open>cmp\<close> comparators and
  \<open>slices.SortFunc\<close>, times, and the collections of hints the component proofs use.

  A Go map is an association list. The list's order stands for one iteration order of a
  \<open>range\<close> over the map (Go leaves that order open), so a result that must not depend on
  the order is proved equal for every permutation of the list. A missing key reads as the
  zero value, which is \<open>get_or\<close>'s first argument.

  A \<open>time.Time\<close> is the number of nanoseconds since Go's zero time, so the zero time is 0;
  a \<open>time.Duration\<close> is a number of nanoseconds. Both are unbounded integers.
\<close>

named_theorems plan_defs \<open>definitions of the model that proofs unfold\<close>
named_theorems evals \<open>equations that evaluate closed terms of the model\<close>

subsection \<open>Go maps\<close>

type_synonym ('k, 'v) gomap = "('k \<times> 'v) list"
type_synonym time = int
type_synonym duration = int

definition second :: duration where "second = 1000000000"

definition get_or :: "'v \<Rightarrow> ('k, 'v) gomap \<Rightarrow> 'k \<Rightarrow> 'v" where
  "get_or d m k = (case map_of m k of None \<Rightarrow> d | Some v \<Rightarrow> v)"

definition has_key :: "('k, 'v) gomap \<Rightarrow> 'k \<Rightarrow> bool" where
  "has_key m k = (map_of m k \<noteq> None)"

abbreviation put :: "'k \<Rightarrow> 'v \<Rightarrow> ('k, 'v) gomap \<Rightarrow> ('k, 'v) gomap" where
  "put \<equiv> AList.update"

abbreviation del_key :: "'k \<Rightarrow> ('k, 'v) gomap \<Rightarrow> ('k, 'v) gomap" where
  "del_key \<equiv> AList.delete"

text \<open>Go's \<open>maps.Copy\<close>: every pair of the source is stored into the destination.\<close>

definition copy_into :: "('k, 'v) gomap \<Rightarrow> ('k, 'v) gomap \<Rightarrow> ('k, 'v) gomap" where
  "copy_into dst src = fold (\<lambda>(k, v) m. put k v m) src dst"

lemma get_or_Nil [simp]: "get_or d [] k = d"
  by (simp add: get_or_def)

lemma get_or_Cons [simp]: "get_or d ((a, v) # m) k = (if k = a then v else get_or d m k)"
  by (simp add: get_or_def)

lemma get_or_put [simp]: "get_or d (put a v m) k = (if k = a then v else get_or d m k)"
  by (simp add: get_or_def update_conv)

lemma has_key_Nil [simp]: "\<not> has_key [] k"
  by (simp add: has_key_def)

lemma has_key_Cons [simp]: "has_key ((a, v) # m) k \<longleftrightarrow> k = a \<or> has_key m k"
  by (simp add: has_key_def)

lemma has_key_put [simp]: "has_key (put a v m) k \<longleftrightarrow> k = a \<or> has_key m k"
  by (simp add: has_key_def update_conv)

lemma set_put: "p \<in> set (put k v m) \<Longrightarrow> p = (k, v) \<or> p \<in> set m"
  by (induction m) (auto split: if_splits)

lemma has_key_iff: "has_key m k \<longleftrightarrow> k \<in> fst ` set m"
  by (induction m) auto

lemma get_or_no_key: "\<not> has_key m k \<Longrightarrow> get_or d m k = d"
  by (simp add: get_or_def has_key_def)

lemma get_or_in: "has_key m k \<Longrightarrow> (k, get_or d m k) \<in> set m"
  by (auto simp: get_or_def has_key_def dest: map_of_SomeD)

lemma map_of_copy_into:
  "map_of (copy_into dst src) k = (case map_of (rev src) k of None \<Rightarrow> map_of dst k | Some v \<Rightarrow> Some v)"
  unfolding copy_into_def
  by (induction src arbitrary: dst)
    (auto simp: update_conv map_add_def split: option.splits)

subsection \<open>First position of an element, and reading a list by index\<close>

fun index_where :: "('a \<Rightarrow> bool) \<Rightarrow> 'a list \<Rightarrow> nat option" where
  "index_where P [] = None"
| "index_where P (x # xs) = (if P x then Some 0 else map_option Suc (index_where P xs))"

lemma index_where_Some:
  "index_where P xs = Some i \<Longrightarrow> i < length xs \<and> P (xs ! i) \<and> (\<forall>j < i. \<not> P (xs ! j))"
proof (induction xs arbitrary: i)
  case Nil
  then show ?case by simp
next
  case (Cons x xs)
  show ?case
  proof (cases "P x")
    case True
    with Cons.prems show ?thesis by simp
  next
    case False
    with Cons.prems obtain j where j: "index_where P xs = Some j" "i = Suc j" by auto
    from Cons.IH [OF j(1)] False show ?thesis
      by (auto simp: j(2) less_Suc_eq_0_disj)
  qed
qed

lemma index_where_None: "index_where P xs = None \<longleftrightarrow> (\<forall>x \<in> set xs. \<not> P x)"
  by (induction xs) auto

lemma index_where_exists:
  assumes "x \<in> set xs" and "P x"
  obtains i where "index_where P xs = Some i"
  using assms index_where_None [of P xs] by (cases "index_where P xs") auto

lemma find_SomeD: "find P xs = Some x \<Longrightarrow> x \<in> set xs \<and> P x"
  by (induction xs) (auto split: if_splits)

lemma find_split:
  "find P xs = Some x \<longleftrightarrow> (\<exists>us vs. xs = us @ x # vs \<and> P x \<and> (\<forall>y \<in> set us. \<not> P y))"
proof
  assume "find P xs = Some x"
  then show "\<exists>us vs. xs = us @ x # vs \<and> P x \<and> (\<forall>y \<in> set us. \<not> P y)"
  proof (induction xs)
    case (Cons y ys)
    show ?case
    proof (cases "P y")
      case True
      with Cons.prems show ?thesis by (intro exI [of _ "[]"] exI [of _ ys]) simp
    next
      case False
      with Cons obtain us vs where "ys = us @ x # vs \<and> P x \<and> (\<forall>y \<in> set us. \<not> P y)" by auto
      then have "y # ys = (y # us) @ x # vs \<and> P x \<and> (\<forall>z \<in> set (y # us). \<not> P z)" using False by simp
      then show ?thesis by blast
    qed
  qed simp
next
  assume "\<exists>us vs. xs = us @ x # vs \<and> P x \<and> (\<forall>y \<in> set us. \<not> P y)"
  then obtain us vs where xs: "xs = us @ x # vs" "P x" "\<forall>y \<in> set us. \<not> P y" by blast
  from xs(3) have "find P (us @ x # vs) = Some x" by (induction us) (use xs(2) in auto)
  with xs(1) show "find P xs = Some x" by simp
qed

subsection \<open>Comparators and \<open>slices.SortFunc\<close>\<close>

text \<open>
  \<open>slices.SortFunc\<close> is insertion sort from the left (what Go runs on up to twelve
  elements): each element moves left past the elements it is smaller than. For a lawful
  comparator and distinct keys every sorting algorithm gives this list
  (\<open>sort_func_perm\<close> below).
\<close>

definition int_compare :: "int \<Rightarrow> int \<Rightarrow> int" where
  "int_compare a b = (if a < b then -1 else if a = b then 0 else 1)"

fun ins_rev :: "('a \<Rightarrow> 'a \<Rightarrow> int) \<Rightarrow> 'a \<Rightarrow> 'a list \<Rightarrow> 'a list" where
  "ins_rev cmp x [] = [x]"
| "ins_rev cmp x (y # ys) = (if cmp x y < 0 then y # ins_rev cmp x ys else x # y # ys)"

definition sort_func :: "('a \<Rightarrow> 'a \<Rightarrow> int) \<Rightarrow> 'a list \<Rightarrow> 'a list" where
  "sort_func cmp xs = rev (fold (ins_rev cmp) xs [])"

lemma mset_ins_rev [simp]: "mset (ins_rev cmp x ys) = add_mset x (mset ys)"
  by (induction ys) auto

lemma mset_fold_ins_rev: "mset (fold (ins_rev cmp) xs acc) = mset xs + mset acc"
  by (induction xs arbitrary: acc) auto

lemma mset_sort_func [simp]: "mset (sort_func cmp xs) = mset xs"
  by (simp add: sort_func_def mset_fold_ins_rev)

lemma set_sort_func [simp]: "set (sort_func cmp xs) = set xs"
  by (metis mset_sort_func set_mset_mset)

lemma length_sort_func [simp]: "length (sort_func cmp xs) = length xs"
  by (metis mset_sort_func size_mset)

lemma distinct_sort_func [simp]: "distinct (sort_func cmp xs) = distinct xs"
  by (metis mset_sort_func mset_eq_imp_distinct_iff)

lemma sort_func_Nil [simp]: "sort_func cmp [] = []"
  by (simp add: sort_func_def)

text \<open>Two lists with the same elements, both sorted by an antisymmetric relation, are equal.\<close>

lemma sorted_wrt_unique:
  assumes "sorted_wrt R xs" and "sorted_wrt R ys" and "mset xs = mset ys"
    and "\<And>x y. x \<in> set xs \<Longrightarrow> y \<in> set xs \<Longrightarrow> R x y \<Longrightarrow> R y x \<Longrightarrow> x = y"
  shows "xs = ys"
  using assms
proof (induction xs arbitrary: ys)
  case Nil
  then show ?case by simp
next
  case (Cons x xs)
  from Cons.prems(3) obtain y ys' where ys: "ys = y # ys'" by (cases ys) auto
  have sets: "set (x # xs) = set ys" using Cons.prems(3) by (metis set_mset_mset)
  have "x = y"
  proof (rule ccontr)
    assume ne: "x \<noteq> y"
    with sets ys have "y \<in> set xs" "x \<in> set ys'" by auto
    with Cons.prems(1,2) ys have "R x y" "R y x" by auto
    with Cons.prems(4) \<open>y \<in> set xs\<close> ne show False by auto
  qed
  moreover have "xs = ys'"
    using Cons.IH [of ys'] Cons.prems ys \<open>x = y\<close> by auto
  ultimately show ?case by (simp add: ys)
qed

text \<open>The laws a comparison function passed to \<open>slices.SortFunc\<close> must keep.\<close>

locale comparator =
  fixes cmp :: "'a \<Rightarrow> 'a \<Rightarrow> int"
  assumes cmp_flip: "cmp x y < 0 \<longleftrightarrow> 0 < cmp y x"
    and cmp_trans: "cmp x y \<le> 0 \<Longrightarrow> cmp y z \<le> 0 \<Longrightarrow> cmp x z \<le> 0"
begin

lemma cmp_total: "\<not> cmp x y < 0 \<Longrightarrow> cmp y x \<le> 0"
  using cmp_flip [of x y] by simp

lemma sorted_ins_rev:
  "sorted_wrt (\<lambda>a b. cmp b a \<le> 0) ys \<Longrightarrow> sorted_wrt (\<lambda>a b. cmp b a \<le> 0) (ins_rev cmp x ys)"
proof (induction ys)
  case Nil
  then show ?case by simp
next
  case (Cons y ys)
  have set_ins: "set (ins_rev cmp x ys) = insert x (set ys)"
    by (metis mset_ins_rev set_mset_add_mset_insert set_mset_mset)
  show ?case
  proof (cases "cmp x y < 0")
    case True
    with Cons set_ins show ?thesis by auto
  next
    case False
    then have "cmp y x \<le> 0" by (rule cmp_total)
    with Cons.prems False show ?thesis by (auto intro: cmp_trans)
  qed
qed

lemma sorted_sort_func: "sorted_wrt (\<lambda>a b. cmp a b \<le> 0) (sort_func cmp xs)"
proof -
  have "sorted_wrt (\<lambda>a b. cmp b a \<le> 0) (fold (ins_rev cmp) xs acc)"
    if "sorted_wrt (\<lambda>a b. cmp b a \<le> 0) acc" for acc
    using that by (induction xs arbitrary: acc) (auto intro: sorted_ins_rev)
  from this [of "[]"] show ?thesis
    by (simp add: sort_func_def sorted_wrt_rev)
qed

text \<open>Where different elements never compare equal, the sorted list does not depend on the input order.\<close>

lemma sort_func_perm:
  assumes "mset xs = mset ys"
    and "\<And>x y. x \<in> set xs \<Longrightarrow> y \<in> set xs \<Longrightarrow> cmp x y = 0 \<Longrightarrow> x = y"
  shows "sort_func cmp xs = sort_func cmp ys"
proof (rule sorted_wrt_unique [OF sorted_sort_func sorted_sort_func])
  show "mset (sort_func cmp xs) = mset (sort_func cmp ys)" using assms(1) by simp
next
  fix x y
  assume *: "x \<in> set (sort_func cmp xs)" "y \<in> set (sort_func cmp xs)"
    and le: "cmp x y \<le> 0" "cmp y x \<le> 0"
  from le have "cmp x y = 0" using cmp_flip [of x y] cmp_flip [of y x] by auto
  with * assms(2) show "x = y" by simp
qed

end

interpretation int_order: comparator int_compare
  by unfold_locales (auto simp: int_compare_def split: if_splits)

text \<open>A comparator pulled back along a key function is a comparator.\<close>

context comparator begin

lemma comparator_key: "comparator (\<lambda>a b. cmp (f a) (f b))"
  by (unfold_locales; use cmp_flip cmp_trans in blast)

end

end
