(* ===== verification/Go_Strings.thy ===== *)
theory Go_Strings imports Prelude begin

text \<open>
  Go strings are byte sequences; Isabelle's \<open>char\<close> is a byte, so a Go string is a
  \<open>string\<close> and \<open>length\<close> is \<open>len\<close>. This theory models what the repository uses of
  the packages \<open>strings\<close>, \<open>strconv\<close>, \<open>path/filepath\<close> and \<open>unicode/utf8\<close>.
\<close>

subsection \<open>Prefixes, suffixes, search\<close>

fun strip_prefix :: "string \<Rightarrow> string \<Rightarrow> string option" where
  "strip_prefix [] s = Some s"
| "strip_prefix (c # p) [] = None"
| "strip_prefix (c # p) (d # s) = (if c = d then strip_prefix p s else None)"

definition has_prefix :: "string \<Rightarrow> string \<Rightarrow> bool" where
  "has_prefix s p = (strip_prefix p s \<noteq> None)"

definition trim_prefix :: "string \<Rightarrow> string \<Rightarrow> string" where
  "trim_prefix s p = (case strip_prefix p s of None \<Rightarrow> s | Some r \<Rightarrow> r)"

definition has_suffix :: "string \<Rightarrow> string \<Rightarrow> bool" where
  "has_suffix s p = has_prefix (rev s) (rev p)"

definition trim_suffix :: "string \<Rightarrow> string \<Rightarrow> string" where
  "trim_suffix s p = rev (trim_prefix (rev s) (rev p))"

text \<open>\<open>strings.Cut\<close>: the text before and after the first \<open>sep\<close>, or \<open>None\<close>.\<close>

fun str_cut :: "string \<Rightarrow> string \<Rightarrow> (string \<times> string) option" where
  "str_cut sep [] = (if sep = [] then Some ([], []) else None)"
| "str_cut sep (c # s) =
     (case strip_prefix sep (c # s) of
        Some r \<Rightarrow> Some ([], r)
      | None \<Rightarrow> map_option (\<lambda>(a, b). (c # a, b)) (str_cut sep s))"

definition str_index :: "string \<Rightarrow> string \<Rightarrow> nat option" where
  "str_index s sub = map_option (\<lambda>(a, b). length a) (str_cut sub s)"

definition str_contains :: "string \<Rightarrow> string \<Rightarrow> bool" where
  "str_contains s sub = (str_cut sub s \<noteq> None)"

definition cut_before :: "string \<Rightarrow> string \<Rightarrow> string" where
  "cut_before sep s = (case str_cut sep s of None \<Rightarrow> s | Some (a, b) \<Rightarrow> a)"

lemma strip_prefix_Some: "strip_prefix p s = Some r \<longleftrightarrow> s = p @ r"
  by (induction p s rule: strip_prefix.induct) auto

lemma strip_prefix_append [simp]: "strip_prefix p (p @ r) = Some r"
  by (simp add: strip_prefix_Some)

lemma has_prefix_iff: "has_prefix s p \<longleftrightarrow> (\<exists>r. s = p @ r)"
  using strip_prefix_Some by (auto simp: has_prefix_def)

lemma has_prefix_append [simp]: "has_prefix (p @ r) p"
  by (simp add: has_prefix_iff)

lemma trim_prefix_append [simp]: "trim_prefix (p @ r) p = r"
  by (simp add: trim_prefix_def)

lemma trim_prefix_id: "\<not> has_prefix s p \<Longrightarrow> trim_prefix s p = s"
  by (auto simp: trim_prefix_def has_prefix_def split: option.splits)

lemma has_suffix_iff: "has_suffix s p \<longleftrightarrow> (\<exists>r. s = r @ p)"
proof -
  have "(\<exists>r. rev s = rev p @ r) \<longleftrightarrow> (\<exists>r. s = r @ p)"
    by (metis rev_append rev_rev_ident)
  then show ?thesis by (simp add: has_suffix_def has_prefix_iff)
qed

lemma has_suffix_append [simp]: "has_suffix (r @ p) p"
  by (auto simp: has_suffix_iff)

lemma trim_suffix_append [simp]: "trim_suffix (r @ p) p = r"
  by (simp add: trim_suffix_def)

lemma trim_suffix_id: "\<not> has_suffix s p \<Longrightarrow> trim_suffix s p = s"
  by (simp add: trim_suffix_def has_suffix_def trim_prefix_id)

lemma cut_Some_append: "str_cut sep s = Some (a, b) \<Longrightarrow> s = a @ sep @ b"
proof (induction sep s arbitrary: a rule: str_cut.induct)
  case (1 sep)
  then show ?case by (auto split: if_splits)
next
  case (2 sep c s)
  show ?case
  proof (cases "strip_prefix sep (c # s)")
    case None
    with 2 show ?thesis by auto
  next
    case (Some r)
    then have "c # s = sep @ r" by (simp only: strip_prefix_Some)
    moreover from Some "2.prems" have "a = []" "b = r" by auto
    ultimately show ?thesis by simp
  qed
qed

text \<open>The cut is at the first occurrence: no earlier split of the string works.\<close>

lemma cut_first:
  "str_cut sep s = Some (a, b) \<Longrightarrow> s = a' @ sep @ b' \<Longrightarrow> length a \<le> length a'"
proof (induction sep s arbitrary: a a' rule: str_cut.induct)
  case (1 sep)
  then show ?case by (auto split: if_splits)
next
  case (2 sep c s)
  show ?case
  proof (cases a')
    case Nil
    with "2.prems"(2) have "strip_prefix sep (c # s) = Some b'" by (simp only: append.simps strip_prefix_append)
    with "2.prems"(1) show ?thesis by simp
  next
    case (Cons d a'')
    with "2.prems"(2) have s: "s = a'' @ sep @ b'" by simp
    with "2.prems"(1) "2.IH" show ?thesis
      by (cases "strip_prefix sep (c # s)") (auto simp: Cons)
  qed
qed

lemma cut_here [simp]: "str_cut sep (sep @ b) = Some ([], b)"
proof (cases "sep @ b")
  case Nil
  then show ?thesis by simp
next
  case (Cons c s)
  then have "strip_prefix sep (c # s) = Some b" by (simp only: strip_prefix_Some)
  then show ?thesis by (simp add: Cons)
qed

lemma cut_exists: "(\<exists>a b. s = a @ sep @ b) \<longleftrightarrow> str_cut sep s \<noteq> None"
proof
  assume "\<exists>a b. s = a @ sep @ b"
  then obtain a b where "s = a @ sep @ b" by blast
  then show "str_cut sep s \<noteq> None"
  proof (induction a arbitrary: s)
    case Nil
    then show ?case by simp
  next
    case (Cons c a)
    then show ?case by (auto split: option.splits)
  qed
next
  assume "str_cut sep s \<noteq> None"
  then show "\<exists>a b. s = a @ sep @ b" using cut_Some_append by fastforce
qed

lemma str_contains_iff: "str_contains s sub \<longleftrightarrow> (\<exists>a b. s = a @ sub @ b)"
  by (simp add: str_contains_def cut_exists)

lemma cut_char_notin: "c \<notin> set a \<Longrightarrow> str_cut [c] (a @ c # b) = Some (a, b)"
  by (induction a) auto

lemma cut_char_None: "str_cut [c] s = None \<longleftrightarrow> c \<notin> set s"
  by (induction s) auto

subsection \<open>\<open>strings.Split\<close> on one byte, \<open>strings.Join\<close>\<close>

fun split_char :: "char \<Rightarrow> string \<Rightarrow> string list" where
  "split_char c [] = [[]]"
| "split_char c (d # s) =
     (if d = c then [] # split_char c s
      else (case split_char c s of [] \<Rightarrow> [[d]] | w # ws \<Rightarrow> (d # w) # ws))"

fun join :: "string \<Rightarrow> string list \<Rightarrow> string" where
  "join sep [] = []"
| "join sep [x] = x"
| "join sep (x # y # ys) = x @ sep @ join sep (y # ys)"

lemma split_char_not_Nil [simp]: "split_char c s \<noteq> []"
  by (induction s) (auto split: list.splits)

lemma join_Cons_ne: "ys \<noteq> [] \<Longrightarrow> join sep (x # ys) = x @ sep @ join sep ys"
  by (cases ys) auto

lemma join_split_char: "join [c] (split_char c s) = s"
proof (induction s)
  case Nil
  then show ?case by simp
next
  case (Cons d s)
  then show ?case
    by (cases "split_char c s"; cases "tl (split_char c s)") (auto simp: join_Cons_ne)
qed

lemma split_char_no_sep: "w \<in> set (split_char c s) \<Longrightarrow> c \<notin> set w"
  by (induction s arbitrary: w) (fastforce split: if_splits list.splits)+

lemma split_char_notin: "c \<notin> set s \<Longrightarrow> split_char c s = [s]"
  by (induction s) auto

lemma split_char_append: "c \<notin> set a \<Longrightarrow> split_char c (a @ c # b) = a # split_char c b"
  by (induction a) auto

lemma split_char_join:
  "xs \<noteq> [] \<Longrightarrow> \<forall>x \<in> set xs. c \<notin> set x \<Longrightarrow> split_char c (join [c] xs) = xs"
  by (induction "[c]" xs rule: join.induct) (auto simp: split_char_append split_char_notin)

subsection \<open>\<open>strings.Compare\<close>\<close>

fun str_compare :: "string \<Rightarrow> string \<Rightarrow> int" where
  "str_compare [] [] = 0"
| "str_compare [] (d # t) = -1"
| "str_compare (c # s) [] = 1"
| "str_compare (c # s) (d # t) =
     (if c = d then str_compare s t else if (of_char c :: int) < of_char d then -1 else 1)"

lemma str_compare_flip: "str_compare s t < 0 \<longleftrightarrow> 0 < str_compare t s"
  by (induction s t rule: str_compare.induct) auto

lemma str_compare_0 [simp]: "str_compare s t = 0 \<longleftrightarrow> s = t"
  by (induction s t rule: str_compare.induct) auto

lemma str_compare_trans: "str_compare s t \<le> 0 \<Longrightarrow> str_compare t u \<le> 0 \<Longrightarrow> str_compare s u \<le> 0"
proof (induction s t arbitrary: u rule: str_compare.induct)
  case 1
  then show ?case by simp
next
  case (2 d t)
  then show ?case by (cases u) auto
next
  case (3 c s)
  then show ?case by simp
next
  case (4 c s d t)
  then show ?case by (cases u) (auto split: if_splits)
qed

interpretation str_order: comparator str_compare
  by unfold_locales (auto simp: str_compare_flip intro: str_compare_trans)

subsection \<open>Decimal numbers: \<open>%d\<close>, \<open>strconv.Itoa\<close>, \<open>strconv.Atoi\<close>\<close>

definition digit_char :: "nat \<Rightarrow> char" where
  "digit_char d = char_of (48 + d)"

definition digit_value :: "char \<Rightarrow> nat option" where
  "digit_value c = (let k = of_char c in if 48 \<le> k \<and> k \<le> (57::nat) then Some (k - 48) else None)"

fun nat_text :: "nat \<Rightarrow> string" where
  "nat_text n = (if n < 10 then [digit_char n] else nat_text (n div 10) @ [digit_char (n mod 10)])"

declare nat_text.simps [simp del, evals]

definition itoa :: "int \<Rightarrow> string" where
  "itoa i = (if i < 0 then CHR ''-'' # nat_text (nat (- i)) else nat_text (nat i))"

fun digits_value :: "nat \<Rightarrow> string \<Rightarrow> nat option" where
  "digits_value acc [] = Some acc"
| "digits_value acc (c # s) =
     (case digit_value c of None \<Rightarrow> None | Some d \<Rightarrow> digits_value (10 * acc + d) s)"

definition max_int :: int where "max_int = 9223372036854775807"
definition min_int :: int where "min_int = -9223372036854775808"

text \<open>\<open>Atoi\<close> reads an optional sign and decimal digits, and refuses what a 64-bit \<open>int\<close> cannot hold.\<close>

definition atoi :: "string \<Rightarrow> int option" where
  "atoi s =
     (let neg = (case s of [] \<Rightarrow> False | c # _ \<Rightarrow> c = CHR ''-'');
          ds = (case s of [] \<Rightarrow> [] | c # r \<Rightarrow> if c = CHR ''-'' \<or> c = CHR ''+'' then r else s)
      in if ds = [] then None
         else case digits_value 0 ds of
                None \<Rightarrow> None
              | Some n \<Rightarrow> (let v = (if neg then - int n else int n)
                          in if min_int \<le> v \<and> v \<le> max_int then Some v else None))"

lemma digit_value_digit_char [simp]: "d < 10 \<Longrightarrow> digit_value (digit_char d) = Some d"
  by (simp add: digit_value_def digit_char_def Let_def of_char_of)

lemma digit_char_range: "d < 10 \<Longrightarrow> 48 \<le> (of_char (digit_char d) :: nat) \<and> (of_char (digit_char d) :: nat) \<le> 57"
  by (simp add: digit_char_def of_char_of)

lemma nat_text_nonempty [simp]: "nat_text n \<noteq> []"
  by (subst nat_text.simps) simp

lemma nat_text_digits: "c \<in> set (nat_text n) \<Longrightarrow> 48 \<le> (of_char c :: nat) \<and> (of_char c :: nat) \<le> 57"
proof (induction n rule: nat_text.induct)
  case (1 n)
  show ?case
  proof (cases "n < 10")
    case True
    with 1 show ?thesis by (subst (asm) (2) nat_text.simps) (simp add: digit_char_range)
  next
    case False
    with "1.prems" have "c \<in> set (nat_text (n div 10)) \<or> c = digit_char (n mod 10)"
      by (subst (asm) nat_text.simps) auto
    with False "1.IH" show ?thesis by (auto simp: digit_char_range)
  qed
qed

lemma nat_text_no:
  "(of_char c :: nat) < 48 \<or> 57 < (of_char c :: nat) \<Longrightarrow> c \<notin> set (nat_text n)"
  using nat_text_digits by fastforce

lemma digits_value_append:
  "digits_value acc (s @ t) = (case digits_value acc s of None \<Rightarrow> None | Some m \<Rightarrow> digits_value m t)"
  by (induction s arbitrary: acc) (auto split: option.splits)

lemma digits_value_nat_text: "digits_value 0 (nat_text n) = Some n"
proof (induction n rule: nat_text.induct)
  case (1 n)
  show ?case
  proof (cases "n < 10")
    case True
    then show ?thesis by (subst nat_text.simps) simp
  next
    case False
    with "1.IH" show ?thesis by (subst nat_text.simps) (simp add: digits_value_append)
  qed
qed

lemma hd_nat_text: "nat_text n = c # r \<Longrightarrow> c \<noteq> CHR ''-'' \<and> c \<noteq> CHR ''+''"
  using nat_text_digits [of c n] by auto

lemma atoi_itoa:
  assumes "min_int \<le> i" and "i \<le> max_int"
  shows "atoi (itoa i) = Some i"
proof (cases "i < 0")
  case True
  with assms show ?thesis
    by (simp add: atoi_def itoa_def digits_value_nat_text Let_def)
next
  case False
  obtain c r where t: "nat_text (nat i) = c # r" by (cases "nat_text (nat i)") auto
  have "digits_value 0 (c # r) = Some (nat i)" using digits_value_nat_text [of "nat i"] t by simp
  with False assms hd_nat_text [OF t] show ?thesis
    by (simp add: atoi_def itoa_def t Let_def)
qed

subsection \<open>White space\<close>

text \<open>
  \<open>strings.TrimSpace\<close> removes the code points \<open>unicode.IsSpace\<close> accepts. Below 128 they are
  the six bytes of \<open>ascii_space\<close>; the others are these UTF-8 encodings. A suffix that is a
  valid encoding is the last rune of the string, since no encoding is a proper suffix of
  another valid one.
\<close>

definition wide_spaces :: "string list" where
  "wide_spaces =
     [[char_of (0xC2::nat), char_of (0x85::nat)], [char_of (0xC2::nat), char_of (0xA0::nat)],
      [char_of (0xE1::nat), char_of (0x9A::nat), char_of (0x80::nat)]]
     @ map (\<lambda>k. [char_of (0xE2::nat), char_of (0x80::nat), char_of k]) [0x80..<0x8B]
     @ map (\<lambda>k. [char_of (0xE2::nat), char_of (0x80::nat), char_of (k::nat)]) [0xA8, 0xA9, 0xAF]
     @ [[char_of (0xE2::nat), char_of (0x81::nat), char_of (0x9F::nat)],
        [char_of (0xE3::nat), char_of (0x80::nat), char_of (0x80::nat)]]"

definition ascii_space :: "char \<Rightarrow> bool" where
  "ascii_space c = (let k = (of_char c :: nat) in 9 \<le> k \<and> k \<le> 13 \<or> k = 32)"

definition space_runes :: "string list" where
  "space_runes = map (\<lambda>k. [char_of (k::nat)]) [9, 10, 11, 12, 13, 32] @ wide_spaces"

fun first_strip :: "string list \<Rightarrow> string \<Rightarrow> string option" where
  "first_strip [] s = None"
| "first_strip (p # ps) s = (case strip_prefix p s of None \<Rightarrow> first_strip ps s | Some r \<Rightarrow> Some r)"

text \<open>Stripping any of the given prefixes for as long as one applies; the fuel is the length of the string.\<close>

fun strip_runes :: "nat \<Rightarrow> string list \<Rightarrow> string \<Rightarrow> string" where
  "strip_runes 0 ps s = s"
| "strip_runes (Suc n) ps s =
     (case first_strip ps s of None \<Rightarrow> s | Some r \<Rightarrow> strip_runes n ps r)"

definition trim_left_runes :: "string list \<Rightarrow> string \<Rightarrow> string" where
  "trim_left_runes ps s = strip_runes (length s) ps s"

definition trim_right_runes :: "string list \<Rightarrow> string \<Rightarrow> string" where
  "trim_right_runes ps s = rev (trim_left_runes (map rev ps) (rev s))"

definition trim_space :: "string \<Rightarrow> string" where
  "trim_space s = trim_right_runes space_runes (trim_left_runes space_runes s)"

lemma first_strip_shorter:
  "first_strip ps s = Some r \<Longrightarrow> [] \<notin> set ps \<Longrightarrow> length r < length s"
  by (induction ps) (auto split: option.splits simp: strip_prefix_Some)

lemma first_strip_suffix: "first_strip ps s = Some r \<Longrightarrow> \<exists>p. s = p @ r"
  by (induction ps) (auto split: option.splits simp: strip_prefix_Some)

lemma strip_runes_suffix: "\<exists>p. s = p @ strip_runes n ps s"
proof (induction n arbitrary: s)
  case 0
  then show ?case by simp
next
  case (Suc n)
  show ?case
  proof (cases "first_strip ps s")
    case None
    then show ?thesis by simp
  next
    case (Some r)
    obtain p where p: "s = p @ r" using first_strip_suffix [OF Some] by blast
    obtain q where q: "r = q @ strip_runes n ps r" using Suc.IH by blast
    have "s = (p @ q) @ strip_runes n ps r" using p q by (metis append.assoc)
    with Some show ?thesis by auto
  qed
qed

text \<open>The fuel suffices: nothing strippable is left in front.\<close>

lemma strip_runes_done:
  "[] \<notin> set ps \<Longrightarrow> length s \<le> n \<Longrightarrow> first_strip ps (strip_runes n ps s) = None"
proof (induction n ps s rule: strip_runes.induct)
  case (1 ps s)
  then have "first_strip ps [] = None"
    by (cases "first_strip ps []") (auto dest: first_strip_shorter)
  with 1 show ?case by simp
next
  case (2 n ps s)
  show ?case
  proof (cases "first_strip ps s")
    case None
    then show ?thesis by simp
  next
    case (Some r)
    with 2 first_strip_shorter [OF Some] show ?thesis by simp
  qed
qed

lemma trim_left_done: "[] \<notin> set ps \<Longrightarrow> first_strip ps (trim_left_runes ps s) = None"
  by (simp add: trim_left_runes_def strip_runes_done)

lemma trim_left_id: "first_strip ps s = None \<Longrightarrow> trim_left_runes ps s = s"
  by (cases "length s") (auto simp: trim_left_runes_def)

text \<open>Printable ASCII is no part of a space, so such bytes at both ends survive \<open>TrimSpace\<close>.\<close>

definition graph_char :: "char \<Rightarrow> bool" where
  "graph_char c = (let k = (of_char c :: nat) in 33 \<le> k \<and> k \<le> 126)"

lemma strip_one:
  "first_strip ps (c # s) = Some s \<Longrightarrow> first_strip ps s = None \<Longrightarrow> trim_left_runes ps (c # s) = s"
  by (cases s) (simp_all add: trim_left_runes_def)

lemma space_runes_edges:
  "list_all (\<lambda>p. p \<noteq> [] \<and> \<not> graph_char (hd p) \<and> \<not> graph_char (last p)) space_runes"
  by code_simp

lemma graph_no_strip:
  assumes "s \<noteq> []" "graph_char (hd s)"
  shows "first_strip space_runes s = None" and "first_strip (map rev space_runes) s = None"
proof -
  from assms obtain c r where s: "s = c # r" "graph_char c" by (cases s) auto
  have g: "first_strip ps (c # r) = None" if "\<And>p. p \<in> set ps \<Longrightarrow> p \<noteq> [] \<and> hd p \<noteq> c" for ps
    using that
  proof (induction ps)
    case (Cons p ps)
    then have "p \<noteq> []" "hd p \<noteq> c" by auto
    then have "strip_prefix p (c # r) = None" by (cases p) auto
    with Cons show ?case by simp
  qed simp
  have l: "p \<noteq> [] \<and> \<not> graph_char (hd p) \<and> \<not> graph_char (last p)" if "p \<in> set space_runes" for p
    using space_runes_edges that by (auto simp: list_all_iff)
  show "first_strip space_runes s = None"
    unfolding s(1) by (rule g) (use l s(2) in blast)
  show "first_strip (map rev space_runes) s = None"
    unfolding s(1) by (rule g) (use l s(2) in \<open>auto simp: hd_rev\<close>)
qed

lemma trim_space_graph:
  assumes "s \<noteq> []" "graph_char (hd s)" "graph_char (last s)"
  shows "trim_space s = s" and "trim_space (s @ [char_of (10::nat)]) = s"
proof -
  have r: "rev s \<noteq> []" "graph_char (hd (rev s))" using assms by (auto simp: hd_rev)
  have L: "trim_left_runes space_runes (s @ t) = s @ t" for t
    using assms graph_no_strip(1) [of "s @ t"] by (simp add: trim_left_id)
  show "trim_space s = s"
    using L [of "[]"] graph_no_strip(2) [OF r] by (simp add: trim_space_def trim_right_runes_def trim_left_id)
  have "first_strip (map rev space_runes) (char_of (10::nat) # rev s) = Some (rev s)"
    by (simp add: space_runes_def)
  with L [of "[char_of (10::nat)]"] graph_no_strip(2) [OF r] show "trim_space (s @ [char_of (10::nat)]) = s"
    by (simp add: trim_space_def trim_right_runes_def strip_one)
qed
text \<open>\<open>strings.Lines\<close>: each line keeps its newline, and an empty last line is none.\<close>

definition newline :: char where
  "newline = char_of (10::nat)"

text \<open>
  The verb \<open>%q\<close>: \<open>strconv.Quote\<close> on ASCII; bytes from 128 up are kept, as they are for the valid UTF-8 of
  printable characters.
\<close>

definition hex_digit :: "nat \<Rightarrow> char" where
  "hex_digit n = char_of (if n < 10 then 48 + n else 87 + n)"

definition quote_char :: "char \<Rightarrow> string" where
  "quote_char c =
     (if c = CHR 0x22 \<or> c = CHR 0x5C then [CHR 0x5C, c]
      else case map_of [(7, CHR ''a''), (8, CHR ''b''), (9, CHR ''t''), (10, CHR ''n''), (11, CHR ''v''),
                        (12, CHR ''f''), (13, CHR ''r'')] (of_char c :: nat) of
        Some l \<Rightarrow> [CHR 0x5C, l]
      | None \<Rightarrow>
          let n = of_char c :: nat in
          if n < 32 \<or> n = 127 then [CHR 0x5C, CHR ''x'', hex_digit (n div 16), hex_digit (n mod 16)] else [c])"

definition quoted :: "string \<Rightarrow> string" where
  "quoted s = CHR 0x22 # concat (map quote_char s) @ [CHR 0x22]"


definition str_lines :: "string \<Rightarrow> string list" where
  "str_lines s =
     (let ps = split_char newline s
      in map (\<lambda>p. p @ [newline]) (butlast ps) @ (if last ps = [] then [] else [last ps]))"

subsection \<open>\<open>filepath.Base\<close>, \<open>strings.Trim\<close> on bytes, \<open>strings.ToLower\<close>\<close>

definition trim_left_bytes :: "char list \<Rightarrow> string \<Rightarrow> string" where
  "trim_left_bytes cs s = dropWhile (\<lambda>c. c \<in> set cs) s"

definition trim_right_bytes :: "char list \<Rightarrow> string \<Rightarrow> string" where
  "trim_right_bytes cs s = rev (dropWhile (\<lambda>c. c \<in> set cs) (rev s))"

definition trim_bytes :: "char list \<Rightarrow> string \<Rightarrow> string" where
  "trim_bytes cs s = trim_right_bytes cs (trim_left_bytes cs s)"

definition path_base :: "string \<Rightarrow> string" where
  "path_base s =
     (if s = [] then ''.''
      else let t = trim_right_bytes ''/'' s
           in if t = [] then ''/'' else rev (takeWhile (\<lambda>c. c \<noteq> CHR ''/'') (rev t)))"

text \<open>Lower case on the ASCII letters; callers pass ASCII names.\<close>

definition lower_byte :: "char \<Rightarrow> char" where
  "lower_byte c = (let k = (of_char c :: nat) in if 65 \<le> k \<and> k \<le> 90 then char_of (k + 32) else c)"

lemma path_base_no_slash: "CHR ''/'' \<notin> set (path_base s) \<or> path_base s = ''/''"
  by (auto simp: path_base_def Let_def dest: set_takeWhileD)

subsection \<open>UTF-8: \<open>utf8.DecodeRuneInString\<close> and \<open>strings.ToValidUTF8\<close>\<close>

definition byte_in :: "nat \<Rightarrow> nat \<Rightarrow> string \<Rightarrow> nat \<Rightarrow> bool" where
  "byte_in lo hi s i = (i < length s \<and> lo \<le> of_char (s ! i) \<and> of_char (s ! i) \<le> hi)"

definition three_bytes :: "string \<Rightarrow> bool" where
  "three_bytes s =
     ((byte_in 0xE0 0xE0 s 0 \<and> byte_in 0xA0 0xBF s 1 \<or> byte_in 0xE1 0xEC s 0 \<and> byte_in 0x80 0xBF s 1
       \<or> byte_in 0xED 0xED s 0 \<and> byte_in 0x80 0x9F s 1 \<or> byte_in 0xEE 0xEF s 0 \<and> byte_in 0x80 0xBF s 1)
      \<and> byte_in 0x80 0xBF s 2)"

definition four_bytes :: "string \<Rightarrow> bool" where
  "four_bytes s =
     ((byte_in 0xF0 0xF0 s 0 \<and> byte_in 0x90 0xBF s 1 \<or> byte_in 0xF1 0xF3 s 0 \<and> byte_in 0x80 0xBF s 1
       \<or> byte_in 0xF4 0xF4 s 0 \<and> byte_in 0x80 0x8F s 1)
      \<and> byte_in 0x80 0xBF s 2 \<and> byte_in 0x80 0xBF s 3)"

text \<open>The length of the first rune, \<open>None\<close> where the first byte starts no valid encoding.\<close>

definition utf8_len :: "string \<Rightarrow> nat option" where
  "utf8_len s =
     (if byte_in 0 0x7F s 0 then Some 1
      else if byte_in 0xC2 0xDF s 0 \<and> byte_in 0x80 0xBF s 1 then Some 2
      else if three_bytes s then Some 3
      else if four_bytes s then Some 4
      else None)"

lemma byte_in_length: "byte_in lo hi s i \<Longrightarrow> i < length s"
  by (simp add: byte_in_def)

lemma utf8_len_bounds: "utf8_len s = Some n \<Longrightarrow> 0 < n \<and> n \<le> length s"
  unfolding utf8_len_def three_bytes_def four_bytes_def
  by (auto dest!: byte_in_length simp: Suc_le_eq split: if_splits)

function to_valid_utf8 :: "string \<Rightarrow> string" where
  "to_valid_utf8 [] = []"
| "to_valid_utf8 (c # s) =
     (case utf8_len (c # s) of
        None \<Rightarrow> to_valid_utf8 s
      | Some n \<Rightarrow> take n (c # s) @ to_valid_utf8 (drop n (c # s)))"
  by pat_completeness auto
termination
  by (relation "measure length") (auto dest: utf8_len_bounds)

declare to_valid_utf8.simps(2) [simp del]

lemma byte_in_take: "i < n \<Longrightarrow> byte_in lo hi (take n s @ t) i \<longleftrightarrow> byte_in lo hi s i" if "n \<le> length s"
  using that by (simp add: byte_in_def nth_append)

lemma utf8_len_prefix:
  assumes "utf8_len s = Some n"
  shows "utf8_len (take n s @ t) = Some n"
proof -
  have n: "n \<le> length s" using utf8_len_bounds [OF assms] by simp
  have b: "i < n \<Longrightarrow> byte_in lo hi (take n s @ t) i = byte_in lo hi s i" for i lo hi
    using n by (rule byte_in_take)
  have three: "3 \<le> n \<Longrightarrow> three_bytes (take n s @ t) = three_bytes s"
    by (simp add: three_bytes_def b)
  have four: "4 \<le> n \<Longrightarrow> four_bytes (take n s @ t) = four_bytes s"
    by (simp add: four_bytes_def b)
  consider "n = 1" | "n = 2" | "n = 3" | "n = 4"
    using assms by (auto simp: utf8_len_def split: if_splits)
  then show ?thesis
    by cases (use assms b three four in \<open>simp_all add: utf8_len_def split: if_splits\<close>)
qed

lemma to_valid_utf8_idem [simp]: "to_valid_utf8 (to_valid_utf8 s) = to_valid_utf8 s"
proof (induction s rule: to_valid_utf8.induct)
  case 1
  then show ?case by simp
next
  case (2 c s)
  show ?case
  proof (cases "utf8_len (c # s)")
    case None
    with 2 show ?thesis by (simp add: to_valid_utf8.simps(2))
  next
    case (Some n)
    let ?t = "take n (c # s)" and ?r = "to_valid_utf8 (drop n (c # s))"
    from utf8_len_bounds [OF Some] have n: "0 < n" "n \<le> length (c # s)" by auto
    then obtain t where t: "?t @ ?r = c # t" by (cases n) auto
    have "utf8_len (c # t) = Some n" using utf8_len_prefix [OF Some, of ?r] t by simp
    moreover have "take n (c # t) = ?t" "drop n (c # t) = ?r"
      using n t by (metis append_eq_conv_conj length_take min.absorb2)+
    ultimately have "to_valid_utf8 (c # t) = ?t @ to_valid_utf8 ?r"
      by (simp add: to_valid_utf8.simps(2) del: take_Suc_Cons)
    with 2(2) [OF Some] Some t show ?thesis by (simp add: to_valid_utf8.simps(2))
  qed
qed

end
