(* ===== verification/Vocab.thy ===== *)
theory Vocab imports Go_Strings begin

text \<open>
  The vocabulary of \<open>internal/plan\<close>: the typed strings and enumerations of \<open>ids.go\<close>,
  \<open>vocab.go\<close>, \<open>state.go\<close>, \<open>disposition.go\<close>, \<open>glyph.go\<close>, the effort of \<open>compose.go\<close> and the
  pull request state of \<open>plan.go\<close>, with their printers and parsers.

  A Go string type with a closed list of constants is a datatype with a printer; the parser
  takes a string to the member that prints it. The locale \<open>vocabulary\<close> is the contract of such
  a type: a list of members with distinct texts. A ticket URL, a SHA, a step name and a
  reason are plain strings, a run id is an integer.
\<close>

subsection \<open>ids.go\<close>

type_synonym ticket_url = string
type_synonym sha = string
type_synonym run_id = int
type_synonym reason = string

datatype branch_ref = BranchRef (ref_repo: string) (ref_branch: string)

definition marshal_ref :: "branch_ref \<Rightarrow> string" where
  "marshal_ref b = ref_repo b @ ''//'' @ ref_branch b"

datatype parse_error = MissingSlashes string | UnknownMember string string

definition unmarshal_ref :: "string \<Rightarrow> parse_error + branch_ref" where
  "unmarshal_ref s =
     (case str_cut ''//'' s of None \<Rightarrow> Inl (MissingSlashes s) | Some (r, b) \<Rightarrow> Inr (BranchRef r b))"

definition join_urls :: "ticket_url list \<Rightarrow> string" where
  "join_urls urls = join '', '' urls"

text \<open>A repository name with no \<open>//\<close> in it, nor a \<open>/\<close> at its end, is read back.\<close>

definition plain_repo :: "string \<Rightarrow> bool" where
  "plain_repo r = (\<not> str_contains (r @ ''/'') ''//'')"

lemma cut_slashes:
  "\<not> str_contains (r @ ''/'') ''//'' \<Longrightarrow> str_cut ''//'' (r @ ''//'' @ b) = Some (r, b)"
proof (induction r)
  case Nil
  then show ?case by simp
next
  case (Cons c r)
  have "\<not> str_contains (r @ ''/'') ''//''"
    using Cons.prems by (auto simp: str_contains_def split: option.splits)
  moreover have "strip_prefix ''//'' (c # r @ ''//'' @ b) = None"
  proof (rule ccontr)
    assume "strip_prefix ''//'' (c # r @ ''//'' @ b) \<noteq> None"
    then have "c = CHR ''/'' \<and> (r = [] \<or> hd r = CHR ''/'')"
      by (cases r) (auto split: if_splits)
    then have "strip_prefix ''//'' ((c # r) @ ''/'') \<noteq> None" by (cases r) auto
    with Cons.prems show False by (auto simp: str_contains_def)
  qed
  ultimately show ?case using Cons.IH by simp
qed

subsection \<open>vocab.go\<close>

datatype verb = VerbUnknown | VerbLaunch | VerbKill | VerbReRun | VerbRetryPush | VerbRemoveWorktree | VerbCancel | VerbRefresh | VerbAbort | VerbFollowUp | VerbImport | VerbTrack

fun verb_text :: "verb \<Rightarrow> string" where
  "verb_text VerbUnknown = ''''"
| "verb_text VerbLaunch = ''launch''"
| "verb_text VerbKill = ''kill''"
| "verb_text VerbReRun = ''re-run''"
| "verb_text VerbRetryPush = ''retry-push''"
| "verb_text VerbRemoveWorktree = ''remove-worktree''"
| "verb_text VerbCancel = ''cancel''"
| "verb_text VerbRefresh = ''refresh''"
| "verb_text VerbAbort = ''abort''"
| "verb_text VerbFollowUp = ''follow-up''"
| "verb_text VerbImport = ''import''"
| "verb_text VerbTrack = ''track''"

datatype run_kind = RunKindUnknown | RunKindAgent | RunKindFollowUp | RunKindCommand

fun run_kind_text :: "run_kind \<Rightarrow> string" where
  "run_kind_text RunKindUnknown = ''''"
| "run_kind_text RunKindAgent = ''agent''"
| "run_kind_text RunKindFollowUp = ''follow_up''"
| "run_kind_text RunKindCommand = ''command''"

datatype repo_phase = RepoPhaseUnknown | RepoCloning | RepoReady | RepoRefused

fun repo_phase_text :: "repo_phase \<Rightarrow> string" where
  "repo_phase_text RepoPhaseUnknown = ''''"
| "repo_phase_text RepoCloning = ''cloning''"
| "repo_phase_text RepoReady = ''ready''"
| "repo_phase_text RepoRefused = ''refused''"

datatype refusal_kind = RefusalUnknown | RefusalMergeSettings | RefusalDefaultBranch | RefusalClone | RefusalSettingsParse

fun refusal_kind_text :: "refusal_kind \<Rightarrow> string" where
  "refusal_kind_text RefusalUnknown = ''''"
| "refusal_kind_text RefusalMergeSettings = ''merge_settings''"
| "refusal_kind_text RefusalDefaultBranch = ''default_branch''"
| "refusal_kind_text RefusalClone = ''clone''"
| "refusal_kind_text RefusalSettingsParse = ''settings_parse''"

datatype glyph_word = GlyphUnknown | GlyphFailed | GlyphAttention | GlyphRunning | GlyphPending | GlyphChecking | GlyphReady | GlyphBlocked | GlyphDone

definition all_verbs :: "verb list" where
  "all_verbs = [VerbLaunch, VerbKill, VerbReRun, VerbRetryPush, VerbRemoveWorktree, VerbCancel, VerbRefresh, VerbAbort, VerbFollowUp, VerbImport, VerbTrack]"

definition all_run_kinds :: "run_kind list" where
  "all_run_kinds = [RunKindAgent, RunKindFollowUp, RunKindCommand]"

definition all_repo_phases :: "repo_phase list" where
  "all_repo_phases = [RepoCloning, RepoReady, RepoRefused]"

definition all_refusal_kinds :: "refusal_kind list" where
  "all_refusal_kinds = [RefusalMergeSettings, RefusalDefaultBranch, RefusalClone, RefusalSettingsParse]"

definition is_row_verb :: "verb \<Rightarrow> bool" where
  "is_row_verb v = (case v of
       VerbKill \<Rightarrow> True | VerbReRun \<Rightarrow> True | VerbRetryPush \<Rightarrow> True | VerbRemoveWorktree \<Rightarrow> True
     | VerbCancel \<Rightarrow> True | VerbRefresh \<Rightarrow> True | VerbAbort \<Rightarrow> True | VerbFollowUp \<Rightarrow> True
     | VerbUnknown \<Rightarrow> False | VerbLaunch \<Rightarrow> False | VerbImport \<Rightarrow> False | VerbTrack \<Rightarrow> False)"

text \<open>\<open>parseMember\<close>: the member of the set whose text is the argument.\<close>

definition parse_member :: "string \<Rightarrow> ('a \<Rightarrow> string) \<Rightarrow> 'a list \<Rightarrow> string \<Rightarrow> parse_error + 'a" where
  "parse_member name spell members s =
     (case find (\<lambda>v. spell v = s) members of Some v \<Rightarrow> Inr v | None \<Rightarrow> Inl (UnknownMember name s))"

definition parse_verb :: "string \<Rightarrow> parse_error + verb" where
  "parse_verb s = parse_member ''verb'' verb_text all_verbs s"

definition parse_run_kind :: "string \<Rightarrow> parse_error + run_kind" where
  "parse_run_kind s = parse_member ''run kind'' run_kind_text all_run_kinds s"

definition parse_repo_phase :: "string \<Rightarrow> parse_error + repo_phase" where
  "parse_repo_phase s = parse_member ''repo phase'' repo_phase_text all_repo_phases s"

definition parse_refusal_kind :: "string \<Rightarrow> parse_error + refusal_kind" where
  "parse_refusal_kind s = parse_member ''refusal kind'' refusal_kind_text all_refusal_kinds s"

text \<open>The contract of a closed vocabulary: its members have distinct texts.\<close>

locale vocabulary =
  fixes members :: "'a list" and spell :: "'a \<Rightarrow> string"
  assumes distinct_texts: "distinct (map spell members)"
begin

lemma find_text: "v \<in> set members \<Longrightarrow> find (\<lambda>w. spell w = spell v) members = Some v"
  using distinct_texts
  by (induction members) auto

lemma parse_print: "v \<in> set members \<Longrightarrow> parse_member name spell members (spell v) = Inr v"
  by (simp add: parse_member_def find_text)

lemma parse_Inr: "parse_member name spell members s = Inr v \<longleftrightarrow> v \<in> set members \<and> spell v = s"
proof
  assume "parse_member name spell members s = Inr v"
  then have "find (\<lambda>w. spell w = s) members = Some v"
    by (auto simp: parse_member_def split: option.splits)
  then show "v \<in> set members \<and> spell v = s" by (auto simp: find_Some_iff)
next
  assume "v \<in> set members \<and> spell v = s"
  with parse_print [of v name] show "parse_member name spell members s = Inr v" by simp
qed

end

interpretation verbs: vocabulary all_verbs verb_text
  by unfold_locales (simp add: all_verbs_def)

interpretation run_kinds: vocabulary all_run_kinds run_kind_text
  by unfold_locales (simp add: all_run_kinds_def)

interpretation repo_phases: vocabulary all_repo_phases repo_phase_text
  by unfold_locales (simp add: all_repo_phases_def)

interpretation refusal_kinds: vocabulary all_refusal_kinds refusal_kind_text
  by unfold_locales (simp add: all_refusal_kinds_def)

subsection \<open>plan.go: the row states, and state.go: what each state shows and offers\<close>

datatype state =
    StateUnknown | Blocked | Ready | Queued | Running | Failed
  | CutFailed | PushPending | Checking | NeedsYou | PushFailed | ReviewMe
  | PRMerged | PRClosedUnmerged | BaseGone | Cancelled | BaseMoved | CIFailed
  | RefreshConflicted | ConflictsWithMain | VerificationFailed | WaitingOnProducerDeploy | AwaitingInput

primrec state_number :: "state \<Rightarrow> nat" where
  "state_number StateUnknown = 0"
| "state_number Blocked = 1"
| "state_number Ready = 2"
| "state_number Queued = 3"
| "state_number Running = 4"
| "state_number Failed = 5"
| "state_number CutFailed = 6"
| "state_number PushPending = 7"
| "state_number Checking = 8"
| "state_number NeedsYou = 9"
| "state_number PushFailed = 10"
| "state_number ReviewMe = 11"
| "state_number PRMerged = 12"
| "state_number PRClosedUnmerged = 13"
| "state_number BaseGone = 14"
| "state_number Cancelled = 15"
| "state_number BaseMoved = 16"
| "state_number CIFailed = 17"
| "state_number RefreshConflicted = 18"
| "state_number ConflictsWithMain = 19"
| "state_number VerificationFailed = 20"
| "state_number WaitingOnProducerDeploy = 21"
| "state_number AwaitingInput = 22"

text \<open>The states are ordered as their constants are declared.\<close>

lemma state_number_inj: "state_number s = state_number t \<Longrightarrow> s = t"
  by (cases s; cases t; simp)

instantiation state :: linorder
begin

definition less_eq_state :: "state \<Rightarrow> state \<Rightarrow> bool" where
  "less_eq_state s t = (state_number s \<le> state_number t)"

definition less_state :: "state \<Rightarrow> state \<Rightarrow> bool" where
  "less_state s t = (state_number s < state_number t)"

instance
  by standard (auto simp: less_eq_state_def less_state_def intro: state_number_inj)

end

record state_spec =
  spec_name :: string
  spec_label :: string
  spec_glyph :: glyph_word
  spec_verbs :: "verb list"
  spec_unattended :: bool

definition state_info :: "(state, state_spec) gomap" where
  "state_info =
    [(Blocked, \<lparr>spec_name = ''blocked'', spec_label = ''Blocked'', spec_glyph = GlyphBlocked,
        spec_verbs = [VerbLaunch], spec_unattended = False\<rparr>),
     (Ready, \<lparr>spec_name = ''ready'', spec_label = ''Ready to launch'', spec_glyph = GlyphReady,
        spec_verbs = [VerbLaunch], spec_unattended = False\<rparr>),
     (Queued, \<lparr>spec_name = ''queued'', spec_label = ''Queued'', spec_glyph = GlyphPending,
        spec_verbs = [VerbCancel], spec_unattended = True\<rparr>),
     (Running, \<lparr>spec_name = ''running'', spec_label = ''Agent running'', spec_glyph = GlyphRunning,
        spec_verbs = [VerbKill, VerbFollowUp], spec_unattended = True\<rparr>),
     (Failed, \<lparr>spec_name = ''failed'', spec_label = ''Failed'', spec_glyph = GlyphFailed,
        spec_verbs = [VerbReRun, VerbFollowUp], spec_unattended = False\<rparr>),
     (CutFailed, \<lparr>spec_name = ''cut_failed'', spec_label = ''Cut failed'', spec_glyph = GlyphFailed,
        spec_verbs = [VerbReRun, VerbFollowUp], spec_unattended = False\<rparr>),
     (PushPending, \<lparr>spec_name = ''push_pending'', spec_label = ''Waiting to push'', spec_glyph = GlyphPending,
        spec_verbs = [], spec_unattended = True\<rparr>),
     (Checking, \<lparr>spec_name = ''checking'', spec_label = ''Waiting on checks'', spec_glyph = GlyphChecking,
        spec_verbs = [VerbReRun, VerbFollowUp], spec_unattended = True\<rparr>),
     (NeedsYou, \<lparr>spec_name = ''needs_you'', spec_label = ''Needs you'', spec_glyph = GlyphAttention,
        spec_verbs = [VerbReRun, VerbFollowUp, VerbKill], spec_unattended = False\<rparr>),
     (PushFailed, \<lparr>spec_name = ''push_failed'', spec_label = ''Push failed'', spec_glyph = GlyphFailed,
        spec_verbs = [VerbRetryPush, VerbReRun, VerbFollowUp], spec_unattended = False\<rparr>),
     (ReviewMe, \<lparr>spec_name = ''review_me'', spec_label = ''Ready for review'', spec_glyph = GlyphAttention,
        spec_verbs = [], spec_unattended = False\<rparr>),
     (PRMerged, \<lparr>spec_name = ''merged'', spec_label = ''Merged'', spec_glyph = GlyphDone,
        spec_verbs = [VerbRemoveWorktree], spec_unattended = False\<rparr>),
     (PRClosedUnmerged, \<lparr>spec_name = ''pr_closed_unmerged'', spec_label = ''PR closed'', spec_glyph = GlyphFailed,
        spec_verbs = [VerbReRun, VerbFollowUp, VerbRemoveWorktree], spec_unattended = False\<rparr>),
     (BaseGone, \<lparr>spec_name = ''base_gone'', spec_label = ''Base gone'', spec_glyph = GlyphFailed,
        spec_verbs = [VerbReRun, VerbFollowUp, VerbRemoveWorktree], spec_unattended = False\<rparr>),
     (Cancelled, \<lparr>spec_name = ''cancelled'', spec_label = ''Cancelled'', spec_glyph = GlyphReady,
        spec_verbs = [VerbLaunch], spec_unattended = False\<rparr>),
     (BaseMoved, \<lparr>spec_name = ''base_moved'', spec_label = ''Base moved'', spec_glyph = GlyphPending,
        spec_verbs = [VerbRefresh, VerbReRun, VerbFollowUp], spec_unattended = True\<rparr>),
     (CIFailed, \<lparr>spec_name = ''ci_failed'', spec_label = ''Checks failing'', spec_glyph = GlyphFailed,
        spec_verbs = [VerbReRun, VerbFollowUp], spec_unattended = False\<rparr>),
     (RefreshConflicted, \<lparr>spec_name = ''refresh_conflicted'', spec_label = ''Refresh conflicted'', spec_glyph = GlyphFailed,
        spec_verbs = [VerbAbort], spec_unattended = False\<rparr>),
     (ConflictsWithMain, \<lparr>spec_name = ''conflicts_with_main'', spec_label = ''Conflicts with main'', spec_glyph = GlyphFailed,
        spec_verbs = [VerbRefresh], spec_unattended = False\<rparr>),
     (VerificationFailed, \<lparr>spec_name = ''verification_failed'', spec_label = ''Verification failed'', spec_glyph = GlyphFailed,
        spec_verbs = [VerbRetryPush, VerbReRun, VerbFollowUp], spec_unattended = False\<rparr>),
     (WaitingOnProducerDeploy, \<lparr>spec_name = ''waiting_on_producer_deploy'', spec_label = ''Waiting on deploy'', spec_glyph = GlyphBlocked,
        spec_verbs = [VerbReRun, VerbFollowUp], spec_unattended = False\<rparr>),
     (AwaitingInput, \<lparr>spec_name = ''awaiting_input'', spec_label = ''Asked you a question'', spec_glyph = GlyphAttention,
        spec_verbs = [VerbFollowUp, VerbReRun], spec_unattended = False\<rparr>)]"

definition state_text :: "state \<Rightarrow> string" where
  "state_text s = (case map_of state_info s of None \<Rightarrow> ''unknown'' | Some i \<Rightarrow> spec_name i)"

definition state_label :: "state \<Rightarrow> string" where
  "state_label s = (case map_of state_info s of None \<Rightarrow> ''Unknown'' | Some i \<Rightarrow> spec_label i)"

definition state_glyph :: "state \<Rightarrow> glyph_word" where
  "state_glyph s = (case map_of state_info s of None \<Rightarrow> GlyphFailed | Some i \<Rightarrow> spec_glyph i)"

definition no_spec :: state_spec where
  "no_spec = \<lparr>spec_name = [], spec_label = [], spec_glyph = GlyphUnknown, spec_verbs = [], spec_unattended = False\<rparr>"

definition unattended :: "state \<Rightarrow> bool" where
  "unattended s = spec_unattended (get_or no_spec state_info s)"

definition verbs_of :: "state \<Rightarrow> verb list" where
  "verbs_of s = spec_verbs (get_or no_spec state_info s)"

definition all_states :: "state list" where
  "all_states = sort (map fst state_info)"

text \<open>\<open>ParseState\<close> ranges over the map; the names are distinct, so the order does not matter.\<close>

definition parse_state :: "string \<Rightarrow> parse_error + state" where
  "parse_state s =
     (case find (\<lambda>(st, i). spec_name i = s) state_info of
        Some (st, _) \<Rightarrow> Inr st
      | None \<Rightarrow> Inl (UnknownMember ''state'' s))"

lemma state_texts:
  "map (\<lambda>(st, i). (st, spec_name i)) state_info = map (\<lambda>(st, i). (st, state_text st)) state_info"
  by (simp add: state_info_def state_text_def)

lemma keys_state_info: "map fst state_info = [Blocked, Ready, Queued, Running, Failed, CutFailed, PushPending, Checking, NeedsYou, PushFailed, ReviewMe, PRMerged, PRClosedUnmerged, BaseGone, Cancelled, BaseMoved, CIFailed, RefreshConflicted, ConflictsWithMain, VerificationFailed, WaitingOnProducerDeploy, AwaitingInput]"
  by (simp add: state_info_def)

interpretation states: vocabulary "map fst state_info" state_text
  by unfold_locales (simp add: state_info_def state_text_def)

lemma find_pairs:
  "\<forall>p \<in> set xs. f (snd p) = g (fst p) \<Longrightarrow>
     find (\<lambda>k. g k = s) (map fst xs) = map_option fst (find (\<lambda>(k, v). f v = s) xs)"
  by (induction xs) (auto split: prod.splits)

lemma parse_state_member: "parse_state s = parse_member ''state'' state_text (map fst state_info) s"
proof -
  have "\<forall>p \<in> set state_info. spec_name (snd p) = state_text (fst p)"
    using state_texts by (auto simp: map_eq_conv)
  from find_pairs [OF this] show ?thesis
    by (auto simp: parse_state_def parse_member_def split: option.splits)
qed

lemma known_state: "s \<noteq> StateUnknown \<longleftrightarrow> s \<in> set (map fst state_info)"
  by (cases s) (simp_all add: keys_state_info)

subsection \<open>plan.go: the pull request states\<close>

datatype pr_state = Absent | Open | Merged | Closed

fun pr_state_text :: "pr_state \<Rightarrow> string" where
  "pr_state_text Open = ''open''"
| "pr_state_text Merged = ''merged''"
| "pr_state_text Closed = ''closed''"
| "pr_state_text Absent = ''absent''"

subsection \<open>disposition.go: how a run ended\<close>

datatype outcome = OutcomePush | OutcomeFailed | OutcomeCutFailed | OutcomeAsked | OutcomeContinued | OutcomePassed

fun outcome_text :: "outcome \<Rightarrow> string" where
  "outcome_text OutcomePush = ''push''"
| "outcome_text OutcomeFailed = ''failed''"
| "outcome_text OutcomeCutFailed = ''cut_failed''"
| "outcome_text OutcomeAsked = ''asked''"
| "outcome_text OutcomeContinued = ''continued''"
| "outcome_text OutcomePassed = ''passed''"

fun outcome_glyph :: "outcome \<Rightarrow> glyph_word" where
  "outcome_glyph OutcomePush = GlyphDone"
| "outcome_glyph OutcomeContinued = GlyphDone"
| "outcome_glyph OutcomePassed = GlyphDone"
| "outcome_glyph OutcomeAsked = GlyphAttention"
| "outcome_glyph OutcomeFailed = GlyphFailed"
| "outcome_glyph OutcomeCutFailed = GlyphFailed"

definition all_outcomes :: "outcome list" where
  "all_outcomes = [OutcomePush, OutcomeFailed, OutcomeCutFailed, OutcomeAsked, OutcomeContinued, OutcomePassed]"

definition parse_outcome :: "string \<Rightarrow> parse_error + outcome" where
  "parse_outcome s = parse_member ''outcome'' outcome_text all_outcomes s"

interpretation outcomes: vocabulary all_outcomes outcome_text
  by unfold_locales (simp add: all_outcomes_def)

definition empty_question :: string where
  "empty_question = ''(the agent asked without writing a question)''"

definition asked :: "run_kind \<Rightarrow> string option \<Rightarrow> string option" where
  "asked kind question_file =
     (if kind \<noteq> RunKindAgent \<and> kind \<noteq> RunKindFollowUp \<or> question_file = None then None
      else let question = trim_space (to_valid_utf8 (the question_file))
           in if question = [] then Some empty_question else Some question)"

definition disposition :: "int \<Rightarrow> outcome" where
  "disposition commits_after_baseline = (if 0 < commits_after_baseline then OutcomePush else OutcomeFailed)"

subsection \<open>glyph.go: the group of the rail a glyph falls into\<close>

datatype rail = GroupNeedsYou | GroupInFlight | GroupSettled

fun rail_group :: "glyph_word \<Rightarrow> rail \<times> bool" where
  "rail_group GlyphFailed = (GroupNeedsYou, False)"
| "rail_group GlyphAttention = (GroupNeedsYou, False)"
| "rail_group GlyphDone = (GroupSettled, False)"
| "rail_group GlyphReady = (GroupInFlight, True)"
| "rail_group GlyphBlocked = (GroupInFlight, True)"
| "rail_group _ = (GroupInFlight, False)"

subsection \<open>compose.go: the effort of an agent\<close>

datatype effort = EffortLow | EffortMedium | EffortHigh

fun effort_text :: "effort \<Rightarrow> string" where
  "effort_text EffortLow = ''low''"
| "effort_text EffortMedium = ''medium''"
| "effort_text EffortHigh = ''high''"

definition all_efforts :: "effort list" where
  "all_efforts = [EffortLow, EffortMedium, EffortHigh]"

definition parse_effort :: "string \<Rightarrow> parse_error + effort" where
  "parse_effort s = parse_member ''effort'' effort_text all_efforts s"

interpretation efforts: vocabulary all_efforts effort_text
  by unfold_locales (simp add: all_efforts_def)

record agent_choice =
  choice_model :: string
  choice_effort :: "effort option"

subsection \<open>Properties\<close>

text \<open>A branch reference whose repository name is an ordinary one, with no empty path
  segment and no slash at its end, is read back from its text form; branch names are arbitrary.\<close>

theorem branch_ref_roundtrip:
  "plain_repo (ref_repo b) \<Longrightarrow> unmarshal_ref (marshal_ref b) = Inr b"
  by (cases b) (simp add: unmarshal_ref_def marshal_ref_def plain_repo_def cut_slashes [simplified])

theorem branch_ref_roundtrip_witness:
  "unmarshal_ref (marshal_ref (BranchRef ''acme/web'' ''cc-7-x//y'')) = Inr (BranchRef ''acme/web'' ''cc-7-x//y'')"
  by (rule branch_ref_roundtrip) (simp add: plain_repo_def str_contains_def)

text \<open>\<open>ParseState\<close> accepts exactly the names the known states print, and reads each back as
  the state that prints it; only the unknown state has no name of its own.\<close>

theorem state_roundtrip: "parse_state s = Inr st \<longleftrightarrow> st \<noteq> StateUnknown \<and> state_text st = s"
  unfolding parse_state_member states.parse_Inr known_state by (rule refl)

end
