(* ===== verification/Verdict.thy ===== *)
theory Verdict imports Vocab begin

text \<open>
  The check predicate of \<open>internal/plan/verdict/verdict.go\<close>: what a pull request's checks say
  about a branch. \<open>resolve\<close> with its loops \<open>all_of\<close> and \<open>any_of\<close> is the code's short-circuit
  evaluation to one of three values with the names of the failed checks; \<open>kleene\<close> is the
  three-valued logic it implements, over the order red, pending, green.

  \<open>leaf\<close>'s default case, an empty predicate, is pending. The string of a \<open>Result\<close> is kept
  byte for byte.
\<close>

subsection \<open>Data\<close>

datatype check_result = Pending | Success | Failure | Skipped

fun check_result_text :: "check_result \<Rightarrow> string" where
  "check_result_text Success = ''passed''"
| "check_result_text Skipped = ''skipped''"
| "check_result_text Pending = ''failed''"
| "check_result_text Failure = ''failed''"

datatype verdict_kind =
    K_Unknown | K_Checking | K_ReviewMe | K_NeedsYou | K_CIFailed | K_BaseMoved | K_WaitingOnProducerDeploy

definition kind_names :: "(verdict_kind, string) gomap" where
  "kind_names =
     [(K_Checking, ''checking''), (K_ReviewMe, ''review_me''), (K_NeedsYou, ''needs_you''),
      (K_CIFailed, ''ci_failed''), (K_BaseMoved, ''base_moved''),
      (K_WaitingOnProducerDeploy, ''waiting_on_producer_deploy'')]"

definition kind_text :: "verdict_kind \<Rightarrow> string" where
  "kind_text k = get_or [] kind_names k"

definition minute :: duration where "minute = 60 * second"

definition bounded_wait :: duration where
  "bounded_wait = 10 * minute"

datatype predicate =
  Predicate (p_all_of: "predicate list") (p_any_of: "predicate list") (p_not: "predicate option")
    (p_success: string) (p_skipped: string) (p_absent_ok: string) (p_author: string)

definition no_predicate :: predicate where
  "no_predicate = Predicate [] [] None [] [] [] []"

definition predicate_is_zero :: "predicate \<Rightarrow> bool" where
  "predicate_is_zero p =
     (p_all_of p = [] \<and> p_any_of p = [] \<and> p_not p = None \<and> p_success p = [] \<and> p_skipped p = []
      \<and> p_absent_ok p = [] \<and> p_author p = [])"

record verdict_input =
  in_checks :: "(string, check_result) gomap"
  in_head_oid_match :: bool
  in_stacked_base :: bool
  in_base_sha_match :: bool
  in_config_hash_ok :: bool
  in_pushed_at :: time
  in_now :: time
  in_author_login :: string
  in_compat_check :: string

record verdict_result =
  v_kind :: verdict_kind
  v_reason :: string
  v_red_leaves :: "string list"

datatype tri_state = T_pending | T_green | T_red

subsection \<open>Leaves\<close>

definition waited :: "verdict_input \<Rightarrow> bool" where
  "waited i = (in_pushed_at i \<noteq> 0 \<and> bounded_wait \<le> in_now i - in_pushed_at i)"

definition forced_green :: "(string, check_result) gomap \<Rightarrow> string \<Rightarrow> (string, check_result) gomap" where
  "forced_green checks name = put name Success (copy_into [] checks)"

definition require_conclusion :: "check_result \<Rightarrow> check_result \<Rightarrow> tri_state" where
  "require_conclusion got want =
     (if got = want then T_green else if got = Pending then T_pending else T_red)"

definition absent_ok :: "(string, check_result) gomap \<Rightarrow> string \<Rightarrow> verdict_input \<Rightarrow> tri_state" where
  "absent_ok checks name i =
     (case map_of checks name of
        None \<Rightarrow> if waited i then T_green else T_pending
      | Some Success \<Rightarrow> T_green
      | Some Skipped \<Rightarrow> T_green
      | Some Pending \<Rightarrow> T_pending
      | Some Failure \<Rightarrow> T_red)"

definition author :: "string \<Rightarrow> string \<Rightarrow> tri_state" where
  "author got want = (if got = want then T_green else T_red)"

definition leaf_result :: "tri_state \<Rightarrow> string \<Rightarrow> tri_state \<times> string list" where
  "leaf_result t name = (if t \<noteq> T_red then (t, []) else (T_red, [name]))"

definition leaf :: "predicate \<Rightarrow> verdict_input \<Rightarrow> tri_state \<times> string list" where
  "leaf p i =
     (if p_success p \<noteq> [] then
        leaf_result (require_conclusion (get_or Pending (in_checks i) (p_success p)) Success) (p_success p)
      else if p_skipped p \<noteq> [] then
        leaf_result (require_conclusion (get_or Pending (in_checks i) (p_skipped p)) Skipped) (p_skipped p)
      else if p_absent_ok p \<noteq> [] then
        leaf_result (absent_ok (in_checks i) (p_absent_ok p) i) (p_absent_ok p)
      else if p_author p \<noteq> [] then
        leaf_result (author (in_author_login i) (p_author p)) (p_author p)
      else (T_pending, []))"

fun not_tri :: "tri_state \<Rightarrow> tri_state" where
  "not_tri T_green = T_red"
| "not_tri T_red = T_green"
| "not_tri T_pending = T_pending"

subsection \<open>Resolving a predicate\<close>

text \<open>
  \<open>all_of ps i acc leaves\<close> is \<open>allOf\<close>'s loop over \<open>ps\<close> with \<open>result = acc\<close> and
  \<open>redLeaves = leaves\<close>; \<open>any_of\<close> likewise, with the early return on green.
\<close>

fun resolve :: "predicate \<Rightarrow> verdict_input \<Rightarrow> tri_state \<times> string list"
and all_of :: "predicate list \<Rightarrow> verdict_input \<Rightarrow> tri_state \<Rightarrow> string list \<Rightarrow> tri_state \<times> string list"
and any_of :: "predicate list \<Rightarrow> verdict_input \<Rightarrow> tri_state \<Rightarrow> string list \<Rightarrow> tri_state \<times> string list" where
  "resolve (Predicate als ans nt su sk ab au) i =
     (if als \<noteq> [] then all_of als i T_green []
      else if ans \<noteq> [] then any_of ans i T_red []
      else (case nt of
              Some q \<Rightarrow> (not_tri (fst (resolve q i)), [])
            | None \<Rightarrow> leaf (Predicate als ans nt su sk ab au) i))"
| "all_of [] i acc leaves = (acc, leaves)"
| "all_of (p # ps) i acc leaves =
     (case resolve p i of
        (T_red, ls) \<Rightarrow> all_of ps i T_red (leaves @ ls)
      | (T_pending, ls) \<Rightarrow> all_of ps i (if acc = T_green then T_pending else acc) leaves
      | (T_green, ls) \<Rightarrow> all_of ps i acc leaves)"
| "any_of [] i acc leaves = (if acc \<noteq> T_red then (acc, []) else (T_red, leaves))"
| "any_of (p # ps) i acc leaves =
     (case resolve p i of
        (T_green, ls) \<Rightarrow> (T_green, [])
      | (T_pending, ls) \<Rightarrow> any_of ps i T_pending leaves
      | (T_red, ls) \<Rightarrow> any_of ps i acc (leaves @ ls))"

definition evaluate :: "predicate \<Rightarrow> verdict_input \<Rightarrow> verdict_result" where
  "evaluate p i =
     (case resolve p i of
        (T_red, red_leaves) \<Rightarrow>
          \<lparr>v_kind = K_CIFailed, v_reason = ''required check failed: '' @ join '', '' red_leaves,
           v_red_leaves = red_leaves\<rparr>
      | (T_green, _) \<Rightarrow>
          if \<not> in_config_hash_ok i
          then \<lparr>v_kind = K_Checking, v_reason = ''check config changed'', v_red_leaves = []\<rparr>
          else \<lparr>v_kind = K_ReviewMe, v_reason = ''every required check passed'', v_red_leaves = []\<rparr>
      | (T_pending, _) \<Rightarrow>
          if waited i
          then \<lparr>v_kind = K_NeedsYou, v_reason = ''no matching rollup within the wait'', v_red_leaves = []\<rparr>
          else \<lparr>v_kind = K_Checking, v_reason = ''waiting on checks'', v_red_leaves = []\<rparr>)"

text \<open>The input \<open>Evaluate\<close> reads: the checks of another head are dropped.\<close>

definition current_checks :: "verdict_input \<Rightarrow> verdict_input" where
  "current_checks i = (if \<not> in_head_oid_match i then i\<lparr>in_checks := []\<rparr> else i)"

definition Evaluate :: "predicate \<Rightarrow> verdict_input \<Rightarrow> verdict_result" where
  "Evaluate p i0 =
     (if in_stacked_base i0 \<and> \<not> in_base_sha_match i0
      then \<lparr>v_kind = K_BaseMoved,
            v_reason = ''base moved: the parent advanced past what this branch was cut from'', v_red_leaves = []\<rparr>
      else
        let i = current_checks i0; result = evaluate p i
        in if (v_kind result \<noteq> K_NeedsYou \<and> v_kind result \<noteq> K_CIFailed) \<or> in_compat_check i = [] then result
           else
             let forced = evaluate p (i\<lparr>in_checks := forced_green (in_checks i) (in_compat_check i)\<rparr>)
             in case v_kind forced of
                  K_ReviewMe \<Rightarrow>
                    \<lparr>v_kind = K_WaitingOnProducerDeploy,
                     v_reason = ''every required check passed except the compat check'', v_red_leaves = []\<rparr>
                | K_Checking \<Rightarrow> forced
                | _ \<Rightarrow> result)"

subsection \<open>The three-valued logic\<close>

primrec tri_rank :: "tri_state \<Rightarrow> nat" where
  "tri_rank T_red = 0"
| "tri_rank T_pending = 1"
| "tri_rank T_green = 2"

instantiation tri_state :: linorder
begin

definition less_eq_tri_state :: "tri_state \<Rightarrow> tri_state \<Rightarrow> bool" where
  "less_eq_tri_state a b = (tri_rank a \<le> tri_rank b)"

definition less_tri_state :: "tri_state \<Rightarrow> tri_state \<Rightarrow> bool" where
  "less_tri_state a b = (tri_rank a < tri_rank b)"

instance
proof
  show "x = y" if "x \<le> y" "y \<le> x" for x y :: tri_state
    using that by (cases x; cases y; simp add: less_eq_tri_state_def)
qed (auto simp: less_eq_tri_state_def less_tri_state_def)

end

text \<open>\<open>kleene\<close>: conjunction is the minimum, disjunction the maximum, negation the reflection.\<close>

fun kleene :: "predicate \<Rightarrow> verdict_input \<Rightarrow> tri_state"
and kleene_all :: "predicate list \<Rightarrow> verdict_input \<Rightarrow> tri_state"
and kleene_any :: "predicate list \<Rightarrow> verdict_input \<Rightarrow> tri_state" where
  "kleene (Predicate als ans nt su sk ab au) i =
     (if als \<noteq> [] then kleene_all als i
      else if ans \<noteq> [] then kleene_any ans i
      else (case nt of
              Some q \<Rightarrow> not_tri (kleene q i)
            | None \<Rightarrow> fst (leaf (Predicate als ans nt su sk ab au) i)))"
| "kleene_all [] i = T_green"
| "kleene_all (p # ps) i = min (kleene p i) (kleene_all ps i)"
| "kleene_any [] i = T_red"
| "kleene_any (p # ps) i = max (kleene p i) (kleene_any ps i)"

lemma tri_min [simp]:
  "min T_green t = t" "min t T_green = t" "min T_red t = T_red" "min t T_red = T_red"
  by (cases t; simp add: min_def less_eq_tri_state_def)+

lemma tri_max [simp]:
  "max T_red t = t" "max t T_red = t" "max T_green t = T_green" "max t T_green = T_green"
  by (cases t; simp add: max_def less_eq_tri_state_def)+

lemma tri_pending:
  "(if t = T_green then T_pending else t) = min t T_pending"
  "t \<noteq> T_green \<Longrightarrow> max t T_pending = T_pending"
  by (cases t; simp add: min_def max_def less_eq_tri_state_def)+

lemma resolve_kleene:
  "fst (resolve p i) = kleene p i"
  "fst (all_of ps i acc ls) = min acc (kleene_all ps i)"
  "acc \<noteq> T_green \<Longrightarrow> fst (any_of ps i acc ls) = max acc (kleene_any ps i)"
proof (induction p i and ps i acc ls and ps i acc ls rule: resolve_all_of_any_of.induct)
  case (1 als ans nt su sk ab au i)
  then show ?case by (auto split: option.splits)
next
  case (2 i acc leaves)
  then show ?case by simp
next
  case (3 p ps i acc leaves)
  obtain t ls where r: "resolve p i = (t, ls)" by (cases "resolve p i")
  with 3 have t: "kleene p i = t" by simp
  show ?case
  proof (cases t)
    case T_pending
    with 3 r t show ?thesis by (simp add: tri_pending min.assoc)
  qed (use 3 r t in simp_all)
next
  case (4 i acc leaves)
  then show ?case by (cases acc) simp_all
next
  case (5 p ps i acc leaves)
  obtain t ls where r: "resolve p i = (t, ls)" by (cases "resolve p i")
  with 5 have t: "kleene p i = t" by simp
  show ?case
  proof (cases t)
    case T_pending
    with 5 r t show ?thesis
      by (cases acc) (simp_all add: max.assoc [symmetric] tri_pending)
  qed (use 5 r t in simp_all)
qed

lemma resolve_cases:
  obtains (green) ls where "resolve p i = (T_green, ls)" "kleene p i = T_green"
  | (red) ls where "resolve p i = (T_red, ls)" "kleene p i = T_red"
  | (pending) ls where "resolve p i = (T_pending, ls)" "kleene p i = T_pending"
  using resolve_kleene(1) [of p i] by (cases "resolve p i"; cases "kleene p i") auto

lemma evaluate_kind:
  "v_kind (evaluate p i) =
     (case kleene p i of
        T_red \<Rightarrow> K_CIFailed
      | T_green \<Rightarrow> if in_config_hash_ok i then K_ReviewMe else K_Checking
      | T_pending \<Rightarrow> if waited i then K_NeedsYou else K_Checking)"
  by (cases rule: resolve_cases [of p i]) (simp_all add: evaluate_def)

lemma current_checks_simps [simp]:
  "in_checks (current_checks i) = (if in_head_oid_match i then in_checks i else [])"
  "in_compat_check (current_checks i) = in_compat_check i"
  "in_config_hash_ok (current_checks i) = in_config_hash_ok i"
  "in_author_login (current_checks i) = in_author_login i"
  "waited (current_checks i) = waited i"
  by (simp_all add: current_checks_def waited_def)

text \<open>The predicate's value when the compat check is taken as passed.\<close>

definition with_compat :: "verdict_input \<Rightarrow> verdict_input" where
  "with_compat i = i\<lparr>in_checks := forced_green (in_checks i) (in_compat_check i)\<rparr>"

lemma with_compat_simps [simp]:
  "in_config_hash_ok (with_compat i) = in_config_hash_ok i"
  "waited (with_compat i) = waited i"
  by (simp_all add: with_compat_def waited_def)

text \<open>The decision table of a verdict.\<close>

definition verdict_spec :: "predicate \<Rightarrow> verdict_input \<Rightarrow> verdict_kind" where
  "verdict_spec p i =
     (if in_stacked_base i \<and> \<not> in_base_sha_match i then K_BaseMoved
      else
        let c = current_checks i; now = kleene p c; compat = kleene p (with_compat c);
            unsettled = (if now = T_red then K_CIFailed else K_NeedsYou)
        in if now = T_green then (if in_config_hash_ok i then K_ReviewMe else K_Checking)
           else if now = T_pending \<and> \<not> waited i then K_Checking
           else if in_compat_check i = [] then unsettled
           else if compat = T_green then
             (if in_config_hash_ok i then K_WaitingOnProducerDeploy else K_Checking)
           else if compat = T_pending \<and> \<not> waited i then K_Checking
           else unsettled)"

lemma Evaluate_kind:
  "v_kind (Evaluate p i0) =
     (if in_stacked_base i0 \<and> \<not> in_base_sha_match i0 then K_BaseMoved
      else let i = current_checks i0; k = v_kind (evaluate p i)
           in if (k \<noteq> K_NeedsYou \<and> k \<noteq> K_CIFailed) \<or> in_compat_check i = [] then k
              else case v_kind (evaluate p (with_compat i)) of
                     K_ReviewMe \<Rightarrow> K_WaitingOnProducerDeploy | K_Checking \<Rightarrow> K_Checking | _ \<Rightarrow> k)"
  unfolding Evaluate_def Let_def with_compat_def by (simp split: verdict_kind.split)

lemma Evaluate_spec: "v_kind (Evaluate p i) = verdict_spec p i"
  unfolding Evaluate_kind verdict_spec_def Let_def evaluate_kind current_checks_simps with_compat_simps
  by (cases "kleene p (current_checks i)"; cases "kleene p (with_compat (current_checks i))")
    simp_all

text \<open>C7: The verdict on a pull request is the decision table over Kleene's three-valued reading
  of the repository's check predicate, for every input: the loops with early returns of
  \<open>allOf\<close>, \<open>anyOf\<close> and \<open>not\<close> compute minimum, maximum and reflection, and \<open>Evaluate\<close> picks
  the kind from the value, the wait, the configuration hash and the value with the compat check passed.\<close>

theorem evaluate_decides: "v_kind (Evaluate p i) = verdict_spec p i"
  by (rule Evaluate_spec)

subsection \<open>A stale head\<close>

text \<open>
  \<open>needs_check p\<close>: the predicate cannot be green before a check of the current head is seen.
  \<open>never_red\<close> is its dual, for what stands under a \<open>not\<close>.
\<close>

fun needs_check :: "predicate \<Rightarrow> bool" and never_red :: "predicate \<Rightarrow> bool" where
  "needs_check (Predicate als ans nt su sk ab au) =
     (if als \<noteq> [] then (\<exists>p \<in> set als. needs_check p)
      else if ans \<noteq> [] then (\<forall>p \<in> set ans. needs_check p)
      else (case nt of Some q \<Rightarrow> never_red q
            | None \<Rightarrow> su \<noteq> [] \<or> sk \<noteq> [] \<or> (ab = [] \<and> au = [])))"
| "never_red (Predicate als ans nt su sk ab au) =
     (if als \<noteq> [] then (\<forall>p \<in> set als. never_red p)
      else if ans \<noteq> [] then (\<exists>p \<in> set ans. never_red p)
      else (case nt of Some q \<Rightarrow> needs_check q
            | None \<Rightarrow> su \<noteq> [] \<or> sk \<noteq> [] \<or> ab \<noteq> [] \<or> au = []))"

lemma kleene_all_bounds:
  "(kleene_all ps i = T_green \<longleftrightarrow> (\<forall>p \<in> set ps. kleene p i = T_green))"
  "(kleene_all ps i = T_red \<longleftrightarrow> (\<exists>p \<in> set ps. kleene p i = T_red))"
proof (induction ps)
  case (Cons p ps)
  { case 1 show ?case using Cons by (cases "kleene p i"; cases "kleene_all ps i") (auto simp: min_def less_eq_tri_state_def) }
  { case 2 show ?case using Cons by (cases "kleene p i"; cases "kleene_all ps i") (auto simp: min_def less_eq_tri_state_def) }
qed simp_all

lemma kleene_any_bounds:
  "(kleene_any ps i = T_green \<longleftrightarrow> (\<exists>p \<in> set ps. kleene p i = T_green))"
  "(kleene_any ps i = T_red \<longleftrightarrow> (\<forall>p \<in> set ps. kleene p i = T_red))"
proof (induction ps)
  case (Cons p ps)
  { case 1 show ?case using Cons by (cases "kleene p i"; cases "kleene_any ps i") (auto simp: max_def less_eq_tri_state_def) }
  { case 2 show ?case using Cons by (cases "kleene p i"; cases "kleene_any ps i") (auto simp: max_def less_eq_tri_state_def) }
qed simp_all

lemma not_tri_iff [simp]: "not_tri t = T_green \<longleftrightarrow> t = T_red" "not_tri t = T_red \<longleftrightarrow> t = T_green"
  by (cases t; simp)+

lemma leaf_empty:
  "in_checks i = [] \<Longrightarrow> fst (leaf (Predicate als ans nt su sk ab au) i) =
     (if su \<noteq> [] \<or> sk \<noteq> [] then T_pending
      else if ab \<noteq> [] then (if waited i then T_green else T_pending)
      else if au \<noteq> [] then author (in_author_login i) au else T_pending)"
  by (auto simp: leaf_def require_conclusion_def absent_ok_def leaf_result_def author_def)

lemma no_checks:
  assumes "in_checks i = []"
  shows "needs_check p \<Longrightarrow> kleene p i \<noteq> T_green" and "never_red p \<Longrightarrow> kleene p i \<noteq> T_red"
proof (induction p and p rule: needs_check_never_red.induct)
  case (1 als ans nt su sk ab au)
  then show ?case
    by (auto simp: kleene_all_bounds kleene_any_bounds leaf_empty [OF assms] split: option.splits if_splits)
next
  case (2 als ans nt su sk ab au)
  then show ?case
    by (auto simp: kleene_all_bounds kleene_any_bounds leaf_empty [OF assms] split: option.splits if_splits)
qed

text \<open>Checks observed for another head never make a branch ready for review: when the
  head the pull request shows is not the branch's tip, a predicate that requires a check
  does not give the review verdict, whatever checks were observed, however long it waited and
  whether or not a compat check is configured.\<close>

theorem stale_head_not_reviewed:
  assumes "needs_check p" and "\<not> in_head_oid_match i"
  shows "v_kind (Evaluate p i) \<noteq> K_ReviewMe"
proof -
  have "kleene p (current_checks i) \<noteq> T_green"
    using assms by (intro no_checks) simp_all
  then show ?thesis by (simp add: Evaluate_spec verdict_spec_def Let_def)
qed

theorem stale_head_not_reviewed_witness:
  "v_kind (Evaluate (Predicate [] [] None ''test'' [] [] [])
     \<lparr>in_checks = [(''test'', Success)], in_head_oid_match = False, in_stacked_base = False,
      in_base_sha_match = False, in_config_hash_ok = True, in_pushed_at = 5, in_now = 5,
      in_author_login = [], in_compat_check = []\<rparr>) \<noteq> K_ReviewMe"
  by (rule stale_head_not_reviewed) simp_all

subsection \<open>The wait, and the failed checks a verdict names\<close>

lemma waiting_ends:
  assumes "waited i"
  shows "v_kind (Evaluate p i) = K_Checking \<longleftrightarrow>
    \<not> (in_stacked_base i \<and> \<not> in_base_sha_match i) \<and> \<not> in_config_hash_ok i \<and>
    (kleene p (current_checks i) = T_green
     \<or> in_compat_check i \<noteq> [] \<and> kleene p (with_compat (current_checks i)) = T_green)"
  using assms unfolding Evaluate_spec verdict_spec_def Let_def
  by (cases "kleene p (current_checks i)"; cases "kleene p (with_compat (current_checks i))")
    simp_all

text \<open>A predicate cannot stay pending beyond the bounded wait: ten minutes after the push
  the verdict is no longer "checking" unless every required check passed under a check
  configuration that changed since.\<close>

theorem wait_is_bounded:
  assumes "in_pushed_at i \<noteq> 0" and "in_pushed_at i + bounded_wait \<le> in_now i" and "in_config_hash_ok i"
  shows "v_kind (Evaluate p i) \<noteq> K_Checking"
  using assms waiting_ends [of i p] by (simp add: waited_def)

theorem wait_is_bounded_witness:
  "v_kind (Evaluate (Predicate [] [] None ''test'' [] [] [])
     \<lparr>in_checks = [], in_head_oid_match = True, in_stacked_base = False,
      in_base_sha_match = False, in_config_hash_ok = True, in_pushed_at = 5, in_now = 5 + 600000000000,
      in_author_login = [], in_compat_check = []\<rparr>) \<noteq> K_Checking"
  by (rule wait_is_bounded) (simp_all add: bounded_wait_def minute_def second_def)

fun leaves_of :: "predicate \<Rightarrow> predicate set" where
  "leaves_of (Predicate als ans nt su sk ab au) =
     (if als \<noteq> [] then (\<Union>p \<in> set als. leaves_of p)
      else if ans \<noteq> [] then (\<Union>p \<in> set ans. leaves_of p)
      else (case nt of None \<Rightarrow> {Predicate als ans nt su sk ab au} | Some q \<Rightarrow> {}))"

lemma leaf_red: "n \<in> set (snd (leaf p i)) \<Longrightarrow> leaf p i = (T_red, [n])"
  by (auto simp: leaf_def leaf_result_def split: if_splits)

lemma red_leaves_named:
  "n \<in> set (snd (resolve p i)) \<Longrightarrow> \<exists>q \<in> leaves_of p. leaf q i = (T_red, [n])"
  "n \<in> set (snd (all_of ps i acc ls)) \<Longrightarrow> n \<in> set ls \<or> (\<exists>p \<in> set ps. \<exists>q \<in> leaves_of p. leaf q i = (T_red, [n]))"
  "n \<in> set (snd (any_of ps i acc ls)) \<Longrightarrow> n \<in> set ls \<or> (\<exists>p \<in> set ps. \<exists>q \<in> leaves_of p. leaf q i = (T_red, [n]))"
proof (induction p i and ps i acc ls and ps i acc ls rule: resolve_all_of_any_of.induct)
  case (1 als ans nt su sk ab au i)
  then show ?case
    using leaf_red [of n "Predicate als ans nt su sk ab au" i]
    by (auto split: if_splits option.splits)
next
  case (3 p ps i acc leaves)
  obtain t ls where r: "resolve p i = (t, ls)" by (cases "resolve p i")
  show ?case by (cases t) (use 3 r in \<open>fastforce+\<close>)
next
  case (5 p ps i acc leaves)
  obtain t ls where r: "resolve p i = (t, ls)" by (cases "resolve p i")
  show ?case by (cases t) (use 5 r in \<open>fastforce+\<close>)
qed (auto split: if_splits)

text \<open>A red predicate without \<open>not\<close> names at least one failed leaf.\<close>

fun not_free :: "predicate \<Rightarrow> bool" where
  "not_free (Predicate als ans nt su sk ab au) \<longleftrightarrow>
     (\<forall>p \<in> set als. not_free p) \<and> (\<forall>p \<in> set ans. not_free p) \<and> nt = None"

lemma red_leaves_ne:
  "not_free p \<Longrightarrow> fst (resolve p i) = T_red \<Longrightarrow> snd (resolve p i) \<noteq> []"
  "\<forall>p \<in> set ps. not_free p \<Longrightarrow> acc = T_red \<longrightarrow> ls \<noteq> [] \<Longrightarrow> fst (all_of ps i acc ls) = T_red
     \<Longrightarrow> snd (all_of ps i acc ls) \<noteq> []"
  "\<forall>p \<in> set ps. not_free p \<Longrightarrow> acc = T_red \<longrightarrow> ps \<noteq> [] \<or> ls \<noteq> [] \<Longrightarrow> fst (any_of ps i acc ls) = T_red
     \<Longrightarrow> snd (any_of ps i acc ls) \<noteq> []"
proof (induction p i and ps i acc ls and ps i acc ls rule: resolve_all_of_any_of.induct)
  case (1 als ans nt su sk ab au i)
  then show ?case
    by (auto simp: leaf_def leaf_result_def split: if_splits)
next
  case (3 p ps i acc leaves)
  obtain t ls where r: "resolve p i = (t, ls)" by (cases "resolve p i")
  show ?case by (cases t) (use 3 r in \<open>auto split: if_splits\<close>)
next
  case (5 p ps i acc leaves)
  obtain t ls where r: "resolve p i = (t, ls)" by (cases "resolve p i")
  show ?case by (cases t) (use 5 r in \<open>auto split: if_splits\<close>)
qed (auto split: if_splits)

lemma CIFailed_leaves:
  assumes "v_kind (Evaluate p i) = K_CIFailed"
  shows "fst (resolve p (current_checks i)) = T_red \<and>
         v_red_leaves (Evaluate p i) = snd (resolve p (current_checks i))"
proof -
  have "v_kind (evaluate p (current_checks i)) = K_CIFailed \<and> Evaluate p i = evaluate p (current_checks i)"
    using assms by (auto simp: Evaluate_def Let_def split: if_splits verdict_kind.splits)
  then show ?thesis
    by (cases rule: resolve_cases [of p "current_checks i"]) (auto simp: evaluate_def split: if_splits)
qed

text \<open>A failed verdict names its reasons: every red leaf it reports is a leaf of the
  predicate that is red on the checks of the current head, and for a predicate without \<open>not\<close>
  at least one is reported.\<close>

theorem failed_verdict_names_leaves:
  assumes "v_kind (Evaluate p i) = K_CIFailed"
  shows "(\<forall>n \<in> set (v_red_leaves (Evaluate p i)).
            \<exists>q \<in> leaves_of p. leaf q (current_checks i) = (T_red, [n]))
         \<and> (not_free p \<longrightarrow> v_red_leaves (Evaluate p i) \<noteq> [])"
  using CIFailed_leaves [OF assms] red_leaves_named(1) red_leaves_ne(1) by auto

theorem failed_verdict_names_leaves_witness:
  "v_red_leaves (Evaluate (Predicate [] [] None ''test'' [] [] [])
     \<lparr>in_checks = [(''test'', Failure)], in_head_oid_match = True, in_stacked_base = False,
      in_base_sha_match = False, in_config_hash_ok = True, in_pushed_at = 5, in_now = 5,
      in_author_login = [], in_compat_check = []\<rparr>) \<noteq> []"
  using failed_verdict_names_leaves
    [of "Predicate [] [] None ''test'' [] [] []"
      "\<lparr>in_checks = [(''test'', Failure)], in_head_oid_match = True, in_stacked_base = False,
      in_base_sha_match = False, in_config_hash_ok = True, in_pushed_at = 5, in_now = 5,
      in_author_login = [], in_compat_check = []\<rparr>"]
  by (simp add: Evaluate_kind evaluate_kind current_checks_def leaf_def leaf_result_def require_conclusion_def)

end
