(* ===== verification/Tickets.thy ===== *)
theory Tickets imports Vocab begin

text \<open>
  Tickets and their blockers (\<open>plan.go\<close>, \<open>dependents.go\<close>, \<open>draftgate.go\<close>, \<open>stack.go\<close>,
  \<open>warning.go\<close>, and \<open>ProspectiveBase\<close> and \<open>Preview\<close> of \<open>preview.go\<close>): when a ticket's blockers
  let it start, on which branch it is cut, what its pull request still waits for, and how deep
  a stack of tickets is.
\<close>

subsection \<open>Data\<close>

record ticket =
  t_url :: ticket_url
  t_repo :: string
  t_branch :: string
  t_blocked_by :: "ticket_url list"
  t_worked_example_branch :: string
  t_launch_context :: string
  t_choice :: agent_choice

definition ticket_ref :: "ticket \<Rightarrow> branch_ref" where
  "ticket_ref t = BranchRef (t_repo t) (t_branch t)"

record unlock =
  u_unlocked :: bool
  u_base_branch :: string
  u_reason :: reason
  u_blocking :: "ticket_url list"
  u_blocker_closed :: bool

definition default_base_branch :: string where
  "default_base_branch = ''main''"

text \<open>Go's zero \<open>Unlock\<close>, from which the composite literals start.\<close>

definition no_unlock :: unlock where
  "no_unlock = \<lparr>u_unlocked = False, u_base_branch = [], u_reason = [], u_blocking = [], u_blocker_closed = False\<rparr>"

subsection \<open>Unlocked\<close>

text \<open>
  The loop over \<open>BlockedBy\<close>: the first blocker that is no tracked ticket (\<open>Inl\<close>), or the
  blockers in the ticket's own repository in order.
\<close>

fun same_repo_blockers :: "string \<Rightarrow> (ticket_url, ticket) gomap \<Rightarrow> ticket_url list \<Rightarrow> ticket_url + ticket list" where
  "same_repo_blockers repo by_url [] = Inr []"
| "same_repo_blockers repo by_url (u # us) =
     (case map_of by_url u of
        None \<Rightarrow> Inl u
      | Some b \<Rightarrow>
          (case same_repo_blockers repo by_url us of
             Inl x \<Rightarrow> Inl x
           | Inr bs \<Rightarrow> Inr (if t_repo b = repo then b # bs else bs)))"

definition unlocked_on_blocker :: "ticket \<Rightarrow> (string, pr_state) gomap \<Rightarrow> bool \<Rightarrow> unlock" where
  "unlocked_on_blocker b prs stacking =
     (case get_or Absent prs (t_branch b) of
        Open \<Rightarrow> no_unlock\<lparr>u_unlocked := True,
                  u_base_branch := (if stacking then t_branch b else default_base_branch),
                  u_reason := ''every blocker has a pull request''\<rparr>
      | Merged \<Rightarrow> no_unlock\<lparr>u_unlocked := True, u_base_branch := default_base_branch,
                  u_reason := ''every blocker has a pull request''\<rparr>
      | Closed \<Rightarrow> no_unlock\<lparr>
                  u_reason := ''blocked by '' @ t_url b @ '': '' @ t_branch b
                     @ [CHR 0x27] @ ''s pull request was closed without merging'',
                  u_blocking := [t_url b], u_blocker_closed := True\<rparr>
      | Absent \<Rightarrow> no_unlock\<lparr>
                  u_reason := ''blocked by '' @ t_url b @ '': '' @ t_branch b @ '' has no open or merged pull request'',
                  u_blocking := [t_url b]\<rparr>)"

definition unlocked_on_blockers :: "ticket list \<Rightarrow> (string, pr_state) gomap \<Rightarrow> unlock" where
  "unlocked_on_blockers blockers prs =
     (let unresolved = map t_url (filter (\<lambda>b. get_or Absent prs (t_branch b) \<noteq> Merged) blockers)
      in if unresolved = []
         then no_unlock\<lparr>u_unlocked := True, u_base_branch := default_base_branch,
                u_reason := ''every blocker has merged''\<rparr>
         else no_unlock\<lparr>u_reason := ''blocked by '' @ join_urls unresolved @ '', not yet merged'',
                u_blocking := unresolved\<rparr>)"

definition Unlocked :: "ticket \<Rightarrow> (ticket_url, ticket) gomap \<Rightarrow> (string, pr_state) gomap \<Rightarrow> bool \<Rightarrow> unlock" where
  "Unlocked t by_url prs stacking =
     (case same_repo_blockers (t_repo t) by_url (t_blocked_by t) of
        Inl u \<Rightarrow> no_unlock\<lparr>u_reason := ''blocked by '' @ u @ '', which is not a tracked ticket''\<rparr>
      | Inr same_repo \<Rightarrow>
          (case same_repo of
             [] \<Rightarrow> no_unlock\<lparr>u_unlocked := True, u_base_branch := default_base_branch, u_reason := ''no blockers''\<rparr>
           | [b] \<Rightarrow> unlocked_on_blocker b prs stacking
           | _ \<Rightarrow> unlocked_on_blockers same_repo prs))"

text \<open>The blockers of a ticket that are tracked in its own repository.\<close>

definition stack_blockers :: "ticket \<Rightarrow> (ticket_url, ticket) gomap \<Rightarrow> ticket list" where
  "stack_blockers t by_url =
     filter (\<lambda>b. t_repo b = t_repo t) (List.map_filter (map_of by_url) (t_blocked_by t))"

lemma same_repo_blockers_find:
  "same_repo_blockers repo by_url us =
     (case find (\<lambda>u. \<not> has_key by_url u) us of
        Some u \<Rightarrow> Inl u
      | None \<Rightarrow> Inr (filter (\<lambda>b. t_repo b = repo) (List.map_filter (map_of by_url) us)))"
  by (induction us) (auto simp: has_key_def List.map_filter_simps split: option.splits)

lemma same_repo_blockers_Inl:
  "same_repo_blockers repo by_url us = Inl u \<Longrightarrow> u \<in> set us \<and> \<not> has_key by_url u"
  by (auto simp: same_repo_blockers_find find_Some_iff split: option.splits)

lemma same_repo_blockers_Inr:
  "same_repo_blockers repo by_url us = Inr bs \<Longrightarrow>
     (\<forall>u \<in> set us. has_key by_url u) \<and>
     bs = filter (\<lambda>b. t_repo b = repo) (List.map_filter (map_of by_url) us)"
  by (auto simp: same_repo_blockers_find find_None_iff split: option.splits)

text \<open>Every branch of \<open>Unlocked\<close> as one case distinction on the stack blockers.\<close>

lemma Unlocked_cases:
  obtains (untracked) u where "u \<in> set (t_blocked_by t)" "\<not> has_key by_url u"
      "Unlocked t by_url prs stacking = no_unlock\<lparr>u_reason := ''blocked by '' @ u @ '', which is not a tracked ticket''\<rparr>"
  | (free) "\<forall>u \<in> set (t_blocked_by t). has_key by_url u" "stack_blockers t by_url = []"
      "Unlocked t by_url prs stacking =
         no_unlock\<lparr>u_unlocked := True, u_base_branch := default_base_branch, u_reason := ''no blockers''\<rparr>"
  | (single) b where "\<forall>u \<in> set (t_blocked_by t). has_key by_url u" "stack_blockers t by_url = [b]"
      "Unlocked t by_url prs stacking = unlocked_on_blocker b prs stacking"
  | (many) b c bs where "\<forall>u \<in> set (t_blocked_by t). has_key by_url u" "stack_blockers t by_url = b # c # bs"
      "Unlocked t by_url prs stacking = unlocked_on_blockers (b # c # bs) prs"
proof (cases "same_repo_blockers (t_repo t) by_url (t_blocked_by t)")
  case (Inl u)
  then show ?thesis using untracked [of u] same_repo_blockers_Inl by (auto simp: Unlocked_def)
next
  case (Inr bs)
  from Inr have all: "\<forall>u \<in> set (t_blocked_by t). has_key by_url u" and bs: "stack_blockers t by_url = bs"
    using same_repo_blockers_Inr [OF Inr] by (simp_all add: stack_blockers_def)
  show ?thesis
  proof (cases bs)
    case Nil
    then show ?thesis using free all bs Inr by (simp add: Unlocked_def)
  next
    case (Cons b bs')
    then show ?thesis
      using single [of b] many [of b "hd bs'" "tl bs'"] all bs Inr
      by (cases bs') (simp_all add: Unlocked_def)
  qed
qed

lemma unlocked_on_blocker_simps:
  "u_unlocked (unlocked_on_blocker b prs st) \<longleftrightarrow> get_or Absent prs (t_branch b) \<in> {Open, Merged}"
  "u_base_branch (unlocked_on_blocker b prs st) =
     (if get_or Absent prs (t_branch b) = Open \<and> st then t_branch b
      else if get_or Absent prs (t_branch b) \<in> {Open, Merged} then default_base_branch else [])"
  "u_blocking (unlocked_on_blocker b prs st) =
     (if get_or Absent prs (t_branch b) \<in> {Open, Merged} then [] else [t_url b])"
  "u_blocker_closed (unlocked_on_blocker b prs st) \<longleftrightarrow> get_or Absent prs (t_branch b) = Closed"
  by (simp_all add: unlocked_on_blocker_def no_unlock_def split: pr_state.split)

lemma unlocked_on_blockers_simps:
  "u_unlocked (unlocked_on_blockers bs prs) \<longleftrightarrow> (\<forall>b \<in> set bs. get_or Absent prs (t_branch b) = Merged)"
  "u_blocking (unlocked_on_blockers bs prs) =
     map t_url (filter (\<lambda>b. get_or Absent prs (t_branch b) \<noteq> Merged) bs)"
  "u_base_branch (unlocked_on_blockers bs prs) =
     (if \<forall>b \<in> set bs. get_or Absent prs (t_branch b) = Merged then default_base_branch else [])"
  "\<not> u_blocker_closed (unlocked_on_blockers bs prs)"
  by (auto simp: unlocked_on_blockers_def no_unlock_def Let_def filter_empty_conv)

lemmas unlock_simps = unlocked_on_blocker_simps unlocked_on_blockers_simps no_unlock_def

text \<open>The tickets of the witnesses, all in one repository.\<close>

definition sample_ticket :: "string \<Rightarrow> string \<Rightarrow> ticket_url list \<Rightarrow> ticket" where
  "sample_ticket url branch blocked =
     \<lparr>t_url = url, t_repo = ''r'', t_branch = branch, t_blocked_by = blocked, t_worked_example_branch = [],
      t_launch_context = [], t_choice = \<lparr>choice_model = [], choice_effort = None\<rparr>\<rparr>"

text \<open>A blocker is satisfied: alone it needs an open or merged pull request, among several a merged one.\<close>

definition blockers_satisfied :: "ticket list \<Rightarrow> (string, pr_state) gomap \<Rightarrow> bool" where
  "blockers_satisfied bs prs =
     (case bs of
        [b] \<Rightarrow> get_or Absent prs (t_branch b) \<in> {Open, Merged}
      | _ \<Rightarrow> \<forall>b \<in> set bs. get_or Absent prs (t_branch b) = Merged)"

text \<open>C24: \<open>Unlocked\<close> lets a ticket start exactly when every blocker it names is tracked and its
  blockers in the same repository are satisfied, and then the base it gives is the default branch, or,
  with stacking, the branch of the only such blocker while that one's pull request is open.
  A blocker in another repository never holds the ticket.\<close>

theorem unlocked_exactly:
  "(u_unlocked (Unlocked t by_url prs stacking), u_base_branch (Unlocked t by_url prs stacking)) =
     (if (\<forall>u \<in> set (t_blocked_by t). has_key by_url u) \<and> blockers_satisfied (stack_blockers t by_url) prs
      then (True, case stack_blockers t by_url of
                    [b] \<Rightarrow> if stacking \<and> get_or Absent prs (t_branch b) = Open then t_branch b
                           else default_base_branch
                  | _ \<Rightarrow> default_base_branch)
      else (False, []))"
  by (cases rule: Unlocked_cases [where t=t and by_url=by_url and prs=prs and stacking=stacking];
      auto simp: unlock_simps blockers_satisfied_def)

theorem unlocked_exactly_witness:
  "u_base_branch (Unlocked (sample_ticket ''u2'' ''b2'' [''u1'']) [(''u1'', sample_ticket ''u1'' ''b1'' [])]
     [(''b1'', Open)] True) = ''b1''"
  using unlocked_exactly [of "sample_ticket ''u2'' ''b2'' [''u1'']" "[(''u1'', sample_ticket ''u1'' ''b1'' [])]"
      "[(''b1'', Open)]" True]
  by (simp add: blockers_satisfied_def stack_blockers_def sample_ticket_def List.map_filter_simps)

text \<open>What a locked ticket reports as blocking: the unsatisfied stack blockers, none for an untracked one.\<close>

lemma unlocked_blocking:
  "u_blocking (Unlocked t by_url prs stacking) =
     (if u_unlocked (Unlocked t by_url prs stacking) \<or> (\<exists>u \<in> set (t_blocked_by t). \<not> has_key by_url u) then []
      else map t_url (filter (\<lambda>b. get_or Absent prs (t_branch b) \<noteq> Merged) (stack_blockers t by_url)))"
  by (cases rule: Unlocked_cases [where t=t and by_url=by_url and prs=prs and stacking=stacking];
      auto simp: unlock_simps blockers_satisfied_def filter_empty_conv)

text \<open>A pull request goes forward when it opens, or merges after it opened; a merged one stays merged.\<close>

fun pr_forward :: "pr_state \<Rightarrow> pr_state \<Rightarrow> bool" where
  "pr_forward Absent s = True"
| "pr_forward Open s = (s = Open \<or> s = Merged)"
| "pr_forward Merged s = (s = Merged)"
| "pr_forward Closed s = True"

text \<open>A started unlock is never taken back by progress: while the pull requests of the
  blockers only go forward (open stays open or merges, merged stays merged), a ticket that was
  unlocked stays unlocked, whichever order its blockers are observed in.\<close>

theorem unlock_monotone:
  assumes "u_unlocked (Unlocked t by_url prs stacking)"
    and "\<forall>b \<in> set (stack_blockers t by_url). pr_forward (get_or Absent prs (t_branch b)) (get_or Absent prs' (t_branch b))"
  shows "u_unlocked (Unlocked t by_url prs' stacking)"
proof (cases rule: Unlocked_cases [where t=t and by_url=by_url and prs=prs and stacking=stacking])
  case (untracked u)
  with assms show ?thesis by (simp add: no_unlock_def)
next
  case free
  then show ?thesis
    by (cases rule: Unlocked_cases [where t=t and by_url=by_url and prs=prs' and stacking=stacking])
      (auto simp: no_unlock_def)
next
  case (single b)
  with assms have "get_or Absent prs (t_branch b) \<in> {Open, Merged}" by (simp add: unlock_simps)
  with assms(2) single have "get_or Absent prs' (t_branch b) \<in> {Open, Merged}" by auto
  with single show ?thesis
    by (cases rule: Unlocked_cases [where t=t and by_url=by_url and prs=prs' and stacking=stacking])
      (auto simp: unlock_simps)
next
  case (many b c bs)
  with assms have "\<forall>x \<in> set (b # c # bs). get_or Absent prs' (t_branch x) = Merged"
    by (auto simp: unlock_simps)
  with many show ?thesis
    by (cases rule: Unlocked_cases [where t=t and by_url=by_url and prs=prs' and stacking=stacking])
      (auto simp: unlock_simps)
qed

theorem unlock_monotone_witness:
  "u_unlocked (Unlocked (sample_ticket ''u2'' ''b2'' [''u1'']) [(''u1'', sample_ticket ''u1'' ''b1'' [])]
     [(''b1'', Merged)] True)"
  by (rule unlock_monotone [where prs = "[(''b1'', Open)]"])
    (simp_all add: Unlocked_def unlocked_on_blocker_def stack_blockers_def sample_ticket_def no_unlock_def
      List.map_filter_simps)

subsection \<open>The base a ticket would be cut from, and the preview of a launch\<close>

definition prospective_base :: "ticket \<Rightarrow> (ticket_url, ticket) gomap \<Rightarrow> bool \<Rightarrow> string" where
  "prospective_base t by_url stacking =
     (let same_repo = filter (\<lambda>b. t_repo b = t_repo t) (List.map_filter (map_of by_url) (t_blocked_by t))
      in if length same_repo = 1 \<and> stacking then t_branch (same_repo ! 0) else default_base_branch)"

datatype preview_label = Now | OnUnlock | Refused

fun preview_label_text :: "preview_label \<Rightarrow> string" where
  "preview_label_text Now = ''now''"
| "preview_label_text OnUnlock = ''on unlock''"
| "preview_label_text Refused = ''refused''"

definition conflicted_base_reason :: "string \<Rightarrow> reason" where
  "conflicted_base_reason base =
     base @ '' already carries an unresolved merge conflict: a branch cut from it inherits the conflict''"

definition conflicting_peer_reason :: "string \<Rightarrow> reason" where
  "conflicting_peer_reason peer =
     peer @ '' is a lower-ref open peer this branch conflicts with: only one of a conflicting pair proceeds at a time''"

definition Preview :: "unlock \<Rightarrow> (ticket_url, bool) gomap \<Rightarrow> int \<Rightarrow> string \<Rightarrow> preview_label \<times> reason" where
  "Preview unlock slice active_launch_id conflicted_base =
     (if active_launch_id \<noteq> 0 then (Refused, ''already authorised in launch '' @ itoa active_launch_id)
      else if conflicted_base \<noteq> [] then (Refused, conflicted_base_reason conflicted_base)
      else if u_unlocked unlock then (Now, u_reason unlock)
      else (case find (\<lambda>b. \<not> get_or False slice b) (u_blocking unlock) of
              Some b \<Rightarrow>
                (Refused, ''blocked by '' @ b @ '', which has no open or merged pull request outside this slice'')
            | None \<Rightarrow> (OnUnlock, u_reason unlock)))"

lemma Preview_label:
  "fst (Preview u slice lid base) =
     (if lid \<noteq> 0 \<or> base \<noteq> [] then Refused else if u_unlocked u then Now
      else if \<forall>b \<in> set (u_blocking u). get_or False slice b then OnUnlock else Refused)"
proof (cases "find (\<lambda>b. \<not> get_or False slice b) (u_blocking u)")
  case None
  then have "\<forall>b \<in> set (u_blocking u). get_or False slice b" by (auto simp: find_None_iff)
  with None show ?thesis by (simp add: Preview_def)
next
  case (Some b)
  with find_SomeD [OF Some] show ?thesis by (auto simp: Preview_def)
qed

text \<open>The preview offers to launch a ticket at once exactly when it is in no launch, its base
  carries no conflict and it is unlocked, and to launch it when it unlocks exactly when, not being unlocked, every
  stack blocker that is not yet satisfied is in the selection (or some blocker is not tracked at all).\<close>

theorem preview_label_exactly:
  "fst (Preview (Unlocked t by_url prs stacking) slice lid base) =
     (if lid \<noteq> 0 \<or> base \<noteq> [] then Refused
      else if u_unlocked (Unlocked t by_url prs stacking) then Now
      else if (\<exists>u \<in> set (t_blocked_by t). \<not> has_key by_url u)
              \<or> (\<forall>b \<in> set (stack_blockers t by_url).
                    get_or Absent prs (t_branch b) \<noteq> Merged \<longrightarrow> get_or False slice (t_url b)) then OnUnlock
      else Refused)"
  by (auto simp: Preview_label unlocked_blocking)

theorem preview_label_exactly_witness:
  "fst (Preview (Unlocked (sample_ticket ''u2'' ''b2'' [''u1'']) [(''u1'', sample_ticket ''u1'' ''b1'' [])] [] True)
     [(''u1'', True)] 0 []) = OnUnlock"
  using preview_label_exactly [of "sample_ticket ''u2'' ''b2'' [''u1'']" "[(''u1'', sample_ticket ''u1'' ''b1'' [])]"
      "[]" True "[(''u1'', True)]" 0 "[]"]
  by (simp add: Unlocked_def unlocked_on_blocker_def no_unlock_def stack_blockers_def sample_ticket_def
      List.map_filter_simps)

text \<open>The base a preview announces is the base the launch uses: a ticket that unlocks while
  its stack blocker's pull request is open, and any ticket with no or several stack blockers or without
  stacking, is cut from its prospective base; only a blocker that merged in between moves it to the default branch.\<close>

theorem prospective_base_kept:
  assumes "u_unlocked (Unlocked t by_url prs stacking)"
  shows "u_base_branch (Unlocked t by_url prs stacking) =
    (if \<exists>b. stack_blockers t by_url = [b] \<and> get_or Absent prs (t_branch b) = Merged
     then default_base_branch else prospective_base t by_url stacking)"
  using assms
  by (cases rule: Unlocked_cases [where t=t and by_url=by_url and prs=prs and stacking=stacking])
    (auto simp: unlock_simps prospective_base_def stack_blockers_def Let_def)

theorem prospective_base_kept_witness:
  "u_base_branch (Unlocked (sample_ticket ''u2'' ''b2'' [''u1'']) [(''u1'', sample_ticket ''u1'' ''b1'' [])]
     [(''b1'', Open)] True) = ''b1''"
  using prospective_base_kept [of "sample_ticket ''u2'' ''b2'' [''u1'']" "[(''u1'', sample_ticket ''u1'' ''b1'' [])]"
      "[(''b1'', Open)]" True]
  by (simp add: Unlocked_def unlocked_on_blocker_def stack_blockers_def sample_ticket_def no_unlock_def
      prospective_base_def Let_def List.map_filter_simps)

subsection \<open>Which tickets a ticket unlocks\<close>

fun unlocks_loop :: "ticket_url \<Rightarrow> ticket_url list \<Rightarrow> (ticket_url, ticket_url list) gomap \<Rightarrow> (ticket_url, ticket_url list) gomap" where
  "unlocks_loop url [] out = out"
| "unlocks_loop url (b # bs) out =
     unlocks_loop url bs (if url \<notin> set (get_or [] out b) then put b (get_or [] out b @ [url]) out else out)"

definition Unlocks :: "ticket list \<Rightarrow> (ticket_url, ticket_url list) gomap" where
  "Unlocks tickets = fold (\<lambda>t out. unlocks_loop (t_url t) (t_blocked_by t) out) tickets []"

lemma unlocks_loop_in:
  "u \<in> set (get_or [] (unlocks_loop url bs out) b) \<longleftrightarrow> u \<in> set (get_or [] out b) \<or> (u = url \<and> b \<in> set bs)"
  by (induction bs arbitrary: out) auto

lemma unlocks_loop_distinct:
  "\<forall>b. distinct (get_or [] out b) \<Longrightarrow> distinct (get_or [] (unlocks_loop url bs out) b)"
  by (induction bs arbitrary: out) auto

text \<open>\<open>Unlocks\<close> is the converse of the tickets' blocker lists: under a blocker it lists, once each,
  exactly the tickets that name it, also when a ticket names a blocker twice.\<close>

theorem unlocks_converse:
  "set (get_or [] (Unlocks tickets) b) = {t_url t | t. t \<in> set tickets \<and> b \<in> set (t_blocked_by t)}
   \<and> distinct (get_or [] (Unlocks tickets) b)"
proof
  have "u \<in> set (get_or [] (fold (\<lambda>t out. unlocks_loop (t_url t) (t_blocked_by t) out) ts out) b) \<longleftrightarrow>
          u \<in> set (get_or [] out b) \<or> (\<exists>t \<in> set ts. u = t_url t \<and> b \<in> set (t_blocked_by t))" for u ts out
    by (induction ts arbitrary: out) (auto simp: unlocks_loop_in)
  then show "set (get_or [] (Unlocks tickets) b) = {t_url t | t. t \<in> set tickets \<and> b \<in> set (t_blocked_by t)}"
    by (auto simp: Unlocks_def)
  have "\<forall>b. distinct (get_or [] out b) \<Longrightarrow>
          distinct (get_or [] (fold (\<lambda>t out. unlocks_loop (t_url t) (t_blocked_by t) out) ts out) b)" for ts out
    by (induction ts arbitrary: out) (auto simp: unlocks_loop_distinct)
  from this [of "[]" tickets] show "distinct (get_or [] (Unlocks tickets) b)" by (simp add: Unlocks_def)
qed

subsection \<open>The draft gate\<close>

definition gating_blockers :: "ticket \<Rightarrow> (ticket_url, ticket) gomap \<Rightarrow> ticket list" where
  "gating_blockers t by_url =
     List.map_filter (\<lambda>u. case map_of by_url u of
         Some b \<Rightarrow> if t_repo b \<noteq> t_repo t then Some b else None | None \<Rightarrow> None) (t_blocked_by t)"

definition unresolved_gate_reason :: "ticket_url list \<Rightarrow> reason" where
  "unresolved_gate_reason us =
     (if length us = 1 then ''waiting on '' @ us ! 0
      else ''waiting on '' @ itoa (int (length us)) @ '' blockers: '' @ join_urls us)"

definition closed_gate_reason :: "ticket_url list \<Rightarrow> reason" where
  "closed_gate_reason us =
     (if length us = 1 then ''waiting on '' @ us ! 0 @ '': its pull request was closed without merging''
      else ''waiting on '' @ itoa (int (length us)) @ '' blockers whose pull requests closed without merging: '' @ join_urls us)"

definition draft_gate :: "ticket list \<Rightarrow> (string, pr_state) gomap \<Rightarrow> bool \<Rightarrow> bool \<times> reason" where
  "draft_gate gating prs verdict_green =
     (let closed = map t_url (filter (\<lambda>g. get_or Absent prs (t_branch g) = Closed) gating);
          unresolved = map t_url (filter (\<lambda>g. get_or Absent prs (t_branch g) \<in> {Open, Absent}) gating)
      in if closed \<noteq> [] then (True, closed_gate_reason closed)
         else if unresolved \<noteq> [] then (True, unresolved_gate_reason unresolved)
         else if \<not> verdict_green then (True, ''waiting on its own checks'')
         else (False, ''every gating blocker has merged and its own checks are green''))"

text \<open>A pull request leaves draft exactly when each of the ticket's blockers in other
  repositories has merged and its own checks are green.\<close>

theorem draft_gate_exactly:
  "fst (draft_gate gating prs green) \<longleftrightarrow>
     \<not> (green \<and> (\<forall>g \<in> set gating. get_or Absent prs (t_branch g) = Merged))"
proof -
  have "get_or Absent prs (t_branch g) = Merged \<longleftrightarrow>
      get_or Absent prs (t_branch g) \<noteq> Closed \<and> get_or Absent prs (t_branch g) \<notin> {Open, Absent}" for g
    by (cases "get_or Absent prs (t_branch g)") auto
  then show ?thesis by (auto simp: draft_gate_def Let_def filter_empty_conv)
qed

theorem draft_gate_exactly_witness:
  "\<not> fst (draft_gate [sample_ticket ''u1'' ''b1'' []] [(''b1'', Merged)] True)"
  using draft_gate_exactly [of "[sample_ticket ''u1'' ''b1'' []]" "[(''b1'', Merged)]" True]
  by (simp add: sample_ticket_def)

subsection \<open>The ready-to-merge warning\<close>

definition ready_to_merge_label :: string where
  "ready_to_merge_label = ''ready-to-merge''"

definition stacked_ready_to_merge_warning :: "string \<Rightarrow> string list \<Rightarrow> bool" where
  "stacked_ready_to_merge_warning base_ref labels =
     (if base_ref = [] \<or> base_ref = default_base_branch then False else ready_to_merge_label \<in> set labels)"

end
