(* ===== verification/Workflows.thy ===== *)
theory Workflows imports Tickets begin

text \<open>
  \<open>compose.go\<close> and \<open>workflow.go\<close>: the prompts an agent is started with, and the machine that
  takes a ticket through the steps of its repository's workflow. The machine keeps no state
  of its own: \<open>Next\<close> recomputes it from the runs of the ticket. The step relation
  \<open>wf_step\<close> below is how the runs of a ticket grow when the daemon starts what \<open>Next\<close> says.

  \<open>Hash\<close> is SHA-256 of the prompt in hexadecimal, from Go's \<open>crypto/sha256\<close>; it is a
  parameter of the definitions that use it.
\<close>

subsection \<open>Prompts\<close>

definition nl :: string where "nl = [CHR 0x0A]"
definition apos :: string where "apos = [CHR 0x27]"

definition Compose :: "ticket \<Rightarrow> string" where
  "Compose t =
     ''/implement '' @ t_url t
     @ (if t_worked_example_branch t \<noteq> []
        then nl @ nl @ ''## Worked example: '' @ t_worked_example_branch t @ nl @ nl @ ''Read the diff:'' @ nl @ nl
             @ ''    git diff '' @ default_base_branch @ ''...'' @ t_worked_example_branch t
        else [])
     @ (if t_launch_context t \<noteq> [] then nl @ nl @ ''## Launch context'' @ nl @ nl @ t_launch_context t else [])"

definition compose_follow_up :: "string \<Rightarrow> string" where
  "compose_follow_up txt =
     ''You were not given a fresh worktree. This one already carries a branch, a diff and a git history ''
     @ ''a prior run produced; nothing remembers what that run was thinking, only what it committed. ''
     @ ''Run `git status`, `git diff` and `git log -5`, and read the PR description if one exists, ''
     @ ''before you touch anything.'' @ nl @ nl
     @ ''Below is the operator'' @ apos @ ''s own instruction, typed for this run. It is the whole of your task, ''
     @ ''not a restatement of the original ticket, and the ticket'' @ apos @ ''s acceptance criteria are not ''
     @ ''automatically still the bar.'' @ nl @ nl
     @ ''Carry it out, run the checks the repo defines for the code you touched, and commit each ''
     @ ''distinct change separately. Do not push: the daemon that spawned you reads this worktree'' @ apos @ ''s ''
     @ ''commits to decide when to push, and an uncommitted fix reads as a run that did nothing. ''
     @ ''If the instruction asks for something your settings deny, do the rest, commit it, and say ''
     @ ''in your final message what you could not do and why.'' @ nl @ nl
     @ ''Your instruction:'' @ nl @ nl @ txt"

definition compose_asking :: "string \<Rightarrow> string" where
  "compose_asking question_path =
     nl @ nl @ ''## Asking the owner'' @ nl @ nl
     @ ''If you need a decision only the owner can make, write one question to '' @ question_path
     @ '' and end your turn. The owner'' @ apos
     @ ''s answer resumes this session. Do not ask what you can decide yourself.''"

fun compose_message :: "string \<Rightarrow> outcome \<Rightarrow> string" where
  "compose_message txt OutcomeAsked = ''The owner'' @ apos @ ''s answer to your question:'' @ nl @ nl @ txt"
| "compose_message txt OutcomeContinued =
     ''The owner interrupted you with a message. Your last tool call may have been cut off, ''
     @ ''so check its effect before going on:'' @ nl @ nl @ txt"
| "compose_message txt _ = ''The owner'' @ apos @ ''s follow-up instruction:'' @ nl @ nl @ txt"

subsection \<open>Steps, workflows and their runs\<close>

type_synonym step_name = string

record step =
  s_name :: step_name
  s_command :: bool
  s_model :: string
  s_tools :: "string list"
  s_prompt :: string
  s_writes :: bool
  s_on_fail :: bool

record workflow =
  w_name :: string
  w_hash :: string
  w_steps :: "step list"
  w_max_fix_rounds :: int

record step_run =
  sr_id :: run_id
  sr_step :: step_name
  sr_command :: bool
  sr_alive :: bool
  sr_outcome :: "outcome option"
  sr_handoff :: "string option"

datatype next_kind = NextRun | NextDone | NextPark

record "next" =
  n_kind :: next_kind
  n_step :: "step option"
  n_round :: int
  n_reason :: reason

text \<open>\<open>split\<close>: the steps run in order, without the commands when the repository has no verify command, and the last repair step.\<close>

definition split_steps :: "workflow \<Rightarrow> bool \<Rightarrow> step list \<times> step option" where
  "split_steps w has_verify =
     fold (\<lambda>s (forward, fix_step).
         if s_on_fail s then (forward, Some s)
         else if s_command s \<and> \<not> has_verify then (forward, fix_step)
         else (forward @ [s], fix_step)) (w_steps w) ([], None)"

definition first_step :: "workflow \<Rightarrow> bool \<Rightarrow> step option" where
  "first_step w has_verify =
     (case fst (split_steps w has_verify) of [] \<Rightarrow> None | s # _ \<Rightarrow> Some s)"

text \<open>\<open>fromLatest\<close>: the runs from the last one of the first step on, all of them when there is none.\<close>

definition from_latest :: "step_run list \<Rightarrow> step_name \<Rightarrow> step_run list" where
  "from_latest pass first =
     (case index_where (\<lambda>r. sr_step r = first) (rev pass) of
        None \<Rightarrow> pass
      | Some i \<Rightarrow> drop (length pass - Suc i) pass)"

definition workflow_pass :: "workflow \<Rightarrow> step_run list \<Rightarrow> bool \<Rightarrow> step_run list" where
  "workflow_pass w runs has_verify =
     (case fst (split_steps w has_verify) of [] \<Rightarrow> [] | s # _ \<Rightarrow> from_latest runs (s_name s))"

definition run_step :: "step \<Rightarrow> int \<Rightarrow> next" where
  "run_step s round = \<lparr>n_kind = NextRun, n_step = Some s, n_round = round, n_reason = []\<rparr>"

definition park :: "step_name \<Rightarrow> outcome \<Rightarrow> next" where
  "park s o' = \<lparr>n_kind = NextPark, n_step = None, n_round = 0,
     n_reason = ''step '' @ s @ '' ended '' @ outcome_text o'\<rparr>"

definition unknown_step :: "step_name \<Rightarrow> next" where
  "unknown_step s = \<lparr>n_kind = NextPark, n_step = None, n_round = 0,
     n_reason = ''step '' @ s @ '' is not in the workflow''\<rparr>"

definition rerun :: "step list \<Rightarrow> step_name \<Rightarrow> int \<Rightarrow> next" where
  "rerun forward name round =
     (case index_where (\<lambda>s. s_name s = name) forward of
        None \<Rightarrow> unknown_step name
      | Some i \<Rightarrow> run_step (forward ! i) round)"

text \<open>The loop of \<open>Next\<close>: how many runs were of the repair step, and the last step that was not it.\<close>

definition is_fix :: "step option \<Rightarrow> step_run \<Rightarrow> bool" where
  "is_fix fix_step r = (case fix_step of None \<Rightarrow> False | Some s \<Rightarrow> sr_step r = s_name s)"

definition rounds_and_failed :: "step option \<Rightarrow> step_run list \<Rightarrow> int \<times> step_name" where
  "rounds_and_failed fix_step pass =
     fold (\<lambda>r (rounds, failed). if is_fix fix_step r then (rounds + 1, failed) else (rounds, sr_step r)) pass (0, [])"

definition Next :: "workflow \<Rightarrow> step_run list \<Rightarrow> bool \<Rightarrow> next" where
  "Next w runs has_verify =
     (let (forward, fix_step) = split_steps w has_verify
      in if forward = [] then \<lparr>n_kind = NextDone, n_step = None, n_round = 0, n_reason = []\<rparr>
         else
           let pass = from_latest runs (s_name (hd forward))
           in if pass = [] then run_step (hd forward) 0
              else if \<exists>r \<in> set pass. sr_alive r then \<lparr>n_kind = NextRun, n_step = None, n_round = 0, n_reason = []\<rparr>
              else
                let (rounds, failed) = rounds_and_failed fix_step pass;
                    lst = List.last pass;
                    outc = (case sr_outcome lst of None \<Rightarrow> OutcomeFailed | Some x \<Rightarrow> x)
                in if is_fix fix_step lst then
                     (if outc \<noteq> OutcomePassed then park (sr_step lst) outc else rerun forward failed rounds)
                   else
                     (case index_where (\<lambda>s. s_name s = sr_step lst) forward of
                        None \<Rightarrow> unknown_step (sr_step lst)
                      | Some i \<Rightarrow>
                          let final = (i = length forward - 1)
                          in if final \<and> outc = OutcomePush
                             then \<lparr>n_kind = NextDone, n_step = None, n_round = 0, n_reason = []\<rparr>
                             else if outc = OutcomePassed \<and> \<not> final then run_step (forward ! (i + 1)) rounds
                             else if outc = OutcomeFailed \<and> \<not> final \<and> fix_step \<noteq> None \<and> rounds < w_max_fix_rounds w
                             then run_step (the fix_step) (rounds + 1)
                             else if outc = OutcomeFailed \<and> \<not> final \<and> fix_step \<noteq> None
                             then \<lparr>n_kind = NextPark, n_step = None, n_round = 0,
                                   n_reason = ''step '' @ sr_step lst @ '' still failing after '' @ itoa rounds @ '' fix rounds''\<rparr>
                             else park (sr_step lst) outc))"

definition resumable :: "step_run list \<Rightarrow> step_run option" where
  "resumable pass = find (\<lambda>r. \<not> sr_command r) (rev pass)"

definition findings_marker :: string where
  "findings_marker = ''FINDINGS''"

record step_evidence =
  ev_exit_code :: "int option"
  ev_commits :: int
  ev_handoff :: "string option"

definition step_outcome :: "step \<Rightarrow> step_evidence \<Rightarrow> outcome" where
  "step_outcome s e =
     (let ok = (if s_command s then ev_exit_code e = Some 0
                else if s_writes s then
                  (let handoff = trim_space (case ev_handoff e of None \<Rightarrow> [] | Some h \<Rightarrow> h)
                   in handoff \<noteq> [] \<and> \<not> has_prefix handoff findings_marker)
                else 0 < ev_commits e)
      in if ok then OutcomePassed else OutcomeFailed)"

definition compose_step :: "ticket \<Rightarrow> step \<Rightarrow> step_run list \<Rightarrow> string" where
  "compose_step t s pass =
     s_prompt s @ nl @ nl @ ''## Ticket'' @ nl @ nl @ t_url t
     @ (if t_launch_context t \<noteq> [] then nl @ nl @ ''## Launch context'' @ nl @ nl @ t_launch_context t else [])
     @ concat (map (\<lambda>r. case sr_handoff r of
                          None \<Rightarrow> []
                        | Some h \<Rightarrow> nl @ nl @ ''## Handoff from '' @ sr_step r @ nl @ nl @ h) pass)"

subsection \<open>The parts of \<open>Next\<close>\<close>

definition well_formed :: "workflow \<Rightarrow> bool" where
  "well_formed w = distinct (map s_name (w_steps w))"

lemma split_steps_filter:
  "split_steps w hv =
     (filter (\<lambda>s. \<not> s_on_fail s \<and> \<not> (s_command s \<and> \<not> hv)) (w_steps w),
      (case rev (filter s_on_fail (w_steps w)) of [] \<Rightarrow> None | s # _ \<Rightarrow> Some s))"
proof -
  have "fold (\<lambda>s (forward, fix_step).
         if s_on_fail s then (forward, Some s)
         else if s_command s \<and> \<not> hv then (forward, fix_step)
         else (forward @ [s], fix_step)) ss (fw, fx) =
     (fw @ filter (\<lambda>s. \<not> s_on_fail s \<and> \<not> (s_command s \<and> \<not> hv)) ss,
      (case rev (filter s_on_fail ss) of [] \<Rightarrow> fx | s # _ \<Rightarrow> Some s))" for ss :: "step list" and fw fx
    by (induction ss arbitrary: fw fx) (auto split: list.splits)
  then show ?thesis by (simp add: split_steps_def)
qed

text \<open>The forward steps and the repair step of a workflow with distinct step names.\<close>

definition staged :: "workflow \<Rightarrow> bool \<Rightarrow> step list \<Rightarrow> step option \<Rightarrow> bool" where
  "staged w hv forward fix_step =
     (split_steps w hv = (forward, fix_step) \<and> forward \<noteq> [] \<and> distinct (map s_name forward)
      \<and> (\<forall>s. fix_step = Some s \<longrightarrow> s_name s \<notin> set (map s_name forward)))"

lemma well_formed_staged:
  assumes "well_formed w" and "split_steps w hv = (forward, fix_step)" and "forward \<noteq> []"
  shows "staged w hv forward fix_step"
proof -
  have fw: "forward = filter (\<lambda>s. \<not> s_on_fail s \<and> \<not> (s_command s \<and> \<not> hv)) (w_steps w)"
    and fx: "fix_step = (case rev (filter s_on_fail (w_steps w)) of [] \<Rightarrow> None | s # _ \<Rightarrow> Some s)"
    using assms(2) by (simp_all add: split_steps_filter)
  have d: "distinct (map s_name (w_steps w))" using assms(1) by (simp add: well_formed_def)
  have "s_name s \<notin> set (map s_name forward)" if "fix_step = Some s" for s
  proof -
    from that fx have "s \<in> set (rev (filter s_on_fail (w_steps w)))"
      by (cases "rev (filter s_on_fail (w_steps w))") (simp_all del: set_rev)
    then have s: "s \<in> set (w_steps w)" "s_on_fail s" by auto
    show ?thesis
    proof
      assume "s_name s \<in> set (map s_name forward)"
      then obtain t where "t \<in> set (w_steps w)" "\<not> s_on_fail t" "s_name t = s_name s" using fw by auto
      with s d show False by (metis distinct_map inj_on_eq_iff)
    qed
  qed
  moreover have "distinct (map s_name forward)" using d by (simp add: fw distinct_map_filter)
  ultimately show ?thesis using assms by (simp add: staged_def)
qed

lemma from_latest_Nil [simp]: "from_latest [] f = []"
  by (simp add: from_latest_def)

lemma from_latest_snoc:
  "from_latest (rs @ [r]) f = (if sr_step r = f then [r] else from_latest rs f @ [r])"
proof (cases "index_where (\<lambda>r. sr_step r = f) (rev rs)")
  case None
  then show ?thesis by (simp add: from_latest_def)
next
  case (Some i)
  with index_where_Some [OF Some] show ?thesis by (simp add: from_latest_def)
qed

lemma set_from_latest: "set (from_latest rs f) \<subseteq> set rs"
  by (auto simp: from_latest_def split: option.splits dest: in_set_dropD)

lemma last_from_latest: "rs \<noteq> [] \<Longrightarrow> from_latest rs f \<noteq> [] \<and> List.last (from_latest rs f) = List.last rs"
  by (cases rs rule: rev_cases) (auto simp: from_latest_snoc)

text \<open>How many runs repaired.\<close>

definition fix_count :: "step option \<Rightarrow> step_run list \<Rightarrow> nat" where
  "fix_count fx rs = length (filter (is_fix fx) rs)"

lemma rounds_and_failed_snoc:
  "rounds_and_failed fx (rs @ [r]) =
     (if is_fix fx r then (fst (rounds_and_failed fx rs) + 1, snd (rounds_and_failed fx rs))
      else (fst (rounds_and_failed fx rs), sr_step r))"
  by (simp add: rounds_and_failed_def split: prod.split)

lemma rounds_count: "fst (rounds_and_failed fx rs) = int (fix_count fx rs)"
  by (induction rs rule: rev_induct)
    (simp_all add: rounds_and_failed_snoc fix_count_def, simp add: rounds_and_failed_def)

text \<open>Repairing goes back to the last step that was not a repair.\<close>

lemma failed_is_last:
  "\<exists>r \<in> set rs. \<not> is_fix fx r \<Longrightarrow>
     \<exists>us r vs. rs = us @ r # vs \<and> \<not> is_fix fx r \<and> (\<forall>v \<in> set vs. is_fix fx v)
       \<and> snd (rounds_and_failed fx rs) = sr_step r"
proof (induction rs rule: rev_induct)
  case Nil
  then show ?case by simp
next
  case (snoc x xs)
  show ?case
  proof (cases "is_fix fx x")
    case True
    with snoc obtain us r vs where xs: "xs = us @ r # vs" "\<not> is_fix fx r" "\<forall>v \<in> set vs. is_fix fx v"
      "snd (rounds_and_failed fx xs) = sr_step r" by auto
    have "snd (rounds_and_failed fx (xs @ [x])) = sr_step r"
      using True xs(4) by (simp add: rounds_and_failed_snoc)
    moreover have "xs @ [x] = us @ r # (vs @ [x])" "\<forall>v \<in> set (vs @ [x]). is_fix fx v"
      using True xs by simp_all
    ultimately have "xs @ [x] = us @ r # (vs @ [x]) \<and> \<not> is_fix fx r \<and> (\<forall>v \<in> set (vs @ [x]). is_fix fx v)
       \<and> snd (rounds_and_failed fx (xs @ [x])) = sr_step r"
      using xs(2) by blast
    then show ?thesis by blast
  next
    case False
    then have "xs @ [x] = xs @ x # [] \<and> \<not> is_fix fx x \<and> (\<forall>v \<in> set []. is_fix fx v)
       \<and> snd (rounds_and_failed fx (xs @ [x])) = sr_step x" by (simp add: rounds_and_failed_snoc)
    then show ?thesis by blast
  qed
qed

subsection \<open>The runs of a ticket as a step relation\<close>

definition new_run :: "run_id \<Rightarrow> step \<Rightarrow> step_run" where
  "new_run i s = \<lparr>sr_id = i, sr_step = s_name s, sr_command = s_command s, sr_alive = True,
     sr_outcome = None, sr_handoff = None\<rparr>"

text \<open>
  A run is started when none is alive and \<open>Next\<close> names a step; the run alive at the end of the
  list ends with any outcome, also none (its process vanished).
\<close>

inductive wf_step :: "workflow \<Rightarrow> bool \<Rightarrow> step_run list \<Rightarrow> step_run list \<Rightarrow> bool" for w hv where
  start: "\<forall>r \<in> set runs. \<not> sr_alive r \<Longrightarrow> n_kind (Next w runs hv) = NextRun \<Longrightarrow> n_step (Next w runs hv) = Some s
      \<Longrightarrow> wf_step w hv runs (runs @ [new_run i s])"
| finish: "sr_alive r \<Longrightarrow>
      wf_step w hv (runs @ [r]) (runs @ [r\<lparr>sr_alive := False, sr_outcome := o', sr_handoff := h\<rparr>])"

inductive wf_reach :: "workflow \<Rightarrow> bool \<Rightarrow> step_run list \<Rightarrow> bool" for w hv where
  reach_nil: "wf_reach w hv []"
| reach_step: "wf_reach w hv runs \<Longrightarrow> wf_step w hv runs runs' \<Longrightarrow> wf_reach w hv runs'"

inductive_cases wf_stepE: "wf_step w hv runs runs'"

text \<open>
  \<open>follows\<close>: a forward step but the first runs only after its predecessor passed in this pass.
  \<open>ordered\<close> says so for every run of a pass, read from its end.
\<close>

definition follows :: "step list \<Rightarrow> step_run list \<Rightarrow> step_run \<Rightarrow> bool" where
  "follows forward us r =
     (\<forall>i < length forward - 1. sr_step r = s_name (forward ! Suc i) \<longrightarrow>
        (\<exists>u \<in> set us. sr_step u = s_name (forward ! i) \<and> sr_outcome u = Some OutcomePassed))"

fun ordered :: "step list \<Rightarrow> step_run list \<Rightarrow> bool" where
  "ordered forward [] = True"
| "ordered forward (r # us) = (follows forward us r \<and> ordered forward us)"

lemma follows_rev [simp]: "follows forward (rev us) r = follows forward us r"
  by (simp add: follows_def)

lemma ordered_split: "ordered forward (rev (us @ r # vs)) \<Longrightarrow> follows forward us r"
  by (induction vs rule: rev_induct) (auto simp: follows_def)

lemma follows_mono: "follows forward us r \<Longrightarrow> set us \<subseteq> set us' \<Longrightarrow> sr_step r' = sr_step r \<Longrightarrow> follows forward us' r'"
  unfolding follows_def by auto

definition pass_inv :: "workflow \<Rightarrow> step list \<Rightarrow> step option \<Rightarrow> step_run list \<Rightarrow> bool" where
  "pass_inv w forward fx runs =
     (let pass = from_latest runs (s_name (hd forward))
      in (\<forall>r \<in> set (butlast runs). \<not> sr_alive r)
         \<and> (runs \<noteq> [] \<longrightarrow> sr_step (hd pass) = s_name (hd forward))
         \<and> (\<forall>r \<in> set runs. is_fix fx r \<or> sr_step r \<in> s_name ` set forward)
         \<and> ordered forward (rev pass)
         \<and> int (fix_count fx pass) \<le> max 0 (w_max_fix_rounds w))"

text \<open>The ways \<open>Next\<close> starts a step, once the runs of the pass have ended.\<close>

lemma Next_cases:
  assumes st: "staged w hv forward fx" and runs: "runs \<noteq> []" and dead: "\<forall>r \<in> set runs. \<not> sr_alive r"
    and run: "n_kind (Next w runs hv) = NextRun" "n_step (Next w runs hv) = Some s"
  defines "pass \<equiv> from_latest runs (s_name (hd forward))"
  obtains (again) i where "is_fix fx (List.last runs)" "i < length forward" "s = forward ! i"
      "s_name s = snd (rounds_and_failed fx pass)"
  | (forth) i where "Suc i < length forward" "s = forward ! Suc i" "sr_step (List.last runs) = s_name (forward ! i)"
      "sr_outcome (List.last runs) = Some OutcomePassed"
  | (repair) "fx = Some s" "int (fix_count fx pass) < w_max_fix_rounds w"
proof -
  have split: "split_steps w hv = (forward, fx)" "forward \<noteq> []" using st by (simp_all add: staged_def)
  have pass: "pass \<noteq> []" "List.last pass = List.last runs" using last_from_latest [OF runs] by (simp_all add: pass_def)
  have alive: "\<not> (\<exists>r \<in> set pass. sr_alive r)" using dead set_from_latest unfolding pass_def by fast
  let ?o = "case sr_outcome (List.last runs) of None \<Rightarrow> OutcomeFailed | Some x \<Rightarrow> x"
  note N = Next_def [of w runs hv, unfolded split prod.case Let_def, folded pass_def]
  have forth': thesis if "i < length forward" "i \<noteq> length forward - Suc 0" "s = forward ! Suc i"
      "s_name (forward ! i) = sr_step (List.last runs)" "sr_outcome (List.last runs) = Some OutcomePassed" for i
    using forth [of i] that by simp
  show ?thesis
    using run pass alive split again forth' repair rounds_count [of fx pass]
    by (auto simp: N run_step_def park_def unknown_step_def rerun_def split: if_splits option.splits prod.splits
        dest!: index_where_Some)
qed

lemma finish_inv:
  assumes "sr_step r' = sr_step r"
    and "pass_inv w forward fx (rs @ [r])"
  shows "pass_inv w forward fx (rs @ [r'])"
proof -
  have fx': "is_fix fx r' = is_fix fx r" using assms(1) by (simp add: is_fix_def split: option.splits)
  have fol: "follows forward us r \<Longrightarrow> follows forward us r'" for us
    using assms(1) by (simp add: follows_def)
  show ?thesis
    using assms(2) fx' assms(1)
    by (cases "sr_step r = s_name (hd forward)"; cases "from_latest rs (s_name (hd forward)) = []")
      (auto simp: pass_inv_def Let_def from_latest_snoc fix_count_def intro: fol)
qed

lemma staged_fix: "staged w hv forward fx \<Longrightarrow> is_fix fx r \<Longrightarrow> sr_step r \<notin> s_name ` set forward"
  by (auto simp: staged_def is_fix_def split: option.splits)

lemma staged_index:
  "staged w hv forward fx \<Longrightarrow> i < length forward \<Longrightarrow> j < length forward
     \<Longrightarrow> s_name (forward ! i) = s_name (forward ! j) \<Longrightarrow> i = j"
  by (auto simp: staged_def distinct_conv_nth)

lemma follows_first:
  assumes "staged w hv forward fx" and "sr_step r = s_name (hd forward)"
  shows "follows forward us r"
proof -
  have "hd forward = forward ! 0" using assms(1) by (simp add: staged_def hd_conv_nth)
  then have "sr_step r \<noteq> s_name (forward ! Suc i)" if "i < length forward - 1" for i
    using assms(2) staged_index [OF assms(1), of 0 "Suc i"] that by fastforce
  then show ?thesis by (simp add: follows_def)
qed

lemma new_run_step [simp]: "sr_step (new_run i s) = s_name s"
  by (simp add: new_run_def)

text \<open>A step \<open>Next\<close> starts is a forward step whose predecessor passed, or the repair step within its rounds.\<close>

lemma started_step:
  assumes st: "staged w hv forward fx" and runs: "runs \<noteq> []" and dead: "\<forall>r \<in> set runs. \<not> sr_alive r"
    and run: "n_kind (Next w runs hv) = NextRun" "n_step (Next w runs hv) = Some s"
    and inv: "pass_inv w forward fx runs"
  defines "pass \<equiv> from_latest runs (s_name (hd forward))"
  shows "s \<in> set forward \<and> follows forward pass (new_run i s)
         \<or> fx = Some s \<and> int (fix_count fx pass) < w_max_fix_rounds w"
  using st runs dead run
proof (cases rule: Next_cases)
  case (again j)
  have pass: "pass \<noteq> []" using last_from_latest [OF runs] by (simp add: pass_def)
  have "sr_step (hd pass) \<in> s_name ` set forward"
    using inv runs st by (simp add: pass_inv_def Let_def pass_def staged_def)
  then have "\<exists>r \<in> set pass. \<not> is_fix fx r" using pass staged_fix [OF st] by (meson hd_in_set)
  then obtain us r vs where r: "pass = us @ r # vs" "snd (rounds_and_failed fx pass) = sr_step r"
    using failed_is_last by metis
  have "ordered forward (rev pass)" using inv by (simp add: pass_inv_def Let_def pass_def)
  then have "follows forward us r" using r(1) ordered_split by metis
  then have "follows forward pass (new_run i s)"
    by (rule follows_mono) (use r again in \<open>auto simp: pass_def\<close>)
  with again show ?thesis by simp
next
  case (forth j)
  have "List.last runs \<in> set pass" using last_from_latest [OF runs] last_in_set unfolding pass_def by metis
  moreover have "k = j" if "k < length forward - 1" "s_name s = s_name (forward ! Suc k)" for k
    using that forth staged_index [OF st, of "Suc j" "Suc k"] by simp
  ultimately have "follows forward pass (new_run i s)"
    unfolding follows_def using forth by auto
  with forth show ?thesis by simp
next
  case repair
  then show ?thesis by (simp add: pass_def)
qed

lemma start_inv:
  assumes st: "staged w hv forward fx" and dead: "\<forall>r \<in> set runs. \<not> sr_alive r"
    and run: "n_kind (Next w runs hv) = NextRun" "n_step (Next w runs hv) = Some s"
    and inv: "pass_inv w forward fx runs"
  shows "pass_inv w forward fx (runs @ [new_run i s])"
proof -
  let ?f = "s_name (hd forward)" and ?r = "new_run i s"
  let ?pass = "from_latest runs ?f"
  have ne: "forward \<noteq> []" using st by (simp add: staged_def)
  have cases: "s \<in> set forward \<and> follows forward ?pass ?r
         \<or> fx = Some s \<and> int (fix_count fx ?pass) < w_max_fix_rounds w"
  proof (cases "runs = []")
    case True
    have "s = hd forward" using st run by (auto simp: True Next_def staged_def run_step_def)
    with st ne show ?thesis by (simp add: follows_first)
  next
    case False
    with started_step [OF st False dead run inv] show ?thesis by simp
  qed
  have known: "is_fix fx ?r \<or> s_name s \<in> s_name ` set forward"
    using cases by (auto simp: is_fix_def)
  show ?thesis
  proof (cases "s_name s = ?f")
    case True
    then have "\<not> is_fix fx ?r" using staged_fix [OF st, of ?r] ne by auto
    with True dead inv known follows_first [OF st, of ?r] show ?thesis
      by (auto simp: pass_inv_def Let_def from_latest_snoc fix_count_def)
  next
    case False
    then have "runs \<noteq> []" using run st by (auto simp: Next_def staged_def run_step_def)
    then have pass: "?pass \<noteq> []" using last_from_latest by metis
    have fol: "follows forward ?pass ?r"
      using cases staged_fix [OF st, of ?r] by (auto simp: follows_def is_fix_def)
    have count: "int (fix_count fx (?pass @ [?r])) \<le> max 0 (w_max_fix_rounds w)"
    proof (cases "is_fix fx ?r")
      case True
      then have "s \<notin> set forward" using staged_fix [OF st, of ?r] by auto
      with cases True show ?thesis by (auto simp: fix_count_def)
    next
      case False
      with inv show ?thesis by (simp add: fix_count_def pass_inv_def Let_def)
    qed
    show ?thesis
      using False dead inv known fol count pass \<open>runs \<noteq> []\<close>
      by (auto simp: pass_inv_def Let_def from_latest_snoc)
  qed
qed

lemma reach_inv:
  assumes "staged w hv forward fx" and "wf_reach w hv runs"
  shows "pass_inv w forward fx runs"
  using assms(2)
proof (induction rule: wf_reach.induct)
  case reach_nil
  then show ?case by (simp add: pass_inv_def fix_count_def)
next
  case (reach_step runs runs')
  from reach_step(2) show ?case
  proof cases
    case (start s i)
    with start_inv [OF assms(1)] reach_step.IH show ?thesis by simp
  next
    case (finish r rs h o')
    with finish_inv [of "r\<lparr>sr_alive := False, sr_outcome := o', sr_handoff := h\<rparr>" r] reach_step.IH
    show ?thesis by simp
  qed
qed

subsection \<open>Properties of the machine\<close>

lemma ordered_chain:
  "ordered forward (rev pass) \<Longrightarrow> r \<in> set pass \<Longrightarrow> sr_step r = s_name (forward ! i) \<Longrightarrow> i < length forward
     \<Longrightarrow> j < i \<Longrightarrow> \<exists>u \<in> set pass. sr_step u = s_name (forward ! j) \<and> sr_outcome u = Some OutcomePassed"
proof (induction i arbitrary: r)
  case 0
  then show ?case by simp
next
  case (Suc i)
  obtain us vs where p: "pass = us @ r # vs" using Suc.prems(2) by (meson split_list)
  have "follows forward us r" using Suc.prems(1) ordered_split p by metis
  moreover have "i < length forward - 1" using Suc.prems(4) by simp
  ultimately obtain u where u: "u \<in> set us" "sr_step u = s_name (forward ! i)" "sr_outcome u = Some OutcomePassed"
    using Suc.prems(3) unfolding follows_def by blast
  show ?case
  proof (cases "j = i")
    case True
    with u p show ?thesis by auto
  next
    case False
    with Suc.IH [of u] Suc.prems u p show ?thesis by simp
  qed
qed

text \<open>C27: A workflow never repairs more than its configured number of times in one pass: in
  every reachable list of runs, whatever the outcomes were, the current pass holds at most
  \<open>MaxFixRounds\<close> runs of the repair step.\<close>

theorem fix_rounds_bounded:
  assumes "well_formed w" and "wf_reach w hv runs"
  shows "int (fix_count (snd (split_steps w hv)) (workflow_pass w runs hv)) \<le> max 0 (w_max_fix_rounds w)"
proof (cases "fst (split_steps w hv)")
  case Nil
  then show ?thesis by (simp add: workflow_pass_def fix_count_def)
next
  case (Cons s ss)
  then have "staged w hv (s # ss) (snd (split_steps w hv))"
    using assms(1) by (intro well_formed_staged) (auto simp: prod_eq_iff)
  from reach_inv [OF this assms(2)] show ?thesis
    by (simp add: pass_inv_def Let_def workflow_pass_def Cons)
qed

text \<open>The workflow of the witnesses: prepare, implement, and a repair step with two rounds.\<close>

definition sample_step :: "string \<Rightarrow> bool \<Rightarrow> bool \<Rightarrow> step" where
  "sample_step name command on_fail =
     \<lparr>s_name = name, s_command = command, s_model = [], s_tools = [], s_prompt = [], s_writes = False, s_on_fail = on_fail\<rparr>"

definition sample_workflow :: workflow where
  "sample_workflow = \<lparr>w_name = ''v1'', w_hash = [],
     w_steps = [sample_step ''setup'' True False, sample_step ''implement'' False False, sample_step ''fix'' False True],
     w_max_fix_rounds = 2\<rparr>"

definition ended :: "step \<Rightarrow> outcome \<Rightarrow> step_run" where
  "ended s o' = (new_run 0 s)\<lparr>sr_alive := False, sr_outcome := Some o', sr_handoff := None\<rparr>"

lemma sample_split:
  "split_steps sample_workflow True =
     ([sample_step ''setup'' True False, sample_step ''implement'' False False], Some (sample_step ''fix'' False True))"
  by (simp add: split_steps_def sample_workflow_def sample_step_def)

lemma sample_well_formed: "well_formed sample_workflow"
  by (simp add: well_formed_def sample_workflow_def sample_step_def)

text \<open>One step of the machine run to its end.\<close>

lemma reach_ended:
  assumes "wf_reach w hv runs" and "\<forall>r \<in> set runs. \<not> sr_alive r" and "Next w runs hv = run_step s n"
  shows "wf_reach w hv (runs @ [ended s o'])"
proof -
  have "wf_reach w hv (runs @ [new_run 0 s])"
    using assms by (intro wf_reach.reach_step [OF assms(1)] wf_step.start) (simp_all add: run_step_def)
  moreover have "wf_step w hv (runs @ [new_run 0 s]) (runs @ [ended s o'])"
    unfolding ended_def by (rule wf_step.finish) (simp add: new_run_def)
  ultimately show ?thesis by (rule wf_reach.reach_step)
qed

lemma ended_simps [simp]:
  "sr_step (ended s o') = s_name s" "\<not> sr_alive (ended s o')" "sr_outcome (ended s o') = Some o'"
  by (simp_all add: ended_def new_run_def)

lemma sample_names [simp]: "s_name (sample_step n c f) = n"
  by (simp add: sample_step_def)

lemma sample_first_failed:
  "Next sample_workflow (runs @ [ended (sample_step ''setup'' True False) OutcomeFailed]) True =
     run_step (sample_step ''fix'' False True) 1"
  by (simp add: Next_def sample_split from_latest_snoc rounds_and_failed_def is_fix_def Let_def)
    (simp add: sample_workflow_def)

lemma sample_first_repaired:
  "Next sample_workflow (runs @ [ended (sample_step ''setup'' True False) OutcomeFailed,
       ended (sample_step ''fix'' False True) OutcomePassed]) True =
     run_step (sample_step ''setup'' True False) 1"
  using from_latest_snoc [of "runs @ [ended (sample_step ''setup'' True False) OutcomeFailed]"
      "ended (sample_step ''fix'' False True) OutcomePassed" "''setup''"]
  by (simp add: Next_def sample_split from_latest_snoc rounds_and_failed_def is_fix_def Let_def rerun_def)

theorem fix_rounds_bounded_witness:
  "fix_count (Some (sample_step ''fix'' False True))
     (workflow_pass sample_workflow [ended (sample_step ''setup'' True False) OutcomeFailed,
        ended (sample_step ''fix'' False True) OutcomePassed] True) \<le> 2"
proof -
  have "wf_reach sample_workflow True ([] @ [ended (sample_step ''setup'' True False) OutcomeFailed])"
    by (rule reach_ended [where n = 0]) (simp_all add: reach_nil Next_def sample_split)
  then have "wf_reach sample_workflow True
      (([] @ [ended (sample_step ''setup'' True False) OutcomeFailed]) @ [ended (sample_step ''fix'' False True) OutcomePassed])"
    by (rule reach_ended [where n = 1]) (use sample_first_failed [of "[]"] in simp_all)
  from fix_rounds_bounded [OF sample_well_formed this] show ?thesis
    by (simp add: sample_split) (simp add: sample_workflow_def)
qed

text \<open>C28: The bound is per pass only, and a pass starts again with the first step: when the first
  step fails, is repaired and fails again, every repair begins a new pass and the rounds are counted from zero, so
  the machine starts the repair step any number of times although the workflow allows two rounds.\<close>

theorem first_step_repairs_unbounded:
  "w_max_fix_rounds sample_workflow = 2 \<and>
   (\<forall>n. \<exists>runs. wf_reach sample_workflow True runs
      \<and> fix_count (snd (split_steps sample_workflow True)) runs = n
      \<and> n_kind (Next sample_workflow runs True) = NextRun)"
proof
  show "w_max_fix_rounds sample_workflow = 2" by (simp add: sample_workflow_def)
  have "\<exists>runs k. wf_reach sample_workflow True runs \<and> (\<forall>r \<in> set runs. \<not> sr_alive r)
      \<and> fix_count (Some (sample_step ''fix'' False True)) runs = n
      \<and> Next sample_workflow runs True = run_step (sample_step ''setup'' True False) k" for n
  proof (induction n)
    case 0
    show ?case
      by (intro exI [of _ "[]"] exI [of _ 0])
        (simp add: reach_nil fix_count_def Next_def sample_split)
  next
    case (Suc n)
    then obtain runs k where runs: "wf_reach sample_workflow True runs" "\<forall>r \<in> set runs. \<not> sr_alive r"
      "fix_count (Some (sample_step ''fix'' False True)) runs = n"
      "Next sample_workflow runs True = run_step (sample_step ''setup'' True False) k" by blast
    let ?a = "ended (sample_step ''setup'' True False) OutcomeFailed"
    let ?b = "ended (sample_step ''fix'' False True) OutcomePassed"
    have "wf_reach sample_workflow True (runs @ [?a])" by (rule reach_ended [OF runs(1,2,4)])
    then have "wf_reach sample_workflow True ((runs @ [?a]) @ [?b])"
      by (rule reach_ended [OF _ _ sample_first_failed]) (use runs(2) in auto)
    moreover have "fix_count (Some (sample_step ''fix'' False True)) ((runs @ [?a]) @ [?b]) = Suc n"
      using runs(3) by (simp add: fix_count_def is_fix_def)
    ultimately show ?case
      using runs(2) sample_first_repaired [of runs]
      by (intro exI [of _ "(runs @ [?a]) @ [?b]"] exI [of _ 1]) auto
  qed
  then show "\<forall>n. \<exists>runs. wf_reach sample_workflow True runs
      \<and> fix_count (snd (split_steps sample_workflow True)) runs = n
      \<and> n_kind (Next sample_workflow runs True) = NextRun"
    by (simp add: sample_split) (metis run_step_def next.select_convs(1))
qed

text \<open>How \<open>Next\<close> ends a workflow that has steps.\<close>

lemma Next_done:
  assumes "split_steps w hv = (forward, fx)" and "forward \<noteq> []" and "n_kind (Next w runs hv) = NextDone"
  shows "runs \<noteq> [] \<and> sr_outcome (List.last runs) = Some OutcomePush
    \<and> sr_step (List.last runs) = s_name (List.last forward)"
proof -
  have "runs \<noteq> []" using assms by (auto simp: Next_def run_step_def)
  with last_from_latest [OF this] assms show ?thesis
    by (auto simp: Next_def Let_def run_step_def park_def unknown_step_def rerun_def last_conv_nth
        split: if_splits option.splits prod.splits dest!: index_where_Some)
qed

text \<open>C22: A workflow is done only when it was carried out: when \<open>Next\<close> says so of a reachable list
  of runs, the last run pushed the last forward step and in the same pass every other forward
  step has passed.\<close>

theorem done_means_carried_out:
  assumes "well_formed w" and "wf_reach w hv runs" and "first_step w hv \<noteq> None"
    and "n_kind (Next w runs hv) = NextDone"
  shows "sr_outcome (List.last runs) = Some OutcomePush
    \<and> sr_step (List.last runs) = s_name (List.last (fst (split_steps w hv)))
    \<and> (\<forall>s \<in> set (butlast (fst (split_steps w hv))). \<exists>r \<in> set (workflow_pass w runs hv).
          sr_step r = s_name s \<and> sr_outcome r = Some OutcomePassed)"
proof -
  let ?fw = "fst (split_steps w hv)" and ?fx = "snd (split_steps w hv)"
  have ne: "?fw \<noteq> []" using assms(3) by (auto simp: first_step_def)
  then have st: "staged w hv ?fw ?fx" using assms(1) by (intro well_formed_staged) auto
  have done_run: "runs \<noteq> []" "sr_outcome (List.last runs) = Some OutcomePush"
    "sr_step (List.last runs) = s_name (List.last ?fw)"
    using Next_done [OF _ ne assms(4), of ?fx] by auto
  have pass: "workflow_pass w runs hv = from_latest runs (s_name (hd ?fw))"
    using ne by (auto simp: workflow_pass_def split: list.splits)
  have ord: "ordered ?fw (rev (workflow_pass w runs hv))"
    using reach_inv [OF st assms(2)] by (simp add: pass_inv_def Let_def pass)
  have mem: "List.last runs \<in> set (workflow_pass w runs hv)"
    using last_from_latest [OF done_run(1)] last_in_set unfolding pass by metis
  have "\<exists>r \<in> set (workflow_pass w runs hv). sr_step r = s_name s \<and> sr_outcome r = Some OutcomePassed"
    if "s \<in> set (butlast ?fw)" for s
  proof -
    from that obtain j where j: "j < length ?fw - 1" "s = ?fw ! j"
      by (auto simp: in_set_conv_nth nth_butlast)
    with ordered_chain [OF ord mem, of "length ?fw - 1" j] done_run(3) ne show ?thesis
      by (simp add: last_conv_nth)
  qed
  with done_run show ?thesis by blast
qed

text \<open>The machine never loses its place: when it stops a reachable list of finished runs for the
  operator, it is because of how the last run ended or because its repairs are used up, never
  because a run's step is not in the workflow.\<close>

theorem park_is_explained:
  assumes "well_formed w" and "wf_reach w hv runs" and "n_kind (Next w runs hv) = NextPark"
  shows "(\<exists>o'. Next w runs hv = park (sr_step (List.last runs)) o')
    \<or> n_reason (Next w runs hv) = ''step '' @ sr_step (List.last runs) @ '' still failing after ''
        @ itoa (int (fix_count (snd (split_steps w hv)) (workflow_pass w runs hv))) @ '' fix rounds''
      \<and> w_max_fix_rounds w \<le> int (fix_count (snd (split_steps w hv)) (workflow_pass w runs hv))"
proof -
  let ?fw = "fst (split_steps w hv)" and ?fx = "snd (split_steps w hv)"
  have ne: "?fw \<noteq> []" using assms(3) by (auto simp: Next_def split: prod.splits)
  have st: "staged w hv ?fw ?fx" using assms(1) ne by (intro well_formed_staged) auto
  have runs: "runs \<noteq> []" using assms(3) ne by (auto simp: Next_def run_step_def split: prod.splits)
  have pass: "workflow_pass w runs hv = from_latest runs (s_name (hd ?fw))"
    using ne by (auto simp: workflow_pass_def split: list.splits)
  let ?pass = "workflow_pass w runs hv"
  have last: "?pass \<noteq> []" "List.last ?pass = List.last runs"
    using last_from_latest [OF runs] unfolding pass by auto
  have inv: "pass_inv w ?fw ?fx runs" by (rule reach_inv [OF st assms(2)])
  then have known: "is_fix ?fx r \<or> sr_step r \<in> s_name ` set ?fw" if "r \<in> set runs" for r
    using that by (simp add: pass_inv_def Let_def)
  have found: "index_where (\<lambda>s. s_name s = n) ?fw \<noteq> None" if "n \<in> s_name ` set ?fw" for n
    using that by (auto simp: index_where_None)
  have "sr_step (hd ?pass) \<in> s_name ` set ?fw"
    using inv runs ne by (simp add: pass_inv_def Let_def pass)
  then have "\<exists>r \<in> set ?pass. \<not> is_fix ?fx r" using last(1) staged_fix [OF st] by (meson hd_in_set)
  then obtain r where "r \<in> set ?pass" "\<not> is_fix ?fx r" "snd (rounds_and_failed ?fx ?pass) = sr_step r"
    using failed_is_last [of ?pass ?fx] by (metis in_set_conv_decomp)
  then have failed: "index_where (\<lambda>s. s_name s = snd (rounds_and_failed ?fx ?pass)) ?fw \<noteq> None"
    using known set_from_latest found unfolding pass by (metis subset_iff)
  have last_found: "\<not> is_fix ?fx (List.last runs) \<Longrightarrow>
      index_where (\<lambda>s. s_name s = sr_step (List.last runs)) ?fw \<noteq> None"
    using known [of "List.last runs"] runs found by auto
  note N = Next_def [of w runs hv, unfolded Let_def case_prod_unfold, folded pass]
  show ?thesis
  proof (cases "is_fix ?fx (List.last runs)")
    case True
    with assms(3) ne last failed show ?thesis
      by (auto simp: N run_step_def rerun_def split: if_splits option.splits)
  next
    case False
    with assms(3) ne last last_found [OF False] show ?thesis
      by (auto simp: N rounds_count run_step_def split: if_splits)
  qed
qed

theorem park_is_explained_witness:
  "\<exists>o'. Next sample_workflow [ended (sample_step ''setup'' True False) OutcomeAsked] True = park ''setup'' o'"
proof -
  let ?r = "ended (sample_step ''setup'' True False) OutcomeAsked"
  have reach: "wf_reach sample_workflow True ([] @ [?r])"
    by (rule reach_ended [where n = 0]) (simp_all add: reach_nil Next_def sample_split)
  have "Next sample_workflow ([] @ [?r]) True = park ''setup'' OutcomeAsked"
    by (simp add: Next_def sample_split from_latest_snoc rounds_and_failed_def is_fix_def Let_def
        from_latest_snoc [of "[]", simplified])
  with park_is_explained [OF sample_well_formed reach] show ?thesis by (auto simp: park_def)
qed

theorem done_means_carried_out_witness:
  "\<exists>r \<in> set (workflow_pass sample_workflow [ended (sample_step ''setup'' True False) OutcomePassed,
        ended (sample_step ''implement'' False False) OutcomePush] True).
     sr_step r = ''setup'' \<and> sr_outcome r = Some OutcomePassed"
proof -
  let ?a = "ended (sample_step ''setup'' True False) OutcomePassed"
  let ?b = "ended (sample_step ''implement'' False False) OutcomePush"
  have a: "wf_reach sample_workflow True ([] @ [?a])"
    by (rule reach_ended [where n = 0]) (simp_all add: reach_nil Next_def sample_split)
  have b: "Next sample_workflow ([] @ [?a]) True = run_step (sample_step ''implement'' False False) 0"
    by (simp add: Next_def sample_split from_latest_snoc [of "[]", simplified] rounds_and_failed_def is_fix_def Let_def)
  have reach: "wf_reach sample_workflow True (([] @ [?a]) @ [?b])"
    by (rule reach_ended [OF a _ b]) simp
  have "n_kind (Next sample_workflow [?a, ?b] True) = NextDone"
    using from_latest_snoc [of "[?a]" ?b "''setup''"]
    by (simp add: Next_def sample_split from_latest_snoc [of "[]", simplified] rounds_and_failed_def is_fix_def Let_def)
  with done_means_carried_out [OF sample_well_formed reach] show ?thesis
    by (simp add: sample_split first_step_def)
qed

end
