(* ===== verification/Push_Policy.thy ===== *)
theory Push_Policy imports Tickets begin

text \<open>
  \<open>push.go\<close>: which changed paths keep a branch from being pushed, and the body of a stacked
  pull request.
\<close>

definition settings_file :: string where
  "settings_file = ''.command-centre.toml''"

definition default_deny :: "string list" where
  "default_deny =
     [''.github/**'', settings_file, ''.mergify.yml'', ''CODEOWNERS'', ''**/package.json'', ''**/package-lock.json'',
      ''**/pnpm-lock.yaml'', ''**/yarn.lock'', ''**/bun.lock'', ''**/bun.lockb'', ''pnpm-workspace.yaml'',
      ''.npmrc'', ''.env*'']"

definition deny_match :: "string \<Rightarrow> string \<Rightarrow> bool" where
  "deny_match pattern path =
     (if has_suffix pattern ''/**'' then
        let dir = trim_suffix pattern ''/**'' in path = dir \<or> has_prefix path (dir @ ''/'')
      else if has_prefix pattern ''**/'' then path_base path = trim_prefix pattern ''**/''
      else if has_suffix pattern ''*'' then has_prefix (path_base path) (trim_suffix pattern ''*'')
      else path = pattern)"

text \<open>The inner loop of \<open>PushRefused\<close>: some pattern matches the path.\<close>

definition denied_by :: "string list \<Rightarrow> string \<Rightarrow> bool" where
  "denied_by patterns path = list_ex (\<lambda>pattern. deny_match pattern path) patterns"

text \<open>The policy is the list \<open>Deny\<close> of the repository; the two loops return at the first match.\<close>

definition push_refused :: "string list \<Rightarrow> string list \<Rightarrow> bool \<times> string" where
  "push_refused changed_paths deny =
     (case find (denied_by (default_deny @ deny)) changed_paths of
        Some path \<Rightarrow> (True, path)
      | None \<Rightarrow> (False, []))"

definition pr_body :: "string \<Rightarrow> int \<Rightarrow> string" where
  "pr_body base_branch blocker_pr_number =
     (if base_branch = default_base_branch \<or> blocker_pr_number = 0 then []
      else ''Merge after #'' @ itoa blocker_pr_number)"

subsection \<open>What the patterns mean\<close>

text \<open>The last element of a path that does not end in a slash.\<close>

lemma path_base_last:
  assumes "CHR ''/'' \<notin> set name" and "name \<noteq> []"
  shows "path_base (dir @ CHR ''/'' # name) = name" and "path_base name = name"
proof -
  have no: "\<forall>c \<in> set (rev name). c \<noteq> CHR ''/''" using assms(1) by auto
  have trim: "trim_right_bytes ''/'' (dir' @ name) = dir' @ name" for dir'
    using assms by (cases name rule: rev_cases) (auto simp: trim_right_bytes_def)
  have "takeWhile (\<lambda>c. c \<noteq> CHR ''/'') (rev name @ CHR ''/'' # rev dir) = rev name"
    using no by (subst takeWhile_append2) auto
  then show "path_base (dir @ CHR ''/'' # name) = name"
    using trim [of "dir @ ''/''"] by (simp add: path_base_def Let_def)
  have "rev (takeWhile (\<lambda>c. c \<noteq> CHR ''/'') (rev name)) = name"
    using no by (subst takeWhile_eq_all_conv [THEN iffD2]) simp_all
  then show "path_base name = name"
    using trim [of "[]"] assms(2) by (simp add: path_base_def Let_def)
qed

lemma push_refused_iff:
  "fst (push_refused paths deny) \<longleftrightarrow> (\<exists>path \<in> set paths. denied_by (default_deny @ deny) path)"
proof (cases "find (denied_by (default_deny @ deny)) paths")
  case None
  then have "\<forall>path \<in> set paths. \<not> denied_by (default_deny @ deny) path" by (auto simp: find_None_iff)
  with None show ?thesis by (simp add: push_refused_def)
next
  case (Some path)
  from find_SomeD [OF Some] Some show ?thesis by (auto simp: push_refused_def)
qed

lemma refused_by_default:
  "pattern \<in> set default_deny \<Longrightarrow> deny_match pattern path \<Longrightarrow>
     fst (push_refused (before @ path # after) deny)"
  by (auto simp: push_refused_iff denied_by_def list_ex_iff)

text \<open>A directory pattern protects the directory and everything under it, at any depth and
  nothing else; a name pattern protects every file of that name in any directory.\<close>

theorem deny_patterns_mean:
  "deny_match (dir @ ''/**'') path \<longleftrightarrow> path = dir \<or> (\<exists>rest. path = dir @ ''/'' @ rest)"
  by (simp add: deny_match_def has_prefix_iff Let_def)

text \<open>No repository setting can open a protected path: whatever a repository's own deny
  list says, a change to a workflow file, to the repository's settings file, or to a
  package manifest in any directory, among whatever other changes, is refused.\<close>

theorem defaults_always_deny:
  "fst (push_refused (before @ (''.github/'' @ rest) # after) deny)
   \<and> fst (push_refused (before @ settings_file # after) deny)
   \<and> fst (push_refused (before @ ''package.json'' # after) deny)
   \<and> fst (push_refused (before @ (dir @ ''/package.json'') # after) deny)"
proof (intro conjI)
  show "fst (push_refused (before @ (''.github/'' @ rest) # after) deny)"
    by (rule refused_by_default [of "''.github/**''"])
      (simp_all add: default_deny_def deny_match_def has_suffix_def trim_suffix_def trim_prefix_def has_prefix_def)
  show "fst (push_refused (before @ settings_file # after) deny)"
    by (rule refused_by_default [of settings_file])
      (simp_all add: default_deny_def deny_match_def settings_file_def has_suffix_def has_prefix_def)
  have "path_base ''package.json'' = ''package.json''"
    by (rule path_base_last(2)) simp_all
  then show "fst (push_refused (before @ ''package.json'' # after) deny)"
    by (intro refused_by_default [of "''**/package.json''"])
      (simp_all add: default_deny_def deny_match_def has_suffix_def has_prefix_def trim_prefix_def)
  have "path_base (dir @ ''/package.json'') = ''package.json''"
    using path_base_last(1) [of "''package.json''" dir] by simp
  then show "fst (push_refused (before @ (dir @ ''/package.json'') # after) deny)"
    by (intro refused_by_default [of "''**/package.json''"])
      (simp_all add: default_deny_def deny_match_def has_suffix_def has_prefix_def trim_prefix_def)
qed

text \<open>The path a refusal names is a changed path that a pattern of the defaults or of the
  repository protects, and every path before it in the list is free; nothing is refused when no path is protected.\<close>

theorem refusal_names_first_path:
  "push_refused paths deny =
     (case dropWhile (\<lambda>p. \<not> denied_by (default_deny @ deny) p) paths of
        [] \<Rightarrow> (False, [])
      | path # _ \<Rightarrow> (True, path))"
  by (induction paths) (auto simp: push_refused_def split: option.splits list.splits)

end
