(* ===== verification/Observations.thy ===== *)
theory Observations imports Verdict Workflows Push_Policy begin

text \<open>
  What the daemon has seen of the world and the rules it goes by: \<open>observation.go\<close>,
  \<open>rules.go\<close> and \<open>repostate.go\<close>. An observation is a record of maps; a repository's status is a
  small state machine moved by each observation.
\<close>

subsection \<open>observation.go\<close>

record check_state =
  cs_name :: string
  cs_status :: string
  cs_conclusion :: string
  cs_details_url :: string
  cs_started_at :: time
  cs_completed_at :: time

record pr =
  pr_number :: int
  pr_head_ref :: string
  pr_head_oid :: sha
  pr_base_ref :: string
  pr_base_oid :: sha
  pr_author_login :: string
  pr_is_draft :: bool
  pr_state :: pr_state
  pr_checks :: "(string, check_state) gomap"
  pr_labels :: "string list"
  pr_merged_at :: time

definition no_pr :: pr where
  "no_pr = \<lparr>pr_number = 0, pr_head_ref = [], pr_head_oid = [], pr_base_ref = [], pr_base_oid = [],
     pr_author_login = [], pr_is_draft = False, pr_state = Absent, pr_checks = [], pr_labels = [], pr_merged_at = 0\<rparr>"

subsection \<open>rules.go\<close>

record repo_settings =
  rs_tracker :: string
  rs_stacking :: bool
  rs_compat_check :: string
  rs_mergify_sha :: string
  rs_deny :: "string list"
  rs_checks :: predicate
  rs_verify_command :: "string list"

definition no_settings :: repo_settings where
  "no_settings = \<lparr>rs_tracker = [], rs_stacking = False, rs_compat_check = [], rs_mergify_sha = [], rs_deny = [],
     rs_checks = no_predicate, rs_verify_command = []\<rparr>"

text \<open>A run observation is only whether its process is alive.\<close>

record observation =
  ob_observed_at :: time
  ob_prs :: "(branch_ref, pr) gomap"
  ob_worktrees :: "(branch_ref, string) gomap"
  ob_runs :: "(ticket_url, bool) gomap"
  ob_mergify_hash :: "(string, string) gomap"
  ob_branch_tips :: "(branch_ref, sha) gomap"
  ob_local_tips :: "(branch_ref, sha) gomap"
  ob_titles :: "(ticket_url, string) gomap"
  ob_mid_merge :: "(branch_ref, bool) gomap"
  ob_conflicts_with_base :: "(branch_ref, bool) gomap"
  ob_conflicts_with_peer :: "(branch_ref, (branch_ref, bool) gomap) gomap"
  ob_settings :: "(string, repo_settings) gomap"
  ob_settings_errors :: "(string, string) gomap"
  ob_settings_sources :: "(string, string) gomap"
  ob_repo_errors :: "(string, string) gomap"
  ob_questions :: "(run_id, string) gomap"

definition new_observation :: "time \<Rightarrow> observation" where
  "new_observation at = \<lparr>ob_observed_at = at, ob_prs = [], ob_worktrees = [], ob_runs = [],
     ob_mergify_hash = [], ob_branch_tips = [], ob_local_tips = [], ob_titles = [], ob_mid_merge = [],
     ob_conflicts_with_base = [], ob_conflicts_with_peer = [], ob_settings = [], ob_settings_errors = [],
     ob_settings_sources = [], ob_repo_errors = [], ob_questions = []\<rparr>"

definition mark_alive :: "observation \<Rightarrow> ticket_url \<Rightarrow> observation" where
  "mark_alive ob url = ob\<lparr>ob_runs := put url True (ob_runs ob)\<rparr>"

record rules =
  ru_stacking :: "(string, bool) gomap"
  ru_deny :: "(string, string list) gomap"
  ru_checks :: "(string, predicate) gomap"
  ru_mergify_sha :: "(string, string) gomap"
  ru_compat_check :: "(string, string) gomap"
  ru_verify :: "(string, bool) gomap"
  ru_workflows :: "(string, workflow) gomap"
  ru_max_agents :: int
  ru_spend_limit_5h :: int

record daemon =
  da_max_agents :: int
  da_spend_limit_5h :: int
  da_workflows :: "(string, workflow) gomap"

text \<open>The closure \<open>add\<close> of \<open>RulesFor\<close>.\<close>

definition add_rules :: "string \<Rightarrow> repo_settings \<Rightarrow> rules \<Rightarrow> rules" where
  "add_rules name s r = r\<lparr>
     ru_stacking := put name (rs_stacking s) (ru_stacking r),
     ru_deny := put name (rs_deny s) (ru_deny r),
     ru_checks := put name (rs_checks s) (ru_checks r),
     ru_mergify_sha := put name (rs_mergify_sha s) (ru_mergify_sha r),
     ru_compat_check := put name (rs_compat_check s) (ru_compat_check r),
     ru_verify := put name (rs_verify_command s \<noteq> []) (ru_verify r)\<rparr>"

definition rules_for :: "daemon \<Rightarrow> observation \<Rightarrow> rules" where
  "rules_for d ob =
     (let r0 = \<lparr>ru_stacking = [], ru_deny = [], ru_checks = [], ru_mergify_sha = [], ru_compat_check = [],
                ru_verify = [], ru_workflows = da_workflows d, ru_max_agents = da_max_agents d,
                ru_spend_limit_5h = da_spend_limit_5h d\<rparr>;
          r1 = fold (\<lambda>(name, e) r. add_rules name no_settings r) (ob_settings_errors ob) r0
      in fold (\<lambda>(name, s) r. add_rules name s r) (ob_settings ob) r1)"

text \<open>The settings a repository is run under: its own, or none while its settings file does not parse.\<close>

definition effective_settings :: "observation \<Rightarrow> string \<Rightarrow> repo_settings option" where
  "effective_settings ob name =
     (case map_of (ob_settings ob) name of
        Some s \<Rightarrow> Some s
      | None \<Rightarrow> if has_key (ob_settings_errors ob) name then Some no_settings else None)"

text \<open>One repository's rules, read together.\<close>

definition rule_row :: "rules \<Rightarrow> string \<Rightarrow> bool option \<times> string list option \<times> predicate option \<times> string option \<times> string option \<times> bool option" where
  "rule_row r name =
     (map_of (ru_stacking r) name, map_of (ru_deny r) name, map_of (ru_checks r) name,
      map_of (ru_mergify_sha r) name, map_of (ru_compat_check r) name, map_of (ru_verify r) name)"

definition settings_row :: "repo_settings \<Rightarrow> bool option \<times> string list option \<times> predicate option \<times> string option \<times> string option \<times> bool option" where
  "settings_row s = (Some (rs_stacking s), Some (rs_deny s), Some (rs_checks s), Some (rs_mergify_sha s),
     Some (rs_compat_check s), Some (rs_verify_command s \<noteq> []))"

lemma rule_row_add [simp]:
  "rule_row (add_rules name s r) n = (if n = name then settings_row s else rule_row r n)"
  by (simp add: rule_row_def add_rules_def settings_row_def update_conv)

lemma rule_row_fold:
  "distinct (map fst m) \<Longrightarrow>
     rule_row (fold (\<lambda>(name, s) r. add_rules name s r) m r) n =
       (case map_of m n of Some s \<Rightarrow> settings_row s | None \<Rightarrow> rule_row r n)"
proof (induction m arbitrary: r)
  case (Cons p m)
  obtain k s where p: "p = (k, s)" by (cases p)
  have "n = k \<Longrightarrow> map_of m n = None" using Cons.prems p by (auto simp: map_of_eq_None_iff)
  with Cons p show ?case by (auto split: option.splits)
qed simp

lemma rule_row_errors:
  "rule_row (fold (\<lambda>(name, e) r. add_rules name no_settings r) m r) n =
     (if has_key m n then settings_row no_settings else rule_row r n)"
  by (induction m arbitrary: r) auto

text \<open>The rules a repository is run under are its own settings, field by field, when its settings
  file was read, no rule at all (no stacking, nothing denied beyond the defaults, an empty check
  predicate, no verify command) while its file does not parse, and absent otherwise; one repository's settings never
  leak into another's.\<close>

theorem rules_for_repository:
  assumes "distinct (map fst (ob_settings ob))"
  shows "rule_row (rules_for d ob) name =
     (case effective_settings ob name of
        Some s \<Rightarrow> settings_row s
      | None \<Rightarrow> (None, None, None, None, None, None))"
  using assms
  by (simp add: rules_for_def Let_def rule_row_fold rule_row_errors effective_settings_def split: option.split)
    (simp add: rule_row_def)

theorem rules_for_repository_witness:
  "rule_row (rules_for \<lparr>da_max_agents = 2, da_spend_limit_5h = 0, da_workflows = []\<rparr>
     ((new_observation 0)\<lparr>ob_settings := [(''web'', no_settings\<lparr>rs_stacking := True\<rparr>)],
        ob_settings_errors := [(''api'', ''bad'')]\<rparr>)) ''api'' = settings_row no_settings"
  by (subst rules_for_repository) (simp_all add: new_observation_def effective_settings_def)

subsection \<open>repostate.go\<close>

record merge_settings =
  ms_allow_merge_commit :: bool
  ms_allow_rebase_merge :: bool
  ms_default_branch :: string

definition repo_refusal :: "merge_settings \<Rightarrow> refusal_kind \<times> string" where
  "repo_refusal s =
     (if ms_allow_merge_commit s then
        (RefusalMergeSettings, ''repo allows merge commits (allow_merge_commit=true): ''
           @ ''command-centre requires squash-only merges'')
      else if ms_allow_rebase_merge s then
        (RefusalMergeSettings, ''repo allows rebase merges (allow_rebase_merge=true): ''
           @ ''command-centre requires squash-only merges'')
      else if ms_default_branch s \<noteq> default_base_branch then
        (RefusalDefaultBranch, ''default branch is `'' @ ms_default_branch s @ ''`, not `'' @ default_base_branch
           @ ''`; rename it on GitHub, then Track again.'')
      else (RefusalUnknown, []))"

record repo_status =
  st_name :: string
  st_phase :: repo_phase
  st_refusal_kind :: refusal_kind
  st_refusal :: string

definition next_repo_status :: "repo_status \<Rightarrow> observation \<Rightarrow> repo_status" where
  "next_repo_status current ob =
     (if st_phase current = RepoCloning then current
      else if st_phase current = RepoRefused \<and> st_refusal_kind current \<noteq> RefusalSettingsParse then current
      else
        case map_of (ob_settings_errors ob) (st_name current) of
          Some rsn \<Rightarrow> \<lparr>st_name = st_name current, st_phase = RepoRefused,
                       st_refusal_kind = RefusalSettingsParse, st_refusal = rsn\<rparr>
        | None \<Rightarrow>
            if has_key (ob_settings ob) (st_name current) \<and> st_phase current = RepoRefused
            then \<lparr>st_name = st_name current, st_phase = RepoReady, st_refusal_kind = RefusalUnknown, st_refusal = []\<rparr>
            else current)"

text \<open>An observation moves a repository only between ready and refused for its settings file:
  a repository still cloning, or refused for its merge settings, default branch or clone, is never
  changed by one; the result is refused for its settings exactly when the file failed to
  parse, or was refused for it and was not seen again; and the move is idempotent.\<close>

theorem repo_status_moves:
  "st_name (next_repo_status s ob) = st_name s
   \<and> (next_repo_status s ob \<noteq> s \<longrightarrow>
        st_phase s \<noteq> RepoCloning \<and> (st_phase s = RepoRefused \<longrightarrow> st_refusal_kind s = RefusalSettingsParse)
        \<and> st_phase (next_repo_status s ob) =
            (if has_key (ob_settings_errors ob) (st_name s) then RepoRefused else RepoReady))
   \<and> next_repo_status (next_repo_status s ob) ob = next_repo_status s ob"
  by (auto simp: next_repo_status_def has_key_def split: option.splits)

theorem repo_status_moves_witness:
  "st_phase (next_repo_status \<lparr>st_name = ''web'', st_phase = RepoRefused,
       st_refusal_kind = RefusalSettingsParse, st_refusal = ''bad''\<rparr>
     ((new_observation 0)\<lparr>ob_settings := [(''web'', no_settings)]\<rparr>)) = RepoReady"
  using repo_status_moves [of "\<lparr>st_name = ''web'', st_phase = RepoRefused,
       st_refusal_kind = RefusalSettingsParse, st_refusal = ''bad''\<rparr>"
      "(new_observation 0)\<lparr>ob_settings := [(''web'', no_settings)]\<rparr>"]
  by (simp add: next_repo_status_def new_observation_def)

definition host_path :: "string \<Rightarrow> string" where
  "host_path url0 =
     (let url = trim_suffix (trim_suffix (trim_space url0) ''/'') ''.git'';
          url = (case str_cut ''://'' url of
                   Some (_, rest) \<Rightarrow> rest
                 | None \<Rightarrow>
                     (case str_cut '':'' url of
                        Some (host, path) \<Rightarrow> if \<not> str_contains host ''/'' then host @ ''/'' @ path else url
                      | None \<Rightarrow> url));
          url = (case str_cut ''@'' url of Some (_, rest) \<Rightarrow> rest | None \<Rightarrow> url)
      in trim_suffix url ''/'')"

text \<open>\<open>strings.ToLower\<close> on a remote, which is made of ASCII bytes.\<close>

definition normalise_remote :: "string \<Rightarrow> string" where
  "normalise_remote url = map lower_byte (host_path url)"

end
