(* ===== verification/Status.thy ===== *)
theory Status imports Observations begin

text \<open>
  The state a ticket is shown in and whether it may be launched: \<open>Status\<close> with its helpers
  from \<open>plan.go\<close>, and \<open>launch.go\<close>.
\<close>

record run_fact =
  rf_alive :: bool
  rf_outcome :: "outcome option"
  rf_log_path :: string
  rf_push_refused :: bool
  rf_push_refused_path :: string
  rf_push_failed :: bool
  rf_pr_open :: bool
  rf_pr_merged :: bool
  rf_pr_closed_unmerged :: bool
  rf_verdict :: "verdict_result option"
  rf_refresh_refused :: bool
  rf_refresh_refused_reason :: reason
  rf_mid_merge :: bool
  rf_conflicts_with_main :: bool
  rf_conflicts_with_main_reason :: reason
  rf_conflicting_peer :: string
  rf_verification_failed :: bool
  rf_verification_failed_reason :: reason
  rf_question :: string
  rf_next :: "next option"

definition no_run_fact :: run_fact where
  "no_run_fact = \<lparr>rf_alive = False, rf_outcome = None, rf_log_path = [], rf_push_refused = False,
     rf_push_refused_path = [], rf_push_failed = False, rf_pr_open = False, rf_pr_merged = False,
     rf_pr_closed_unmerged = False, rf_verdict = None, rf_refresh_refused = False, rf_refresh_refused_reason = [],
     rf_mid_merge = False, rf_conflicts_with_main = False, rf_conflicts_with_main_reason = [],
     rf_conflicting_peer = [], rf_verification_failed = False, rf_verification_failed_reason = [],
     rf_question = [], rf_next = None\<rparr>"

record facts =
  f_unlock :: unlock
  f_authorised :: bool
  f_latest_run :: "run_fact option"
  f_cancelled_member :: bool
  f_conflicted_base :: string

fun state_of_kind :: "verdict_kind \<Rightarrow> state" where
  "state_of_kind K_BaseMoved = BaseMoved"
| "state_of_kind K_WaitingOnProducerDeploy = WaitingOnProducerDeploy"
| "state_of_kind K_ReviewMe = ReviewMe"
| "state_of_kind K_NeedsYou = NeedsYou"
| "state_of_kind K_CIFailed = CIFailed"
| "state_of_kind K_Checking = Checking"
| "state_of_kind K_Unknown = Checking"

definition state_of_verdict :: "verdict_result \<Rightarrow> state" where
  "state_of_verdict r = state_of_kind (v_kind r)"

definition waiting_on_blockers :: "ticket_url list \<Rightarrow> reason" where
  "waiting_on_blockers blocking =
     (if length blocking = 1 then ''waiting on '' @ blocking ! 0 @ apos @ ''s PR''
      else ''waiting on '' @ itoa (int (length blocking)) @ '' blockers'' @ apos @ '' PRs: '' @ join_urls blocking)"

definition first_line :: "string \<Rightarrow> reason" where
  "first_line s = trim_space (cut_before nl (trim_space s))"

definition status_from_push :: "run_fact \<Rightarrow> unlock \<Rightarrow> state \<times> reason" where
  "status_from_push run unlock =
     (if rf_pr_closed_unmerged run then (PRClosedUnmerged, ''pull request closed without merging'')
      else if rf_mid_merge run then
        (RefreshConflicted, ''refresh'' @ apos
           @ ''s merge conflicted: the worktree is left mid-merge, resolve it there or abort'')
      else if rf_conflicts_with_main run then (ConflictsWithMain, rf_conflicts_with_main_reason run)
      else if rf_conflicting_peer run \<noteq> [] then (Blocked, conflicting_peer_reason (rf_conflicting_peer run))
      else if rf_verification_failed run then (VerificationFailed, rf_verification_failed_reason run)
      else if rf_push_refused run then
        (NeedsYou, ''push refused: '' @ rf_push_refused_path run @ '' touches a protected path'')
      else if rf_push_failed run then (PushFailed, ''push or pull request creation failed'')
      else if rf_refresh_refused run then (NeedsYou, rf_refresh_refused_reason run)
      else if rf_verdict run \<noteq> None \<and> v_kind (the (rf_verdict run)) \<noteq> K_Checking then
        (state_of_verdict (the (rf_verdict run)), v_reason (the (rf_verdict run)))
      else if rf_pr_open run then
        (case rf_verdict run of
           Some v \<Rightarrow> (Checking, v_reason v)
         | None \<Rightarrow> (Checking, ''pull request open, no verdict yet''))
      else if \<not> u_unlocked unlock \<and> u_blocking unlock \<noteq> [] then
        (PushPending, ''push held: waiting on '' @ join_urls (u_blocking unlock))
      else if \<not> u_unlocked unlock then (PushPending, ''push held: '' @ u_reason unlock)
      else (PushPending, ''agent finished with commits, waiting to push''))"

definition status_from_next :: "next option \<Rightarrow> (state \<times> reason) option" where
  "status_from_next nx =
     (case nx of
        None \<Rightarrow> None
      | Some n \<Rightarrow>
          if n_kind n = NextPark then Some (Failed, n_reason n)
          else if n_kind n = NextRun \<and> n_step n \<noteq> None then
            Some (Queued, ''next step: '' @ s_name (the (n_step n))
              @ (if 0 < n_round n then '' (fix round '' @ itoa (n_round n) @ '')'' else []))
          else None)"

definition status_from_run :: "run_fact option \<Rightarrow> unlock \<Rightarrow> (state \<times> reason) option" where
  "status_from_run latest unlock =
     (case latest of
        None \<Rightarrow> None
      | Some run \<Rightarrow>
          if rf_alive run then Some (Running, ''agent running'')
          else
            (case rf_outcome run of
               None \<Rightarrow> None
             | Some OutcomePush \<Rightarrow> Some (status_from_push run unlock)
             | Some OutcomeAsked \<Rightarrow> Some (AwaitingInput, first_line (rf_question run))
             | Some OutcomeContinued \<Rightarrow> Some (Queued, ''resuming with your message'')
             | Some OutcomePassed \<Rightarrow>
                 (case status_from_next (rf_next run) of
                    Some x \<Rightarrow> Some x
                  | None \<Rightarrow> Some (Queued, ''next step pending''))
             | Some OutcomeCutFailed \<Rightarrow> Some (CutFailed, ''tp new failed to cut a worktree'')
             | Some OutcomeFailed \<Rightarrow>
                 (case status_from_next (rf_next run) of
                    Some x \<Rightarrow> Some x
                  | None \<Rightarrow> Some (Failed, ''no commits after this run'' @ apos @ ''s baseline; log at '' @ rf_log_path run))))"

definition Status :: "facts \<Rightarrow> state \<times> reason" where
  "Status f =
     (if f_latest_run f \<noteq> None \<and> u_blocker_closed (f_unlock f) then (BaseGone, u_reason (f_unlock f))
      else if f_latest_run f \<noteq> None \<and> rf_pr_merged (the (f_latest_run f)) then (PRMerged, ''pull request merged'')
      else
        (case status_from_run (f_latest_run f) (f_unlock f) of
           Some x \<Rightarrow> x
         | None \<Rightarrow>
             if f_cancelled_member f then (Cancelled, ''authorised then cancelled before launching'')
             else if f_conflicted_base f \<noteq> [] then (Blocked, conflicted_base_reason (f_conflicted_base f))
             else if u_unlocked (f_unlock f) \<and> f_authorised f then (Queued, ''waiting for a slot'')
             else if u_unlocked (f_unlock f) then (Ready, u_reason (f_unlock f))
             else if f_authorised f then (Queued, waiting_on_blockers (u_blocking (f_unlock f)))
             else (Blocked, u_reason (f_unlock f))))"

subsection \<open>What the states mean\<close>

lemma status_from_push_cases:
  "fst (status_from_push run u) =
     (if rf_pr_closed_unmerged run then PRClosedUnmerged else if rf_mid_merge run then RefreshConflicted
      else if rf_conflicts_with_main run then ConflictsWithMain else if rf_conflicting_peer run \<noteq> [] then Blocked
      else if rf_verification_failed run then VerificationFailed else if rf_push_refused run then NeedsYou
      else if rf_push_failed run then PushFailed else if rf_refresh_refused run then NeedsYou
      else case rf_verdict run of
             Some v \<Rightarrow> if v_kind v = K_Checking then (if rf_pr_open run then Checking else PushPending)
                       else state_of_kind (v_kind v)
           | None \<Rightarrow> if rf_pr_open run then Checking else PushPending)"
  by (simp add: status_from_push_def state_of_verdict_def split: option.split)

lemma state_of_kind_known: "state_of_kind k \<in> {BaseMoved, WaitingOnProducerDeploy, ReviewMe, NeedsYou, CIFailed, Checking}"
  by (cases k) auto

lemma status_from_run_cases:
  "map_option fst (status_from_run latest u) =
     (case latest of
        None \<Rightarrow> None
      | Some run \<Rightarrow>
          if rf_alive run then Some Running
          else (case rf_outcome run of
                  None \<Rightarrow> None
                | Some OutcomePush \<Rightarrow> Some (fst (status_from_push run u))
                | Some OutcomeAsked \<Rightarrow> Some AwaitingInput
                | Some OutcomeContinued \<Rightarrow> Some Queued
                | Some OutcomeCutFailed \<Rightarrow> Some CutFailed
                | Some OutcomePassed \<Rightarrow>
                    Some (if \<exists>n. rf_next run = Some n \<and> n_kind n = NextPark then Failed else Queued)
                | Some OutcomeFailed \<Rightarrow>
                    Some (if \<exists>n. rf_next run = Some n \<and> n_kind n = NextRun \<and> n_step n \<noteq> None then Queued else Failed)))"
  by (auto simp: status_from_run_def status_from_next_def split: option.splits outcome.splits)

lemma Status_state:
  "fst (Status f) =
     (if f_latest_run f \<noteq> None \<and> u_blocker_closed (f_unlock f) then BaseGone
      else if f_latest_run f \<noteq> None \<and> rf_pr_merged (the (f_latest_run f)) then PRMerged
      else case map_option fst (status_from_run (f_latest_run f) (f_unlock f)) of
             Some s \<Rightarrow> s
           | None \<Rightarrow> if f_cancelled_member f then Cancelled else if f_conflicted_base f \<noteq> [] then Blocked
                     else if f_authorised f then Queued else if u_unlocked (f_unlock f) then Ready else Blocked)"
  by (simp add: Status_def split: option.split)

text \<open>C23: A ticket is shown as ready for review exactly when its finished run's branch was pushed,
  nothing stands in the way (its pull request is neither merged nor closed, no blocker was closed, no merge is half
  done, no conflict with the main branch or a peer, no failed verification, no refused or
  failed push, no refused refresh) and the verdict on its checks is to review.\<close>

theorem review_me_exactly:
  "fst (Status f) = ReviewMe \<longleftrightarrow>
     (\<exists>run v. f_latest_run f = Some run \<and> \<not> u_blocker_closed (f_unlock f) \<and> \<not> rf_pr_merged run
        \<and> \<not> rf_alive run \<and> rf_outcome run = Some OutcomePush \<and> \<not> rf_pr_closed_unmerged run \<and> \<not> rf_mid_merge run
        \<and> \<not> rf_conflicts_with_main run \<and> rf_conflicting_peer run = [] \<and> \<not> rf_verification_failed run
        \<and> \<not> rf_push_refused run \<and> \<not> rf_push_failed run \<and> \<not> rf_refresh_refused run
        \<and> rf_verdict run = Some v \<and> v_kind v = K_ReviewMe)"
proof -
  have k: "state_of_kind k = ReviewMe \<longleftrightarrow> k = K_ReviewMe" for k by (cases k) auto
  show ?thesis
    by (auto simp: Status_state status_from_run_cases status_from_push_cases k
        split: option.splits outcome.splits if_splits)
qed

text \<open>Every ticket is in a known state, whatever was observed, so its row always has a name, a
  glyph and its verbs; a ticket without a run is only ever cancelled, blocked, queued or ready; and
  it is shown as running exactly when its latest run is alive, unless it is merged or lost its base.\<close>

theorem status_is_known:
  "fst (Status f) \<noteq> StateUnknown
   \<and> (f_latest_run f = None \<longrightarrow> fst (Status f) \<in> {Cancelled, Blocked, Queued, Ready})
   \<and> (fst (Status f) = Running \<longleftrightarrow>
        (\<exists>run. f_latest_run f = Some run \<and> rf_alive run \<and> \<not> rf_pr_merged run \<and> \<not> u_blocker_closed (f_unlock f)))"
proof -
  have k: "state_of_kind k \<noteq> StateUnknown \<and> state_of_kind k \<noteq> Running" for k by (cases k) auto
  show ?thesis
    by (auto simp: Status_state status_from_run_cases status_from_push_cases k
        split: option.splits outcome.splits if_splits)
qed

theorem status_is_known_witness:
  "fst (Status \<lparr>f_unlock = no_unlock, f_authorised = False, f_latest_run = None, f_cancelled_member = False,
     f_conflicted_base = []\<rparr>) \<in> {Cancelled, Blocked, Queued, Ready}"
  using status_is_known [of "\<lparr>f_unlock = no_unlock, f_authorised = False, f_latest_run = None,
     f_cancelled_member = False, f_conflicted_base = []\<rparr>"] by simp

subsection \<open>launch.go\<close>

record launch_candidate =
  lc_url :: ticket_url
  lc_unlock :: unlock
  lc_authorised :: bool
  lc_prompt_hash_matches :: bool
  lc_has_run :: bool
  lc_conflicted_base :: string
  lc_next :: "next"
  lc_in_flight :: bool

definition eligible :: "launch_candidate \<Rightarrow> bool" where
  "eligible c =
     (if lc_in_flight c then True
      else u_unlocked (lc_unlock c) \<and> lc_authorised c \<and> lc_prompt_hash_matches c \<and> \<not> lc_has_run c
           \<and> lc_conflicted_base c = [])"

text \<open>The inner loop, which returns from \<open>LaunchPlan\<close> once the slots are taken.\<close>

fun launch_loop :: "int \<Rightarrow> bool \<Rightarrow> launch_candidate list \<Rightarrow> ticket_url list \<Rightarrow> ticket_url list" where
  "launch_loop free in_flight [] selected = selected"
| "launch_loop free in_flight (c # cs) selected =
     (if free \<le> int (length selected) then selected
      else launch_loop free in_flight cs
             (if lc_in_flight c = in_flight \<and> eligible c then selected @ [lc_url c] else selected))"

definition launch_plan :: "launch_candidate list \<Rightarrow> int \<Rightarrow> int \<Rightarrow> bool \<Rightarrow> ticket_url list" where
  "launch_plan candidates currently_running max_agents spend_paused =
     (if spend_paused then []
      else
        let free = max_agents - currently_running
        in if free \<le> 0 then []
           else fold (\<lambda>in_flight selected. launch_loop free in_flight candidates selected) [True, False] [])"

lemma launch_loop_take:
  "int (length sel) \<le> free \<Longrightarrow> launch_loop free fl cs sel =
     sel @ take (nat free - length sel) (map lc_url (filter (\<lambda>c. lc_in_flight c = fl \<and> eligible c) cs))"
proof (induction cs arbitrary: sel)
  case (Cons c cs)
  show ?case
  proof (cases "free \<le> int (length sel)")
    case True
    with Cons.prems show ?thesis by simp
  next
    case False
    then have "nat free - length sel = Suc (nat free - length sel - 1)" by simp
    with False Cons.IH [of "sel @ [lc_url c]"] Cons.IH [of sel] Cons.prems show ?thesis
      by (auto simp: take_Cons' nat_diff_distrib)
  qed
qed simp

lemma launch_plan_take:
  "launch_plan cs running cap paused =
     (if paused then []
      else take (nat (cap - running))
        (map lc_url (filter lc_in_flight cs @ filter (\<lambda>c. \<not> lc_in_flight c \<and> eligible c) cs)))"
proof -
  have "filter (\<lambda>c. lc_in_flight c \<and> eligible c) cs = filter lc_in_flight cs"
    by (rule filter_cong) (auto simp: eligible_def)
  moreover have "launch_loop free False cs (launch_loop free True cs []) =
      take (nat free) (map lc_url (filter (\<lambda>c. lc_in_flight c \<and> eligible c) cs
        @ filter (\<lambda>c. \<not> lc_in_flight c \<and> eligible c) cs))" if "0 < free" for free
    using that by (subst (1 2) launch_loop_take) (simp_all add: min_def, arith)
  ultimately show ?thesis
    by (auto simp: launch_plan_def Let_def)
qed

lemma launch_plan_length: "int (length (launch_plan cs running cap paused)) \<le> max 0 (cap - running)"
proof -
  have "length (launch_plan cs running cap paused) \<le> nat (cap - running)"
    unfolding launch_plan_take by (simp only: length_take split: if_split) simp
  then show ?thesis by simp
qed

text \<open>What the daemon launches is the first tickets that fit in the free slots from this list: the
  tickets already in flight in their order, then the eligible others in theirs; nothing when
  spending is paused or no slot is free.\<close>

theorem launch_plan_is_prefix:
  "launch_plan cs running cap paused =
     (if paused then []
      else take (nat (cap - running))
        (map lc_url (filter lc_in_flight cs @ filter (\<lambda>c. \<not> lc_in_flight c \<and> eligible c) cs)))"
  by (rule launch_plan_take)

text \<open>The launch never exceeds the cap on running agents, and starts nothing the operator did not
  authorise: a launched ticket is in flight, or it is unlocked, authorised with the very prompt it
  would be given, has never run, and its base carries no conflict.\<close>

theorem launch_is_safe:
  "int (length (launch_plan cs running cap paused)) \<le> max 0 (cap - running)
   \<and> (\<forall>u \<in> set (launch_plan cs running cap paused). \<exists>c \<in> set cs. lc_url c = u \<and>
        (lc_in_flight c \<or> u_unlocked (lc_unlock c) \<and> lc_authorised c \<and> lc_prompt_hash_matches c
           \<and> \<not> lc_has_run c \<and> lc_conflicted_base c = []))"
  using launch_plan_length [of cs running cap paused]
  by (auto simp: launch_plan_take eligible_def dest!: in_set_takeD)

theorem launch_is_safe_witness:
  "length (launch_plan (replicate 3 \<lparr>lc_url = ''u'', lc_unlock = no_unlock, lc_authorised = True,
     lc_prompt_hash_matches = True, lc_has_run = True, lc_conflicted_base = [],
     lc_next = \<lparr>n_kind = NextRun, n_step = None, n_round = 0, n_reason = []\<rparr>, lc_in_flight = True\<rparr>) 1 2 False) \<le> 1"
  using launch_is_safe [of "replicate 3 \<lparr>lc_url = ''u'', lc_unlock = no_unlock, lc_authorised = True,
     lc_prompt_hash_matches = True, lc_has_run = True, lc_conflicted_base = [],
     lc_next = \<lparr>n_kind = NextRun, n_step = None, n_round = 0, n_reason = []\<rparr>, lc_in_flight = True\<rparr>" 1 2 False]
  by simp

end
