(* ===== verification/Stacks.thy ===== *)
theory Stacks imports Tickets begin

text \<open>
  \<open>stack.go\<close>: how many stacked branches lie under a branch, and the waves in which a selection
  of tickets can run. Both walk a graph the tickets describe and must end on a cyclic one.
\<close>

subsection \<open>StackDepth\<close>

lemma unvisited_decreases:
  assumes "get_or [] m b \<noteq> []" and "get_or [] m b \<notin> V"
  shows "card (snd ` set m - insert (get_or [] m b) V) < card (snd ` set m - V)"
proof (rule psubset_card_mono)
  have "has_key m b" using assms(1) get_or_no_key by metis
  then have "get_or [] m b \<in> snd ` set m" using get_or_in by force
  with assms(2) show "snd ` set m - insert (get_or [] m b) V \<subset> snd ` set m - V" by blast
qed simp

text \<open>The loop, from the current branch, the visited set and the depth so far.\<close>

function stack_walk :: "(string, string) gomap \<Rightarrow> string \<Rightarrow> string set \<Rightarrow> int \<Rightarrow> int" where
  "stack_walk base_by_branch branch visited depth =
     (let base = get_or [] base_by_branch branch
      in if base = [] \<or> base = default_base_branch \<or> base \<in> visited then depth
         else stack_walk base_by_branch base (insert base visited) (depth + 1))"
  by pat_completeness auto

termination
  by (relation "measure (\<lambda>(m, b, V, d). card (snd ` set m - V))") (auto intro: unvisited_decreases)

declare stack_walk.simps [simp del, evals]

definition stack_depth :: "string \<Rightarrow> (string, string) gomap \<Rightarrow> int" where
  "stack_depth branch base_by_branch = stack_walk base_by_branch branch {branch} 0"

text \<open>The bases below a branch, as the code reaches them: each the base of the one before, the
  first one the base of the branch, none the default branch.\<close>

inductive base_chain :: "(string, string) gomap \<Rightarrow> string \<Rightarrow> string list \<Rightarrow> bool" for m where
  chain_end: "base_chain m b []"
| chain_step: "base_chain m (get_or [] m b) cs \<Longrightarrow> get_or [] m b \<noteq> [] \<Longrightarrow> get_or [] m b \<noteq> default_base_branch
     \<Longrightarrow> base_chain m b (get_or [] m b # cs)"

inductive_cases base_chain_ConsE: "base_chain m b (c # cs)"

text \<open>The branch a chain ends on.\<close>

definition chain_last :: "string \<Rightarrow> string list \<Rightarrow> string" where
  "chain_last b cs = (if cs = [] then b else List.last cs)"

lemma stack_walk_chain:
  "\<exists>cs. base_chain m b cs \<and> stack_walk m b V d = d + int (length cs) \<and> distinct cs \<and> set cs \<inter> V = {}
     \<and> get_or [] m (chain_last b cs) \<in> {[], default_base_branch} \<union> V \<union> set cs"
proof (induction m b V d rule: stack_walk.induct)
  case (1 m b V d)
  let ?c = "get_or [] m b"
  show ?case
  proof (cases "?c = [] \<or> ?c = default_base_branch \<or> ?c \<in> V")
    case True
    then show ?thesis
      by (intro exI [of _ "[]"]) (auto simp: stack_walk.simps chain_last_def intro: chain_end)
  next
    case False
    then obtain cs where cs: "base_chain m ?c cs" "stack_walk m ?c (insert ?c V) (d + 1) = d + 1 + int (length cs)"
      "distinct cs" "set cs \<inter> insert ?c V = {}"
      "get_or [] m (chain_last ?c cs) \<in> {[], default_base_branch} \<union> insert ?c V \<union> set cs"
      using 1 by (auto simp: Let_def)
    have "stack_walk m b V d = d + int (length (?c # cs))"
      using False cs(2) by (subst stack_walk.simps) (simp add: Let_def)
    moreover have "base_chain m b (?c # cs)" using cs(1) False by (auto intro: chain_step)
    moreover have "chain_last b (?c # cs) = chain_last ?c cs" by (simp add: chain_last_def)
    ultimately show ?thesis using cs(3-5) False by (intro exI [of _ "?c # cs"]) auto
  qed
qed

text \<open>\<open>StackDepth\<close> counts the bases under a branch: it is the length of the chain of distinct
  bases, none the branch itself, that ends below the default branch, at a branch with no known
  base, or where the bases start to repeat; so it also ends on a cycle.\<close>

theorem stack_depth_is_chain_length:
  "\<exists>cs. base_chain m b cs \<and> stack_depth b m = int (length cs) \<and> distinct cs \<and> b \<notin> set cs
     \<and> get_or [] m (chain_last b cs) \<in> {[], default_base_branch, b} \<union> set cs"
  using stack_walk_chain [of m b "{b}" 0] by (auto simp: stack_depth_def)

subsection \<open>Waves\<close>

lemma visiting_decreases:
  "has_key m u \<Longrightarrow> u \<notin> set vis \<Longrightarrow> card (fst ` set m - insert u (set vis)) < card (fst ` set m - set vis)"
  by (rule psubset_card_mono) (auto simp: has_key_iff)

text \<open>
  \<open>depthOf\<close> with the map \<open>depth\<close> threaded through. \<open>visiting\<close> is set before the loop and reset
  after it, so a call sees in it exactly the URLs of the calls it is nested in: the list \<open>vis\<close>.
\<close>

function depth_of :: "(ticket_url, ticket_url list) gomap \<Rightarrow> ticket_url list \<Rightarrow> ticket_url
    \<Rightarrow> (ticket_url, int) gomap \<Rightarrow> int \<times> (ticket_url, int) gomap"
and depth_loop :: "(ticket_url, ticket_url list) gomap \<Rightarrow> ticket_url list \<Rightarrow> ticket_url list \<Rightarrow> int
    \<Rightarrow> (ticket_url, int) gomap \<Rightarrow> int \<times> (ticket_url, int) gomap" where
  "depth_of blocking vis url depth =
     (case map_of depth url of
        Some d \<Rightarrow> (d, depth)
      | None \<Rightarrow>
          if url \<in> set vis then (0, depth)
          else (case depth_loop blocking (url # vis) (get_or [] blocking url) 0 depth of
                  (d, depth') \<Rightarrow> (d, put url d depth')))"
| "depth_loop blocking vis [] d depth = (d, depth)"
| "depth_loop blocking vis (b # bs) d depth =
     (if has_key blocking b
      then (case depth_of blocking vis b depth of
              (db, depth') \<Rightarrow> depth_loop blocking vis bs (max d (db + 1)) depth')
      else depth_loop blocking vis bs d depth)"
  by pat_completeness auto

termination
proof (relation "measures
    [\<lambda>x. case x of Inl (m, vis, u, dm) \<Rightarrow> card (fst ` set m - set vis)
                 | Inr (m, vis, us, d, dm) \<Rightarrow> card (fst ` set m - set vis),
     \<lambda>x. case x of Inl (m, vis, u, dm) \<Rightarrow> if has_key m u then 0 else 1
                 | Inr (m, vis, us, d, dm) \<Rightarrow> 2 * length us]")
  fix m :: "(ticket_url, ticket_url list) gomap" and vis and url :: ticket_url and dm :: "(ticket_url, int) gomap"
  assume "url \<notin> set vis"
  show "(Inr (m, url # vis, get_or [] m url, 0, dm), Inl (m, vis, url, dm)) \<in> measures
    [\<lambda>x. case x of Inl (m, vis, u, dm) \<Rightarrow> card (fst ` set m - set vis)
                 | Inr (m, vis, us, d, dm) \<Rightarrow> card (fst ` set m - set vis),
     \<lambda>x. case x of Inl (m, vis, u, dm) \<Rightarrow> if has_key m u then 0 else 1
                 | Inr (m, vis, us, d, dm) \<Rightarrow> 2 * length us]"
  proof (cases "has_key m url")
    case True
    with visiting_decreases \<open>url \<notin> set vis\<close> show ?thesis by simp
  next
    case False
    have "fst ` set m - insert url (set vis) = fst ` set m - set vis"
      using False by (auto simp: has_key_iff)
    with False show ?thesis by (simp add: get_or_no_key)
  qed
qed auto

declare depth_of.simps [simp del, evals] depth_loop.simps(2) [simp del, evals]

definition waves_loop :: "(ticket_url, ticket_url list) gomap \<Rightarrow> ticket_url
    \<Rightarrow> (ticket_url, int) gomap \<times> (ticket_url, int) gomap \<Rightarrow> (ticket_url, int) gomap \<times> (ticket_url, int) gomap" where
  "waves_loop blocking url = (\<lambda>(waves, depth).
     case depth_of blocking [] url depth of (d, depth') \<Rightarrow> (put url (d + 1) waves, depth'))"

definition Waves :: "(ticket_url, ticket_url list) gomap \<Rightarrow> (ticket_url, int) gomap" where
  "Waves blocking = fst (fold (waves_loop blocking) (map fst blocking) ([], []))"

definition wave_count :: "(ticket_url, ticket_url list) gomap \<Rightarrow> int" where
  "wave_count blocking = fold (\<lambda>w count. max count w) (map snd (Waves blocking)) 0"

text \<open>
  A depth function of the graph: zero without a blocker in the selection, else one more than the
  deepest of them. Having one makes the graph acyclic.
\<close>

definition depth_function :: "(ticket_url, ticket_url list) gomap \<Rightarrow> (ticket_url \<Rightarrow> int) \<Rightarrow> bool" where
  "depth_function m f =
     (\<forall>u \<in> set (map fst m). f u = fold max (map (\<lambda>b. f b + 1) (filter (has_key m) (get_or [] m u))) 0)"

lemma depth_function_eq:
  "depth_function m f \<Longrightarrow> has_key m u \<Longrightarrow>
     f u = fold max (map (\<lambda>b. f b + 1) (filter (has_key m) (get_or [] m u))) 0"
  unfolding depth_function_def by (metis has_key_iff image_set)

lemma fold_max_start: "(a :: int) \<le> fold max xs a"
proof (induction xs arbitrary: a)
  case (Cons y xs)
  from Cons [of "max y a"] show ?case by simp
qed simp

lemma fold_max_ge: "x \<in> set xs \<Longrightarrow> (x :: int) \<le> fold max xs a"
proof (induction xs arbitrary: a)
  case (Cons y xs)
  show ?case
  proof (cases "x = y")
    case True
    then show ?thesis using fold_max_start [of "max y a" xs] by simp
  next
    case False
    then show ?thesis using Cons by simp
  qed
qed simp

lemma depth_decreases:
  "depth_function m f \<Longrightarrow> has_key m u \<Longrightarrow> b \<in> set (get_or [] m u) \<Longrightarrow> has_key m b \<Longrightarrow> f b < f u"
  using fold_max_ge [of "f b + 1" "map (\<lambda>b. f b + 1) (filter (has_key m) (get_or [] m u))" 0]
  unfolding depth_function_def has_key_iff by force

text \<open>On such a graph the memo only ever holds depths, and the cycle check never fires.\<close>

lemma depth_of_correct:
  "depth_function m f \<Longrightarrow> has_key m u \<Longrightarrow> \<forall>v \<in> set vis. f u < f v \<Longrightarrow> \<forall>p \<in> set dm. snd p = f (fst p) \<Longrightarrow>
      fst (depth_of m vis u dm) = f u \<and> (\<forall>p \<in> set (snd (depth_of m vis u dm)). snd p = f (fst p))"
  "depth_function m f \<Longrightarrow> \<forall>b \<in> set bs. has_key m b \<longrightarrow> (\<forall>v \<in> set vis. f b < f v) \<Longrightarrow> \<forall>p \<in> set dm. snd p = f (fst p) \<Longrightarrow>
      fst (depth_loop m vis bs d dm) = fold max (map (\<lambda>b. f b + 1) (filter (has_key m) bs)) d
      \<and> (\<forall>p \<in> set (snd (depth_loop m vis bs d dm)). snd p = f (fst p))"
proof (induction m vis u dm and m vis bs d dm rule: depth_of_depth_loop.induct)
  case (1 m vis u dm)
  show ?case
  proof (cases "map_of dm u")
    case (Some d)
    then have "d = f u" using "1.prems"(4) map_of_SomeD by fastforce
    with Some "1.prems" show ?thesis by (simp add: depth_of.simps)
  next
    case None
    have u: "u \<notin> set vis" using "1.prems"(3) by auto
    have below: "\<forall>b \<in> set (get_or [] m u). has_key m b \<longrightarrow> (\<forall>v \<in> set (u # vis). f b < f v)"
      using depth_decreases [OF "1.prems"(1,2)] "1.prems"(3) by fastforce
    obtain d dm' where r: "depth_loop m (u # vis) (get_or [] m u) 0 dm = (d, dm')"
      by (cases "depth_loop m (u # vis) (get_or [] m u) 0 dm")
    have "d = f u" "\<forall>p \<in> set dm'. snd p = f (fst p)"
      using "1.IH" [OF None u "1.prems"(1) below "1.prems"(4)] r depth_function_eq [OF "1.prems"(1,2)]
      by simp_all
    with None u r show ?thesis
      by (auto simp: depth_of.simps dest: set_put)
  qed
next
  case (2 m vis d dm)
  then show ?case by simp
next
  case (3 m vis b bs d dm)
  show ?case
  proof (cases "has_key m b")
    case False
    with "3.IH"(3) [OF False] "3.prems" show ?thesis by (simp add: depth_loop.simps(2))
  next
    case True
    obtain db dm' where r: "depth_of m vis b dm = (db, dm')" by (cases "depth_of m vis b dm")
    have *: "db = f b" "\<forall>p \<in> set dm'. snd p = f (fst p)"
      using "3.IH"(1) [OF True] "3.prems" True r by simp_all
    have "fst (depth_loop m vis bs (max d (db + 1)) dm') =
            fold max (map (\<lambda>b. f b + 1) (filter (has_key m) bs)) (max d (db + 1))
          \<and> (\<forall>p \<in> set (snd (depth_loop m vis bs (max d (db + 1)) dm')). snd p = f (fst p))"
      using "3.IH"(2) [OF True r [symmetric]] "3.prems" *(2) by simp
    with True r * show ?thesis by (simp add: depth_loop.simps(2) max.commute)
  qed
qed

lemma waves_fold:
  assumes "depth_function m f" and "\<forall>u \<in> set us. has_key m u" and "\<forall>p \<in> set dm. snd p = f (fst p)"
  shows "map_of (fst (fold (waves_loop m) us (ws, dm))) u =
    (if u \<in> set us then Some (f u + 1) else map_of ws u)"
  using assms(2,3)
proof (induction us arbitrary: ws dm)
  case Nil
  then show ?case by simp
next
  case (Cons x us)
  obtain d dm' where r: "depth_of m [] x dm = (d, dm')" by (cases "depth_of m [] x dm")
  have "d = f x" "\<forall>p \<in> set dm'. snd p = f (fst p)"
    using depth_of_correct(1) [OF assms(1), of x "[]" dm] Cons.prems r by simp_all
  with Cons.IH [of dm' "put x (d + 1) ws"] Cons.prems r show ?case
    by (simp add: waves_loop_def update_conv)
qed

text \<open>On an acyclic selection the wave of a ticket is one more than its depth below its selected
  blockers: a ticket with no blocker in the selection runs in the first wave, every other one in the wave
  after the last of its blockers, whatever order the map of blockers is ranged over and memoised in.\<close>

theorem waves_are_depths:
  assumes "depth_function blocking f" and "has_key blocking u"
  shows "map_of (Waves blocking) u = Some (f u + 1)"
  using waves_fold [OF assms(1), of "map fst blocking" "[]" "[]" u] assms(2)
  by (simp add: Waves_def has_key_iff)

theorem waves_are_depths_witness:
  "map_of (Waves [(''c'', [''a'', ''b'']), (''b'', [''a'', ''z'']), (''a'', [])]) ''c'' = Some 3"
  using waves_are_depths
    [of "[(''c'', [''a'', ''b'']), (''b'', [''a'', ''z'']), (''a'', [])]"
      "\<lambda>u. if u = ''c'' then 2 else if u = ''b'' then 1 else 0" "''c''"]
  by (simp add: depth_function_def)

end
