(* ===== verification/Derive.thy ===== *)
theory Derive imports Status Stacks begin

text \<open>
  \<open>derive.go\<close> and \<open>transition.go\<close>: one derivation turns the stored facts and an observation into
  a snapshot, with a row per ticket, what to launch, what may be removed, and the events that
  happened since the observation before. \<open>Input\<close> is \<open>derive_input\<close>.

  \<open>Hash\<close> is the parameter \<open>hash\<close>. The utilisation of the spending window, a floating point
  number in the code, enters as the percentage \<open>spend.Pct\<close> rounds it to. \<open>Time.Sub\<close> does not
  saturate in the model.
\<close>

subsection \<open>Facts\<close>

record launch_membership =
  lm_launch_id :: int
  lm_members :: int
  lm_cancelled :: bool
  lm_prompt_hash :: string
  lm_context :: string
  lm_choice :: agent_choice
  lm_workflow :: string

definition no_membership :: launch_membership where
  "no_membership = \<lparr>lm_launch_id = 0, lm_members = 0, lm_cancelled = False, lm_prompt_hash = [], lm_context = [],
     lm_choice = \<lparr>choice_model = [], choice_effort = None\<rparr>, lm_workflow = []\<rparr>"

record run_summary =
  rn_id :: run_id
  rn_pgid :: "int option"
  rn_proc_started_at :: "time option"
  rn_outcome :: "outcome option"
  rn_exit_code :: "int option"
  rn_ended_at :: "time option"
  rn_log_path :: string
  rn_baseline_sha :: sha
  rn_prompt_hash :: string
  rn_kind :: run_kind
  rn_question :: string
  rn_step :: step_name
  rn_workflow_hash :: string

record push_row =
  pw_pushed_tip :: sha
  pw_base_branch :: string
  pw_base_sha_at_push :: sha
  pw_pushed_at :: time

definition no_push_row :: push_row where
  "no_push_row = \<lparr>pw_pushed_tip = [], pw_base_branch = [], pw_base_sha_at_push = [], pw_pushed_at = 0\<rparr>"

record push_fact =
  pf_refused :: bool
  pf_refused_path :: string
  pf_failed :: bool

definition no_push_fact :: push_fact where
  "no_push_fact = \<lparr>pf_refused = False, pf_refused_path = [], pf_failed = False\<rparr>"

record conflict_at =
  ca_branch_tip :: sha
  ca_base_tip :: sha

record refresh_fact =
  rr_tried :: bool
  rr_refused :: bool
  rr_reason :: string
  rr_verification_failed :: bool
  rr_verification_failed_detail :: string
  rr_conflict :: "conflict_at option"

definition no_refresh_fact :: refresh_fact where
  "no_refresh_fact = \<lparr>rr_tried = False, rr_refused = False, rr_reason = [], rr_verification_failed = False,
     rr_verification_failed_detail = [], rr_conflict = None\<rparr>"

record recorded =
  rc_opened :: bool
  rc_merged :: bool

definition no_recorded :: recorded where
  "no_recorded = \<lparr>rc_opened = False, rc_merged = False\<rparr>"

record verdict_facts =
  vf_push_rows :: "(ticket_url, push_row) gomap"
  vf_checking_for :: "(ticket_url, duration) gomap"

record intent =
  it_id :: int
  it_ticket :: ticket_url
  it_verb :: verb
  it_payload :: string

record derive_input =
  di_now :: time
  di_observed :: bool
  di_tickets :: "ticket list"
  di_obs :: observation
  di_prev :: observation
  di_repos :: "repo_status list"
  di_memberships :: "(ticket_url, launch_membership) gomap"
  di_runs :: "(ticket_url, run_summary) gomap"
  di_pushes :: "(ticket_url, push_fact) gomap"
  di_refreshes :: "(ticket_url, refresh_fact) gomap"
  di_restacked :: "(ticket_url, bool) gomap"
  di_sessions :: "(ticket_url, string) gomap"
  di_recorded :: "(ticket_url, recorded) gomap"
  di_last_verdicts :: "(ticket_url, string) gomap"
  di_verdict :: verdict_facts
  di_intents :: "(ticket_url, intent list) gomap"
  di_removals :: "(ticket_url, string) gomap"
  di_five_hour_pct :: int
  di_passes :: "(ticket_url, step_run list) gomap"

record entry =
  e_ticket :: ticket
  e_unlock :: unlock
  e_state :: state
  e_reason :: reason
  e_run :: "run_fact option"
  e_elapsed :: "duration option"
  e_log_path :: string
  e_conflicted_base :: string
  e_draft_reason :: string
  e_launch_id :: int
  e_base :: string
  e_ready_to_undraft :: bool
  e_opens_as_draft :: bool
  e_prompt_hash :: string
  e_last_push :: "push_row option"
  e_restacked :: bool
  e_next :: "next"
  e_workflow :: string

definition holds_worktree :: "entry \<Rightarrow> bool" where
  "holds_worktree e =
     (case e_run e of None \<Rightarrow> False | Some r \<Rightarrow> \<not> rf_alive r \<and> rf_outcome r = Some OutcomeAsked)"

record removal =
  rm_refusal :: string
  rm_proven_tips :: "sha list"

datatype transition_kind = TransitionOpened | TransitionMerged | TransitionChecksLanded | TransitionVerdict

record transition =
  tr_ticket :: ticket_url
  tr_kind :: transition_kind
  tr_at :: time
  tr_detail :: string

record snapshot =
  sn_entries :: "entry list"
  sn_by_url :: "(ticket_url, nat) gomap"
  sn_launch :: "launch_candidate list"
  sn_running :: int
  sn_max_agents :: int
  sn_spend_paused :: bool
  sn_intents :: "(ticket_url, intent list) gomap"
  sn_sessions :: "(ticket_url, string) gomap"
  sn_removals :: "(ticket_url, removal) gomap"
  sn_transitions :: "transition list"
  sn_verdicts :: "(ticket_url, string) gomap"
  sn_repos :: "repo_status list"
  sn_obs :: observation
  sn_refreshes :: "(ticket_url, refresh_fact) gomap"

subsection \<open>Pull requests and checks by ticket\<close>

definition tickets_by_url :: "ticket list \<Rightarrow> (ticket_url, ticket) gomap" where
  "tickets_by_url tickets = fold (\<lambda>t m. put (t_url t) t m) tickets []"

definition pr_of :: "observation \<Rightarrow> branch_ref \<Rightarrow> pr" where
  "pr_of ob r = get_or no_pr (ob_prs ob) r"

definition prs_by_branch :: "ticket list \<Rightarrow> observation \<Rightarrow> (string, pr_state) gomap" where
  "prs_by_branch tickets ob =
     fold (\<lambda>t m. put (t_branch t) (pr_state (pr_of ob (ticket_ref t))) m) tickets []"

definition to_verdict_check_state :: "check_state \<Rightarrow> check_result" where
  "to_verdict_check_state cs =
     (if cs_status cs \<noteq> ''COMPLETED'' then Pending
      else if cs_conclusion cs = ''SUCCESS'' then Success
      else if cs_conclusion cs = ''SKIPPED'' then Skipped
      else Failure)"

definition verdict_checks :: "(string, check_state) gomap \<Rightarrow> (string, check_result) gomap" where
  "verdict_checks checks = map (\<lambda>(name, c). (name, to_verdict_check_state c)) checks"

text \<open>The input of the verdict on a pushed ticket.\<close>

definition verdict_input_of :: "rules \<Rightarrow> ticket \<Rightarrow> observation \<Rightarrow> verdict_facts \<Rightarrow> push_row \<Rightarrow> verdict_input" where
  "verdict_input_of r t ob vf row =
     (let p = pr_of ob (ticket_ref t); mergify = get_or [] (ru_mergify_sha r) (t_repo t)
      in \<lparr>in_checks = verdict_checks (pr_checks p),
          in_head_oid_match = (pw_pushed_tip row \<noteq> [] \<and> pr_head_oid p = pw_pushed_tip row),
          in_stacked_base = (pw_base_branch row \<noteq> []),
          in_base_sha_match =
            (get_or [] (ob_branch_tips ob) (BranchRef (t_repo t) (pw_base_branch row)) = pw_base_sha_at_push row),
          in_config_hash_ok = (mergify = [] \<or> get_or [] (ob_mergify_hash ob) (t_repo t) = mergify),
          in_pushed_at = pw_pushed_at row,
          in_now = pw_pushed_at row + get_or 0 (vf_checking_for vf) (t_url t),
          in_author_login = pr_author_login p,
          in_compat_check = get_or [] (ru_compat_check r) (t_repo t)\<rparr>)"

definition apply_verdict :: "rules \<Rightarrow> ticket \<Rightarrow> observation \<Rightarrow> verdict_facts \<Rightarrow> verdict_result option" where
  "apply_verdict r t ob vf =
     (let p = get_or no_predicate (ru_checks r) (t_repo t)
      in if predicate_is_zero p then None
         else (case map_of (vf_push_rows vf) (t_url t) of
                 None \<Rightarrow> None
               | Some row \<Rightarrow> Some (Evaluate p (verdict_input_of r t ob vf row))))"

subsection \<open>Peers\<close>

definition branch_number :: "string \<Rightarrow> int option" where
  "branch_number branch =
     (case strip_prefix ''cc-'' branch of
        None \<Rightarrow> None
      | Some rest \<Rightarrow> atoi (cut_before ''-'' rest))"

definition compare_by_ref :: "string \<Rightarrow> string \<Rightarrow> int" where
  "compare_by_ref a b =
     (case (branch_number a, branch_number b) of
        (Some na, Some nb) \<Rightarrow> int_compare na nb
      | _ \<Rightarrow> str_compare a b)"

definition conflicts :: "observation \<Rightarrow> branch_ref \<Rightarrow> branch_ref \<Rightarrow> bool" where
  "conflicts ob a b = get_or False (get_or [] (ob_conflicts_with_peer ob) a) b"

text \<open>The inner loop: the first candidate before this one that is not held and conflicts with it.\<close>

definition holding_peer :: "observation \<Rightarrow> (ticket_url, string) gomap \<Rightarrow> ticket \<Rightarrow> ticket list \<Rightarrow> ticket option" where
  "holding_peer ob held t before =
     find (\<lambda>peer. \<not> has_key held (t_url peer) \<and> conflicts ob (ticket_ref t) (ticket_ref peer)) before"

fun hold_loop :: "observation \<Rightarrow> ticket list \<Rightarrow> ticket list \<Rightarrow> (ticket_url, string) gomap \<Rightarrow> (ticket_url, string) gomap" where
  "hold_loop ob before [] held = held"
| "hold_loop ob before (t # ts) held =
     hold_loop ob (before @ [t]) ts
       (case holding_peer ob held t before of
          Some peer \<Rightarrow> put (t_url t) (t_branch peer) held
        | None \<Rightarrow> held)"

definition peer_candidates :: "rules \<Rightarrow> ticket list \<Rightarrow> (ticket_url, ticket) gomap \<Rightarrow> (string, pr_state) gomap \<Rightarrow> ticket list" where
  "peer_candidates r tickets by_url prs =
     sort_func (\<lambda>a b. compare_by_ref (t_branch a) (t_branch b))
       (filter (\<lambda>t. get_or Absent prs (t_branch t) = Open
            \<and> (case map_of by_url (t_url t) of
                 Some t' \<Rightarrow> prospective_base t' by_url (get_or False (ru_stacking r) (t_repo t)) = default_base_branch
               | None \<Rightarrow> True))
          tickets)"

definition conflicting_peer_hold :: "rules \<Rightarrow> ticket list \<Rightarrow> (ticket_url, ticket) gomap \<Rightarrow> (string, pr_state) gomap
    \<Rightarrow> observation \<Rightarrow> (ticket_url, string) gomap" where
  "conflicting_peer_hold r tickets by_url prs ob = hold_loop ob [] (peer_candidates r tickets by_url prs) []"

subsection \<open>One ticket\<close>

text \<open>\<open>Duration.Round\<close>: to the nearest multiple, halves away from zero.\<close>

definition round_duration :: "duration \<Rightarrow> duration \<Rightarrow> duration" where
  "round_duration d m =
     (if d < 0 then - ((- d + m div 2) div m * m) else (d + m div 2) div m * m)"

definition run_for :: "rules \<Rightarrow> ticket \<Rightarrow> derive_input \<Rightarrow> string \<Rightarrow> run_fact option \<times> duration option \<times> string" where
  "run_for r t inp peer =
     (case map_of (di_runs inp) (t_url t) of
        None \<Rightarrow> (None, None, [])
      | Some summary \<Rightarrow>
          let key = ticket_ref t; ob = di_obs inp;
              own = pr_state (pr_of ob key);
              fct = no_run_fact\<lparr>rf_log_path := rn_log_path summary, rf_alive := get_or False (ob_runs ob) (t_url t),
                 rf_pr_open := (own = Open), rf_pr_merged := (own = Merged), rf_pr_closed_unmerged := (own = Closed)\<rparr>;
              fct = (case rn_outcome summary of
                  None \<Rightarrow> fct
                | Some outc \<Rightarrow>
                    let fct = fct\<lparr>rf_outcome := Some outc, rf_question := rn_question summary\<rparr>
                    in if outc \<noteq> OutcomePush then fct
                       else
                         let pf = get_or no_push_fact (di_pushes inp) (t_url t);
                             rf = get_or no_refresh_fact (di_refreshes inp) (t_url t);
                             conflicted = get_or False (ob_conflicts_with_base ob) key;
                             fct = fct\<lparr>rf_push_refused := pf_refused pf, rf_push_refused_path := pf_refused_path pf,
                               rf_push_failed := pf_failed pf, rf_refresh_refused := rr_refused rf,
                               rf_refresh_refused_reason := rr_reason rf,
                               rf_verification_failed := rr_verification_failed rf,
                               rf_verification_failed_reason := rr_verification_failed_detail rf,
                               rf_mid_merge := get_or False (ob_mid_merge ob) key,
                               rf_conflicts_with_main := conflicted,
                               rf_conflicts_with_main_reason :=
                                 (if conflicted then t_branch t @ '' no longer merges cleanly into main'' else []),
                               rf_conflicting_peer := peer\<rparr>
                         in if rf_pr_open fct \<and> \<not> rf_push_refused fct \<and> \<not> rf_push_failed fct
                            then fct\<lparr>rf_verdict := apply_verdict r t ob (di_verdict inp)\<rparr> else fct);
              elapsed = (if rf_alive fct
                 then map_option (\<lambda>started. round_duration (di_now inp - started) second) (rn_proc_started_at summary)
                 else None)
          in (Some fct, elapsed, rn_log_path summary))"

definition no_next :: "next" where
  "no_next = \<lparr>n_kind = NextRun, n_step = None, n_round = 0, n_reason = []\<rparr>"

definition no_workflow :: workflow where
  "no_workflow = \<lparr>w_name = [], w_hash = [], w_steps = [], w_max_fix_rounds = 0\<rparr>"

text \<open>The workflow with a hash: the loop over the map keeps the last one it meets.\<close>

definition workflow_by_hash :: "(string, workflow) gomap \<Rightarrow> string \<Rightarrow> workflow option" where
  "workflow_by_hash ws h = fold (\<lambda>(_, c) found. if w_hash c = h then Some c else found) ws None"

definition next_for :: "rules \<Rightarrow> ticket \<Rightarrow> derive_input \<Rightarrow> string \<Rightarrow> workflow \<times> next" where
  "next_for r t inp launch_workflow =
     (let go = (\<lambda>w. (w, Next w (get_or [] (di_passes inp) (t_url t)) (get_or False (ru_verify r) (t_repo t))))
      in case map_of (di_runs inp) (t_url t) of
           None \<Rightarrow>
             (case map_of (ru_workflows r) launch_workflow of
                None \<Rightarrow> (no_workflow, no_next)
              | Some w \<Rightarrow> go w)
         | Some summary \<Rightarrow>
             if rn_workflow_hash summary = [] then (no_workflow, no_next)
             else (case workflow_by_hash (ru_workflows r) (rn_workflow_hash summary) of
                     None \<Rightarrow> (no_workflow,
                       no_next\<lparr>n_kind := NextPark,
                         n_reason := ''workflow '' @ rn_workflow_hash summary @ '' is not in this build''\<rparr>)
                   | Some w \<Rightarrow> go w))"

definition base_is_conflicted :: "ticket \<Rightarrow> string \<Rightarrow> derive_input \<Rightarrow> bool" where
  "base_is_conflicted t base inp =
     (if base = default_base_branch then False
      else let b = BranchRef (t_repo t) base
           in get_or False (ob_conflicts_with_base (di_obs inp)) b \<or> get_or False (ob_mid_merge (di_obs inp)) b)"

definition draft_reason :: "pr \<Rightarrow> ticket list \<Rightarrow> (string, pr_state) gomap \<Rightarrow> run_fact option \<Rightarrow> string \<times> bool" where
  "draft_reason p gating prs run =
     (if \<not> pr_is_draft p then ([], False)
      else
        let review_me = (case run of None \<Rightarrow> False | Some fct \<Rightarrow>
              (case rf_verdict fct of None \<Rightarrow> False | Some v \<Rightarrow> v_kind v = K_ReviewMe));
            (draft, gate_reason) = draft_gate gating prs review_me
        in if \<not> draft then (''ready to un-draft; the last gh pr ready call has not taken effect yet'', True)
           else (gate_reason, False))"

definition held_worktree_refusal :: string where
  "held_worktree_refusal = ''the agent is awaiting an answer; its worktree stays as it left it''"

definition removal_for :: "entry \<Rightarrow> pr \<Rightarrow> removal" where
  "removal_for e p =
     (let merged = (pr_state p = Merged)
      in \<lparr>rm_refusal =
            (if holds_worktree e then held_worktree_refusal
             else if \<not> merged \<and> (e_run e = None \<or> \<not> u_blocker_closed (e_unlock e)) then ''neither merged nor base gone''
             else []),
          rm_proven_tips =
            (case e_last_push e of
               Some row \<Rightarrow> if pw_pushed_tip row \<noteq> [] then [pw_pushed_tip row] else []
             | None \<Rightarrow> [])
            @ (if merged \<and> pr_head_oid p \<noteq> [] then [pr_head_oid p] else [])\<rparr>)"

text \<open>
  The body of \<open>Derive\<close>'s loop: the row of a ticket, its launch candidate, and whether it counts as
  running. \<open>t\<close> is the stored ticket; the row holds it with the context and choice of its launch.
\<close>

definition entry_for :: "(string \<Rightarrow> string) \<Rightarrow> rules \<Rightarrow> derive_input \<Rightarrow> (ticket_url, ticket) gomap
    \<Rightarrow> (string, pr_state) gomap \<Rightarrow> (ticket_url, string) gomap \<Rightarrow> ticket \<Rightarrow> entry \<times> launch_candidate \<times> bool" where
  "entry_for hash r inp by_url prs peers t0 =
     (let stacking = get_or False (ru_stacking r) (t_repo t0);
          unlock = Unlocked t0 by_url prs stacking;
          base = (if u_base_branch unlock = [] then prospective_base t0 by_url stacking else u_base_branch unlock);
          (run, elapsed, log_path) = run_for r t0 inp (get_or [] peers (t_url t0));
          membership = get_or no_membership (di_memberships inp) (t_url t0);
          t = t0\<lparr>t_launch_context := lm_context membership, t_choice := lm_choice membership\<rparr>;
          authorised = (lm_launch_id membership \<noteq> 0);
          conflicted = (if base_is_conflicted t base inp then base else []);
          (workflow, nx) = next_for r t inp (lm_workflow membership);
          run = (case run of
                   None \<Rightarrow> None
                 | Some fct \<Rightarrow> Some (if length (w_steps workflow) \<noteq> 1 then fct\<lparr>rf_next := Some nx\<rparr> else fct));
          (st, rsn) = Status \<lparr>f_unlock = unlock, f_authorised = authorised, f_latest_run = run,
             f_cancelled_member = lm_cancelled membership, f_conflicted_base = conflicted\<rparr>;
          candidate = \<lparr>lc_url = t_url t, lc_unlock = unlock, lc_authorised = authorised,
             lc_prompt_hash_matches = (authorised \<and> lm_prompt_hash membership = hash (Compose t)),
             lc_has_run = (run \<noteq> None), lc_conflicted_base = conflicted, lc_next = nx,
             lc_in_flight = (run \<noteq> None \<and> n_kind nx = NextRun \<and> n_step nx \<noteq> None)\<rparr>;
          running = ((case map_of (di_runs inp) (t_url t) of None \<Rightarrow> False | Some s \<Rightarrow> rn_pgid s \<noteq> None)
             \<and> (case run of None \<Rightarrow> False | Some fct \<Rightarrow> rf_outcome fct = None));
          p = pr_of (di_obs inp) (ticket_ref t);
          gating = gating_blockers t by_url;
          (draft_why, ready) = draft_reason p gating prs run
      in (\<lparr>e_ticket = t, e_unlock = unlock, e_state = st, e_reason = rsn, e_run = run, e_elapsed = elapsed,
           e_log_path = log_path, e_conflicted_base = conflicted, e_draft_reason = draft_why,
           e_launch_id = lm_launch_id membership, e_base = base,
           e_ready_to_undraft = (ready \<and> pr_state p = Open), e_opens_as_draft = (gating \<noteq> []),
           e_prompt_hash = lm_prompt_hash membership,
           e_last_push = map_of (vf_push_rows (di_verdict inp)) (t_url t),
           e_restacked = get_or False (di_restacked inp) (t_url t),
           e_next = nx, e_workflow = lm_workflow membership\<rparr>, candidate, running))"

subsection \<open>transition.go\<close>

definition opened_transition :: "ticket \<Rightarrow> derive_input \<Rightarrow> transition list" where
  "opened_transition t inp =
     (case map_of (ob_prs (di_obs inp)) (ticket_ref t) of
        None \<Rightarrow> []
      | Some p \<Rightarrow>
          if has_key (ob_prs (di_prev inp)) (ticket_ref t)
             \<or> rc_opened (get_or no_recorded (di_recorded inp) (t_url t)) then []
          else [\<lparr>tr_ticket = t_url t, tr_kind = TransitionOpened, tr_at = di_now inp,
                 tr_detail = ''PR #'' @ itoa (pr_number p) @ '' https://github.com/'' @ t_repo t @ ''/pull/''
                   @ itoa (pr_number p)\<rparr>])"

definition merged_transition :: "ticket \<Rightarrow> derive_input \<Rightarrow> transition list" where
  "merged_transition t inp =
     (let p = pr_of (di_obs inp) (ticket_ref t)
      in if pr_state p \<noteq> Merged \<or> rc_merged (get_or no_recorded (di_recorded inp) (t_url t)) then []
         else [\<lparr>tr_ticket = t_url t, tr_kind = TransitionMerged, tr_at = pr_merged_at p,
                tr_detail = ''PR #'' @ itoa (pr_number p) @ '' merged''\<rparr>])"

definition checks_landed_transitions :: "ticket \<Rightarrow> derive_input \<Rightarrow> transition list" where
  "checks_landed_transitions t inp =
     (let now = pr_checks (pr_of (di_obs inp) (ticket_ref t));
          before = pr_checks (pr_of (di_prev inp) (ticket_ref t))
      in List.map_filter (\<lambda>name.
           case map_of now name of
             None \<Rightarrow> None
           | Some c \<Rightarrow>
               let landed = to_verdict_check_state c
               in if landed = Pending then None
                  else if (case map_of before name of None \<Rightarrow> False | Some was \<Rightarrow> to_verdict_check_state was \<noteq> Pending)
                  then None
                  else Some \<lparr>tr_ticket = t_url t, tr_kind = TransitionChecksLanded, tr_at = di_now inp,
                             tr_detail = name @ '' '' @ check_result_text landed\<rparr>)
           (sort_func str_compare (map fst now)))"

definition verdict_transition :: "rules \<Rightarrow> ticket \<Rightarrow> derive_input \<Rightarrow> (transition \<times> string) option" where
  "verdict_transition r t inp =
     (let outc = (case map_of (di_runs inp) (t_url t) of None \<Rightarrow> None | Some s \<Rightarrow> rn_outcome s);
          pf = get_or no_push_fact (di_pushes inp) (t_url t)
      in if outc \<noteq> Some OutcomePush then None
         else if pf_refused pf \<or> pf_failed pf \<or> pr_state (pr_of (di_obs inp) (ticket_ref t)) \<noteq> Open then None
         else (case apply_verdict r t (di_obs inp) (di_verdict inp) of
                 None \<Rightarrow> None
               | Some result \<Rightarrow>
                   let current = kind_text (v_kind result)
                   in if current = [] \<or> get_or [] (di_last_verdicts inp) (t_url t) = current then None
                      else Some (\<lparr>tr_ticket = t_url t, tr_kind = TransitionVerdict, tr_at = di_now inp,
                                   tr_detail = current @ '': '' @ v_reason result\<rparr>, current)))"

text \<open>The body of the loop of \<open>transitions\<close>.\<close>

definition ticket_transitions :: "rules \<Rightarrow> derive_input \<Rightarrow> ticket
    \<Rightarrow> transition list \<times> (ticket_url, string) gomap \<Rightarrow> transition list \<times> (ticket_url, string) gomap" where
  "ticket_transitions r inp t = (\<lambda>(out, verdicts).
     let out = out @ opened_transition t inp @ checks_landed_transitions t inp
     in case verdict_transition r t inp of
          Some (tr, current) \<Rightarrow> (out @ [tr] @ merged_transition t inp, put (t_url t) current verdicts)
        | None \<Rightarrow> (out @ merged_transition t inp, verdicts))"

definition transitions :: "rules \<Rightarrow> derive_input \<Rightarrow> transition list \<times> (ticket_url, string) gomap" where
  "transitions r inp = fold (ticket_transitions r inp) (di_tickets inp) ([], di_last_verdicts inp)"

subsection \<open>Derive\<close>

definition spend_paused :: "int \<Rightarrow> int \<Rightarrow> bool" where
  "spend_paused pct limit_5h = (0 < limit_5h \<and> limit_5h \<le> pct)"

definition add_entry :: "derive_input \<Rightarrow> entry \<times> launch_candidate \<times> bool \<Rightarrow> snapshot \<Rightarrow> snapshot" where
  "add_entry inp = (\<lambda>(e, c, running) s. s\<lparr>
     sn_entries := sn_entries s @ [e],
     sn_by_url := put (t_url (e_ticket e)) (length (sn_entries s)) (sn_by_url s),
     sn_launch := sn_launch s @ [c],
     sn_running := (if running then sn_running s + 1 else sn_running s),
     sn_removals := put (t_url (e_ticket e)) (removal_for e (pr_of (di_obs inp) (ticket_ref (e_ticket e)))) (sn_removals s)\<rparr>)"

definition Derive :: "(string \<Rightarrow> string) \<Rightarrow> rules \<Rightarrow> derive_input \<Rightarrow> snapshot" where
  "Derive hash r inp =
     (let by_url = tickets_by_url (di_tickets inp);
          prs = prs_by_branch (di_tickets inp) (di_obs inp);
          peers = conflicting_peer_hold r (di_tickets inp) by_url prs (di_obs inp);
          s0 = \<lparr>sn_entries = [], sn_by_url = [], sn_launch = [], sn_running = 0, sn_max_agents = ru_max_agents r,
                sn_spend_paused = spend_paused (di_five_hour_pct inp) (ru_spend_limit_5h r),
                sn_intents = di_intents inp, sn_sessions = di_sessions inp, sn_removals = [], sn_transitions = [],
                sn_verdicts = [], sn_repos = di_repos inp, sn_obs = di_obs inp, sn_refreshes = di_refreshes inp\<rparr>;
          s1 = fold (\<lambda>t s. add_entry inp (entry_for hash r inp by_url prs peers t) s) (di_tickets inp) s0;
          (trs, verdicts) = transitions r inp
      in s1\<lparr>sn_transitions := trs, sn_verdicts := verdicts\<rparr>)"

definition launch_after :: "snapshot \<Rightarrow> int \<Rightarrow> ticket_url list" where
  "launch_after s spawned = launch_plan (sn_launch s) (sn_running s + spawned) (sn_max_agents s) (sn_spend_paused s)"

definition skip_entry :: "(string, bool) gomap \<Rightarrow> entry \<Rightarrow> entry list \<times> (ticket_url, nat) gomap \<Rightarrow> entry list \<times> (ticket_url, nat) gomap" where
  "skip_entry repos e = (\<lambda>(es, by_url).
     if get_or False repos (t_repo (e_ticket e)) then (es, by_url)
     else (es @ [e], put (t_url (e_ticket e)) (length es) by_url))"

definition skipping :: "snapshot \<Rightarrow> (string, bool) gomap \<Rightarrow> snapshot" where
  "skipping s repos =
     (if repos = [] then s
      else
        let (es, by_url) = fold (skip_entry repos) (sn_entries s) ([], [])
        in s\<lparr>sn_entries := es, sn_by_url := by_url,
             sn_launch := filter (\<lambda>c. has_key by_url (lc_url c)) (sn_launch s)\<rparr>)"

definition entry_of :: "snapshot \<Rightarrow> ticket_url \<Rightarrow> entry option" where
  "entry_of s url = map_option (\<lambda>i. sn_entries s ! i) (map_of (sn_by_url s) url)"

definition offers :: "snapshot \<Rightarrow> ticket_url \<Rightarrow> verb \<Rightarrow> bool" where
  "offers s url v = (case entry_of s url of None \<Rightarrow> False | Some e \<Rightarrow> v \<in> set (verbs_of (e_state e)))"

subsection \<open>The rows of a snapshot\<close>

text \<open>The row, candidate and running flag \<open>Derive\<close> gives a ticket.\<close>

definition row_of :: "(string \<Rightarrow> string) \<Rightarrow> rules \<Rightarrow> derive_input \<Rightarrow> ticket \<Rightarrow> entry \<times> launch_candidate \<times> bool" where
  "row_of hash r inp t =
     (let by_url = tickets_by_url (di_tickets inp); prs = prs_by_branch (di_tickets inp) (di_obs inp)
      in entry_for hash r inp by_url prs (conflicting_peer_hold r (di_tickets inp) by_url prs (di_obs inp)) t)"

lemma fold_add_entry:
  "sn_entries (fold (\<lambda>t s. add_entry inp (f t) s) ts s) = sn_entries s @ map (\<lambda>t. fst (f t)) ts"
  "sn_launch (fold (\<lambda>t s. add_entry inp (f t) s) ts s) = sn_launch s @ map (\<lambda>t. fst (snd (f t))) ts"
  "sn_running (fold (\<lambda>t s. add_entry inp (f t) s) ts s) =
     sn_running s + int (length (filter (\<lambda>t. snd (snd (f t))) ts))"
  "sn_max_agents (fold (\<lambda>t s. add_entry inp (f t) s) ts s) = sn_max_agents s"
  "sn_spend_paused (fold (\<lambda>t s. add_entry inp (f t) s) ts s) = sn_spend_paused s"
  "sn_intents (fold (\<lambda>t s. add_entry inp (f t) s) ts s) = sn_intents s"
  "sn_obs (fold (\<lambda>t s. add_entry inp (f t) s) ts s) = sn_obs s"
  "sn_refreshes (fold (\<lambda>t s. add_entry inp (f t) s) ts s) = sn_refreshes s"
  by (induction ts arbitrary: s) (auto simp: add_entry_def split: prod.split)

lemma Derive_simps:
  "sn_entries (Derive hash r inp) = map (\<lambda>t. fst (row_of hash r inp t)) (di_tickets inp)"
  "sn_launch (Derive hash r inp) = map (\<lambda>t. fst (snd (row_of hash r inp t))) (di_tickets inp)"
  "sn_running (Derive hash r inp) = int (length (filter (\<lambda>t. snd (snd (row_of hash r inp t))) (di_tickets inp)))"
  "sn_max_agents (Derive hash r inp) = ru_max_agents r"
  "sn_spend_paused (Derive hash r inp) = spend_paused (di_five_hour_pct inp) (ru_spend_limit_5h r)"
  "sn_intents (Derive hash r inp) = di_intents inp"
  "sn_obs (Derive hash r inp) = di_obs inp"
  "sn_refreshes (Derive hash r inp) = di_refreshes inp"
  by (simp_all add: Derive_def Let_def row_of_def fold_add_entry split: prod.split)

lemma entry_ticket:
  "t_url (e_ticket (fst (entry_for hash r inp by_url prs peers t))) = t_url t"
  "t_repo (e_ticket (fst (entry_for hash r inp by_url prs peers t))) = t_repo t"
  "t_branch (e_ticket (fst (entry_for hash r inp by_url prs peers t))) = t_branch t"
  by (simp_all add: entry_for_def Let_def split: prod.split)

lemma row_ticket [simp]:
  "t_url (e_ticket (fst (row_of hash r inp t))) = t_url t"
  "t_repo (e_ticket (fst (row_of hash r inp t))) = t_repo t"
  "t_branch (e_ticket (fst (row_of hash r inp t))) = t_branch t"
  by (simp_all add: row_of_def Let_def entry_ticket)

text \<open>An index of rows: it points at a row with the URL, for the URL of every row.\<close>

definition well_indexed :: "entry list \<Rightarrow> (ticket_url, nat) gomap \<Rightarrow> bool" where
  "well_indexed es m =
     ((\<forall>(url, i) \<in> set m. i < length es \<and> t_url (e_ticket (es ! i)) = url)
      \<and> (\<forall>e \<in> set es. has_key m (t_url (e_ticket e))))"

lemma well_indexed_Nil [simp]: "well_indexed [] []"
  by (simp add: well_indexed_def)

lemma well_indexed_add:
  "well_indexed es m \<Longrightarrow> well_indexed (es @ [e]) (put (t_url (e_ticket e)) (length es) m)"
  by (auto simp: well_indexed_def nth_append dest!: set_put split: if_splits)

lemma well_indexed_lookup:
  assumes "well_indexed (sn_entries s) (sn_by_url s)"
  shows "entry_of s url = Some e \<Longrightarrow> e \<in> set (sn_entries s) \<and> t_url (e_ticket e) = url"
    and "entry_of s url = None \<longleftrightarrow> (\<forall>e \<in> set (sn_entries s). t_url (e_ticket e) \<noteq> url)"
proof -
  have at: "i < length (sn_entries s) \<and> t_url (e_ticket (sn_entries s ! i)) = u" if "map_of (sn_by_url s) u = Some i" for u i
    using assms map_of_SomeD [OF that] by (auto simp: well_indexed_def)
  show "entry_of s url = Some e \<Longrightarrow> e \<in> set (sn_entries s) \<and> t_url (e_ticket e) = url"
    using at by (auto simp: entry_of_def)
  show "entry_of s url = None \<longleftrightarrow> (\<forall>e \<in> set (sn_entries s). t_url (e_ticket e) \<noteq> url)"
  proof
    assume "entry_of s url = None"
    then have "\<not> has_key (sn_by_url s) url" by (simp add: entry_of_def has_key_def)
    with assms show "\<forall>e \<in> set (sn_entries s). t_url (e_ticket e) \<noteq> url"
      by (auto simp: well_indexed_def)
  next
    assume none: "\<forall>e \<in> set (sn_entries s). t_url (e_ticket e) \<noteq> url"
    show "entry_of s url = None"
    proof (cases "map_of (sn_by_url s) url")
      case None
      then show ?thesis by (simp add: entry_of_def)
    next
      case (Some i)
      with at [OF Some] none show ?thesis by auto
    qed
  qed
qed

lemma fold_add_indexed:
  "well_indexed (sn_entries s) (sn_by_url s) \<Longrightarrow>
     well_indexed (sn_entries (fold (\<lambda>t s. add_entry inp (f t) s) ts s))
       (sn_by_url (fold (\<lambda>t s. add_entry inp (f t) s) ts s))"
  by (induction ts arbitrary: s) (auto simp: add_entry_def well_indexed_add split: prod.split)

lemma Derive_indexed: "well_indexed (sn_entries (Derive hash r inp)) (sn_by_url (Derive hash r inp))"
proof -
  have upd: "sn_entries (s\<lparr>sn_transitions := x, sn_verdicts := y\<rparr>) = sn_entries s"
    "sn_by_url (s\<lparr>sn_transitions := x, sn_verdicts := y\<rparr>) = sn_by_url s" for s :: snapshot and x y
    by simp_all
  show ?thesis
    unfolding Derive_def Let_def case_prod_unfold upd by (rule fold_add_indexed) simp
qed

lemma skip_fold_entries:
  "fst (fold (skip_entry repos) xs (es, m)) = es @ filter (\<lambda>e. \<not> get_or False repos (t_repo (e_ticket e))) xs"
  by (induction xs arbitrary: es m) (auto simp: skip_entry_def)

lemma skip_fold_indexed:
  "well_indexed es m \<Longrightarrow>
     well_indexed (fst (fold (skip_entry repos) xs (es, m))) (snd (fold (skip_entry repos) xs (es, m)))"
proof (induction xs arbitrary: es m)
  case (Cons x xs)
  obtain es' m' where step: "skip_entry repos x (es, m) = (es', m')" by (cases "skip_entry repos x (es, m)")
  have "well_indexed es' m'"
    using Cons.prems step by (auto simp: skip_entry_def well_indexed_add split: if_splits)
  with Cons.IH step show ?case by simp
qed simp

lemma skipping_entries:
  "sn_entries (skipping s repos) = filter (\<lambda>e. \<not> get_or False repos (t_repo (e_ticket e))) (sn_entries s)"
  using skip_fold_entries [of repos "sn_entries s" "[]" "[]"]
  by (auto simp: skipping_def Let_def split: prod.split)

lemma skipping_indexed:
  "well_indexed (sn_entries s) (sn_by_url s) \<Longrightarrow> well_indexed (sn_entries (skipping s repos)) (sn_by_url (skipping s repos))"
  using skip_fold_indexed [of "[]" "[]" repos "sn_entries s"]
  by (auto simp: skipping_def Let_def split: prod.split)

text \<open>A snapshot has one row per ticket, in the order of the tickets, and looking a row up by its
  ticket finds a row of that ticket, and finds one whenever there is one; dropping the repositories that
  cannot be acted on keeps exactly the rows of the others, in order, and looks them up as before.\<close>

theorem snapshot_rows:
  "map (\<lambda>e. t_url (e_ticket e)) (sn_entries (Derive hash r inp)) = map t_url (di_tickets inp)
   \<and> (let s = skipping (Derive hash r inp) repos
      in sn_entries s = filter (\<lambda>e. \<not> get_or False repos (t_repo (e_ticket e))) (sn_entries (Derive hash r inp))
         \<and> (\<forall>url. case entry_of s url of
               Some e \<Rightarrow> e \<in> set (sn_entries s) \<and> t_url (e_ticket e) = url
             | None \<Rightarrow> url \<notin> (\<lambda>e. t_url (e_ticket e)) ` set (sn_entries s)))"
proof -
  let ?s = "skipping (Derive hash r inp) repos"
  note ix = skipping_indexed [OF Derive_indexed, of hash r inp repos]
  have "case entry_of ?s url of Some e \<Rightarrow> e \<in> set (sn_entries ?s) \<and> t_url (e_ticket e) = url
      | None \<Rightarrow> url \<notin> (\<lambda>e. t_url (e_ticket e)) ` set (sn_entries ?s)" for url
    using well_indexed_lookup [OF ix, of url] by (auto split: option.split)
  then show ?thesis
    unfolding Let_def by (simp add: skipping_entries Derive_simps)
qed

subsection \<open>A small derivation, for the witnesses\<close>

definition sample_rules :: rules where
  "sample_rules = \<lparr>ru_stacking = [], ru_deny = [], ru_checks = [(''r'', Predicate [] [] None ''test'' [] [] [])],
     ru_mergify_sha = [], ru_compat_check = [], ru_verify = [], ru_workflows = [], ru_max_agents = 2,
     ru_spend_limit_5h = 0\<rparr>"

definition sample_input :: derive_input where
  "sample_input = \<lparr>di_now = 0, di_observed = True, di_tickets = [sample_ticket ''t'' ''cc-1-t'' []],
     di_obs = new_observation 0, di_prev = new_observation 0, di_repos = [], di_memberships = [], di_runs = [],
     di_pushes = [], di_refreshes = [], di_restacked = [], di_sessions = [], di_recorded = [], di_last_verdicts = [],
     di_verdict = \<lparr>vf_push_rows = [], vf_checking_for = []\<rparr>, di_intents = [], di_removals = [],
     di_five_hour_pct = 0, di_passes = []\<rparr>"

definition sample_summary :: run_summary where
  "sample_summary = \<lparr>rn_id = 1, rn_pgid = None, rn_proc_started_at = None, rn_outcome = Some OutcomePush,
     rn_exit_code = None, rn_ended_at = None, rn_log_path = [], rn_baseline_sha = [], rn_prompt_hash = [],
     rn_kind = RunKindAgent, rn_question = [], rn_step = [], rn_workflow_hash = []\<rparr>"

lemmas sample_defs = sample_rules_def sample_input_def sample_summary_def sample_ticket_def new_observation_def

subsection \<open>Launching\<close>

lemma run_for_None: "fst (run_for r t inp peer) = None \<longleftrightarrow> \<not> has_key (di_runs inp) (t_url t)"
  by (simp add: run_for_def has_key_def Let_def split: option.split)

lemma next_for_ticket [simp]:
  "next_for r (t\<lparr>t_launch_context := c, t_choice := d\<rparr>) inp w = next_for r t inp w"
  by (simp add: next_for_def Let_def)

lemma base_is_conflicted_ticket [simp]:
  "base_is_conflicted (t\<lparr>t_launch_context := c, t_choice := d\<rparr>) b inp = base_is_conflicted t b inp"
  by (simp add: base_is_conflicted_def)

definition membership_of :: "derive_input \<Rightarrow> ticket_url \<Rightarrow> launch_membership" where
  "membership_of inp url = get_or no_membership (di_memberships inp) url"

lemma candidate_for:
  "lc_url (fst (snd (entry_for hash r inp by_url prs peers t))) = t_url t"
  "lc_unlock (fst (snd (entry_for hash r inp by_url prs peers t))) =
     Unlocked t by_url prs (get_or False (ru_stacking r) (t_repo t))"
  "lc_authorised (fst (snd (entry_for hash r inp by_url prs peers t))) =
     (lm_launch_id (membership_of inp (t_url t)) \<noteq> 0)"
  "lc_prompt_hash_matches (fst (snd (entry_for hash r inp by_url prs peers t))) =
     (lm_launch_id (membership_of inp (t_url t)) \<noteq> 0 \<and>
      lm_prompt_hash (membership_of inp (t_url t)) =
        hash (Compose (t\<lparr>t_launch_context := lm_context (membership_of inp (t_url t)),
                         t_choice := lm_choice (membership_of inp (t_url t))\<rparr>)))"
  "lc_has_run (fst (snd (entry_for hash r inp by_url prs peers t))) = has_key (di_runs inp) (t_url t)"
  "lc_in_flight (fst (snd (entry_for hash r inp by_url prs peers t))) =
     (has_key (di_runs inp) (t_url t)
      \<and> (let n = snd (next_for r t inp (lm_workflow (membership_of inp (t_url t))))
         in n_kind n = NextRun \<and> n_step n \<noteq> None))"
  using run_for_None [of r t inp "get_or [] peers (t_url t)"]
  by (auto simp: entry_for_def Let_def membership_of_def split: prod.split option.split)

lemma candidate_base:
  "u_base_branch u \<noteq> [] \<Longrightarrow> u = Unlocked t by_url prs (get_or False (ru_stacking r) (t_repo t)) \<Longrightarrow>
   lc_conflicted_base (fst (snd (entry_for hash r inp by_url prs peers t))) =
     (if base_is_conflicted t (u_base_branch u) inp then u_base_branch u else [])"
  by (auto simp: entry_for_def Let_def split: prod.split)

text \<open>The unlock of a ticket in a derivation.\<close>

definition unlock_in :: "rules \<Rightarrow> derive_input \<Rightarrow> ticket \<Rightarrow> unlock" where
  "unlock_in r inp t =
     Unlocked t (tickets_by_url (di_tickets inp)) (prs_by_branch (di_tickets inp) (di_obs inp))
       (get_or False (ru_stacking r) (t_repo t))"

text \<open>What lets a derivation launch a ticket: a workflow step to go on with, or a first run the operator authorised.\<close>

definition continues :: "rules \<Rightarrow> derive_input \<Rightarrow> ticket \<Rightarrow> bool" where
  "continues r inp t =
     (has_key (di_runs inp) (t_url t)
      \<and> (let n = snd (next_for r t inp (lm_workflow (membership_of inp (t_url t))))
         in n_kind n = NextRun \<and> n_step n \<noteq> None))"

definition may_start :: "(string \<Rightarrow> string) \<Rightarrow> rules \<Rightarrow> derive_input \<Rightarrow> ticket \<Rightarrow> bool" where
  "may_start hash r inp t =
     (let m = membership_of inp (t_url t); u = unlock_in r inp t
      in \<not> has_key (di_runs inp) (t_url t) \<and> lm_launch_id m \<noteq> 0
         \<and> lm_prompt_hash m = hash (Compose (t\<lparr>t_launch_context := lm_context m, t_choice := lm_choice m\<rparr>))
         \<and> u_unlocked u \<and> (u_base_branch u = [] \<or> \<not> base_is_conflicted t (u_base_branch u) inp))"

lemma candidate_may_launch:
  assumes "eligible (fst (snd (row_of hash r inp t)))"
  shows "continues r inp t \<or> may_start hash r inp t"
proof (cases "lc_in_flight (fst (snd (row_of hash r inp t)))")
  case True
  then show ?thesis by (simp add: row_of_def Let_def candidate_for continues_def)
next
  case False
  with assms candidate_base [of "unlock_in r inp t" t "tickets_by_url (di_tickets inp)"
      "prs_by_branch (di_tickets inp) (di_obs inp)" r hash inp]
  have "may_start hash r inp t"
    by (auto simp: eligible_def row_of_def Let_def candidate_for may_start_def unlock_in_def split: if_splits)
  then show ?thesis by simp
qed

text \<open>C1: From stored facts to started agents: whatever was observed, what a derivation launches
  keeps the number of running agents within the cap, is empty while spending is paused, and
  holds only tickets whose workflow has a step to go on with, or that never ran, are in a launch the operator
  authorised for exactly the prompt they would be given now, are unlocked, and whose base carries no conflict.\<close>

theorem derived_launch_is_safe:
  "sn_running (Derive hash r inp) + n + int (length (launch_after (Derive hash r inp) n))
     \<le> max (ru_max_agents r) (sn_running (Derive hash r inp) + n)
   \<and> (spend_paused (di_five_hour_pct inp) (ru_spend_limit_5h r) \<longrightarrow> launch_after (Derive hash r inp) n = [])
   \<and> (\<forall>u \<in> set (launch_after (Derive hash r inp) n). \<exists>t \<in> set (di_tickets inp).
        t_url t = u \<and> (continues r inp t \<or> may_start hash r inp t))"
proof (intro conjI ballI)
  let ?s = "Derive hash r inp"
  show "sn_running ?s + n + int (length (launch_after ?s n)) \<le> max (ru_max_agents r) (sn_running ?s + n)"
    using launch_plan_length [of "sn_launch ?s" "sn_running ?s + n" "ru_max_agents r" "sn_spend_paused ?s"]
    by (simp add: launch_after_def Derive_simps(4))
  show "spend_paused (di_five_hour_pct inp) (ru_spend_limit_5h r) \<longrightarrow> launch_after ?s n = []"
    by (simp add: launch_after_def launch_plan_take Derive_simps(5))
  fix u
  assume "u \<in> set (launch_after ?s n)"
  then obtain c where c: "c \<in> set (sn_launch ?s)" "lc_url c = u" "eligible c"
    by (auto simp: launch_after_def launch_plan_take eligible_def split: if_splits dest!: in_set_takeD)
  then obtain t where t: "t \<in> set (di_tickets inp)" "c = fst (snd (row_of hash r inp t))"
    by (auto simp: Derive_simps)
  have "t_url t = u" using c(2) t(2) by (simp add: row_of_def Let_def candidate_for)
  with candidate_may_launch c(3) t
  show "\<exists>t \<in> set (di_tickets inp). t_url t = u \<and> (continues r inp t \<or> may_start hash r inp t)" by blast
qed

theorem derived_launch_is_safe_witness:
  "sn_running (Derive (\<lambda>p. p) sample_rules sample_input)
     + int (length (launch_after (Derive (\<lambda>p. p) sample_rules sample_input) 0))
     \<le> max 2 (sn_running (Derive (\<lambda>p. p) sample_rules sample_input))"
  using derived_launch_is_safe [of "\<lambda>p. p" sample_rules sample_input 0]
  by (simp add: sample_rules_def)

subsection \<open>The verdict on a pushed branch\<close>



subsection \<open>Holding one of two conflicting branches\<close>

text \<open>
  The state of \<open>hold_loop\<close>: only branches already passed are held, and for each of them the first
  unheld conflicting branch before it holds it.
\<close>

definition hold_inv :: "observation \<Rightarrow> ticket list \<Rightarrow> (ticket_url, string) gomap \<Rightarrow> bool" where
  "hold_inv ob before held =
     ((\<forall>u. has_key held u \<longrightarrow> u \<in> t_url ` set before)
      \<and> (\<forall>us t vs. before = us @ t # vs \<longrightarrow>
           map_of held (t_url t) = map_option t_branch (holding_peer ob held t us)))"

lemma hold_step:
  assumes inv: "hold_inv ob before held" and d: "distinct (map t_url (before @ [t]))"
  defines "held' \<equiv> (case holding_peer ob held t before of Some p \<Rightarrow> put (t_url t) (t_branch p) held | None \<Rightarrow> held)"
  shows "hold_inv ob (before @ [t]) held'"
proof -
  have fresh: "\<not> has_key held (t_url t)" using inv d by (auto simp: hold_inv_def)
  have keep: "u \<noteq> t_url t \<Longrightarrow> map_of held' u = map_of held u" for u
    by (simp add: held'_def update_conv split: option.split)
  have peer: "holding_peer ob held' x us = holding_peer ob held x us" if "set us \<subseteq> set before" for x us
    unfolding holding_peer_def
  proof (rule find_cong)
    fix p
    assume "p \<in> set us"
    then have "t_url p \<in> t_url ` set before" using that by auto
    then have "t_url p \<noteq> t_url t" using d by auto
    then show "(\<not> has_key held' (t_url p) \<and> conflicts ob (ticket_ref x) (ticket_ref p))
        = (\<not> has_key held (t_url p) \<and> conflicts ob (ticket_ref x) (ticket_ref p))"
      by (simp add: has_key_def keep)
  qed simp
  have "map_of held' (t_url x) = map_option t_branch (holding_peer ob held' x us)"
    if split: "before @ [t] = us @ x # vs" for us x vs
  proof (cases vs rule: rev_cases)
    case Nil
    with split have "us = before" "x = t" by auto
    then show ?thesis
      using fresh peer [of before t]
      by (auto simp: held'_def update_conv has_key_def split: option.splits)
  next
    case (snoc vs' y)
    with split have b: "before = us @ x # vs'" by auto
    have "map_of held (t_url x) = map_option t_branch (holding_peer ob held x us)"
      using inv b unfolding hold_inv_def by blast
    moreover have "t_url x \<noteq> t_url t" using b d by auto
    moreover have "set us \<subseteq> set before" using b by auto
    ultimately show ?thesis using peer [of us x] keep by simp
  qed
  moreover have "has_key held' u \<longrightarrow> u \<in> t_url ` set (before @ [t])" for u
    using inv by (auto simp: hold_inv_def held'_def split: option.splits)
  ultimately show ?thesis unfolding hold_inv_def by blast
qed

lemma hold_loop_inv:
  "hold_inv ob before held \<Longrightarrow> distinct (map t_url (before @ ts)) \<Longrightarrow> hold_inv ob (before @ ts) (hold_loop ob before ts held)"
proof (induction ts arbitrary: before held)
  case (Cons t ts)
  have "hold_inv ob (before @ [t])
      (case holding_peer ob held t before of Some p \<Rightarrow> put (t_url t) (t_branch p) held | None \<Rightarrow> held)"
    using Cons.prems by (intro hold_step) auto
  from Cons.IH [OF this] Cons.prems(2) show ?case by (simp split: option.split)
qed simp

lemma peer_candidates_distinct:
  "distinct (map t_url tickets) \<Longrightarrow> distinct (map t_url (peer_candidates r tickets by_url prs))"
  unfolding peer_candidates_def
  by (metis (no_types, lifting) distinct_map_filter mset_eq_imp_distinct_iff mset_map mset_sort_func)

text \<open>C25: Of two open branches on the main branch that conflict, exactly one proceeds: in the
  order of their references a branch is held exactly when one before it that is not held conflicts with it,
  and it is held by the first such; so the branches that proceed are free of conflicts with each
  other and every held branch conflicts with one of them.\<close>

theorem peers_held_exactly:
  assumes "distinct (map t_url tickets)"
    and "peer_candidates r tickets by_url prs = before @ t # after"
  shows "map_of (conflicting_peer_hold r tickets by_url prs ob) (t_url t) =
    map_option t_branch
      (find (\<lambda>p. \<not> has_key (conflicting_peer_hold r tickets by_url prs ob) (t_url p)
               \<and> conflicts ob (ticket_ref t) (ticket_ref p)) before)"
proof -
  have "hold_inv ob ([] @ peer_candidates r tickets by_url prs) (conflicting_peer_hold r tickets by_url prs ob)"
    unfolding conflicting_peer_hold_def
    by (rule hold_loop_inv) (simp_all add: hold_inv_def peer_candidates_distinct [OF assms(1)])
  with assms(2) show ?thesis by (simp add: hold_inv_def holding_peer_def)
qed

theorem peers_held_exactly_witness:
  "map_of (conflicting_peer_hold sample_rules [sample_ticket ''b'' ''cc-2-b'' [], sample_ticket ''a'' ''cc-1-a'' []] []
      [(''cc-1-a'', Open), (''cc-2-b'', Open)]
      ((new_observation 0)\<lparr>ob_conflicts_with_peer :=
         [(BranchRef ''r'' ''cc-2-b'', [(BranchRef ''r'' ''cc-1-a'', True)])]\<rparr>)) ''a'' = None"
proof -
  have n: "branch_number ''cc-1-a'' = Some 1" "branch_number ''cc-2-b'' = Some 2"
    by (simp_all add: branch_number_def cut_before_def atoi_def digit_value_def Let_def max_int_def min_int_def)
  let ?ts = "[sample_ticket ''b'' ''cc-2-b'' [], sample_ticket ''a'' ''cc-1-a'' []]"
  have "peer_candidates sample_rules ?ts [] [(''cc-1-a'', Open), (''cc-2-b'', Open)] =
      [] @ sample_ticket ''a'' ''cc-1-a'' [] # [sample_ticket ''b'' ''cc-2-b'' []]"
    by (simp add: peer_candidates_def sample_ticket_def sort_func_def compare_by_ref_def n int_compare_def)
  from peers_held_exactly [OF _ this] show ?thesis by (simp add: sample_ticket_def)
qed

subsection \<open>The order of branch references\<close>


subsection \<open>Pull requests by branch name\<close>

definition prs_key_last :: "ticket list \<Rightarrow> string \<Rightarrow> ticket option" where
  "prs_key_last tickets branch = find (\<lambda>t. t_branch t = branch) (rev tickets)"

lemma prs_by_branch_last:
  "map_of (prs_by_branch tickets ob) branch =
     map_option (\<lambda>t. pr_state (pr_of ob (ticket_ref t))) (prs_key_last tickets branch)"
proof -
  have "map_of (fold (\<lambda>t m. put (t_branch t) (pr_state (pr_of ob (ticket_ref t))) m) ts m) branch =
      (case find (\<lambda>t. t_branch t = branch) (rev ts) of
         Some t \<Rightarrow> Some (pr_state (pr_of ob (ticket_ref t))) | None \<Rightarrow> map_of m branch)" for ts m
    by (induction ts rule: rev_induct) (auto simp: update_conv)
  then show ?thesis
    by (simp add: prs_by_branch_def prs_key_last_def split: option.split)
qed


subsection \<open>Transitions are reported once\<close>

lemma verdict_transition_current:
  "verdict_transition r t inp = Some (tr, current) \<Longrightarrow>
     get_or [] (di_last_verdicts inp) (t_url t) \<noteq> current \<and> tr_kind tr = TransitionVerdict"
  by (auto simp: verdict_transition_def Let_def split: if_splits option.splits)

text \<open>The verdict of a ticket depends on the stored verdicts only to compare.\<close>

lemma verdict_transition_stored:
  "verdict_transition r t (inp\<lparr>di_last_verdicts := lv\<rparr>) =
     (case verdict_transition r t (inp\<lparr>di_last_verdicts := []\<rparr>) of
        None \<Rightarrow> None
      | Some (tr, current) \<Rightarrow> if get_or [] lv (t_url t) = current then None else Some (tr, current))"
  by (auto simp: verdict_transition_def Let_def split: option.split)

lemma verdict_transition_ignores [simp]:
  "verdict_transition r t (inp\<lparr>di_prev := p\<rparr>) = verdict_transition r t inp"
  "verdict_transition r t (inp\<lparr>di_recorded := rec\<rparr>) = verdict_transition r t inp"
  by (simp_all add: verdict_transition_def Let_def split: option.split)

lemma stored_verdicts:
  "distinct (map t_url ts) \<Longrightarrow> map_of (snd (fold (ticket_transitions r inp) ts (out, vs))) u =
     (case find (\<lambda>t. t_url t = u) ts of
        None \<Rightarrow> map_of vs u
      | Some t \<Rightarrow> (case verdict_transition r t inp of None \<Rightarrow> map_of vs u | Some (tr, c) \<Rightarrow> Some c))"
proof (induction ts arbitrary: out vs)
  case (Cons x ts)
  have none: "t_url x = u \<Longrightarrow> find (\<lambda>t. t_url t = u) ts = None"
    using Cons.prems by (auto simp: find_None_iff) (metis imageI)
  obtain out' vs' where step: "ticket_transitions r inp x (out, vs) = (out', vs')"
    by (cases "ticket_transitions r inp x (out, vs)")
  then have "vs' = (case verdict_transition r x inp of None \<Rightarrow> vs | Some (tr, c) \<Rightarrow> put (t_url x) c vs)"
    by (auto simp: ticket_transitions_def Let_def split: option.splits)
  with step none Cons show ?case
    by (auto simp: update_conv split: option.splits)
qed simp

lemma verdict_settled:
  assumes "distinct (map t_url (di_tickets inp))" and "t \<in> set (di_tickets inp)"
  shows "verdict_transition r t (inp\<lparr>di_last_verdicts := snd (transitions r inp)\<rparr>) = None"
proof -
  obtain x where x: "find (\<lambda>x. t_url x = t_url t) (di_tickets inp) = Some x"
    using assms(2) by (metis (mono_tags, lifting) find_None_iff option.exhaust)
  with find_SomeD [OF x] assms have "x = t" by (auto simp: distinct_map inj_on_def)
  with x stored_verdicts [OF assms(1), of r inp "[]" "di_last_verdicts inp" "t_url t"]
  have stored: "get_or [] (snd (transitions r inp)) (t_url t) =
      (case verdict_transition r t inp of None \<Rightarrow> get_or [] (di_last_verdicts inp) (t_url t) | Some (tr, c) \<Rightarrow> c)"
    by (simp add: transitions_def get_or_def split: option.split)
  have now: "verdict_transition r t inp =
      (case verdict_transition r t (inp\<lparr>di_last_verdicts := []\<rparr>) of
        None \<Rightarrow> None
      | Some (tr, current) \<Rightarrow> if get_or [] (di_last_verdicts inp) (t_url t) = current then None else Some (tr, current))"
    using verdict_transition_stored [where inp = inp and lv = "di_last_verdicts inp"] by simp
  show ?thesis
    using stored now
    by (subst verdict_transition_stored) (auto split: option.splits if_splits)
qed

lemma fold_transitions_empty:
  "\<forall>t \<in> set ts. opened_transition t inp = [] \<and> checks_landed_transitions t inp = []
      \<and> verdict_transition r t inp = None \<and> merged_transition t inp = [] \<Longrightarrow>
   fold (ticket_transitions r inp) ts acc = acc"
  by (induction ts) (auto simp: ticket_transitions_def split: prod.split)

lemma map_filter_None: "(\<And>x. x \<in> set xs \<Longrightarrow> f x = None) \<Longrightarrow> List.map_filter f xs = []"
  by (induction xs) (auto simp: List.map_filter_simps)



end
