(* ===== verification/Gates.thy ===== *)
theory Gates imports Derive begin

text \<open>
  \<open>gates.go\<close> and the snapshot's part of \<open>preview.go\<close>: what the daemon may do to a ticket's branch
  on the strength of a snapshot - push it, refresh it onto its base, retarget its pull request,
  remove its worktree - and which repositories it leaves alone.
\<close>

subsection \<open>Intents, removals, sessions\<close>

definition no_removal :: removal where
  "no_removal = \<lparr>rm_refusal = [], rm_proven_tips = []\<rparr>"

definition removal_of :: "snapshot \<Rightarrow> ticket_url \<Rightarrow> removal" where
  "removal_of s url = get_or no_removal (sn_removals s) url"

definition session_of :: "snapshot \<Rightarrow> ticket_url \<Rightarrow> string option" where
  "session_of s url = map_of (sn_sessions s) url"

definition compare_intents :: "intent \<Rightarrow> intent \<Rightarrow> int" where
  "compare_intents a b = int_compare (it_id a) (it_id b)"

interpretation intent_order: comparator compare_intents
  unfolding compare_intents_def by (rule int_order.comparator_key)

definition Intents :: "snapshot \<Rightarrow> verb \<Rightarrow> intent list" where
  "Intents s v = sort_func compare_intents (filter (\<lambda>i. it_verb i = v) (concat (map snd (sn_intents s))))"

subsection \<open>Pushing\<close>

record push =
  ps_ticket :: ticket_url
  ps_local_tip :: sha
  ps_force :: bool
  ps_opens_as_draft :: bool
  ps_body :: string

definition Push :: "snapshot \<Rightarrow> ticket_url \<Rightarrow> observation \<Rightarrow> push option" where
  "Push s url ob =
     (case entry_of s url of
        None \<Rightarrow> None
      | Some e \<Rightarrow>
          if \<not> u_unlocked (e_unlock e) then None
          else
            let tip = get_or [] (ob_local_tips ob) (ticket_ref (e_ticket e))
            in if tip = [] then None
               else
                 let base = BranchRef (t_repo (e_ticket e)) (u_base_branch (e_unlock e))
                 in Some \<lparr>ps_ticket = url, ps_local_tip = tip, ps_force = e_restacked e,
                          ps_opens_as_draft = e_opens_as_draft e,
                          ps_body = pr_body (ref_branch base) (pr_number (pr_of ob base))\<rparr>)"

definition pushable_entry :: "snapshot \<Rightarrow> observation \<Rightarrow> entry \<Rightarrow> push option" where
  "pushable_entry s ob e =
     (case e_run e of
        None \<Rightarrow> None
      | Some run \<Rightarrow>
          if rf_outcome run \<noteq> Some OutcomePush \<or> get_or False (ob_runs ob) (t_url (e_ticket e)) then None
          else if rf_push_failed run \<or> rf_push_refused run \<or> rf_verification_failed run then None
          else (case Push s (t_url (e_ticket e)) ob of
                  None \<Rightarrow> None
                | Some p \<Rightarrow>
                    if (case e_last_push e of None \<Rightarrow> False | Some row \<Rightarrow> pw_pushed_tip row = ps_local_tip p) then None
                    else Some p))"

definition Pushable :: "snapshot \<Rightarrow> observation \<Rightarrow> push list" where
  "Pushable s ob = List.map_filter (pushable_entry s ob) (sn_entries s)"

subsection \<open>Retargeting and refreshing\<close>

record retarget =
  rt_ticket :: ticket_url
  rt_row :: push_row

record refresh =
  rq_ticket :: ticket_url
  rq_row :: push_row
  rq_requested :: bool

definition retarget_entry :: "snapshot \<Rightarrow> entry \<Rightarrow> retarget option" where
  "retarget_entry s e =
     (case e_last_push e of
        None \<Rightarrow> None
      | Some row \<Rightarrow>
          if holds_worktree e then None
          else if pw_base_branch row = [] \<or> pw_base_branch row = default_base_branch then None
          else if pr_state (pr_of (sn_obs s) (ticket_ref (e_ticket e))) = Open
             \<and> pr_state (pr_of (sn_obs s) (BranchRef (t_repo (e_ticket e)) (pw_base_branch row))) = Merged
          then Some \<lparr>rt_ticket = t_url (e_ticket e), rt_row = row\<rparr>
          else None)"

definition Retargets :: "snapshot \<Rightarrow> retarget list" where
  "Retargets s = List.map_filter (retarget_entry s) (sn_entries s)"

definition auto_refreshable :: "snapshot \<Rightarrow> entry \<Rightarrow> bool" where
  "auto_refreshable s e =
     (let t = e_ticket e
      in if (case e_run e of None \<Rightarrow> True | Some run \<Rightarrow> rf_outcome run \<noteq> Some OutcomePush) then False
         else if pr_state (pr_of (sn_obs s) (ticket_ref t)) \<noteq> Open then False
         else (case e_last_push e of
                 None \<Rightarrow> False
               | Some row \<Rightarrow>
                   let base_tip = get_or [] (ob_branch_tips (sn_obs s)) (BranchRef (t_repo t) (pw_base_branch row))
                   in if pw_base_branch row = [] \<or> base_tip = pw_base_sha_at_push row then False
                      else
                        let f = get_or no_refresh_fact (sn_refreshes s) (t_url t)
                        in if \<not> rr_tried f then True
                           else (case rr_conflict f of
                                   None \<Rightarrow> False
                                 | Some at \<Rightarrow>
                                     get_or [] (ob_branch_tips (sn_obs s)) (ticket_ref t) \<noteq> ca_branch_tip at
                                     \<or> base_tip \<noteq> ca_base_tip at)))"

text \<open>The loop over the intents, with the set \<open>requested\<close> and the refreshes so far.\<close>

fun requested_loop :: "snapshot \<Rightarrow> intent list \<Rightarrow> ticket_url list \<Rightarrow> refresh list \<Rightarrow> ticket_url list \<times> refresh list" where
  "requested_loop s [] requested out = (requested, out)"
| "requested_loop s (i # is) requested out =
     (case entry_of s (it_ticket i) of
        None \<Rightarrow> requested_loop s is requested out
      | Some e \<Rightarrow>
          if it_ticket i \<in> set requested then requested_loop s is requested out
          else requested_loop s is (it_ticket i # requested)
                 (out @ [\<lparr>rq_ticket = it_ticket i,
                          rq_row = (case e_last_push e of None \<Rightarrow> no_push_row | Some row \<Rightarrow> row), rq_requested = True\<rparr>]))"

definition Refreshes :: "snapshot \<Rightarrow> refresh list" where
  "Refreshes s =
     (let (requested, out) = requested_loop s (Intents s VerbRefresh) [] []
      in out @ map (\<lambda>e. \<lparr>rq_ticket = t_url (e_ticket e), rq_row = the (e_last_push e), rq_requested = False\<rparr>)
           (filter (\<lambda>e. t_url (e_ticket e) \<notin> set requested \<and> auto_refreshable s e) (sn_entries s)))"

subsection \<open>Repositories\<close>

definition skipped_repos :: "snapshot \<Rightarrow> (string, bool) gomap" where
  "skipped_repos s =
     (let m = fold (\<lambda>r m. if st_phase r \<noteq> RepoReady then put (st_name r) True m else m) (sn_repos s) [];
          m = fold (\<lambda>(repo, _) m. put repo True m) (ob_settings_errors (sn_obs s)) m
      in fold (\<lambda>(repo, _) m. put repo True m) (ob_repo_errors (sn_obs s)) m)"

definition repo_problems :: "snapshot \<Rightarrow> string list" where
  "repo_problems s =
     sort_func str_compare
       (map (\<lambda>(repo, rsn). ''settings for '' @ repo @ '': '' @ rsn) (ob_settings_errors (sn_obs s))
        @ map (\<lambda>(repo, rsn). ''observe '' @ repo @ '': '' @ rsn) (ob_repo_errors (sn_obs s))
        @ map (\<lambda>r. st_name r @ '' refused ('' @ refusal_kind_text (st_refusal_kind r) @ ''): '' @ st_refusal r)
            (filter (\<lambda>r. st_phase r = RepoRefused \<and> st_refusal_kind r \<noteq> RefusalSettingsParse) (sn_repos s)))"

subsection \<open>The preview of a launch\<close>

record preview_row =
  pv_ticket :: ticket
  pv_label :: preview_label
  pv_reason :: reason
  pv_base :: string
  pv_base_run :: "run_fact option"
  pv_prompt :: string
  pv_prompt_hash :: string

definition base_run :: "snapshot \<Rightarrow> string \<Rightarrow> run_fact option" where
  "base_run s base =
     (if base = default_base_branch then None
      else (case find (\<lambda>e. t_branch (e_ticket e) = base) (sn_entries s) of None \<Rightarrow> None | Some e \<Rightarrow> e_run e))"

text \<open>The first ticket of a selection that has no row, or the rows.\<close>

fun selected_entries :: "snapshot \<Rightarrow> ticket_url list \<Rightarrow> ticket_url + entry list" where
  "selected_entries s [] = Inr []"
| "selected_entries s (u # us) =
     (case entry_of s u of
        None \<Rightarrow> Inl u
      | Some e \<Rightarrow> (case selected_entries s us of Inl x \<Rightarrow> Inl x | Inr es \<Rightarrow> Inr (e # es)))"

definition snapshot_preview :: "(string \<Rightarrow> string) \<Rightarrow> snapshot \<Rightarrow> ticket_url list \<Rightarrow> string \<Rightarrow> ticket_url + preview_row list" where
  "snapshot_preview hash s selection launch_context =
     (case selected_entries s selection of
        Inl u \<Rightarrow> Inl u
      | Inr es \<Rightarrow>
          let slice = map (\<lambda>u. (u, True)) selection
          in Inr (map (\<lambda>e.
               let (label, rsn) = Preview (e_unlock e) slice (e_launch_id e) (e_conflicted_base e);
                   prompt = Compose ((e_ticket e)\<lparr>t_launch_context := launch_context\<rparr>)
               in \<lparr>pv_ticket = e_ticket e, pv_label = label, pv_reason = rsn, pv_base = e_base e,
                   pv_base_run = base_run s (e_base e), pv_prompt = prompt, pv_prompt_hash = hash prompt\<rparr>) es))"

subsection \<open>Properties\<close>

text \<open>The intents of a verb are taken in the order they were recorded, whatever order the map of
  tickets is ranged over: any two iteration orders of the same intents, whose numbers differ, give the same list.\<close>

theorem intents_in_order:
  assumes "mset (sn_intents s) = mset (sn_intents s')"
    and "distinct (map it_id (concat (map snd (sn_intents s))))"
  shows "Intents s v = Intents s' v \<and> sorted (map it_id (Intents s v))"
proof
  let ?all = "concat (map snd (sn_intents s))" and ?all' = "concat (map snd (sn_intents s'))"
  have "mset (concat xs) = \<Sum>\<^sub># (image_mset mset (mset xs))" for xs :: "intent list list"
    by (induction xs) auto
  then have all: "mset ?all = mset ?all'" using assms(1) by (simp add: image_mset.compositionality [symmetric])
  show "Intents s v = Intents s' v"
    unfolding Intents_def
  proof (rule intent_order.sort_func_perm)
    show "mset (filter (\<lambda>i. it_verb i = v) ?all) = mset (filter (\<lambda>i. it_verb i = v) ?all')"
      using all by simp
  next
    fix x y
    assume "x \<in> set (filter (\<lambda>i. it_verb i = v) ?all)" "y \<in> set (filter (\<lambda>i. it_verb i = v) ?all)"
      and "compare_intents x y = 0"
    with assms(2) show "x = y"
      by (auto simp: compare_intents_def int_compare_def distinct_map inj_on_def split: if_splits)
  qed
  have "sorted_wrt (\<lambda>a b. compare_intents a b \<le> 0) (Intents s v)"
    unfolding Intents_def by (rule intent_order.sorted_sort_func)
  then show "sorted (map it_id (Intents s v))"
    by (simp add: sorted_wrt_map compare_intents_def int_compare_def)
      (erule sorted_wrt_mono_rel [rotated], auto split: if_splits)
qed

theorem intents_in_order_witness:
  "map it_id (Intents ((Derive (\<lambda>p. p) sample_rules sample_input)\<lparr>sn_intents :=
      [(''u'', [\<lparr>it_id = 2, it_ticket = ''u'', it_verb = VerbRefresh, it_payload = []\<rparr>]),
       (''t'', [\<lparr>it_id = 1, it_ticket = ''t'', it_verb = VerbRefresh, it_payload = []\<rparr>])]\<rparr>) VerbRefresh) = [1, 2]"
proof -
  let ?a = "(''u'', [\<lparr>it_id = 2, it_ticket = ''u'', it_verb = VerbRefresh, it_payload = []\<rparr>])"
  let ?b = "(''t'', [\<lparr>it_id = 1, it_ticket = ''t'', it_verb = VerbRefresh, it_payload = []\<rparr>])"
  let ?s = "Derive (\<lambda>p. p) sample_rules sample_input"
  have "Intents (?s\<lparr>sn_intents := [?a, ?b]\<rparr>) VerbRefresh = Intents (?s\<lparr>sn_intents := [?b, ?a]\<rparr>) VerbRefresh"
    using intents_in_order [of "?s\<lparr>sn_intents := [?a, ?b]\<rparr>" "?s\<lparr>sn_intents := [?b, ?a]\<rparr>" VerbRefresh] by simp
  then show ?thesis
    by (simp add: Intents_def sort_func_def compare_intents_def int_compare_def)
qed

lemma map_filter_in: "y \<in> set (List.map_filter f xs) \<longleftrightarrow> (\<exists>x \<in> set xs. f x = Some y)"
  by (induction xs) (auto simp: List.map_filter_simps split: option.split)

lemma row_facts:
  "e_unlock (fst (row_of hash r inp t)) = unlock_in r inp t"
  "e_last_push (fst (row_of hash r inp t)) = map_of (vf_push_rows (di_verdict inp)) (t_url t)"
  "e_restacked (fst (row_of hash r inp t)) = get_or False (di_restacked inp) (t_url t)"
  "ticket_ref (e_ticket (fst (row_of hash r inp t))) = ticket_ref t"
  by (simp_all add: row_of_def Let_def entry_for_def unlock_in_def ticket_ref_def split: prod.split)

lemma Derive_entry:
  assumes "distinct (map t_url (di_tickets inp))" and "t \<in> set (di_tickets inp)"
  shows "entry_of (Derive hash r inp) (t_url t) = Some (fst (row_of hash r inp t))"
proof -
  let ?s = "Derive hash r inp"
  note look = well_indexed_lookup [OF Derive_indexed, of hash r inp "t_url t"]
  obtain e where e: "entry_of ?s (t_url t) = Some e"
    using look(2) assms(2) by (auto simp: Derive_simps not_None_eq [symmetric] simp del: not_None_eq)
  from look(1) [OF e] obtain t' where "t' \<in> set (di_tickets inp)" "e = fst (row_of hash r inp t')" "t_url t' = t_url t"
    by (auto simp: Derive_simps)
  with assms e show ?thesis by (auto simp: distinct_map inj_on_def)
qed



text \<open>What an automatic refresh needs, without the loop.\<close>

lemma auto_refreshable_iff:
  "auto_refreshable s e \<longleftrightarrow>
     (\<exists>run row. e_run e = Some run \<and> rf_outcome run = Some OutcomePush
        \<and> pr_state (pr_of (sn_obs s) (ticket_ref (e_ticket e))) = Open \<and> e_last_push e = Some row
        \<and> pw_base_branch row \<noteq> []
        \<and> get_or [] (ob_branch_tips (sn_obs s)) (BranchRef (t_repo (e_ticket e)) (pw_base_branch row)) \<noteq> pw_base_sha_at_push row
        \<and> (let f = get_or no_refresh_fact (sn_refreshes s) (t_url (e_ticket e))
           in rr_tried f \<longrightarrow> (\<exists>at. rr_conflict f = Some at \<and>
                (get_or [] (ob_branch_tips (sn_obs s)) (ticket_ref (e_ticket e)) \<noteq> ca_branch_tip at
                 \<or> get_or [] (ob_branch_tips (sn_obs s)) (BranchRef (t_repo (e_ticket e)) (pw_base_branch row))
                     \<noteq> ca_base_tip at))))"
  by (auto simp: auto_refreshable_def Let_def split: option.splits if_splits)

text \<open>A refresh that ended in a conflict is not tried again by itself until one of the two
  branches moved: with the tips of branch and base as they were at the conflict, the ticket is not refreshed automatically,
  and neither is one whose refresh was tried and left no conflict.\<close>

theorem conflicted_refresh_waits:
  assumes "rr_tried (get_or no_refresh_fact (sn_refreshes s) (t_url (e_ticket e)))"
    and "\<And>at row. rr_conflict (get_or no_refresh_fact (sn_refreshes s) (t_url (e_ticket e))) = Some at \<Longrightarrow>
       e_last_push e = Some row \<Longrightarrow>
       get_or [] (ob_branch_tips (sn_obs s)) (ticket_ref (e_ticket e)) = ca_branch_tip at
       \<and> get_or [] (ob_branch_tips (sn_obs s)) (BranchRef (t_repo (e_ticket e)) (pw_base_branch row)) = ca_base_tip at"
  shows "\<not> auto_refreshable s e"
proof
  assume "auto_refreshable s e"
  with assms(1) obtain row at where "e_last_push e = Some row"
    "rr_conflict (get_or no_refresh_fact (sn_refreshes s) (t_url (e_ticket e))) = Some at"
    "get_or [] (ob_branch_tips (sn_obs s)) (ticket_ref (e_ticket e)) \<noteq> ca_branch_tip at
     \<or> get_or [] (ob_branch_tips (sn_obs s)) (BranchRef (t_repo (e_ticket e)) (pw_base_branch row)) \<noteq> ca_base_tip at"
    unfolding auto_refreshable_iff Let_def by blast
  with assms(2) show False by blast
qed

theorem conflicted_refresh_waits_witness:
  "\<not> auto_refreshable ((Derive (\<lambda>p. p) sample_rules sample_input)\<lparr>sn_refreshes :=
      [(''t'', no_refresh_fact\<lparr>rr_tried := True\<rparr>)]\<rparr>) (fst (row_of (\<lambda>p. p) sample_rules sample_input (sample_ticket ''t'' ''cc-1-t'' [])))"
  by (rule conflicted_refresh_waits) (simp_all add: sample_ticket_def no_refresh_fact_def)

lemma requested_loop_tickets:
  "set (fst (requested_loop s is req out)) = set req \<union> {u \<in> it_ticket ` set is. entry_of s u \<noteq> None}"
  by (induction "is" arbitrary: req out) (auto split: option.split)

lemma requested_loop_facts:
  assumes "distinct (map rq_ticket out)" and "set req = rq_ticket ` set out" and "\<forall>x \<in> set out. rq_requested x"
  shows "distinct (map rq_ticket (snd (requested_loop s is req out)))
    \<and> set (fst (requested_loop s is req out)) = rq_ticket ` set (snd (requested_loop s is req out))
    \<and> (\<forall>x \<in> set (snd (requested_loop s is req out)). rq_requested x)"
  using assms
proof (induction "is" arbitrary: req out)
  case Nil
  then show ?case by simp
next
  case (Cons i "is")
  show ?case
  proof (cases "entry_of s (it_ticket i)")
    case None
    with Cons.IH [OF Cons.prems] show ?thesis by simp
  next
    case (Some e)
    show ?thesis
    proof (cases "it_ticket i \<in> set req")
      case True
      with Some Cons.IH [OF Cons.prems] show ?thesis by simp
    next
      case False
      let ?out = "out @ [\<lparr>rq_ticket = it_ticket i,
         rq_row = (case e_last_push e of None \<Rightarrow> no_push_row | Some row \<Rightarrow> row), rq_requested = True\<rparr>]"
      have "distinct (map rq_ticket ?out)" "set (it_ticket i # req) = rq_ticket ` set ?out" "\<forall>x \<in> set ?out. rq_requested x"
        using Cons.prems False by auto
      from Cons.IH [OF this] Some False show ?thesis by simp
    qed
  qed
qed

text \<open>A ticket is refreshed at most once per round, and the operator's wish comes first: the
  refreshes name distinct tickets, every known ticket with a refresh intent is refreshed as requested, and an
  automatic refresh is only of a ticket without one.\<close>

theorem refreshes_once:
  assumes "distinct (map (\<lambda>e. t_url (e_ticket e)) (sn_entries s))"
  shows "distinct (map rq_ticket (Refreshes s))
    \<and> {rq_ticket x | x. x \<in> set (Refreshes s) \<and> rq_requested x}
        = {it_ticket i | i. i \<in> set (Intents s VerbRefresh) \<and> entry_of s (it_ticket i) \<noteq> None}
    \<and> (\<forall>x \<in> set (Refreshes s). \<not> rq_requested x \<longrightarrow>
         (\<exists>e \<in> set (sn_entries s). rq_ticket x = t_url (e_ticket e) \<and> auto_refreshable s e))"
proof -
  obtain req out where r: "requested_loop s (Intents s VerbRefresh) [] [] = (req, out)"
    by (cases "requested_loop s (Intents s VerbRefresh) [] []")
  have facts: "distinct (map rq_ticket out)" "set req = rq_ticket ` set out" "\<forall>x \<in> set out. rq_requested x"
    "set req = {it_ticket i | i. i \<in> set (Intents s VerbRefresh) \<and> entry_of s (it_ticket i) \<noteq> None}"
    using requested_loop_facts [of "[]" "[]" s "Intents s VerbRefresh"]
      requested_loop_tickets [of s "Intents s VerbRefresh" "[]" "[]"] r by auto
  let ?auto = "filter (\<lambda>e. t_url (e_ticket e) \<notin> set req \<and> auto_refreshable s e) (sn_entries s)"
  let ?mk = "\<lambda>e. \<lparr>rq_ticket = t_url (e_ticket e), rq_row = the (e_last_push e), rq_requested = False\<rparr>"
  have eq: "Refreshes s = out @ map ?mk ?auto" by (simp add: Refreshes_def r)
  have "distinct (map (\<lambda>e. t_url (e_ticket e)) ?auto)" using assms by (rule distinct_map_filter)
  then have "distinct (map rq_ticket (Refreshes s))"
    using facts(1,2) by (auto simp: eq comp_def) (metis imageI)
  moreover have "{rq_ticket x | x. x \<in> set (Refreshes s) \<and> rq_requested x} = set req"
    using facts(2,3) by (auto simp: eq)
  moreover have "\<forall>x \<in> set (Refreshes s). \<not> rq_requested x \<longrightarrow>
         (\<exists>e \<in> set (sn_entries s). rq_ticket x = t_url (e_ticket e) \<and> auto_refreshable s e)"
    using facts(3) by (auto simp: eq)
  ultimately show ?thesis using facts(4) by simp
qed

theorem refreshes_once_witness:
  "distinct (map rq_ticket (Refreshes (Derive (\<lambda>p. p) sample_rules sample_input)))"
  using refreshes_once [of "Derive (\<lambda>p. p) sample_rules sample_input"]
  by (simp add: Derive_simps sample_input_def)

text \<open>A worktree is given up only when nothing is lost: no refusal stands against removing it exactly
  when its agent is not waiting for an answer and its ticket's pull request merged, or it ran and the blocker it was cut from was closed.\<close>

theorem removal_allowed_exactly:
  "rm_refusal (removal_for e p) = [] \<longleftrightarrow>
     \<not> holds_worktree e \<and> (pr_state p = Merged \<or> e_run e \<noteq> None \<and> u_blocker_closed (e_unlock e))"
  by (auto simp: removal_for_def Let_def held_worktree_refusal_def)

end
