(* ===== verification/Command.thy ===== *)
theory Command imports Go_Strings begin

text \<open>
  The command runner of \<open>internal/adapter/command/command.go\<close> and what the adapters need of the
  machine around it.

  External programs (git, gh, tp, ps) and the file system are not code of the repository: they are
  the fields of a \<open>host\<close> record, functions of a world \<open>'w\<close> the model never looks into. An operation of
  an adapter is a function of the host and the world that returns an error or a value, and the world
  after it. An error keeps the chain that \<open>fmt.Errorf\<close> with the \<open>%w\<close> verb builds, so that \<open>errors.As\<close>
  and \<open>errors.Is\<close> are functions of it. The context and its cancellation show only as the answer of
  the host: a process that ran into its deadline reports so.
\<close>

subsection \<open>Errors\<close>

datatype proc_err = Exited int | Proc_failed string

datatype io_error =
    Cmd_error (ce_cmd: string) (ce_dir: string) (ce_stderr: string) (ce_err: proc_err)
  | Not_exist string
  | Os_error string
  | Plain string
  | Sentinel string
  | Pg_error (pe_code: string) (pe_constraint: string) (pe_message: string)
  | Feature_conflict (fc_url: string) (fc_existing: string) (fc_importing: string)
  | Feature_closure (fl_feature: string) (fl_url: string) (fl_blocker: string) (fl_blocker_feature: string)
  | Status_error (se_status: int) (se_error: io_error)
  | Invalid_error (iv_error: io_error)
  | Wrapped string io_error
  | Joined io_error io_error

text \<open>
  \<open>errors.As\<close>: the first error of the tree that the test accepts. The error under all wrapping is
  the one \<open>errors.Is\<close> compares when nothing is joined.
\<close>

fun as_error :: "(io_error \<Rightarrow> 'a option) \<Rightarrow> io_error \<Rightarrow> 'a option" where
  "as_error f (Wrapped s e) = (case f (Wrapped s e) of Some a \<Rightarrow> Some a | None \<Rightarrow> as_error f e)"
| "as_error f (Status_error n e) = (case f (Status_error n e) of Some a \<Rightarrow> Some a | None \<Rightarrow> as_error f e)"
| "as_error f (Invalid_error e) = (case f (Invalid_error e) of Some a \<Rightarrow> Some a | None \<Rightarrow> as_error f e)"
| "as_error f (Joined d e) =
     (case f (Joined d e) of
        Some a \<Rightarrow> Some a
      | None \<Rightarrow> (case as_error f d of Some a \<Rightarrow> Some a | None \<Rightarrow> as_error f e))"
| "as_error f e = f e"

fun root_error :: "io_error \<Rightarrow> io_error" where
  "root_error (Wrapped _ e) = root_error e"
| "root_error (Status_error _ e) = root_error e"
| "root_error (Invalid_error e) = root_error e"
| "root_error e = e"

text \<open>\<open>errors.As(err, &exitErr)\<close> followed by \<open>ExitCode\<close>; \<open>errors.Is\<close> of \<open>os.ErrNotExist\<close> and of the
  sentinels of the packages.\<close>

definition exit_code :: "io_error \<Rightarrow> int option" where
  "exit_code = as_error (\<lambda>e. case e of Cmd_error _ _ _ (Exited n) \<Rightarrow> Some n | _ \<Rightarrow> None)"

definition is_not_exist :: "io_error \<Rightarrow> bool" where
  "is_not_exist e = (as_error (\<lambda>e. case e of Not_exist _ \<Rightarrow> Some () | _ \<Rightarrow> None) e \<noteq> None)"

definition is_sentinel :: "string \<Rightarrow> io_error \<Rightarrow> bool" where
  "is_sentinel s e = (as_error (\<lambda>e. if e = Sentinel s then Some () else None) e \<noteq> None)"

definition proc_text :: "proc_err \<Rightarrow> string" where
  "proc_text e = (case e of Exited n \<Rightarrow> ''exit status '' @ itoa n | Proc_failed s \<Rightarrow> s)"

fun error_text :: "io_error \<Rightarrow> string" where
  "error_text (Cmd_error cmd dir stderr err) =
     cmd @ (if dir \<noteq> [] then '' in '' @ dir else []) @ '': '' @ proc_text err @ '': '' @ stderr"
| "error_text (Not_exist s) = s"
| "error_text (Os_error s) = s"
| "error_text (Plain s) = s"
| "error_text (Sentinel s) = s"
| "error_text (Pg_error code constraint message) = message"
| "error_text (Feature_conflict url existing importing) =
     ''ticket '' @ url @ '' already belongs to feature '' @ quoted existing @ '', refusing to import it into ''
     @ quoted importing"
| "error_text (Feature_closure feature url blocker blocker_feature) =
     (if blocker_feature = [] then
        ''ticket '' @ url @ '' is blocked by '' @ blocker @ '', which is not in feature '' @ quoted feature
        @ '' or any other, refusing to import it''
      else ''ticket '' @ url @ '' is blocked by '' @ blocker @ '', which belongs to feature '' @ quoted blocker_feature
        @ '', not '' @ quoted feature)"
| "error_text (Status_error n e) = error_text e"
| "error_text (Invalid_error e) = error_text e"
| "error_text (Wrapped s e) = s @ '': '' @ error_text e"
| "error_text (Joined d e) = error_text d @ newline # error_text e"

subsection \<open>Operations that return an error or a value\<close>

type_synonym ('w, 'a) io = "'w \<Rightarrow> (io_error + 'a) \<times> 'w"

definition ret :: "'a \<Rightarrow> ('w, 'a) io" where
  "ret a w = (Inr a, w)"

definition fail_with :: "io_error \<Rightarrow> ('w, 'a) io" where
  "fail_with e w = (Inl e, w)"

definition and_then :: "('w, 'a) io \<Rightarrow> ('a \<Rightarrow> ('w, 'b) io) \<Rightarrow> ('w, 'b) io" where
  "and_then m f w = (case m w of (Inl e, w') \<Rightarrow> (Inl e, w') | (Inr a, w') \<Rightarrow> f a w')"

text \<open>\<open>if err != nil { return fmt.Errorf("s: %w", err) }\<close>.\<close>

definition wrapping :: "string \<Rightarrow> ('w, 'a) io \<Rightarrow> ('w, 'a) io" where
  "wrapping s m w = (case m w of (Inl e, w') \<Rightarrow> (Inl (Wrapped s e), w') | r \<Rightarrow> r)"

lemma ret_simp [simp]: "ret a w = (Inr a, w)"
  by (simp add: ret_def)

lemma fail_with_simp [simp]: "fail_with e w = (Inl e, w)"
  by (simp add: fail_with_def)

lemma exit_code_Wrapped [simp]: "exit_code (Wrapped s e) = exit_code e"
  by (simp add: exit_code_def)

lemma is_not_exist_Wrapped [simp]: "is_not_exist (Wrapped s e) = is_not_exist e"
  by (simp add: is_not_exist_def)

lemma exit_code_Cmd [simp]:
  "exit_code (Cmd_error c d s p) = (case p of Exited n \<Rightarrow> Some n | Proc_failed _ \<Rightarrow> None)"
  by (simp add: exit_code_def)

lemma wrapping_Inr [simp]: "wrapping s m w = (Inr a, w') \<longleftrightarrow> m w = (Inr a, w')"
  by (auto simp: wrapping_def split: prod.splits sum.splits)

lemma wrapping_exit:
  "wrapping s m w = (Inl e, w') \<longleftrightarrow> (\<exists>e'. m w = (Inl e', w') \<and> e = Wrapped s e')"
  by (auto simp: wrapping_def split: prod.splits sum.splits)

lemma and_then_Inr:
  "and_then m f w = (Inr b, w') \<longleftrightarrow> (\<exists>a w1. m w = (Inr a, w1) \<and> f a w1 = (Inr b, w'))"
  by (auto simp: and_then_def split: prod.splits sum.splits)

lemma and_then_Inl:
  "and_then m f w = (Inl e, w') \<longleftrightarrow>
     m w = (Inl e, w') \<or> (\<exists>a w1. m w = (Inr a, w1) \<and> f a w1 = (Inl e, w'))"
  by (auto simp: and_then_def split: prod.splits sum.splits)

text \<open>What holds of the result of an operation whenever it succeeds, and how it follows from its parts.\<close>

definition ensures :: "('a \<Rightarrow> bool) \<Rightarrow> ('w, 'a) io \<Rightarrow> bool" where
  "ensures P m \<longleftrightarrow> (\<forall>w a w'. m w = (Inr a, w') \<longrightarrow> P a)"

lemma ensuresD: "ensures P m \<Longrightarrow> m w = (Inr a, w') \<Longrightarrow> P a"
  by (auto simp: ensures_def)

lemma ensures_ret [intro]: "P a \<Longrightarrow> ensures P (ret a)"
  by (simp add: ensures_def)

lemma ensures_fail [intro, simp]: "ensures P (fail_with e)"
  by (simp add: ensures_def)

lemma ensures_wrapping [simp]: "ensures P (wrapping s m) = ensures P m"
  by (simp add: ensures_def)

lemma ensures_bind:
  "ensures Q m \<Longrightarrow> (\<And>a. Q a \<Longrightarrow> ensures P (f a)) \<Longrightarrow> ensures P (and_then m f)"
  by (fastforce simp: ensures_def and_then_Inr)

lemma ensures_skip: "(\<And>a. ensures P (f a)) \<Longrightarrow> ensures P (and_then m f)"
  by (rule ensures_bind [of "\<lambda>_. True"]) (simp_all add: ensures_def)

text \<open>The loop \<open>for _, x := range xs { if err := f(x); err != nil { return err } }\<close>.\<close>

fun each_io :: "('a \<Rightarrow> ('w, unit) io) \<Rightarrow> 'a list \<Rightarrow> ('w, unit) io" where
  "each_io f [] w = (Inr (), w)"
| "each_io f (x # xs) w = and_then (f x) (\<lambda>_. each_io f xs) w"

subsection \<open>The machine\<close>

record proc_out =
  po_stdout :: string
  po_stderr :: string
  po_err :: "proc_err option"
  po_deadline :: bool

record 'w host =
  h_exec :: "duration \<Rightarrow> string \<Rightarrow> string \<Rightarrow> string list \<Rightarrow> 'w \<Rightarrow> proc_out \<times> 'w"
  h_stat :: "string \<Rightarrow> 'w \<Rightarrow> io_error option"
  h_read :: "string \<Rightarrow> 'w \<Rightarrow> io_error + string"
  h_mkdir :: "string \<Rightarrow> 'w \<Rightarrow> io_error option \<times> 'w"

subsection \<open>Running a command\<close>

definition default_timeout :: duration where "default_timeout = 120 * second"
definition max_command_line :: nat where "max_command_line = 200"

text \<open>\<open>Duration.String\<close> on the whole numbers of seconds the timeouts are.\<close>

definition duration_text :: "duration \<Rightarrow> string" where
  "duration_text d =
     (let s = d div second; h = s div 3600; m = s div 60 mod 60
      in (if h \<noteq> 0 then itoa h @ ''h'' else []) @ (if s \<ge> 60 then itoa m @ ''m'' else [])
         @ itoa (s mod 60) @ ''s'')"

definition command_line :: "string list \<Rightarrow> string" where
  "command_line args =
     (let line = join '' '' args
      in if length line > max_command_line then take (max_command_line - 3) line @ ''...'' else line)"

definition wrap_err :: "proc_err option \<Rightarrow> string \<Rightarrow> string list \<Rightarrow> string \<Rightarrow> io_error option" where
  "wrap_err err dir args stderr =
     (case err of None \<Rightarrow> None | Some p \<Rightarrow> Some (Cmd_error (command_line args) dir (trim_space stderr) p))"

definition finish_cmd :: "duration \<Rightarrow> string \<Rightarrow> string list \<Rightarrow> proc_out \<Rightarrow> io_error option" where
  "finish_cmd timeout dir args po =
     (case wrap_err (po_err po) dir args (po_stderr po) of
        None \<Rightarrow> None
      | Some e \<Rightarrow> Some (if po_deadline po then Wrapped (''timed out after '' @ duration_text timeout) e else e))"

definition output_within ::
  "'w host \<Rightarrow> duration \<Rightarrow> string \<Rightarrow> string \<Rightarrow> string list \<Rightarrow> ('w, string) io" where
  "output_within H timeout dir name args w =
     (let (po, w') = h_exec H timeout dir name args w
      in case finish_cmd timeout dir (name # args) po of
           None \<Rightarrow> (Inr (po_stdout po), w')
         | Some e \<Rightarrow> (Inl e, w'))"

definition output_cmd :: "'w host \<Rightarrow> string \<Rightarrow> string \<Rightarrow> string list \<Rightarrow> ('w, string) io" where
  "output_cmd H = output_within H default_timeout"

definition run_within ::
  "'w host \<Rightarrow> duration \<Rightarrow> string \<Rightarrow> string \<Rightarrow> string list \<Rightarrow> ('w, unit) io" where
  "run_within H timeout dir name args w =
     (let (po, w') = h_exec H timeout dir name args w
      in case finish_cmd timeout dir (name # args) po of None \<Rightarrow> (Inr (), w') | Some e \<Rightarrow> (Inl e, w'))"

definition run_cmd :: "'w host \<Rightarrow> string \<Rightarrow> string \<Rightarrow> string list \<Rightarrow> ('w, unit) io" where
  "run_cmd H = run_within H default_timeout"

text \<open>The command line in an error is at most 200 bytes, and the error keeps the exit status.\<close>

lemma command_line_bound: "length (command_line args) \<le> max_command_line"
  by (simp add: command_line_def max_command_line_def Let_def)

lemma finish_cmd_exit:
  "finish_cmd timeout dir args po = Some e \<Longrightarrow>
     exit_code e = (case po_err po of Some (Exited n) \<Rightarrow> Some n | _ \<Rightarrow> None)"
  by (auto simp: finish_cmd_def wrap_err_def split: option.splits if_splits proc_err.splits)

lemma finish_cmd_None: "finish_cmd timeout dir args po = None \<longleftrightarrow> po_err po = None"
  by (auto simp: finish_cmd_def wrap_err_def split: option.splits)

lemma output_within_ok:
  "output_within H t dir name args w = (Inr out, w') \<longleftrightarrow>
     (\<exists>po. h_exec H t dir name args w = (po, w') \<and> po_err po = None \<and> po_stdout po = out)"
  by (auto simp: output_within_def Let_def finish_cmd_def wrap_err_def split: prod.splits option.splits)

lemma output_within_exit:
  "output_within H t dir name args w = (Inl e, w') \<Longrightarrow>
     exit_code e = (case po_err (fst (h_exec H t dir name args w)) of Some (Exited n) \<Rightarrow> Some n | _ \<Rightarrow> None)"
  by (auto simp: output_within_def Let_def finish_cmd_exit split: prod.splits option.splits)

subsection \<open>Paths\<close>

definition clean_step :: "bool \<Rightarrow> string \<Rightarrow> string list \<Rightarrow> string list" where
  "clean_step rooted c out =
     (if c = [] \<or> c = ''.'' then out
      else if c = ''..'' then
        (if out \<noteq> [] \<and> last out \<noteq> ''..'' then butlast out else if rooted then out else out @ [c])
      else out @ [c])"

definition is_abs :: "string \<Rightarrow> bool" where
  "is_abs p = has_prefix p ''/''"

definition path_clean :: "string \<Rightarrow> string" where
  "path_clean p =
     (let out = fold (clean_step (is_abs p)) (split_char (CHR ''/'') p) [];
          t = (if is_abs p then ''/'' else []) @ join ''/'' out
      in if t = [] then ''.'' else t)"

definition path_join :: "string \<Rightarrow> string \<Rightarrow> string" where
  "path_join a b =
     (if a = [] \<and> b = [] then []
      else path_clean (if a = [] then b else if b = [] then a else a @ ''/'' @ b))"

definition path_dir :: "string \<Rightarrow> string" where
  "path_dir p = path_clean (rev (dropWhile (\<lambda>c. c \<noteq> CHR ''/'') (rev p)))"

end
