(* ===== verification/Git.thy ===== *)
theory Git imports Command Observations begin

text \<open>
  The git adapter: \<open>internal/adapter/git/git.go\<close> and \<open>checkout.go\<close>, and the worktree client of
  \<open>internal/adapter/tp/tp.go\<close>. Every operation runs git through the host, so what git answers is a
  parameter; where a theorem relies on git it names the documented behaviour (\<open>reads_refs\<close>: what
  \<open>git rev-parse\<close> answers for a reference that exists and for one that does not).
\<close>

subsection \<open>Running git\<close>

definition git_out :: "'w host \<Rightarrow> string \<Rightarrow> string list \<Rightarrow> ('w, string) io" where
  "git_out H repo args = wrapping (''run git in '' @ repo) (output_cmd H repo ''git'' args)"

text \<open>\<open>git(...)\<close> whose output the caller drops, its error wrapped.\<close>

definition git_do :: "'w host \<Rightarrow> string \<Rightarrow> string \<Rightarrow> string list \<Rightarrow> ('w, unit) io" where
  "git_do H what repo args = and_then (wrapping what (git_out H repo args)) (\<lambda>_. ret ())"

text \<open>Exit status 1 is the answer no, with no output; every other failure is an error.\<close>

definition git_run :: "'w host \<Rightarrow> string \<Rightarrow> string list \<Rightarrow> ('w, string \<times> bool) io" where
  "git_run H repo args w =
     (case git_out H repo args w of
        (Inr out, w') \<Rightarrow> (Inr (out, True), w')
      | (Inl e, w') \<Rightarrow>
          if exit_code e = Some 1 then (Inr ([], False), w')
          else (Inl (Wrapped ''run git status query'' e), w'))"

definition succeeds :: "'w host \<Rightarrow> string \<Rightarrow> string list \<Rightarrow> ('w, bool) io" where
  "succeeds H repo args = and_then (wrapping ''run git query'' (git_run H repo args)) (\<lambda>(_, ok). ret ok)"

definition ref_exists :: "'w host \<Rightarrow> string \<Rightarrow> string \<Rightarrow> ('w, bool) io" where
  "ref_exists H dir ref = succeeds H dir [''rev-parse'', ''--verify'', ''-q'', ref]"

definition ancestor :: "'w host \<Rightarrow> string \<Rightarrow> string \<Rightarrow> string \<Rightarrow> ('w, bool) io" where
  "ancestor H repo commit ref = succeeds H repo [''merge-base'', ''--is-ancestor'', commit, ref]"

definition rev_parse :: "'w host \<Rightarrow> string \<Rightarrow> string \<Rightarrow> ('w, string) io" where
  "rev_parse H repo ref =
     and_then (wrapping (''resolve ref '' @ ref) (git_out H repo [''rev-parse'', ref])) (\<lambda>out. ret (trim_space out))"

definition branch_tip :: "'w host \<Rightarrow> string \<Rightarrow> string \<Rightarrow> ('w, string) io" where
  "branch_tip H repo branch = rev_parse H repo (''refs/heads/'' @ branch)"

definition tip_if_present :: "'w host \<Rightarrow> string \<Rightarrow> string \<Rightarrow> ('w, string option) io" where
  "tip_if_present H repo ref =
     and_then (wrapping (''resolve tip '' @ ref) (git_run H repo [''rev-parse'', ''--verify'', ''-q'', ref]))
       (\<lambda>(out, ok). ret (if ok then Some (trim_space out) else None))"

definition merges_cleanly :: "'w host \<Rightarrow> string \<Rightarrow> string \<Rightarrow> string \<Rightarrow> ('w, bool) io" where
  "merges_cleanly H repo base branch =
     and_then (wrapping (''check merge tree for '' @ branch) (git_run H repo [''merge-tree'', ''--write-tree'', base, branch]))
       (\<lambda>(_, ok). ret ok)"

subsection \<open>Single commands\<close>

definition fetch :: "'w host \<Rightarrow> string \<Rightarrow> ('w, unit) io" where
  "fetch H repo = git_do H ''fetch origin'' repo [''fetch'', ''origin'', ''--prune'']"

definition delete_branch_if_exists :: "'w host \<Rightarrow> string \<Rightarrow> string \<Rightarrow> ('w, unit) io" where
  "delete_branch_if_exists H repo branch =
     and_then (wrapping (''check branch '' @ branch) (ref_exists H repo (''refs/heads/'' @ branch)))
       (\<lambda>ok. if \<not> ok then ret ()
             else git_do H (''delete branch '' @ branch) repo [''branch'', ''-D'', branch])"

definition show_file :: "'w host \<Rightarrow> string \<Rightarrow> string \<Rightarrow> string \<Rightarrow> ('w, string) io" where
  "show_file H repo ref path =
     wrapping (''show file '' @ path @ '' at '' @ ref) (git_out H repo [''show'', ref @ '':'' @ path])"

definition has_file :: "'w host \<Rightarrow> string \<Rightarrow> string \<Rightarrow> string \<Rightarrow> ('w, bool) io" where
  "has_file H repo ref path =
     and_then (wrapping (''check file '' @ path @ '' at '' @ ref)
         (git_out H repo [''ls-tree'', ''--name-only'', ref, ''--'', path]))
       (\<lambda>out. ret (trim_space out \<noteq> []))"

definition out_lines :: "string \<Rightarrow> string list" where
  "out_lines out =
     (let trimmed = trim_space out in if trimmed = [] then [] else split_char newline trimmed)"

definition changed_paths :: "'w host \<Rightarrow> string \<Rightarrow> string \<Rightarrow> string \<Rightarrow> ('w, string list) io" where
  "changed_paths H repo base branch =
     and_then (wrapping (''list changed paths for '' @ branch)
         (git_out H repo [''diff'', ''--name-only'', ''--no-renames'', base @ ''...'' @ branch]))
       (\<lambda>out. ret (out_lines out))"

definition push_branch_git :: "'w host \<Rightarrow> string \<Rightarrow> string \<Rightarrow> ('w, unit) io" where
  "push_branch_git H repo branch = git_do H (''push branch '' @ branch) repo [''push'', ''origin'', branch]"

definition push_restacked :: "'w host \<Rightarrow> string \<Rightarrow> string \<Rightarrow> string \<Rightarrow> ('w, unit) io" where
  "push_restacked H repo branch expected =
     git_do H (''push restacked branch '' @ branch) repo
       [''push'', ''--force-with-lease='' @ branch @ '':'' @ expected, ''origin'', branch]"

definition commits_since :: "'w host \<Rightarrow> string \<Rightarrow> string \<Rightarrow> string \<Rightarrow> ('w, int) io" where
  "commits_since H repo baseline ref =
     and_then (wrapping (''count commits since '' @ baseline)
         (git_out H repo [''rev-list'', ''--count'', baseline @ ''..'' @ ref]))
       (\<lambda>out. case atoi (trim_space out) of
                Some n \<Rightarrow> ret n
              | None \<Rightarrow> fail_with (Wrapped (''parse rev-list --count output '' @ out) (Plain ''invalid syntax'')))"

definition dirty :: "'w host \<Rightarrow> string \<Rightarrow> ('w, bool) io" where
  "dirty H worktree =
     and_then (wrapping ''check worktree status'' (git_out H worktree [''status'', ''--porcelain'']))
       (\<lambda>out. ret (trim_space out \<noteq> []))"

definition merge_ff_only :: "'w host \<Rightarrow> string \<Rightarrow> string \<Rightarrow> ('w, unit) io" where
  "merge_ff_only H worktree ref =
     git_do H (''fast-forward branch to '' @ ref) worktree [''merge'', ''--ff-only'', ref]"

definition merge_git :: "'w host \<Rightarrow> string \<Rightarrow> string \<Rightarrow> ('w, unit) io" where
  "merge_git H worktree ref = git_do H (''merge ref '' @ ref) worktree [''merge'', ref]"

definition rebase :: "'w host \<Rightarrow> string \<Rightarrow> string \<Rightarrow> string \<Rightarrow> ('w, unit) io" where
  "rebase H worktree onto upstream =
     git_do H (''rebase branch onto '' @ onto) worktree [''rebase'', ''--onto'', onto, upstream]"

subsection \<open>Rebases and merges under way\<close>

definition rebase_dirs :: "string list" where
  "rebase_dirs = [''rebase-merge'', ''rebase-apply'']"

definition git_path :: "'w host \<Rightarrow> string \<Rightarrow> string \<Rightarrow> ('w, string) io" where
  "git_path H worktree name =
     and_then (wrapping (''resolve git path '' @ name) (git_out H worktree [''rev-parse'', ''--git-path'', name]))
       (\<lambda>out. let path = trim_space out in ret (if is_abs path then path else path_join worktree path))"

fun rebasing_loop :: "'w host \<Rightarrow> string \<Rightarrow> string list \<Rightarrow> ('w, string) io" where
  "rebasing_loop H worktree [] = ret []"
| "rebasing_loop H worktree (dir # dirs) =
     and_then (wrapping ''resolve rebase head'' (git_path H worktree (dir @ ''/head-name'')))
       (\<lambda>head w. case h_read H head w of
          Inl e \<Rightarrow> if is_not_exist e then rebasing_loop H worktree dirs w
                   else (Inl (Wrapped (''read '' @ head @ '' for '' @ worktree) e), w)
        | Inr ref \<Rightarrow>
            (let name = trim_space ref
             in (Inr (if has_prefix name ''refs/heads/'' then trim_prefix name ''refs/heads/'' else []), w)))"

definition rebasing_branch :: "'w host \<Rightarrow> string \<Rightarrow> ('w, string) io" where
  "rebasing_branch H worktree = rebasing_loop H worktree rebase_dirs"

fun mid_rebase_loop :: "'w host \<Rightarrow> string \<Rightarrow> string list \<Rightarrow> ('w, bool) io" where
  "mid_rebase_loop H worktree [] = ret False"
| "mid_rebase_loop H worktree (dir # dirs) =
     and_then (wrapping ''resolve rebase directory'' (git_path H worktree dir))
       (\<lambda>path w. case h_stat H path w of
          None \<Rightarrow> (Inr True, w)
        | Some e \<Rightarrow> if is_not_exist e then mid_rebase_loop H worktree dirs w
                    else (Inl (Wrapped (''stat '' @ path @ '' for '' @ worktree) e), w))"

definition mid_rebase :: "'w host \<Rightarrow> string \<Rightarrow> ('w, bool) io" where
  "mid_rebase H worktree = mid_rebase_loop H worktree rebase_dirs"

definition mid_merge :: "'w host \<Rightarrow> string \<Rightarrow> ('w, bool) io" where
  "mid_merge H worktree =
     and_then (wrapping ''check merge head'' (ref_exists H worktree ''MERGE_HEAD''))
       (\<lambda>merging. if merging then ret True
                  else wrapping ''check rebase state'' (mid_rebase H worktree))"

definition merge_abort :: "'w host \<Rightarrow> string \<Rightarrow> ('w, unit) io" where
  "merge_abort H worktree =
     and_then (wrapping ''check rebase state'' (mid_rebase H worktree))
       (\<lambda>rebasing. if rebasing then git_do H ''abort rebase'' worktree [''rebase'', ''--abort'']
                   else git_do H ''abort merge'' worktree [''merge'', ''--abort''])"

subsection \<open>Worktrees\<close>

record worktree_parse =
  wp_worktrees :: "(string, string) gomap"
  wp_detached :: "string list"
  wp_path :: string

definition parse_worktree_line :: "string \<Rightarrow> worktree_parse \<Rightarrow> worktree_parse" where
  "parse_worktree_line line s =
     (let (field, val) = (case str_cut '' '' (trim_space line) of
                            Some (a, b) \<Rightarrow> (a, b) | None \<Rightarrow> (trim_space line, []))
      in if field = ''worktree'' then s\<lparr>wp_path := val\<rparr>
         else if field = ''branch'' then
           s\<lparr>wp_worktrees := put (trim_prefix val ''refs/heads/'') (wp_path s) (wp_worktrees s)\<rparr>
         else if field = ''detached'' then s\<lparr>wp_detached := wp_detached s @ [wp_path s]\<rparr>
         else s)"

definition parse_worktrees :: "string \<Rightarrow> (string, string) gomap \<times> string list" where
  "parse_worktrees out =
     (let s = fold parse_worktree_line (str_lines out) \<lparr>wp_worktrees = [], wp_detached = [], wp_path = []\<rparr>
      in (wp_worktrees s, wp_detached s))"

fun add_rebasing :: "'w host \<Rightarrow> string list \<Rightarrow> (string, string) gomap \<Rightarrow> ('w, (string, string) gomap) io" where
  "add_rebasing H [] ws = ret ws"
| "add_rebasing H (path # paths) ws =
     and_then (wrapping ''read rebasing branch'' (rebasing_branch H path))
       (\<lambda>branch. add_rebasing H paths (if branch \<noteq> [] then put branch path ws else ws))"

definition worktree_paths :: "'w host \<Rightarrow> string \<Rightarrow> ('w, (string, string) gomap) io" where
  "worktree_paths H repo =
     and_then (wrapping ''list worktrees'' (git_out H repo [''worktree'', ''list'', ''--porcelain'']))
       (\<lambda>out. let (ws, detached) = parse_worktrees out in add_rebasing H detached ws)"

subsection \<open>Removing worktrees\<close>

datatype removal_state = RemovalUnknown | RemovableByMerged | RemovableByForce | NotRemovable

definition removal_state_for :: "'w host \<Rightarrow> string \<Rightarrow> string \<Rightarrow> string list \<Rightarrow> ('w, removal_state) io" where
  "removal_state_for H repo branch proven =
     and_then (wrapping (''check remote branch '' @ branch) (ref_exists H repo (''refs/remotes/origin/'' @ branch)))
       (\<lambda>tracked. if tracked then ret RemovableByMerged
          else and_then (wrapping (''resolve local branch '' @ branch) (rev_parse H repo (''refs/heads/'' @ branch)))
            (\<lambda>here. ret (if here = [] \<or> here \<notin> set proven then NotRemovable else RemovableByForce)))"

datatype remove_mode = RemoveUnknown | RemoveMerged | RemoveForced

definition remove_flag :: "remove_mode \<Rightarrow> string option" where
  "remove_flag m = (case m of RemoveMerged \<Rightarrow> Some ''--merged'' | RemoveForced \<Rightarrow> Some ''--force''
                              | RemoveUnknown \<Rightarrow> None)"

definition long_timeout :: duration where "long_timeout = 600 * second"

definition worktree_new :: "'w host \<Rightarrow> string \<Rightarrow> string \<Rightarrow> string \<Rightarrow> ('w, unit) io" where
  "worktree_new H repo branch base =
     and_then (wrapping (''create worktree '' @ branch)
         (output_within H long_timeout repo ''tp'' [''new'', branch, ''--base'', base])) (\<lambda>_. ret ())"

definition worktree_remove :: "'w host \<Rightarrow> string \<Rightarrow> string \<Rightarrow> remove_mode \<Rightarrow> ('w, unit) io" where
  "worktree_remove H repo branch mode =
     (case remove_flag mode of
        None \<Rightarrow> fail_with (Wrapped (''resolve remove mode for '' @ branch) (Plain ''unknown remove mode 0''))
      | Some flag \<Rightarrow>
          and_then (wrapping (''remove worktree '' @ branch)
              (output_within H default_timeout repo ''tp'' [''remove'', flag, branch])) (\<lambda>_. ret ()))"

subsection \<open>Checkouts\<close>

definition origin_mismatch :: io_error where
  "origin_mismatch = Sentinel ''checkout origin differs from the configured remote''"

definition same_remote :: "string \<Rightarrow> string \<Rightarrow> bool" where
  "same_remote a b = (normalise_remote a = normalise_remote b)"

definition path_segment :: "string \<Rightarrow> bool" where
  "path_segment s = (s \<noteq> [] \<and> s \<noteq> ''.'' \<and> s \<noteq> ''..'' \<and> \<not> str_contains s [CHR 0x5C])"

text \<open>\<open>hostPath\<close> of \<open>checkout.go\<close>, which repeats the one of \<open>plan/repostate.go\<close>.\<close>

definition checkout_host_path :: "string \<Rightarrow> string" where
  "checkout_host_path url0 =
     (let url = trim_suffix (trim_suffix (trim_space url0) ''/'') ''.git'';
          url = (case str_cut ''://'' url of
                   Some (_, rest) \<Rightarrow> rest
                 | None \<Rightarrow>
                     (case str_cut '':'' url of
                        Some (host, path) \<Rightarrow> if \<not> str_contains host ''/'' then host @ ''/'' @ path else url
                      | None \<Rightarrow> url));
          url = (case str_cut ''@'' url of Some (_, rest) \<Rightarrow> rest | None \<Rightarrow> url)
      in trim_suffix url ''/'')"

definition full_name :: "string \<Rightarrow> io_error + string" where
  "full_name remote =
     (let path = checkout_host_path remote;
          (host, full) = (case str_cut ''/'' path of Some (a, b) \<Rightarrow> (a, b) | None \<Rightarrow> (path, []));
          bad = Inl (Plain (''remote '' @ remote @ '' does not name an owner/name repository''))
      in case str_cut ''/'' full of
           None \<Rightarrow> bad
         | Some (owner, name) \<Rightarrow>
             if host = [] \<or> \<not> path_segment owner \<or> \<not> path_segment name \<or> str_contains name ''/''
                \<or> has_suffix name ''.git'' then bad
             else Inr full)"

definition origin_url :: "'w host \<Rightarrow> string \<Rightarrow> ('w, string) io" where
  "origin_url H repo =
     and_then (wrapping ''read origin URL'' (git_out H repo [''remote'', ''get-url'', ''origin'']))
       (\<lambda>out. ret (trim_space out))"

definition enable_rerere :: "'w host \<Rightarrow> string \<Rightarrow> ('w, unit) io" where
  "enable_rerere H repo =
     each_io (\<lambda>key. git_do H (''enable '' @ key @ '' in '' @ repo) repo [''config'', key, ''true''])
       [''rerere.enabled'', ''rerere.autoupdate'']"

definition clone_repo :: "'w host \<Rightarrow> string \<Rightarrow> string \<Rightarrow> string \<Rightarrow> ('w, unit) io" where
  "clone_repo H name remote checkout w =
     (case h_mkdir H (path_dir checkout) w of
        (Some e, w') \<Rightarrow> (Inl (Wrapped (''repo '' @ name @ '': create '' @ path_dir checkout) e), w')
      | (None, w') \<Rightarrow>
          wrapping (''repo '' @ name @ '': clone '' @ remote)
            (run_within H long_timeout [] ''git'' [''clone'', remote, checkout]) w')"

definition ensure_checkout :: "'w host \<Rightarrow> string \<Rightarrow> string \<Rightarrow> string \<Rightarrow> ('w, unit) io" where
  "ensure_checkout H name remote checkout w =
     (let rerere = wrapping (''configure rerere for '' @ checkout) (enable_rerere H checkout) in
      case h_stat H checkout w of
        Some e \<Rightarrow>
          if is_not_exist e then
            if remote = [] then
              (Inl (Plain (''repo '' @ name @ '': no checkout at '' @ checkout @ '', and no remote to clone from'')), w)
            else and_then (wrapping (''clone repo '' @ name) (clone_repo H name remote checkout)) (\<lambda>_. rerere) w
          else (Inl (Wrapped (''repo '' @ name @ '': stat '' @ checkout) e), w)
      | None \<Rightarrow>
          and_then (wrapping (''repo '' @ name @ '': '' @ checkout @ '' is not a git repository with an origin'')
              (origin_url H checkout))
            (\<lambda>origin.
               if remote \<noteq> [] \<and> \<not> same_remote origin remote then
                 fail_with (Wrapped (''repo '' @ name @ '': '' @ checkout @ '' has origin '' @ origin
                   @ '', but the config says '' @ remote) origin_mismatch)
               else and_then rerere (\<lambda>_. wrapping (''fetch checkout '' @ checkout) (fetch H checkout))) w)"

subsection \<open>What the answers mean\<close>

lemma git_out_answer:
  "h_exec H default_timeout repo ''git'' args w = (po, w') \<Longrightarrow>
     git_out H repo args w = (case finish_cmd default_timeout repo (''git'' # args) po of
         None \<Rightarrow> (Inr (po_stdout po), w')
       | Some e \<Rightarrow> (Inl (Wrapped (''run git in '' @ repo) e), w'))"
  by (cases "finish_cmd default_timeout repo (''git'' # args) po")
    (simp_all add: git_out_def wrapping_def output_cmd_def output_within_def)

lemma git_out_yes:
  "h_exec H default_timeout repo ''git'' args w = (po, w') \<Longrightarrow> po_err po = None \<Longrightarrow>
     git_out H repo args w = (Inr (po_stdout po), w')"
  by (auto simp: git_out_answer finish_cmd_def wrap_err_def)

lemma git_out_no:
  "h_exec H default_timeout repo ''git'' args w = (po, w') \<Longrightarrow> po_err po = Some p \<Longrightarrow>
     \<exists>e. git_out H repo args w = (Inl e, w') \<and>
       exit_code e = (case p of Exited n \<Rightarrow> Some n | Proc_failed _ \<Rightarrow> None)"
  by (auto simp: git_out_answer finish_cmd_def wrap_err_def split: option.splits)

text \<open>Exit status 0 is yes with the output, 1 is no, and every other failure stays an error.\<close>

lemma git_run_yes:
  "h_exec H default_timeout repo ''git'' args w = (po, w') \<Longrightarrow> po_err po = None \<Longrightarrow>
     git_run H repo args w = (Inr (po_stdout po, True), w')"
  by (simp add: git_run_def git_out_yes)

lemma git_run_no:
  "h_exec H default_timeout repo ''git'' args w = (po, w') \<Longrightarrow> po_err po = Some (Exited 1) \<Longrightarrow>
     git_run H repo args w = (Inr ([], False), w')"
  by (auto simp: git_run_def dest: git_out_no)

lemma git_run_fails:
  "h_exec H default_timeout repo ''git'' args w = (po, w') \<Longrightarrow> po_err po = Some p \<Longrightarrow> p \<noteq> Exited 1 \<Longrightarrow>
     \<exists>e. git_run H repo args w = (Inl e, w') \<and> exit_code e = (case p of Exited n \<Rightarrow> Some n | Proc_failed _ \<Rightarrow> None)"
proof -
  assume x: "h_exec H default_timeout repo ''git'' args w = (po, w')" "po_err po = Some p" "p \<noteq> Exited 1"
  from git_out_no [OF x(1,2)] obtain e where e: "git_out H repo args w = (Inl e, w')"
    "exit_code e = (case p of Exited n \<Rightarrow> Some n | Proc_failed _ \<Rightarrow> None)" by blast
  with x(3) show ?thesis by (simp add: git_run_def split: proc_err.splits)
qed

text \<open>
  What \<open>git rev-parse\<close> documents: with \<open>--verify -q\<close> a reference that does not resolve is exit status
  1, without them it is another failure; a reference that resolves prints its object name and a
  newline; neither form changes anything.
\<close>

definition answers_ref :: "proc_out \<times> 'w \<Rightarrow> 'w \<Rightarrow> int \<Rightarrow> string option \<Rightarrow> bool" where
  "answers_ref r w missing tip =
     (snd r = w \<and> (case tip of
        None \<Rightarrow> po_err (fst r) = Some (Exited missing)
      | Some sha \<Rightarrow> po_err (fst r) = None \<and> po_stdout (fst r) = sha @ [newline]
                    \<and> sha \<noteq> [] \<and> graph_char (hd sha) \<and> graph_char (last sha)))"

definition reads_refs :: "'w host \<Rightarrow> (string \<Rightarrow> 'w \<Rightarrow> string \<Rightarrow> string option) \<Rightarrow> bool" where
  "reads_refs H refs \<longleftrightarrow>
     (\<forall>repo w ref.
        answers_ref (h_exec H default_timeout repo ''git'' [''rev-parse'', ''--verify'', ''-q'', ref] w) w 1 (refs repo w ref)
        \<and> answers_ref (h_exec H default_timeout repo ''git'' [''rev-parse'', ref] w) w 128 (refs repo w ref))"

lemma reads_verify:
  "reads_refs H refs \<Longrightarrow>
     answers_ref (h_exec H default_timeout repo ''git'' [''rev-parse'', ''--verify'', ''-q'', ref] w) w 1 (refs repo w ref)"
  and reads_plain:
  "reads_refs H refs \<Longrightarrow>
     answers_ref (h_exec H default_timeout repo ''git'' [''rev-parse'', ref] w) w 128 (refs repo w ref)"
  by (simp_all add: reads_refs_def)

lemma trim_newline_graph [simp]:
  "s \<noteq> [] \<Longrightarrow> graph_char (hd s) \<Longrightarrow> graph_char (last s) \<Longrightarrow> trim_space (s @ [newline]) = s"
  by (simp add: newline_def trim_space_graph(2))

lemma ref_exists_answer:
  assumes "reads_refs H refs"
  shows "ref_exists H repo ref w = (Inr (refs repo w ref \<noteq> None), w)"
proof -
  obtain po w' where x: "h_exec H default_timeout repo ''git'' [''rev-parse'', ''--verify'', ''-q'', ref] w = (po, w')"
    by fastforce
  from reads_verify [OF assms, of repo ref w] x show ?thesis
    by (auto simp: answers_ref_def ref_exists_def succeeds_def and_then_def wrapping_def
        git_run_yes [OF x] git_run_no [OF x] split: option.splits)
qed

lemma tip_if_present_answer:
  assumes "reads_refs H refs"
  shows "tip_if_present H repo ref w = (Inr (refs repo w ref), w)"
proof -
  obtain po w' where x: "h_exec H default_timeout repo ''git'' [''rev-parse'', ''--verify'', ''-q'', ref] w = (po, w')"
    by fastforce
  from reads_verify [OF assms, of repo ref w] x show ?thesis
    by (auto simp: answers_ref_def tip_if_present_def and_then_def wrapping_def
        git_run_yes [OF x] git_run_no [OF x] split: option.splits)
qed

lemma rev_parse_answer:
  assumes "reads_refs H refs"
  shows "refs repo w ref = Some sha \<Longrightarrow> rev_parse H repo ref w = (Inr sha, w)"
    and "refs repo w ref = None \<Longrightarrow> \<exists>e. rev_parse H repo ref w = (Inl e, w)"
proof -
  obtain po w' where x: "h_exec H default_timeout repo ''git'' [''rev-parse'', ref] w = (po, w')"
    by fastforce
  note a = reads_plain [OF assms, of repo ref w]
  show "refs repo w ref = Some sha \<Longrightarrow> rev_parse H repo ref w = (Inr sha, w)"
    using a x by (auto simp: answers_ref_def rev_parse_def and_then_def wrapping_def git_out_yes [OF x])
  show "refs repo w ref = None \<Longrightarrow> \<exists>e. rev_parse H repo ref w = (Inl e, w)"
    using a x by (auto simp: answers_ref_def rev_parse_def and_then_def wrapping_def dest!: git_out_no)
qed

text \<open>C31: A worktree is removed by force only when the remote-tracking branch is gone and the local
  branch exists and stands on a commit that is proven merged; with a remote-tracking branch the
  merged check decides, and otherwise nothing is removed. The hypothesis is what git documents
  about \<open>rev-parse\<close>.\<close>

theorem removal_state_exactly:
  assumes "reads_refs H refs"
  shows "(removal_state_for H repo branch proven w = (Inr RemovableByForce, w') \<longleftrightarrow>
      w' = w \<and> refs repo w (''refs/remotes/origin/'' @ branch) = None
      \<and> (\<exists>tip \<in> set proven. refs repo w (''refs/heads/'' @ branch) = Some tip))
    \<and> (removal_state_for H repo branch proven w = (Inr RemovableByMerged, w') \<longleftrightarrow>
      w' = w \<and> refs repo w (''refs/remotes/origin/'' @ branch) \<noteq> None)
    \<and> fst (removal_state_for H repo branch proven w) \<noteq> Inr RemovalUnknown"
proof (intro conjI)
  let ?local = "refs repo w (''refs/heads/'' @ branch)"
  have ne: "?local = Some tip \<Longrightarrow> tip \<noteq> []" for tip
    using reads_plain [OF assms, of repo "''refs/heads/'' @ branch" w] by (auto simp: answers_ref_def)
  note d = removal_state_for_def and_then_def wrapping_def ref_exists_answer [OF assms]
  note l = rev_parse_answer [OF assms, of repo w "''refs/heads/'' @ branch"]
  show "removal_state_for H repo branch proven w = (Inr RemovableByForce, w') \<longleftrightarrow>
      w' = w \<and> refs repo w (''refs/remotes/origin/'' @ branch) = None
      \<and> (\<exists>tip \<in> set proven. refs repo w (''refs/heads/'' @ branch) = Some tip)"
    using l ne by (cases ?local) (auto simp: d)
  show "removal_state_for H repo branch proven w = (Inr RemovableByMerged, w') \<longleftrightarrow>
      w' = w \<and> refs repo w (''refs/remotes/origin/'' @ branch) \<noteq> None"
    using l ne by (cases ?local) (auto simp: d)
  show "fst (removal_state_for H repo branch proven w) \<noteq> Inr RemovalUnknown"
    using l ne by (cases ?local) (auto simp: d)
qed

text \<open>A git with fixed references, for the witnesses.\<close>

definition ref_host :: "(string \<Rightarrow> string option) \<Rightarrow> 'w host" where
  "ref_host f = \<lparr>
     h_exec = (\<lambda>_ _ _ args w.
       (case f (last args) of
          Some sha \<Rightarrow> \<lparr>po_stdout = sha @ [newline], po_stderr = [], po_err = None, po_deadline = False\<rparr>
        | None \<Rightarrow> \<lparr>po_stdout = [], po_stderr = [],
                    po_err = Some (Exited (if length args = 4 then 1 else 128)), po_deadline = False\<rparr>, w)),
     h_stat = (\<lambda>p _. Some (Not_exist p)), h_read = (\<lambda>p _. Inl (Not_exist p)), h_mkdir = (\<lambda>_ w. (None, w))\<rparr>"

lemma ref_host_reads:
  assumes "\<And>ref sha. f ref = Some sha \<Longrightarrow> sha \<noteq> [] \<and> graph_char (hd sha) \<and> graph_char (last sha)"
  shows "reads_refs (ref_host f) (\<lambda>_ _. f)"
  using assms by (auto simp: reads_refs_def ref_host_def answers_ref_def split: option.splits)

definition sample_refs :: "string \<Rightarrow> string option" where
  "sample_refs ref = (if ref = ''refs/heads/cc/1-a'' then Some ''c0ffee'' else None)"

lemma sample_refs_read: "reads_refs (ref_host sample_refs) (\<lambda>_ _. sample_refs)"
  by (rule ref_host_reads) (auto simp: sample_refs_def graph_char_def split: if_splits)

theorem removal_state_exactly_witness:
  "removal_state_for (ref_host sample_refs) ''/repo'' ''cc/1-a'' [''c0ffee''] () = (Inr RemovableByForce, ())"
  using removal_state_exactly [OF sample_refs_read, of "''/repo''" "''cc/1-a''" "[''c0ffee'']" "()" "()"]
  by (simp add: sample_refs_def)

subsection \<open>The porcelain list of worktrees\<close>

text \<open>What \<open>git worktree list --porcelain\<close> prints: a paragraph per worktree, its last line the
  branch or the word detached.\<close>

definition worktree_block :: "string \<times> string \<times> string option \<Rightarrow> string" where
  "worktree_block = (\<lambda>(path, head, branch).
     ''worktree '' @ path @ [newline] @ ''HEAD '' @ head @ [newline]
     @ (case branch of Some b \<Rightarrow> ''branch refs/heads/'' @ b | None \<Rightarrow> ''detached'') @ [newline] @ [newline])"

definition clean_value :: "string \<Rightarrow> bool" where
  "clean_value v = (v \<noteq> [] \<and> graph_char (last v) \<and> newline \<notin> set v)"

definition clean_worktree :: "string \<times> string \<times> string option \<Rightarrow> bool" where
  "clean_worktree = (\<lambda>(path, head, branch). clean_value path \<and> clean_value head
     \<and> (case branch of Some b \<Rightarrow> clean_value b | None \<Rightarrow> True))"

lemma str_lines_line: "newline \<notin> set l \<Longrightarrow> str_lines (l @ newline # rest) = (l @ [newline]) # str_lines rest"
  by (simp add: str_lines_def split_char_append Let_def)

lemma str_lines_Nil [simp]: "str_lines [] = []"
  by (simp add: str_lines_def)

lemma newline_eq: "newline = CHR 0x0A"
  by code_simp

lemma trim_value_line:
  "key \<noteq> [] \<Longrightarrow> graph_char (hd key) \<Longrightarrow> clean_value v \<Longrightarrow> trim_space (key @ '' '' @ v @ [newline]) = key @ '' '' @ v"
  using trim_newline_graph [of "key @ '' '' @ v"] by (simp add: clean_value_def)

lemma parse_value_line:
  "clean_value v \<Longrightarrow> parse_worktree_line (''worktree '' @ v @ [newline]) s = s\<lparr>wp_path := v\<rparr>"
  "clean_value v \<Longrightarrow> parse_worktree_line (''HEAD '' @ v @ [newline]) s = s"
  "clean_value v \<Longrightarrow> parse_worktree_line (''branch refs/heads/'' @ v @ [newline]) s =
     s\<lparr>wp_worktrees := put v (wp_path s) (wp_worktrees s)\<rparr>"
  "parse_worktree_line (''detached'' @ [newline]) s = s\<lparr>wp_detached := wp_detached s @ [wp_path s]\<rparr>"
  "parse_worktree_line [newline] s = s"
proof -
  have c: "str_cut '' '' (key @ '' '' @ v) = Some (key, v)" if "CHR '' '' \<notin> set key" for key v
    using cut_char_notin [OF that] by simp
  show "clean_value v \<Longrightarrow> parse_worktree_line (''worktree '' @ v @ [newline]) s = s\<lparr>wp_path := v\<rparr>"
    using trim_value_line [of "''worktree''" v] c [of "''worktree''" v]
    by (simp add: parse_worktree_line_def graph_char_def)
  show "clean_value v \<Longrightarrow> parse_worktree_line (''HEAD '' @ v @ [newline]) s = s"
    using trim_value_line [of "''HEAD''" v] c [of "''HEAD''" v]
    by (simp add: parse_worktree_line_def graph_char_def)
  have h: "clean_value v \<Longrightarrow> clean_value (''refs/heads/'' @ v)"
    by (auto simp: clean_value_def newline_eq)
  show "clean_value v \<Longrightarrow> parse_worktree_line (''branch refs/heads/'' @ v @ [newline]) s =
     s\<lparr>wp_worktrees := put v (wp_path s) (wp_worktrees s)\<rparr>"
    using trim_value_line [of "''branch''" "''refs/heads/'' @ v"] c [of "''branch''" "''refs/heads/'' @ v"]
      trim_prefix_append [of "''refs/heads/''" v] h
    by (simp add: parse_worktree_line_def graph_char_def)
  show "parse_worktree_line (''detached'' @ [newline]) s = s\<lparr>wp_detached := wp_detached s @ [wp_path s]\<rparr>"
    using trim_newline_graph [of "''detached''"] by (simp add: parse_worktree_line_def graph_char_def)
  have "trim_space [newline] = []"
    by (simp add: trim_space_def trim_right_runes_def trim_left_runes_def space_runes_def wide_spaces_def newline_def)
  then show "parse_worktree_line [newline] s = s" by (simp add: parse_worktree_line_def)
qed

definition read_back :: "string \<times> string \<times> string option \<Rightarrow> worktree_parse \<Rightarrow> worktree_parse" where
  "read_back = (\<lambda>(path, head, branch) s. case branch of
     Some b \<Rightarrow> s\<lparr>wp_path := path, wp_worktrees := put b path (wp_worktrees s)\<rparr>
   | None \<Rightarrow> s\<lparr>wp_path := path, wp_detached := wp_detached s @ [path]\<rparr>)"

lemma parse_block:
  assumes "clean_worktree wt"
  shows "fold parse_worktree_line (str_lines (worktree_block wt @ rest)) s =
    fold parse_worktree_line (str_lines rest) (read_back wt s)"
proof -
  obtain path head branch where wt: "wt = (path, head, branch)" by (cases wt) auto
  with assms have v: "clean_value path" "clean_value head" "\<And>b. branch = Some b \<Longrightarrow> clean_value b"
    by (auto simp: clean_worktree_def)
  have one: "str_lines ((key @ x) @ newline # r) = (key @ x @ [newline]) # str_lines r"
    if "newline \<notin> set key" "newline \<notin> set x" for key x r
    using that str_lines_line [of "key @ x" r] by simp
  have nl: "str_lines (newline # r) = [newline] # str_lines r" for r
    using str_lines_line [of "[]" r] by simp
  have k: "newline \<notin> set ''worktree ''" "newline \<notin> set ''HEAD ''" "newline \<notin> set ''detached''"
    "newline \<notin> set ''branch refs/heads/''"
    by (simp_all add: newline_eq)
  have n: "newline \<notin> set path" "newline \<notin> set head" "\<And>b. branch = Some b \<Longrightarrow> newline \<notin> set b"
    using v by (auto simp: clean_value_def)
  show ?thesis
  proof (cases branch)
    case None
    then show ?thesis
      using one [OF k(1) n(1)] one [OF k(2) n(2)] one [OF k(3), of "[]"]
        parse_value_line(1) [OF v(1)] parse_value_line(2) [OF v(2)] parse_value_line(4,5)
      by (simp add: wt worktree_block_def read_back_def nl)
  next
    case (Some b)
    then show ?thesis
      using one [OF k(1) n(1)] one [OF k(2) n(2)] one [OF k(4) n(3) [OF Some]]
        parse_value_line(1) [OF v(1)] parse_value_line(2) [OF v(2)] parse_value_line(3) [OF v(3) [OF Some]] parse_value_line(5)
      by (simp add: wt worktree_block_def read_back_def nl)
  qed
qed

lemma parse_blocks:
  "\<forall>wt \<in> set ws. clean_worktree wt \<Longrightarrow>
     fold parse_worktree_line (str_lines (concat (map worktree_block ws))) s = fold read_back ws s"
  by (induction ws arbitrary: s) (simp_all add: parse_block)

lemma read_back_fields:
  "wp_worktrees (fold read_back ws s) =
     fold (\<lambda>(path, _, branch) m. case branch of Some b \<Rightarrow> put b path m | None \<Rightarrow> m) ws (wp_worktrees s)"
  "wp_detached (fold read_back ws s) = wp_detached s @ map fst (filter (\<lambda>(_, _, branch). branch = None) ws)"
  by (induction ws arbitrary: s) (auto simp: read_back_def split: option.splits)

text \<open>Reading the porcelain list of worktrees that git prints gives back each branch with its path
  (the last one for a branch listed twice) and the paths of the detached worktrees in order. Paths
  may contain blanks; they have no newline and end in a printable character.\<close>

theorem worktrees_roundtrip:
  assumes "\<forall>wt \<in> set ws. clean_worktree wt"
  shows "parse_worktrees (concat (map worktree_block ws)) =
    (fold (\<lambda>(path, _, branch) m. case branch of Some b \<Rightarrow> put b path m | None \<Rightarrow> m) ws [],
     map fst (filter (\<lambda>(_, _, branch). branch = None) ws))"
  using parse_blocks [OF assms] by (simp add: parse_worktrees_def read_back_fields Let_def)

theorem worktrees_roundtrip_witness:
  "parse_worktrees (concat (map worktree_block
      [(''/src/my app'', ''c0ffee'', Some ''main''), (''/src/wt'', ''c0ffee'', None)])) =
    ([(''main'', ''/src/my app'')], [''/src/wt''])"
  using worktrees_roundtrip [of "[(''/src/my app'', ''c0ffee'', Some ''main''), (''/src/wt'', ''c0ffee'', None)]"]
  by (simp add: clean_worktree_def clean_value_def graph_char_def newline_eq)

subsection \<open>A checkout of another remote is left alone\<close>

text \<open>EnsureCheckout succeeds only on a checkout it cloned from a configured remote, or on one that
  is there and whose origin is the configured remote (when there is one).\<close>

theorem checkout_is_of_remote:
  assumes "ensure_checkout H name remote checkout w = (Inr (), w')"
  shows "remote \<noteq> [] \<and> (\<exists>e. h_stat H checkout w = Some e \<and> is_not_exist e)
    \<or> h_stat H checkout w = None \<and> (\<exists>origin w1. origin_url H checkout w = (Inr origin, w1)
         \<and> (remote = [] \<or> normalise_remote origin = normalise_remote remote))"
proof (cases "h_stat H checkout w")
  case None
  with assms show ?thesis
    by (auto simp: ensure_checkout_def and_then_Inr same_remote_def split: if_splits)
next
  case (Some e)
  with assms show ?thesis by (auto simp: ensure_checkout_def split: if_splits)
qed

text \<open>On a mismatch nothing runs after the question for the origin.\<close>

lemma origin_mismatch_stops:
  "h_stat H checkout w = None \<Longrightarrow> origin_url H checkout w = (Inr origin, w1) \<Longrightarrow> remote \<noteq> [] \<Longrightarrow>
     \<not> same_remote origin remote \<Longrightarrow>
     snd (ensure_checkout H name remote checkout w) = w1
     \<and> (\<exists>e. fst (ensure_checkout H name remote checkout w) = Inl e \<and> root_error e = origin_mismatch)"
  by (simp add: ensure_checkout_def and_then_def wrapping_def origin_mismatch_def)

definition origin_host :: "string \<Rightarrow> string list host" where
  "origin_host origin = \<lparr>
     h_exec = (\<lambda>_ _ _ args w. (\<lparr>po_stdout = (if hd args = ''remote'' then origin @ [newline] else []),
        po_stderr = [], po_err = None, po_deadline = False\<rparr>, w @ [hd args])),
     h_stat = (\<lambda>_ _. None), h_read = (\<lambda>p _. Inl (Not_exist p)), h_mkdir = (\<lambda>_ w. (None, w))\<rparr>"

lemma origin_host_git:
  "git_out (origin_host origin) repo args w = (Inr (if hd args = ''remote'' then origin @ [newline] else []), w @ [hd args])"
proof -
  let ?po = "\<lparr>po_stdout = (if hd args = ''remote'' then origin @ [newline] else []), po_stderr = [],
    po_err = None, po_deadline = False\<rparr>"
  have "h_exec (origin_host origin) default_timeout repo ''git'' args w = (?po, w @ [hd args])"
    by (simp add: origin_host_def)
  from git_out_yes [OF this] show ?thesis by simp
qed

lemma origin_host_stat [simp]: "h_stat (origin_host origin) p w = None"
  by (simp add: origin_host_def)

lemma origin_host_run:
  assumes "origin \<noteq> []" "graph_char (hd origin)" "graph_char (last origin)"
  shows "ensure_checkout (origin_host origin) name origin checkout [] =
     (Inr (), [''remote'', ''config'', ''config'', ''fetch''])"
  using assms
  by (simp add: ensure_checkout_def origin_url_def enable_rerere_def fetch_def git_do_def origin_host_git
      and_then_def wrapping_def same_remote_def)

theorem checkout_is_of_remote_witness:
  "\<exists>origin w1. origin_url (origin_host ''git@h:o/app'') ''/c/app'' [] = (Inr origin, w1)
     \<and> normalise_remote origin = normalise_remote ''git@h:o/app''"
  using checkout_is_of_remote [OF origin_host_run [of "''git@h:o/app''" "''app''" "''/c/app''"]]
  by (auto simp: graph_char_def)

text \<open>A full name that is read off a remote is an owner and a name, each a usable path segment: a
  file name under the checkouts directory cannot leave it.\<close>

theorem full_name_stays_inside:
  assumes "full_name remote = Inr full"
  shows "\<exists>owner name. full = owner @ ''/'' @ name \<and> CHR ''/'' \<notin> set owner \<and> CHR ''/'' \<notin> set name
    \<and> owner \<notin> {[], ''.'', ''..''} \<and> name \<notin> {[], ''.'', ''..''}
    \<and> CHR 0x5C \<notin> set full"
proof -
  from assms obtain owner name where c: "str_cut ''/'' full = Some (owner, name)"
    and ok: "path_segment owner" "path_segment name" "\<not> str_contains name ''/''"
    by (auto simp: full_name_def Let_def split: prod.splits option.splits if_splits)
  from cut_Some_append [OF c] have f: "full = owner @ ''/'' @ name" by simp
  moreover have "CHR ''/'' \<notin> set owner"
  proof
    assume "CHR ''/'' \<in> set owner"
    then obtain a b where "owner = a @ CHR ''/'' # b" "CHR ''/'' \<notin> set a" by (meson split_list_first)
    with f cut_char_notin [of "CHR ''/''" a "b @ ''/'' @ name"] c have "a = owner" by simp
    with \<open>owner = a @ CHR ''/'' # b\<close> show False by simp
  qed
  moreover have e: "str_contains s [x] \<longleftrightarrow> x \<in> set s" for s x
    by (auto simp: str_contains_iff in_set_conv_decomp)
  ultimately show ?thesis using ok by (auto simp: path_segment_def e)
qed

lemma full_name_sample: "full_name ''git@h:o/app.git'' = Inr ''o/app''"
proof -
  have "trim_space ''git@h:o/app.git'' = ''git@h:o/app.git''" by (rule trim_space_graph) (simp_all add: graph_char_def)
  then show ?thesis
    by (simp add: full_name_def checkout_host_path_def path_segment_def Let_def trim_suffix_def trim_prefix_def has_suffix_def has_prefix_def
        str_contains_def)
qed

theorem full_name_stays_inside_witness:
  "\<exists>owner name. ''o/app'' = owner @ ''/'' @ name \<and> CHR ''/'' \<notin> set owner \<and> name \<noteq> ''..''"
  using full_name_stays_inside [OF full_name_sample] by blast

end
