(* ===== verification/Gh.thy ===== *)
theory Gh imports Command Derive begin

text \<open>
  The GitHub adapter and the issue tracker on it: \<open>internal/adapter/gh/{gh,run,repos}.go\<close> and
  \<open>internal/adapter/tracker/{github,slug,tracker}.go\<close>.

  The text that gh prints is decoded by \<open>encoding/json\<close> and \<open>time.Parse\<close>; the decoded values are the
  raw records, and the two decoders are fields of a \<open>codec\<close> record. A stream of JSON pages is the list
  of the results of \<open>Decoder.Decode\<close> before the end of the input. The quotes that the verb \<open>%q\<close> puts
  around a value in an error text are left out.
\<close>

subsection \<open>Values\<close>

datatype gh_state = GhAbsent | GhOpen | GhMerged | GhClosed

fun gh_state_text :: "gh_state \<Rightarrow> string" where
  "gh_state_text GhAbsent = ''absent''"
| "gh_state_text GhOpen = ''open''"
| "gh_state_text GhMerged = ''merged''"
| "gh_state_text GhClosed = ''closed''"

record gh_check =
  gc_name :: string
  gc_status :: string
  gc_conclusion :: string
  gc_details_url :: string
  gc_started_at :: time
  gc_completed_at :: time

record gh_pr =
  gp_number :: int
  gp_head_ref :: string
  gp_head_oid :: string
  gp_base_ref :: string
  gp_base_oid :: string
  gp_author_login :: string
  gp_is_draft :: bool
  gp_state :: gh_state
  gp_checks :: "(string, gh_check) gomap"
  gp_labels :: "string list"
  gp_merged_at :: time

record raw_check =
  rk_typename :: string
  rk_name :: string
  rk_context :: string
  rk_status :: string
  rk_conclusion :: string
  rk_state :: string
  rk_details_url :: string
  rk_target_url :: string
  rk_started_at :: string
  rk_completed_at :: string

record raw_pr =
  rp_number :: int
  rp_head_ref_name :: string
  rp_head_ref_oid :: string
  rp_base_ref_name :: string
  rp_base_ref_oid :: string
  rp_is_draft :: bool
  rp_state :: string
  rp_author_login :: string
  rp_rollup :: "raw_check list"
  rp_labels :: "string list"
  rp_merged_at :: string

record raw_issue =
  ri_title :: string
  ri_url :: string

record raw_repo =
  rr_full_name :: string
  rr_ssh_url :: string
  rr_default_branch :: string
  rr_archived :: bool
  rr_push :: bool

record gh_repo_summary =
  gr_full_name :: string
  gr_ssh_url :: string
  gr_default_branch :: string
  gr_archived :: bool

record gh_repo_settings =
  gs_allow_merge_commit :: bool
  gs_allow_rebase_merge :: bool
  gs_default_branch :: string

record tracker_issue =
  ti_number :: int
  ti_title :: string
  ti_body :: string
  ti_url :: string
  ti_labels :: "string list"

record raw_dependency =
  rd_html_url :: string
  rd_state :: string

subsection \<open>Decoding\<close>

record codec =
  cd_prs :: "string \<Rightarrow> io_error + raw_pr list"
  cd_titles :: "string \<Rightarrow> io_error + raw_issue list"
  cd_labels :: "string \<Rightarrow> io_error + string list"
  cd_issues :: "string \<Rightarrow> io_error + tracker_issue list"
  cd_repo :: "string \<Rightarrow> io_error + raw_repo"
  cd_settings :: "string \<Rightarrow> io_error + gh_repo_settings"
  cd_repo_pages :: "string \<Rightarrow> (io_error + raw_repo list) list"
  cd_dep_pages :: "string \<Rightarrow> (io_error + raw_dependency list) list"
  cd_time :: "string \<Rightarrow> io_error + time"

definition wrap_sum :: "string \<Rightarrow> io_error + 'a \<Rightarrow> io_error + 'a" where
  "wrap_sum s r = (case r of Inl e \<Rightarrow> Inl (Wrapped s e) | Inr a \<Rightarrow> Inr a)"

text \<open>\<open>DecodeStream\<close>: at least one page, all of them read, the end of the input after the last.\<close>

fun decode_pages :: "nat \<Rightarrow> (io_error + 'a list) list \<Rightarrow> io_error + 'a list" where
  "decode_pages pages [] = (if pages > 0 then Inr [] else Inl (Wrapped ''decode pages'' (Sentinel ''EOF'')))"
| "decode_pages pages (Inl e # rest) = Inl (Wrapped ''decode pages'' e)"
| "decode_pages pages (Inr page # rest) =
     (case decode_pages (Suc pages) rest of Inl e \<Rightarrow> Inl e | Inr later \<Rightarrow> Inr (page @ later))"

definition decode_stream :: "(io_error + 'a list) list \<Rightarrow> io_error + 'a list" where
  "decode_stream items = decode_pages 0 items"

definition list_limit :: nat where "list_limit = 100"

definition full_page_error :: io_error where
  "full_page_error = Sentinel (''gh list returned a full page at --limit 100, results may be truncated'')"

definition parse_gh_state :: "string \<Rightarrow> io_error + gh_state" where
  "parse_gh_state s =
     (if s = ''OPEN'' then Inr GhOpen else if s = ''MERGED'' then Inr GhMerged
      else if s = ''CLOSED'' then Inr GhClosed else Inl (Plain (''unknown pr state '' @ s)))"

definition parse_merged_at :: "codec \<Rightarrow> string \<Rightarrow> io_error + time" where
  "parse_merged_at K s = (if s = [] then Inr 0 else wrap_sum ''parse mergedAt'' (cd_time K s))"

definition parse_time_or_zero :: "codec \<Rightarrow> string \<Rightarrow> time" where
  "parse_time_or_zero K s = (case cd_time K s of Inl _ \<Rightarrow> 0 | Inr t \<Rightarrow> t)"

definition status_context_status :: "string \<Rightarrow> string" where
  "status_context_status state =
     (if state = ''SUCCESS'' \<or> state = ''FAILURE'' \<or> state = ''ERROR'' then ''COMPLETED'' else ''PENDING'')"

definition collapse :: "codec \<Rightarrow> raw_check \<Rightarrow> gh_check option" where
  "collapse K r =
     (let name = (if rk_name r = [] then rk_context r else rk_name r);
          context = (rk_typename r = ''StatusContext'')
      in if name = [] then None
         else Some \<lparr>gc_name = name,
           gc_status = (if context then status_context_status (rk_state r) else rk_status r),
           gc_conclusion = (if context then rk_state r else rk_conclusion r),
           gc_details_url = (if context then rk_target_url r else rk_details_url r),
           gc_started_at = parse_time_or_zero K (rk_started_at r),
           gc_completed_at = parse_time_or_zero K (rk_completed_at r)\<rparr>)"

definition check_completed :: "gh_check \<Rightarrow> bool" where
  "check_completed c = (gc_status c = ''COMPLETED'')"

definition better :: "gh_check \<Rightarrow> gh_check \<Rightarrow> bool" where
  "better candidate existing =
     (if check_completed candidate \<and> \<not> check_completed existing then True
      else if \<not> check_completed candidate \<and> check_completed existing then False
      else gc_started_at existing < gc_started_at candidate)"

definition normalise_step :: "codec \<Rightarrow> raw_check \<Rightarrow> (string, gh_check) gomap \<Rightarrow> (string, gh_check) gomap" where
  "normalise_step K r checks =
     (case collapse K r of
        None \<Rightarrow> checks
      | Some candidate \<Rightarrow>
          (case map_of checks (gc_name candidate) of
             None \<Rightarrow> put (gc_name candidate) candidate checks
           | Some existing \<Rightarrow>
               if better candidate existing then put (gc_name candidate) candidate checks else checks))"

definition normalise :: "codec \<Rightarrow> raw_check list \<Rightarrow> (string, gh_check) gomap" where
  "normalise K rollup = fold (normalise_step K) rollup []"

definition decode_pr :: "codec \<Rightarrow> raw_pr \<Rightarrow> io_error + gh_pr" where
  "decode_pr K r =
     (case wrap_sum (''decode pr '' @ itoa (rp_number r)) (parse_gh_state (rp_state r)) of
        Inl e \<Rightarrow> Inl e
      | Inr state \<Rightarrow>
          (case wrap_sum (''decode pr '' @ itoa (rp_number r)) (parse_merged_at K (rp_merged_at r)) of
             Inl e \<Rightarrow> Inl e
           | Inr merged \<Rightarrow> Inr \<lparr>gp_number = rp_number r, gp_head_ref = rp_head_ref_name r,
               gp_head_oid = rp_head_ref_oid r, gp_base_ref = rp_base_ref_name r, gp_base_oid = rp_base_ref_oid r,
               gp_author_login = rp_author_login r, gp_is_draft = rp_is_draft r, gp_state = state,
               gp_checks = normalise K (rp_rollup r), gp_labels = rp_labels r, gp_merged_at = merged\<rparr>))"

text \<open>A loop over a list that stops at the first error.\<close>

fun traverse :: "('a \<Rightarrow> io_error + 'b) \<Rightarrow> 'a list \<Rightarrow> io_error + 'b list" where
  "traverse f [] = Inr []"
| "traverse f (x # xs) =
     (case f x of Inl e \<Rightarrow> Inl e
      | Inr y \<Rightarrow> (case traverse f xs of Inl e \<Rightarrow> Inl e | Inr ys \<Rightarrow> Inr (y # ys)))"

definition decode_prs :: "codec \<Rightarrow> string \<Rightarrow> io_error + gh_pr list" where
  "decode_prs K raw =
     (case wrap_sum ''pr list'' (cd_prs K raw) of Inl e \<Rightarrow> Inl e | Inr rs \<Rightarrow> traverse (decode_pr K) rs)"

definition decode_issue_titles :: "codec \<Rightarrow> string \<Rightarrow> io_error + (string, string) gomap" where
  "decode_issue_titles K raw =
     (case wrap_sum ''issue list'' (cd_titles K raw) of
        Inl e \<Rightarrow> Inl e
      | Inr issues \<Rightarrow>
          if list_limit \<le> length issues then Inl (Wrapped ''read issues'' full_page_error)
          else Inr (fold (\<lambda>i m. put (ri_url i) (ri_title i) m) issues []))"

definition decode_pushable :: "codec \<Rightarrow> string \<Rightarrow> io_error + gh_repo_summary list" where
  "decode_pushable K raw =
     (case wrap_sum ''decode user repos'' (decode_stream (cd_repo_pages K raw)) of
        Inl e \<Rightarrow> Inl e
      | Inr repos \<Rightarrow> Inr (map (\<lambda>r. \<lparr>gr_full_name = rr_full_name r, gr_ssh_url = rr_ssh_url r,
            gr_default_branch = rr_default_branch r, gr_archived = False\<rparr>)
          (filter (\<lambda>r. rr_push r \<and> \<not> rr_archived r) repos)))"

subsection \<open>Commands\<close>

definition lift_sum :: "io_error + 'a \<Rightarrow> ('w, 'a) io" where
  "lift_sum r w = (r, w)"

definition gh_run :: "'w host \<Rightarrow> string \<Rightarrow> string list \<Rightarrow> ('w, string) io" where
  "gh_run H dir args = wrapping ''run gh'' (output_within H default_timeout dir ''gh'' args)"

definition gh_do :: "'w host \<Rightarrow> string \<Rightarrow> string \<Rightarrow> string list \<Rightarrow> ('w, unit) io" where
  "gh_do H what dir args = and_then (wrapping what (gh_run H dir args)) (\<lambda>_. ret ())"

definition bulk_fields :: string where
  "bulk_fields = ''number,headRefName,headRefOid,baseRefName,baseRefOid,isDraft,state,'' @
     ''statusCheckRollup,author,labels,mergedAt''"

definition fallback_fields :: string where
  "fallback_fields = ''number,state,baseRefName,headRefOid,labels,mergedAt''"

definition open_prs_args :: "string list" where
  "open_prs_args = [''pr'', ''list'', ''--state'', ''open'', ''--limit'', itoa (int list_limit), ''--json'', bulk_fields]"

definition branch_pr_args :: "string \<Rightarrow> string list" where
  "branch_pr_args branch =
     [''pr'', ''list'', ''--state'', ''all'', ''--head'', branch, ''--limit'', ''1'', ''--json'', fallback_fields]"

text \<open>The loop over the tracked branches that the open pull requests leave out.\<close>

fun fallback_loop ::
  "codec \<Rightarrow> 'w host \<Rightarrow> string \<Rightarrow> string list \<Rightarrow> (string, gh_pr) gomap \<Rightarrow> ('w, (string, gh_pr) gomap) io" where
  "fallback_loop K H repo [] m = ret m"
| "fallback_loop K H repo (branch # branches) m =
     (if has_key m branch then fallback_loop K H repo branches m
      else and_then (wrapping (''list pull requests for '' @ branch) (gh_run H repo (branch_pr_args branch)))
        (\<lambda>out. and_then (wrapping (''decode pr list for '' @ repo @ '' '' @ branch) (lift_sum (decode_prs K out)))
          (\<lambda>found. case found of
             [] \<Rightarrow> fallback_loop K H repo branches m
           | p # _ \<Rightarrow> fallback_loop K H repo branches (put branch (p\<lparr>gp_head_ref := branch\<rparr>) m))))"

definition list_prs ::
  "codec \<Rightarrow> 'w host \<Rightarrow> string \<Rightarrow> string list \<Rightarrow> ('w, (string, gh_pr) gomap) io" where
  "list_prs K H repo tracked =
     and_then (wrapping ''list open pull requests'' (gh_run H repo open_prs_args))
       (\<lambda>out. and_then (wrapping (''decode pr list for '' @ repo) (lift_sum (decode_prs K out)))
         (\<lambda>prs. if list_limit \<le> length prs then fail_with (Wrapped (''read pr list for '' @ repo) full_page_error)
            else fallback_loop K H repo tracked (fold (\<lambda>p m. put (gp_head_ref p) p m) prs [])))"

definition issue_titles :: "codec \<Rightarrow> 'w host \<Rightarrow> string \<Rightarrow> ('w, (string, string) gomap) io" where
  "issue_titles K H repo =
     and_then (wrapping ''list issue titles''
         (gh_run H repo [''issue'', ''list'', ''--json'', ''number,title,url'', ''--limit'', itoa (int list_limit)]))
       (\<lambda>out. wrapping (''decode issue list for '' @ repo) (lift_sum (decode_issue_titles K out)))"

definition create_args :: "string \<Rightarrow> string \<Rightarrow> bool \<Rightarrow> string list" where
  "create_args base body draft =
     [''pr'', ''create'', ''--base'', base, ''--fill'', ''--label'', ''keep-open'']
     @ (if body \<noteq> [] then [''--body'', body] else []) @ (if draft then [''--draft''] else [])"

definition create_pr :: "'w host \<Rightarrow> string \<Rightarrow> string \<Rightarrow> string \<Rightarrow> bool \<Rightarrow> ('w, unit) io" where
  "create_pr H repo base body draft = gh_do H ''create pull request'' repo (create_args base body draft)"

definition ready_pr :: "'w host \<Rightarrow> string \<Rightarrow> string \<Rightarrow> ('w, unit) io" where
  "ready_pr H repo branch = gh_do H (''ready pull request '' @ branch) repo [''pr'', ''ready'', branch]"

definition comment_pr :: "'w host \<Rightarrow> string \<Rightarrow> string \<Rightarrow> string \<Rightarrow> ('w, unit) io" where
  "comment_pr H repo branch body =
     gh_do H (''comment on pull request '' @ branch) repo [''pr'', ''comment'', branch, ''--body'', body]"

definition edit_pr :: "'w host \<Rightarrow> string \<Rightarrow> string \<Rightarrow> string \<Rightarrow> ('w, unit) io" where
  "edit_pr H repo branch base =
     gh_do H (''edit pull request '' @ branch) repo [''pr'', ''edit'', branch, ''--base'', base]"

definition close_issue :: "'w host \<Rightarrow> string \<Rightarrow> string \<Rightarrow> ('w, unit) io" where
  "close_issue H repo url = gh_do H (''close issue '' @ url) repo [''issue'', ''close'', url]"

definition read_repo_settings :: "codec \<Rightarrow> 'w host \<Rightarrow> string \<Rightarrow> ('w, gh_repo_settings) io" where
  "read_repo_settings K H name =
     wrapping (''repo settings for '' @ name)
       (and_then (gh_run H [] [''api'', ''repos/'' @ name, ''--jq'', ''{allow_merge_commit, allow_rebase_merge, default_branch}''])
         (\<lambda>out. lift_sum (cd_settings K out)))"

definition repo_remote :: "codec \<Rightarrow> 'w host \<Rightarrow> string \<Rightarrow> ('w, string) io" where
  "repo_remote K H name =
     and_then (wrapping (''remote of '' @ name)
         (and_then (gh_run H [] [''api'', ''repos/'' @ name, ''--jq'', ''{ssh_url}'']) (\<lambda>out. lift_sum (cd_repo K out))))
       (\<lambda>r. if rr_ssh_url r = [] then fail_with (Plain (''remote of '' @ name @ '': GitHub returned no ssh_url''))
            else ret (rr_ssh_url r))"

definition pushable_repos :: "codec \<Rightarrow> 'w host \<Rightarrow> ('w, gh_repo_summary list) io" where
  "pushable_repos K H =
     and_then (wrapping ''list user repos'' (gh_run H [] [''api'', ''--paginate'',
         ''user/repos?affiliation=owner,collaborator,organization_member&per_page=100'']))
       (\<lambda>out. wrapping ''decode user repos'' (lift_sum (decode_pushable K out)))"

subsection \<open>The issue tracker\<close>

record source_ticket =
  st_url :: string
  st_number :: int
  st_title :: string
  st_body :: string
  st_status :: string
  st_blocked_by :: "string list"

record github_source =
  sr_owner :: string
  sr_repo :: string

definition source_nwo :: "github_source \<Rightarrow> string" where
  "source_nwo s = sr_owner s @ ''/'' @ sr_repo s"

definition tracker_run :: "'w host \<Rightarrow> string list \<Rightarrow> ('w, string) io" where
  "tracker_run H args = wrapping ''query github tracker'' (gh_run H [] args)"

definition decode_features :: "codec \<Rightarrow> string \<Rightarrow> io_error + string list" where
  "decode_features K raw =
     (case wrap_sum ''label list'' (cd_labels K raw) of
        Inl e \<Rightarrow> Inl e
      | Inr labels \<Rightarrow>
          if list_limit \<le> length labels then Inl (Wrapped ''read labels'' full_page_error)
          else Inr (filter (\<lambda>l. has_prefix l ''project:'') labels))"

definition decode_issues :: "codec \<Rightarrow> string \<Rightarrow> io_error + tracker_issue list" where
  "decode_issues K raw =
     (case wrap_sum ''issue list'' (cd_issues K raw) of
        Inl e \<Rightarrow> Inl e
      | Inr issues \<Rightarrow>
          if list_limit \<le> length issues then Inl (Wrapped ''read issues'' full_page_error) else Inr issues)"

fun ticket_status :: "string list \<Rightarrow> string" where
  "ticket_status [] = []"
| "ticket_status (label # labels) =
     (case strip_prefix ''status:'' label of Some status \<Rightarrow> status | None \<Rightarrow> ticket_status labels)"

definition decode_blocked_by :: "codec \<Rightarrow> string \<Rightarrow> io_error + string list" where
  "decode_blocked_by K raw =
     (case wrap_sum ''blocked_by'' (decode_stream (cd_dep_pages K raw)) of
        Inl e \<Rightarrow> Inl e
      | Inr deps \<Rightarrow> Inr (map rd_html_url (filter (\<lambda>d. rd_state d \<noteq> ''closed'') deps)))"

definition source_features :: "codec \<Rightarrow> 'w host \<Rightarrow> github_source \<Rightarrow> ('w, string list) io" where
  "source_features K H s =
     and_then (wrapping ''list feature labels'' (tracker_run H [''label'', ''list'', ''-R'', source_nwo s, ''--json'', ''name'',
         ''--limit'', itoa (int list_limit)]))
       (\<lambda>out. lift_sum (decode_features K out))"

definition source_blocked_by :: "codec \<Rightarrow> 'w host \<Rightarrow> github_source \<Rightarrow> int \<Rightarrow> ('w, string list) io" where
  "source_blocked_by K H s number =
     and_then (wrapping (''list blockers for issue '' @ itoa number) (tracker_run H [''api'', ''--paginate'',
         ''repos/'' @ source_nwo s @ ''/issues/'' @ itoa number @ ''/dependencies/blocked_by'']))
       (\<lambda>out. lift_sum (decode_blocked_by K out))"

fun source_tickets_loop ::
  "codec \<Rightarrow> 'w host \<Rightarrow> github_source \<Rightarrow> tracker_issue list \<Rightarrow> ('w, source_ticket list) io" where
  "source_tickets_loop K H s [] = ret []"
| "source_tickets_loop K H s (i # issues) =
     and_then (wrapping (''read blockers for issue '' @ itoa (ti_number i)) (source_blocked_by K H s (ti_number i)))
       (\<lambda>blocked. and_then (source_tickets_loop K H s issues)
         (\<lambda>rest. ret (\<lparr>st_url = ti_url i, st_number = ti_number i, st_title = ti_title i, st_body = ti_body i,
            st_status = ticket_status (ti_labels i), st_blocked_by = blocked\<rparr> # rest)))"

definition source_tickets :: "codec \<Rightarrow> 'w host \<Rightarrow> github_source \<Rightarrow> string \<Rightarrow> ('w, source_ticket list) io" where
  "source_tickets K H s feature =
     and_then (wrapping (''list tickets for '' @ feature) (tracker_run H [''issue'', ''list'', ''-R'', source_nwo s,
         ''--state'', ''open'', ''--label'', feature, ''--json'', ''number,title,body,url,labels'',
         ''--limit'', itoa (int list_limit)]))
       (\<lambda>out. and_then (wrapping (''decode tickets for '' @ feature) (lift_sum (decode_issues K out)))
         (source_tickets_loop K H s))"

definition owner_repo :: "string \<Rightarrow> (string \<times> string) option" where
  "owner_repo remote =
     (let segments = split_char (CHR ''/'') (trim_bytes ''/'' remote)
      in if length segments < 2 then None
         else let owner = segments ! (length segments - 2); repo = last segments
              in if owner = [] \<or> repo = [] then None else Some (owner, repo))"

definition resolve_source :: "string \<Rightarrow> string \<Rightarrow> io_error + github_source" where
  "resolve_source kind remote =
     (if kind = ''github'' then
        (case owner_repo remote of
           None \<Rightarrow> Inl (Plain (''tracker: cannot read owner/repo from '' @ remote))
         | Some (owner, repo) \<Rightarrow> Inr \<lparr>sr_owner = owner, sr_repo = repo\<rparr>)
      else Inl (Plain (''tracker: no source for kind '' @ kind)))"

definition for_remote ::
  "(string \<Rightarrow> string \<Rightarrow> io_error + 'src) \<Rightarrow> string \<Rightarrow> string \<Rightarrow> io_error + 'src option" where
  "for_remote resolver kind remote =
     (if remote = [] then Inr None
      else (case resolver kind (normalise_remote remote) of
              Inl e \<Rightarrow> Inl (Wrapped (''resolve tracker for '' @ remote) e)
            | Inr src \<Rightarrow> Inr (Some src)))"

text \<open>\<open>strings.ToLower\<close> and the range over runes: a rune is lower case ASCII, a digit or something that
  becomes a hyphen. The parameter \<open>lower\<close> is the list of lower-case runes of the title.\<close>

definition slug_rune :: "int \<Rightarrow> bool" where
  "slug_rune r = (97 \<le> r \<and> r \<le> 122 \<or> 48 \<le> r \<and> r \<le> 57)"

fun slug_loop :: "bool \<Rightarrow> int list \<Rightarrow> string" where
  "slug_loop at_hyphen [] = []"
| "slug_loop at_hyphen (r # rs) =
     (if slug_rune r then char_of (nat r) # slug_loop False rs
      else if \<not> at_hyphen then CHR ''-'' # slug_loop True rs
      else slug_loop at_hyphen rs)"

definition slugify :: "(string \<Rightarrow> int list) \<Rightarrow> string \<Rightarrow> string" where
  "slugify lower title = trim_suffix (slug_loop True (lower title)) ''-''"

definition branch_slug :: "(string \<Rightarrow> int list) \<Rightarrow> int \<Rightarrow> string \<Rightarrow> string" where
  "branch_slug lower number title = ''cc-'' @ itoa number @ ''-'' @ slugify lower title"

subsection \<open>One check per name\<close>

lemma better_iff:
  "better a b \<longleftrightarrow> check_completed a \<and> \<not> check_completed b
     \<or> check_completed a = check_completed b \<and> gc_started_at b < gc_started_at a"
  by (auto simp: better_def)

lemma not_better_trans: "\<not> better a b \<Longrightarrow> \<not> better b c \<Longrightarrow> \<not> better a c"
  by (auto simp: better_iff)

definition best_of :: "codec \<Rightarrow> raw_check list \<Rightarrow> string \<Rightarrow> gh_check \<Rightarrow> bool" where
  "best_of K rollup name c \<longleftrightarrow>
     gc_name c = name \<and> (\<exists>r \<in> set rollup. collapse K r = Some c)
     \<and> (\<forall>r \<in> set rollup. \<forall>d. collapse K r = Some d \<longrightarrow> gc_name d = name \<longrightarrow> \<not> better d c)"

lemma normalise_snoc: "normalise K (rollup @ [r]) = normalise_step K r (normalise K rollup)"
  by (simp add: normalise_def)

lemma best_of_keep:
  "best_of K rollup n e \<Longrightarrow> (\<And>d. collapse K r = Some d \<Longrightarrow> gc_name d = n \<Longrightarrow> \<not> better d e) \<Longrightarrow>
     best_of K (rollup @ [r]) n e"
  by (auto simp: best_of_def)

lemma best_of_take:
  assumes "best_of K rollup (gc_name d) e" "collapse K r = Some d" "better d e"
  shows "best_of K (rollup @ [r]) (gc_name d) d"
proof -
  have "\<not> better x d" if "q \<in> set rollup" "collapse K q = Some x" "gc_name x = gc_name d" for q x
    using assms(1,3) that not_better_trans [of x e d] by (auto simp: best_of_def better_iff)
  then show ?thesis using assms(2) by (auto simp: best_of_def better_iff)
qed

text \<open>The checks of a pull request hold, for every name that occurs in the rollup, one of the entries
  of that name with none better: a completed one before an unfinished one, the latest started among
  these. A name that does not occur has no entry.\<close>

theorem normalise_keeps_best:
  "case map_of (normalise K rollup) name of
     Some c \<Rightarrow> best_of K rollup name c
   | None \<Rightarrow> \<not> (\<exists>r \<in> set rollup. \<exists>d. collapse K r = Some d \<and> gc_name d = name)"
proof (induction rollup rule: rev_induct)
  case Nil
  then show ?case by (simp add: normalise_def)
next
  case (snoc r rollup)
  show ?case
  proof (cases "collapse K r")
    case None
    with snoc show ?thesis
      by (auto simp: normalise_snoc normalise_step_def intro!: best_of_keep split: option.splits)
  next
    case (Some d)
    show ?thesis
    proof (cases "gc_name d = name")
      case False
      with snoc Some show ?thesis
        by (auto simp: normalise_snoc normalise_step_def update_conv intro!: best_of_keep split: option.splits if_splits)
    next
      case True
      then show ?thesis
      proof (cases "map_of (normalise K rollup) name")
        case None
        with snoc Some True show ?thesis
          by (auto simp: normalise_snoc normalise_step_def update_conv best_of_def better_iff)
      next
        case (Some e)
        with snoc \<open>collapse K r = Some d\<close> True best_of_take [of K rollup d e r] show ?thesis
          by (auto simp: normalise_snoc normalise_step_def update_conv intro!: best_of_keep)
      qed
    qed
  qed
qed

subsection \<open>Branch names of tickets\<close>

lemma cut_before_char: "c \<notin> set a \<Longrightarrow> cut_before [c] (a @ c # b) = a"
  by (simp add: cut_before_def cut_char_notin)

lemma itoa_no_hyphen: "0 \<le> n \<Longrightarrow> CHR ''-'' \<notin> set (itoa n)"
  using nat_text_digits [of "CHR ''-''" "nat n"] by (auto simp: itoa_def)

text \<open>The branch name made for a ticket reads back as the ticket's number, which is what orders the
  branches that conflict.\<close>

theorem branch_slug_roundtrip:
  assumes "0 \<le> n" "n \<le> max_int"
  shows "branch_number (branch_slug lower n title) = Some n"
  using assms cut_before_char [OF itoa_no_hyphen [OF assms(1)], of "slugify lower title"]
  by (simp add: branch_number_def branch_slug_def atoi_itoa min_int_def)

theorem branch_slug_roundtrip_witness:
  "branch_slug (map of_char) 17 ''fix it!'' = ''cc-17-fix-it'' \<and> branch_number ''cc-17-fix-it'' = Some 17"
proof -
  have s: "branch_slug (map of_char) 17 ''fix it!'' = ''cc-17-fix-it''" by code_simp
  with branch_slug_roundtrip [of 17 "map of_char" "''fix it!''"] show ?thesis by (simp add: max_int_def)
qed

definition slug_char :: "char \<Rightarrow> bool" where
  "slug_char c = slug_rune (int (of_char c))"

text \<open>No hyphen follows a hyphen; the flag says whether one stands before the string.\<close>

fun hyphens_apart :: "bool \<Rightarrow> string \<Rightarrow> bool" where
  "hyphens_apart h [] = True"
| "hyphens_apart h (c # s) = (\<not> (h \<and> c = CHR ''-'') \<and> hyphens_apart (c = CHR ''-'') s)"

lemma slug_rune_char: "slug_rune r \<Longrightarrow> slug_char (char_of (nat r))"
  by (auto simp: slug_char_def slug_rune_def)

lemma slug_char_no_hyphen: "\<not> slug_char (CHR ''-'')"
  by (simp add: slug_char_def slug_rune_def)

lemma slug_loop_chars: "c \<in> set (slug_loop h rs) \<Longrightarrow> slug_char c \<or> c = CHR ''-''"
  by (induction h rs rule: slug_loop.induct) (auto simp: slug_rune_char split: if_splits)

lemma slug_loop_apart: "hyphens_apart h (slug_loop h rs)"
proof (induction h rs rule: slug_loop.induct)
  case (2 h r rs)
  have "char_of (nat r) \<noteq> CHR ''-''" if "slug_rune r"
    using slug_rune_char [OF that] slug_char_no_hyphen by metis
  with 2 show ?case by auto
qed simp

lemma hyphens_apart_append: "hyphens_apart h (a @ b) \<Longrightarrow> hyphens_apart h a"
  by (induction a arbitrary: h) auto

lemma hyphens_apart_last: "hyphens_apart h (a @ [CHR ''-'']) \<Longrightarrow> a \<noteq> [] \<Longrightarrow> last a \<noteq> CHR ''-''"
  by (induction a arbitrary: h) (auto split: if_splits)

text \<open>The slug of a title is made of lower-case ASCII letters, digits and single hyphens between them,
  so it is safe in a branch name and in a path whatever the title is.\<close>

theorem slug_is_clean:
  "(\<forall>c \<in> set (slugify lower title). slug_char c \<or> c = CHR ''-'')
   \<and> hyphens_apart True (slugify lower title)
   \<and> (slugify lower title = [] \<or> last (slugify lower title) \<noteq> CHR ''-'')"
proof -
  let ?l = "slug_loop True (lower title)"
  show ?thesis
  proof (cases "has_suffix ?l ''-''")
    case True
    then obtain a where a: "?l = a @ ''-''" by (auto simp: has_suffix_iff)
    have e: "slugify lower title = a" by (simp only: slugify_def a trim_suffix_append)
    have "hyphens_apart True (a @ ''-'')" using slug_loop_apart [of True "lower title"] a by simp
    with e slug_loop_chars [of _ True "lower title"] a show ?thesis
      by (auto dest: hyphens_apart_append hyphens_apart_last)
  next
    case False
    then have e: "slugify lower title = ?l" by (simp add: slugify_def trim_suffix_id)
    have "?l = [] \<or> last ?l \<noteq> CHR ''-''"
      using False by (metis append_butlast_last_id has_suffix_append)
    with e slug_loop_chars [of _ True "lower title"] slug_loop_apart show ?thesis by auto
  qed
qed

theorem slug_is_clean_witness:
  "\<forall>c \<in> set (slugify (map of_char) ''a / b''). slug_char c \<or> c = CHR ''-''"
  using slug_is_clean [of "map of_char" "''a / b''"] by blast

subsection \<open>Lists are whole or refused\<close>

text \<open>Looking a branch up on its own never replaces a pull request of the bulk list.\<close>

lemma fallback_loop_keeps:
  "fallback_loop K H repo branches m w = (Inr m', w') \<Longrightarrow> map_of m b = Some p \<Longrightarrow> map_of m' b = Some p"
proof (induction branches arbitrary: m w)
  case (Cons branch branches)
  show ?case
  proof (cases "has_key m branch")
    case True
    with Cons show ?thesis by simp
  next
    case False
    with Cons.prems(2) have "b \<noteq> branch" by (auto simp: has_key_def)
    from False Cons.prems(1) obtain found w1 where
      f: "(case found of [] \<Rightarrow> fallback_loop K H repo branches m
           | p # _ \<Rightarrow> fallback_loop K H repo branches (put branch (p\<lparr>gp_head_ref := branch\<rparr>) m)) w1 = (Inr m', w')"
      by (auto simp: and_then_Inr)
    then show ?thesis
      using Cons.IH [of m w1] Cons.IH [of _ w1] Cons.prems(2) \<open>b \<noteq> branch\<close>
      by (cases found) (auto simp: update_conv)
  qed
qed simp

lemma bulk_map: "b \<notin> gp_head_ref ` set prs \<Longrightarrow> map_of (fold (\<lambda>p m. put (gp_head_ref p) p m) prs m) b = map_of m b"
  by (induction prs arbitrary: m) (auto simp: update_conv)

lemma bulk_map_in:
  "p \<in> set prs \<Longrightarrow> \<exists>q \<in> set prs. gp_head_ref q = gp_head_ref p
     \<and> map_of (fold (\<lambda>p m. put (gp_head_ref p) p m) prs m) (gp_head_ref p) = Some q"
proof (induction prs arbitrary: p m)
  case (Cons x prs)
  show ?case
  proof (cases "gp_head_ref p \<in> gp_head_ref ` set prs")
    case True
    then obtain p' where "p' \<in> set prs" "gp_head_ref p' = gp_head_ref p" by force
    from Cons.IH [OF this(1), of "put (gp_head_ref x) x m"] this(2) show ?thesis by auto
  next
    case False
    with Cons.prems have "p = x" by auto
    with False show ?thesis by (auto simp: bulk_map update_conv)
  qed
qed simp

text \<open>C32: Reading a repository's pull requests succeeds only on a first page below the limit, and each open
  pull request of that page is in the result under its branch, whatever the lookups of the other
  branches find (of several with one branch, one of them).\<close>

theorem list_keeps_open_prs:
  assumes "list_prs K H repo tracked w = (Inr m, w')"
  shows "\<exists>out w1 prs. gh_run H repo open_prs_args w = (Inr out, w1) \<and> decode_prs K out = Inr prs
    \<and> length prs < 100
    \<and> (\<forall>p \<in> set prs. \<exists>q \<in> set prs. gp_head_ref q = gp_head_ref p \<and> map_of m (gp_head_ref p) = Some q)"
proof -
  from assms obtain out w1 prs where o: "gh_run H repo open_prs_args w = (Inr out, w1)" "decode_prs K out = Inr prs"
    and l: "\<not> list_limit \<le> length prs"
    and f: "fallback_loop K H repo tracked (fold (\<lambda>p m. put (gp_head_ref p) p m) prs []) w1 = (Inr m, w')"
    by (auto simp: list_prs_def and_then_Inr lift_sum_def split: if_splits)
  then show ?thesis using bulk_map_in [of _ prs "[]"] fallback_loop_keeps [OF f]
    by (fastforce simp: list_limit_def)
qed

definition quiet_host :: "'w host" where
  "quiet_host = \<lparr>h_exec = (\<lambda>_ _ _ _ w. (\<lparr>po_stdout = [], po_stderr = [], po_err = None, po_deadline = False\<rparr>, w)),
     h_stat = (\<lambda>_ _. None), h_read = (\<lambda>_ _. Inr []), h_mkdir = (\<lambda>_ w. (None, w))\<rparr>"

definition sample_raw_pr :: raw_pr where
  "sample_raw_pr = \<lparr>rp_number = 7, rp_head_ref_name = ''cc-1-a'', rp_head_ref_oid = ''c0ffee'', rp_base_ref_name = ''main'',
     rp_base_ref_oid = ''f00d'', rp_is_draft = False, rp_state = ''OPEN'', rp_author_login = ''me'', rp_rollup = [],
     rp_labels = [], rp_merged_at = []\<rparr>"

definition sample_codec :: "raw_pr list \<Rightarrow> codec" where
  "sample_codec prs = \<lparr>cd_prs = (\<lambda>_. Inr prs), cd_titles = (\<lambda>_. Inr []), cd_labels = (\<lambda>_. Inr []),
     cd_issues = (\<lambda>_. Inr []), cd_repo = (\<lambda>_. Inl (Plain [])), cd_settings = (\<lambda>_. Inl (Plain [])),
     cd_repo_pages = (\<lambda>_. []), cd_dep_pages = (\<lambda>_. []), cd_time = (\<lambda>_. Inr 0)\<rparr>"

lemma sample_list:
  "\<exists>m. list_prs (sample_codec [sample_raw_pr]) quiet_host ''/r'' [''cc-1-a''] () = (Inr m, ())
     \<and> gp_number (the (map_of m ''cc-1-a'')) = 7"
  by (simp add: list_prs_def and_then_def wrapping_def gh_run_def output_within_def quiet_host_def lift_sum_def
      finish_cmd_def wrap_err_def decode_prs_def sample_codec_def wrap_sum_def decode_pr_def sample_raw_pr_def
      parse_gh_state_def parse_merged_at_def list_limit_def)

theorem list_keeps_open_prs_witness:
  "\<exists>m q. list_prs (sample_codec [sample_raw_pr]) quiet_host ''/r'' [''cc-1-a''] () = (Inr m, ()) \<and>
     map_of m ''cc-1-a'' = Some q"
proof -
  obtain m where m: "list_prs (sample_codec [sample_raw_pr]) quiet_host ''/r'' [''cc-1-a''] () = (Inr m, ())"
    using sample_list by blast
  from list_keeps_open_prs [OF m] obtain out prs where d: "decode_prs (sample_codec [sample_raw_pr]) out = Inr prs"
    and q: "\<forall>p \<in> set prs. \<exists>q \<in> set prs. gp_head_ref q = gp_head_ref p \<and> map_of m (gp_head_ref p) = Some q"
    by blast
  from d obtain p where "prs = [p]" "gp_head_ref p = ''cc-1-a''"
    by (auto simp: decode_prs_def sample_codec_def wrap_sum_def decode_pr_def sample_raw_pr_def parse_gh_state_def
        parse_merged_at_def)
  with m q show ?thesis by auto
qed

end
