(* ===== verification/Config.thy ===== *)
theory Config imports Command Derive begin

text \<open>
  The configuration: \<open>internal/config\<close>. A repository's settings file and the daemon's own
  configuration are TOML, decoded by a third-party library whose answer is a parameter
  (\<open>toml_answer\<close>); what the code checks and fills in afterwards is modelled whole.
\<close>

subsection \<open>reposettings.go\<close>

datatype 'a toml_answer =
    Toml_parse_error int string
  | Toml_error string
  | Toml_decoded 'a "string list list"

datatype settings_error = Settings_line int string | Settings_decode string

datatype settings_source = SourceDefaults | SourceFile

definition default_repo_settings :: repo_settings where
  "default_repo_settings = no_settings\<lparr>rs_tracker := ''github''\<rparr>"

definition used_fields :: "predicate \<Rightarrow> bool list" where
  "used_fields p =
     [p_all_of p \<noteq> [], p_any_of p \<noteq> [], p_not p \<noteq> None, p_success p \<noteq> [], p_skipped p \<noteq> [],
      p_absent_ok p \<noteq> [], p_author p \<noteq> []]"

definition too_many :: string where
  "too_many = ''a predicate node sets more than one of all_of, any_of, not, success, skipped, absent_ok, author''"

text \<open>\<open>validatePredicate\<close>; the children are visited in the order all_of, any_of, not.\<close>

fun validate_predicate :: "predicate \<Rightarrow> bool \<Rightarrow> string option"
  and validate_children :: "predicate list \<Rightarrow> string option" where
  "validate_predicate (Predicate ps qs n s k a u) root =
     (let p = Predicate ps qs n s k a u in
      if predicate_is_zero p then (if root then None else Some ''empty predicate'')
      else if length (filter id (used_fields p)) > 1 then Some too_many
      else (case validate_children ps of Some e \<Rightarrow> Some e
            | None \<Rightarrow> (case validate_children qs of Some e \<Rightarrow> Some e
              | None \<Rightarrow> (case n of None \<Rightarrow> None | Some q \<Rightarrow> validate_predicate q False))))"
| "validate_children [] = None"
| "validate_children (p # ps) = (case validate_predicate p False of Some e \<Rightarrow> Some e | None \<Rightarrow> validate_children ps)"

definition blanks :: string where "blanks = [CHR '' '', CHR 0x09]"

text \<open>The loop over the occurrences of the name: \<open>before\<close> is what stands in front of the current one.\<close>

function names_key_from :: "string \<Rightarrow> string \<Rightarrow> string \<Rightarrow> bool" where
  "names_key_from before line name =
     (case str_cut name line of
        None \<Rightarrow> False
      | Some (a, after) \<Rightarrow>
          let front = before @ a; rest = trim_left_bytes blanks after
          in if (front = [] \<or> last front \<in> set (''[.'' @ blanks))
                \<and> (has_prefix rest ''='' \<or> has_prefix rest '']'' \<or> has_prefix after ''.'')
             then True
             else if name @ after = [] then False
             else names_key_from (front @ [hd (name @ after)]) (tl (name @ after)) name)"
  by auto
termination
proof (relation "measure (\<lambda>(_, line, _). length line)")
  fix before line name :: string and x a after
  assume c: "str_cut name line = Some x" "(a, after) = x" "\<not> name @ after = []"
  then have "line = a @ name @ after" by (metis cut_Some_append)
  with c(3) show "((f, tl (name @ after), name), before, line, name) \<in> measure (\<lambda>(_, line, _). length line)" for f
    by (cases name; cases after) auto
qed simp

definition names_key :: "string \<Rightarrow> string \<Rightarrow> bool" where
  "names_key line name = names_key_from [] line name"

fun line_of_from :: "nat \<Rightarrow> string list \<Rightarrow> string \<Rightarrow> int" where
  "line_of_from i [] name = 0"
| "line_of_from i (l # ls) name = (if names_key (trim_space l) name then int i + 1 else line_of_from (Suc i) ls name)"

definition line_of_key :: "string \<Rightarrow> string list \<Rightarrow> int" where
  "line_of_key body key = line_of_from 0 (split_char newline body) (last key)"

definition parse_repo_settings ::
  "(string \<Rightarrow> repo_settings toml_answer) \<Rightarrow> string \<Rightarrow> settings_error + repo_settings" where
  "parse_repo_settings toml body =
     (case toml body of
        Toml_parse_error line e \<Rightarrow> Inl (Settings_line line e)
      | Toml_error e \<Rightarrow> Inl (Settings_decode e)
      | Toml_decoded settings0 undecoded \<Rightarrow>
          let settings = (if rs_tracker settings0 = [] then settings0\<lparr>rs_tracker := ''github''\<rparr> else settings0)
          in case undecoded of
               key # _ \<Rightarrow> Inl (Settings_line (line_of_key body key) (''unknown key '' @ join ''.'' key))
             | [] \<Rightarrow>
                 (case validate_predicate (rs_checks settings) True of
                    Some e \<Rightarrow> Inl (Settings_line (line_of_key body [''checks'']) (''invalid checks: '' @ e))
                  | None \<Rightarrow> Inr settings))"

definition read_settings_file ::
  "(string \<Rightarrow> repo_settings toml_answer) \<Rightarrow> string \<Rightarrow> bool \<Rightarrow> settings_error + (repo_settings \<times> settings_source)" where
  "read_settings_file toml body found =
     (if \<not> found then Inr (default_repo_settings, SourceDefaults)
      else (case parse_repo_settings toml body of Inl e \<Rightarrow> Inl e | Inr s \<Rightarrow> Inr (s, SourceFile)))"

definition settings_error_text :: "settings_error \<Rightarrow> string" where
  "settings_error_text e = (case e of Settings_line n m \<Rightarrow> ''line '' @ itoa n @ '': '' @ m
     | Settings_decode m \<Rightarrow> ''decode repo settings: '' @ m)"

subsection \<open>file.go, config.go, env.go and statedir.go\<close>

record file_config =
  fc_data_dir :: string
  fc_database_url :: string
  fc_claude_projects_dir :: string
  fc_max_agents :: int
  fc_port :: int
  fc_agent_command :: "string list"
  fc_max_turns :: int
  fc_spend_limit_5h :: int
  fc_board_poll_seconds :: int

record config =
  cf_data_dir :: string
  cf_database_url :: string
  cf_claude_projects_dir :: string
  cf_max_agents :: int
  cf_port :: int
  cf_agent_command :: "string list"
  cf_max_turns :: int
  cf_spend_limit_5h :: int
  cf_board_poll_seconds :: int

record env =
  ev_data_dir :: string
  ev_database_url :: string
  ev_agent_command :: string
  ev_home :: string
  ev_user_config_dir :: string
  ev_tz :: string

definition default_agent_command :: "string list" where
  "default_agent_command =
     [''claude'', ''-p'', ''{prompt}'', ''--output-format'', ''stream-json'', ''--verbose'',
      ''--settings'', ''{settings}'', ''--append-system-prompt-file'', ''{system_prompt}'',
      ''--permission-mode'', ''auto'', ''--model'', ''{model}'', ''--effort'', ''{effort}'', ''{tools}'', ''{session}'']"

definition default_file :: file_config where
  "default_file = \<lparr>fc_data_dir = [], fc_database_url = [], fc_claude_projects_dir = [], fc_max_agents = 1,
     fc_port = 7777, fc_agent_command = default_agent_command, fc_max_turns = 0, fc_spend_limit_5h = 0,
     fc_board_poll_seconds = 5\<rparr>"

datatype config_error =
    Bad_path string
  | Bad_command string
  | Bad_values "config_error list"
  | Invalid_value string string
  | Missing_key string

definition env_from :: "bool \<Rightarrow> (string \<Rightarrow> string) \<Rightarrow> config_error + env" where
  "env_from darwin lookup =
     (let home = lookup ''HOME''; xdg = lookup ''XDG_CONFIG_HOME'' in
      if home = [] then Inl (Bad_path ''HOME is not set'')
      else Inr \<lparr>ev_data_dir = lookup ''CC_DATA_DIR'', ev_database_url = lookup ''CC_DATABASE_URL'',
        ev_agent_command = lookup ''CC_AGENT_COMMAND'', ev_home = home,
        ev_user_config_dir = (if xdg \<noteq> [] then xdg
           else if darwin then path_join home ''Library/Application Support''
           else path_join home ''.config''),
        ev_tz = lookup ''TZ''\<rparr>)"

definition expand_home :: "string \<Rightarrow> string \<Rightarrow> config_error + string" where
  "expand_home path home =
     (if path \<noteq> ''~'' \<and> \<not> has_prefix path ''~/'' then Inr path
      else if home = [] then Inl (Bad_path (''expand '' @ path @ '': home directory is unknown''))
      else Inr (path_join home (trim_prefix path ''~'')))"

text \<open>\<open>filepath.Abs\<close>: a relative path is under the working directory, the parameter \<open>cwd\<close>.\<close>

definition path_abs :: "string \<Rightarrow> string \<Rightarrow> string" where
  "path_abs cwd p = (if is_abs p then path_clean p else path_join cwd p)"

definition resolve_database_url :: "string \<Rightarrow> env \<Rightarrow> string" where
  "resolve_database_url configured e =
     (if configured \<noteq> [] then configured
      else if ev_database_url e \<noteq> [] then ev_database_url e
      else ''postgres://cc:cc@localhost:5432/cc?sslmode=disable'')"

definition resolve_data_dir :: "string \<Rightarrow> string \<Rightarrow> env \<Rightarrow> config_error + string" where
  "resolve_data_dir cwd configured e =
     (let dir = (if configured = [] then ev_data_dir e else configured) in
      if dir = [] \<and> ev_user_config_dir e = [] then
        Inl (Bad_path ''resolve data dir: no data_dir, CC_DATA_DIR or user config dir'')
      else case expand_home (if dir = [] then path_join (ev_user_config_dir e) ''command-centre'' else dir) (ev_home e) of
             Inl err \<Rightarrow> Inl err
           | Inr d \<Rightarrow> Inr (path_abs cwd d))"

definition resolve_claude_projects_dir :: "string \<Rightarrow> string \<Rightarrow> env \<Rightarrow> config_error + string" where
  "resolve_claude_projects_dir cwd configured e =
     (case expand_home (if configured = [] then ''~/.claude/projects'' else configured) (ev_home e) of
        Inl err \<Rightarrow> Inl err
      | Inr d \<Rightarrow> Inr (path_abs cwd d))"

text \<open>\<open>json.Unmarshal\<close> into a list of strings is the parameter \<open>argv_of\<close>.\<close>

definition agent_command_from ::
  "(string \<Rightarrow> string list option) \<Rightarrow> string list \<Rightarrow> env \<Rightarrow> config_error + string list" where
  "agent_command_from argv_of configured e =
     (if ev_agent_command e = [] then Inr configured
      else case argv_of (ev_agent_command e) of
             None \<Rightarrow> Inl (Bad_command ''CC_AGENT_COMMAND is not a JSON array of strings'')
           | Some [] \<Rightarrow> Inl (Bad_command ''CC_AGENT_COMMAND is an empty array'')
           | Some argv \<Rightarrow> Inr argv)"

definition required_parts :: "string list" where
  "required_parts = [''--permission-mode'', ''{system_prompt}'', ''{model}'']"

definition config_problems :: "config \<Rightarrow> config_error list" where
  "config_problems c =
     (if cf_port c < 1 \<or> 65535 < cf_port c
      then [Invalid_value ''port'' (''must be 1 to 65535, got '' @ itoa (cf_port c))] else [])
     @ (if cf_max_agents c < 1
        then [Invalid_value ''max_agents'' (''must be at least 1, got '' @ itoa (cf_max_agents c))] else [])
     @ (if cf_spend_limit_5h c < 0 \<or> 100 < cf_spend_limit_5h c
        then [Invalid_value ''spend_limit_5h'' (''must be 0 to 100, got '' @ itoa (cf_spend_limit_5h c))] else [])
     @ (if cf_board_poll_seconds c < 1
        then [Invalid_value ''board_poll_seconds'' (''must be at least 1, got '' @ itoa (cf_board_poll_seconds c))] else [])
     @ (if cf_max_turns c < 0
        then [Invalid_value ''max_turns'' (''must not be negative, got '' @ itoa (cf_max_turns c))] else [])
     @ (if cf_agent_command c \<noteq> []
        then map Missing_key (filter (\<lambda>part. part \<notin> set (cf_agent_command c)) required_parts) else [])"

definition resolve_config ::
  "string \<Rightarrow> (string \<Rightarrow> string list option) \<Rightarrow> file_config \<Rightarrow> env \<Rightarrow> config_error + config" where
  "resolve_config cwd argv_of f e =
     (case resolve_data_dir cwd (fc_data_dir f) e of Inl err \<Rightarrow> Inl err | Inr data \<Rightarrow>
      case resolve_claude_projects_dir cwd (fc_claude_projects_dir f) e of Inl err \<Rightarrow> Inl err | Inr claude \<Rightarrow>
      case agent_command_from argv_of (fc_agent_command f) e of Inl err \<Rightarrow> Inl err | Inr argv \<Rightarrow>
      let cfg = \<lparr>cf_data_dir = data, cf_database_url = resolve_database_url (fc_database_url f) e,
            cf_claude_projects_dir = claude, cf_max_agents = fc_max_agents f, cf_port = fc_port f,
            cf_agent_command = argv, cf_max_turns = fc_max_turns f, cf_spend_limit_5h = fc_spend_limit_5h f,
            cf_board_poll_seconds = fc_board_poll_seconds f\<rparr>
      in if config_problems cfg \<noteq> [] then Inl (Bad_values (config_problems cfg))
         else Inr (if 0 < cf_max_turns cfg \<and> cf_agent_command cfg \<noteq> []
                   then cfg\<lparr>cf_agent_command := cf_agent_command cfg @ [''--max-turns'', itoa (cf_max_turns cfg)]\<rparr>
                   else cfg))"

definition checkout_path :: "string \<Rightarrow> string \<Rightarrow> string" where
  "checkout_path data_dir name = path_join data_dir (''repos/'' @ name)"

subsection \<open>workflow.go\<close>

text \<open>The prompts of the steps are files embedded at build time, and the hash is SHA-256 of the JSON text;
  both are parameters.\<close>

definition plain_step :: "string \<Rightarrow> step" where
  "plain_step name = \<lparr>s_name = name, s_command = False, s_model = [], s_tools = [], s_prompt = [],
     s_writes = False, s_on_fail = False\<rparr>"

definition v1_workflow :: "(string \<Rightarrow> string) \<Rightarrow> workflow" where
  "v1_workflow prompt = \<lparr>w_name = ''v1'', w_hash = [], w_steps =
     [(plain_step ''setup'')\<lparr>s_command := True\<rparr>,
      (plain_step ''read'')\<lparr>s_model := ''haiku'', s_tools := [''Read'', ''Grep'', ''Glob''], s_writes := True,
        s_prompt := prompt ''read''\<rparr>,
      (plain_step ''implement'')\<lparr>s_model := ''sonnet'', s_tools := [''Read'', ''Edit'', ''Write'', ''Bash''],
        s_prompt := prompt ''implement''\<rparr>,
      (plain_step ''check'')\<lparr>s_command := True\<rparr>,
      (plain_step ''review'')\<lparr>s_model := ''sonnet'', s_tools := [''Read'', ''Grep'', ''Glob''], s_writes := True,
        s_prompt := prompt ''review''\<rparr>,
      (plain_step ''fix'')\<lparr>s_model := ''sonnet'', s_tools := [''Read'', ''Edit'', ''Bash''], s_on_fail := True,
        s_prompt := prompt ''fix''\<rparr>,
      (plain_step ''pr'')\<lparr>s_model := ''haiku'', s_tools := [''Read''], s_writes := True, s_prompt := prompt ''pr''\<rparr>],
     w_max_fix_rounds = 2\<rparr>"

definition builtin_workflows :: "(string \<Rightarrow> string) \<Rightarrow> workflow list" where
  "builtin_workflows prompt =
     [\<lparr>w_name = ''v0'', w_hash = [], w_steps = [plain_step ''implement''], w_max_fix_rounds = 0\<rparr>, v1_workflow prompt]"

definition workflows :: "(workflow \<Rightarrow> string) \<Rightarrow> (string \<Rightarrow> string) \<Rightarrow> (string, workflow) gomap" where
  "workflows hash prompt = fold (\<lambda>w m. put (w_name w) (w\<lparr>w_hash := hash (w\<lparr>w_hash := []\<rparr>)\<rparr>) m) (builtin_workflows prompt) []"

subsection \<open>What is accepted\<close>

text \<open>A node of an accepted predicate uses one form, and so do the nodes under it.\<close>

fun one_form :: "predicate \<Rightarrow> bool" where
  "one_form (Predicate ps qs n s k a u) =
     (length (filter id (used_fields (Predicate ps qs n s k a u))) = 1
      \<and> list_all one_form ps \<and> list_all one_form qs \<and> (case n of None \<Rightarrow> True | Some q \<Rightarrow> one_form q))"

lemma zero_iff_unused: "predicate_is_zero p \<longleftrightarrow> filter id (used_fields p) = []"
  by (auto simp: predicate_is_zero_def used_fields_def)

lemma validate_one_form:
  "validate_predicate p root = None \<longleftrightarrow> one_form p \<or> (root \<and> predicate_is_zero p)"
  "validate_children ps = None \<longleftrightarrow> list_all one_form ps"
proof (induction p root and ps rule: validate_predicate_validate_children.induct)
  case (1 ps qs n s k a u root)
  let ?p = "Predicate ps qs n s k a u"
  have z: "predicate_is_zero ?p \<Longrightarrow> \<not> one_form ?p" by (simp add: zero_iff_unused)
  show ?case
  proof (cases "predicate_is_zero ?p \<or> length (filter id (used_fields ?p)) > 1")
    case True
    with z show ?thesis by (auto simp: Let_def)
  next
    case False
    then have "length (filter id (used_fields ?p)) = 1"
      by (auto simp: zero_iff_unused) (metis Suc_lessI length_greater_0_conv One_nat_def)
    with False 1 show ?thesis
      by (cases "validate_children ps"; cases "validate_children qs"; cases n) (auto simp: Let_def)
  qed
qed (auto split: option.splits)

text \<open>A settings file is accepted exactly when it parses, has no unknown key, and every node of its
  check predicate uses one form (or the predicate is absent at the root); the accepted settings name a
  tracker. A file that is refused names a line, unless the parser gave none.\<close>

theorem settings_accepted_exactly:
  "parse_repo_settings toml body = Inr s \<longleftrightarrow>
     (\<exists>s0. toml body = Toml_decoded s0 [] \<and> (one_form (rs_checks s0) \<or> predicate_is_zero (rs_checks s0))
        \<and> s = (if rs_tracker s0 = [] then s0\<lparr>rs_tracker := ''github''\<rparr> else s0))"
  by (cases "toml body")
    (auto simp: parse_repo_settings_def Let_def validate_one_form(1) [of _ True, simplified, symmetric]
      split: list.splits option.splits)

text \<open>The daemon starts only on a configuration whose port, number of agents, spend limit, poll interval
  and turn limit are in range and whose agent command, when there is one, has every part a run needs;
  the turn limit is appended to the command.\<close>

theorem config_in_range:
  assumes "resolve_config cwd argv_of f e = Inr c"
  shows "1 \<le> cf_port c \<and> cf_port c \<le> 65535 \<and> 1 \<le> cf_max_agents c
    \<and> 0 \<le> cf_spend_limit_5h c \<and> cf_spend_limit_5h c \<le> 100 \<and> 1 \<le> cf_board_poll_seconds c
    \<and> 0 \<le> cf_max_turns c
    \<and> (cf_agent_command c = [] \<or> set required_parts \<subseteq> set (cf_agent_command c))
    \<and> (0 < cf_max_turns c \<and> cf_agent_command c \<noteq> [] \<longrightarrow>
         (\<exists>argv. cf_agent_command c = argv @ [''--max-turns'', itoa (cf_max_turns c)]))"
  using assms
  by (auto simp: resolve_config_def config_problems_def Let_def filter_empty_conv split: sum.splits if_splits)

definition sample_env :: env where
  "sample_env = \<lparr>ev_data_dir = ''/data'', ev_database_url = [], ev_agent_command = [], ev_home = ''/home/me'',
     ev_user_config_dir = [], ev_tz = []\<rparr>"

lemma sample_config:
  "\<exists>c. resolve_config ''/'' (\<lambda>_. None) (default_file\<lparr>fc_max_turns := 5\<rparr>) sample_env = Inr c \<and> cf_max_turns c = 5"
  by (simp add: resolve_config_def resolve_data_dir_def resolve_claude_projects_dir_def agent_command_from_def
      default_file_def sample_env_def config_problems_def required_parts_def default_agent_command_def
      expand_home_def has_prefix_def Let_def)

theorem config_in_range_witness:
  "\<exists>c argv. resolve_config ''/'' (\<lambda>_. None) (default_file\<lparr>fc_max_turns := 5\<rparr>) sample_env = Inr c \<and>
     (cf_agent_command c = [] \<or> cf_agent_command c = argv @ [''--max-turns'', itoa 5])"
proof -
  from sample_config obtain c where
    "resolve_config ''/'' (\<lambda>_. None) (default_file\<lparr>fc_max_turns := 5\<rparr>) sample_env = Inr c" "cf_max_turns c = 5"
    by blast
  with config_in_range [OF this(1)] show ?thesis by auto
qed

text \<open>Every built-in workflow is well formed, whatever its embedded prompts are, with or without a
  verify command: its step names are distinct, it has a forward step to begin with, and it is found
  under its name.\<close>

theorem builtin_workflows_well_formed:
  assumes "w \<in> set (builtin_workflows prompt)"
  shows "well_formed w \<and> first_step w hv \<noteq> None \<and> map_of (workflows hash prompt) (w_name w) \<noteq> None"
  using assms
  by (auto simp: builtin_workflows_def v1_workflow_def plain_step_def well_formed_def first_step_def
      split_steps_def workflows_def)

theorem builtin_workflows_well_formed_witness:
  "well_formed (v1_workflow id) \<and> first_step (v1_workflow id) False \<noteq> None"
  using builtin_workflows_well_formed [of "v1_workflow id" id False] by (simp add: builtin_workflows_def)

end
