(* ===== verification/Observe.thy ===== *)
theory Observe imports Git Gh Config begin

text \<open>
  How the daemon looks at the world: \<open>internal/loop/observe.go\<close>. Each observable repository is read
  through git and the forge into an observation of its own; a repository that cannot be read keeps what
  the previous observation said of it.

  Repositories and tickets are the rows of the store. The decoder of the settings file is the parameter
  of \<open>Config\<close>; SHA-256 is a parameter.
\<close>

record store_repo =
  so_name :: string
  so_remote :: string
  so_phase :: repo_phase
  so_refusal_kind :: refusal_kind
  so_refusal :: string
  so_settings_source :: string
  so_settings_read_at :: time
  so_tracked_at :: time
  so_project :: string
  so_hue :: int

record store_ticket =
  ss_url :: string
  ss_repo :: string
  ss_branch :: string
  ss_blocked_by :: "string list"
  ss_source :: string
  ss_title :: string
  ss_body :: string
  ss_status :: string
  ss_feature :: string
  ss_synced_at :: time

definition store_ticket_ref :: "store_ticket \<Rightarrow> branch_ref" where
  "store_ticket_ref t = BranchRef (ss_repo t) (ss_branch t)"

definition store_ticket_plan :: "store_ticket \<Rightarrow> ticket" where
  "store_ticket_plan t = \<lparr>t_url = ss_url t, t_repo = ss_repo t, t_branch = ss_branch t, t_blocked_by = ss_blocked_by t,
     t_worked_example_branch = [], t_launch_context = [], t_choice = \<lparr>choice_model = [], choice_effort = None\<rparr>\<rparr>"

subsection \<open>Merging and carrying forward\<close>

definition merge_observation :: "observation \<Rightarrow> observation \<Rightarrow> observation" where
  "merge_observation dst src = dst\<lparr>
     ob_prs := copy_into (ob_prs dst) (ob_prs src),
     ob_worktrees := copy_into (ob_worktrees dst) (ob_worktrees src),
     ob_mergify_hash := copy_into (ob_mergify_hash dst) (ob_mergify_hash src),
     ob_branch_tips := copy_into (ob_branch_tips dst) (ob_branch_tips src),
     ob_local_tips := copy_into (ob_local_tips dst) (ob_local_tips src),
     ob_mid_merge := copy_into (ob_mid_merge dst) (ob_mid_merge src),
     ob_titles := copy_into (ob_titles dst) (ob_titles src),
     ob_conflicts_with_base := copy_into (ob_conflicts_with_base dst) (ob_conflicts_with_base src),
     ob_conflicts_with_peer := copy_into (ob_conflicts_with_peer dst) (ob_conflicts_with_peer src),
     ob_settings := copy_into (ob_settings dst) (ob_settings src),
     ob_settings_errors := copy_into (ob_settings_errors dst) (ob_settings_errors src),
     ob_settings_sources := copy_into (ob_settings_sources dst) (ob_settings_sources src)\<rparr>"

text \<open>Copying the pairs whose key is wanted and not taken yet.\<close>

definition copy_keyed :: "('k, 'v) gomap \<Rightarrow> ('k, 'v) gomap \<Rightarrow> ('k \<Rightarrow> bool) \<Rightarrow> ('k, 'v) gomap" where
  "copy_keyed dst src keep = fold (\<lambda>(k, v) m. if \<not> has_key m k \<and> keep k then put k v m else m) src dst"

definition carry_forward :: "observation \<Rightarrow> observation \<Rightarrow> string \<Rightarrow> observation" where
  "carry_forward dst prev repo =
     (let keep = (\<lambda>key. ref_repo key = repo); named = (\<lambda>key. key = repo) in dst\<lparr>
       ob_prs := copy_keyed (ob_prs dst) (ob_prs prev) keep,
       ob_worktrees := copy_keyed (ob_worktrees dst) (ob_worktrees prev) keep,
       ob_branch_tips := copy_keyed (ob_branch_tips dst) (ob_branch_tips prev) keep,
       ob_local_tips := copy_keyed (ob_local_tips dst) (ob_local_tips prev) keep,
       ob_mid_merge := copy_keyed (ob_mid_merge dst) (ob_mid_merge prev) keep,
       ob_conflicts_with_base := copy_keyed (ob_conflicts_with_base dst) (ob_conflicts_with_base prev) keep,
       ob_conflicts_with_peer := copy_keyed (ob_conflicts_with_peer dst) (ob_conflicts_with_peer prev) keep,
       ob_titles := copy_keyed (ob_titles dst) (ob_titles prev) (\<lambda>_. True),
       ob_mergify_hash := copy_keyed (ob_mergify_hash dst) (ob_mergify_hash prev) named,
       ob_settings := copy_keyed (ob_settings dst) (ob_settings prev) named,
       ob_settings_errors := copy_keyed (ob_settings_errors dst) (ob_settings_errors prev) named\<rparr>)"

subsection \<open>Branches that conflict with each other\<close>

record peer_branch =
  pb_ref :: branch_ref
  pb_tip :: sha

definition cached_peer_conflict :: "observation \<Rightarrow> peer_branch \<Rightarrow> peer_branch \<Rightarrow> bool option" where
  "cached_peer_conflict prev a b =
     (if get_or [] (ob_branch_tips prev) (pb_ref a) \<noteq> pb_tip a \<or> get_or [] (ob_branch_tips prev) (pb_ref b) \<noteq> pb_tip b
      then None
      else map_of (get_or [] (ob_conflicts_with_peer prev) (pb_ref a)) (pb_ref b))"

type_synonym peer_map = "(branch_ref, (branch_ref, bool) gomap) gomap"

definition record_conflict :: "branch_ref \<Rightarrow> branch_ref \<Rightarrow> bool \<Rightarrow> peer_map \<Rightarrow> peer_map" where
  "record_conflict a b c m = put a (put b c (get_or [] m a)) m"

definition record_conflicts_with_peer :: "branch_ref \<Rightarrow> branch_ref \<Rightarrow> bool \<Rightarrow> peer_map \<Rightarrow> peer_map" where
  "record_conflicts_with_peer a b c m = record_conflict b a c (record_conflict a b c m)"

record 'w peer_scan =
  ps_repo_path :: string
  ps_repo :: string
  ps_tips :: "(branch_ref, sha) gomap"
  ps_prev :: observation
  ps_merges :: "string \<Rightarrow> string \<Rightarrow> string \<Rightarrow> ('w, bool) io"

text \<open>The inner loop compares one branch with the later ones; the outer loop takes the branches in order.\<close>

fun peer_inner :: "'w peer_scan \<Rightarrow> peer_branch \<Rightarrow> string list \<Rightarrow> peer_map \<Rightarrow> ('w, peer_map) io" where
  "peer_inner s a [] m = ret m"
| "peer_inner s a (branch # branches) m =
     (let ref = BranchRef (ps_repo s) branch in
      case map_of (ps_tips s) ref of
        None \<Rightarrow> peer_inner s a branches m
      | Some tip \<Rightarrow>
          (case cached_peer_conflict (ps_prev s) a \<lparr>pb_ref = ref, pb_tip = tip\<rparr> of
             Some c \<Rightarrow> peer_inner s a branches (record_conflicts_with_peer (pb_ref a) ref c m)
           | None \<Rightarrow>
               and_then (wrapping (''check whether '' @ ref_branch (pb_ref a) @ '' merges with '' @ branch)
                   (ps_merges s (ps_repo_path s) (pb_tip a) tip))
                 (\<lambda>clean. peer_inner s a branches (record_conflicts_with_peer (pb_ref a) ref (\<not> clean) m))))"

fun record_peer_conflicts :: "'w peer_scan \<Rightarrow> string list \<Rightarrow> peer_map \<Rightarrow> ('w, peer_map) io" where
  "record_peer_conflicts s [] m = ret m"
| "record_peer_conflicts s (branch # branches) m =
     (let ref = BranchRef (ps_repo s) branch in
      case map_of (ps_tips s) ref of
        None \<Rightarrow> record_peer_conflicts s branches m
      | Some tip \<Rightarrow> and_then (peer_inner s \<lparr>pb_ref = ref, pb_tip = tip\<rparr> branches m) (record_peer_conflicts s branches))"

subsection \<open>Reading one repository\<close>

definition plan_state :: "gh_state \<Rightarrow> pr_state" where
  "plan_state s = (case s of GhAbsent \<Rightarrow> Absent | GhOpen \<Rightarrow> Open | GhMerged \<Rightarrow> Merged | GhClosed \<Rightarrow> Closed)"

definition plan_check :: "gh_check \<Rightarrow> check_state" where
  "plan_check c = \<lparr>cs_name = gc_name c, cs_status = gc_status c, cs_conclusion = gc_conclusion c,
     cs_details_url = gc_details_url c, cs_started_at = gc_started_at c, cs_completed_at = gc_completed_at c\<rparr>"

definition plan_pr :: "gh_pr \<Rightarrow> pr" where
  "plan_pr p = \<lparr>pr_number = gp_number p, pr_head_ref = gp_head_ref p, pr_head_oid = gp_head_oid p,
     pr_base_ref = gp_base_ref p, pr_base_oid = gp_base_oid p, pr_author_login = gp_author_login p,
     pr_is_draft = gp_is_draft p, pr_state = plan_state (gp_state p),
     pr_checks = map (\<lambda>(n, c). (n, plan_check c)) (gp_checks p), pr_labels = gp_labels p, pr_merged_at = gp_merged_at p\<rparr>"

record 'w forge =
  fo_list :: "string \<Rightarrow> string list \<Rightarrow> ('w, (string, gh_pr) gomap) io"
  fo_issue_titles :: "string \<Rightarrow> ('w, (string, string) gomap) io"
  fo_create :: "string \<Rightarrow> string \<Rightarrow> string \<Rightarrow> bool \<Rightarrow> ('w, unit) io"
  fo_ready :: "string \<Rightarrow> string \<Rightarrow> ('w, unit) io"
  fo_edit :: "string \<Rightarrow> string \<Rightarrow> string \<Rightarrow> ('w, unit) io"
  fo_close_issue :: "string \<Rightarrow> string \<Rightarrow> ('w, unit) io"

definition gh_forge :: "codec \<Rightarrow> 'w host \<Rightarrow> 'w forge" where
  "gh_forge K H = \<lparr>fo_list = list_prs K H, fo_issue_titles = issue_titles K H, fo_create = create_pr H,
     fo_ready = ready_pr H, fo_edit = edit_pr H, fo_close_issue = close_issue H\<rparr>"

definition branches_for :: "store_ticket list \<Rightarrow> string \<Rightarrow> string list" where
  "branches_for tickets repo = map ss_branch (filter (\<lambda>t. ss_repo t = repo) tickets)"

record 'w observer =
  or_host :: "'w host"
  or_forge :: "'w forge"
  or_toml :: "string \<Rightarrow> repo_settings toml_answer"
  or_sha256 :: "string \<Rightarrow> string"

definition source_text :: "settings_source \<Rightarrow> string" where
  "source_text s = (case s of SourceDefaults \<Rightarrow> ''defaults'' | SourceFile \<Rightarrow> ''origin/main'')"

definition settings_ref :: string where "settings_ref = ''origin/main''"

definition read_checkout_settings ::
  "(string \<Rightarrow> repo_settings toml_answer) \<Rightarrow> 'w host \<Rightarrow> string \<Rightarrow> ('w, repo_settings \<times> settings_source) io" where
  "read_checkout_settings toml H checkout =
     and_then (wrapping (''look for '' @ settings_file @ '' on '' @ settings_ref)
         (has_file H checkout settings_ref settings_file))
       (\<lambda>found. and_then
          (if found then wrapping (''read '' @ settings_file @ '' on '' @ settings_ref)
             (show_file H checkout settings_ref settings_file) else ret [])
          (\<lambda>body. case read_settings_file toml body found of
             Inl e \<Rightarrow> fail_with (Wrapped (settings_file @ '' on '' @ settings_ref) (Plain (settings_error_text e)))
           | Inr r \<Rightarrow> ret r))"

definition mergify_hash :: "'w observer \<Rightarrow> string \<Rightarrow> ('w, string) io" where
  "mergify_hash E repo =
     and_then (wrapping ''show .mergify.yml''
         (show_file (or_host E) repo (''origin/'' @ default_base_branch) ''.mergify.yml''))
       (\<lambda>data. ret (''sha256:'' @ or_sha256 E data))"

text \<open>The loops of \<open>observeRepo\<close>: the remote tips of the tracked branches, and the worktrees.\<close>

fun observe_branches ::
  "'w host \<Rightarrow> string \<Rightarrow> string \<Rightarrow> sha option \<Rightarrow> string list \<Rightarrow> observation \<Rightarrow> ('w, observation) io" where
  "observe_branches H path name main_tip [] ob = ret ob"
| "observe_branches H path name main_tip (branch # branches) ob =
     and_then (wrapping (''read tip of origin/'' @ branch) (tip_if_present H path (''origin/'' @ branch)))
       (\<lambda>tip. let ref = BranchRef name branch in
          case tip of
            None \<Rightarrow> observe_branches H path name main_tip branches ob
          | Some t \<Rightarrow>
              (let ob = ob\<lparr>ob_branch_tips := put ref t (ob_branch_tips ob)\<rparr> in
               case main_tip of
                 None \<Rightarrow> observe_branches H path name main_tip branches ob
               | Some m \<Rightarrow>
                   and_then (wrapping (''check whether '' @ branch @ '' merges into '' @ default_base_branch)
                       (merges_cleanly H path m t))
                     (\<lambda>clean. observe_branches H path name main_tip branches
                        (ob\<lparr>ob_conflicts_with_base := put ref (\<not> clean) (ob_conflicts_with_base ob)\<rparr>))))"

fun observe_worktrees ::
  "'w host \<Rightarrow> string \<Rightarrow> string \<Rightarrow> (string \<times> string) list \<Rightarrow> observation \<Rightarrow> ('w, observation) io" where
  "observe_worktrees H path name [] ob = ret ob"
| "observe_worktrees H path name ((branch, wt) # wts) ob =
     (let ref = BranchRef name branch; ob = ob\<lparr>ob_worktrees := put ref wt (ob_worktrees ob)\<rparr> in
      and_then (wrapping (''read local tip of '' @ branch) (branch_tip H path branch))
        (\<lambda>tip. let ob = ob\<lparr>ob_local_tips := put ref tip (ob_local_tips ob)\<rparr> in
           and_then (wrapping (''check mid-merge for '' @ branch) (mid_merge H wt))
             (\<lambda>mid. observe_worktrees H path name wts (ob\<lparr>ob_mid_merge := put ref mid (ob_mid_merge ob)\<rparr>))))"

definition record_settings ::
  "string \<Rightarrow> io_error + (repo_settings \<times> settings_source) \<Rightarrow> observation \<Rightarrow> observation" where
  "record_settings name r ob = (case r of
     Inl e \<Rightarrow> ob\<lparr>ob_settings_errors := put name (error_text e) (ob_settings_errors ob)\<rparr>
   | Inr (s, src) \<Rightarrow> ob\<lparr>ob_settings := put name s (ob_settings ob),
       ob_settings_sources := put name (source_text src) (ob_settings_sources ob)\<rparr>)"

text \<open>An operation whose failure is a value.\<close>

definition attempt :: "('w, 'a) io \<Rightarrow> ('w, io_error + 'a) io" where
  "attempt m w = (case m w of (r, w') \<Rightarrow> (Inr r, w'))"

definition add_prs :: "string \<Rightarrow> (string, gh_pr) gomap \<Rightarrow> observation \<Rightarrow> observation" where
  "add_prs name prs ob =
     ob\<lparr>ob_prs := fold (\<lambda>(branch, p) m. put (BranchRef name branch) (plan_pr p) m) prs (ob_prs ob)\<rparr>"

definition observe_repo ::
  "'w observer \<Rightarrow> string \<Rightarrow> string \<Rightarrow> string list \<Rightarrow> observation \<Rightarrow> ('w, observation) io" where
  "observe_repo E name path branches prev =
     (let H = or_host E in
      and_then (wrapping ''fetch'' (fetch H path)) (\<lambda>_.
      and_then (attempt (read_checkout_settings (or_toml E) H path)) (\<lambda>settings.
      let ob = record_settings name settings (new_observation 0) in
      and_then (wrapping ''list pull requests'' (fo_list (or_forge E) path branches)) (\<lambda>prs.
      let ob = add_prs name prs ob in
      and_then (wrapping ''list issue titles'' (fo_issue_titles (or_forge E) path)) (\<lambda>titles.
      let ob = ob\<lparr>ob_titles := copy_into (ob_titles ob) titles\<rparr> in
      and_then (wrapping (''read tip of origin/'' @ default_base_branch)
          (tip_if_present H path (''origin/'' @ default_base_branch))) (\<lambda>main_tip.
      let ob = (case main_tip of None \<Rightarrow> ob
                | Some t \<Rightarrow> ob\<lparr>ob_branch_tips := put (BranchRef name default_base_branch) t (ob_branch_tips ob)\<rparr>) in
      and_then (observe_branches H path name main_tip branches ob) (\<lambda>ob.
      and_then (wrapping ''record peer conflicts'' (record_peer_conflicts
          \<lparr>ps_repo_path = path, ps_repo = name, ps_tips = ob_branch_tips ob, ps_prev = prev,
            ps_merges = merges_cleanly H\<rparr> branches (ob_conflicts_with_peer ob))) (\<lambda>peers.
      let ob = ob\<lparr>ob_conflicts_with_peer := peers\<rparr> in
      and_then (wrapping ''list worktrees'' (worktree_paths H path)) (\<lambda>wts.
      and_then (observe_worktrees H path name wts ob) (\<lambda>ob.
      case settings of
        Inr (s, _) \<Rightarrow>
          if rs_mergify_sha s \<noteq> [] then
            and_then (wrapping (''hash .mergify.yml for '' @ name) (mergify_hash E path))
              (\<lambda>h. ret (ob\<lparr>ob_mergify_hash := put name h (ob_mergify_hash ob)\<rparr>))
          else ret ob
      | Inl _ \<Rightarrow> ret ob))))))))))"

definition observable_repos :: "'w host \<Rightarrow> string \<Rightarrow> store_repo list \<Rightarrow> 'w \<Rightarrow> store_repo list" where
  "observable_repos H data_dir repos w =
     filter (\<lambda>r. so_phase r \<noteq> RepoCloning \<and> h_stat H (checkout_path data_dir (so_name r)) w = None) repos"

definition ready_repos :: "store_repo list \<Rightarrow> store_repo list" where
  "ready_repos repos = filter (\<lambda>r. so_phase r = RepoReady) repos"

fun observe_loop ::
  "'w observer \<Rightarrow> string \<Rightarrow> store_ticket list \<Rightarrow> observation \<Rightarrow> store_repo list \<Rightarrow> observation \<Rightarrow> 'w \<Rightarrow> observation \<times> 'w" where
  "observe_loop E data_dir tickets prev [] ob w = (ob, w)"
| "observe_loop E data_dir tickets prev (r # repos) ob w =
     (case observe_repo E (so_name r) (checkout_path data_dir (so_name r)) (branches_for tickets (so_name r)) prev w of
        (Inl e, w') \<Rightarrow>
          observe_loop E data_dir tickets prev repos
            (carry_forward (ob\<lparr>ob_repo_errors := put (so_name r) (error_text e) (ob_repo_errors ob)\<rparr>) prev (so_name r)) w'
      | (Inr part, w') \<Rightarrow> observe_loop E data_dir tickets prev repos (merge_observation ob part) w')"

definition observe ::
  "'w observer \<Rightarrow> string \<Rightarrow> store_repo list \<Rightarrow> store_ticket list \<Rightarrow> observation \<Rightarrow> 'w \<Rightarrow> observation \<times> 'w" where
  "observe E data_dir repos tickets prev w =
     observe_loop E data_dir tickets prev (observable_repos (or_host E) data_dir repos w) (new_observation 0) w"

subsection \<open>Peer conflicts are symmetric and complete\<close>

definition peer_entry :: "peer_map \<Rightarrow> branch_ref \<Rightarrow> branch_ref \<Rightarrow> bool option" where
  "peer_entry m a b = map_of (get_or [] m a) b"

lemma peer_entry_record:
  "peer_entry (record_conflicts_with_peer a b c m) x y =
     (if (x, y) = (b, a) \<or> (x, y) = (a, b) then Some c else peer_entry m x y)"
  by (auto simp: peer_entry_def record_conflicts_with_peer_def record_conflict_def update_conv)

lemma peer_entry_Nil [simp]: "peer_entry [] a b = None"
  by (simp add: peer_entry_def)

text \<open>Where an answer comes from: the previous observation of the same two tips, or git's merge of them.\<close>

definition peer_answer :: "'w peer_scan \<Rightarrow> branch_ref \<Rightarrow> branch_ref \<Rightarrow> bool \<Rightarrow> bool" where
  "peer_answer s a b c \<longleftrightarrow> (\<exists>ta tb. map_of (ps_tips s) a = Some ta \<and> map_of (ps_tips s) b = Some tb \<and>
     (get_or [] (ob_branch_tips (ps_prev s)) a = ta \<and> get_or [] (ob_branch_tips (ps_prev s)) b = tb
        \<and> peer_entry (ob_conflicts_with_peer (ps_prev s)) a b = Some c
      \<or> (\<exists>w w'. ps_merges s (ps_repo_path s) ta tb w = (Inr (\<not> c), w'))))"

text \<open>What every recording of such an answer keeps holds over the loops.\<close>

lemma peer_inner_invariant:
  assumes "peer_inner s a branches m w = (Inr m', w')"
    and "map_of (ps_tips s) (pb_ref a) = Some (pb_tip a)"
    and "\<And>ref c m. P m \<Longrightarrow> peer_answer s (pb_ref a) ref c \<Longrightarrow> P (record_conflicts_with_peer (pb_ref a) ref c m)"
    and "P m"
  shows "P m'"
  using assms(1,4)
proof (induction branches arbitrary: m w)
  case (Cons branch branches)
  let ?ref = "BranchRef (ps_repo s) branch"
  show ?case
  proof (cases "map_of (ps_tips s) ?ref")
    case None
    with Cons show ?thesis by simp
  next
    case (Some tip)
    show ?thesis
    proof (cases "cached_peer_conflict (ps_prev s) a \<lparr>pb_ref = ?ref, pb_tip = tip\<rparr>")
      case None
      with Some Cons.prems(1) obtain clean w1 w2 where
        "ps_merges s (ps_repo_path s) (pb_tip a) tip w = (Inr clean, w1)"
        and r: "peer_inner s a branches (record_conflicts_with_peer (pb_ref a) ?ref (\<not> clean) m) w2 = (Inr m', w')"
        by (auto simp: and_then_Inr)
      then have "peer_answer s (pb_ref a) ?ref (\<not> clean)"
        using assms(2) Some by (auto simp: peer_answer_def)
      with Cons.IH [OF r] assms(3) Cons.prems(2) show ?thesis by simp
    next
      case (Some c)
      then have "peer_answer s (pb_ref a) ?ref c"
        using assms(2) \<open>map_of (ps_tips s) ?ref = Some tip\<close>
        by (auto simp: peer_answer_def peer_entry_def cached_peer_conflict_def split: if_splits)
      with Some \<open>map_of (ps_tips s) ?ref = Some tip\<close> Cons assms(3) show ?thesis by simp
    qed
  qed
qed simp

lemma record_peer_invariant:
  assumes "record_peer_conflicts s branches m w = (Inr m', w')"
    and "\<And>a b c m. P m \<Longrightarrow> peer_answer s a b c \<Longrightarrow> P (record_conflicts_with_peer a b c m)" and "P m"
  shows "P m'"
  using assms(1,3)
proof (induction branches arbitrary: m w)
  case (Cons branch branches)
  show ?case
  proof (cases "map_of (ps_tips s) (BranchRef (ps_repo s) branch)")
    case None
    with Cons show ?thesis by simp
  next
    case (Some tip)
    with Cons.prems obtain m1 w1 where
      i: "peer_inner s \<lparr>pb_ref = BranchRef (ps_repo s) branch, pb_tip = tip\<rparr> branches m w = (Inr m1, w1)"
      and r: "record_peer_conflicts s branches m1 w1 = (Inr m', w')"
      by (auto simp: Let_def and_then_Inr)
    have "P m1" by (rule peer_inner_invariant [OF i]) (use Some assms(2) Cons.prems in auto)
    with Cons.IH [OF r] show ?thesis by simp
  qed
qed simp

lemma peer_inner_adds:
  "peer_inner s a branches m w = (Inr m', w') \<Longrightarrow> map_of (ps_tips s) (pb_ref a) = Some (pb_tip a) \<Longrightarrow> b \<in> set branches \<Longrightarrow>
     map_of (ps_tips s) (BranchRef (ps_repo s) b) \<noteq> None \<Longrightarrow>
     peer_entry m' (pb_ref a) (BranchRef (ps_repo s) b) \<noteq> None"
proof (induction branches arbitrary: m w)
  case (Cons branch branches)
  let ?ref = "BranchRef (ps_repo s) branch"
  have keep: "peer_entry m' (pb_ref a) ?ref \<noteq> None"
    if "peer_inner s a branches m0 w0 = (Inr m', w')" "peer_entry m0 (pb_ref a) ?ref \<noteq> None" for m0 w0
    by (rule peer_inner_invariant [OF that(1) Cons.prems(2), of "\<lambda>m. peer_entry m (pb_ref a) ?ref \<noteq> None"])
      (use that(2) in \<open>auto simp: peer_entry_record\<close>)
  show ?case
    using Cons.prems Cons.IH keep
    by (auto simp: Let_def and_then_Inr peer_entry_record split: option.splits)
qed simp

lemma record_peer_adds:
  "record_peer_conflicts s branches m w = (Inr m', w') \<Longrightarrow> branches = xs @ a # ys \<Longrightarrow> b \<in> set ys \<Longrightarrow>
     map_of (ps_tips s) (BranchRef (ps_repo s) a) \<noteq> None \<Longrightarrow> map_of (ps_tips s) (BranchRef (ps_repo s) b) \<noteq> None \<Longrightarrow>
     peer_entry m' (BranchRef (ps_repo s) a) (BranchRef (ps_repo s) b) \<noteq> None"
proof (induction branches arbitrary: m w xs)
  case (Cons branch branches)
  show ?case
  proof (cases xs)
    case Nil
    with Cons.prems obtain tip m1 w1 where t: "map_of (ps_tips s) (BranchRef (ps_repo s) a) = Some tip"
      and i: "peer_inner s \<lparr>pb_ref = BranchRef (ps_repo s) a, pb_tip = tip\<rparr> ys m w = (Inr m1, w1)"
      and r: "record_peer_conflicts s ys m1 w1 = (Inr m', w')"
      by (auto simp: Let_def and_then_Inr)
    have "peer_entry m1 (BranchRef (ps_repo s) a) (BranchRef (ps_repo s) b) \<noteq> None"
      using peer_inner_adds [OF i] t Cons.prems by simp
    then show ?thesis
      by (rule record_peer_invariant [OF r, rotated]) (auto simp: peer_entry_record)
  next
    case (Cons x xs')
    with Cons.prems Cons.IH show ?thesis
      by (auto simp: Let_def and_then_Inr split: option.splits)
  qed
qed simp

text \<open>C30: When the peer scan of a repository succeeds, its table of conflicts is symmetric, holds an entry
  for every two tracked branches that have a tip, and each entry is git's answer for the two tips or the
  previous observation's for the same two: the hold on conflicting branches reads the same from either
  side and is never stale.\<close>

theorem peer_conflicts_symmetric_and_complete:
  assumes "record_peer_conflicts s branches [] w = (Inr m, w')"
  shows "(\<forall>a b. peer_entry m a b = peer_entry m b a)
    \<and> (\<forall>a b c. peer_entry m a b = Some c \<longrightarrow> peer_answer s a b c \<or> peer_answer s b a c)
    \<and> (\<forall>xs x ys. branches = xs @ x # ys \<longrightarrow> (\<forall>y \<in> set ys.
         has_key (ps_tips s) (BranchRef (ps_repo s) x) \<and> has_key (ps_tips s) (BranchRef (ps_repo s) y) \<longrightarrow>
         peer_entry m (BranchRef (ps_repo s) x) (BranchRef (ps_repo s) y) \<noteq> None))"
proof (intro conjI)
  show "\<forall>a b. peer_entry m a b = peer_entry m b a"
    by (rule record_peer_invariant [OF assms]) (auto simp: peer_entry_record)
  show "\<forall>a b c. peer_entry m a b = Some c \<longrightarrow> peer_answer s a b c \<or> peer_answer s b a c"
    by (rule record_peer_invariant [OF assms]) (auto simp: peer_entry_record)
qed (use record_peer_adds [OF assms] in \<open>simp add: has_key_def\<close>)

definition sample_scan :: "unit peer_scan" where
  "sample_scan = \<lparr>ps_repo_path = ''/r'', ps_repo = ''o/app'',
     ps_tips = [(BranchRef ''o/app'' ''a'', ''1''), (BranchRef ''o/app'' ''b'', ''2'')],
     ps_prev = new_observation 0, ps_merges = (\<lambda>_ _ _. ret False)\<rparr>"

lemma sample_scan_run:
  "\<exists>m. record_peer_conflicts sample_scan [''a'', ''b''] [] () = (Inr m, ())"
  by (simp add: sample_scan_def new_observation_def cached_peer_conflict_def and_then_def wrapping_def Let_def)

theorem peer_conflicts_symmetric_and_complete_witness:
  "\<exists>m. record_peer_conflicts sample_scan [''a'', ''b''] [] () = (Inr m, ()) \<and>
     peer_entry m (BranchRef ''o/app'' ''a'') (BranchRef ''o/app'' ''b'') \<noteq> None"
proof -
  from sample_scan_run obtain m where m: "record_peer_conflicts sample_scan [''a'', ''b''] [] () = (Inr m, ())" by blast
  from peer_conflicts_symmetric_and_complete [OF m, THEN conjunct2, THEN conjunct2, rule_format,
      of "[]" "''a''" "[''b'']" "''b''"] m show ?thesis
    by (simp add: sample_scan_def)
qed

subsection \<open>Repositories are observed apart\<close>

text \<open>All that an observation says of one branch.\<close>

definition ref_view where
  "ref_view ob ref =
     (map_of (ob_prs ob) ref, map_of (ob_worktrees ob) ref, map_of (ob_branch_tips ob) ref,
      map_of (ob_local_tips ob) ref, map_of (ob_mid_merge ob) ref, map_of (ob_conflicts_with_base ob) ref,
      map_of (ob_conflicts_with_peer ob) ref)"

definition owns :: "string \<Rightarrow> observation \<Rightarrow> bool" where
  "owns name ob \<longleftrightarrow> (\<forall>ref. ref_repo ref \<noteq> name \<longrightarrow> ref_view ob ref = ref_view (new_observation 0) ref)"

lemma map_of_copy_keyed:
  "map_of (copy_keyed dst src keep) k =
     (case map_of dst k of Some v \<Rightarrow> Some v | None \<Rightarrow> if keep k then map_of src k else None)"
proof -
  have "map_of (fold (\<lambda>(k, v) m. if \<not> has_key m k \<and> keep k then put k v m else m) src dst) k =
     (case map_of dst k of Some v \<Rightarrow> Some v | None \<Rightarrow> if keep k then map_of src k else None)"
  proof (induction src arbitrary: dst)
    case (Cons p src)
    obtain a v where "p = (a, v)" by (cases p)
    with Cons show ?case
      by (cases "map_of dst a = None \<and> keep a"; cases "a = k") (auto simp: update_conv has_key_def split: option.splits)
  qed (simp split: option.splits)
  then show ?thesis by (simp add: copy_keyed_def)
qed

lemma carry_forward_view:
  "ref_repo ref \<noteq> repo \<Longrightarrow> ref_view (carry_forward ob prev repo) ref = ref_view ob ref"
  "ref_repo ref = repo \<Longrightarrow> ref_view ob ref = ref_view (new_observation 0) ref \<Longrightarrow>
     ref_view (carry_forward ob prev repo) ref = ref_view prev ref"
  by (auto simp: ref_view_def carry_forward_def Let_def map_of_copy_keyed new_observation_def split: option.splits)

lemma map_of_none_rev: "map_of m k = None \<Longrightarrow> map_of (rev m) k = None"
  by (simp add: map_of_eq_None_iff)

lemma merge_view_other:
  "ref_view part ref = ref_view (new_observation 0) ref \<Longrightarrow> ref_view (merge_observation ob part) ref = ref_view ob ref"
  by (simp add: ref_view_def merge_observation_def map_of_copy_into new_observation_def map_of_none_rev)

lemma merge_view_own:
  "ref_view ob ref = ref_view (new_observation 0) ref \<Longrightarrow>
     ref_view (merge_observation ob part) ref = ref_view (merge_observation (new_observation 0) part) ref"
  by (auto simp: ref_view_def merge_observation_def map_of_copy_into new_observation_def split: option.splits)

lemma owns_simps [simp]:
  "owns name (new_observation 0)"
  "owns name (ob\<lparr>ob_titles := x\<rparr>) = owns name ob"
  "owns name (ob\<lparr>ob_mergify_hash := y\<rparr>) = owns name ob"
  "owns name (record_settings name' r ob) = owns name ob"
  by (auto simp: owns_def ref_view_def record_settings_def split: sum.splits)

lemma owns_put:
  "owns name ob \<Longrightarrow> owns name (ob\<lparr>ob_branch_tips := put (BranchRef name b) v (ob_branch_tips ob)\<rparr>)"
  "owns name ob \<Longrightarrow> owns name (ob\<lparr>ob_conflicts_with_base := put (BranchRef name b) x (ob_conflicts_with_base ob)\<rparr>)"
  "owns name ob \<Longrightarrow> owns name (ob\<lparr>ob_worktrees := put (BranchRef name b) s (ob_worktrees ob)\<rparr>)"
  "owns name ob \<Longrightarrow> owns name (ob\<lparr>ob_local_tips := put (BranchRef name b) v (ob_local_tips ob)\<rparr>)"
  "owns name ob \<Longrightarrow> owns name (ob\<lparr>ob_mid_merge := put (BranchRef name b) x (ob_mid_merge ob)\<rparr>)"
  by (auto simp: owns_def ref_view_def update_conv)

lemma owns_add_prs: "owns name ob \<Longrightarrow> owns name (add_prs name prs ob)"
proof -
  have "map_of (fold (\<lambda>(branch, p) m. put (BranchRef name branch) (plan_pr p) m) prs m) ref = map_of m ref"
    if "ref_repo ref \<noteq> name" for m ref
    using that by (induction prs arbitrary: m) (auto simp: update_conv)
  then show "owns name ob \<Longrightarrow> ?thesis" by (auto simp: owns_def ref_view_def add_prs_def)
qed

lemma owns_branches:
  "owns name ob \<Longrightarrow> ensures (owns name) (observe_branches H path name main_tip branches ob)"
proof (induction branches arbitrary: ob)
  case (Cons branch branches)
  note tip = owns_put(1) [OF Cons.prems, of branch]
  have both: "owns name (ob\<lparr>ob_branch_tips := put (BranchRef name branch) t (ob_branch_tips ob),
      ob_conflicts_with_base := put (BranchRef name branch) c (ob_conflicts_with_base ob)\<rparr>)" for t c
    using owns_put(2) [OF tip] by simp
  show ?case
    using Cons.IH [OF Cons.prems] Cons.IH [OF tip] Cons.IH [OF both]
    by (auto simp: Let_def split: option.splits intro!: ensures_skip)
qed auto

lemma owns_worktrees:
  "owns name ob \<Longrightarrow> ensures (owns name) (observe_worktrees H path name wts ob)"
proof (induction wts arbitrary: ob)
  case (Cons p wts)
  have "owns name (ob\<lparr>ob_worktrees := put (BranchRef name (fst p)) (snd p) (ob_worktrees ob),
      ob_local_tips := put (BranchRef name (fst p)) tip (ob_local_tips ob),
      ob_mid_merge := put (BranchRef name (fst p)) mid (ob_mid_merge ob)\<rparr>)" for tip mid
    using owns_put(5) [OF owns_put(4) [OF owns_put(3) [OF Cons.prems]]] by simp
  then show ?case
    by (cases p) (auto simp: Let_def intro!: ensures_skip Cons.IH)
qed auto

lemma owns_peers:
  assumes "owns name ob"
  shows "ensures (\<lambda>m. owns name (ob\<lparr>ob_conflicts_with_peer := m\<rparr>))
    (record_peer_conflicts \<lparr>ps_repo_path = path, ps_repo = name, ps_tips = ob_branch_tips ob, ps_prev = prev,
        ps_merges = f\<rparr> branches (ob_conflicts_with_peer ob))" (is "ensures _ (record_peer_conflicts ?s _ _)")
proof -
  have t: "map_of (ob_branch_tips ob) a = Some x \<Longrightarrow> ref_repo a = name"
    and p: "ref_repo a \<noteq> name \<Longrightarrow> map_of (ob_conflicts_with_peer ob) a = None" for a x
    using assms by (auto simp: owns_def ref_view_def new_observation_def)
  have "\<forall>ref. ref_repo ref \<noteq> name \<longrightarrow> map_of m ref = None"
    if "record_peer_conflicts ?s branches (ob_conflicts_with_peer ob) w = (Inr m, w')" for m w w'
    by (rule record_peer_invariant [OF that])
      (auto simp: record_conflicts_with_peer_def record_conflict_def update_conv peer_answer_def p dest: t)
  with assms show ?thesis by (auto simp: ensures_def owns_def ref_view_def new_observation_def)
qed

lemma owns_observe_repo: "ensures (owns name) (observe_repo E name path branches prev)"
  unfolding observe_repo_def Let_def
proof (rule ensures_skip, rule ensures_skip, rule ensures_skip, rule ensures_skip, rule ensures_skip,
    rule ensures_bind [OF owns_branches], goal_cases)
  case (1 _ settings prs titles main_tip)
  let ?ob = "add_prs name prs (record_settings name settings (new_observation 0))"
  have "owns name (?ob\<lparr>ob_titles := copy_into (ob_titles ?ob) titles\<rparr>)" by (simp add: owns_add_prs)
  from this owns_put(1) [OF this] show ?case by (auto split: option.splits)
next
  case (2 _ settings prs titles main_tip ob)
  then show ?case
  proof (rule ensures_bind [OF ensures_wrapping [THEN iffD2, OF owns_peers]], goal_cases)
    case (1 peers)
    then show ?case
      by (intro ensures_skip ensures_bind [OF owns_worktrees])
        (auto split: sum.splits intro!: ensures_skip)
  qed
qed

text \<open>What one pass of the loop makes of the observation so far.\<close>

definition observed :: "io_error + observation \<Rightarrow> string \<Rightarrow> observation \<Rightarrow> observation \<Rightarrow> observation" where
  "observed r name prev ob = (case r of
     Inl e \<Rightarrow> carry_forward (ob\<lparr>ob_repo_errors := put name (error_text e) (ob_repo_errors ob)\<rparr>) prev name
   | Inr part \<Rightarrow> merge_observation ob part)"

lemma observe_loop_step:
  "observe_loop E dd tickets prev (r # repos) ob w =
     (case observe_repo E (so_name r) (checkout_path dd (so_name r)) (branches_for tickets (so_name r)) prev w of
        (x, w') \<Rightarrow> observe_loop E dd tickets prev repos (observed x (so_name r) prev ob) w')"
  by (auto simp: observed_def split: prod.splits sum.splits)

declare observe_loop.simps(2) [simp del]

lemma view_errors [simp]: "ref_view (ob\<lparr>ob_repo_errors := x\<rparr>) = ref_view ob"
  by (simp add: ref_view_def fun_eq_iff)

lemma observed_other:
  assumes "observe_repo E name path branches prev w = (x, w')" and "ref_repo ref \<noteq> name"
  shows "ref_view (observed x name prev ob) ref = ref_view ob ref"
proof (cases x)
  case (Inl e)
  with assms(2) show ?thesis by (simp add: observed_def carry_forward_view)
next
  case (Inr part)
  then have "owns name part" using ensuresD [OF owns_observe_repo assms(1) [unfolded Inr]] by simp
  with Inr assms(2) show ?thesis by (simp add: observed_def owns_def merge_view_other)
qed

lemma observe_loop_other:
  "observe_loop E dd tickets prev repos ob w = (ob', w') \<Longrightarrow> ref_repo ref \<notin> so_name ` set repos \<Longrightarrow>
     ref_view ob' ref = ref_view ob ref"
proof (induction repos arbitrary: ob w)
  case (Cons r repos)
  obtain x w1 where x: "observe_repo E (so_name r) (checkout_path dd (so_name r))
      (branches_for tickets (so_name r)) prev w = (x, w1)" by fastforce
  with Cons.prems(1) have rest: "observe_loop E dd tickets prev repos (observed x (so_name r) prev ob) w1 = (ob', w')"
    by (simp add: observe_loop_step)
  from Cons.prems(2) have n: "ref_repo ref \<notin> so_name ` set repos" "ref_repo ref \<noteq> so_name r" by auto
  show ?case by (rule trans [OF Cons.IH [OF rest n(1)] observed_other [OF x n(2)]])
qed simp

text \<open>What an observation says of one branch, when it is read from its own repository alone.\<close>

definition own_view where
  "own_view x prev ref = (case x of
     Inl e \<Rightarrow> ref_view prev ref
   | Inr part \<Rightarrow> ref_view (merge_observation (new_observation 0) part) ref)"

lemma observed_own:
  "ref_repo ref = name \<Longrightarrow> ref_view ob ref = ref_view (new_observation 0) ref \<Longrightarrow>
     ref_view (observed x name prev ob) ref = own_view x prev ref"
  by (cases x) (simp_all add: observed_def own_view_def carry_forward_view(2) merge_view_own [of ob])

lemma observe_loop_own:
  "observe_loop E dd tickets prev repos ob w = (ob', w') \<Longrightarrow> distinct (map so_name repos) \<Longrightarrow> r \<in> set repos \<Longrightarrow>
     ref_repo ref = so_name r \<Longrightarrow> ref_view ob ref = ref_view (new_observation 0) ref \<Longrightarrow>
     \<exists>x w1 w2. observe_repo E (so_name r) (checkout_path dd (so_name r)) (branches_for tickets (so_name r)) prev w1 = (x, w2)
       \<and> ref_view ob' ref = own_view x prev ref"
proof (induction repos arbitrary: ob w)
  case (Cons q repos)
  obtain x w1 where x: "observe_repo E (so_name q) (checkout_path dd (so_name q))
      (branches_for tickets (so_name q)) prev w = (x, w1)" by fastforce
  with Cons.prems(1) have rest: "observe_loop E dd tickets prev repos (observed x (so_name q) prev ob) w1 = (ob', w')"
    by (simp add: observe_loop_step)
  show ?case
  proof (cases "r = q")
    case True
    with Cons.prems have n: "ref_repo ref \<notin> so_name ` set repos" "ref_repo ref = so_name q" by auto
    have "ref_view ob' ref = own_view x prev ref"
      by (rule trans [OF observe_loop_other [OF rest n(1)] observed_own [OF n(2) Cons.prems(5)]])
    with x True show ?thesis by blast
  next
    case False
    then have o: "ref_repo ref \<noteq> so_name q" and d: "distinct (map so_name repos)" "r \<in> set repos"
      using Cons.prems(2-4) by force+
    have "ref_view (observed x (so_name q) prev ob) ref = ref_view (new_observation 0) ref"
      using observed_other [OF x o] Cons.prems(5) by simp
    from Cons.IH [OF rest d Cons.prems(4) this] show ?thesis .
  qed
qed simp

text \<open>C29: Repositories are observed apart. What an observation says of a branch (its pull request, tips,
  worktree, conflicts) comes from its own repository alone: from reading it, or, when it could not be
  read, from the previous observation, however many other repositories were read or failed in the same
  round; of a repository that is not observed it says nothing.\<close>

theorem repositories_observed_apart:
  assumes "observe E dd repos tickets prev w = (ob, w')" and "distinct (map so_name repos)"
  shows "(\<forall>r \<in> set (observable_repos (or_host E) dd repos w). ref_repo ref = so_name r \<longrightarrow>
      (\<exists>x w1 w2. observe_repo E (so_name r) (checkout_path dd (so_name r)) (branches_for tickets (so_name r)) prev w1 = (x, w2)
        \<and> ref_view ob ref = own_view x prev ref))
    \<and> (ref_repo ref \<notin> so_name ` set (observable_repos (or_host E) dd repos w) \<longrightarrow>
      ref_view ob ref = ref_view (new_observation 0) ref)"
proof (intro conjI ballI impI)
  have d: "distinct (map so_name (observable_repos (or_host E) dd repos w))"
    using assms(2) by (simp add: observable_repos_def distinct_map_filter)
  note l = assms(1) [unfolded observe_def]
  show "\<exists>x w1 w2. observe_repo E (so_name r) (checkout_path dd (so_name r)) (branches_for tickets (so_name r)) prev w1 = (x, w2)
        \<and> ref_view ob ref = own_view x prev ref"
    if "r \<in> set (observable_repos (or_host E) dd repos w)" "ref_repo ref = so_name r" for r
    by (rule observe_loop_own [OF l d that]) simp
  show "ref_view ob ref = ref_view (new_observation 0) ref"
    if "ref_repo ref \<notin> so_name ` set (observable_repos (or_host E) dd repos w)"
    using observe_loop_other [OF l that] .
qed

text \<open>For the witness: a repository whose fetch fails keeps what was known of its branch.\<close>

definition broken_host :: "unit host" where
  "broken_host = quiet_host\<lparr>h_exec := (\<lambda>_ _ _ _ w.
     (\<lparr>po_stdout = [], po_stderr = ''no network'', po_err = Some (Exited 128), po_deadline = False\<rparr>, w))\<rparr>"

definition broken_observer :: "unit observer" where
  "broken_observer = \<lparr>or_host = broken_host, or_forge = gh_forge (sample_codec []) broken_host,
     or_toml = (\<lambda>_. Toml_error []), or_sha256 = id\<rparr>"

definition sample_repo :: store_repo where
  "sample_repo = \<lparr>so_name = ''o/app'', so_remote = [], so_phase = RepoReady, so_refusal_kind = RefusalUnknown,
     so_refusal = [], so_settings_source = [], so_settings_read_at = 0, so_tracked_at = 0, so_project = [], so_hue = 0\<rparr>"

lemma broken_read: "\<exists>e. observe_repo broken_observer name path branches prev () = (Inl e, ())"
  by (simp add: observe_repo_def and_then_def wrapping_def fetch_def git_do_def git_out_def output_cmd_def
      output_within_def broken_observer_def broken_host_def finish_cmd_def wrap_err_def Let_def)

theorem repositories_observed_apart_witness:
  "map_of (ob_branch_tips (fst (observe broken_observer ''/d'' [sample_repo] []
      ((new_observation 0)\<lparr>ob_branch_tips := [(BranchRef ''o/app'' ''main'', ''c0ffee'')]\<rparr>) ()))) (BranchRef ''o/app'' ''main'')
   = Some ''c0ffee''"
proof -
  let ?prev = "(new_observation 0)\<lparr>ob_branch_tips := [(BranchRef ''o/app'' ''main'', ''c0ffee'')]\<rparr>"
  obtain ob w' where o: "observe broken_observer ''/d'' [sample_repo] [] ?prev () = (ob, w')"
    by (meson surj_pair)
  have r: "sample_repo \<in> set (observable_repos (or_host broken_observer) ''/d'' [sample_repo] ())"
    by (simp add: observable_repos_def sample_repo_def broken_observer_def broken_host_def quiet_host_def)
  from repositories_observed_apart [OF o, of "BranchRef ''o/app'' ''main''"] r obtain x and w1 w2 :: unit where
    x: "observe_repo broken_observer (so_name sample_repo) (checkout_path ''/d'' (so_name sample_repo))
         (branches_for [] (so_name sample_repo)) ?prev w1 = (x, w2)"
    and v: "ref_view ob (BranchRef ''o/app'' ''main'') = own_view x ?prev (BranchRef ''o/app'' ''main'')"
    by (auto simp: sample_repo_def)
  have "\<exists>e. observe_repo broken_observer (so_name sample_repo) (checkout_path ''/d'' (so_name sample_repo))
         (branches_for [] (so_name sample_repo)) ?prev w1 = (Inl e, w2)"
    using broken_read by simp
  with x obtain e where "x = Inl e" by auto
  with v have "ref_view ob (BranchRef ''o/app'' ''main'') = ref_view ?prev (BranchRef ''o/app'' ''main'')"
    by (simp add: own_view_def)
  with o show ?thesis by (simp add: ref_view_def)
qed

end
