(* ===== verification/Database.thy ===== *)
theory Database imports Gates Observe begin

text \<open>
  The rows of \<open>internal/store/ccdb/models.go\<close>, the tables of \<open>internal/store/migrations\<close> with the
  constraints the statements rely on, and the engine that runs one statement or one transaction
  (\<open>Store.inTx\<close>).

  A table is the list of its rows; where a query has no \<open>ORDER BY\<close>, the list's order stands for one
  order the server may answer in. A NULL is \<open>None\<close>. A \<open>jsonb\<close> column holds the value that was encoded:
  encoding with \<open>encoding/json\<close> and decoding it again gives the value back, and a value of another shape
  is a decoding error. A float is its bit pattern, which the model never computes with. The order of
  texts is the order of their bytes.

  The server or the connection to it may fail any statement: a connection has a script \<open>cn_fault\<close> that
  says which of its statements fails and with what text; \<open>cn_uuid\<close> is what \<open>gen_random_uuid()\<close> answers. A statement is atomic. The statements of other connections are not
  interleaved with those of an operation.
\<close>

datatype float64 = Float64 (float_bits: int)

subsection \<open>Rows\<close>

record ticket_row =
  tk_url :: string
  tk_repo :: string
  tk_branch :: string
  tk_blocked_by :: "string list"
  tk_source :: string
  tk_title :: string
  tk_body :: string
  tk_status :: string
  tk_feature :: string
  tk_synced_at :: "time option"
  tk_withdrawn_at :: "time option"

record launch_row =
  lr_id :: int
  lr_created_at :: time
  lr_state :: string
  lr_context :: string
  lr_model :: "string option"
  lr_effort :: "string option"
  lr_workflow :: string

record member_row =
  mb_launch_id :: int
  mb_ticket_id :: string
  mb_prompt_hash :: string

record run_row =
  ru_id :: int
  ru_ticket_id :: "string option"
  ru_kind :: string
  ru_pgid :: "int option"
  ru_proc_started_at :: "time option"
  ru_baseline_sha :: "string option"
  ru_prompt_hash :: "string option"
  ru_log_path :: "string option"
  ru_outcome :: "string option"
  ru_exit_code :: "int option"
  ru_ended_at :: "time option"
  ru_cost_usd :: "float64 option"
  ru_session_id :: "string option"
  ru_message :: "string option"
  ru_question :: "string option"
  ru_last_message :: "string option"
  ru_model :: "string option"
  ru_effort :: "string option"
  ru_metrics :: "string option"
  ru_step :: string
  ru_workflow :: string
  ru_workflow_hash :: string

record pushed_row =
  pp_id :: int
  pp_ticket_id :: string
  pp_pushed_tip :: string
  pp_base_branch :: string
  pp_base_sha_at_push :: string
  pp_pushed_at :: time

record event_row =
  ev_id :: int
  ev_at :: time
  ev_ticket_id :: "string option"
  ev_kind :: string
  ev_detail :: string

record launch_payload =
  la_prompt_hash :: string
  la_group :: string
  la_context :: string
  la_choice :: agent_choice
  la_workflow :: string

record edit_ticket_payload =
  ep_branch :: string
  ep_blocked_by :: "string list"

datatype payload =
    No_payload
  | Text_payload string
  | Launch_payload launch_payload
  | Edit_payload edit_ticket_payload

record intent_row =
  iw_id :: int
  iw_at :: time
  iw_ticket_id :: string
  iw_verb :: string
  iw_payload :: payload
  iw_consumed_at :: "time option"

record repo_row =
  ro_name :: string
  ro_remote :: string
  ro_state :: string
  ro_refusal_kind :: "string option"
  ro_refusal :: "string option"
  ro_settings_source :: "string option"
  ro_settings_read_at :: "time option"
  ro_tracked_at :: time
  ro_project_id :: "int option"

record project_row =
  pj_id :: int
  pj_name :: string
  pj_hue :: int
  pj_created_at :: time

record reading_row =
  ur_id :: int
  ur_at :: time
  ur_window :: string
  ur_utilization :: float64
  ur_resets_at :: time

record interval_row =
  ui_id :: int
  ui_window :: string
  ui_start_at :: time
  ui_end_at :: time
  ui_utilization_start :: float64
  ui_utilization_end :: float64
  ui_weight_usd :: float64

record tick_error =
  te_at :: time
  te_message :: string

record import_error =
  ie_at :: time
  ie_feature :: string
  ie_message :: string

text \<open>The \<open>meta\<close> table: one value per key, each key with the type its reader decodes.\<close>

record meta_table =
  me_observation :: "observation option"
  me_last_error :: "tick_error option"
  me_import_error :: "import_error option"
  me_checking_ticks :: "(ticket_url, int) gomap option"
  me_last_verdicts :: "(string, string) gomap option"

text \<open>The identity sequences of the tables.\<close>

record sequences =
  sq_launches :: int
  sq_runs :: int
  sq_pushes :: int
  sq_events :: int
  sq_intents :: int
  sq_projects :: int
  sq_readings :: int
  sq_intervals :: int

record db =
  db_tickets :: "ticket_row list"
  db_launches :: "launch_row list"
  db_members :: "member_row list"
  db_runs :: "run_row list"
  db_pushes :: "pushed_row list"
  db_events :: "event_row list"
  db_intents :: "intent_row list"
  db_repos :: "repo_row list"
  db_projects :: "project_row list"
  db_readings :: "reading_row list"
  db_intervals :: "interval_row list"
  db_meta :: meta_table
  db_seq :: sequences

definition empty_db :: db where
  "empty_db = \<lparr>db_tickets = [], db_launches = [], db_members = [], db_runs = [], db_pushes = [], db_events = [],
     db_intents = [], db_repos = [], db_projects = [], db_readings = [], db_intervals = [],
     db_meta = \<lparr>me_observation = None, me_last_error = None, me_import_error = None, me_checking_ticks = None,
       me_last_verdicts = None\<rparr>,
     db_seq = \<lparr>sq_launches = 0, sq_runs = 0, sq_pushes = 0, sq_events = 0, sq_intents = 0, sq_projects = 0,
       sq_readings = 0, sq_intervals = 0\<rparr>\<rparr>"

subsection \<open>Statements and transactions\<close>

record conn =
  cn_db :: db
  cn_fault :: "nat \<Rightarrow> string option"
  cn_uuid :: "nat \<Rightarrow> string"
  cn_clock :: nat

type_synonym 'a query = "(conn, 'a) io"

text \<open>A statement that fails leaves the tables as they were.\<close>

definition stmt :: "(db \<Rightarrow> io_error + 'a \<times> db) \<Rightarrow> 'a query" where
  "stmt f c =
     (let c' = c\<lparr>cn_clock := Suc (cn_clock c)\<rparr>
      in case cn_fault c (cn_clock c) of
           Some s \<Rightarrow> (Inl (Os_error s), c')
         | None \<Rightarrow> (case f (cn_db c) of
                      Inl e \<Rightarrow> (Inl e, c')
                    | Inr (a, d) \<Rightarrow> (Inr a, c'\<lparr>cn_db := d\<rparr>)))"

definition reads :: "(db \<Rightarrow> 'a) \<Rightarrow> 'a query" where
  "reads f = stmt (\<lambda>d. Inr (f d, d))"

definition writes :: "(db \<Rightarrow> 'a \<times> db) \<Rightarrow> 'a query" where
  "writes f = stmt (\<lambda>d. Inr (f d))"

text \<open>
  \<open>inTx\<close>. Whatever the body wrote is undone when it fails or the commit does. The sequences go back with
  the tables, where the server leaves a gap: nobody has seen the numbers of an aborted transaction.
\<close>

definition err_tx_done :: string where
  "err_tx_done = ''sql: transaction has already been committed or rolled back''"

definition undo :: "db \<Rightarrow> conn \<Rightarrow> conn" where
  "undo d c = c\<lparr>cn_db := d\<rparr>"

definition in_tx :: "'a query \<Rightarrow> 'a query" where
  "in_tx body c =
     (case wrapping ''begin'' (reads (\<lambda>_. ())) c of
        (Inl e, c1) \<Rightarrow> (Inl e, c1)
      | (Inr _, c1) \<Rightarrow>
          (case body c1 of
             (Inl e, c2) \<Rightarrow>
               (case reads (\<lambda>_. ()) c2 of
                  (Inl r, c3) \<Rightarrow> (Inl (if is_sentinel err_tx_done r then e else Joined e r), undo (cn_db c) c3)
                | (Inr _, c3) \<Rightarrow> (Inl e, undo (cn_db c) c3))
           | (Inr a, c2) \<Rightarrow>
               (case wrapping ''commit'' (reads (\<lambda>_. ())) c2 of
                  (Inl r, c3) \<Rightarrow> (Inl r, undo (cn_db c) c3)
                | (Inr _, c3) \<Rightarrow> (Inr a, c3))))"

definition err_no_rows :: io_error where "err_no_rows = Sentinel ''sql: no rows in result set''"
definition err_not_found :: io_error where "err_not_found = Sentinel ''store: not found''"

definition is_no_rows :: "io_error \<Rightarrow> bool" where
  "is_no_rows = is_sentinel ''sql: no rows in result set''"

definition is_not_found :: "io_error \<Rightarrow> bool" where
  "is_not_found = is_sentinel ''store: not found''"

definition is_unique_violation :: "io_error \<Rightarrow> string \<Rightarrow> bool" where
  "is_unique_violation e constraint =
     (case as_error (\<lambda>e. case e of Pg_error code cons _ \<Rightarrow> Some (code, cons) | _ \<Rightarrow> None) e of
        Some (code, cons) \<Rightarrow> code = ''23505'' \<and> cons = constraint
      | None \<Rightarrow> False)"

definition matched_row :: "string \<Rightarrow> int query \<Rightarrow> unit query" where
  "matched_row what q =
     and_then (wrapping what q)
       (\<lambda>n. if n = 0 then fail_with (Wrapped what err_not_found) else ret ())"

text \<open>A query of one row: \<open>sql.ErrNoRows\<close> where there is none.\<close>

definition one_row :: "(db \<Rightarrow> 'a option) \<Rightarrow> 'a query" where
  "one_row f = stmt (\<lambda>d. case f d of None \<Rightarrow> Inl err_no_rows | Some a \<Rightarrow> Inr (a, d))"

subsection \<open>What SQL's clauses do to a list of rows\<close>

definition update_where :: "('r \<Rightarrow> bool) \<Rightarrow> ('r \<Rightarrow> 'r) \<Rightarrow> 'r list \<Rightarrow> 'r list" where
  "update_where P f rows = map (\<lambda>r. if P r then f r else r) rows"

definition count_where :: "('r \<Rightarrow> bool) \<Rightarrow> 'r list \<Rightarrow> int" where
  "count_where P rows = int (length (filter P rows))"

text \<open>\<open>ORDER BY id\<close>, \<open>ORDER BY id DESC LIMIT 1\<close>, and \<open>DISTINCT ON (key) \<dots> ORDER BY key, id DESC\<close>.\<close>

definition by_id :: "('r \<Rightarrow> int) \<Rightarrow> 'r list \<Rightarrow> 'r list" where
  "by_id rid rows = sort_func (\<lambda>a b. int_compare (rid a) (rid b)) rows"

definition latest_row :: "('r \<Rightarrow> int) \<Rightarrow> 'r list \<Rightarrow> 'r option" where
  "latest_row rid rows =
     fold (\<lambda>r best. case best of None \<Rightarrow> Some r | Some b \<Rightarrow> if rid r > rid b then Some r else best) rows None"

definition by_text :: "('r \<Rightarrow> string) \<Rightarrow> 'r list \<Rightarrow> 'r list" where
  "by_text key rows = sort_func (\<lambda>a b. str_compare (key a) (key b)) rows"

definition distinct_on :: "('r \<Rightarrow> string) \<Rightarrow> ('r \<Rightarrow> int) \<Rightarrow> 'r list \<Rightarrow> 'r list" where
  "distinct_on key rid rows =
     List.map_filter (\<lambda>k. latest_row rid (filter (\<lambda>r. key r = k) rows)) (by_text id (remdups (map key rows)))"

text \<open>The constraints that a statement of the store can run into.\<close>

definition unique_violation :: "string \<Rightarrow> io_error" where
  "unique_violation c =
     Pg_error ''23505'' c (''duplicate key value violates unique constraint '' @ quoted c)"

definition foreign_key_violation :: "string \<Rightarrow> io_error" where
  "foreign_key_violation c =
     Pg_error ''23503'' c (''insert or update violates foreign key constraint '' @ quoted c)"

definition check_violation :: "string \<Rightarrow> io_error" where
  "check_violation c = Pg_error ''23514'' c (''new row violates check constraint '' @ quoted c)"

definition second_update_error :: io_error where
  "second_update_error =
     Pg_error ''21000'' [] ''ON CONFLICT DO UPDATE command cannot affect row a second time''"

definition has_ticket :: "db \<Rightarrow> string \<Rightarrow> bool" where
  "has_ticket d url \<longleftrightarrow> url \<in> set (map tk_url (db_tickets d))"

definition ticket_fk :: "db \<Rightarrow> string option \<Rightarrow> bool" where
  "ticket_fk d u \<longleftrightarrow> (case u of None \<Rightarrow> True | Some url \<Rightarrow> has_ticket d url)"

subsection \<open>Reasoning about statements and transactions\<close>

lemma reads_Inr:
  "reads f c = (Inr a, c') \<longleftrightarrow>
     cn_fault c (cn_clock c) = None \<and> a = f (cn_db c) \<and> c' = c\<lparr>cn_clock := Suc (cn_clock c)\<rparr>"
  by (auto simp: reads_def stmt_def Let_def split: option.splits)

lemma stmt_Inl_db: "stmt f c = (Inl e, c') \<Longrightarrow> cn_db c' = cn_db c"
  by (auto simp: stmt_def Let_def split: option.splits sum.splits)

lemma reads_db: "reads f c = (r, c') \<Longrightarrow> cn_db c' = cn_db c"
  by (auto simp: reads_def stmt_def Let_def split: option.splits)

text \<open>What a successful run of a query does: the result and the tables before and after.\<close>

definition yields :: "'a query \<Rightarrow> db \<Rightarrow> 'a \<Rightarrow> db \<Rightarrow> bool" where
  "yields m d a d' \<longleftrightarrow> (\<exists>c c'. m c = (Inr a, c') \<and> cn_db c = d \<and> cn_db c' = d')"

lemma yieldsI: "m c = (Inr a, c') \<Longrightarrow> yields m (cn_db c) a (cn_db c')"
  by (auto simp: yields_def)

text \<open>A connection that fails no statement: what can succeed succeeds there.\<close>

definition calm :: "db \<Rightarrow> conn" where
  "calm d = \<lparr>cn_db = d, cn_fault = (\<lambda>_. None), cn_uuid = (\<lambda>_. []), cn_clock = 0\<rparr>"

lemma run_result: "fst (m c) = r \<Longrightarrow> m c = (r, snd (m c))"
  by (simp add: prod_eq_iff)

lemma yields_stmt [simp]: "yields (stmt f) d a d' \<longleftrightarrow> f d = Inr (a, d')"
proof
  show "yields (stmt f) d a d' \<Longrightarrow> f d = Inr (a, d')"
    by (auto simp: yields_def stmt_def Let_def split: option.splits sum.splits)
next
  assume f: "f d = Inr (a, d')"
  have "stmt f (calm d) = (Inr a, (calm d')\<lparr>cn_clock := 1\<rparr>)"
    by (simp add: stmt_def calm_def f)
  from yieldsI [of "stmt f", OF this] show "yields (stmt f) d a d'" by (simp add: calm_def)
qed

lemma yields_reads [simp]: "yields (reads f) d a d' \<longleftrightarrow> a = f d \<and> d' = d"
  by (auto simp: reads_def)

lemma yields_writes [simp]: "yields (writes f) d a d' \<longleftrightarrow> f d = (a, d')"
  by (auto simp: writes_def)

lemma yields_one_row [simp]: "yields (one_row f) d a d' \<longleftrightarrow> f d = Some a \<and> d' = d"
  by (auto simp: one_row_def split: option.splits)

lemma yields_ret [simp]: "yields (ret x) d a d' \<longleftrightarrow> a = x \<and> d' = d"
  by (auto simp: yields_def intro: exI [of _ "calm d"] simp: calm_def)

lemma yields_fail [simp]: "\<not> yields (fail_with e) d a d'"
  by (simp add: yields_def)

lemma yields_wrapping [simp]: "yields (wrapping s m) = yields m"
  by (simp add: yields_def fun_eq_iff)

lemma yields_bind:
  "yields (and_then m f) d b d' \<Longrightarrow> (\<And>a d1. yields m d a d1 \<Longrightarrow> yields (f a) d1 b d' \<Longrightarrow> P) \<Longrightarrow> P"
  by (fastforce simp: yields_def and_then_Inr)

lemma yields_matched: "yields (matched_row what q) d u d' \<Longrightarrow> \<exists>n. n \<noteq> 0 \<and> yields q d n d'"
  unfolding matched_row_def by (erule yields_bind) (auto split: if_splits)

lemma yields_tx:
  assumes "yields (in_tx body) d a d'"
  shows "yields body d a d'"
proof -
  from assms obtain c c' where run: "in_tx body c = (Inr a, c')" and d: "cn_db c = d" "cn_db c' = d'"
    by (auto simp: yields_def)
  from run obtain c1 c2 where "reads (\<lambda>_. ()) c = (Inr (), c1)" "body c1 = (Inr a, c2)"
      "reads (\<lambda>_. ()) c2 = (Inr (), c')"
    by (auto simp: in_tx_def split: prod.splits sum.splits)
  then have "yields body (cn_db c1) a (cn_db c2)" "cn_db c1 = d" "cn_db c2 = d'"
    using d by (auto intro: yieldsI dest!: reads_db)
  then show ?thesis by simp
qed

text \<open>A transaction that fails, for whatever reason, leaves every table as it was.\<close>

lemma tx_failure_undone:
  assumes "in_tx body c = (Inl e, c')"
  shows "cn_db c' = cn_db c"
  using assms by (auto simp: in_tx_def undo_def wrapping_exit split: prod.splits sum.splits dest!: reads_db)

text \<open>What every run of a query keeps, whether it succeeds or fails.\<close>

definition keeps :: "(db \<Rightarrow> bool) \<Rightarrow> 'a query \<Rightarrow> bool" where
  "keeps I m \<longleftrightarrow> (\<forall>c r c'. I (cn_db c) \<longrightarrow> m c = (r, c') \<longrightarrow> I (cn_db c'))"

named_theorems keeping \<open>rules for what a query keeps\<close>

lemma keepsD: "keeps I m \<Longrightarrow> m c = (r, c') \<Longrightarrow> I (cn_db c) \<Longrightarrow> I (cn_db c')"
  by (auto simp: keeps_def)

lemma keeps_ret [keeping]: "keeps I (ret a)"
  by (simp add: keeps_def)

lemma keeps_fail [keeping]: "keeps I (fail_with e)"
  by (simp add: keeps_def)

lemma keeps_stmt: "(\<And>d a d'. I d \<Longrightarrow> f d = Inr (a, d') \<Longrightarrow> I d') \<Longrightarrow> keeps I (stmt f)"
  by (fastforce simp: keeps_def stmt_def Let_def split: option.splits sum.splits)

lemma keeps_reads [keeping]: "keeps I (reads f)"
  unfolding reads_def by (rule keeps_stmt) auto

lemma keeps_one_row [keeping]: "keeps I (one_row f)"
  unfolding one_row_def by (rule keeps_stmt) (auto split: option.splits)

lemma keeps_writes: "(\<And>d. I d \<Longrightarrow> I (snd (f d))) \<Longrightarrow> keeps I (writes f)"
  unfolding writes_def by (rule keeps_stmt) (metis snd_conv sum.inject(2))

lemma keeps_wrapping [keeping]: "keeps I m \<Longrightarrow> keeps I (wrapping s m)"
  by (auto simp: keeps_def wrapping_def split: prod.splits sum.splits)

lemma keeps_bind [keeping]:
  assumes m: "keeps I m" and f: "\<And>a. keeps I (f a)"
  shows "keeps I (and_then m f)"
  unfolding keeps_def
proof (intro allI impI)
  fix c r c' assume I: "I (cn_db c)" and run: "and_then m f c = (r, c')"
  obtain r1 c1 where first: "m c = (r1, c1)" by (meson surj_pair)
  from keepsD [OF m first I] have I1: "I (cn_db c1)" .
  from run first I1 show "I (cn_db c')"
    by (cases r1) (auto simp: and_then_def dest: keepsD [OF f])
qed

lemma keeps_matched [keeping]: "keeps I q \<Longrightarrow> keeps I (matched_row what q)"
  unfolding matched_row_def by (auto intro!: keeping split: if_splits)

lemma keeps_tx [keeping]:
  assumes body: "keeps I body"
  shows "keeps I (in_tx body)"
  unfolding keeps_def
proof (intro allI impI)
  fix c r c' assume I: "I (cn_db c)" and run: "in_tx body c = (r, c')"
  show "I (cn_db c')"
  proof (cases r)
    case (Inl e)
    with run tx_failure_undone [of body c e c'] I show ?thesis by simp
  next
    case (Inr a)
    with run obtain c1 c2 where "reads (\<lambda>_. ()) c = (Inr (), c1)" "body c1 = (Inr a, c2)"
        "reads (\<lambda>_. ()) c2 = (Inr (), c')"
      by (auto simp: in_tx_def split: prod.splits sum.splits)
    then have "cn_db c1 = cn_db c" "cn_db c' = cn_db c2" by (auto dest: reads_db)
    with keepsD [OF body \<open>body c1 = _\<close>] I show ?thesis by simp
  qed
qed

subsection \<open>Reasoning about rows\<close>

lemma set_by_id [simp]: "set (by_id rid rows) = set rows"
  by (simp add: by_id_def)

lemma set_by_text [simp]: "set (by_text key rows) = set rows"
  by (simp add: by_text_def)

lemma length_update_where [simp]: "length (update_where P f rows) = length rows"
  by (simp add: update_where_def)

lemma map_update_where: "(\<And>r. g (f r) = g r) \<Longrightarrow> map g (update_where P f rows) = map g rows"
  by (simp add: update_where_def)

lemma update_where_none: "\<not> (\<exists>r \<in> set rows. P r) \<Longrightarrow> update_where P f rows = rows"
  by (auto simp: update_where_def intro: map_idI)

lemma set_update_where: "x \<in> set (update_where P f rows) \<Longrightarrow> \<exists>r \<in> set rows. x = (if P r then f r else r)"
  by (auto simp: update_where_def)

lemma image_update_where: "(\<And>r. g (f r) = g r) \<Longrightarrow> g ` set (update_where P f rows) = g ` set rows"
  by (metis map_update_where set_map)

lemma count_where_0 [simp]: "count_where P rows = 0 \<longleftrightarrow> (\<forall>r \<in> set rows. \<not> P r)"
  by (simp add: count_where_def filter_empty_conv)

end
