(* ===== verification/Queries.thy ===== *)
theory Queries imports Database begin

text \<open>
  The statements of \<open>internal/store/ccdb/*.sql.go\<close>: what each SQL text does to the tables and what it
  returns. A query that projects some columns returns the whole rows here; its caller reads the
  columns it asked for.
\<close>

subsection \<open>\<open>store.sql.go\<close>: tickets\<close>

definition active :: "ticket_row \<Rightarrow> bool" where
  "active t \<longleftrightarrow> tk_withdrawn_at t = None"

text \<open>\<open>INSERT \<dots> ON CONFLICT (url) DO UPDATE\<close>: a statement may not touch one row twice.\<close>

definition upsert_row :: "(ticket_row \<Rightarrow> ticket_row \<Rightarrow> ticket_row) \<Rightarrow> ticket_row \<Rightarrow> ticket_row list \<Rightarrow> ticket_row list" where
  "upsert_row merge new rows =
     (if tk_url new \<in> set (map tk_url rows)
      then update_where (\<lambda>r. tk_url r = tk_url new) (\<lambda>old. merge old new) rows
      else rows @ [new])"

definition upsert_rows ::
  "(ticket_row \<Rightarrow> ticket_row \<Rightarrow> ticket_row) \<Rightarrow> ticket_row list \<Rightarrow> db \<Rightarrow> io_error + unit \<times> db" where
  "upsert_rows merge news d =
     (if distinct (map tk_url news)
      then Inr ((), d\<lparr>db_tickets := fold (upsert_row merge) news (db_tickets d)\<rparr>)
      else Inl second_update_error)"

definition seed_over :: "ticket_row \<Rightarrow> ticket_row \<Rightarrow> ticket_row" where
  "seed_over old new = new\<lparr>tk_withdrawn_at := tk_withdrawn_at old\<rparr>"

definition import_over :: "ticket_row \<Rightarrow> ticket_row \<Rightarrow> ticket_row" where
  "import_over old new =
     new\<lparr>tk_branch := tk_branch old, tk_blocked_by := tk_blocked_by old, tk_withdrawn_at := None\<rparr>"

definition q_upsert_tickets :: "ticket_row list \<Rightarrow> unit query" where
  "q_upsert_tickets rows = stmt (upsert_rows seed_over rows)"

definition q_import_tickets :: "ticket_row list \<Rightarrow> unit query" where
  "q_import_tickets rows = stmt (upsert_rows import_over rows)"

definition q_list_tickets :: "ticket_row list query" where
  "q_list_tickets = reads (\<lambda>d. by_text tk_url (filter active (db_tickets d)))"

definition q_get_ticket_feature :: "string \<Rightarrow> string query" where
  "q_get_ticket_feature url =
     one_row (\<lambda>d. map_option tk_feature (find (\<lambda>t. tk_url t = url \<and> active t) (db_tickets d)))"

definition q_list_active_ticket_features :: "string list \<Rightarrow> ticket_row list query" where
  "q_list_active_ticket_features urls = reads (\<lambda>d. filter (\<lambda>t. tk_url t \<in> set urls \<and> active t) (db_tickets d))"

definition q_list_ticket_features :: "string list \<Rightarrow> ticket_row list query" where
  "q_list_ticket_features urls = reads (\<lambda>d. filter (\<lambda>t. tk_url t \<in> set urls) (db_tickets d))"

definition q_list_ticket_branches :: "string list \<Rightarrow> ticket_row list query" where
  "q_list_ticket_branches urls = reads (\<lambda>d. filter (\<lambda>t. tk_url t \<in> set urls) (db_tickets d))"

definition q_list_tickets_in_feature :: "string \<Rightarrow> ticket_row list query" where
  "q_list_tickets_in_feature feature = reads (\<lambda>d. filter (\<lambda>t. tk_feature t = feature \<and> active t) (db_tickets d))"

definition q_list_withdrawn_tickets :: "ticket_row list query" where
  "q_list_withdrawn_tickets = reads (\<lambda>d. filter (\<lambda>t. \<not> active t) (db_tickets d))"

definition q_list_tickets_with_blockers :: "ticket_row list query" where
  "q_list_tickets_with_blockers = reads (\<lambda>d. filter active (db_tickets d))"

definition set_tickets :: "(ticket_row \<Rightarrow> bool) \<Rightarrow> (ticket_row \<Rightarrow> ticket_row) \<Rightarrow> db \<Rightarrow> int \<times> db" where
  "set_tickets P f d = (count_where P (db_tickets d), d\<lparr>db_tickets := update_where P f (db_tickets d)\<rparr>)"

definition q_withdraw_ticket :: "string \<Rightarrow> time \<Rightarrow> int query" where
  "q_withdraw_ticket url at =
     writes (set_tickets (\<lambda>t. tk_url t = url \<and> active t) (\<lambda>t. t\<lparr>tk_withdrawn_at := Some at\<rparr>))"

definition q_withdraw_tickets :: "string list \<Rightarrow> time \<Rightarrow> int query" where
  "q_withdraw_tickets urls at =
     writes (set_tickets (\<lambda>t. tk_url t \<in> set urls \<and> active t) (\<lambda>t. t\<lparr>tk_withdrawn_at := Some at\<rparr>))"

definition q_set_blocked_bys :: "(string \<times> string list) list \<Rightarrow> int query" where
  "q_set_blocked_bys updates =
     writes (set_tickets (\<lambda>t. tk_url t \<in> fst ` set updates)
       (\<lambda>t. t\<lparr>tk_blocked_by := get_or (tk_blocked_by t) updates (tk_url t)\<rparr>))"

definition q_edit_ticket :: "string \<Rightarrow> string \<Rightarrow> string list \<Rightarrow> int query" where
  "q_edit_ticket url branch blocked_by =
     writes (set_tickets (\<lambda>t. tk_url t = url) (\<lambda>t. t\<lparr>tk_branch := branch, tk_blocked_by := blocked_by\<rparr>))"

subsection \<open>\<open>store.sql.go\<close>: events and retention\<close>

datatype event_kind =
    EventUnknown
  | EventPushRefused
  | EventPushFailed
  | EventPushed
  | EventImportRefused
  | EventRemoveWorktreeRefused
  | EventVerdictTransition
  | EventTickError
  | EventRefreshRefused
  | EventRefreshConflicted
  | EventRefreshed
  | EventRestacked
  | EventVerificationFailed
  | EventRetargeted
  | EventRetargetFailed
  | EventPROpened
  | EventPRMerged
  | EventChecksLanded
  | EventRunLaunched
  | EventRunDisposed
  | EventCutFailed
  | EventSpawnFailed
  | EventWorktreeRemoved
  | EventLaunchCancelled
  | EventMergeAborted
  | EventMergeAbortFailed
  | EventFollowUpRefused
  | EventDraftReady
  | EventDraftReadyFailed
  | EventLaunch

primrec event_kind_text :: "event_kind \<Rightarrow> string" where
  "event_kind_text EventUnknown = ''''"
| "event_kind_text EventPushRefused = ''push_refused''"
| "event_kind_text EventPushFailed = ''push_failed''"
| "event_kind_text EventPushed = ''pushed''"
| "event_kind_text EventImportRefused = ''import_refused''"
| "event_kind_text EventRemoveWorktreeRefused = ''remove_worktree_refused''"
| "event_kind_text EventVerdictTransition = ''verdict_transition''"
| "event_kind_text EventTickError = ''tick_error''"
| "event_kind_text EventRefreshRefused = ''refresh_refused''"
| "event_kind_text EventRefreshConflicted = ''refresh_conflicted''"
| "event_kind_text EventRefreshed = ''refreshed''"
| "event_kind_text EventRestacked = ''restacked''"
| "event_kind_text EventVerificationFailed = ''verification_failed''"
| "event_kind_text EventRetargeted = ''retargeted''"
| "event_kind_text EventRetargetFailed = ''retarget_failed''"
| "event_kind_text EventPROpened = ''pr_opened''"
| "event_kind_text EventPRMerged = ''pr_merged''"
| "event_kind_text EventChecksLanded = ''checks_landed''"
| "event_kind_text EventRunLaunched = ''run_launched''"
| "event_kind_text EventRunDisposed = ''run_disposed''"
| "event_kind_text EventCutFailed = ''cut_failed''"
| "event_kind_text EventSpawnFailed = ''spawn_failed''"
| "event_kind_text EventWorktreeRemoved = ''worktree_removed''"
| "event_kind_text EventLaunchCancelled = ''launch_cancelled''"
| "event_kind_text EventMergeAborted = ''merge_aborted''"
| "event_kind_text EventMergeAbortFailed = ''merge_abort_failed''"
| "event_kind_text EventFollowUpRefused = ''follow_up_refused''"
| "event_kind_text EventDraftReady = ''draft_ready''"
| "event_kind_text EventDraftReadyFailed = ''draft_ready_failed''"
| "event_kind_text EventLaunch = ''launch''"

definition all_event_kinds :: "event_kind list" where
  "all_event_kinds = [EventPushRefused, EventPushFailed, EventPushed, EventImportRefused, EventRemoveWorktreeRefused,
     EventVerdictTransition, EventTickError, EventRefreshRefused, EventRefreshConflicted, EventRefreshed,
     EventRestacked, EventVerificationFailed, EventRetargeted, EventRetargetFailed, EventPROpened,
     EventPRMerged, EventChecksLanded, EventRunLaunched, EventRunDisposed, EventCutFailed,
     EventSpawnFailed, EventWorktreeRemoved, EventLaunchCancelled, EventMergeAborted,
     EventMergeAbortFailed, EventFollowUpRefused, EventDraftReady, EventDraftReadyFailed, EventLaunch]"

definition parse_event_kind :: "string \<Rightarrow> parse_error + event_kind" where
  "parse_event_kind s = parse_member ''event kind'' event_kind_text all_event_kinds s"

interpretation event_kinds: vocabulary all_event_kinds event_kind_text
  by unfold_locales (simp add: all_event_kinds_def)

text \<open>The constraint \<open>events_kind_check\<close> lists the same texts.\<close>

definition add_event :: "time \<Rightarrow> string option \<Rightarrow> string \<Rightarrow> string \<Rightarrow> db \<Rightarrow> db" where
  "add_event at ticket kind detail d =
     d\<lparr>db_events := db_events d @ [\<lparr>ev_id = sq_events (db_seq d) + 1, ev_at = at, ev_ticket_id = ticket,
         ev_kind = kind, ev_detail = detail\<rparr>],
       db_seq := db_seq d\<lparr>sq_events := sq_events (db_seq d) + 1\<rparr>\<rparr>"

definition q_append_event :: "time \<Rightarrow> string option \<Rightarrow> string \<Rightarrow> string \<Rightarrow> unit query" where
  "q_append_event at ticket kind detail =
     stmt (\<lambda>d. if kind \<notin> set (map event_kind_text all_event_kinds) then Inl (check_violation ''events_kind_check'')
               else if \<not> ticket_fk d ticket then Inl (foreign_key_violation ''events_ticket_id_fkey'')
               else Inr ((), add_event at ticket kind detail d))"

definition q_has_event :: "string option \<Rightarrow> string \<Rightarrow> bool query" where
  "q_has_event ticket kind =
     reads (\<lambda>d. ticket \<noteq> None \<and> (\<exists>e \<in> set (db_events d). ev_ticket_id e = ticket \<and> ev_kind e = kind))"

definition q_list_events :: "nat \<Rightarrow> event_row list query" where
  "q_list_events max_rows = reads (\<lambda>d. rev (take max_rows (rev (by_id ev_id (db_events d)))))"

definition q_list_ticket_events_after :: "string option \<Rightarrow> int \<Rightarrow> nat \<Rightarrow> event_row list query" where
  "q_list_ticket_events_after ticket after_id max_rows =
     reads (\<lambda>d. take max_rows (by_id ev_id
       (filter (\<lambda>e. ticket \<noteq> None \<and> ev_ticket_id e = ticket \<and> ev_id e > after_id) (db_events d))))"

text \<open>\<open>DELETE \<dots> WHERE id IN (SELECT \<dots> LIMIT batch)\<close>: which rows of the table a limit picks is the table's order.\<close>

definition delete_batch :: "('r \<Rightarrow> bool) \<Rightarrow> ('r \<Rightarrow> int) \<Rightarrow> nat \<Rightarrow> 'r list \<Rightarrow> 'r list" where
  "delete_batch P rid batch rows =
     (let gone = set (map rid (take batch (filter P rows))) in filter (\<lambda>r. rid r \<notin> gone) rows)"

definition q_prune_consumed_intents :: "time \<Rightarrow> nat \<Rightarrow> int query" where
  "q_prune_consumed_intents before batch = writes (\<lambda>d.
     let rows = delete_batch (\<lambda>i. case iw_consumed_at i of None \<Rightarrow> False | Some t \<Rightarrow> t < before) iw_id batch (db_intents d)
     in (int (length (db_intents d)) - int (length rows), d\<lparr>db_intents := rows\<rparr>))"

definition q_prune_tick_errors :: "time \<Rightarrow> nat \<Rightarrow> int query" where
  "q_prune_tick_errors before batch = writes (\<lambda>d.
     let rows = delete_batch (\<lambda>e. ev_kind e = ''tick_error'' \<and> ev_at e < before) ev_id batch (db_events d)
     in (int (length (db_events d)) - int (length rows), d\<lparr>db_events := rows\<rparr>))"

definition q_prune_readings :: "time \<Rightarrow> nat \<Rightarrow> int query" where
  "q_prune_readings before batch = writes (\<lambda>d.
     let rows = delete_batch (\<lambda>r. ur_at r < before
           \<and> (\<exists>n \<in> set (db_readings d). ur_window n = ur_window r \<and> ur_at n > ur_at r)) ur_id batch (db_readings d)
     in (int (length (db_readings d)) - int (length rows), d\<lparr>db_readings := rows\<rparr>))"

definition q_prune_intervals :: "time \<Rightarrow> nat \<Rightarrow> int query" where
  "q_prune_intervals before batch = writes (\<lambda>d.
     let rows = delete_batch (\<lambda>u. ui_end_at u < before) ui_id batch (db_intervals d)
     in (int (length (db_intervals d)) - int (length rows), d\<lparr>db_intervals := rows\<rparr>))"

definition q_latest_readings_full :: "reading_row list query" where
  "q_latest_readings_full = reads (\<lambda>d. distinct_on ur_window ur_at (db_readings d))"

text \<open>\<open>ON CONFLICT DO NOTHING\<close>: a row whose key is taken, by the table or by an earlier row of the batch, is dropped.\<close>

definition add_reading :: "reading_row \<Rightarrow> db \<Rightarrow> db" where
  "add_reading r d =
     (if \<exists>s \<in> set (db_readings d). ur_at s = ur_at r \<and> ur_window s = ur_window r then d
      else let n = sq_readings (db_seq d) + 1
           in d\<lparr>db_readings := db_readings d @ [r\<lparr>ur_id := n\<rparr>], db_seq := db_seq d\<lparr>sq_readings := n\<rparr>\<rparr>)"

definition q_record_readings :: "reading_row list \<Rightarrow> unit query" where
  "q_record_readings rows = writes (\<lambda>d. ((), fold add_reading rows d))"

definition add_interval :: "interval_row \<Rightarrow> db \<Rightarrow> db" where
  "add_interval r d =
     (if \<exists>s \<in> set (db_intervals d). ui_window s = ui_window r \<and> ui_start_at s = ui_start_at r then d
      else let n = sq_intervals (db_seq d) + 1
           in d\<lparr>db_intervals := db_intervals d @ [r\<lparr>ui_id := n\<rparr>], db_seq := db_seq d\<lparr>sq_intervals := n\<rparr>\<rparr>)"

definition q_record_intervals :: "interval_row list \<Rightarrow> unit query" where
  "q_record_intervals rows = writes (\<lambda>d. ((), fold add_interval rows d))"

definition compare_intervals :: "interval_row \<Rightarrow> interval_row \<Rightarrow> int" where
  "compare_intervals a b =
     (if ui_window a \<noteq> ui_window b then str_compare (ui_window a) (ui_window b)
      else int_compare (ui_start_at a) (ui_start_at b))"

definition q_list_intervals_since :: "time \<Rightarrow> interval_row list query" where
  "q_list_intervals_since since =
     reads (\<lambda>d. sort_func compare_intervals (filter (\<lambda>u. since \<le> ui_end_at u) (db_intervals d)))"

text \<open>\<open>GetMeta\<close> and \<open>PutMeta\<close>, with the column of the key given by its two accessors.\<close>

definition q_get_meta :: "(meta_table \<Rightarrow> 'v option) \<Rightarrow> 'v query" where
  "q_get_meta key = one_row (\<lambda>d. key (db_meta d))"

definition q_put_meta :: "((('v option \<Rightarrow> 'v option) \<Rightarrow> meta_table \<Rightarrow> meta_table)) \<Rightarrow> 'v \<Rightarrow> unit query" where
  "q_put_meta key_update v = writes (\<lambda>d. ((), d\<lparr>db_meta := key_update (\<lambda>_. Some v) (db_meta d)\<rparr>))"

subsection \<open>\<open>launch.sql.go\<close>\<close>

text \<open>The constraint \<open>intents_verb_check\<close>: the verbs of the vocabulary and \<open>edit_ticket\<close>.\<close>

definition intent_verbs :: "string list" where
  "intent_verbs = map verb_text all_verbs @ [''edit_ticket'']"

definition add_intent :: "time \<Rightarrow> string \<Rightarrow> string \<Rightarrow> payload \<Rightarrow> db \<Rightarrow> db" where
  "add_intent at ticket verb p d =
     d\<lparr>db_intents := db_intents d @ [\<lparr>iw_id = sq_intents (db_seq d) + 1, iw_at = at, iw_ticket_id = ticket,
         iw_verb = verb, iw_payload = p, iw_consumed_at = None\<rparr>],
       db_seq := db_seq d\<lparr>sq_intents := sq_intents (db_seq d) + 1\<rparr>\<rparr>"

definition insert_intent :: "time \<Rightarrow> string \<Rightarrow> string \<Rightarrow> payload \<Rightarrow> unit query" where
  "insert_intent at ticket verb p =
     stmt (\<lambda>d. if verb \<notin> set intent_verbs then Inl (check_violation ''intents_verb_check'')
               else Inr ((), add_intent at ticket verb p d))"

definition q_queue_launch_intent :: "time \<Rightarrow> string \<Rightarrow> payload \<Rightarrow> unit query" where
  "q_queue_launch_intent at ticket p = insert_intent at ticket ''launch'' p"

definition pending_of :: "string \<Rightarrow> intent_row \<Rightarrow> bool" where
  "pending_of verb i \<longleftrightarrow> iw_verb i = verb \<and> iw_consumed_at i = None"

definition q_claim_launch_intents :: "time \<Rightarrow> intent_row list query" where
  "q_claim_launch_intents at = writes (\<lambda>d.
     (filter (pending_of ''launch'') (db_intents d),
      d\<lparr>db_intents := update_where (pending_of ''launch'') (\<lambda>i. i\<lparr>iw_consumed_at := Some at\<rparr>) (db_intents d)\<rparr>))"

definition effort_ok :: "string option \<Rightarrow> bool" where
  "effort_ok e = (case e of None \<Rightarrow> True | Some s \<Rightarrow> s \<in> set (map effort_text all_efforts))"

definition q_insert_launch ::
  "time \<Rightarrow> string \<Rightarrow> string option \<Rightarrow> string option \<Rightarrow> string \<Rightarrow> int query" where
  "q_insert_launch at context model effort workflow = stmt (\<lambda>d.
     if \<not> effort_ok effort then Inl (check_violation ''launches_effort_check'')
     else
       let new = sq_launches (db_seq d) + 1
       in Inr (new, d\<lparr>db_launches := db_launches d @ [\<lparr>lr_id = new, lr_created_at = at, lr_state = ''active'',
                        lr_context = context, lr_model = model, lr_effort = effort,
                        lr_workflow = (if workflow = [] then ''v0'' else workflow)\<rparr>],
                      db_seq := db_seq d\<lparr>sq_launches := new\<rparr>\<rparr>))"

definition q_insert_launch_members :: "int \<Rightarrow> (string \<times> string) list \<Rightarrow> unit query" where
  "q_insert_launch_members launch members = stmt (\<lambda>d.
     if launch \<notin> set (map lr_id (db_launches d)) then Inl (foreign_key_violation ''launch_members_launch_id_fkey'')
     else if \<exists>m \<in> set members. \<not> has_ticket d (fst m) then Inl (foreign_key_violation ''launch_members_ticket_id_fkey'')
     else if \<not> distinct (map fst members)
             \<or> (\<exists>r \<in> set (db_members d). mb_launch_id r = launch \<and> mb_ticket_id r \<in> fst ` set members)
       then Inl (unique_violation ''launch_members_pkey'')
     else Inr ((), d\<lparr>db_members := db_members d
            @ map (\<lambda>(t, h). \<lparr>mb_launch_id = launch, mb_ticket_id = t, mb_prompt_hash = h\<rparr>) members\<rparr>))"

definition q_insert_launch_event :: "time \<Rightarrow> string \<Rightarrow> unit query" where
  "q_insert_launch_event at detail = writes (\<lambda>d. ((), add_event at None ''launch'' detail d))"

text \<open>A membership with its launch and the number of members of that launch.\<close>

type_synonym membership_row = "member_row \<times> launch_row \<times> int"

definition memberships_of :: "db \<Rightarrow> membership_row list" where
  "memberships_of d = concat (map (\<lambda>m. map (\<lambda>l. (m, l, count_where (\<lambda>n. mb_launch_id n = lr_id l) (db_members d)))
     (filter (\<lambda>l. lr_id l = mb_launch_id m \<and> lr_state l \<in> {''active'', ''cancelled''}) (db_launches d))) (db_members d))"

definition membership_order :: "membership_row \<Rightarrow> membership_row \<Rightarrow> int" where
  "membership_order a b = (case (a, b) of ((m, l, _), (m', l', _)) \<Rightarrow>
     if (lr_state l = ''active'') \<noteq> (lr_state l' = ''active'') then (if lr_state l = ''active'' then -1 else 1)
     else if lr_id l \<noteq> lr_id l' then int_compare (lr_id l') (lr_id l)
     else str_compare (mb_ticket_id m) (mb_ticket_id m'))"

definition q_list_launch_memberships :: "nat \<Rightarrow> membership_row list query" where
  "q_list_launch_memberships max_rows = reads (\<lambda>d. take max_rows (sort_func membership_order (memberships_of d)))"

definition active_launches_of :: "db \<Rightarrow> string \<Rightarrow> int list" where
  "active_launches_of d ticket =
     map lr_id (filter (\<lambda>l. lr_state l = ''active''
       \<and> (\<exists>m \<in> set (db_members d). mb_launch_id m = lr_id l \<and> mb_ticket_id m = ticket)) (db_launches d))"

definition q_active_launch_member_count :: "string \<Rightarrow> int query" where
  "q_active_launch_member_count ticket =
     reads (\<lambda>d. count_where (\<lambda>m. mb_launch_id m \<in> set (active_launches_of d ticket)) (db_members d))"

definition q_cancel_active_launches :: "string \<Rightarrow> int query" where
  "q_cancel_active_launches ticket = writes (\<lambda>d.
     let hit = (\<lambda>l. lr_id l \<in> set (active_launches_of d ticket))
     in (count_where hit (db_launches d),
         d\<lparr>db_launches := update_where hit (\<lambda>l. l\<lparr>lr_state := ''cancelled''\<rparr>) (db_launches d)\<rparr>))"

definition q_feature_first_launch :: "string \<Rightarrow> time query" where
  "q_feature_first_launch feature = one_row (\<lambda>d.
     let at = map lr_created_at (filter (\<lambda>l. lr_state l \<noteq> ''cancelled''
           \<and> (\<exists>m \<in> set (db_members d). mb_launch_id m = lr_id l
               \<and> (\<exists>t \<in> set (db_tickets d). tk_url t = mb_ticket_id m \<and> tk_feature t = feature))) (db_launches d))
     in (case at of [] \<Rightarrow> None | _ \<Rightarrow> Some (Min (set at))))"

subsection \<open>\<open>runs.sql.go\<close>: runs\<close>

definition next_run :: "db \<Rightarrow> run_row \<Rightarrow> db" where
  "next_run d r = d\<lparr>db_runs := db_runs d @ [r], db_seq := db_seq d\<lparr>sq_runs := ru_id r\<rparr>\<rparr>"

definition run_checks :: "run_row \<Rightarrow> db \<Rightarrow> io_error option" where
  "run_checks r d =
     (if ru_kind r \<notin> set (map run_kind_text all_run_kinds) then Some (check_violation ''runs_kind_check'')
      else if (case ru_outcome r of None \<Rightarrow> False | Some o' \<Rightarrow> o' \<notin> set (map outcome_text all_outcomes))
        then Some (check_violation ''runs_outcome_check'')
      else if \<not> effort_ok (ru_effort r) then Some (check_violation ''runs_effort_check'')
      else if ru_ticket_id r = None then Some (check_violation ''runs_one_owner'')
      else if \<not> ticket_fk d (ru_ticket_id r) then Some (foreign_key_violation ''runs_ticket_id_fkey'')
      else None)"

definition insert_run :: "run_row \<Rightarrow> db \<Rightarrow> io_error + int \<times> db" where
  "insert_run r d =
     (let r' = r\<lparr>ru_id := sq_runs (db_seq d) + 1\<rparr>
      in case run_checks r' d of Some e \<Rightarrow> Inl e | None \<Rightarrow> Inr (ru_id r', next_run d r'))"

record run_skeleton_params =
  sk_ticket_id :: string
  sk_kind :: string
  sk_baseline_sha :: string
  sk_prompt_hash :: string
  sk_step :: string
  sk_workflow :: string
  sk_workflow_hash :: string
  sk_new_session :: bool
  sk_session_id :: "string option"
  sk_message :: "string option"
  sk_model :: "string option"
  sk_effort :: "string option"

definition blank_run :: run_row where
  "blank_run = \<lparr>ru_id = 0, ru_ticket_id = None, ru_kind = [], ru_pgid = None, ru_proc_started_at = None,
     ru_baseline_sha = None, ru_prompt_hash = None, ru_log_path = None, ru_outcome = None, ru_exit_code = None,
     ru_ended_at = None, ru_cost_usd = None, ru_session_id = None, ru_message = None, ru_question = None,
     ru_last_message = None, ru_model = None, ru_effort = None, ru_metrics = None, ru_step = [], ru_workflow = [],
     ru_workflow_hash = []\<rparr>"

definition q_insert_run_skeleton :: "run_skeleton_params \<Rightarrow> (int \<times> string) query" where
  "q_insert_run_skeleton p c =
     (let session = (if sk_new_session p then Some (cn_uuid c (cn_clock c)) else sk_session_id p)
      in and_then (stmt (insert_run (blank_run\<lparr>ru_ticket_id := Some (sk_ticket_id p), ru_kind := sk_kind p,
             ru_baseline_sha := Some (sk_baseline_sha p), ru_prompt_hash := Some (sk_prompt_hash p),
             ru_step := sk_step p, ru_workflow := sk_workflow p, ru_workflow_hash := sk_workflow_hash p,
             ru_session_id := session, ru_message := sk_message p, ru_model := sk_model p, ru_effort := sk_effort p\<rparr>)))
           (\<lambda>new. ret (new, case session of None \<Rightarrow> [] | Some s \<Rightarrow> s)) c)"

definition q_insert_cut_failed_run ::
  "string \<Rightarrow> string \<Rightarrow> string \<Rightarrow> string \<Rightarrow> string \<Rightarrow> string \<Rightarrow> time \<Rightarrow> int query" where
  "q_insert_cut_failed_run ticket prompt_hash step workflow workflow_hash outcome at =
     stmt (insert_run (blank_run\<lparr>ru_ticket_id := Some ticket, ru_kind := ''agent'', ru_prompt_hash := Some prompt_hash,
       ru_step := step, ru_workflow := workflow, ru_workflow_hash := workflow_hash, ru_outcome := Some outcome,
       ru_ended_at := Some at\<rparr>))"

definition set_runs :: "(run_row \<Rightarrow> bool) \<Rightarrow> (run_row \<Rightarrow> run_row) \<Rightarrow> db \<Rightarrow> int \<times> db" where
  "set_runs P f d = (count_where P (db_runs d), d\<lparr>db_runs := update_where P f (db_runs d)\<rparr>)"

definition q_record_spawn :: "int \<Rightarrow> int \<Rightarrow> time \<Rightarrow> string \<Rightarrow> int query" where
  "q_record_spawn run pgid started log =
     writes (set_runs (\<lambda>r. ru_id r = run)
       (\<lambda>r. r\<lparr>ru_pgid := Some pgid, ru_proc_started_at := Some started, ru_log_path := Some log\<rparr>))"

definition q_record_disposition ::
  "int \<Rightarrow> string \<Rightarrow> int option \<Rightarrow> time \<Rightarrow> float64 option \<Rightarrow> string option \<Rightarrow> string option \<Rightarrow> int query" where
  "q_record_disposition run outcome code at cost last_message metrics =
     stmt (\<lambda>d. let hit = (\<lambda>r. ru_id r = run \<and> ru_outcome r = None) in
       if (\<exists>r \<in> set (db_runs d). hit r) \<and> outcome \<notin> set (map outcome_text all_outcomes)
       then Inl (check_violation ''runs_outcome_check'')
       else Inr (set_runs hit (\<lambda>r. r\<lparr>ru_outcome := Some outcome, ru_exit_code := code, ru_ended_at := Some at,
              ru_cost_usd := cost, ru_last_message := last_message, ru_metrics := metrics\<rparr>) d))"

definition q_record_question :: "int \<Rightarrow> string \<Rightarrow> int query" where
  "q_record_question run question =
     writes (set_runs (\<lambda>r. ru_id r = run) (\<lambda>r. r\<lparr>ru_question := Some question\<rparr>))"

definition session_kind :: "run_row \<Rightarrow> bool" where
  "session_kind r \<longleftrightarrow> ru_kind r = ''agent'' \<or> ru_kind r = ''follow_up''"

definition q_latest_session_id :: "string \<Rightarrow> string query" where
  "q_latest_session_id ticket = one_row (\<lambda>d.
     case latest_row ru_id (filter (\<lambda>r. ru_ticket_id r = Some ticket \<and> session_kind r \<and> ru_session_id r \<noteq> None) (db_runs d)) of
       None \<Rightarrow> None | Some r \<Rightarrow> ru_session_id r)"

definition q_latest_session_runs :: "string \<Rightarrow> run_row list query" where
  "q_latest_session_runs ticket = reads (\<lambda>d.
     let mine = filter (\<lambda>r. ru_ticket_id r = Some ticket \<and> session_kind r) (db_runs d)
     in case latest_row ru_id mine of
          None \<Rightarrow> []
        | Some latest \<Rightarrow>
            by_id ru_id (filter (\<lambda>r. ru_session_id latest \<noteq> None \<and> ru_session_id r = ru_session_id latest) mine))"

definition q_latest_run_log :: "string \<Rightarrow> (string option \<times> time option) query" where
  "q_latest_run_log ticket = one_row (\<lambda>d.
     map_option (\<lambda>r. (ru_log_path r, ru_ended_at r)) (latest_row ru_id (filter (\<lambda>r. ru_ticket_id r = Some ticket) (db_runs d))))"

definition q_run_details :: "int \<Rightarrow> (string \<times> string \<times> string) query" where
  "q_run_details run = one_row (\<lambda>d.
     map_option (\<lambda>r. (case ru_session_id r of None \<Rightarrow> [] | Some s \<Rightarrow> s, case ru_message r of None \<Rightarrow> [] | Some s \<Rightarrow> s,
                      case ru_outcome r of None \<Rightarrow> [] | Some s \<Rightarrow> s))
       (find (\<lambda>r. ru_id r = run) (db_runs d)))"

definition q_run_baseline :: "int \<Rightarrow> string query" where
  "q_run_baseline run = one_row (\<lambda>d.
     map_option (\<lambda>r. case ru_baseline_sha r of None \<Rightarrow> [] | Some s \<Rightarrow> s) (find (\<lambda>r. ru_id r = run) (db_runs d)))"

definition q_pending_runs_awaiting_disposition :: "run_row list query" where
  "q_pending_runs_awaiting_disposition = reads (\<lambda>d. filter (\<lambda>r. ru_pgid r \<noteq> None \<and> ru_outcome r = None) (db_runs d))"

definition q_list_pass_runs :: "run_row list query" where
  "q_list_pass_runs = reads (\<lambda>d. by_id ru_id (filter (\<lambda>r. ru_ticket_id r \<noteq> None) (db_runs d)))"

definition run_ticket :: "run_row \<Rightarrow> string" where
  "run_ticket r = (case ru_ticket_id r of None \<Rightarrow> [] | Some u \<Rightarrow> u)"

definition q_list_latest_runs_by_ticket :: "run_row list query" where
  "q_list_latest_runs_by_ticket =
     reads (\<lambda>d. distinct_on run_ticket ru_id (filter (\<lambda>r. ru_ticket_id r \<noteq> None) (db_runs d)))"

definition q_run_ids_for_ticket :: "string \<Rightarrow> int list query" where
  "q_run_ids_for_ticket ticket =
     reads (\<lambda>d. map ru_id (by_id ru_id (filter (\<lambda>r. ru_ticket_id r = Some ticket) (db_runs d))))"

text \<open>The latest event of each ticket, with the last message any of its runs left.\<close>

definition q_ticket_activities :: "(string \<times> time \<times> string) list query" where
  "q_ticket_activities = reads (\<lambda>d.
     let tickets = remdups (List.map_filter ev_ticket_id (db_events d))
     in map (\<lambda>t. (t, Max (set (map ev_at (filter (\<lambda>e. ev_ticket_id e = Some t) (db_events d)))),
          case latest_row ru_id (filter (\<lambda>r. ru_ticket_id r = Some t \<and> ru_last_message r \<noteq> None) (db_runs d)) of
            None \<Rightarrow> [] | Some r \<Rightarrow> (case ru_last_message r of None \<Rightarrow> [] | Some m \<Rightarrow> m))) tickets)"

definition q_active_launch_hashes :: "(string \<times> string) list query" where
  "q_active_launch_hashes = reads (\<lambda>d.
     concat (map (\<lambda>m. map (\<lambda>_. (mb_ticket_id m, mb_prompt_hash m))
       (filter (\<lambda>l. lr_id l = mb_launch_id m \<and> lr_state l = ''active'') (db_launches d))) (db_members d)))"

subsection \<open>\<open>runs.sql.go\<close> and \<open>ticket_edit.sql.go\<close>: intents\<close>

definition q_queue_verb_intent :: "time \<Rightarrow> string \<Rightarrow> string \<Rightarrow> payload \<Rightarrow> unit query" where
  "q_queue_verb_intent at ticket verb p = insert_intent at ticket verb p"

definition q_pending_verb_intents :: "string \<Rightarrow> intent_row list query" where
  "q_pending_verb_intents verb = reads (\<lambda>d. by_id iw_id (filter (pending_of verb) (db_intents d)))"

definition q_consume_verb_intent :: "int \<Rightarrow> time \<Rightarrow> int query" where
  "q_consume_verb_intent intent at = writes (\<lambda>d.
     let hit = (\<lambda>i. iw_id i = intent \<and> iw_consumed_at i = None)
     in (count_where hit (db_intents d),
         d\<lparr>db_intents := update_where hit (\<lambda>i. i\<lparr>iw_consumed_at := Some at\<rparr>) (db_intents d)\<rparr>))"

definition q_queue_edit_ticket_intent :: "time \<Rightarrow> string \<Rightarrow> payload \<Rightarrow> unit query" where
  "q_queue_edit_ticket_intent at ticket p = insert_intent at ticket ''edit_ticket'' p"

definition q_pending_edit_ticket_intents :: "intent_row list query" where
  "q_pending_edit_ticket_intents = reads (\<lambda>d. by_id iw_id (filter (pending_of ''edit_ticket'') (db_intents d)))"

subsection \<open>\<open>pushes.sql.go\<close>, \<open>refresh.sql.go\<close>, \<open>removal.sql.go\<close>\<close>

definition q_record_push :: "string \<Rightarrow> string \<Rightarrow> string \<Rightarrow> string \<Rightarrow> time \<Rightarrow> unit query" where
  "q_record_push ticket tip base base_sha at = stmt (\<lambda>d.
     if \<not> has_ticket d ticket then Inl (foreign_key_violation ''pushes_ticket_id_fkey'')
     else
       let new = sq_pushes (db_seq d) + 1
       in Inr ((), d\<lparr>db_pushes := db_pushes d @ [\<lparr>pp_id = new, pp_ticket_id = ticket, pp_pushed_tip = tip,
                       pp_base_branch = base, pp_base_sha_at_push = base_sha, pp_pushed_at = at\<rparr>],
                     db_seq := db_seq d\<lparr>sq_pushes := new\<rparr>\<rparr>))"

text \<open>\<open>MAX(pushed_at) GROUP BY ticket_id\<close>, joined from the left.\<close>

definition last_pushed_at :: "db \<Rightarrow> string option \<Rightarrow> time option" where
  "last_pushed_at d ticket =
     (case map pp_pushed_at (filter (\<lambda>p. Some (pp_ticket_id p) = ticket) (db_pushes d)) of
        [] \<Rightarrow> None | t # ts \<Rightarrow> Some (fold max ts t))"

definition q_list_latest_pushes :: "pushed_row list query" where
  "q_list_latest_pushes = reads (\<lambda>d. distinct_on pp_ticket_id pp_id (db_pushes d))"

definition q_restacked_since_last_push :: "string \<Rightarrow> string option list query" where
  "q_restacked_since_last_push kind = reads (\<lambda>d.
     remdups (map ev_ticket_id (filter (\<lambda>e. ev_kind e = kind
       \<and> (case last_pushed_at d (ev_ticket_id e) of None \<Rightarrow> True | Some t \<Rightarrow> ev_at e \<ge> t)) (db_events d))))"

definition event_ticket :: "event_row \<Rightarrow> string" where
  "event_ticket e = (case ev_ticket_id e of None \<Rightarrow> [] | Some u \<Rightarrow> u)"

definition events_since_push :: "db \<Rightarrow> string list \<Rightarrow> event_row list" where
  "events_since_push d kinds =
     distinct_on event_ticket ev_id (filter (\<lambda>e. ev_ticket_id e \<noteq> None \<and> ev_kind e \<in> set kinds
       \<and> (case last_pushed_at d (ev_ticket_id e) of None \<Rightarrow> True | Some t \<Rightarrow> ev_at e > t)) (db_events d))"

definition q_list_push_facts :: "string list \<Rightarrow> event_row list query" where
  "q_list_push_facts kinds = reads (\<lambda>d. events_since_push d kinds)"

definition q_list_latest_refresh_outcomes :: "string list \<Rightarrow> event_row list query" where
  "q_list_latest_refresh_outcomes kinds = reads (\<lambda>d. events_since_push d kinds)"

definition q_list_latest_removal_refusals :: "string \<Rightarrow> event_row list query" where
  "q_list_latest_removal_refusals kind = reads (\<lambda>d.
     distinct_on event_ticket ev_id (filter (\<lambda>e. ev_ticket_id e \<noteq> None \<and> ev_kind e = kind) (db_events d)))"

subsection \<open>\<open>repos.sql.go\<close> and \<open>projects.sql.go\<close>\<close>

definition repo_checks :: "repo_row \<Rightarrow> io_error option" where
  "repo_checks r =
     (if ro_state r \<notin> set (map repo_phase_text all_repo_phases) then Some (check_violation ''repos_state_check'')
      else if (ro_state r = ''refused'') \<noteq> (ro_refusal r \<noteq> None) then Some (check_violation ''repos_refusal_check'')
      else if (case ro_refusal_kind r of None \<Rightarrow> False | Some k \<Rightarrow> k \<notin> set (map refusal_kind_text all_refusal_kinds))
        then Some (check_violation ''repos_refusal_kind_check'')
      else None)"

definition q_list_repos :: "(repo_row \<times> project_row option) list query" where
  "q_list_repos = reads (\<lambda>d.
     map (\<lambda>r. (r, find (\<lambda>p. Some (pj_id p) = ro_project_id r) (db_projects d))) (by_text ro_name (db_repos d)))"

definition q_upsert_repo :: "repo_row \<Rightarrow> unit query" where
  "q_upsert_repo new = stmt (\<lambda>d.
     case repo_checks new of
       Some e \<Rightarrow> Inl e
     | None \<Rightarrow>
         Inr ((), if ro_name new \<in> set (map ro_name (db_repos d))
           then d\<lparr>db_repos := update_where (\<lambda>r. ro_name r = ro_name new) (\<lambda>r. r\<lparr>ro_remote := ro_remote new,
                    ro_state := ro_state new, ro_refusal_kind := ro_refusal_kind new, ro_refusal := ro_refusal new\<rparr>) (db_repos d)\<rparr>
           else d\<lparr>db_repos := db_repos d @ [new]\<rparr>))"

definition q_set_repo_state ::
  "string \<Rightarrow> string \<Rightarrow> string option \<Rightarrow> string option \<Rightarrow> string option \<Rightarrow> time option \<Rightarrow> int query" where
  "q_set_repo_state name state kind refusal source read_at = stmt (\<lambda>d.
     let hit = (\<lambda>r. ro_name r = name);
         change = (\<lambda>r. r\<lparr>ro_state := state, ro_refusal_kind := kind, ro_refusal := refusal,
                          ro_settings_source := source, ro_settings_read_at := read_at\<rparr>)
     in case List.map_filter (\<lambda>r. repo_checks (change r)) (filter hit (db_repos d)) of
          e # _ \<Rightarrow> Inl e
        | [] \<Rightarrow> Inr (count_where hit (db_repos d), d\<lparr>db_repos := update_where hit change (db_repos d)\<rparr>))"

definition lower_text :: "string \<Rightarrow> string" where
  "lower_text = map lower_byte"

definition name_char :: "char \<Rightarrow> bool" where
  "name_char c = (let n = of_char c :: nat in
     65 \<le> n \<and> n \<le> 90 \<or> 97 \<le> n \<and> n \<le> 122 \<or> 48 \<le> n \<and> n \<le> 57)"

definition project_name_ok :: "string \<Rightarrow> bool" where
  "project_name_ok s =
     (case s of [] \<Rightarrow> False
      | c # cs \<Rightarrow> name_char c \<and> length cs \<le> 39 \<and> (\<forall>x \<in> set cs. name_char x \<or> x \<in> set ''_.-''))"

definition project_checks :: "string \<Rightarrow> int \<Rightarrow> io_error option" where
  "project_checks name hue =
     (if \<not> (1 \<le> hue \<and> hue \<le> 3) then Some (check_violation ''projects_hue_check'')
      else if \<not> project_name_ok name then Some (check_violation ''projects_name_check'') else None)"

definition same_project :: "string \<Rightarrow> project_row \<Rightarrow> bool" where
  "same_project name p \<longleftrightarrow> lower_text (pj_name p) = lower_text name"

definition q_list_projects :: "project_row list query" where
  "q_list_projects = reads (\<lambda>d. by_text (\<lambda>p. lower_text (pj_name p)) (db_projects d))"

definition q_create_project :: "string \<Rightarrow> int \<Rightarrow> time \<Rightarrow> int query" where
  "q_create_project name hue at = stmt (\<lambda>d.
     case project_checks name hue of
       Some e \<Rightarrow> Inl e
     | None \<Rightarrow>
         if \<exists>p \<in> set (db_projects d). same_project name p then Inl (unique_violation ''projects_name_key'')
         else
           let new = sq_projects (db_seq d) + 1
           in Inr (new, d\<lparr>db_projects := db_projects d @ [\<lparr>pj_id = new, pj_name = name, pj_hue = hue, pj_created_at = at\<rparr>],
                          db_seq := db_seq d\<lparr>sq_projects := new\<rparr>\<rparr>))"

definition q_get_project_id :: "string \<Rightarrow> int query" where
  "q_get_project_id name = one_row (\<lambda>d. map_option pj_id (find (same_project name) (db_projects d)))"

definition q_set_repo_project_id :: "string \<Rightarrow> int option \<Rightarrow> int query" where
  "q_set_repo_project_id name project = stmt (\<lambda>d.
     let hit = (\<lambda>r. ro_name r = name)
     in if (\<exists>r \<in> set (db_repos d). hit r)
           \<and> (case project of None \<Rightarrow> False | Some i \<Rightarrow> i \<notin> set (map pj_id (db_projects d)))
        then Inl (foreign_key_violation ''repos_project_id_fkey'')
        else Inr (count_where hit (db_repos d),
                  d\<lparr>db_repos := update_where hit (\<lambda>r. r\<lparr>ro_project_id := project\<rparr>) (db_repos d)\<rparr>))"

definition q_edit_project :: "string \<Rightarrow> string \<Rightarrow> int \<Rightarrow> int query" where
  "q_edit_project old new hue = stmt (\<lambda>d.
     if \<not> (\<exists>p \<in> set (db_projects d). same_project old p) then Inr (0, d)
     else case project_checks new hue of
       Some e \<Rightarrow> Inl e
     | None \<Rightarrow>
         if \<exists>p \<in> set (db_projects d). same_project new p \<and> \<not> same_project old p
         then Inl (unique_violation ''projects_name_key'')
         else Inr (count_where (same_project old) (db_projects d),
                   d\<lparr>db_projects := update_where (same_project old) (\<lambda>p. p\<lparr>pj_name := new, pj_hue := hue\<rparr>) (db_projects d)\<rparr>))"

text \<open>Deleting a project clears it from its repositories (\<open>ON DELETE SET NULL\<close>).\<close>

definition q_delete_project :: "string \<Rightarrow> int query" where
  "q_delete_project name = writes (\<lambda>d.
     let gone = map pj_id (filter (same_project name) (db_projects d))
     in (int (length gone),
         d\<lparr>db_projects := filter (\<lambda>p. \<not> same_project name p) (db_projects d),
           db_repos := update_where (\<lambda>r. case ro_project_id r of None \<Rightarrow> False | Some i \<Rightarrow> i \<in> set gone)
             (\<lambda>r. r\<lparr>ro_project_id := None\<rparr>) (db_repos d)\<rparr>))"

end
