(* ===== verification/Store_Tickets.thy ===== *)
theory Store_Tickets imports Queries begin

text \<open>
  The tickets of the store: \<open>internal/store/{store,feature_closure,ticket_edit,ticket,events}.go\<close>, with the
  events, the \<open>meta\<close> values and the retention of \<open>store.go\<close> and \<open>retention.go\<close>. Importing, editing and
  withdrawing are transactions.

  The time of a synchronisation is in UTC in the code, which does not change the instant.
\<close>

subsection \<open>Meta values\<close>

text \<open>\<open>getMeta\<close>: a key that has no row is not an error.\<close>

definition or_absent :: "string \<Rightarrow> 'a query \<Rightarrow> 'a option query" where
  "or_absent what q c =
     (case q c of
        (Inl e, c') \<Rightarrow> if is_no_rows e then (Inr None, c') else (Inl (Wrapped what e), c')
      | (Inr a, c') \<Rightarrow> (Inr (Some a), c'))"

definition get_meta :: "string \<Rightarrow> (meta_table \<Rightarrow> 'v option) \<Rightarrow> 'v option query" where
  "get_meta name key = or_absent (''read '' @ name) (q_get_meta key)"

definition put_meta :: "string \<Rightarrow> (('v option \<Rightarrow> 'v option) \<Rightarrow> meta_table \<Rightarrow> meta_table) \<Rightarrow> 'v \<Rightarrow> unit query" where
  "put_meta name key_update v = wrapping (''write '' @ name) (q_put_meta key_update v)"

definition last_observation :: "(observation \<times> bool) query" where
  "last_observation =
     and_then (wrapping ''read observation meta'' (get_meta ''observation'' me_observation))
       (\<lambda>v. ret (case v of None \<Rightarrow> (new_observation 0, False) | Some ob \<Rightarrow> (ob, True)))"

text \<open>The questions of an observation are not part of its JSON form.\<close>

definition save_observation :: "observation \<Rightarrow> unit query" where
  "save_observation ob =
     wrapping ''write observation meta'' (put_meta ''observation'' me_observation_update (ob\<lparr>ob_questions := []\<rparr>))"

definition checking_ticks :: "(ticket_url, int) gomap query" where
  "checking_ticks =
     and_then (wrapping ''read checking_ticks meta'' (get_meta ''checking_ticks'' me_checking_ticks))
       (\<lambda>v. ret (case v of None \<Rightarrow> [] | Some m \<Rightarrow> m))"

definition save_checking_ticks :: "(ticket_url, int) gomap \<Rightarrow> unit query" where
  "save_checking_ticks m =
     wrapping ''write checking_ticks meta'' (put_meta ''checking_ticks'' me_checking_ticks_update m)"

definition increment_checking_ticks :: "ticket_url list \<Rightarrow> unit query" where
  "increment_checking_ticks urls =
     and_then (wrapping ''read checking ticks'' checking_ticks)
       (\<lambda>ticks. save_checking_ticks (fold (\<lambda>u m. put u (get_or 0 m u + 1) m) urls ticks))"

definition reset_checking_ticks :: "ticket_url \<Rightarrow> unit query" where
  "reset_checking_ticks url =
     and_then (wrapping ''read checking ticks'' checking_ticks)
       (\<lambda>ticks. if has_key ticks url then save_checking_ticks (del_key url ticks) else ret ())"

definition last_verdicts :: "(string, string) gomap query" where
  "last_verdicts =
     and_then (wrapping ''read last_verdicts meta'' (get_meta ''last_verdicts'' me_last_verdicts))
       (\<lambda>v. ret (case v of None \<Rightarrow> [] | Some m \<Rightarrow> m))"

definition save_last_verdicts :: "(string, string) gomap \<Rightarrow> unit query" where
  "save_last_verdicts m = wrapping ''write last_verdicts meta'' (put_meta ''last_verdicts'' me_last_verdicts_update m)"

subsection \<open>Events\<close>

record event =
  en_id :: int
  en_at :: time
  en_ticket_url :: string
  en_kind :: event_kind
  en_detail :: string

definition null_if_empty :: "string \<Rightarrow> string option" where
  "null_if_empty s = (if s = [] then None else Some s)"

definition append_event :: "time \<Rightarrow> string \<Rightarrow> event_kind \<Rightarrow> string \<Rightarrow> unit query" where
  "append_event at url kind detail =
     wrapping (''append event '' @ event_kind_text kind)
       (q_append_event at (null_if_empty url) (event_kind_text kind) detail)"

definition has_event :: "string \<Rightarrow> event_kind \<Rightarrow> bool query" where
  "has_event url kind =
     wrapping (''has event '' @ event_kind_text kind @ '' for '' @ url)
       (q_has_event (null_if_empty url) (event_kind_text kind))"

definition parse_error_text :: "parse_error \<Rightarrow> string" where
  "parse_error_text e = (case e of
     MissingSlashes s \<Rightarrow> ''branch ref '' @ s
   | UnknownMember what s \<Rightarrow> ''unknown '' @ what @ '' '' @ quoted s)"

definition parsed :: "string \<Rightarrow> parse_error + 'a \<Rightarrow> io_error + 'a" where
  "parsed what r = (case r of Inl e \<Rightarrow> Inl (Wrapped what (Plain (parse_error_text e))) | Inr a \<Rightarrow> Inr a)"

definition max_events :: nat where "max_events = 5000"

definition event_of :: "int \<Rightarrow> event_row \<Rightarrow> event_kind \<Rightarrow> event" where
  "event_of i r k = \<lparr>en_id = i, en_at = ev_at r, en_ticket_url = event_ticket r, en_kind = k, en_detail = ev_detail r\<rparr>"

definition events :: "event list query" where
  "events =
     and_then (wrapping ''select events'' (q_list_events max_events))
       (\<lambda>rows. lift_sum (traverse (\<lambda>r. map_sum id (event_of 0 r)
          (parsed (''read events.kind of '' @ event_ticket r) (parse_event_kind (ev_kind r)))) rows))"

definition ticket_events_after :: "string \<Rightarrow> int \<Rightarrow> nat \<Rightarrow> event list query" where
  "ticket_events_after url after_id limit =
     and_then (wrapping (''select events for '' @ url) (q_list_ticket_events_after (null_if_empty url) after_id limit))
       (\<lambda>rows. lift_sum (traverse (\<lambda>r. map_sum id (event_of (ev_id r) r)
          (parsed (''read events.kind of event '' @ itoa (ev_id r)) (parse_event_kind (ev_kind r)))) rows))"

definition record_tick_error :: "tick_error \<Rightarrow> unit query" where
  "record_tick_error e =
     and_then (wrapping ''write last_error meta'' (put_meta ''last_error'' me_last_error_update e))
       (\<lambda>_. wrapping ''append tick error event'' (append_event (te_at e) [] EventTickError (te_message e)))"

definition last_error :: "tick_error option query" where
  "last_error = wrapping ''read last_error meta'' (get_meta ''last_error'' me_last_error)"

text \<open>The errors that refuse an import, and the ticket each names.\<close>

definition refused_ticket :: "io_error \<Rightarrow> string option" where
  "refused_ticket e = (case e of
     Feature_conflict url _ _ \<Rightarrow> Some url | Feature_closure _ _ _ _ \<Rightarrow> Some [] | _ \<Rightarrow> None)"

definition record_import_refusal :: "string \<Rightarrow> io_error \<Rightarrow> time \<Rightarrow> unit query" where
  "record_import_refusal feature refusal now =
     and_then (wrapping ''write import_error meta'' (put_meta ''import_error'' me_import_error_update
         \<lparr>ie_at = now, ie_feature = feature, ie_message = error_text refusal\<rparr>))
       (\<lambda>_. wrapping ''append import refusal event'' (append_event now
          (case refused_ticket refusal of None \<Rightarrow> [] | Some url \<Rightarrow> url) EventImportRefused (error_text refusal)))"

definition last_import_error :: "import_error option query" where
  "last_import_error = wrapping ''read import_error meta'' (get_meta ''import_error'' me_import_error)"

subsection \<open>Reading and seeding tickets\<close>

definition ticket_of_row :: "ticket_row \<Rightarrow> store_ticket" where
  "ticket_of_row r = \<lparr>ss_url = tk_url r, ss_repo = tk_repo r, ss_branch = tk_branch r, ss_blocked_by = tk_blocked_by r,
     ss_source = tk_source r, ss_title = tk_title r, ss_body = tk_body r, ss_status = tk_status r,
     ss_feature = tk_feature r, ss_synced_at = (case tk_synced_at r of None \<Rightarrow> 0 | Some t \<Rightarrow> t)\<rparr>"

definition tickets :: "store_ticket list query" where
  "tickets = and_then (wrapping ''select tickets'' q_list_tickets) (\<lambda>rows. ret (map ticket_of_row rows))"

text \<open>\<open>lastPerURL\<close>, with the map from a URL to its place in the result.\<close>

definition keep_last :: "ticket_row \<Rightarrow> (string, nat) gomap \<times> ticket_row list \<Rightarrow> (string, nat) gomap \<times> ticket_row list" where
  "keep_last row = (\<lambda>(places, unique).
     case map_of places (tk_url row) of
       Some i \<Rightarrow> (places, unique[i := row])
     | None \<Rightarrow> (put (tk_url row) (length unique) places, unique @ [row]))"

definition last_per_url :: "ticket_row list \<Rightarrow> ticket_row list" where
  "last_per_url rows = snd (fold keep_last rows ([], []))"

definition seed_row :: "store_ticket \<Rightarrow> ticket_row" where
  "seed_row t = \<lparr>tk_url = ss_url t, tk_repo = ss_repo t, tk_branch = ss_branch t, tk_blocked_by = ss_blocked_by t,
     tk_source = ss_source t, tk_title = ss_title t, tk_body = ss_body t, tk_status = ss_status t,
     tk_feature = ss_feature t, tk_synced_at = (if ss_synced_at t = 0 then None else Some (ss_synced_at t)),
     tk_withdrawn_at = None\<rparr>"

definition upsert_tickets :: "store_ticket list \<Rightarrow> unit query" where
  "upsert_tickets ts =
     wrapping (''upsert '' @ itoa (int (length ts)) @ '' tickets'') (q_upsert_tickets (last_per_url (map seed_row ts)))"

subsection \<open>A feature is closed under its blockers\<close>

definition close_under_blocked_by ::
  "string \<Rightarrow> (string \<times> string list) list \<Rightarrow> (string \<Rightarrow> string) \<Rightarrow> (string \<Rightarrow> bool) \<Rightarrow> io_error option" where
  "close_under_blocked_by feature ts feature_of merged =
     map_option (\<lambda>(url, blocker). Feature_closure feature url blocker (feature_of blocker))
       (find (\<lambda>(url, blocker). feature_of blocker \<noteq> feature \<and> \<not> merged blocker)
         (concat (map (\<lambda>(url, blockers). map (Pair url) blockers) ts)))"

definition merged_in :: "observation \<Rightarrow> ticket_row \<Rightarrow> bool" where
  "merged_in ob r \<longleftrightarrow> pr_state (pr_of ob (BranchRef (tk_repo r) (tk_branch r))) = Merged"

definition closure_lookups ::
  "(string \<times> string list) list \<Rightarrow> observation \<Rightarrow> ((string \<Rightarrow> string) \<times> (string \<Rightarrow> bool)) query" where
  "closure_lookups ts ob =
     (let blockers = remdups (concat (map snd ts)) in
      and_then (wrapping ''read blocker features'' (q_list_ticket_features blockers)) (\<lambda>feature_rows.
      and_then (wrapping ''read blocker branches'' (q_list_ticket_branches blockers)) (\<lambda>branch_rows.
      let features = fold (\<lambda>r m. put (tk_url r) (tk_feature r) m) feature_rows [];
          merged = fold (\<lambda>r m. put (tk_url r) (merged_in ob r) m) branch_rows []
      in ret (get_or [] features, get_or False merged))))"

definition feature_tickets_with_override ::
  "string \<Rightarrow> string \<Rightarrow> string list \<Rightarrow> (string \<times> string list) list query" where
  "feature_tickets_with_override feature url blocked_by =
     and_then (wrapping (''list existing tickets for '' @ feature) (q_list_tickets_in_feature feature))
       (\<lambda>rows. ret (map (\<lambda>r. (tk_url r, if tk_url r = url then blocked_by else tk_blocked_by r)) rows))"

subsection \<open>Pruning merged blockers\<close>

definition pruned :: "string list \<Rightarrow> ticket_row \<Rightarrow> (string \<times> string list) option" where
  "pruned gone r =
     (if \<exists>b \<in> set (tk_blocked_by r). b \<in> set gone
      then Some (tk_url r, filter (\<lambda>b. b \<notin> set gone) (tk_blocked_by r)) else None)"

definition repair_blocked_by :: "string list \<Rightarrow> unit query" where
  "repair_blocked_by gone =
     (if gone = [] then ret ()
      else and_then (wrapping ''list tickets for blocker repair'' q_list_tickets_with_blockers)
        (\<lambda>rows. let updates = List.map_filter (pruned gone) rows in
           if updates = [] then ret ()
           else matched_row (''repair blocked_by of '' @ itoa (int (length updates)) @ '' tickets'')
                  (q_set_blocked_bys updates)))"

subsection \<open>Importing a feature\<close>

record imported_ticket =
  im_ticket :: source_ticket
  im_repo :: string
  im_source :: string

definition im_url :: "imported_ticket \<Rightarrow> string" where
  "im_url t = st_url (im_ticket t)"

definition import_row :: "(string \<Rightarrow> int list) \<Rightarrow> string \<Rightarrow> time \<Rightarrow> imported_ticket \<Rightarrow> ticket_row" where
  "import_row lower feature now t =
     (let s = im_ticket t in
      \<lparr>tk_url = st_url s, tk_repo = im_repo t, tk_branch = branch_slug lower (st_number s) (st_title s),
       tk_blocked_by = st_blocked_by s, tk_source = im_source t, tk_title = st_title s, tk_body = st_body s,
       tk_status = st_status s, tk_feature = feature, tk_synced_at = Some now, tk_withdrawn_at = None\<rparr>)"

definition accept_import ::
  "(string \<Rightarrow> int list) \<Rightarrow> string \<Rightarrow> time \<Rightarrow> (string, string) gomap \<Rightarrow> imported_ticket \<Rightarrow> io_error + ticket_row" where
  "accept_import lower feature now existing t =
     (let prior = get_or [] existing (im_url t)
      in if prior \<noteq> [] \<and> prior \<noteq> feature then Inl (Feature_conflict (im_url t) prior feature)
         else Inr (import_row lower feature now t))"

definition withdraw_dropped :: "string list \<Rightarrow> time \<Rightarrow> unit query" where
  "withdraw_dropped dropped now =
     (let what = ''withdraw '' @ itoa (int (length dropped)) @ '' tickets'' in
      and_then (wrapping what (q_withdraw_tickets dropped now))
        (\<lambda>n. if dropped \<noteq> [] \<and> n = 0 then fail_with (Wrapped what err_not_found) else ret ()))"

text \<open>The body of \<open>ImportTickets\<close>: write the rows, check the closure, withdraw what the tracker dropped and
  prune the merged blockers.\<close>

definition write_imported ::
  "(string \<Rightarrow> int list) \<Rightarrow> string \<Rightarrow> imported_ticket list \<Rightarrow> time \<Rightarrow> unit query" where
  "write_imported lower feature ts now =
     and_then (wrapping ''read features of imported tickets'' (q_list_active_ticket_features (map im_url ts))) (\<lambda>existing_rows.
     let existing = fold (\<lambda>r m. put (tk_url r) (tk_feature r) m) existing_rows [] in
     and_then (lift_sum (traverse (accept_import lower feature now existing) ts)) (\<lambda>rows.
     wrapping (''import '' @ itoa (int (length rows)) @ '' tickets'') (q_import_tickets (last_per_url rows))))"

definition check_imported ::
  "string \<Rightarrow> string list \<Rightarrow> (ticket_row list \<times> observation) query" where
  "check_imported feature returned =
     and_then (wrapping (''list existing tickets for '' @ feature) (q_list_tickets_in_feature feature)) (\<lambda>previous.
     and_then (wrapping ''read observation for blocker repair'' last_observation) (\<lambda>(ob, _).
     let intended = map (\<lambda>r. (tk_url r, tk_blocked_by r)) (filter (\<lambda>r. tk_url r \<in> set returned) previous) in
     and_then (closure_lookups intended ob) (\<lambda>(feature_of, merged).
     case close_under_blocked_by feature intended feature_of merged of
       Some violation \<Rightarrow> fail_with violation
     | None \<Rightarrow> ret (previous, ob))))"

definition prune_imported :: "string list \<Rightarrow> ticket_row list \<Rightarrow> observation \<Rightarrow> time \<Rightarrow> unit query" where
  "prune_imported returned previous ob now =
     and_then (withdraw_dropped (map tk_url (filter (\<lambda>r. tk_url r \<notin> set returned) previous)) now) (\<lambda>_.
     and_then (wrapping ''list withdrawn tickets for blocker repair'' q_list_withdrawn_tickets) (\<lambda>withdrawn_rows.
     repair_blocked_by (map tk_url (filter (merged_in ob) withdrawn_rows))))"

definition import_body ::
  "(string \<Rightarrow> int list) \<Rightarrow> string \<Rightarrow> imported_ticket list \<Rightarrow> time \<Rightarrow> unit query" where
  "import_body lower feature ts now =
     and_then (write_imported lower feature ts now) (\<lambda>_.
     and_then (check_imported feature (map im_url ts)) (\<lambda>(previous, ob).
     prune_imported (map im_url ts) previous ob now))"

definition import_tickets ::
  "(string \<Rightarrow> int list) \<Rightarrow> string \<Rightarrow> imported_ticket list \<Rightarrow> time \<Rightarrow> unit query" where
  "import_tickets lower feature ts now = in_tx (import_body lower feature ts now)"

subsection \<open>Withdrawing and editing\<close>

definition withdraw_ticket :: "string \<Rightarrow> time \<Rightarrow> bool \<Rightarrow> run_id list query" where
  "withdraw_ticket url now merged =
     in_tx (and_then (matched_row (''withdraw ticket '' @ url) (q_withdraw_ticket url now)) (\<lambda>_.
       and_then (wrapping (''select run ids for '' @ url) (q_run_ids_for_ticket url)) (\<lambda>runs.
       and_then (if merged then repair_blocked_by [url] else ret ()) (\<lambda>_. ret runs))))"

definition check_edit :: "string \<Rightarrow> string \<Rightarrow> string list \<Rightarrow> unit query" where
  "check_edit feature url blocked_by =
     (if feature = [] then ret ()
      else and_then (feature_tickets_with_override feature url blocked_by) (\<lambda>intended.
        and_then (wrapping ''read observation for closure check'' last_observation) (\<lambda>(ob, _).
        and_then (closure_lookups intended ob) (\<lambda>(feature_of, merged).
        case close_under_blocked_by feature intended feature_of merged of
          Some violation \<Rightarrow> fail_with violation | None \<Rightarrow> ret ()))))"

definition edit_ticket :: "string \<Rightarrow> string \<Rightarrow> string list \<Rightarrow> unit query" where
  "edit_ticket url branch blocked_by =
     in_tx (and_then (or_absent (''read feature for '' @ url) (q_get_ticket_feature url)) (\<lambda>found.
       and_then (check_edit (case found of None \<Rightarrow> [] | Some f \<Rightarrow> f) url blocked_by) (\<lambda>_.
       matched_row (''edit ticket '' @ url) (q_edit_ticket url branch blocked_by))))"

record edit_ticket_intent =
  ei_id :: int
  ei_ticket_id :: string
  ei_branch :: string
  ei_blocked_by :: "string list"

definition queue_edit_ticket_intent :: "string \<Rightarrow> string \<Rightarrow> string list \<Rightarrow> time \<Rightarrow> unit query" where
  "queue_edit_ticket_intent url branch blocked_by at =
     wrapping (''queue edit ticket intent for '' @ url)
       (q_queue_edit_ticket_intent at url (Edit_payload \<lparr>ep_branch = branch, ep_blocked_by = blocked_by\<rparr>))"

definition edit_intent_of :: "intent_row \<Rightarrow> io_error + edit_ticket_intent" where
  "edit_intent_of r = (case iw_payload r of
     Edit_payload p \<Rightarrow> Inr \<lparr>ei_id = iw_id r, ei_ticket_id = iw_ticket_id r, ei_branch = ep_branch p, ei_blocked_by = ep_blocked_by p\<rparr>
   | _ \<Rightarrow> Inl (Wrapped (''decode edit ticket intent payload for '' @ iw_ticket_id r) (Plain ''json'')))"

definition pending_edit_ticket_intents :: "edit_ticket_intent list query" where
  "pending_edit_ticket_intents =
     and_then (wrapping ''select edit ticket intents'' q_pending_edit_ticket_intents)
       (\<lambda>rows. lift_sum (traverse edit_intent_of rows))"

subsection \<open>\<open>retention.go\<close>\<close>

definition day :: duration where "day = 24 * 3600 * second"
definition consumed_intent_retention :: duration where "consumed_intent_retention = 30 * day"
definition tick_error_retention :: duration where "tick_error_retention = 30 * day"
definition reading_retention :: duration where "reading_retention = 90 * day"
definition interval_retention :: duration where "interval_retention = 14 * day"
definition prune_batch :: nat where "prune_batch = 1000"

definition prune_history :: "time \<Rightarrow> unit query" where
  "prune_history now =
     and_then (wrapping ''prune consumed intents'' (q_prune_consumed_intents (now - consumed_intent_retention) prune_batch)) (\<lambda>_.
     and_then (wrapping ''prune tick errors'' (q_prune_tick_errors (now - tick_error_retention) prune_batch)) (\<lambda>_.
     and_then (wrapping ''prune readings'' (q_prune_readings (now - reading_retention) prune_batch)) (\<lambda>_.
     and_then (wrapping ''prune intervals'' (q_prune_intervals (now - interval_retention) prune_batch)) (\<lambda>_. ret ()))))"

end
