(* ===== verification/Store_Runs.thy ===== *)
theory Store_Runs imports Store_Tickets begin

text \<open>
  The rest of the store: launches, runs, intents, pushes, refreshes, repositories, projects and the facts
  a derivation reads: \<open>internal/store/{launch,runs,pushes,refresh,removal,repos,projects,params,planinput,
  activity,utilization}.go\<close>.

  The text of a launch payload, which only \<open>PendingVerbIntents\<close> hands on as JSON text, is the parameter
  \<open>json\<close>; the percentage of a utilisation is the parameter \<open>pct\<close>.
\<close>

subsection \<open>\<open>launch.go\<close>\<close>

definition choice_columns :: "agent_choice \<Rightarrow> string option \<times> string option" where
  "choice_columns c = (null_if_empty (choice_model c), map_option effort_text (choice_effort c))"

definition choice_from :: "string option \<Rightarrow> string option \<Rightarrow> agent_choice" where
  "choice_from model effort =
     \<lparr>choice_model = (case model of None \<Rightarrow> [] | Some m \<Rightarrow> m),
      choice_effort = (case effort of None \<Rightarrow> None | Some s \<Rightarrow> find (\<lambda>e. effort_text e = s) all_efforts)\<rparr>"

definition queue_launch_intent :: "string \<Rightarrow> launch_payload \<Rightarrow> time \<Rightarrow> unit query" where
  "queue_launch_intent ticket p at =
     wrapping (''queue launch intent for '' @ ticket) (q_queue_launch_intent at ticket (Launch_payload p))"

record pending_intent =
  pi_ticket_id :: string
  pi_prompt_hash :: string
  pi_context :: string
  pi_choice :: agent_choice
  pi_workflow :: string

definition pending_intent_of :: "intent_row \<Rightarrow> io_error + string \<times> pending_intent" where
  "pending_intent_of r = (case iw_payload r of
     Launch_payload p \<Rightarrow> Inr (la_group p, \<lparr>pi_ticket_id = iw_ticket_id r, pi_prompt_hash = la_prompt_hash p,
       pi_context = la_context p, pi_choice = la_choice p, pi_workflow = la_workflow p\<rparr>)
   | _ \<Rightarrow> Inl (Wrapped (''decode launch intent payload for '' @ iw_ticket_id r) (Plain ''json'')))"

text \<open>The loop that files an intent under its group; \<open>order\<close> has the groups as they appear.\<close>

definition file_intent ::
  "string \<times> pending_intent \<Rightarrow> (string, pending_intent list) gomap \<times> string list
     \<Rightarrow> (string, pending_intent list) gomap \<times> string list" where
  "file_intent = (\<lambda>(group, p) (groups, order).
     (put group (get_or [] groups group @ [p]) groups, if has_key groups group then order else order @ [group]))"

definition claim_launch_intents :: "time \<Rightarrow> ((string, pending_intent list) gomap \<times> string list) query" where
  "claim_launch_intents at =
     and_then (wrapping ''claim launch intents'' (q_claim_launch_intents at)) (\<lambda>rows.
     and_then (lift_sum (traverse pending_intent_of (by_id iw_id rows))) (\<lambda>filed.
     ret (fold file_intent filed ([], []))))"

definition insert_launch :: "time \<Rightarrow> pending_intent list \<Rightarrow> unit query" where
  "insert_launch at members =
     (let lead = hd members; (model, effort) = choice_columns (pi_choice lead) in
      and_then (wrapping ''insert launch'' (q_insert_launch at (pi_context lead) model effort (pi_workflow lead))) (\<lambda>launch.
      and_then (wrapping (''insert '' @ itoa (int (length members)) @ '' launch members'')
          (q_insert_launch_members launch (map (\<lambda>m. (pi_ticket_id m, pi_prompt_hash m)) members))) (\<lambda>_.
      wrapping ''append launch event'' (q_insert_launch_event at
        (''launch '' @ itoa launch @ '' authorised with '' @ itoa (int (length members)) @ '' member(s)'')))))"

definition apply_launch_intents :: "time \<Rightarrow> unit query" where
  "apply_launch_intents now =
     in_tx (and_then (claim_launch_intents now) (\<lambda>(groups, order).
       each_io (\<lambda>group. wrapping (''apply launch group '' @ group) (insert_launch now (get_or [] groups group))) order))"

definition max_launch_memberships :: nat where "max_launch_memberships = 5000"

definition add_membership ::
  "membership_row \<Rightarrow> (ticket_url, launch_membership) gomap \<times> ticket_url list
     \<Rightarrow> (ticket_url, launch_membership) gomap \<times> ticket_url list" where
  "add_membership = (\<lambda>(m, l, members) (memberships, cancelled).
     if lr_state l = ''cancelled'' then (memberships, cancelled @ [mb_ticket_id m])
     else (put (mb_ticket_id m) \<lparr>lm_launch_id = lr_id l, lm_members = members, lm_cancelled = False,
             lm_prompt_hash = mb_prompt_hash m, lm_context = lr_context l,
             lm_choice = choice_from (lr_model l) (lr_effort l), lm_workflow = lr_workflow l\<rparr> memberships, cancelled))"

definition launch_memberships :: "(ticket_url, launch_membership) gomap query" where
  "launch_memberships =
     and_then (wrapping ''select launch memberships'' (q_list_launch_memberships max_launch_memberships))
       (\<lambda>rows. let (memberships, cancelled) = fold add_membership rows ([], [])
          in ret (fold (\<lambda>u m. if has_key m u then m else put u (no_membership\<lparr>lm_cancelled := True\<rparr>) m)
               cancelled memberships))"

definition cancel_launches_for :: "string \<Rightarrow> int query" where
  "cancel_launches_for ticket =
     in_tx (and_then (wrapping (''count members of active launches for '' @ ticket) (q_active_launch_member_count ticket)) (\<lambda>count.
       and_then (wrapping (''cancel launches for '' @ ticket) (q_cancel_active_launches ticket)) (\<lambda>_. ret count)))"

text \<open>A query of one row whose absence is the store's \<open>ErrNotFound\<close>.\<close>

definition or_not_found :: "string \<Rightarrow> string \<Rightarrow> 'a query \<Rightarrow> 'a query" where
  "or_not_found missing what q c =
     (case q c of
        (Inl e, c') \<Rightarrow> (Inl (if is_no_rows e then Wrapped missing err_not_found else Wrapped what e), c')
      | r \<Rightarrow> r)"

definition feature_first_launch :: "string \<Rightarrow> time query" where
  "feature_first_launch feature =
     or_not_found (''launch of feature '' @ quoted feature) (''select first launch of feature '' @ quoted feature)
       (q_feature_first_launch feature)"

definition active_launch_hashes :: "(string, string) gomap query" where
  "active_launch_hashes =
     and_then (wrapping ''select active launch hashes'' q_active_launch_hashes)
       (\<lambda>rows. ret (fold (\<lambda>(t, h) m. put t h m) rows []))"

subsection \<open>\<open>runs.go\<close>\<close>

record run_session =
  rj_start_new :: bool
  rj_join_id :: string
  rj_message :: string

record run_skeleton =
  rl_ticket :: string
  rl_kind :: run_kind
  rl_baseline_sha :: string
  rl_prompt_hash :: string
  rl_choice :: agent_choice
  rl_session :: run_session
  rl_step :: step_name
  rl_workflow :: string
  rl_workflow_hash :: string

definition insert_session_run_skeleton :: "run_skeleton \<Rightarrow> (int \<times> string) query" where
  "insert_session_run_skeleton r =
     (let (model, effort) = choice_columns (rl_choice r) in
      wrapping (''insert run skeleton for '' @ rl_ticket r) (q_insert_run_skeleton
        \<lparr>sk_ticket_id = rl_ticket r, sk_kind = run_kind_text (rl_kind r), sk_baseline_sha = rl_baseline_sha r,
         sk_prompt_hash = rl_prompt_hash r, sk_step = rl_step r, sk_workflow = rl_workflow r,
         sk_workflow_hash = rl_workflow_hash r, sk_new_session = rj_start_new (rl_session r),
         sk_session_id = null_if_empty (rj_join_id (rl_session r)),
         sk_message = null_if_empty (rj_message (rl_session r)), sk_model = model, sk_effort = effort\<rparr>))"

definition insert_run_skeleton :: "run_skeleton \<Rightarrow> int query" where
  "insert_run_skeleton r =
     and_then (wrapping (''insert run skeleton for '' @ rl_ticket r) (insert_session_run_skeleton r)) (\<lambda>(i, _). ret i)"

definition insert_cut_failed_run :: "run_skeleton \<Rightarrow> time \<Rightarrow> int query" where
  "insert_cut_failed_run r at =
     wrapping (''insert cut-failed run for '' @ rl_ticket r)
       (q_insert_cut_failed_run (rl_ticket r) (rl_prompt_hash r) (rl_step r) (rl_workflow r) (rl_workflow_hash r)
         (outcome_text OutcomeCutFailed) at)"

record run_details =
  rt_session_id :: string
  rt_message :: string
  rt_outcome :: "outcome option"

definition run_details :: "run_id \<Rightarrow> run_details query" where
  "run_details run =
     and_then (or_not_found (''run '' @ itoa run) (''read run '' @ itoa run) (q_run_details run))
       (\<lambda>(session, message, outcome).
          if outcome = [] then ret \<lparr>rt_session_id = session, rt_message = message, rt_outcome = None\<rparr>
          else and_then (lift_sum (parsed (''read outcome of run '' @ itoa run) (parse_outcome outcome)))
            (\<lambda>o'. ret \<lparr>rt_session_id = session, rt_message = message, rt_outcome = Some o'\<rparr>))"

definition latest_session_id :: "string \<Rightarrow> string query" where
  "latest_session_id ticket =
     or_not_found (''session of '' @ ticket) (''select latest session of '' @ ticket) (q_latest_session_id ticket)"

definition record_spawn :: "run_id \<Rightarrow> int \<Rightarrow> time \<Rightarrow> string \<Rightarrow> unit query" where
  "record_spawn run pgid started log =
     matched_row (''record spawn for run '' @ itoa run) (q_record_spawn run pgid started log)"

record disposition_record =
  dp_run_id :: run_id
  dp_outcome :: outcome
  dp_exit_code :: "int option"
  dp_cost :: "float64 option"
  dp_last_message :: "string option"
  dp_metrics :: "string option"
  dp_ended_at :: time

definition record_disposition :: "disposition_record \<Rightarrow> unit query" where
  "record_disposition p =
     matched_row (''record disposition for run '' @ itoa (dp_run_id p))
       (q_record_disposition (dp_run_id p) (outcome_text (dp_outcome p)) (dp_exit_code p) (dp_ended_at p) (dp_cost p)
         (dp_last_message p) (dp_metrics p))"

definition record_question :: "run_id \<Rightarrow> string \<Rightarrow> unit query" where
  "record_question run question =
     matched_row (''record question for run '' @ itoa run) (q_record_question run question)"

definition outcome_column :: "run_row \<Rightarrow> io_error + outcome option" where
  "outcome_column r = (case ru_outcome r of
     None \<Rightarrow> Inr None
   | Some s \<Rightarrow> map_sum id Some (parsed (''read outcome of run '' @ itoa (ru_id r)) (parse_outcome s)))"

definition or_empty :: "string option \<Rightarrow> string" where
  "or_empty s = (case s of None \<Rightarrow> [] | Some x \<Rightarrow> x)"

definition or_zero :: "int option \<Rightarrow> int" where
  "or_zero n = (case n of None \<Rightarrow> 0 | Some x \<Rightarrow> x)"

definition pass_run_of :: "run_row \<Rightarrow> io_error + ticket_url \<times> step_run" where
  "pass_run_of r = map_sum id (\<lambda>o'. (or_empty (ru_ticket_id r),
     \<lparr>sr_id = ru_id r, sr_step = ru_step r, sr_command = False, sr_alive = (ru_outcome r = None),
      sr_outcome = o', sr_handoff = None\<rparr>)) (outcome_column r)"

definition pass_runs :: "(ticket_url, step_run list) gomap query" where
  "pass_runs =
     and_then (wrapping ''select pass runs'' q_list_pass_runs) (\<lambda>rows.
     and_then (lift_sum (traverse pass_run_of rows)) (\<lambda>runs.
     ret (fold (\<lambda>(u, r) m. put u (get_or [] m u @ [r]) m) runs [])))"

definition run_baseline :: "run_id \<Rightarrow> string query" where
  "run_baseline run = wrapping (''select baseline of run '' @ itoa run) (q_run_baseline run)"

record pending_run =
  pn_id :: run_id
  pn_ticket_id :: string
  pn_kind :: run_kind
  pn_pgid :: int
  pn_proc_started_at :: time
  pn_baseline_sha :: string
  pn_log_path :: string
  pn_step :: step_name
  pn_workflow_hash :: string

definition kind_column :: "run_row \<Rightarrow> io_error + run_kind" where
  "kind_column r = parsed (''read runs.kind of run '' @ itoa (ru_id r)) (parse_run_kind (ru_kind r))"

definition pending_run_of :: "run_row \<Rightarrow> io_error + pending_run" where
  "pending_run_of r = map_sum id (\<lambda>k. \<lparr>pn_id = ru_id r, pn_ticket_id = or_empty (ru_ticket_id r), pn_kind = k,
     pn_pgid = or_zero (ru_pgid r), pn_proc_started_at = or_zero (ru_proc_started_at r),
     pn_baseline_sha = or_empty (ru_baseline_sha r), pn_log_path = or_empty (ru_log_path r), pn_step = ru_step r,
     pn_workflow_hash = ru_workflow_hash r\<rparr>) (kind_column r)"

definition pending_runs_awaiting_disposition :: "pending_run list query" where
  "pending_runs_awaiting_disposition =
     and_then (wrapping ''select pending runs'' q_pending_runs_awaiting_disposition)
       (\<lambda>rows. lift_sum (traverse pending_run_of rows))"

definition run_summary_of :: "run_row \<Rightarrow> io_error + ticket_url \<times> run_summary" where
  "run_summary_of r = (case kind_column r of
     Inl e \<Rightarrow> Inl e
   | Inr k \<Rightarrow> map_sum id (\<lambda>o'. (or_empty (ru_ticket_id r),
       \<lparr>rn_id = ru_id r, rn_pgid = ru_pgid r, rn_proc_started_at = ru_proc_started_at r, rn_outcome = o',
        rn_exit_code = ru_exit_code r, rn_ended_at = ru_ended_at r, rn_log_path = or_empty (ru_log_path r),
        rn_baseline_sha = or_empty (ru_baseline_sha r), rn_prompt_hash = or_empty (ru_prompt_hash r), rn_kind = k,
        rn_question = or_empty (ru_question r), rn_step = ru_step r, rn_workflow_hash = ru_workflow_hash r\<rparr>)) (outcome_column r))"

definition latest_runs_by_ticket :: "(ticket_url, run_summary) gomap query" where
  "latest_runs_by_ticket =
     and_then (wrapping ''select latest runs'' q_list_latest_runs_by_ticket) (\<lambda>rows.
     and_then (lift_sum (traverse run_summary_of rows)) (\<lambda>runs. ret (fold (\<lambda>(u, r) m. put u r m) runs [])))"

definition run_ids_for_ticket :: "string \<Rightarrow> run_id list query" where
  "run_ids_for_ticket ticket = wrapping (''select run ids for '' @ ticket) (q_run_ids_for_ticket ticket)"

record session_run =
  sn_run_id :: run_id
  sn_log_path :: string
  sn_message :: string
  sn_question :: string
  sn_step :: step_name
  sn_model :: string
  sn_outcome :: string
  sn_cost :: "float64 option"
  sn_metrics :: "string option"

definition session_run_of :: "run_row \<Rightarrow> session_run" where
  "session_run_of r = \<lparr>sn_run_id = ru_id r, sn_log_path = or_empty (ru_log_path r), sn_message = or_empty (ru_message r),
     sn_question = or_empty (ru_question r), sn_step = ru_step r, sn_model = or_empty (ru_model r),
     sn_outcome = or_empty (ru_outcome r), sn_cost = ru_cost_usd r, sn_metrics = ru_metrics r\<rparr>"

definition session_runs_for_ticket :: "string \<Rightarrow> session_run list query" where
  "session_runs_for_ticket ticket =
     and_then (wrapping (''select session runs for '' @ ticket) (q_latest_session_runs ticket))
       (\<lambda>rows. ret (map session_run_of rows))"

definition latest_run_log :: "string \<Rightarrow> (string \<times> bool) query" where
  "latest_run_log url =
     and_then (or_not_found (''run of '' @ url) (''select latest run log for '' @ url) (q_latest_run_log url))
       (\<lambda>(path, at). ret (or_empty path, at \<noteq> None))"

definition activities :: "(string \<times> time \<times> string) list query" where
  "activities = wrapping ''select ticket activities'' q_ticket_activities"

subsection \<open>Intents\<close>

record verb_intent =
  vi_id :: int
  vi_ticket_id :: string
  vi_payload :: string

definition queue_verb_intent :: "string \<Rightarrow> verb \<Rightarrow> string \<Rightarrow> time \<Rightarrow> unit query" where
  "queue_verb_intent ticket v p at =
     wrapping (''queue '' @ verb_text v @ '' intent for '' @ ticket)
       (q_queue_verb_intent at ticket (verb_text v) (if p = [] then No_payload else Text_payload p))"

definition verb_intent_of :: "(payload \<Rightarrow> string) \<Rightarrow> verb \<Rightarrow> intent_row \<Rightarrow> io_error + verb_intent" where
  "verb_intent_of json v r =
     map_sum id (\<lambda>p. \<lparr>vi_id = iw_id r, vi_ticket_id = iw_ticket_id r, vi_payload = p\<rparr>)
       (if v = VerbLaunch then Inr (json (iw_payload r))
        else (case iw_payload r of
                No_payload \<Rightarrow> Inr []
              | Text_payload s \<Rightarrow> Inr s
              | _ \<Rightarrow> Inl (Wrapped (''decode '' @ verb_text v @ '' intent payload for '' @ iw_ticket_id r) (Plain ''json''))))"

definition pending_verb_intents :: "(payload \<Rightarrow> string) \<Rightarrow> verb \<Rightarrow> verb_intent list query" where
  "pending_verb_intents json v =
     and_then (wrapping (''select '' @ verb_text v @ '' intents'') (q_pending_verb_intents (verb_text v)))
       (\<lambda>rows. lift_sum (traverse (verb_intent_of json v) rows))"

definition add_pending :: "verb \<Rightarrow> verb_intent \<Rightarrow> (ticket_url, intent list) gomap \<Rightarrow> (ticket_url, intent list) gomap" where
  "add_pending v p m =
     put (vi_ticket_id p) (get_or [] m (vi_ticket_id p)
       @ [\<lparr>it_id = vi_id p, it_ticket = vi_ticket_id p, it_verb = v, it_payload = vi_payload p\<rparr>]) m"

fun pending_by_ticket ::
  "(payload \<Rightarrow> string) \<Rightarrow> verb list \<Rightarrow> (ticket_url, intent list) gomap \<Rightarrow> (ticket_url, intent list) gomap query" where
  "pending_by_ticket json [] m = ret m"
| "pending_by_ticket json (v # vs) m =
     and_then (pending_verb_intents json v) (\<lambda>ps. pending_by_ticket json vs (fold (add_pending v) ps m))"

definition pending_intents :: "(payload \<Rightarrow> string) \<Rightarrow> (ticket_url, intent list) gomap query" where
  "pending_intents json =
     and_then (pending_by_ticket json all_verbs [])
       (\<lambda>m. ret (map (\<lambda>(u, is). (u, sort_func (\<lambda>a b. int_compare (it_id a) (it_id b)) is)) m))"

definition consume_verb_intent :: "int \<Rightarrow> time \<Rightarrow> unit query" where
  "consume_verb_intent i at = matched_row (''consume intent '' @ itoa i) (q_consume_verb_intent i at)"

subsection \<open>\<open>pushes.go\<close>, \<open>refresh.go\<close>, \<open>removal.go\<close>\<close>

record push_record =
  pq_ticket :: ticket_url
  pq_tip :: sha
  pq_base_sha :: sha
  pq_base_branch :: string
  pq_at :: time

definition record_push :: "push_record \<Rightarrow> unit query" where
  "record_push p =
     and_then (wrapping (''record push for '' @ pq_ticket p)
         (q_record_push (pq_ticket p) (pq_tip p) (pq_base_branch p) (pq_base_sha p) (pq_at p)))
       (\<lambda>_. wrapping (''reset checking ticks for '' @ pq_ticket p) (reset_checking_ticks (pq_ticket p)))"

definition restacked_since_last_push :: "(ticket_url, bool) gomap query" where
  "restacked_since_last_push =
     and_then (wrapping ''select restacked tickets'' (q_restacked_since_last_push (event_kind_text EventRestacked)))
       (\<lambda>rows. ret (fold (\<lambda>u m. case u of None \<Rightarrow> m | Some url \<Rightarrow> put url True m) rows []))"

definition push_row_of :: "pushed_row \<Rightarrow> push_row" where
  "push_row_of r = \<lparr>pw_pushed_tip = pp_pushed_tip r, pw_base_branch = pp_base_branch r,
     pw_base_sha_at_push = pp_base_sha_at_push r, pw_pushed_at = pp_pushed_at r\<rparr>"

definition latest_pushes :: "(ticket_url, push_row) gomap query" where
  "latest_pushes =
     and_then (wrapping ''select latest pushes'' q_list_latest_pushes)
       (\<lambda>rows. ret (fold (\<lambda>r m. put (pp_ticket_id r) (push_row_of r) m) rows []))"

definition last_pushed_tips :: "(ticket_url, sha) gomap query" where
  "last_pushed_tips =
     and_then latest_pushes (\<lambda>ps. ret (fold (\<lambda>(u, p) m. put u (pw_pushed_tip p) m) ps []))"

definition event_kind_column :: "event_row \<Rightarrow> io_error + string \<times> event_kind \<times> string" where
  "event_kind_column r = map_sum id (\<lambda>k. (event_ticket r, k, ev_detail r))
     (parsed (''read events.kind for '' @ event_ticket r) (parse_event_kind (ev_kind r)))"

definition add_push_fact ::
  "string \<times> event_kind \<times> string \<Rightarrow> (ticket_url, push_fact) gomap \<Rightarrow> (ticket_url, push_fact) gomap" where
  "add_push_fact = (\<lambda>(u, k, detail) m. case k of
     EventPushRefused \<Rightarrow> put u \<lparr>pf_refused = True, pf_refused_path = detail, pf_failed = False\<rparr> m
   | EventPushFailed \<Rightarrow> put u \<lparr>pf_refused = False, pf_refused_path = [], pf_failed = True\<rparr> m
   | _ \<Rightarrow> m)"

definition push_facts :: "(ticket_url, push_fact) gomap query" where
  "push_facts =
     and_then (wrapping ''select push facts'' (q_list_push_facts (map event_kind_text [EventPushRefused, EventPushFailed]))) (\<lambda>rows.
     and_then (lift_sum (traverse event_kind_column (filter (\<lambda>r. ev_ticket_id r \<noteq> None) rows))) (\<lambda>facts.
     ret (fold add_push_fact facts [])))"

definition latest_refresh_outcomes :: "(ticket_url, event_kind \<times> string) gomap query" where
  "latest_refresh_outcomes =
     and_then (wrapping ''select refresh outcomes'' (q_list_latest_refresh_outcomes (map event_kind_text
         [EventRefreshRefused, EventRefreshConflicted, EventVerificationFailed, EventRefreshed, EventRestacked]))) (\<lambda>rows.
     and_then (lift_sum (traverse event_kind_column (filter (\<lambda>r. ev_ticket_id r \<noteq> None) rows))) (\<lambda>outs.
     ret (fold (\<lambda>(u, k, detail) m. put u (k, detail) m) outs [])))"

text \<open>\<open>strings.SplitN(detail, " ", 3)\<close>, and the two tips in front of a conflict's text.\<close>

definition parse_conflict_detail :: "string \<Rightarrow> conflict_at option" where
  "parse_conflict_detail detail =
     (case str_cut '' '' detail of
        None \<Rightarrow> None
      | Some (branch, rest) \<Rightarrow>
          (case str_cut '' '' rest of
             None \<Rightarrow> None
           | Some (base, _) \<Rightarrow> Some \<lparr>ca_branch_tip = branch, ca_base_tip = base\<rparr>))"

definition refresh_fact_of :: "event_kind \<times> string \<Rightarrow> refresh_fact" where
  "refresh_fact_of = (\<lambda>(k, detail).
     \<lparr>rr_tried = True,
      rr_refused = (k = EventRefreshRefused), rr_reason = (if k = EventRefreshRefused then detail else []),
      rr_verification_failed = (k = EventVerificationFailed),
      rr_verification_failed_detail = (if k = EventVerificationFailed then detail else []),
      rr_conflict = (if k = EventRefreshConflicted then parse_conflict_detail detail else None)\<rparr>)"

definition refresh_facts :: "(ticket_url, refresh_fact) gomap query" where
  "refresh_facts =
     and_then (wrapping ''read latest refresh outcomes'' latest_refresh_outcomes)
       (\<lambda>outs. ret (map (\<lambda>(u, r). (u, refresh_fact_of r)) outs))"

definition removal_refusals :: "(ticket_url, string) gomap query" where
  "removal_refusals =
     and_then (wrapping ''select removal refusals'' (q_list_latest_removal_refusals (event_kind_text EventRemoveWorktreeRefused)))
       (\<lambda>rows. ret (fold (\<lambda>r m. put (event_ticket r) (ev_detail r) m) (filter (\<lambda>r. ev_ticket_id r \<noteq> None) rows) []))"

end
