(* ===== verification/Store_Input.thy ===== *)
theory Store_Input imports Store_Runs begin

text \<open>
  Repositories and projects (\<open>internal/store/{repos,projects}.go\<close>) and the input of a derivation
  (\<open>planinput.go\<close>, \<open>utilization.go\<close>).

  \<open>strings.EqualFold\<close> and the server's \<open>lower\<close> fold ASCII letters: repository and project names are ASCII.
\<close>

subsection \<open>\<open>repos.go\<close>\<close>

definition repo_of_row :: "repo_row \<times> project_row option \<Rightarrow> io_error + store_repo" where
  "repo_of_row = (\<lambda>(r, p).
     case parsed (''read repos.state of '' @ ro_name r) (parse_repo_phase (ro_state r)) of
       Inl e \<Rightarrow> Inl e
     | Inr phase \<Rightarrow>
         map_sum id (\<lambda>kind. \<lparr>so_name = ro_name r, so_remote = ro_remote r, so_phase = phase, so_refusal_kind = kind,
             so_refusal = or_empty (ro_refusal r), so_settings_source = or_empty (ro_settings_source r),
             so_settings_read_at = or_zero (ro_settings_read_at r), so_tracked_at = ro_tracked_at r,
             so_project = (case p of None \<Rightarrow> [] | Some q \<Rightarrow> pj_name q),
             so_hue = (case p of None \<Rightarrow> 0 | Some q \<Rightarrow> pj_hue q)\<rparr>)
           (case ro_refusal_kind r of
              None \<Rightarrow> Inr RefusalUnknown
            | Some k \<Rightarrow> parsed (''read repos.refusal_kind of '' @ ro_name r) (parse_refusal_kind k)))"

definition repos :: "store_repo list query" where
  "repos = and_then (wrapping ''select repos'' q_list_repos) (\<lambda>rows. lift_sum (traverse repo_of_row rows))"

definition upsert_repo :: "store_repo \<Rightarrow> unit query" where
  "upsert_repo r =
     wrapping (''upsert repo '' @ so_name r) (wrapping (''upsert repo '' @ so_name r) (q_upsert_repo
       \<lparr>ro_name = so_name r, ro_remote = so_remote r, ro_state = repo_phase_text (so_phase r),
        ro_refusal_kind = null_if_empty (refusal_kind_text (so_refusal_kind r)), ro_refusal = null_if_empty (so_refusal r),
        ro_settings_source = None, ro_settings_read_at = None, ro_tracked_at = so_tracked_at r, ro_project_id = None\<rparr>))"

definition set_repo_state :: "store_repo \<Rightarrow> unit query" where
  "set_repo_state r =
     matched_row (''set repo '' @ so_name r @ '' phase '' @ repo_phase_text (so_phase r))
       (q_set_repo_state (so_name r) (repo_phase_text (so_phase r)) (null_if_empty (refusal_kind_text (so_refusal_kind r)))
         (null_if_empty (so_refusal r)) (null_if_empty (so_settings_source r))
         (if so_settings_read_at r = 0 then None else Some (so_settings_read_at r)))"

definition equal_fold :: "string \<Rightarrow> string \<Rightarrow> bool" where
  "equal_fold a b \<longleftrightarrow> lower_text a = lower_text b"

definition track_pending :: "(payload \<Rightarrow> string) \<Rightarrow> string \<Rightarrow> bool query" where
  "track_pending json repo =
     and_then (wrapping ''select pending track intents'' (pending_verb_intents json VerbTrack))
       (\<lambda>is. ret (\<exists>i \<in> set is. equal_fold (vi_ticket_id i) repo))"

definition queue_track_intent :: "(payload \<Rightarrow> string) \<Rightarrow> string \<Rightarrow> time \<Rightarrow> bool query" where
  "queue_track_intent json repo at =
     and_then (wrapping (''check pending track for '' @ repo) (track_pending json repo)) (\<lambda>pending.
       if pending then ret False
       else and_then (wrapping (''queue track for '' @ repo) (queue_verb_intent repo VerbTrack [] at)) (\<lambda>_. ret True))"

subsection \<open>\<open>projects.go\<close>\<close>

definition min_hue :: int where "min_hue = 1"
definition max_hue :: int where "max_hue = 3"

definition err_project_exists :: io_error where "err_project_exists = Sentinel ''store: project already exists''"
definition err_invalid_project :: io_error where "err_invalid_project = Sentinel ''store: invalid project''"

record project =
  pr_name :: string
  pr_hue :: int
  pr_repos :: "string list"

text \<open>The index from a project's name to its place, and the loop that files the repositories.\<close>

definition file_repo :: "(string, nat) gomap \<Rightarrow> store_repo \<Rightarrow> project list \<Rightarrow> project list" where
  "file_repo index r ps =
     (case map_of index (so_project r) of
        None \<Rightarrow> ps
      | Some i \<Rightarrow> ps[i := (ps ! i)\<lparr>pr_repos := pr_repos (ps ! i) @ [so_name r]\<rparr>])"

definition projects :: "project list query" where
  "projects =
     and_then (wrapping ''select projects'' q_list_projects) (\<lambda>rows.
     and_then (wrapping ''select repos'' repos) (\<lambda>rs.
     let index = fold (\<lambda>(i, p) m. put (pj_name p) i m) (zip [0..<length rows] rows) [];
         ps = map (\<lambda>p. \<lparr>pr_name = pj_name p, pr_hue = pj_hue p, pr_repos = []\<rparr>) rows
     in ret (fold (file_repo index) rs ps)))"

definition set_repo_project_id :: "string \<Rightarrow> int option \<Rightarrow> unit query" where
  "set_repo_project_id repo project =
     and_then (wrapping (''set project of repo '' @ repo) (q_set_repo_project_id repo project))
       (\<lambda>n. if n = 0 then fail_with (Wrapped (''repo '' @ quoted repo) err_not_found) else ret ())"

text \<open>An error is replaced where it is a violation of the constraint on names.\<close>

definition naming :: "string \<Rightarrow> 'a query \<Rightarrow> 'a query" where
  "naming what q c =
     (case q c of
        (Inl e, c') \<Rightarrow>
          (Inl (if is_unique_violation e ''projects_name_key'' then Wrapped what err_project_exists else Wrapped what e), c')
      | r \<Rightarrow> r)"

record new_project =
  np_name :: string
  np_hue :: int
  np_repos :: "string list"
  np_at :: time

definition valid_project :: "string \<Rightarrow> int \<Rightarrow> bool" where
  "valid_project name hue \<longleftrightarrow> project_name_ok name \<and> min_hue \<le> hue \<and> hue \<le> max_hue"

definition create_project :: "new_project \<Rightarrow> unit query" where
  "create_project p =
     (let name = np_name p in
      if \<not> valid_project name (np_hue p)
      then fail_with (Wrapped (''create project '' @ quoted name @ '' with hue '' @ itoa (np_hue p)) err_invalid_project)
      else in_tx (and_then (naming (''create project '' @ quoted name) (q_create_project name (np_hue p) (np_at p))) (\<lambda>i.
        each_io (\<lambda>repo. wrapping (''assign repo '' @ repo @ '' to project '' @ quoted name)
          (set_repo_project_id repo (Some i))) (np_repos p))))"

definition set_repo_project :: "string \<Rightarrow> string \<Rightarrow> unit query" where
  "set_repo_project repo project =
     and_then (if project = [] then ret None
         else and_then (or_not_found (''project '' @ quoted project) (''select project '' @ quoted project)
             (q_get_project_id project)) (\<lambda>i. ret (Some i)))
       (\<lambda>i. wrapping (''set project of repo '' @ repo) (set_repo_project_id repo i))"

definition edit_project :: "string \<Rightarrow> string \<Rightarrow> int \<Rightarrow> unit query" where
  "edit_project name new_name hue =
     (if \<not> valid_project new_name hue
      then fail_with (Wrapped (''edit project '' @ quoted name @ '' to '' @ quoted new_name @ '' with hue '' @ itoa hue)
        err_invalid_project)
      else and_then (naming (''edit project '' @ quoted name @ '' to '' @ quoted new_name) (q_edit_project name new_name hue))
        (\<lambda>n. if n = 0 then fail_with (Wrapped (''project '' @ quoted name) err_not_found) else ret ()))"

definition delete_project :: "string \<Rightarrow> unit query" where
  "delete_project name =
     and_then (wrapping (''delete project '' @ quoted name) (q_delete_project name))
       (\<lambda>n. if n = 0 then fail_with (Wrapped (''project '' @ quoted name) err_not_found) else ret ())"

subsection \<open>\<open>utilization.go\<close> and \<open>planinput.go\<close>\<close>

definition tick_period :: duration where "tick_period = 15 * second"

definition latest_readings_full :: "(string, reading_row) gomap query" where
  "latest_readings_full =
     and_then (wrapping ''select latest readings'' q_latest_readings_full)
       (\<lambda>rows. ret (fold (\<lambda>r m. put (ur_window r) r m) rows []))"

definition latest_readings :: "(string, float64 \<times> time) gomap query" where
  "latest_readings =
     and_then (wrapping ''read latest readings'' latest_readings_full)
       (\<lambda>m. ret (map (\<lambda>(w, r). (w, (ur_utilization r, ur_resets_at r))) m))"

definition verdict_facts_of :: "verdict_facts query" where
  "verdict_facts_of =
     and_then (wrapping ''read latest pushes'' latest_pushes) (\<lambda>pushes.
     and_then (wrapping ''read checking ticks'' checking_ticks) (\<lambda>ticks.
     ret \<lparr>vf_push_rows = pushes, vf_checking_for = map (\<lambda>(u, n). (u, n * tick_period)) ticks\<rparr>))"

definition repo_statuses :: "repo_status list query" where
  "repo_statuses =
     and_then (wrapping ''read repos'' repos) (\<lambda>rs. ret (map (\<lambda>r. \<lparr>st_name = so_name r, st_phase = so_phase r,
       st_refusal_kind = so_refusal_kind r, st_refusal = so_refusal r\<rparr>) rs))"

text \<open>The loop over the tickets: the session of a ticket that has run, and whether its opening and its
  merge are recorded.\<close>

definition session_for :: "(ticket_url, run_summary) gomap \<Rightarrow> string \<Rightarrow> string option query" where
  "session_for runs url c =
     (if has_key runs url then
        (case latest_session_id url c of
           (Inl e, c') \<Rightarrow> if is_not_found e then (Inr None, c') else (Inl (Wrapped ''read latest session'' e), c')
         | (Inr s, c') \<Rightarrow> (Inr (Some s), c'))
      else (Inr None, c))"

fun read_tickets ::
  "(ticket_url, run_summary) gomap \<Rightarrow> store_ticket list \<Rightarrow> (ticket_url, string) gomap \<Rightarrow> (ticket_url, recorded) gomap
     \<Rightarrow> ((ticket_url, string) gomap \<times> (ticket_url, recorded) gomap) query" where
  "read_tickets runs [] sessions recs = ret (sessions, recs)"
| "read_tickets runs (t # ts) sessions recs =
     and_then (session_for runs (ss_url t)) (\<lambda>session.
     and_then (wrapping ''read pr_opened event'' (has_event (ss_url t) EventPROpened)) (\<lambda>opened.
     and_then (wrapping ''read pr_merged event'' (has_event (ss_url t) EventPRMerged)) (\<lambda>merged.
     read_tickets runs ts (case session of None \<Rightarrow> sessions | Some s \<Rightarrow> put (ss_url t) s sessions)
       (put (ss_url t) \<lparr>rc_opened = opened, rc_merged = merged\<rparr> recs))))"

definition plan_input :: "(payload \<Rightarrow> string) \<Rightarrow> (float64 \<Rightarrow> int) \<Rightarrow> derive_input query" where
  "plan_input json pct =
     and_then (wrapping ''read tickets'' tickets) (\<lambda>ts.
     and_then (wrapping ''read last observation'' last_observation) (\<lambda>(ob, observed).
     and_then (wrapping ''read launch memberships'' launch_memberships) (\<lambda>memberships.
     and_then (wrapping ''read latest runs'' latest_runs_by_ticket) (\<lambda>runs.
     and_then (wrapping ''read push facts'' push_facts) (\<lambda>pushes.
     and_then (wrapping ''read refresh facts'' refresh_facts) (\<lambda>refreshes.
     and_then (wrapping ''read pending intents'' (pending_intents json)) (\<lambda>intents.
     and_then repo_statuses (\<lambda>statuses.
     and_then (wrapping ''read restacked tickets'' restacked_since_last_push) (\<lambda>restacked.
     and_then (wrapping ''read last verdicts'' last_verdicts) (\<lambda>verdicts.
     and_then (wrapping ''read removal refusals'' removal_refusals) (\<lambda>removals.
     and_then (wrapping ''read verdict facts'' verdict_facts_of) (\<lambda>facts.
     and_then (wrapping ''read pass runs'' pass_runs) (\<lambda>passes.
     and_then (wrapping ''read latest readings'' latest_readings) (\<lambda>gauges.
     and_then (read_tickets runs ts [] []) (\<lambda>(sessions, recs).
     ret \<lparr>di_now = 0, di_observed = observed, di_tickets = map store_ticket_plan ts, di_obs = ob,
       di_prev = new_observation 0, di_repos = statuses, di_memberships = memberships, di_runs = runs,
       di_pushes = pushes, di_refreshes = refreshes, di_restacked = restacked, di_sessions = sessions,
       di_recorded = recs, di_last_verdicts = verdicts, di_verdict = facts, di_intents = intents,
       di_removals = removals, di_five_hour_pct = pct (fst (get_or (Float64 0, 0) gauges ''five_hour'')),
       di_passes = passes\<rparr>)))))))))))))))"

end
