(* ===== verification/Store_Import.thy ===== *)
theory Store_Import imports Store_Tickets begin

text \<open>
  What an import does to the tickets. The table is read as a map from URL to row, every statement of
  \<open>ImportTickets\<close> is a function of that map, and the transaction refines the abstract specification
  \<open>import_spec\<close>; from it follow which tickets a feature has afterwards and that the feature is closed under
  its blockers.
\<close>

subsection \<open>The last row of every URL\<close>

definition row_map :: "ticket_row list \<Rightarrow> string \<Rightarrow> ticket_row option" where
  "row_map rows = map_of (map (\<lambda>r. (tk_url r, r)) rows)"

lemma row_map_None: "row_map rows u = None \<longleftrightarrow> u \<notin> set (map tk_url rows)"
  by (simp add: row_map_def map_of_eq_None_iff image_image)

lemma row_map_Some: "row_map rows u = Some r \<Longrightarrow> r \<in> set rows \<and> tk_url r = u"
  by (auto simp: row_map_def dest: map_of_SomeD)

lemma row_map_in: "distinct (map tk_url rows) \<Longrightarrow> r \<in> set rows \<Longrightarrow> row_map rows (tk_url r) = Some r"
  unfolding row_map_def by (rule map_of_is_SomeI) (auto simp: comp_def)

lemma row_map_Nil [simp]: "row_map [] = Map.empty"
  by (simp add: row_map_def)

lemma row_map_single [simp]: "row_map [r] = [tk_url r \<mapsto> r]"
  by (simp add: row_map_def)

lemma row_map_append: "row_map (xs @ ys) = row_map ys ++ row_map xs"
  by (simp add: row_map_def)

definition placed :: "(string, nat) gomap \<Rightarrow> ticket_row list \<Rightarrow> bool" where
  "placed places unique \<longleftrightarrow> distinct (map tk_url unique)
     \<and> (\<forall>u. map_of places u = index_where (\<lambda>k. k = u) (map tk_url unique))"

lemma index_where_snoc:
  "index_where P (xs @ [y]) =
     (case index_where P xs of Some i \<Rightarrow> Some i | None \<Rightarrow> if P y then Some (length xs) else None)"
  by (induction xs) (auto split: option.splits)

lemma row_map_snoc: "tk_url row \<notin> set (map tk_url rows) \<Longrightarrow> row_map (rows @ [row]) = (row_map rows)(tk_url row \<mapsto> row)"
  using row_map_None [of rows "tk_url row"]
  by (auto simp: row_map_append fun_eq_iff map_add_def split: option.splits)

lemma row_map_update:
  assumes "distinct (map tk_url unique)" and "i < length unique" and "tk_url (unique ! i) = tk_url row"
  shows "row_map (unique[i := row]) = (row_map unique)(tk_url row \<mapsto> row)"
proof
  fix u
  have dist: "distinct (map tk_url (unique[i := row]))"
    using assms by (simp add: map_update list_update_same_conv [symmetric])
      (metis list_update_id nth_map length_map)
  show "row_map (unique[i := row]) u = ((row_map unique)(tk_url row \<mapsto> row)) u"
  proof (cases "u = tk_url row")
    case True
    with row_map_in [OF dist, of row] assms(2) show ?thesis
      by (simp add: set_update_memI)
  next
    case False
    show ?thesis
    proof (cases "row_map unique u")
      case None
      then have "u \<notin> set (map tk_url (unique[i := row]))"
        using False set_update_subset_insert [of unique i row] by (auto simp: row_map_None)
      then have "row_map (unique[i := row]) u = None" by (simp only: row_map_None) simp
      with None False show ?thesis by simp
    next
      case (Some r)
      then have r: "r \<in> set unique" "tk_url r = u" by (auto dest: row_map_Some)
      then obtain j where j: "j < length unique" "unique ! j = r" by (auto simp: in_set_conv_nth)
      with False assms r have "j \<noteq> i" by auto
      with j have "r \<in> set (unique[i := row])" by (metis length_list_update nth_list_update_neq nth_mem)
      with row_map_in [OF dist this] r Some False show ?thesis by simp
    qed
  qed
qed

lemma keep_last_step:
  assumes "placed places unique" and "keep_last row (places, unique) = (places', unique')"
  shows "placed places' unique' \<and> row_map unique' = (row_map unique)(tk_url row \<mapsto> row)"
proof (cases "map_of places (tk_url row)")
  case None
  with assms(2) have eqs: "places' = put (tk_url row) (length unique) places" "unique' = unique @ [row]"
    by (auto simp: keep_last_def)
  from None assms(1) have new: "tk_url row \<notin> set (map tk_url unique)"
    by (auto simp: placed_def index_where_None)
  then have absent: "index_where (\<lambda>k. k = tk_url row) (map tk_url unique) = None"
    unfolding index_where_None by blast
  have "placed places' unique'"
    using assms(1) new absent by (auto simp: eqs placed_def update_conv index_where_snoc split: option.splits)
  with row_map_snoc [OF new] eqs show ?thesis by simp
next
  case (Some i)
  with assms(2) have eqs: "places' = places" "unique' = unique[i := row]" by (auto simp: keep_last_def)
  from Some assms(1) have i: "i < length unique" "tk_url (unique ! i) = tk_url row"
    using index_where_Some [of "\<lambda>k. k = tk_url row" "map tk_url unique" i] by (auto simp: placed_def)
  then have same: "map tk_url (unique[i := row]) = map tk_url unique"
    by (simp add: map_update) (metis list_update_id nth_map)
  with assms(1) have "placed places' unique'" by (simp add: eqs placed_def)
  with row_map_update [OF _ i] assms(1) eqs show ?thesis by (simp add: placed_def)
qed

lemma keep_last_fold:
  "placed places unique \<Longrightarrow> fold keep_last rows (places, unique) = (places', unique') \<Longrightarrow>
     placed places' unique' \<and> row_map unique' = row_map unique ++ row_map (rev rows)"
proof (induction rows arbitrary: places unique)
  case Nil
  then show ?case by (simp add: row_map_def)
next
  case (Cons row rows)
  obtain p u where step: "keep_last row (places, unique) = (p, u)" by (meson surj_pair)
  from keep_last_step [OF Cons.prems(1) step] have p: "placed p u" and u: "row_map u = row_map unique ++ row_map [row]"
    by auto
  have "row_map (rev (row # rows)) = row_map [row] ++ row_map (rev rows)" by (simp only: rev.simps row_map_append)
  with Cons.IH [OF p] Cons.prems(2) step show ?case by (simp only: fold_Cons_rev u map_add_assoc fold_simps comp_apply)
qed

lemma last_per_url_spec:
  "distinct (map tk_url (last_per_url rows)) \<and> row_map (last_per_url rows) = row_map (rev rows)"
proof -
  obtain p u where run: "fold keep_last rows ([], []) = (p, u)" by (meson surj_pair)
  have "placed [] []" by (simp add: placed_def)
  from keep_last_fold [OF this run] run show ?thesis by (simp add: last_per_url_def placed_def)
qed

subsection \<open>The tickets as a map\<close>

text \<open>What the table stands for: the row of each URL. Every statement acts on this map.\<close>

definition keyed :: "ticket_row list \<Rightarrow> bool" where
  "keyed rows \<longleftrightarrow> distinct (map tk_url rows)"

lemma keyed_unique: "keyed rows \<Longrightarrow> r \<in> set rows \<Longrightarrow> s \<in> set rows \<Longrightarrow> tk_url r = tk_url s \<Longrightarrow> r = s"
  by (metis keyed_def row_map_in option.inject)

lemma keyed_row: "keyed rows \<Longrightarrow> row_map rows u = Some r \<longleftrightarrow> r \<in> set rows \<and> tk_url r = u"
  by (metis keyed_def row_map_in row_map_Some)

lemma row_map_update_where:
  assumes "\<And>r. tk_url (f r) = tk_url r"
  shows "row_map (update_where P f rows) u = map_option (\<lambda>r. if P r then f r else r) (row_map rows u)"
  using assms by (induction rows) (auto simp: row_map_def update_where_def)

lemma keyed_update_where:
  "(\<And>r. tk_url (f r) = tk_url r) \<Longrightarrow> keyed (update_where P f rows) = keyed rows"
  by (simp add: keyed_def map_update_where)

definition merge_rows ::
  "(ticket_row \<Rightarrow> ticket_row \<Rightarrow> ticket_row) \<Rightarrow> (string \<Rightarrow> ticket_row option) \<Rightarrow> (string \<Rightarrow> ticket_row option)
     \<Rightarrow> string \<Rightarrow> ticket_row option" where
  "merge_rows merge M N u =
     (case N u of None \<Rightarrow> M u | Some new \<Rightarrow> Some (case M u of None \<Rightarrow> new | Some old \<Rightarrow> merge old new))"

lemma upsert_row_map:
  assumes url: "\<And>old. tk_url (merge old new) = tk_url new" and keyed: "keyed rows"
  shows "row_map (upsert_row merge new rows) = merge_rows merge (row_map rows) [tk_url new \<mapsto> new]
    \<and> keyed (upsert_row merge new rows)"
proof (cases "tk_url new \<in> set (map tk_url rows)")
  case True
  then obtain old where old: "row_map rows (tk_url new) = Some old" by (metis row_map_None not_None_eq)
  have "map tk_url (update_where (\<lambda>r. tk_url r = tk_url new) (\<lambda>old. merge old new) rows) = map tk_url rows"
    by (simp add: update_where_def url)
  moreover have "row_map (update_where (\<lambda>r. tk_url r = tk_url new) (\<lambda>old. merge old new) rows) u =
      (if u = tk_url new then map_option (\<lambda>r. merge r new) (row_map rows u) else row_map rows u)" for u
    by (induction rows) (auto simp: row_map_def update_where_def url)
  ultimately show ?thesis
    using True keyed old
    by (auto simp: upsert_row_def merge_rows_def keyed_def fun_eq_iff split: option.splits dest: row_map_Some)
next
  case False
  then have none: "row_map rows (tk_url new) = None" by (simp add: row_map_None)
  have "row_map (rows @ [new]) = (row_map rows)(tk_url new \<mapsto> new)" using False by (rule row_map_snoc)
  with False keyed none show ?thesis
    by (auto simp: upsert_row_def merge_rows_def keyed_def fun_eq_iff split: option.splits)
qed

lemma upsert_rows_map:
  assumes url: "\<And>old new. tk_url (merge old new) = tk_url new" and "keyed rows" and "distinct (map tk_url news)"
  shows "row_map (fold (upsert_row merge) news rows) = merge_rows merge (row_map rows) (row_map news)
    \<and> keyed (fold (upsert_row merge) news rows)"
  using assms(2,3)
proof (induction news arbitrary: rows)
  case Nil
  then show ?case by (simp add: merge_rows_def fun_eq_iff)
next
  case (Cons new news)
  from upsert_row_map [of merge new, OF url Cons.prems(1)] have
    one: "row_map (upsert_row merge new rows) = merge_rows merge (row_map rows) [tk_url new \<mapsto> new]"
    and k: "keyed (upsert_row merge new rows)" by auto
  have split: "row_map (new # news) = row_map news ++ [tk_url new \<mapsto> new]"
    using row_map_append [of "[new]" news] by simp
  have "row_map news (tk_url new) = None" using Cons.prems(2) by (simp add: row_map_None)
  with Cons.IH [OF k] Cons.prems(2) show ?case
    by (auto simp: one split merge_rows_def fun_eq_iff map_add_def split: option.splits)
qed

lemma yields_upsert:
  assumes "yields (stmt (upsert_rows merge (last_per_url rows))) d a d'"
    and "\<And>old new. tk_url (merge old new) = tk_url new" and "keyed (db_tickets d)"
  shows "\<exists>T. d' = d\<lparr>db_tickets := T\<rparr> \<and> keyed T \<and> row_map T = merge_rows merge (row_map (db_tickets d)) (row_map (rev rows))"
  using assms upsert_rows_map [OF assms(2,3), of "last_per_url rows"] last_per_url_spec [of rows]
  by (auto simp: upsert_rows_def)

text \<open>Two imported rows of one URL never meet in one statement.\<close>

lemma no_second_update: "upsert_rows merge (last_per_url rows) d \<noteq> Inl second_update_error"
  by (simp add: upsert_rows_def last_per_url_spec)

definition prune_row :: "string set \<Rightarrow> ticket_row \<Rightarrow> ticket_row" where
  "prune_row gone r = (if active r then r\<lparr>tk_blocked_by := filter (\<lambda>b. b \<notin> gone) (tk_blocked_by r)\<rparr> else r)"

lemma prune_row_same: "(\<forall>b \<in> set (tk_blocked_by r). b \<notin> gone) \<Longrightarrow> prune_row gone r = r"
  by (simp add: prune_row_def filter_id_conv)

lemma map_of_pruned:
  assumes "keyed rows"
  shows "map_of (List.map_filter (pruned gone) (filter active rows)) u =
     (case row_map rows u of
        None \<Rightarrow> None
      | Some r \<Rightarrow> if active r then map_option snd (pruned gone r) else None)"
  using assms
proof (induction rows)
  case (Cons r rows)
  have IH: "map_of (List.map_filter (pruned gone) (filter active rows)) u =
     (case row_map rows u of None \<Rightarrow> None | Some r \<Rightarrow> if active r then map_option snd (pruned gone r) else None)"
    using Cons by (simp add: keyed_def)
  have none: "row_map rows (tk_url r) = None" using Cons.prems by (simp add: keyed_def row_map_None)
  have here: "pruned gone r = Some p \<Longrightarrow> fst p = tk_url r" for p by (auto simp: pruned_def split: if_splits)
  have "row_map (r # rows) u = (if u = tk_url r then Some r else row_map rows u)" by (simp add: row_map_def)
  with IH none here show ?case
    by (cases "pruned gone r") (force simp: map_filter_simps split: if_splits)+
qed (simp add: row_map_def map_filter_simps)

lemma yields_repair:
  assumes run: "yields (repair_blocked_by gone) d a d'" and keyed: "keyed (db_tickets d)"
  shows "\<exists>T. d' = d\<lparr>db_tickets := T\<rparr> \<and> keyed T
     \<and> row_map T = (\<lambda>u. map_option (prune_row (set gone)) (row_map (db_tickets d) u))"
proof -
  let ?rows = "db_tickets d" and ?ups = "List.map_filter (pruned gone) (filter active (db_tickets d))"
  have d: "d = d\<lparr>db_tickets := ?rows\<rparr>" by simp
  have same: ?thesis if "d' = d" and "\<forall>r \<in> set ?rows. prune_row (set gone) r = r"
  proof -
    from that(2) have "row_map ?rows = (\<lambda>u. map_option (prune_row (set gone)) (row_map ?rows u))"
      by (auto simp: fun_eq_iff dest: row_map_Some intro!: option.map_ident_strong [symmetric])
    with that(1) keyed d show ?thesis by metis
  qed
  show ?thesis
  proof (cases "gone = [] \<or> ?ups = []")
    case True
    then have "d' = d" using run
      by (auto simp: repair_blocked_by_def q_list_tickets_with_blockers_def Let_def elim!: yields_bind split: if_splits)
    moreover have "\<forall>r \<in> set ?rows. prune_row (set gone) r = r"
    proof
      fix r assume r: "r \<in> set ?rows"
      show "prune_row (set gone) r = r"
      proof (cases "active r \<and> gone \<noteq> []")
        case True
        with \<open>gone = [] \<or> ?ups = []\<close> r have "pruned gone r = None"
          by (cases "pruned gone r") (auto simp: map_filter_def filter_empty_conv)
        then show ?thesis by (intro prune_row_same) (auto simp: pruned_def split: if_splits)
      qed (auto simp: prune_row_def)
    qed
    ultimately show ?thesis by (rule same)
  next
    case False
    with run have set: "yields (matched_row (''repair blocked_by of '' @ itoa (int (length ?ups)) @ '' tickets'') (q_set_blocked_bys ?ups)) d a d'"
      by (auto simp: repair_blocked_by_def q_list_tickets_with_blockers_def Let_def elim!: yields_bind split: if_splits)
    let ?f = "\<lambda>t. t\<lparr>tk_blocked_by := get_or (tk_blocked_by t) ?ups (tk_url t)\<rparr>"
    and ?P = "\<lambda>t. tk_url t \<in> fst ` set ?ups"
    from yields_matched [OF set] have d': "d' = d\<lparr>db_tickets := update_where ?P ?f ?rows\<rparr>"
      by (auto simp: q_set_blocked_bys_def set_tickets_def)
    have "(if ?P r then ?f r else r) = prune_row (set gone) r" if r: "r \<in> set ?rows" for r
    proof -
      from r keyed have "row_map ?rows (tk_url r) = Some r" by (simp add: keyed_def row_map_in)
      with map_of_pruned [OF keyed, of gone "tk_url r"]
      have look: "map_of ?ups (tk_url r) = (if active r then map_option snd (pruned gone r) else None)" by simp
      have in_iff: "?P r \<longleftrightarrow> map_of ?ups (tk_url r) \<noteq> None" by (metis map_of_eq_None_iff)
      show ?thesis
      proof (cases "active r \<and> (\<exists>b \<in> set (tk_blocked_by r). b \<in> set gone)")
        case True
        then show ?thesis unfolding in_iff by (simp add: get_or_def look pruned_def prune_row_def)
      next
        case False
        then show ?thesis unfolding in_iff
          by (cases "active r") (auto simp: look pruned_def prune_row_def filter_id_conv)
      qed
    qed
    then have "row_map (update_where ?P ?f ?rows) = (\<lambda>u. map_option (prune_row (set gone)) (row_map ?rows u))"
      by (auto simp: row_map_update_where fun_eq_iff dest: row_map_Some intro!: option.map_cong0)
    with d' keyed show ?thesis by (auto simp: keyed_update_where)
  qed
qed

subsection \<open>Importing, as a function of the map\<close>

lemma yields_lift_sum [simp]: "yields (lift_sum r) d a d' \<longleftrightarrow> r = Inr a \<and> d' = d"
  by (cases r) (auto simp: lift_sum_def yields_def calm_def intro: exI [of _ "calm d"])

lemma traverse_Inr:
  "traverse f xs = Inr ys \<Longrightarrow> length ys = length xs \<and> (\<forall>i < length xs. f (xs ! i) = Inr (ys ! i))"
proof (induction xs arbitrary: ys)
  case (Cons x xs)
  then show ?case by (auto split: sum.splits simp: nth_Cons split: nat.splits)
qed simp

lemma traverse_accept:
  assumes "traverse (accept_import lower feature now existing) ts = Inr rows"
  shows "rows = map (import_row lower feature now) ts"
  using traverse_Inr [OF assms]
  by (intro nth_equalityI) (auto simp: accept_import_def Let_def split: if_splits)

lemma yields_get_meta: "yields (get_meta name key) d v d' \<Longrightarrow> v = key (db_meta d) \<and> d' = d"
  by (auto simp: yields_def get_meta_def or_absent_def q_get_meta_def one_row_def stmt_def Let_def is_no_rows_def
      is_sentinel_def err_no_rows_def split: option.splits sum.splits if_splits)

lemma yields_last_observation:
  "yields last_observation d r d' \<Longrightarrow>
     d' = d \<and> r = (case me_observation (db_meta d) of None \<Rightarrow> (new_observation 0, False) | Some ob \<Rightarrow> (ob, True))"
  unfolding last_observation_def by (erule yields_bind) (auto dest: yields_get_meta)

text \<open>What the store last observed, and nothing before the first observation.\<close>

definition observed :: "db \<Rightarrow> observation" where
  "observed d = (case me_observation (db_meta d) of None \<Rightarrow> new_observation 0 | Some ob \<Rightarrow> ob)"

definition withdraw_row :: "time \<Rightarrow> ticket_row \<Rightarrow> ticket_row" where
  "withdraw_row now r = r\<lparr>tk_withdrawn_at := Some now\<rparr>"

definition import_spec ::
  "(string \<Rightarrow> int list) \<Rightarrow> string \<Rightarrow> imported_ticket list \<Rightarrow> time \<Rightarrow> observation
     \<Rightarrow> (string \<Rightarrow> ticket_row option) \<Rightarrow> string \<Rightarrow> ticket_row option" where
  "import_spec lower feature ts now ob M =
     (let M1 = merge_rows import_over M (row_map (rev (map (import_row lower feature now) ts)));
          M2 = (\<lambda>u. map_option (\<lambda>r. if tk_feature r = feature \<and> active r \<and> u \<notin> set (map im_url ts)
                  then withdraw_row now r else r) (M1 u));
          gone = {u. \<exists>r. M2 u = Some r \<and> \<not> active r \<and> merged_in ob r}
      in (\<lambda>u. map_option (prune_row gone) (M2 u)))"

lemma yields_withdraw_dropped:
  assumes "yields (withdraw_dropped dropped now) d a d'" and "keyed (db_tickets d)"
  shows "\<exists>T. d' = d\<lparr>db_tickets := T\<rparr> \<and> keyed T
    \<and> row_map T = (\<lambda>u. map_option (\<lambda>r. if u \<in> set dropped \<and> active r then withdraw_row now r else r) (row_map (db_tickets d) u))"
proof -
  let ?P = "\<lambda>t. tk_url t \<in> set dropped \<and> active t" and ?f = "\<lambda>t. t\<lparr>tk_withdrawn_at := Some now\<rparr>"
  from assms(1) have d': "d' = d\<lparr>db_tickets := update_where ?P ?f (db_tickets d)\<rparr>"
    by (auto simp: withdraw_dropped_def q_withdraw_tickets_def set_tickets_def Let_def elim!: yields_bind split: if_splits)
  have "row_map (update_where ?P ?f (db_tickets d)) u =
      map_option (\<lambda>r. if u \<in> set dropped \<and> active r then withdraw_row now r else r) (row_map (db_tickets d) u)" for u
    by (auto simp: row_map_update_where withdraw_row_def dest: row_map_Some intro!: option.map_cong0)
  with d' assms(2) show ?thesis by (auto simp: keyed_update_where fun_eq_iff)
qed

lemma row_map_filter_url:
  "row_map (filter (\<lambda>t. P (tk_url t)) rows) u = (if P u then row_map rows u else None)"
  by (induction rows) (auto simp: row_map_def)

lemma map_of_fold_put:
  "map_of (fold (\<lambda>r m. put (tk_url r) (g r) m) rows acc) u =
     (case row_map (rev rows) u of None \<Rightarrow> map_of acc u | Some r \<Rightarrow> Some (g r))"
  by (induction rows arbitrary: acc)
    (auto simp: update_conv row_map_append map_add_def split: option.splits)

lemma row_map_rev: "keyed rows \<Longrightarrow> row_map (rev rows) = row_map rows"
proof
  fix u
  assume "keyed rows"
  then have "row_map (rev rows) u = Some r \<longleftrightarrow> row_map rows u = Some r" for r
    using keyed_row [of rows] keyed_row [of "rev rows"] by (simp add: keyed_def rev_map [symmetric])
  then show "row_map (rev rows) u = row_map rows u" by (metis not_Some_eq)
qed

definition feature_in :: "(string \<Rightarrow> ticket_row option) \<Rightarrow> string \<Rightarrow> string" where
  "feature_in M u = (case M u of None \<Rightarrow> [] | Some r \<Rightarrow> tk_feature r)"

definition merged_of :: "observation \<Rightarrow> (string \<Rightarrow> ticket_row option) \<Rightarrow> string \<Rightarrow> bool" where
  "merged_of ob M u = (case M u of None \<Rightarrow> False | Some r \<Rightarrow> merged_in ob r)"

lemma yields_closure_lookups:
  assumes "yields (closure_lookups ts ob) d (fo, mg) d'" and "keyed (db_tickets d)"
  shows "d' = d \<and> (\<forall>u \<in> set (concat (map snd ts)). fo u = feature_in (row_map (db_tickets d)) u
    \<and> mg u = merged_of ob (row_map (db_tickets d)) u)"
proof -
  let ?bs = "remdups (concat (map snd ts))"
  let ?rows = "filter (\<lambda>t. tk_url t \<in> set ?bs) (db_tickets d)"
  from assms(1) have d': "d' = d" and fo: "fo = get_or [] (fold (\<lambda>r m. put (tk_url r) (tk_feature r) m) ?rows [])"
    and mg: "mg = get_or False (fold (\<lambda>r m. put (tk_url r) (merged_in ob r) m) ?rows [])"
    by (auto simp: closure_lookups_def Let_def q_list_ticket_features_def q_list_ticket_branches_def elim!: yields_bind)
  have "keyed ?rows" using assms(2) by (auto simp: keyed_def distinct_map intro: inj_on_subset)
  then have look: "row_map (rev ?rows) u = (if u \<in> set ?bs then row_map (db_tickets d) u else None)" for u
    by (simp only: row_map_rev row_map_filter_url [of "\<lambda>x. x \<in> set ?bs"])
  have "fo u = feature_in (row_map (db_tickets d)) u \<and> mg u = merged_of ob (row_map (db_tickets d)) u"
    if "u \<in> set (concat (map snd ts))" for u
  proof -
    from that have "row_map (rev ?rows) u = row_map (db_tickets d) u" using look [of u] by simp
    then show ?thesis
      unfolding fo mg get_or_def map_of_fold_put by (simp add: feature_in_def merged_of_def split: option.splits)
  qed
  with d' show ?thesis by blast
qed

lemma close_under_None:
  "close_under_blocked_by feature ts fo mg = None \<longleftrightarrow>
     (\<forall>(u, bs) \<in> set ts. \<forall>b \<in> set bs. fo b = feature \<or> mg b)"
proof -
  have "set (concat (map (\<lambda>(url, blockers). map (Pair url) blockers) ts)) = {(u, b). \<exists>bs. (u, bs) \<in> set ts \<and> b \<in> set bs}"
    by force
  then show ?thesis unfolding close_under_blocked_by_def by (fastforce simp: find_None_iff)
qed

text \<open>The blockers of the imported tickets as the transaction saw them when it checked the closure.\<close>

definition closed_in :: "observation \<Rightarrow> string \<Rightarrow> string set \<Rightarrow> (string \<Rightarrow> ticket_row option) \<Rightarrow> bool" where
  "closed_in ob feature urls M \<longleftrightarrow>
     (\<forall>u \<in> urls. \<forall>r. M u = Some r \<and> active r \<and> tk_feature r = feature \<longrightarrow>
        (\<forall>b \<in> set (tk_blocked_by r). feature_in M b = feature \<or> merged_of ob M b))"

lemma import_row_simps [simp]:
  "tk_url (import_row lower feature now t) = im_url t"
  "tk_feature (import_row lower feature now t) = feature"
  "active (import_row lower feature now t)"
  by (simp_all add: import_row_def im_url_def active_def Let_def)

lemma import_over_simps [simp]:
  "tk_url (import_over old new) = tk_url new" "tk_feature (import_over old new) = tk_feature new"
  "active (import_over old new)"
  by (simp_all add: import_over_def active_def)

lemma row_map_import_rows:
  "row_map (rev (map (import_row lower feature now) ts)) u = None \<longleftrightarrow> u \<notin> set (map im_url ts)"
  by (simp add: row_map_None image_image)

lemma yields_write_imported:
  assumes "yields (write_imported lower feature ts now) d () d'" and "keyed (db_tickets d)"
  shows "\<exists>T. d' = d\<lparr>db_tickets := T\<rparr> \<and> keyed T
    \<and> row_map T = merge_rows import_over (row_map (db_tickets d)) (row_map (rev (map (import_row lower feature now) ts)))"
proof -
  from assms(1) have "yields (q_import_tickets (last_per_url (map (import_row lower feature now) ts))) d () d'"
    by (auto simp: write_imported_def Let_def q_list_active_ticket_features_def elim!: yields_bind dest: traverse_accept)
  then show ?thesis
    unfolding q_import_tickets_def by (rule yields_upsert [OF _ _ assms(2)]) simp
qed

lemma yields_check_imported:
  assumes run: "yields (check_imported feature returned) d (previous, ob) d'" and keyed: "keyed (db_tickets d)"
  shows "d' = d \<and> previous = filter (\<lambda>t. tk_feature t = feature \<and> active t) (db_tickets d) \<and> ob = observed d
    \<and> closed_in ob feature (set returned) (row_map (db_tickets d))"
proof -
  let ?previous = "filter (\<lambda>t. tk_feature t = feature \<and> active t) (db_tickets d)"
  let ?intended = "map (\<lambda>r. (tk_url r, tk_blocked_by r)) (filter (\<lambda>r. tk_url r \<in> set returned) ?previous)"
  from run obtain fo mg where prev: "previous = ?previous" and ob: "ob = observed d"
    and look: "yields (closure_lookups ?intended (observed d)) d (fo, mg) d'"
    and none: "close_under_blocked_by feature ?intended fo mg = None"
    unfolding check_imported_def Let_def observed_def
    by (auto simp: q_list_tickets_in_feature_def elim!: yields_bind dest!: yields_last_observation
        split: option.splits prod.splits)
  from yields_closure_lookups [OF look keyed] have d': "d' = d"
    and fo: "\<And>u. u \<in> set (concat (map snd ?intended)) \<Longrightarrow> fo u = feature_in (row_map (db_tickets d)) u"
    and mg: "\<And>u. u \<in> set (concat (map snd ?intended)) \<Longrightarrow> mg u = merged_of ob (row_map (db_tickets d)) u"
    by (auto simp: ob)
  have "closed_in ob feature (set returned) (row_map (db_tickets d))"
    unfolding closed_in_def
  proof (intro ballI allI impI)
    fix u r b assume u: "u \<in> set returned" and r: "row_map (db_tickets d) u = Some r \<and> active r \<and> tk_feature r = feature"
      and b: "b \<in> set (tk_blocked_by r)"
    from r have mem: "(u, tk_blocked_by r) \<in> set ?intended" using u row_map_Some [of "db_tickets d" u r] by auto
    with b have "b \<in> set (concat (map snd ?intended))" by force
    with fo mg none [unfolded close_under_None] mem b
    show "feature_in (row_map (db_tickets d)) b = feature \<or> merged_of ob (row_map (db_tickets d)) b" by fastforce
  qed
  with d' prev ob show ?thesis by simp
qed

lemma yields_prune_imported:
  assumes run: "yields (prune_imported returned (filter (\<lambda>t. tk_feature t = feature \<and> active t) (db_tickets d)) ob now) d () d'"
    and keyed: "keyed (db_tickets d)"
  shows "\<exists>T. d' = d\<lparr>db_tickets := T\<rparr> \<and> keyed T \<and> row_map T =
    (let M2 = (\<lambda>u. map_option (\<lambda>r. if tk_feature r = feature \<and> active r \<and> u \<notin> set returned
                 then withdraw_row now r else r) (row_map (db_tickets d) u));
         gone = {u. \<exists>r. M2 u = Some r \<and> \<not> active r \<and> merged_in ob r}
     in (\<lambda>u. map_option (prune_row gone) (M2 u)))"
proof -
  let ?dropped = "map tk_url (filter (\<lambda>r. tk_url r \<notin> set returned) (filter (\<lambda>t. tk_feature t = feature \<and> active t) (db_tickets d)))"
  let ?M2 = "\<lambda>u. map_option (\<lambda>r. if tk_feature r = feature \<and> active r \<and> u \<notin> set returned
      then withdraw_row now r else r) (row_map (db_tickets d) u)"
  from run obtain d1 where drop: "yields (withdraw_dropped ?dropped now) d () d1"
    and repair: "yields (repair_blocked_by (map tk_url (filter (merged_in ob) (filter (\<lambda>t. \<not> active t) (db_tickets d1))))) d1 () d'"
    unfolding prune_imported_def by (auto simp: q_list_withdrawn_tickets_def simp del: filter_filter elim!: yields_bind)
  from yields_withdraw_dropped [OF drop keyed] obtain T1 where d1: "d1 = d\<lparr>db_tickets := T1\<rparr>" and k1: "keyed T1"
    and m: "row_map T1 = (\<lambda>u. map_option (\<lambda>r. if u \<in> set ?dropped \<and> active r then withdraw_row now r else r) (row_map (db_tickets d) u))"
    by auto
  have "(u \<in> set ?dropped \<and> active r) = (tk_feature r = feature \<and> active r \<and> u \<notin> set returned)"
    if "row_map (db_tickets d) u = Some r" for u r
    using row_map_Some [OF that] keyed_unique [OF keyed] by auto
  then have m1: "row_map T1 = ?M2" unfolding m by (auto simp: fun_eq_iff intro!: option.map_cong0 dest: row_map_Some)
  have gone: "set (map tk_url (filter (merged_in ob) (filter (\<lambda>t. \<not> active t) T1)))
      = {u. \<exists>r. row_map T1 u = Some r \<and> \<not> active r \<and> merged_in ob r}"
    using keyed_row [OF k1] by auto
  from yields_repair [OF repair] k1 d1 obtain T where "d' = d\<lparr>db_tickets := T\<rparr>" "keyed T"
    "row_map T = (\<lambda>u. map_option (prune_row {u. \<exists>r. row_map T1 u = Some r \<and> \<not> active r \<and> merged_in ob r}) (row_map T1 u))"
    unfolding gone [symmetric] by auto
  then show ?thesis unfolding m1 Let_def by blast
qed

lemma yields_import_body:
  assumes run: "yields (import_body lower feature ts now) d () d'" and keyed: "keyed (db_tickets d)"
  shows "\<exists>T. d' = d\<lparr>db_tickets := T\<rparr> \<and> keyed T
    \<and> row_map T = import_spec lower feature ts now (observed d) (row_map (db_tickets d))
    \<and> closed_in (observed d) feature (set (map im_url ts))
        (merge_rows import_over (row_map (db_tickets d)) (row_map (rev (map (import_row lower feature now) ts))))"
proof -
  from run obtain d1 d2 previous ob where w: "yields (write_imported lower feature ts now) d () d1"
    and c: "yields (check_imported feature (map im_url ts)) d1 (previous, ob) d2"
    and p: "yields (prune_imported (map im_url ts) previous ob now) d2 () d'"
    unfolding import_body_def by (auto elim!: yields_bind)
  from yields_write_imported [OF w keyed] obtain T1 where d1: "d1 = d\<lparr>db_tickets := T1\<rparr>" and k1: "keyed T1"
    and m1: "row_map T1 = merge_rows import_over (row_map (db_tickets d)) (row_map (rev (map (import_row lower feature now) ts)))"
    by auto
  have "observed d1 = observed d" by (simp add: d1 observed_def)
  with yields_check_imported [OF c] k1 d1 have c': "d2 = d1" "ob = observed d"
      "previous = filter (\<lambda>t. tk_feature t = feature \<and> active t) (db_tickets d1)"
    and closed: "closed_in (observed d) feature (set (map im_url ts)) (row_map T1)" by auto
  from yields_prune_imported [of "map im_url ts" feature d1 ob now d'] p k1 d1 c' obtain T where
    "d' = d\<lparr>db_tickets := T\<rparr>" "keyed T"
    "row_map T = import_spec lower feature ts now (observed d) (row_map (db_tickets d))"
    by (auto simp: import_spec_def m1 Let_def)
  with closed m1 show ?thesis by auto
qed

lemma import_run:
  assumes "import_tickets lower feature ts now c = (Inr (), c')" and "keyed (db_tickets (cn_db c))"
  obtains T where "cn_db c' = (cn_db c)\<lparr>db_tickets := T\<rparr>" and "keyed T"
    and "row_map T = import_spec lower feature ts now (observed (cn_db c)) (row_map (db_tickets (cn_db c)))"
    and "closed_in (observed (cn_db c)) feature (set (map im_url ts))
      (merge_rows import_over (row_map (db_tickets (cn_db c))) (row_map (rev (map (import_row lower feature now) ts))))"
  proof -
  have "yields (import_body lower feature ts now) (cn_db c) () (cn_db c')"
    using yieldsI [where m = "import_tickets lower feature ts now", OF assms(1)]
    unfolding import_tickets_def by (rule yields_tx)
  from yields_import_body [OF this assms(2)] that show thesis by blast
qed

text \<open>Withdrawing and pruning change neither the features nor the branches of the rows.\<close>

lemma prune_row_simps [simp]:
  "tk_url (prune_row gone r) = tk_url r" "tk_feature (prune_row gone r) = tk_feature r"
  "tk_repo (prune_row gone r) = tk_repo r" "tk_branch (prune_row gone r) = tk_branch r"
  "active (prune_row gone r) = active r"
  by (simp_all add: prune_row_def active_def)

lemma withdraw_row_simps [simp]:
  "tk_url (withdraw_row now r) = tk_url r" "tk_feature (withdraw_row now r) = tk_feature r"
  "tk_repo (withdraw_row now r) = tk_repo r" "tk_branch (withdraw_row now r) = tk_branch r"
  "\<not> active (withdraw_row now r)"
  by (simp_all add: withdraw_row_def active_def)

definition import_kept ::
  "string \<Rightarrow> imported_ticket list \<Rightarrow> time \<Rightarrow> observation \<Rightarrow> (string \<Rightarrow> ticket_row option) \<Rightarrow> string \<Rightarrow> ticket_row option" where
  "import_kept feature ts now ob M1 =
     (let M2 = (\<lambda>u. map_option (\<lambda>r. if tk_feature r = feature \<and> active r \<and> u \<notin> set (map im_url ts)
                  then withdraw_row now r else r) (M1 u));
          gone = {u. \<exists>r. M2 u = Some r \<and> \<not> active r \<and> merged_in ob r}
      in (\<lambda>u. map_option (prune_row gone) (M2 u)))"

lemma import_spec_kept:
  "import_spec lower feature ts now ob M =
     import_kept feature ts now ob (merge_rows import_over M (row_map (rev (map (import_row lower feature now) ts))))"
  by (simp add: import_spec_def import_kept_def Let_def)

lemma import_kept_rows:
  obtains gone where "import_kept feature ts now ob M1 = (\<lambda>u. map_option (\<lambda>r. prune_row gone
      (if tk_feature r = feature \<and> active r \<and> u \<notin> set (map im_url ts) then withdraw_row now r else r)) (M1 u))"
  by (simp add: import_kept_def Let_def option.map_comp comp_def)

lemma import_kept_feature: "feature_in (import_kept feature ts now ob M1) u = feature_in M1 u"
  by (auto simp: feature_in_def import_kept_def Let_def split: option.splits)

lemma import_kept_merged: "merged_of ob (import_kept feature ts now ob M1) u = merged_of ob M1 u"
  by (auto simp: merged_of_def merged_in_def import_kept_def Let_def split: option.splits)

lemma merged_import_active:
  assumes "u \<in> set (map im_url ts)"
  shows "\<exists>r. merge_rows import_over M (row_map (rev (map (import_row lower feature now) ts))) u = Some r
    \<and> active r \<and> tk_feature r = feature"
proof -
  from assms obtain n where n: "row_map (rev (map (import_row lower feature now) ts)) u = Some n"
    by (metis row_map_import_rows not_None_eq)
  from row_map_Some [OF n] obtain t where "n = import_row lower feature now t" by auto
  then show ?thesis using n by (auto simp: merge_rows_def split: option.splits)
qed

lemma import_kept_active:
  "{u. \<exists>r. import_kept feature ts now ob (merge_rows import_over M (row_map (rev (map (import_row lower feature now) ts)))) u = Some r
       \<and> active r \<and> tk_feature r = feature} = set (map im_url ts)" (is "?A = ?B")
proof
  let ?M1 = "merge_rows import_over M (row_map (rev (map (import_row lower feature now) ts)))"
  obtain gone where rows: "import_kept feature ts now ob ?M1 = (\<lambda>u. map_option (\<lambda>r. prune_row gone
      (if tk_feature r = feature \<and> active r \<and> u \<notin> set (map im_url ts) then withdraw_row now r else r)) (?M1 u))"
    by (rule import_kept_rows)
  show "?A \<subseteq> ?B"
  proof
    fix u assume "u \<in> ?A"
    then obtain s where s: "import_kept feature ts now ob ?M1 u = Some s" "active s" "tk_feature s = feature" by blast
    then obtain r where "s = prune_row gone (if tk_feature r = feature \<and> active r \<and> u \<notin> set (map im_url ts)
        then withdraw_row now r else r)"
      unfolding rows map_option_eq_Some by blast
    with s(2,3) show "u \<in> ?B" by (cases "u \<in> set (map im_url ts)") (simp_all split: if_splits)
  qed
  show "?B \<subseteq> ?A"
  proof
    fix u assume u: "u \<in> ?B"
    from merged_import_active [OF u, of M lower feature now] obtain r
      where r: "?M1 u = Some r" "active r" "tk_feature r = feature" by blast
    with u have "import_kept feature ts now ob ?M1 u = Some (prune_row gone r)" by (simp only: rows) simp
    with r show "u \<in> ?A" unfolding mem_Collect_eq by (intro exI [of _ "prune_row gone r"]) simp
  qed
qed

lemma import_kept_closed:
  assumes "closed_in ob feature urls M1" and "set (map im_url ts) = urls"
  shows "closed_in ob feature urls (import_kept feature ts now ob M1)"
  unfolding closed_in_def import_kept_feature import_kept_merged
proof (intro ballI allI impI)
  fix u r b assume u: "u \<in> urls" and r: "import_kept feature ts now ob M1 u = Some r \<and> active r \<and> tk_feature r = feature"
    and b: "b \<in> set (tk_blocked_by r)"
  obtain gone where rows: "import_kept feature ts now ob M1 = (\<lambda>u. map_option (\<lambda>r. prune_row gone
      (if tk_feature r = feature \<and> active r \<and> u \<notin> set (map im_url ts) then withdraw_row now r else r)) (M1 u))"
    by (rule import_kept_rows)
  from r u assms(2) obtain r0 where "M1 u = Some r0" "r = prune_row gone r0"
    unfolding rows by auto
  moreover from this r b have "active r0" "tk_feature r0 = feature" "b \<in> set (tk_blocked_by r0)"
    by (auto simp: prune_row_def split: if_splits)
  ultimately show "feature_in M1 b = feature \<or> merged_of ob M1 b"
    using assms(1) u by (auto simp: closed_in_def)
qed


text \<open>After a successful import the active tickets of the feature are exactly those the tracker returned,
  and every blocker of theirs is in the feature or merged by the last observation.
\<close>

theorem import_closes_feature:
  assumes "keyed (db_tickets (cn_db c))" and "import_tickets lower feature ts now c = (Inr (), c')"
  shows "{u. \<exists>r. row_map (db_tickets (cn_db c')) u = Some r \<and> active r \<and> tk_feature r = feature} = set (map im_url ts)
    \<and> closed_in (observed (cn_db c')) feature (set (map im_url ts)) (row_map (db_tickets (cn_db c')))"
  by (rule import_run [OF assms(2,1)])
    (simp add: import_spec_kept import_kept_active import_kept_closed observed_def)


definition sample_import :: "string \<Rightarrow> string list \<Rightarrow> imported_ticket" where
  "sample_import url blocked_by = \<lparr>im_ticket = \<lparr>st_url = url, st_number = 7, st_title = [], st_body = [],
     st_status = ''ready'', st_blocked_by = blocked_by\<rparr>, im_repo = ''o/r'', im_source = ''github''\<rparr>"

definition sample_batch :: "imported_ticket list" where
  "sample_batch = [sample_import ''u1'' [], sample_import ''u2'' [''u1'']]"

lemma sample_import_runs:
  "import_tickets (\<lambda>_. []) ''f'' sample_batch 5 (calm empty_db)
     = (Inr (), snd (import_tickets (\<lambda>_. []) ''f'' sample_batch 5 (calm empty_db)))"
  by (rule run_result) code_simp

lemma sample_import_fails:
  "import_tickets (\<lambda>_. []) ''f'' [sample_import ''u2'' [''u1'']] 5 (calm empty_db)
     = (Inl (Feature_closure ''f'' ''u2'' ''u1'' []),
        snd (import_tickets (\<lambda>_. []) ''f'' [sample_import ''u2'' [''u1'']] 5 (calm empty_db)))"
  by (rule run_result) code_simp

lemma keyed_empty [simp]: "keyed (db_tickets (cn_db (calm empty_db)))"
  by (simp add: keyed_def calm_def empty_db_def)


theorem import_closes_feature_witness:
  "{u. \<exists>r. row_map (db_tickets (cn_db (snd (import_tickets (\<lambda>_. []) ''f'' sample_batch 5 (calm empty_db))))) u = Some r
      \<and> active r \<and> tk_feature r = ''f''} = {''u1'', ''u2''}"
  using import_closes_feature [OF keyed_empty sample_import_runs]
  by (simp add: sample_batch_def im_url_def sample_import_def)


end
