(* ===== verification/Store_Steps.thy ===== *)
theory Store_Steps imports Store_Input Store_Import begin

text \<open>
  The store as a state machine: every operation that writes is a step, whether it succeeds or fails, and
  \<open>reaches\<close> is any sequence of steps. What each statement keeps, every operation and every sequence of
  operations keeps (the locale \<open>kept\<close>); it is interpreted for the integrity of the tables and for how rows
  may change over time.
\<close>

subsection \<open>The operations\<close>

datatype store_op =
    Seed "store_ticket list"
  | Import "string \<Rightarrow> int list" string "imported_ticket list" time
  | Withdraw string time bool
  | Edit string string "string list"
  | Queue_edit string string "string list" time
  | Save_observation observation
  | Count_checking "ticket_url list"
  | Reset_checking ticket_url
  | Save_verdicts "(string, string) gomap"
  | Append time string event_kind string
  | Tick_failed tick_error
  | Import_refused string io_error time
  | Queue_launch string launch_payload time
  | Apply_launches time
  | Cancel_launches string
  | Insert_run run_skeleton
  | Insert_cut_failed run_skeleton time
  | Spawned run_id int time string
  | Disposed disposition_record
  | Asked run_id string
  | Queue_verb string verb string time
  | Queue_track "payload \<Rightarrow> string" string time
  | Consume int time
  | Pushed push_record
  | Prune time
  | Track_repo store_repo
  | Set_repo store_repo
  | New_project new_project
  | Assign_project string string
  | Change_project string string int
  | Drop_project string
  | Store_readings "reading_row list"
  | Store_intervals "interval_row list"

definition ignore :: "'a query \<Rightarrow> unit query" where
  "ignore q = and_then q (\<lambda>_. ret ())"

fun run_op :: "store_op \<Rightarrow> unit query" where
  "run_op (Seed ts) = upsert_tickets ts"
| "run_op (Import lower feature ts now) = import_tickets lower feature ts now"
| "run_op (Withdraw url now merged) = ignore (withdraw_ticket url now merged)"
| "run_op (Edit url branch bs) = edit_ticket url branch bs"
| "run_op (Queue_edit url branch bs at) = queue_edit_ticket_intent url branch bs at"
| "run_op (Save_observation ob) = save_observation ob"
| "run_op (Count_checking urls) = increment_checking_ticks urls"
| "run_op (Reset_checking url) = reset_checking_ticks url"
| "run_op (Save_verdicts m) = save_last_verdicts m"
| "run_op (Append at url kind detail) = append_event at url kind detail"
| "run_op (Tick_failed e) = record_tick_error e"
| "run_op (Import_refused feature e now) = record_import_refusal feature e now"
| "run_op (Queue_launch ticket p at) = queue_launch_intent ticket p at"
| "run_op (Apply_launches now) = apply_launch_intents now"
| "run_op (Cancel_launches ticket) = ignore (cancel_launches_for ticket)"
| "run_op (Insert_run r) = ignore (insert_run_skeleton r)"
| "run_op (Insert_cut_failed r at) = ignore (insert_cut_failed_run r at)"
| "run_op (Spawned run pgid started log) = record_spawn run pgid started log"
| "run_op (Disposed p) = record_disposition p"
| "run_op (Asked run question) = record_question run question"
| "run_op (Queue_verb ticket v p at) = queue_verb_intent ticket v p at"
| "run_op (Queue_track json repo at) = ignore (queue_track_intent json repo at)"
| "run_op (Consume i at) = consume_verb_intent i at"
| "run_op (Pushed p) = record_push p"
| "run_op (Prune now) = prune_history now"
| "run_op (Track_repo r) = upsert_repo r"
| "run_op (Set_repo r) = set_repo_state r"
| "run_op (New_project p) = create_project p"
| "run_op (Assign_project repo project) = set_repo_project repo project"
| "run_op (Change_project name new_name hue) = edit_project name new_name hue"
| "run_op (Drop_project name) = delete_project name"
| "run_op (Store_readings rows) = q_record_readings rows"
| "run_op (Store_intervals rows) = q_record_intervals rows"

inductive reaches :: "conn \<Rightarrow> conn \<Rightarrow> bool" where
  here: "reaches c c"
| op: "reaches c c1 \<Longrightarrow> run_op s c1 = (r, c2) \<Longrightarrow> reaches c c2"

lemma reaches_keeps:
  assumes "reaches c c'" and "\<And>s. keeps I (run_op s)" and "I (cn_db c)"
  shows "I (cn_db c')"
  using assms(1,3) by (induction rule: reaches.induct) (auto dest: keepsD [OF assms(2)])

subsection \<open>What every statement keeps\<close>

text \<open>The payloads the store queues under a verb.\<close>

definition payload_ok :: "string \<Rightarrow> payload \<Rightarrow> bool" where
  "payload_ok verb p \<longleftrightarrow> (case p of
     Launch_payload _ \<Rightarrow> verb = ''launch'' | Edit_payload _ \<Rightarrow> verb = ''edit_ticket'' | _ \<Rightarrow> True)"

lemma payload_ok_simps [simp]:
  "payload_ok verb No_payload" "payload_ok verb (Text_payload s)" "payload_ok ''launch'' (Launch_payload l)"
  "payload_ok ''edit_ticket'' (Edit_payload e)"
  by (simp_all add: payload_ok_def)

locale kept =
  fixes I :: "db \<Rightarrow> bool"
  assumes meta: "I d \<Longrightarrow> I (d\<lparr>db_meta := m\<rparr>)"
    and upsert_tickets: "keeps I (q_upsert_tickets rows)"
    and import_tickets: "keeps I (q_import_tickets rows)"
    and withdraw_tickets: "keeps I (q_withdraw_tickets urls at)"
    and withdraw_one: "keeps I (q_withdraw_ticket url at)"
    and set_blocked_bys: "keeps I (q_set_blocked_bys ups)"
    and edit_one: "keeps I (q_edit_ticket url branch bs)"
    and append: "keeps I (q_append_event at u k detail)"
    and launch_event: "keeps I (q_insert_launch_event at detail)"
    and prune_intents: "keeps I (q_prune_consumed_intents before batch)"
    and prune_events: "keeps I (q_prune_tick_errors before batch)"
    and prune_readings: "keeps I (q_prune_readings before batch)"
    and prune_intervals: "keeps I (q_prune_intervals before batch)"
    and intent: "payload_ok verb p \<Longrightarrow> keeps I (insert_intent at t verb p)"
    and claim: "keeps I (q_claim_launch_intents at)"
    and consume: "keeps I (q_consume_verb_intent i at)"
    and launch: "keeps I (q_insert_launch at ctx model effort flow)"
    and members: "keeps I (q_insert_launch_members l ms)"
    and cancel: "keeps I (q_cancel_active_launches t)"
    and run: "keeps I (stmt (insert_run r))"
    and spawn: "keeps I (q_record_spawn n pgid started log)"
    and dispose: "keeps I (q_record_disposition n out code at cost msg met)"
    and question: "keeps I (q_record_question n question)"
    and push: "keeps I (q_record_push t tip base sha at)"
    and repo: "keeps I (q_upsert_repo rr)"
    and repo_state: "keeps I (q_set_repo_state name st rk ref src read_at)"
    and project: "keeps I (q_create_project name hue at)"
    and repo_project: "keeps I (q_set_repo_project_id name pid)"
    and project_edit: "keeps I (q_edit_project old new hue)"
    and project_gone: "keeps I (q_delete_project name)"
    and readings: "keeps I (q_record_readings rrs)"
    and intervals: "keeps I (q_record_intervals irs)"
begin

lemma put_meta: "keeps I (put_meta n up v)"
  unfolding put_meta_def q_put_meta_def by (intro keeping keeps_writes) (simp add: meta)

lemma or_absent: "keeps I q \<Longrightarrow> keeps I (or_absent what q)"
  by (auto simp: keeps_def or_absent_def split: prod.splits sum.splits if_splits)

lemma or_not_found: "keeps I q \<Longrightarrow> keeps I (or_not_found missing what q)"
  by (auto simp: keeps_def or_not_found_def split: prod.splits sum.splits)

lemma naming: "keeps I q \<Longrightarrow> keeps I (naming what q)"
  by (auto simp: keeps_def naming_def split: prod.splits sum.splits)

lemma each: "(\<And>x. keeps I (f x)) \<Longrightarrow> keeps I (each_io f xs)"
proof (induction xs)
  case Nil
  then show ?case by (simp add: keeps_def)
next
  case (Cons x xs)
  have "each_io f (x # xs) = and_then (f x) (\<lambda>_. each_io f xs)" by (simp add: fun_eq_iff)
  with Cons show ?case by (auto intro: keeping)
qed

lemma lift: "keeps I (lift_sum r)"
  by (cases r) (simp_all add: keeps_def lift_sum_def)

lemmas statements = upsert_tickets import_tickets withdraw_tickets withdraw_one set_blocked_bys edit_one append launch_event
  prune_intents prune_events prune_readings prune_intervals intent claim consume launch members cancel run spawn dispose
  question push repo repo_state project repo_project project_edit project_gone readings intervals put_meta lift

lemma get_meta: "keeps I (get_meta n key)"
  unfolding get_meta_def q_get_meta_def by (intro or_absent keeping)

lemma ignore: "keeps I q \<Longrightarrow> keeps I (ignore q)"
  unfolding ignore_def by (intro keeping)

lemmas reading = q_list_active_ticket_features_def q_list_tickets_in_feature_def q_list_ticket_features_def
  q_list_ticket_branches_def q_list_withdrawn_tickets_def q_list_tickets_with_blockers_def q_run_ids_for_ticket_def
  q_get_ticket_feature_def q_active_launch_member_count_def q_pending_verb_intents_def q_get_project_id_def

lemma last_observation: "keeps I last_observation"
  unfolding last_observation_def by (intro keeping get_meta)

lemma closure_lookups: "keeps I (closure_lookups ts ob)"
  unfolding closure_lookups_def reading Let_def by (intro keeping)

lemma repair: "keeps I (repair_blocked_by gone)"
  unfolding repair_blocked_by_def reading Let_def by (auto intro!: keeping set_blocked_bys)

lemma import_op: "keeps I (Store_Tickets.import_tickets lower feature ts now)"
  unfolding Store_Tickets.import_tickets_def import_body_def write_imported_def check_imported_def prune_imported_def
    withdraw_dropped_def reading Let_def
  by (intro keeping; (simp only: split: prod.split option.split)?;
      auto intro!: keeping lift import_tickets last_observation closure_lookups withdraw_tickets repair split: option.splits)

lemma withdraw_op: "keeps I (withdraw_ticket url now merged)"
  unfolding withdraw_ticket_def reading by (auto intro!: keeping withdraw_one repair)

lemma edit_op: "keeps I (edit_ticket url branch bs)"
proof -
  have "keeps I (check_edit f url bs)" for f
    unfolding check_edit_def feature_tickets_with_override_def reading
    by (auto intro!: keeping last_observation closure_lookups split: option.splits)
  then show ?thesis unfolding edit_ticket_def reading by (auto intro!: keeping or_absent edit_one)
qed

lemma ticks: "keeps I checking_ticks"
  unfolding checking_ticks_def by (intro keeping get_meta)

lemma reset: "keeps I (reset_checking_ticks url)"
  unfolding reset_checking_ticks_def save_checking_ticks_def by (auto intro!: keeping ticks put_meta)

lemma append_op: "keeps I (append_event at url kind detail)"
  unfolding append_event_def by (intro keeping append)

lemma launches_op: "keeps I (apply_launch_intents now)"
  unfolding apply_launch_intents_def claim_launch_intents_def insert_launch_def Let_def
  by (auto intro!: keeping each claim lift launch members launch_event split: prod.splits)

lemma run_skeleton: "keeps I (insert_run_skeleton r)"
proof -
  have "keeps I (q_insert_run_skeleton p)" for p
    unfolding keeps_def q_insert_run_skeleton_def Let_def
    by (auto intro: keepsD [OF keeps_bind [OF run keeps_ret]])
  then show ?thesis
    unfolding insert_run_skeleton_def insert_session_run_skeleton_def Let_def
    by (auto intro!: keeping split: prod.splits)
qed

lemma verb_op: "keeps I (queue_verb_intent t v p at)"
  unfolding queue_verb_intent_def q_queue_verb_intent_def by (intro keeping intent) simp

lemma track_op: "keeps I (queue_track_intent json repo' at)"
  unfolding queue_track_intent_def track_pending_def pending_verb_intents_def reading
  by (auto intro!: keeping lift verb_op)

lemma projects_op: "keeps I (create_project p)"
  unfolding create_project_def set_repo_project_id_def Let_def
  by (auto intro!: keeping naming each project repo_project)

lemma assign_op: "keeps I (set_repo_project r p)"
  unfolding set_repo_project_def set_repo_project_id_def reading
  by (auto intro!: keeping or_not_found repo_project)

theorem keeps_op: "keeps I (run_op s)"
proof (cases s)
  case (Import lower feature ts now)
  then show ?thesis by (simp add: import_op)
qed (auto intro!: keeping ignore withdraw_op edit_op reset append_op launches_op run_skeleton verb_op track_op projects_op
    assign_op statements ticks naming
    simp: upsert_tickets_def queue_edit_ticket_intent_def q_queue_edit_ticket_intent_def save_observation_def
      increment_checking_ticks_def save_checking_ticks_def save_last_verdicts_def record_tick_error_def
      record_import_refusal_def queue_launch_intent_def q_queue_launch_intent_def cancel_launches_for_def reading
      insert_cut_failed_run_def q_insert_cut_failed_run_def record_spawn_def record_disposition_def record_question_def
      consume_verb_intent_def record_push_def prune_history_def upsert_repo_def set_repo_state_def edit_project_def
      delete_project_def split: option.splits)

end

end
