(* ===== verification/Store_Integrity.thy ===== *)
theory Store_Integrity imports Store_Steps begin

text \<open>
  The integrity of the tables in every state the store can reach: keys are unique, every reference to a
  ticket or a launch has its row, and every text that is parsed on the way out is one the parser accepts.
\<close>

subsection \<open>Tables with a numbered key\<close>

definition numbered :: "('r \<Rightarrow> int) \<Rightarrow> int \<Rightarrow> 'r list \<Rightarrow> bool" where
  "numbered rid n rows \<longleftrightarrow> distinct (map rid rows) \<and> (\<forall>k \<in> set (map rid rows). k \<le> n)"

lemma numbered_Nil [simp]: "numbered rid n []"
  by (simp add: numbered_def)

lemma numbered_snoc: "numbered rid n rows \<Longrightarrow> rid r = n + 1 \<Longrightarrow> numbered rid (n + 1) (rows @ [r])"
  by (fastforce simp: numbered_def)

lemma numbered_update: "(\<And>r. rid (f r) = rid r) \<Longrightarrow> numbered rid n (update_where P f rows) = numbered rid n rows"
  by (simp only: numbered_def map_update_where)

lemma numbered_filter: "numbered rid n rows \<Longrightarrow> numbered rid n (filter P rows)"
  by (auto simp: numbered_def distinct_map intro: inj_on_subset)

lemma numbered_unique: "numbered rid n rows \<Longrightarrow> r \<in> set rows \<Longrightarrow> s \<in> set rows \<Longrightarrow> rid r = rid s \<Longrightarrow> r = s"
  by (auto simp: numbered_def distinct_map inj_on_def)

lemma ball_update_where:
  "(\<And>r. Q r \<Longrightarrow> P r \<Longrightarrow> Q (f r)) \<Longrightarrow> \<forall>r \<in> set rows. Q r \<Longrightarrow> \<forall>r \<in> set (update_where P f rows). Q r"
  by (auto simp: update_where_def)

lemma set_delete_batch: "set (delete_batch P rid batch rows) \<subseteq> set rows"
  by (auto simp: delete_batch_def Let_def)

lemma distinct_delete_batch: "distinct (map f rows) \<Longrightarrow> distinct (map f (delete_batch P rid batch rows))"
  by (simp add: delete_batch_def Let_def distinct_map_filter)

subsection \<open>The invariant\<close>

definition ticket_urls :: "db \<Rightarrow> string set" where
  "ticket_urls d = set (map tk_url (db_tickets d))"

lemma has_ticket_urls: "has_ticket d u \<longleftrightarrow> u \<in> ticket_urls d"
  by (simp add: has_ticket_def ticket_urls_def)

lemma ticket_urls_frame [simp]:
  "ticket_urls (d\<lparr>db_runs := rs\<rparr>) = ticket_urls d" "ticket_urls (d\<lparr>db_seq := s\<rparr>) = ticket_urls d"
  "ticket_urls (d\<lparr>db_intents := is\<rparr>) = ticket_urls d" "ticket_urls (d\<lparr>db_events := es\<rparr>) = ticket_urls d"
  "ticket_urls (d\<lparr>db_launches := ls\<rparr>) = ticket_urls d" "ticket_urls (d\<lparr>db_members := ms\<rparr>) = ticket_urls d"
  "ticket_urls (d\<lparr>db_pushes := ps\<rparr>) = ticket_urls d" "ticket_urls (d\<lparr>db_repos := qs\<rparr>) = ticket_urls d"
  "ticket_urls (d\<lparr>db_projects := js\<rparr>) = ticket_urls d" "ticket_urls (d\<lparr>db_meta := m\<rparr>) = ticket_urls d"
  "ticket_urls (d\<lparr>db_readings := us\<rparr>) = ticket_urls d" "ticket_urls (d\<lparr>db_intervals := ws\<rparr>) = ticket_urls d"
  by (simp_all add: ticket_urls_def)

definition run_ok :: "string set \<Rightarrow> run_row \<Rightarrow> bool" where
  "run_ok U r \<longleftrightarrow> (\<exists>u \<in> U. ru_ticket_id r = Some u) \<and> ru_kind r \<in> set (map run_kind_text all_run_kinds)
     \<and> (case ru_outcome r of None \<Rightarrow> True | Some o' \<Rightarrow> o' \<in> set (map outcome_text all_outcomes))"

definition event_ok :: "string set \<Rightarrow> event_row \<Rightarrow> bool" where
  "event_ok U e \<longleftrightarrow> (case ev_ticket_id e of None \<Rightarrow> True | Some u \<Rightarrow> u \<in> U)
     \<and> ev_kind e \<in> set (map event_kind_text all_event_kinds)"

definition intent_ok :: "intent_row \<Rightarrow> bool" where
  "intent_ok i \<longleftrightarrow> iw_verb i \<in> set intent_verbs \<and> payload_ok (iw_verb i) (iw_payload i)"

definition member_ok :: "string set \<Rightarrow> int set \<Rightarrow> member_row \<Rightarrow> bool" where
  "member_ok U L m \<longleftrightarrow> mb_ticket_id m \<in> U \<and> mb_launch_id m \<in> L"

definition launch_ok :: "launch_row \<Rightarrow> bool" where
  "launch_ok l \<longleftrightarrow> lr_state l \<in> {''active'', ''cancelled''} \<and> effort_ok (lr_effort l)"

definition integrity :: "db \<Rightarrow> bool" where
  "integrity d \<longleftrightarrow>
     keyed (db_tickets d)
   \<and> numbered ru_id (sq_runs (db_seq d)) (db_runs d) \<and> (\<forall>r \<in> set (db_runs d). run_ok (ticket_urls d) r)
   \<and> numbered ev_id (sq_events (db_seq d)) (db_events d) \<and> (\<forall>e \<in> set (db_events d). event_ok (ticket_urls d) e)
   \<and> numbered iw_id (sq_intents (db_seq d)) (db_intents d) \<and> (\<forall>i \<in> set (db_intents d). intent_ok i)
   \<and> numbered lr_id (sq_launches (db_seq d)) (db_launches d) \<and> (\<forall>l \<in> set (db_launches d). launch_ok l)
   \<and> (\<forall>m \<in> set (db_members d). member_ok (ticket_urls d) (lr_id ` set (db_launches d)) m)
   \<and> numbered pp_id (sq_pushes (db_seq d)) (db_pushes d) \<and> (\<forall>p \<in> set (db_pushes d). pp_ticket_id p \<in> ticket_urls d)
   \<and> distinct (map ro_name (db_repos d)) \<and> (\<forall>r \<in> set (db_repos d). repo_checks r = None)
   \<and> numbered pj_id (sq_projects (db_seq d)) (db_projects d)
   \<and> (\<forall>p \<in> set (db_projects d). project_checks (pj_name p) (pj_hue p) = None)
   \<and> distinct (map (\<lambda>u. (ur_at u, ur_window u)) (db_readings d))
   \<and> distinct (map (\<lambda>u. (ui_window u, ui_start_at u)) (db_intervals d))"

lemma integrity_empty: "integrity empty_db"
  by (simp add: integrity_def empty_db_def keyed_def)

text \<open>A change of the tickets that keeps their keys and loses none.\<close>

lemma integrity_tickets:
  assumes "integrity d" and "keyed T" and "ticket_urls d \<subseteq> set (map tk_url T)"
  shows "integrity (d\<lparr>db_tickets := T\<rparr>)"
proof -
  let ?U = "set (map tk_url T)"
  have "run_ok (ticket_urls d) r \<Longrightarrow> run_ok ?U r" "event_ok (ticket_urls d) e \<Longrightarrow> event_ok ?U e"
    "member_ok (ticket_urls d) L m \<Longrightarrow> member_ok ?U L m" for r e m L
    using assms(3) by (auto simp: run_ok_def event_ok_def member_ok_def split: option.splits)
  with assms show ?thesis by (auto simp: integrity_def ticket_urls_def [of "d\<lparr>db_tickets := T\<rparr>"])
qed

lemma keyed_upsert_rows:
  assumes "\<And>old new. tk_url (merge old new) = tk_url new" and "keyed rows" and "distinct (map tk_url news)"
  shows "keyed (fold (upsert_row merge) news rows)
    \<and> set (map tk_url rows) \<subseteq> set (map tk_url (fold (upsert_row merge) news rows))"
proof -
  from upsert_rows_map [OF assms] have "keyed (fold (upsert_row merge) news rows)"
    and m: "row_map (fold (upsert_row merge) news rows) = merge_rows merge (row_map rows) (row_map news)" by auto
  moreover have "u \<in> set (map tk_url (fold (upsert_row merge) news rows))" if "u \<in> set (map tk_url rows)" for u
  proof -
    from that have "row_map rows u \<noteq> None" by (simp add: row_map_None)
    then have "row_map (fold (upsert_row merge) news rows) u \<noteq> None"
      by (auto simp: m merge_rows_def split: option.splits)
    then show ?thesis by (metis row_map_None)
  qed
  ultimately show ?thesis by blast
qed

lemma integrity_upsert:
  assumes "\<And>old new. tk_url (merge old new) = tk_url new" and "integrity d"
    and "upsert_rows merge rows d = Inr (a, d')"
  shows "integrity d'"
proof -
  from assms(3) have dist: "distinct (map tk_url rows)" and d': "d' = d\<lparr>db_tickets := fold (upsert_row merge) rows (db_tickets d)\<rparr>"
    by (auto simp: upsert_rows_def split: if_splits)
  have "keyed (db_tickets d)" using assms(2) by (simp add: integrity_def)
  from keyed_upsert_rows [of merge, OF assms(1) this dist] show ?thesis
    unfolding d' by (intro integrity_tickets assms(2)) (simp_all add: ticket_urls_def)
qed

lemma integrity_set_tickets:
  assumes "integrity d" and "\<And>r. tk_url (f r) = tk_url r"
  shows "integrity (snd (set_tickets P f d))"
proof -
  have "map tk_url (update_where P f (db_tickets d)) = map tk_url (db_tickets d)"
    by (rule map_update_where) (rule assms(2))
  then have "set (map tk_url (update_where P f (db_tickets d))) = ticket_urls d"
    by (simp only: ticket_urls_def)
  with assms show ?thesis
    unfolding set_tickets_def snd_conv
    by (intro integrity_tickets) (auto simp: keyed_update_where integrity_def)
qed

lemma integrity_event:
  assumes "integrity d" and "kind \<in> set (map event_kind_text all_event_kinds)" and "ticket_fk d u"
  shows "integrity (add_event at u kind detail d)"
proof -
  have "event_ok (ticket_urls d) \<lparr>ev_id = i, ev_at = at, ev_ticket_id = u, ev_kind = kind, ev_detail = detail\<rparr>" for i
    using assms(2,3) by (auto simp: event_ok_def ticket_fk_def has_ticket_def ticket_urls_def split: option.splits)
  with assms(1) show ?thesis
    by (auto simp: integrity_def add_event_def ticket_urls_def intro!: numbered_snoc)
qed

text \<open>A change of one table that keeps its own part of the invariant.\<close>

lemma integrity_runs:
  assumes "integrity d" and "numbered ru_id n R" and "\<forall>r \<in> set R. run_ok (ticket_urls d) r"
  shows "integrity (d\<lparr>db_runs := R, db_seq := db_seq d\<lparr>sq_runs := n\<rparr>\<rparr>)"
  using assms by (simp add: integrity_def)

lemma integrity_update_runs:
  assumes "integrity d" and "\<And>r. ru_id (f r) = ru_id r" and "\<And>r. P r \<Longrightarrow> run_ok U r \<Longrightarrow> run_ok U (f r)" and "U = ticket_urls d"
  shows "integrity (snd (set_runs P f d))"
proof -
  have "\<forall>r \<in> set (update_where P f (db_runs d)). run_ok U r"
    by (rule ball_update_where) (use assms in \<open>auto simp: integrity_def\<close>)
  with integrity_runs [OF assms(1), of "sq_runs (db_seq d)" "update_where P f (db_runs d)"] assms
  show ?thesis by (simp add: set_runs_def numbered_update [of ru_id f, OF assms(2)] integrity_def)
qed

lemma integrity_intents:
  assumes "integrity d" and "numbered iw_id n I" and "\<forall>i \<in> set I. intent_ok i"
  shows "integrity (d\<lparr>db_intents := I, db_seq := db_seq d\<lparr>sq_intents := n\<rparr>\<rparr>)"
  using assms by (simp add: integrity_def)

lemma integrity_update_intents:
  assumes "integrity d"
  shows "integrity (d\<lparr>db_intents := update_where P (\<lambda>i. i\<lparr>iw_consumed_at := Some at\<rparr>) (db_intents d)\<rparr>)"
proof -
  let ?I = "update_where P (\<lambda>i. i\<lparr>iw_consumed_at := Some at\<rparr>) (db_intents d)"
  have "\<forall>i \<in> set ?I. intent_ok i"
    by (rule ball_update_where) (use assms in \<open>auto simp: integrity_def intent_ok_def\<close>)
  moreover have "numbered iw_id (sq_intents (db_seq d)) ?I" using assms by (simp add: numbered_update integrity_def)
  ultimately show ?thesis using assms by (simp add: integrity_def)
qed

lemma numbered_delete: "numbered rid n rows \<Longrightarrow> numbered rid n (delete_batch P rid batch rows)"
  by (simp add: delete_batch_def Let_def numbered_filter)

lemma repo_checks_simps [simp]:
  "repo_checks (r\<lparr>ro_remote := remote, ro_state := ro_state new, ro_refusal_kind := ro_refusal_kind new,
     ro_refusal := ro_refusal new\<rparr>) = repo_checks new"
  "repo_checks (r\<lparr>ro_project_id := p\<rparr>) = repo_checks r"
  by (cases r; simp only: repo_checks_def repo_row.simps)+

lemma integrity_repos:
  "integrity d \<Longrightarrow> distinct (map ro_name R) \<Longrightarrow> \<forall>r \<in> set R. repo_checks r = None \<Longrightarrow> integrity (d\<lparr>db_repos := R\<rparr>)"
  by (simp add: integrity_def)

lemma repo_parts:
  "integrity d \<Longrightarrow> distinct (map ro_name (db_repos d))" "integrity d \<Longrightarrow> x \<in> set (db_repos d) \<Longrightarrow> repo_checks x = None"
  by (simp_all add: integrity_def)

lemma integrity_update_repos:
  assumes "integrity d" and "\<And>x. ro_name (f x) = ro_name x"
    and "\<And>x. x \<in> set (db_repos d) \<Longrightarrow> P x \<Longrightarrow> repo_checks x = None \<Longrightarrow> repo_checks (f x) = None"
  shows "integrity (d\<lparr>db_repos := update_where P f (db_repos d)\<rparr>)"
proof (rule integrity_repos [OF assms(1)])
  show "distinct (map ro_name (update_where P f (db_repos d)))"
    using repo_parts(1) [OF assms(1)] by (simp add: map_update_where assms(2))
  show "\<forall>x \<in> set (update_where P f (db_repos d)). repo_checks x = None"
    using repo_parts(2) [OF assms(1)] assms(3) by (auto simp: update_where_def)
qed

lemma launch_parts:
  "integrity d \<Longrightarrow> numbered lr_id (sq_launches (db_seq d)) (db_launches d)" "integrity d \<Longrightarrow> l \<in> set (db_launches d) \<Longrightarrow> launch_ok l"
  "integrity d \<Longrightarrow> m \<in> set (db_members d) \<Longrightarrow> member_ok (ticket_urls d) (lr_id ` set (db_launches d)) m"
  by (simp_all add: integrity_def)

lemma integrity_launches:
  assumes "integrity d" and "numbered lr_id n L" and "\<forall>l \<in> set L. launch_ok l"
    and "lr_id ` set (db_launches d) \<subseteq> lr_id ` set L"
  shows "integrity (d\<lparr>db_launches := L, db_seq := db_seq d\<lparr>sq_launches := n\<rparr>\<rparr>)"
proof -
  have "\<forall>m \<in> set (db_members d). member_ok (ticket_urls d) (lr_id ` set L) m"
    using launch_parts(3) [OF assms(1)] assms(4) by (auto simp: member_ok_def)
  with assms(1-3) show ?thesis by (simp add: integrity_def)
qed

lemma integrity_members:
  "integrity d \<Longrightarrow> \<forall>m \<in> set ms. member_ok (ticket_urls d) (lr_id ` set (db_launches d)) m
   \<Longrightarrow> integrity (d\<lparr>db_members := db_members d @ ms\<rparr>)"
  by (simp add: integrity_def ball_Un)

lemma run_parts:
  "integrity d \<Longrightarrow> numbered ru_id (sq_runs (db_seq d)) (db_runs d)" "integrity d \<Longrightarrow> x \<in> set (db_runs d) \<Longrightarrow> run_ok (ticket_urls d) x"
  by (simp_all add: integrity_def)

lemma integrity_add_run:
  assumes "integrity d" and "run_checks x d = None" and "ru_id x = sq_runs (db_seq d) + 1"
  shows "integrity (next_run d x)"
proof -
  have "run_ok (ticket_urls d) x" using assms(2)
    by (auto simp: run_checks_def run_ok_def ticket_fk_def has_ticket_urls split: if_splits option.splits)
  moreover have "numbered ru_id (ru_id x) (db_runs d @ [x])" using run_parts(1) [OF assms(1)] assms(3) by (simp add: numbered_snoc)
  ultimately show ?thesis using run_parts(2) [OF assms(1)] unfolding next_run_def by (intro integrity_runs assms(1)) auto
qed

interpretation sound: kept integrity
proof
  show "integrity d \<Longrightarrow> integrity (d\<lparr>db_meta := m\<rparr>)" for d m
    by (simp add: integrity_def)
  show "keeps integrity (q_upsert_tickets rows)" for rows
    unfolding q_upsert_tickets_def by (rule keeps_stmt, rule integrity_upsert [of seed_over]) (simp_all add: seed_over_def)
  show "keeps integrity (q_import_tickets rows)" for rows
    unfolding q_import_tickets_def by (rule keeps_stmt, rule integrity_upsert [of import_over]) simp_all
  show "keeps integrity (q_withdraw_tickets urls at)" for urls at
    unfolding q_withdraw_tickets_def by (rule keeps_writes, rule integrity_set_tickets) simp_all
  show "keeps integrity (q_withdraw_ticket url at)" for url at
    unfolding q_withdraw_ticket_def by (rule keeps_writes, rule integrity_set_tickets) simp_all
  show "keeps integrity (q_set_blocked_bys ups)" for ups
    unfolding q_set_blocked_bys_def by (rule keeps_writes, rule integrity_set_tickets) simp_all
  show "keeps integrity (q_edit_ticket url branch bs)" for url branch bs
    unfolding q_edit_ticket_def by (rule keeps_writes, rule integrity_set_tickets) simp_all
  show "keeps integrity (q_append_event at u k detail)" for at u k detail
    unfolding q_append_event_def by (rule keeps_stmt) (auto split: if_splits intro: integrity_event)
  show "keeps integrity (q_insert_launch_event at detail)" for at detail
    unfolding q_insert_launch_event_def
    by (rule keeps_writes) (auto intro!: integrity_event simp: all_event_kinds_def ticket_fk_def)
  show "keeps integrity (q_prune_consumed_intents before batch)" for before batch
    unfolding q_prune_consumed_intents_def Let_def
    by (rule keeps_writes) (auto simp: integrity_def numbered_delete dest: subsetD [OF set_delete_batch])
  show "keeps integrity (q_prune_tick_errors before batch)" for before batch
    unfolding q_prune_tick_errors_def Let_def
    by (rule keeps_writes) (auto simp: integrity_def numbered_delete dest: subsetD [OF set_delete_batch])
  show "keeps integrity (q_prune_readings before batch)" for before batch
    unfolding q_prune_readings_def Let_def by (rule keeps_writes) (simp add: integrity_def distinct_delete_batch)
  show "keeps integrity (q_prune_intervals before batch)" for before batch
    unfolding q_prune_intervals_def Let_def by (rule keeps_writes) (simp add: integrity_def distinct_delete_batch)
  show "keeps integrity (insert_intent at t verb p)" if "payload_ok verb p" for at t verb p
    unfolding insert_intent_def
    by (rule keeps_stmt) (use that in \<open>auto split: if_splits simp: add_intent_def intent_ok_def integrity_def
        intro!: integrity_intents numbered_snoc\<close>)
  show "keeps integrity (q_claim_launch_intents at)" for at
    unfolding q_claim_launch_intents_def by (rule keeps_writes) (simp add: integrity_update_intents)
  show "keeps integrity (q_consume_verb_intent i at)" for i at
    unfolding q_consume_verb_intent_def Let_def by (rule keeps_writes) (simp add: integrity_update_intents)
  show "keeps integrity (q_insert_launch at ctx model effort flow)" for at ctx model effort flow
    unfolding q_insert_launch_def Let_def
    by (rule keeps_stmt) (auto split: if_splits simp: launch_ok_def
        dest: launch_parts(1) launch_parts(2) [unfolded launch_ok_def] intro!: integrity_launches numbered_snoc)
  show "keeps integrity (q_insert_launch_members l ms)" for l ms
    unfolding q_insert_launch_members_def
    by (rule keeps_stmt) (force split: if_splits simp: member_ok_def has_ticket_urls intro!: integrity_members)
  show "keeps integrity (q_cancel_active_launches t)" for t
    unfolding q_cancel_active_launches_def Let_def
  proof (rule keeps_writes, unfold snd_conv)
    fix d assume I: "integrity d"
    let ?hit = "\<lambda>l. lr_id l \<in> set (active_launches_of d t)" and ?f = "\<lambda>l. l\<lparr>lr_state := ''cancelled''\<rparr>"
    have "numbered lr_id (sq_launches (db_seq d)) (update_where ?hit ?f (db_launches d))"
      using launch_parts(1) [OF I] by (simp add: numbered_update)
    moreover have "\<forall>l \<in> set (update_where ?hit ?f (db_launches d)). launch_ok l"
      by (rule ball_update_where) (auto simp: launch_ok_def dest: launch_parts(2) [OF I])
    ultimately show "integrity (d\<lparr>db_launches := update_where ?hit ?f (db_launches d)\<rparr>)"
      using integrity_launches [OF I, of "sq_launches (db_seq d)" "update_where ?hit ?f (db_launches d)"]
      by (simp add: image_update_where)
  qed
  show "keeps integrity (stmt (insert_run r))" for r
    unfolding insert_run_def Let_def by (rule keeps_stmt) (auto split: option.splits intro: integrity_add_run)
  show "keeps integrity (q_record_spawn n pgid started log)" for n pgid started log
    unfolding q_record_spawn_def by (rule keeps_writes, rule integrity_update_runs) (auto simp: run_ok_def)
  show "keeps integrity (q_record_disposition n out code at cost msg met)" for n out code at cost msg met
  proof -
    let ?hit = "\<lambda>r. ru_id r = n \<and> ru_outcome r = None"
    let ?f = "\<lambda>r. r\<lparr>ru_outcome := Some out, ru_exit_code := code, ru_ended_at := Some at, ru_cost_usd := cost,
        ru_last_message := msg, ru_metrics := met\<rparr>"
    show ?thesis
      unfolding q_record_disposition_def Let_def
    proof (rule keeps_stmt)
      fix d a d' assume I: "integrity d"
        and run: "(if (\<exists>r \<in> set (db_runs d). ?hit r) \<and> out \<notin> set (map outcome_text all_outcomes)
           then Inl (check_violation ''runs_outcome_check'') else Inr (set_runs ?hit ?f d)) = Inr (a, d')"
      show "integrity d'"
      proof (cases "\<exists>r \<in> set (db_runs d). ?hit r")
        case True
        with run have "out \<in> set (map outcome_text all_outcomes)" "d' = snd (set_runs ?hit ?f d)"
          by (auto split: if_splits)
        with integrity_update_runs [OF I, of ?f ?hit] show ?thesis by (auto simp: run_ok_def)
      next
        case False
        then have "update_where ?hit ?f (db_runs d) = db_runs d" by (rule update_where_none)
        with run False I show ?thesis by (auto simp: set_runs_def split: if_splits)
      qed
    qed
  qed
  show "keeps integrity (q_record_question n question)" for n question
    unfolding q_record_question_def by (rule keeps_writes, rule integrity_update_runs) (auto simp: run_ok_def)
  show "keeps integrity (q_record_push t tip base sha at)" for t tip base sha at
    unfolding q_record_push_def Let_def
    by (rule keeps_stmt) (auto split: if_splits simp: integrity_def ticket_urls_def has_ticket_def intro!: numbered_snoc)
  show "keeps integrity (q_upsert_repo rr)" for rr
    unfolding q_upsert_repo_def
    by (rule keeps_stmt) (auto split: option.splits if_splits dest: repo_parts intro!: integrity_repos integrity_update_repos)
  show "keeps integrity (q_set_repo_state name st rk ref src read_at)" for name st rk ref src read_at
    unfolding q_set_repo_state_def Let_def
    by (rule keeps_stmt) (auto split: list.splits simp: map_filter_def filter_empty_conv intro!: integrity_update_repos)
  show "keeps integrity (q_create_project name hue at)" for name hue at
    unfolding q_create_project_def Let_def
    by (rule keeps_stmt) (auto split: if_splits option.splits simp: integrity_def intro!: numbered_snoc)
  show "keeps integrity (q_set_repo_project_id name pid)" for name pid
    unfolding q_set_repo_project_id_def Let_def
    by (rule keeps_stmt) (auto split: if_splits intro!: integrity_update_repos)
  show "keeps integrity (q_edit_project old new hue)" for old new hue
    unfolding q_edit_project_def
    by (rule keeps_stmt) (auto split: option.splits if_splits simp: integrity_def numbered_update dest!: set_update_where)
  show "keeps integrity (q_delete_project name)" for name
    unfolding q_delete_project_def Let_def
    by (rule keeps_writes) (auto simp: integrity_def numbered_filter map_update_where dest!: set_update_where split: if_splits)
  show "keeps integrity (q_record_readings rrs)" for rrs
  proof -
    have "integrity d \<Longrightarrow> integrity (add_reading r d)" for r d
      by (auto simp: integrity_def add_reading_def Let_def)
    then have "integrity d \<Longrightarrow> integrity (fold add_reading rrs d)" for d by (induction rrs arbitrary: d) auto
    then show ?thesis unfolding q_record_readings_def by (intro keeps_writes) simp
  qed
  show "keeps integrity (q_record_intervals irs)" for irs
  proof -
    have "integrity d \<Longrightarrow> integrity (add_interval r d)" for r d
      by (auto simp: integrity_def add_interval_def Let_def)
    then have "integrity d \<Longrightarrow> integrity (fold add_interval irs d)" for d by (induction irs arbitrary: d) auto
    then show ?thesis unfolding q_record_intervals_def by (intro keeps_writes) simp
  qed
qed

lemma store_keeps_integrity':
  assumes "cn_db c = empty_db" and "reaches c c'"
  shows "integrity (cn_db c')"
  by (rule reaches_keeps [OF assms(2) sound.keeps_op]) (simp add: assms(1) integrity_empty)



end
