(* ===== verification/Store_Readable.thy ===== *)
theory Store_Readable imports Store_Integrity begin

text \<open>
  What a reading query answers on a connection that does not fail, and that the input of a derivation can
  be read back from every state the store can reach: no stored text is refused by its parser.
\<close>

subsection \<open>What a reading query answers\<close>

definition answers :: "db \<Rightarrow> 'a query \<Rightarrow> 'a \<Rightarrow> bool" where
  "answers d m a \<longleftrightarrow> (\<forall>c. cn_db c = d \<longrightarrow> cn_fault c = Map.empty \<longrightarrow> (\<exists>n. m c = (Inr a, c\<lparr>cn_clock := n\<rparr>)))"

named_theorems answering \<open>rules for what a reading query answers\<close>

lemma answers_ret [answering]: "answers d (ret a) a"
  unfolding answers_def by (metis ret_simp conn.surjective conn.update_convs(4))

lemma answers_reads [answering]: "answers d (reads f) (f d)"
  by (auto simp: answers_def reads_def stmt_def Let_def)

lemma answers_wrapping [answering]: "answers d m a \<Longrightarrow> answers d (wrapping s m) a"
  by (simp add: answers_def)

lemma answers_bind [answering]:
  assumes m: "answers d m a" and f: "answers d (f a) b"
  shows "answers d (and_then m f) b"
  unfolding answers_def
proof (intro allI impI)
  fix c :: conn assume c: "cn_db c = d" "cn_fault c = Map.empty"
  with m obtain n where 1: "m c = (Inr a, c\<lparr>cn_clock := n\<rparr>)" by (auto simp: answers_def)
  from f c obtain k where "f a (c\<lparr>cn_clock := n\<rparr>) = (Inr b, c\<lparr>cn_clock := n\<rparr>\<lparr>cn_clock := k\<rparr>)"
    unfolding answers_def by (metis conn.ext_inject conn.surjective conn.update_convs(4))
  with 1 show "\<exists>n. and_then m f c = (Inr b, c\<lparr>cn_clock := n\<rparr>)" by (auto simp: and_then_def)
qed

lemma answers_lift [answering]: "answers d (lift_sum (Inr a)) a"
  using answers_ret [of d a] by (simp add: answers_def lift_sum_def)

lemma answers_or_absent: "answers d (or_absent what (one_row f)) (f d)"
  by (auto simp: answers_def or_absent_def one_row_def stmt_def Let_def is_no_rows_def is_sentinel_def err_no_rows_def
      split: option.splits)

definition readable :: "db \<Rightarrow> 'a query \<Rightarrow> bool" where
  "readable d m \<longleftrightarrow> (\<exists>a. answers d m a)"

lemma readable_ret [answering]: "readable d (ret a)" and readable_reads [answering]: "readable d (reads f)"
  and readable_lift [answering]: "readable d (lift_sum (Inr a))"
  unfolding readable_def by (blast intro: answering)+

lemma readable_wrapping [answering]: "readable d m \<Longrightarrow> readable d (wrapping s m)"
  unfolding readable_def by (blast intro: answering)

lemma readable_bind [answering]:
  "readable d m \<Longrightarrow> (\<And>a. answers d m a \<Longrightarrow> readable d (f a)) \<Longrightarrow> readable d (and_then m f)"
  unfolding readable_def by (blast intro: answering)

lemma answers_unique: "answers d m a \<Longrightarrow> answers d m b \<Longrightarrow> a = b"
proof -
  assume "answers d m a" "answers d m b"
  moreover have "cn_db (calm d) = d" "cn_fault (calm d) = Map.empty" by (simp_all add: calm_def)
  ultimately show "a = b" unfolding answers_def by (metis Pair_inject sum.inject(2))
qed

lemma traverse_ok: "\<forall>x \<in> set xs. \<exists>y. f x = Inr y \<Longrightarrow> \<exists>ys. traverse f xs = Inr ys"
  by (induction xs) auto

lemma readable_traverse: "\<forall>x \<in> set xs. \<exists>y. f x = Inr y \<Longrightarrow> readable d (lift_sum (traverse f xs))"
  using traverse_ok [of xs f] by (auto intro: answering)

lemma parsed_member:
  "s \<in> set (map spell members) \<Longrightarrow> \<exists>v. parsed what (parse_member name spell members s) = Inr v"
  by (auto simp: parsed_def parse_member_def find_None_iff split: option.splits)

lemma parsed_kinds:
  "s \<in> set (map run_kind_text all_run_kinds) \<Longrightarrow> \<exists>v. parsed what (parse_run_kind s) = Inr v"
  "s \<in> set (map outcome_text all_outcomes) \<Longrightarrow> \<exists>v. parsed what (parse_outcome s) = Inr v"
  "s \<in> set (map event_kind_text all_event_kinds) \<Longrightarrow> \<exists>v. parsed what (parse_event_kind s) = Inr v"
  "s \<in> set (map repo_phase_text all_repo_phases) \<Longrightarrow> \<exists>v. parsed what (parse_repo_phase s) = Inr v"
  "s \<in> set (map refusal_kind_text all_refusal_kinds) \<Longrightarrow> \<exists>v. parsed what (parse_refusal_kind s) = Inr v"
  unfolding parse_run_kind_def parse_outcome_def parse_event_kind_def parse_repo_phase_def parse_refusal_kind_def
  by (rule parsed_member; assumption)+

lemma outcome_readable: "run_ok U r \<Longrightarrow> \<exists>v. outcome_column r = Inr v"
  using parsed_kinds(2) [of "the (ru_outcome r)" "''read outcome of run '' @ itoa (ru_id r)"]
  by (auto simp: outcome_column_def run_ok_def split: option.splits)

lemma kind_readable: "run_ok U r \<Longrightarrow> \<exists>v. kind_column r = Inr v"
  unfolding kind_column_def run_ok_def by (intro parsed_kinds) blast

lemma latest_row_in: "latest_row rid rows = Some r \<Longrightarrow> r \<in> set rows"
proof -
  have "fold (\<lambda>r best. case best of None \<Rightarrow> Some r | Some b \<Rightarrow> if rid r > rid b then Some r else best) rows acc = Some r
      \<Longrightarrow> r \<in> set rows \<or> acc = Some r" for acc
    by (induction rows arbitrary: acc) (auto split: option.splits if_splits)
  from this [of None] show "latest_row rid rows = Some r \<Longrightarrow> r \<in> set rows" by (simp add: latest_row_def)
qed

lemma in_map_filter: "y \<in> set (List.map_filter f xs) \<longleftrightarrow> (\<exists>x \<in> set xs. f x = Some y)"
  by (force simp: List.map_filter_def)

lemma set_distinct_on: "r \<in> set (distinct_on key rid rows) \<Longrightarrow> r \<in> set rows"
  by (auto simp: distinct_on_def in_map_filter dest!: latest_row_in)

lemma set_events_since_push: "e \<in> set (events_since_push d kinds) \<Longrightarrow> e \<in> set (db_events d)"
  by (auto simp: events_since_push_def dest: set_distinct_on)

lemma readable_runs:
  assumes "integrity d"
  shows "readable d latest_runs_by_ticket" and "readable d pass_runs"
proof -
  have ok: "\<forall>r \<in> set (db_runs d). run_ok (ticket_urls d) r" using assms by (simp add: integrity_def)
  have "\<exists>y. run_summary_of r = Inr y" "\<exists>y. pass_run_of r = Inr y" if r: "r \<in> set (db_runs d)" for r
    using outcome_readable [of "ticket_urls d" r] kind_readable [of "ticket_urls d" r] ok r
    by (auto simp: run_summary_of_def pass_run_of_def)
  then show "readable d latest_runs_by_ticket" and "readable d pass_runs"
    unfolding latest_runs_by_ticket_def q_list_latest_runs_by_ticket_def pass_runs_def q_list_pass_runs_def
    by (auto intro!: answering readable_traverse dest!: answers_unique [OF answers_wrapping [OF answers_reads]]
        dest!: set_distinct_on)
qed

lemma readable_event_facts:
  assumes "integrity d"
  shows "readable d push_facts" and "readable d latest_refresh_outcomes"
proof -
  have "\<exists>y. event_kind_column e = Inr y" if "e \<in> set (db_events d)" for e
    using parsed_kinds(3) [of "ev_kind e" "''read events.kind for '' @ event_ticket e"] assms that
    by (auto simp: event_kind_column_def integrity_def event_ok_def)
  then show "readable d push_facts" and "readable d latest_refresh_outcomes"
    unfolding push_facts_def q_list_push_facts_def latest_refresh_outcomes_def q_list_latest_refresh_outcomes_def
    by (auto intro!: answering readable_traverse dest!: answers_unique [OF answers_wrapping [OF answers_reads]]
        set_events_since_push)
qed

lemma readable_intents:
  assumes "integrity d"
  shows "readable d (pending_intents json)"
proof -
  have one: "readable d (pending_verb_intents json v)" if v: "v \<in> set all_verbs" for v
  proof -
    have "\<exists>y. verb_intent_of json v i = Inr y" if i: "i \<in> set (db_intents d)" "iw_verb i = verb_text v" for i
    proof -
      have "verb_text v \<noteq> ''edit_ticket''" "verb_text v = ''launch'' \<longrightarrow> v = VerbLaunch" by (cases v; simp)+
      moreover from assms i have "payload_ok (verb_text v) (iw_payload i)" by (auto simp: integrity_def intent_ok_def)
      ultimately show ?thesis by (auto simp: verb_intent_of_def payload_ok_def split: payload.splits)
    qed
    then show ?thesis
      unfolding pending_verb_intents_def q_pending_verb_intents_def
      by (auto intro!: answering readable_traverse dest!: answers_unique [OF answers_wrapping [OF answers_reads]] simp: pending_of_def)
  qed
  have "set vs \<subseteq> set all_verbs \<Longrightarrow> readable d (pending_by_ticket json vs m)" for vs m
    by (induction vs arbitrary: m) (auto intro: answering one)
  then show ?thesis unfolding pending_intents_def by (auto intro: answering)
qed

lemma readable_repos:
  assumes "integrity d"
  shows "readable d repos"
proof -
  have "\<exists>y. repo_of_row (r, p) = Inr y" if "r \<in> set (db_repos d)" for r p
  proof -
    from assms that have none: "repo_checks r = None" by (simp add: integrity_def)
    then have "ro_state r \<in> set (map repo_phase_text all_repo_phases)"
      "case ro_refusal_kind r of None \<Rightarrow> True | Some k \<Rightarrow> k \<in> set (map refusal_kind_text all_refusal_kinds)"
      unfolding repo_checks_def by (auto split: if_splits option.splits)
    with parsed_kinds(4) [of "ro_state r" "''read repos.state of '' @ ro_name r"]
      parsed_kinds(5) [of "the (ro_refusal_kind r)" "''read repos.refusal_kind of '' @ ro_name r"]
    show ?thesis by (auto simp: repo_of_row_def split: option.splits)
  qed
  then show ?thesis
    unfolding repos_def q_list_repos_def
    by (auto intro!: answering readable_traverse dest!: answers_unique [OF answers_wrapping [OF answers_reads]])
qed

lemma readable_meta: "readable d (get_meta n key)"
  unfolding get_meta_def q_get_meta_def readable_def by (blast intro: answers_or_absent)

lemma some_clock: "\<exists>n. c = c\<lparr>cn_clock := n\<rparr>"
  by (rule exI [of _ "cn_clock c"]) simp

lemma clock_db: "cn_db c = d \<Longrightarrow> c\<lparr>cn_clock := n, cn_db := d\<rparr> = c\<lparr>cn_clock := n\<rparr>"
  by auto

lemma answers_session: "answers d (session_for runs url)
    (if has_key runs url then
       (case latest_row ru_id (filter (\<lambda>r. ru_ticket_id r = Some url \<and> session_kind r \<and> ru_session_id r \<noteq> None) (db_runs d)) of
          None \<Rightarrow> None | Some r \<Rightarrow> ru_session_id r)
     else None)"
  by (auto simp: answers_def session_for_def latest_session_id_def or_not_found_def q_latest_session_id_def
      one_row_def stmt_def Let_def is_no_rows_def is_not_found_def is_sentinel_def err_no_rows_def err_not_found_def
      clock_db some_clock split: option.splits)

lemma readable_session: "readable d (session_for runs url)"
  unfolding readable_def using answers_session by blast

lemma readable_tickets: "readable d (read_tickets runs ts sessions recs)"
  by (induction ts arbitrary: sessions recs)
    (auto intro!: answering readable_session simp: has_event_def q_has_event_def)

lemmas reading_input = tickets_def q_list_tickets_def last_observation_def launch_memberships_def
  q_list_launch_memberships_def refresh_facts_def repo_statuses_def restacked_since_last_push_def
  q_restacked_since_last_push_def last_verdicts_def removal_refusals_def q_list_latest_removal_refusals_def
  verdict_facts_of_def latest_pushes_def q_list_latest_pushes_def checking_ticks_def latest_readings_def
  latest_readings_full_def q_latest_readings_full_def

lemma readable_plan_input:
  assumes "integrity d"
  shows "readable d (plan_input json pct)"
  unfolding plan_input_def reading_input Let_def
  by (auto intro!: answering readable_runs readable_event_facts readable_intents readable_repos readable_meta readable_tickets
      assms split: prod.splits)

text \<open>C20: In every state the store can reach from empty tables, reading the input of a derivation succeeds on a
  connection that does not fail, and changes no table: no stored text is refused by its parser.
\<close>

theorem stored_input_reads:
  assumes "cn_db c = empty_db" and "reaches c c'" and "cn_db live = cn_db c'" and "cn_fault live = Map.empty"
  shows "\<exists>i after. plan_input json pct live = (Inr i, after) \<and> cn_db after = cn_db c'"
proof -
  have "readable (cn_db c') (plan_input json pct)" by (rule readable_plan_input [OF store_keeps_integrity' [OF assms(1,2)]])
  then obtain i where "answers (cn_db c') (plan_input json pct) i" by (auto simp: readable_def)
  with assms(3,4) obtain n where "plan_input json pct live = (Inr i, live\<lparr>cn_clock := n\<rparr>)" by (auto simp: answers_def)
  with assms(3) show ?thesis by auto
qed

theorem stored_input_reads_witness:
  "\<exists>i after. plan_input (\<lambda>_. []) (\<lambda>_. 0) (calm empty_db) = (Inr i, after) \<and> cn_db after = empty_db"
  using stored_input_reads [OF _ reaches.here, of "calm empty_db" "calm empty_db" "\<lambda>_. []" "\<lambda>_. 0"]
  by (simp add: calm_def)

end
