(* ===== verification/Agent_Log.thy ===== *)
theory Agent_Log imports Database begin

text \<open>
  The log of an agent: \<open>internal/plan/agentlog/{usage,metrics,readings,transcripts,weight}.go\<close> and the line
  reader of \<open>parse.go\<close>, and the weighing of spending in \<open>internal/plan/spend/{interval,weigh}.go\<close>.

  The file system is the record \<open>files\<close> of the functions of \<open>os\<close> the code calls; \<open>encoding/json\<close> is the
  parameter \<open>decode\<close>, which answers for a line the record of \<open>logLine\<close> or that it is not JSON. A float is its
  IEEE 754 bit pattern; comparing floats is defined on the patterns, adding and multiplying them are the
  record \<open>arithmetic\<close> of the machine's operations.
\<close>

subsection \<open>Files\<close>

record 'w files =
  fi_open :: "string \<Rightarrow> ('w, unit) io"
  fi_read_all :: "string \<Rightarrow> ('w, string) io"
  fi_close :: "string \<Rightarrow> ('w, unit) io"
  fi_size :: "string \<Rightarrow> ('w, int) io"
  fi_read_at :: "string \<Rightarrow> nat \<Rightarrow> int \<Rightarrow> ('w, string) io"
  fi_read_file :: "string \<Rightarrow> ('w, string) io"
  fi_write_file :: "string \<Rightarrow> string \<Rightarrow> ('w, unit) io"
  fi_create :: "string \<Rightarrow> ('w, unit) io"
  fi_remove :: "string \<Rightarrow> ('w, unit) io"
  fi_stat :: "string \<Rightarrow> ('w, unit) io"
  fi_read_dir :: "string \<Rightarrow> ('w, string list) io"
  fi_walk :: "string \<Rightarrow> 'w \<Rightarrow> (string \<times> io_error option \<times> bool) list \<times> 'w"

text \<open>A deferred \<open>Close\<close> whose error is joined to that of the body.\<close>

definition and_close :: "'w files \<Rightarrow> string \<Rightarrow> string \<Rightarrow> ('w, 'a) io \<Rightarrow> ('w, 'a) io" where
  "and_close F path what body w =
     (case body w of (r, w1) \<Rightarrow>
        (case fi_close F path w1 of
           (Inr _, w2) \<Rightarrow> (r, w2)
         | (Inl e, w2) \<Rightarrow>
             (Inl (case r of Inl e0 \<Rightarrow> Joined e0 (Wrapped what e) | Inr _ \<Rightarrow> Wrapped what e), w2)))"

subsection \<open>Floats\<close>

definition float_nan :: "float64 \<Rightarrow> bool" where
  "float_nan x \<longleftrightarrow> (float_bits x mod 2 ^ 63) > 0x7FF0000000000000"

definition float_key :: "float64 \<Rightarrow> int" where
  "float_key x = (if float_bits x < 2 ^ 63 then float_bits x else - (float_bits x - 2 ^ 63))"

definition float_le :: "float64 \<Rightarrow> float64 \<Rightarrow> bool" where
  "float_le a b \<longleftrightarrow> \<not> float_nan a \<and> \<not> float_nan b \<and> float_key a \<le> float_key b"

definition float_zero :: float64 where "float_zero = Float64 0"

definition float_eq :: "float64 \<Rightarrow> float64 \<Rightarrow> bool" where
  "float_eq a b \<longleftrightarrow> float_le a b \<and> float_le b a"

definition float_abs :: "float64 \<Rightarrow> float64" where
  "float_abs x = Float64 (float_bits x mod 2 ^ 63)"

record arithmetic =
  ar_add :: "float64 \<Rightarrow> float64 \<Rightarrow> float64"
  ar_sub :: "float64 \<Rightarrow> float64 \<Rightarrow> float64"
  ar_mul :: "float64 \<Rightarrow> float64 \<Rightarrow> float64"
  ar_div :: "float64 \<Rightarrow> float64 \<Rightarrow> float64"
  ar_sqrt :: "float64 \<Rightarrow> float64"
  ar_of_int :: "int \<Rightarrow> float64"
  ar_truncate :: "float64 \<Rightarrow> int"
  ar_literal :: "string \<Rightarrow> float64"

subsection \<open>\<open>parse.go\<close>: lines\<close>

record usage =
  ug_input :: int
  ug_cache_create :: int
  ug_cache_read :: int
  ug_output :: int

record content_block =
  cb_type :: string
  cb_id :: string
  cb_tool_use_id :: string
  cb_name :: string
  cb_text :: string
  cb_input :: string
  cb_content :: string
  cb_is_error :: bool

record log_line =
  lg_type :: string
  lg_timestamp :: time
  lg_request_id :: string
  lg_parent_tool_use_id :: string
  lg_model :: string
  lg_content :: "content_block list"
  lg_message_usage :: usage
  lg_tool_use_result :: string
  lg_subtype :: string
  lg_result_text :: string
  lg_duration_ms :: int
  lg_num_turns :: int
  lg_cost_usd :: "float64 option"
  lg_usage :: usage
  lg_rate_limits :: "(string, float64 \<times> int) gomap option"

type_synonym line_decoder = "string \<Rightarrow> log_line option"

text \<open>\<open>eachLine\<close> hands on the lines that end with a newline; a last line without one is left.\<close>

fun complete_lines_from :: "string \<Rightarrow> string \<Rightarrow> string list" where
  "complete_lines_from line [] = []"
| "complete_lines_from line (c # s) =
     (if c = newline then (line @ [c]) # complete_lines_from [] s else complete_lines_from (line @ [c]) s)"

definition complete_lines :: "string \<Rightarrow> string list" where
  "complete_lines s = complete_lines_from [] s"

text \<open>The lines a log decodes to, each with the time of the last line that had one.\<close>

fun stamped_lines :: "line_decoder \<Rightarrow> time \<Rightarrow> string list \<Rightarrow> (log_line \<times> time) list" where
  "stamped_lines decode last_at [] = []"
| "stamped_lines decode last_at (line # lines) =
     (case decode line of
        None \<Rightarrow> stamped_lines decode last_at lines
      | Some l \<Rightarrow>
          let at = (if lg_timestamp l \<noteq> 0 then lg_timestamp l else last_at)
          in (l, at) # stamped_lines decode at lines)"

definition for_each_line :: "line_decoder \<Rightarrow> 'w files \<Rightarrow> string \<Rightarrow> ('w, (log_line \<times> time) list) io" where
  "for_each_line decode F path =
     and_then (wrapping (''open agent log '' @ path) (fi_open F path)) (\<lambda>_.
     and_close F path (''close agent log '' @ path)
       (and_then (wrapping (''read agent log '' @ path) (wrapping ''read log line'' (fi_read_all F path)))
          (\<lambda>text. ret (stamped_lines decode 0 (complete_lines text)))))"

subsection \<open>\<open>usage.go\<close>\<close>

record request_usage =
  us_at :: time
  us_model :: string
  us_input :: int
  us_output :: int
  us_cache_read :: int
  us_cache_create :: int
  us_cost_usd :: "float64 option"

definition request_usage_of :: "string \<Rightarrow> time \<Rightarrow> usage \<Rightarrow> request_usage" where
  "request_usage_of model at u = \<lparr>us_at = at, us_model = model, us_input = ug_input u, us_output = ug_output u,
     us_cache_read = ug_cache_read u, us_cache_create = ug_cache_create u, us_cost_usd = None\<rparr>"

record request_reader =
  re_seen :: "(string, nat) gomap"
  re_requests :: "request_usage list"

definition new_request_reader :: request_reader where
  "new_request_reader = \<lparr>re_seen = [], re_requests = []\<rparr>"

text \<open>The index of the request of a line, whether it is new, and the reader after it.\<close>

definition reader_add :: "log_line \<Rightarrow> request_reader \<Rightarrow> (nat \<times> bool) \<times> request_reader" where
  "reader_add l r =
     (if lg_type l \<noteq> ''assistant'' \<or> lg_request_id l = [] then ((0, False), r)
      else case map_of (re_seen r) (lg_request_id l) of
        Some i \<Rightarrow> ((i, False), r)
      | None \<Rightarrow>
          ((length (re_requests r), True),
           r\<lparr>re_seen := put (lg_request_id l) (length (re_requests r)) (re_seen r),
             re_requests := re_requests r @ [request_usage_of (lg_model l) (lg_timestamp l) (lg_message_usage l)]\<rparr>))"

definition settled_usage :: "string \<Rightarrow> log_line \<Rightarrow> time \<Rightarrow> request_usage" where
  "settled_usage model l at =
     (let u = request_usage_of model at (lg_usage l)
      in case lg_cost_usd l of None \<Rightarrow> u | Some c \<Rightarrow> u\<lparr>us_cost_usd := Some c\<rparr>)"

definition line_model :: "log_line \<Rightarrow> string \<Rightarrow> string" where
  "line_model l model = (if lg_model l \<noteq> [] then lg_model l else model)"

fun usage_loop ::
  "(log_line \<times> time) list \<Rightarrow> string \<Rightarrow> request_reader \<Rightarrow> request_usage option \<Rightarrow> request_usage list \<times> request_usage option" where
  "usage_loop [] model reader settled = (re_requests reader, settled)"
| "usage_loop ((l, at) # ls) model reader settled =
     (let model = line_model l model
      in if lg_type l = ''result'' then usage_loop ls model reader (Some (settled_usage model l at))
         else usage_loop ls model (snd (reader_add l reader)) settled)"

definition parse_transcript_usage :: "line_decoder \<Rightarrow> 'w files \<Rightarrow> string \<Rightarrow> ('w, request_usage list) io" where
  "parse_transcript_usage decode F path =
     and_then (wrapping ''parse transcript usage'' (for_each_line decode F path)) (\<lambda>ls.
     case usage_loop ls [] new_request_reader None of
       (_, Some s) \<Rightarrow> ret [s]
     | (requests, None) \<Rightarrow> ret requests)"

subsection \<open>\<open>metrics.go\<close>\<close>

record run_metrics =
  rx_cost_usd :: "float64 option"
  rx_requests :: "request_usage list"
  rx_wall :: "duration option"
  rx_turns :: int
  rx_input :: int
  rx_cache_write :: int
  rx_cache_read :: int
  rx_output :: int
  rx_tools :: "(string, int) gomap"

definition no_metrics :: run_metrics where
  "no_metrics = \<lparr>rx_cost_usd = None, rx_requests = [], rx_wall = None, rx_turns = 0, rx_input = 0, rx_cache_write = 0,
     rx_cache_read = 0, rx_output = 0, rx_tools = []\<rparr>"

definition millisecond :: duration where "millisecond = 1000000"

definition parse_last_message :: "line_decoder \<Rightarrow> 'w files \<Rightarrow> string \<Rightarrow> ('w, string option) io" where
  "parse_last_message decode F path =
     and_then (wrapping ''parse last message'' (for_each_line decode F path)) (\<lambda>ls.
     ret (fold (\<lambda>(l, at) latest. if lg_type l = ''result'' \<and> lg_result_text l \<noteq> [] then Some (lg_result_text l) else latest)
       ls None))"

definition count_tool :: "content_block \<Rightarrow> (string, int) gomap \<Rightarrow> (string, int) gomap" where
  "count_tool b m = (if cb_type b \<noteq> ''tool_use'' then m else put (cb_name b) (get_or 0 m (cb_name b) + 1) m)"

fun metrics_loop ::
  "(log_line \<times> time) list \<Rightarrow> string \<Rightarrow> request_reader \<Rightarrow> request_usage option \<Rightarrow> run_metrics
     \<Rightarrow> request_reader \<times> request_usage option \<times> run_metrics" where
  "metrics_loop [] model reader settled m = (reader, settled, m)"
| "metrics_loop ((l, at) # ls) model reader settled m =
     (let model = line_model l model
      in if lg_type l = ''result'' then
           metrics_loop ls model reader (Some (settled_usage model l at))
             (m\<lparr>rx_wall := Some (lg_duration_ms l * millisecond)\<rparr>)
         else
           let ((i, added), reader) = reader_add l reader;
               m = (if added \<and> lg_parent_tool_use_id l = [] then m\<lparr>rx_turns := rx_turns m + 1\<rparr> else m)
           in metrics_loop ls model reader settled
                (if lg_type l \<noteq> ''assistant'' then m
                 else m\<lparr>rx_tools := fold count_tool (lg_content l) (rx_tools m)\<rparr>))"

definition add_request :: "request_usage \<Rightarrow> run_metrics \<Rightarrow> run_metrics" where
  "add_request r m = m\<lparr>rx_input := rx_input m + us_input r, rx_cache_write := rx_cache_write m + us_cache_create r,
     rx_cache_read := rx_cache_read m + us_cache_read r, rx_output := rx_output m + us_output r\<rparr>"

definition total_metrics :: "request_reader \<times> request_usage option \<times> run_metrics \<Rightarrow> run_metrics" where
  "total_metrics = (\<lambda>(reader, settled, m).
     let m = m\<lparr>rx_requests := re_requests reader\<rparr>
     in case settled of
          None \<Rightarrow> fold add_request (re_requests reader) m
        | Some s \<Rightarrow> add_request s (m\<lparr>rx_cost_usd := us_cost_usd s\<rparr>))"

definition err_no_parseable_lines :: io_error where
  "err_no_parseable_lines = Sentinel ''no parseable lines''"

definition parse_metrics :: "line_decoder \<Rightarrow> 'w files \<Rightarrow> string \<Rightarrow> ('w, run_metrics) io" where
  "parse_metrics decode F path =
     and_then (wrapping ''parse run metrics'' (for_each_line decode F path)) (\<lambda>ls.
     if ls = [] then fail_with (Wrapped (''agent log '' @ path) err_no_parseable_lines)
     else ret (total_metrics (metrics_loop ls [] new_request_reader None no_metrics)))"

subsection \<open>\<open>readings.go\<close>\<close>

definition five_hour :: string where "five_hour = ''five_hour''"
definition seven_day :: string where "seven_day = ''seven_day''"

record reading =
  rd_window :: string
  rd_utilization :: float64
  rd_resets_at :: time
  rd_at :: time

text \<open>\<open>time.Unix(n, 0)\<close>: the Unix epoch lies 62135596800 seconds after Go's zero time.\<close>

definition unix_time :: "int \<Rightarrow> time" where
  "unix_time n = (62135596800 + n) * second"

definition line_readings :: "log_line \<times> time \<Rightarrow> reading list" where
  "line_readings = (\<lambda>(l, at). case lg_rate_limits l of
     None \<Rightarrow> []
   | Some windows \<Rightarrow> map (\<lambda>(window, utilization, resets).
       \<lparr>rd_window = window, rd_utilization = utilization, rd_resets_at = unix_time resets, rd_at = at\<rparr>) windows)"

definition compare_readings :: "reading \<Rightarrow> reading \<Rightarrow> int" where
  "compare_readings a b =
     (if rd_window a \<noteq> rd_window b then str_compare (rd_window a) (rd_window b) else int_compare (rd_at a) (rd_at b))"

definition parse_readings :: "line_decoder \<Rightarrow> 'w files \<Rightarrow> string \<Rightarrow> ('w, reading list) io" where
  "parse_readings decode F path =
     and_then (wrapping ''parse rate limit readings'' (for_each_line decode F path))
       (\<lambda>ls. ret (sort_func compare_readings (concat (map line_readings ls))))"

subsection \<open>\<open>transcripts.go\<close>\<close>

text \<open>The callback of \<open>filepath.WalkDir\<close> on the visits of a walk.\<close>

fun load_visits ::
  "line_decoder \<Rightarrow> 'w files \<Rightarrow> (string \<times> io_error option \<times> bool) list \<Rightarrow> request_usage list
     \<Rightarrow> ('w, request_usage list) io" where
  "load_visits decode F [] requests w = (Inr requests, w)"
| "load_visits decode F ((path, e, is_dir) # visits) requests w =
     (case e of
        Some err \<Rightarrow>
          if is_not_exist err then load_visits decode F visits requests w
          else (Inl (Wrapped (''walk '' @ path) err), w)
      | None \<Rightarrow>
          if is_dir \<or> \<not> has_suffix path ''.jsonl'' then load_visits decode F visits requests w
          else (case parse_transcript_usage decode F path w of
                  (Inl err, w') \<Rightarrow>
                    if is_not_exist err then load_visits decode F visits requests w'
                    else (Inl (Wrapped (''parse transcript '' @ path) err), w')
                | (Inr found, w') \<Rightarrow> load_visits decode F visits (requests @ found) w'))"

definition load_requests :: "line_decoder \<Rightarrow> 'w files \<Rightarrow> string \<Rightarrow> ('w, request_usage list) io" where
  "load_requests decode F dir w =
     (case fi_walk F dir w of (visits, w') \<Rightarrow>
        wrapping ''load transcript requests'' (load_visits decode F visits []) w')"

subsection \<open>\<open>weight.go\<close>\<close>

record price =
  pc_input :: string
  pc_output :: string
  pc_cache_read :: string
  pc_cache_create :: string

text \<open>The literals of the price table, and the table in one order of its map.\<close>

definition prices :: "(string, price) gomap" where
  "prices = [
     (''sonnet'', \<lparr>pc_input = ''6.40e-6'', pc_output = ''32.00e-6'', pc_cache_read = ''0.64e-6'', pc_cache_create = ''12.80e-6''\<rparr>),
     (''opus'', \<lparr>pc_input = ''19.20e-6'', pc_output = ''96.00e-6'', pc_cache_read = ''1.92e-6'', pc_cache_create = ''38.40e-6''\<rparr>),
     (''haiku'', \<lparr>pc_input = ''1.28e-6'', pc_output = ''6.40e-6'', pc_cache_read = ''0.128e-6'', pc_cache_create = ''2.56e-6''\<rparr>)]"

definition default_tier :: string where "default_tier = ''sonnet''"

definition price_for :: "string \<Rightarrow> price" where
  "price_for model =
     (case find (\<lambda>(tier, p). str_contains model tier) prices of
        Some (tier, p) \<Rightarrow> p
      | None \<Rightarrow> get_or \<lparr>pc_input = [], pc_output = [], pc_cache_read = [], pc_cache_create = []\<rparr> prices default_tier)"

definition usage_weight :: "arithmetic \<Rightarrow> request_usage \<Rightarrow> float64" where
  "usage_weight A u =
     (let p = price_for (us_model u); term = (\<lambda>n lit. ar_mul A (ar_of_int A n) (ar_literal A lit))
      in ar_add A (ar_add A (ar_add A (term (us_input u) (pc_input p)) (term (us_output u) (pc_output p)))
           (term (us_cache_read u) (pc_cache_read p))) (term (us_cache_create u) (pc_cache_create p)))"

end
