(* ===== verification/Spend.thy ===== *)
theory Spend imports Agent_Log begin

text \<open>
  How spending is measured: \<open>internal/plan/spend/{interval,weigh,fit,share}.go\<close>. Between two readings of
  one rate-limit window lies an interval whose cost is the weight of the requests in it; a fit of
  utilisation against weight gives the share of the program's own runs.
\<close>

subsection \<open>\<open>interval.go\<close> and \<open>weigh.go\<close>\<close>

record spend_interval =
  sv_window :: string
  sv_start :: time
  sv_end :: time
  sv_utilization_start :: float64
  sv_utilization_end :: float64
  sv_weight_usd :: float64

type_synonym weigher = "time \<Rightarrow> time \<Rightarrow> io_error + float64"

fun intervals_loop ::
  "weigher \<Rightarrow> reading list \<Rightarrow> (string, reading) gomap \<Rightarrow> spend_interval list
     \<Rightarrow> io_error + spend_interval list \<times> (string, reading) gomap" where
  "intervals_loop weigh [] latest out = Inr (out, latest)"
| "intervals_loop weigh (r # rs) latest out =
     (case map_of latest (rd_window r) of
        None \<Rightarrow> intervals_loop weigh rs (put (rd_window r) r latest) out
      | Some prev \<Rightarrow>
          if rd_at r \<le> rd_at prev then intervals_loop weigh rs latest out
          else if float_le (rd_utilization prev) (rd_utilization r) then
            (case weigh (rd_at prev) (rd_at r) of
               Inl e \<Rightarrow> Inl (Wrapped (''weigh '' @ rd_window r @ '' interval'') e)
             | Inr weight \<Rightarrow>
                 intervals_loop weigh rs (put (rd_window r) r latest)
                   (out @ [\<lparr>sv_window = rd_window r, sv_start = rd_at prev, sv_end = rd_at r,
                            sv_utilization_start = rd_utilization prev, sv_utilization_end = rd_utilization r,
                            sv_weight_usd = weight\<rparr>]))
          else intervals_loop weigh rs (put (rd_window r) r latest) out)"

definition spend_intervals ::
  "weigher \<Rightarrow> reading list \<Rightarrow> (string, reading) gomap \<Rightarrow> io_error + spend_interval list \<times> (string, reading) gomap" where
  "spend_intervals weigh readings previous =
     intervals_loop weigh (sort_func (\<lambda>a b. int_compare (rd_at a) (rd_at b)) readings) (copy_into [] previous) []"

definition request_weight :: "arithmetic \<Rightarrow> request_usage \<Rightarrow> float64" where
  "request_weight A r = (case us_cost_usd r of Some c \<Rightarrow> c | None \<Rightarrow> usage_weight A r)"

definition sum_weight :: "arithmetic \<Rightarrow> request_usage list \<Rightarrow> time \<Rightarrow> time \<Rightarrow> float64" where
  "sum_weight A requests start end_at =
     fold (\<lambda>r total. if us_at r < start \<or> \<not> us_at r < end_at then total else ar_add A total (request_weight A r))
       requests float_zero"

subsection \<open>\<open>fit.go\<close>\<close>

definition min_samples :: nat where "min_samples = 5"
definition trailing_window :: duration where "trailing_window = 7 * 24 * 3600 * second"
definition outlier_z :: string where "outlier_z = ''2.5''"

definition utilization_gain :: "arithmetic \<Rightarrow> spend_interval \<Rightarrow> float64" where
  "utilization_gain A s = ar_sub A (sv_utilization_end s) (sv_utilization_start s)"

definition least_squares :: "arithmetic \<Rightarrow> spend_interval list \<Rightarrow> float64 option" where
  "least_squares A samples =
     (let (num, den) = fold (\<lambda>s (num, den).
            let x = sv_weight_usd s; y = utilization_gain A s
            in (ar_add A num (ar_mul A x y), ar_add A den (ar_mul A x x))) samples (float_zero, float_zero)
      in if float_eq den float_zero then None else Some (ar_div A num den))"

definition residual :: "arithmetic \<Rightarrow> spend_interval \<Rightarrow> float64 \<Rightarrow> float64" where
  "residual A s factor = ar_sub A (utilization_gain A s) (ar_mul A factor (sv_weight_usd s))"

definition fit_one :: "arithmetic \<Rightarrow> spend_interval list \<Rightarrow> float64 option" where
  "fit_one A samples =
     (case least_squares A samples of
        None \<Rightarrow> None
      | Some factor \<Rightarrow>
          let sum_sq = fold (\<lambda>s total. let r = residual A s factor in ar_add A total (ar_mul A r r)) samples float_zero;
              stddev = ar_sqrt A (ar_div A sum_sq (ar_of_int A (int (length samples))))
          in if float_eq stddev float_zero then Some factor
             else
               let kept = filter (\<lambda>s. float_le (float_abs (residual A s factor)) (ar_mul A (ar_literal A outlier_z) stddev)) samples
               in case least_squares A kept of Some refit \<Rightarrow> Some refit | None \<Rightarrow> Some factor)"

record fit_result =
  fr_factor :: float64
  fr_samples :: nat

definition fit_groups :: "spend_interval list \<Rightarrow> time \<Rightarrow> (string, spend_interval list) gomap" where
  "fit_groups samples now =
     fold (\<lambda>s m. if sv_end s < now - trailing_window then m
                  else put (sv_window s) (get_or [] m (sv_window s) @ [s]) m) samples []"

definition spend_fit :: "arithmetic \<Rightarrow> spend_interval list \<Rightarrow> time \<Rightarrow> (string, fit_result) gomap" where
  "spend_fit A samples now =
     fold (\<lambda>(window, group) m. case fit_one A group of
             None \<Rightarrow> m | Some factor \<Rightarrow> put window \<lparr>fr_factor = factor, fr_samples = length group\<rparr> m)
       (fit_groups samples now) []"

subsection \<open>\<open>share.go\<close>\<close>

definition spend_pct :: "arithmetic \<Rightarrow> float64 \<Rightarrow> int" where
  "spend_pct A utilization =
     ar_truncate A (ar_add A (ar_mul A utilization (ar_of_int A 100)) (ar_literal A ''0.5''))"

definition spend_share :: "arithmetic \<Rightarrow> int \<Rightarrow> fit_result \<Rightarrow> float64 \<Rightarrow> int \<times> bool" where
  "spend_share A total_pct fit cc_usd =
     (if fr_samples fit < min_samples then (0, True)
      else (max 0 (min (spend_pct A (ar_mul A cc_usd (fr_factor fit))) total_pct), False))"

definition pct_week :: "arithmetic \<Rightarrow> float64 \<Rightarrow> float64 \<Rightarrow> float64" where
  "pct_week A usd factor = ar_mul A (ar_mul A usd factor) (ar_of_int A 100)"

definition kind_pct_week :: "arithmetic \<Rightarrow> float64 \<Rightarrow> float64 \<Rightarrow> float64 \<Rightarrow> float64 \<times> float64 \<times> float64" where
  "kind_pct_week A agent_usd follow_up_usd factor =
     (let agent = pct_week A agent_usd factor; follow_up = pct_week A follow_up_usd factor
      in (agent, follow_up, ar_add A agent follow_up))"

subsection \<open>The intervals of a log\<close>

text \<open>The share shown is never more than the total, and never negative when the total is not.\<close>

lemma spend_share_bounds:
  "0 \<le> all_pct \<Longrightarrow> fst (spend_share A all_pct fit usd) \<in> {0..all_pct}"
  by (auto simp: spend_share_def)

text \<open>What an interval claims: two readings of its window, the later one not below the earlier one.\<close>

definition from_readings :: "weigher \<Rightarrow> reading set \<Rightarrow> spend_interval \<Rightarrow> bool" where
  "from_readings weigh R v \<longleftrightarrow> sv_start v < sv_end v \<and> float_le (sv_utilization_start v) (sv_utilization_end v)
     \<and> weigh (sv_start v) (sv_end v) = Inr (sv_weight_usd v)
     \<and> (\<exists>a \<in> R. \<exists>b \<in> R. rd_window a = sv_window v \<and> rd_window b = sv_window v \<and> rd_at a = sv_start v
          \<and> rd_at b = sv_end v \<and> rd_utilization a = sv_utilization_start v \<and> rd_utilization b = sv_utilization_end v)"

text \<open>The intervals of one window do not overlap and come in the order of time.\<close>

definition in_order :: "spend_interval list \<Rightarrow> bool" where
  "in_order out \<longleftrightarrow> sorted_wrt (\<lambda>a b. sv_window a = sv_window b \<longrightarrow> sv_end a \<le> sv_start b) out"

definition behind :: "(string, reading) gomap \<Rightarrow> spend_interval list \<Rightarrow> bool" where
  "behind latest out \<longleftrightarrow> (\<forall>v \<in> set out. \<exists>r. map_of latest (sv_window v) = Some r \<and> sv_end v \<le> rd_at r)"

definition windows_ok :: "(string, reading) gomap \<Rightarrow> reading set \<Rightarrow> bool" where
  "windows_ok latest R \<longleftrightarrow> (\<forall>w r. map_of latest w = Some r \<longrightarrow> rd_window r = w \<and> r \<in> R)"

lemma windows_ok_put: "windows_ok latest R \<Longrightarrow> r \<in> R \<Longrightarrow> windows_ok (put (rd_window r) r latest) R"
  by (auto simp: windows_ok_def update_conv)

lemma behind_put:
  assumes "behind latest out" and "map_of latest (rd_window r) = Some prev" and "rd_at prev < rd_at r"
  shows "behind (put (rd_window r) r latest) out"
  using assms by (force simp: behind_def update_conv)

lemma behind_new: "behind latest out \<Longrightarrow> map_of latest (rd_window r) = None \<Longrightarrow> behind (put (rd_window r) r latest) out"
  by (force simp: behind_def update_conv)

lemma intervals_loop_sound:
  assumes "intervals_loop weigh rs latest out = Inr (out', latest')"
    and "set rs \<subseteq> R" and "windows_ok latest R" and "behind latest out" and "in_order out"
    and "\<forall>v \<in> set out. from_readings weigh R v"
  shows "(\<forall>v \<in> set out'. from_readings weigh R v) \<and> in_order out' \<and> windows_ok latest' R"
  using assms
proof (induction rs arbitrary: latest out)
  case Nil
  then show ?case by simp
next
  case (Cons r rs)
  show ?case
  proof (cases "map_of latest (rd_window r)")
    case None
    with Cons.prems show ?thesis
      by (intro Cons.IH [of "put (rd_window r) r latest" out]) (auto intro: windows_ok_put behind_new)
  next
    case (Some prev)
    then have prev: "rd_window prev = rd_window r" "prev \<in> R" using Cons.prems(3) by (auto simp: windows_ok_def)
    show ?thesis
    proof (cases "rd_at r \<le> rd_at prev")
      case True
      with Some Cons.prems show ?thesis by (intro Cons.IH [of latest out]) auto
    next
      case False
      then have later: "rd_at prev < rd_at r" by simp
      note step = windows_ok_put [OF Cons.prems(3)] behind_put [OF Cons.prems(4) Some later]
      show ?thesis
      proof (cases "float_le (rd_utilization prev) (rd_utilization r)")
        case False
        with Some later Cons.prems step show ?thesis
          by (intro Cons.IH [of "put (rd_window r) r latest" out]) auto
      next
        case True
        with Some later Cons.prems(1) obtain weight where w: "weigh (rd_at prev) (rd_at r) = Inr weight"
          by (auto split: sum.splits)
        let ?v = "\<lparr>sv_window = rd_window r, sv_start = rd_at prev, sv_end = rd_at r,
          sv_utilization_start = rd_utilization prev, sv_utilization_end = rd_utilization r, sv_weight_usd = weight\<rparr>"
        have "from_readings weigh R ?v"
          using w later True prev Cons.prems(2) by (auto simp: from_readings_def)
        moreover have "in_order (out @ [?v])"
          using Cons.prems(4,5) Some by (fastforce simp: in_order_def sorted_wrt_append behind_def)
        moreover have "behind (put (rd_window r) r latest) (out @ [?v])"
          using step(2) by (auto simp: behind_def update_conv)
        ultimately show ?thesis
          using Some later True w Cons.prems step(1)
          by (intro Cons.IH [of "put (rd_window r) r latest" "out @ [?v]"]) auto
      qed
    qed
  qed
qed

lemma map_of_copy_Nil: "map_of (copy_into [] m) k = map_of (rev m) k"
  by (simp add: map_of_copy_into split: option.splits)

text \<open>Every utilisation interval lies between two readings of its window, the earlier one possibly
  recorded before, is not reversed, has the weight of the requests in it, and the intervals of one window
  do not overlap.
\<close>

theorem intervals_are_between_readings:
  assumes "spend_intervals weigh readings previous = Inr (out, latest)"
    and "\<forall>(w, r) \<in> set previous. rd_window r = w"
  shows "(\<forall>v \<in> set out. from_readings weigh (set readings \<union> snd ` set previous) v) \<and> in_order out"
proof -
  have "windows_ok (copy_into [] previous) (set readings \<union> snd ` set previous)"
    using assms(2) by (force simp: windows_ok_def map_of_copy_Nil dest!: map_of_SomeD)
  from intervals_loop_sound [OF assms(1) [unfolded spend_intervals_def] _ this]
  show ?thesis by (auto simp: behind_def in_order_def)
qed

theorem intervals_are_between_readings_witness:
  "from_readings (\<lambda>_ _. Inr float_zero)
     (set [\<lparr>rd_window = five_hour, rd_utilization = Float64 7, rd_resets_at = 0, rd_at = 20\<rparr>]
      \<union> snd ` set [(five_hour, \<lparr>rd_window = five_hour, rd_utilization = Float64 5, rd_resets_at = 0, rd_at = 10\<rparr>)])
     \<lparr>sv_window = five_hour, sv_start = 10, sv_end = 20, sv_utilization_start = Float64 5,
      sv_utilization_end = Float64 7, sv_weight_usd = float_zero\<rparr>"
  using intervals_are_between_readings [of "\<lambda>_ _. Inr float_zero"
      "[\<lparr>rd_window = five_hour, rd_utilization = Float64 7, rd_resets_at = 0, rd_at = 20\<rparr>]"
      "[(five_hour, \<lparr>rd_window = five_hour, rd_utilization = Float64 5, rd_resets_at = 0, rd_at = 10\<rparr>)]"
      "[\<lparr>sv_window = five_hour, sv_start = 10, sv_end = 20, sv_utilization_start = Float64 5,
        sv_utilization_end = Float64 7, sv_weight_usd = float_zero\<rparr>]"
      "[(five_hour, \<lparr>rd_window = five_hour, rd_utilization = Float64 7, rd_resets_at = 0, rd_at = 20\<rparr>)]"]
  by (simp add: spend_intervals_def sort_func_def copy_into_def float_le_def float_nan_def float_key_def)

end
