(* ===== verification/Runner.thy ===== *)
theory Runner imports Agent_Log begin

text \<open>
  The agent runner: \<open>internal/adapter/runner/{runner,runner_unix}.go\<close>. Process creation, signals, waiting and
  the clock are the record \<open>processes\<close>; \<open>ps\<close> is run through the command runner. The loop that waits for a
  cancelled process group ends only if the clock moves, so it is a partial function, and its end is a theorem.
\<close>

subsection \<open>\<open>runner.go\<close>\<close>

record spawn_config =
  sc_agent_command :: "string list"
  sc_worktree_path :: string
  sc_settings_path :: string
  sc_system_prompt_path :: string
  sc_model :: string
  sc_effort :: "effort option"
  sc_tools :: "string list"
  sc_prompt :: string
  sc_prompt_path :: string
  sc_session_id :: string
  sc_resume :: bool
  sc_log_file :: string

record process =
  pz_zombie :: bool
  pz_elapsed :: duration

text \<open>\<open>strings.ReplaceAll\<close> of a text that is not empty, with the length of the string as fuel.\<close>

fun replace_fuel :: "nat \<Rightarrow> string \<Rightarrow> string \<Rightarrow> string \<Rightarrow> string" where
  "replace_fuel 0 old new s = s"
| "replace_fuel (Suc n) old new s =
     (case str_cut old s of None \<Rightarrow> s | Some (a, b) \<Rightarrow> a @ new @ replace_fuel n old new b)"

definition replace_all :: "string \<Rightarrow> string \<Rightarrow> string \<Rightarrow> string" where
  "replace_all s old new = replace_fuel (length s) old new s"

definition effort_arg :: "spawn_config \<Rightarrow> string" where
  "effort_arg cfg = (case sc_effort cfg of None \<Rightarrow> [] | Some e \<Rightarrow> effort_text e)"

definition substitute :: "string \<Rightarrow> spawn_config \<Rightarrow> string" where
  "substitute arg cfg =
     (let arg = replace_all arg ''{worktree}'' (sc_worktree_path cfg);
          arg = replace_all arg ''{settings}'' (sc_settings_path cfg);
          arg = replace_all arg ''{system_prompt}'' (sc_system_prompt_path cfg);
          arg = replace_all arg ''{model}'' (sc_model cfg);
          arg = replace_all arg ''{effort}'' (effort_arg cfg);
          arg = replace_all arg ''{prompt_file}'' (sc_prompt_path cfg)
      in replace_all arg ''{prompt}'' (sc_prompt cfg))"

definition session_args :: "spawn_config \<Rightarrow> string list" where
  "session_args cfg =
     (if sc_session_id cfg = [] then []
      else if sc_resume cfg then [''--resume'', sc_session_id cfg]
      else [''--session-id'', sc_session_id cfg])"

definition omitted :: "spawn_config \<Rightarrow> string \<Rightarrow> bool" where
  "omitted cfg a \<longleftrightarrow> a = ''{system_prompt}'' \<and> sc_system_prompt_path cfg = [] \<or> a = ''{effort}'' \<and> effort_arg cfg = []"

definition argv_step :: "spawn_config \<Rightarrow> string \<Rightarrow> string list \<Rightarrow> string list" where
  "argv_step cfg a argv =
     (if a = ''{session}'' then argv @ session_args cfg
      else if a = ''{tools}'' then (if sc_tools cfg \<noteq> [] then argv @ [''--tools''] @ sc_tools cfg else argv)
      else if omitted cfg a then butlast argv
      else argv @ [substitute a cfg])"

definition build_argv :: "spawn_config \<Rightarrow> string list" where
  "build_argv cfg = fold (argv_step cfg) (sc_agent_command cfg) []"

definition strip_api_key :: "string list \<Rightarrow> string list" where
  "strip_api_key env = filter (\<lambda>kv. \<not> has_prefix kv ''ANTHROPIC_API_KEY='') env"

subsection \<open>\<open>runner_unix.go\<close>\<close>

datatype signal_error = No_such_process | Signal_failed string
datatype wait_status = Wait_exited int | Wait_signaled int | Wait_other

record 'w processes =
  pr_environ :: "'w \<Rightarrow> string list"
  pr_start :: "string list \<Rightarrow> string \<Rightarrow> string \<Rightarrow> string list \<Rightarrow> ('w, int) io"
  pr_kill :: "int \<Rightarrow> int \<Rightarrow> 'w \<Rightarrow> signal_error option \<times> 'w"
  pr_wait :: "int \<Rightarrow> 'w \<Rightarrow> wait_status option \<times> 'w"
  pr_now :: "'w \<Rightarrow> time \<times> 'w"
  pr_sleep :: "duration \<Rightarrow> 'w \<Rightarrow> 'w"

definition spawn_agent :: "'w processes \<Rightarrow> spawn_config \<Rightarrow> ('w, int) io" where
  "spawn_agent P cfg w =
     (if sc_agent_command cfg = [] then (Inl (Plain ''spawn agent: agent_command is empty''), w)
      else case build_argv cfg of
        [] \<Rightarrow> (Inl (Plain ''spawn agent: agent_command builds an empty argv''), w)
      | name # args \<Rightarrow>
          wrapping (''spawn agent '' @ name)
            (pr_start P (name # args) (sc_worktree_path cfg) (sc_log_file cfg) (strip_api_key (pr_environ P w))) w)"

definition pid_reuse_tolerance :: duration where "pid_reuse_tolerance = 5 * second"
definition ps_timeout :: duration where "ps_timeout = 10 * second"

text \<open>\<open>strings.Fields\<close>: the parts between runs of white space.\<close>

fun fields_loop :: "nat \<Rightarrow> string \<Rightarrow> string \<Rightarrow> string list" where
  "fields_loop 0 field s = (if field = [] then [] else [field])"
| "fields_loop (Suc n) field s =
     (case s of
        [] \<Rightarrow> (if field = [] then [] else [field])
      | c # r \<Rightarrow>
          (case first_strip space_runes s of
             None \<Rightarrow> fields_loop n (field @ [c]) r
           | Some r' \<Rightarrow> (if field = [] then [] else [field]) @ fields_loop n [] r'))"

definition str_fields :: "string \<Rightarrow> string list" where
  "str_fields s = fields_loop (Suc (length s)) [] s"

definition atoi_or :: "string \<Rightarrow> string \<Rightarrow> io_error + int" where
  "atoi_or what s =
     (case atoi s of None \<Rightarrow> Inl (Wrapped (what @ '' '' @ quoted s) (Plain ''strconv.Atoi'')) | Some n \<Rightarrow> Inr n)"

definition parse_clock :: "string \<Rightarrow> io_error + int \<times> int \<times> int" where
  "parse_clock s =
     (case split_char (CHR '':'') s of
        [ms, ss] \<Rightarrow>
          (case atoi_or ''minutes'' ms of Inl e \<Rightarrow> Inl e | Inr m \<Rightarrow>
           (case atoi_or ''seconds'' ss of Inl e \<Rightarrow> Inl e | Inr sec \<Rightarrow> Inr (0, m, sec)))
      | [hs, ms, ss] \<Rightarrow>
          (case atoi_or ''hours'' hs of Inl e \<Rightarrow> Inl e | Inr h \<Rightarrow>
           (case atoi_or ''minutes'' ms of Inl e \<Rightarrow> Inl e | Inr m \<Rightarrow>
            (case atoi_or ''seconds'' ss of Inl e \<Rightarrow> Inl e | Inr sec \<Rightarrow> Inr (h, m, sec))))
      | _ \<Rightarrow> Inl (Plain (''unrecognised format '' @ quoted s)))"

definition parse_etime :: "string \<Rightarrow> io_error + duration" where
  "parse_etime s =
     (case (case str_cut ''-'' s of
              None \<Rightarrow> Inr (0, s)
            | Some (before, after) \<Rightarrow> map_sum id (\<lambda>d. (d, after)) (atoi_or ''day component'' before)) of
        Inl e \<Rightarrow> Inl e
      | Inr (days, clock) \<Rightarrow>
          map_sum id (\<lambda>(h, m, sec). days * 24 * 3600 * second + h * 3600 * second + m * 60 * second + sec * second)
            (parse_clock clock))"

definition ps_lookup :: "'w host \<Rightarrow> int \<Rightarrow> 'w \<Rightarrow> (io_error + process option) \<times> 'w" where
  "ps_lookup H pid w =
     (case output_within H ps_timeout [] ''ps'' [''-o'', ''stat=,etime='', ''-p'', itoa pid] w of
        (Inl e, w') \<Rightarrow> (Inr None, w')
      | (Inr out, w') \<Rightarrow>
          (case str_fields out of
             [stat, etime] \<Rightarrow>
               if has_prefix stat ''Z'' then (Inr (Some \<lparr>pz_zombie = True, pz_elapsed = 0\<rparr>), w')
               else (case parse_etime etime of
                       Inl e \<Rightarrow> (Inl (Wrapped (''parse ps etime '' @ quoted etime) e), w')
                     | Inr elapsed \<Rightarrow> (Inr (Some \<lparr>pz_zombie = False, pz_elapsed = elapsed\<rparr>), w'))
           | _ \<Rightarrow> (Inr None, w')))"

definition liveness :: "'w host \<Rightarrow> int \<Rightarrow> time \<Rightarrow> time \<Rightarrow> ('w, bool) io" where
  "liveness H pgid want_start now =
     and_then (wrapping (''look up pid '' @ itoa pgid) (ps_lookup H pgid)) (\<lambda>found.
     case found of
       None \<Rightarrow> ret False
     | Some p \<Rightarrow>
         if pz_zombie p then ret False
         else ret (\<bar>(now - pz_elapsed p) - want_start\<bar> \<le> pid_reuse_tolerance))"

definition cancel_poll_interval :: duration where "cancel_poll_interval = 20000000"
definition cancel_deadline :: duration where "cancel_deadline = 2 * second"
definition sigterm :: int where "sigterm = 15"
definition sigkill :: int where "sigkill = 9"

text \<open>The polling loop: whether the group was seen gone before the deadline.\<close>

partial_function (option) cancel_poll :: "'w processes \<Rightarrow> int \<Rightarrow> time \<Rightarrow> 'w \<Rightarrow> (bool \<times> 'w) option" where
  "cancel_poll P pgid deadline w =
     (case pr_now P w of (now, w1) \<Rightarrow>
        if now < deadline then
          (case pr_kill P (- pgid) 0 w1 of
             (Some _, w2) \<Rightarrow> Some (True, w2)
           | (None, w2) \<Rightarrow> cancel_poll P pgid deadline (pr_sleep P cancel_poll_interval w2))
        else Some (False, w1))"

definition signal_group :: "'w processes \<Rightarrow> string \<Rightarrow> int \<Rightarrow> int \<Rightarrow> ('w, unit) io" where
  "signal_group P name pgid sig w =
     (case pr_kill P (- pgid) sig w of
        (Some (Signal_failed e), w') \<Rightarrow> (Inl (Wrapped (name @ '' process group '' @ itoa pgid) (Os_error e)), w')
      | (_, w') \<Rightarrow> (Inr (), w'))"

definition cancel_group :: "'w processes \<Rightarrow> int \<Rightarrow> 'w \<Rightarrow> ((io_error + unit) \<times> 'w) option" where
  "cancel_group P pgid w =
     (case signal_group P ''SIGTERM'' pgid sigterm w of
        (Inl e, w1) \<Rightarrow> Some (Inl e, w1)
      | (Inr _, w1) \<Rightarrow>
          (case pr_now P w1 of (now, w2) \<Rightarrow>
             (case cancel_poll P pgid (now + cancel_deadline) w2 of
                None \<Rightarrow> None
              | Some (True, w3) \<Rightarrow> Some (Inr (), w3)
              | Some (False, w3) \<Rightarrow> Some (signal_group P ''SIGKILL'' pgid sigkill w3))))"

definition reap :: "'w processes \<Rightarrow> int \<Rightarrow> 'w \<Rightarrow> int option \<times> 'w" where
  "reap P pid w =
     (case pr_wait P pid w of
        (None, w') \<Rightarrow> (None, w')
      | (Some (Wait_exited n), w') \<Rightarrow> (Some n, w')
      | (Some (Wait_signaled s), w') \<Rightarrow> (Some (128 + s), w')
      | (Some Wait_other, w') \<Rightarrow> (Some 0, w'))"

subsection \<open>The command line of an agent\<close>

lemma replace_all_absent: "str_cut old s = None \<Longrightarrow> replace_all s old new = s"
  by (cases s) (simp_all add: replace_all_def)

lemma replace_all_self: "old \<noteq> [] \<Longrightarrow> replace_all old old new = new"
proof -
  assume ne: "old \<noteq> []"
  have "str_cut old old = Some ([], [])" using cut_here [of old "[]"] by simp
  moreover have "replace_fuel n old new [] = []" for n using ne by (cases n) auto
  ultimately show ?thesis using ne by (cases old) (simp_all add: replace_all_def)
qed

lemma cut_brace_None: "CHR ''{'' \<notin> set s \<Longrightarrow> CHR ''{'' \<in> set old \<Longrightarrow> str_cut old s = None"
  by (cases "str_cut old s") (auto dest: cut_Some_append)

lemma replace_no_brace: "CHR ''{'' \<notin> set s \<Longrightarrow> CHR ''{'' \<in> set old \<Longrightarrow> replace_all s old new = s"
  by (simp add: replace_all_absent cut_brace_None)

text \<open>The prompt is substituted last, so it is handed on as it is, whatever it contains.\<close>

lemma substitute_prompt: "substitute ''{prompt}'' cfg = sc_prompt cfg"
  by (simp add: substitute_def replace_all_absent replace_all_self)

lemma substitute_plain: "CHR ''{'' \<notin> set a \<Longrightarrow> substitute a cfg = a"
  by (simp add: substitute_def replace_no_brace)

lemma effort_arg_plain: "CHR ''{'' \<notin> set (effort_arg cfg)"
proof -
  have "CHR ''{'' \<notin> set (effort_text e)" for e by (cases e) simp_all
  then show ?thesis by (simp add: effort_arg_def split: option.splits)
qed

lemma substitute_placeholders:
  "CHR ''{'' \<notin> set (sc_settings_path cfg) \<Longrightarrow> substitute ''{settings}'' cfg = sc_settings_path cfg"
  "CHR ''{'' \<notin> set (sc_system_prompt_path cfg) \<Longrightarrow> substitute ''{system_prompt}'' cfg = sc_system_prompt_path cfg"
  "CHR ''{'' \<notin> set (sc_model cfg) \<Longrightarrow> substitute ''{model}'' cfg = sc_model cfg"
  "substitute ''{effort}'' cfg = effort_arg cfg"
  by (simp_all add: substitute_def replace_all_absent replace_all_self replace_no_brace effort_arg_plain)

text \<open>Under the default agent command an agent is started with its prompt as one argument, unchanged, the
  deny list of its settings file, the system prompt file and the effort only when there is one, the tools of
  the step, and the session it starts or resumes.
\<close>

theorem default_agent_argv:
  assumes "sc_agent_command cfg = default_agent_command"
    and "\<forall>s \<in> {sc_settings_path cfg, sc_system_prompt_path cfg, sc_model cfg}. CHR ''{'' \<notin> set s"
  shows "build_argv cfg =
    [''claude'', ''-p'', sc_prompt cfg, ''--output-format'', ''stream-json'', ''--verbose'', ''--settings'', sc_settings_path cfg]
    @ (if sc_system_prompt_path cfg = [] then [] else [''--append-system-prompt-file'', sc_system_prompt_path cfg])
    @ [''--permission-mode'', ''auto'', ''--model'', sc_model cfg]
    @ (case sc_effort cfg of None \<Rightarrow> [] | Some e \<Rightarrow> [''--effort'', effort_text e])
    @ (if sc_tools cfg = [] then [] else ''--tools'' # sc_tools cfg)
    @ session_args cfg"
proof -
  have "effort_text e \<noteq> []" for e by (cases e) simp_all
  then have e: "effort_arg cfg = [] \<longleftrightarrow> sc_effort cfg = None" by (simp add: effort_arg_def split: option.splits)
  show ?thesis
    using assms e
    by (simp add: build_argv_def argv_step_def default_agent_command_def omitted_def substitute_prompt substitute_plain
        substitute_placeholders effort_arg_def split: option.splits)
qed

definition sample_spawn :: spawn_config where
  "sample_spawn = \<lparr>sc_agent_command = default_agent_command, sc_worktree_path = ''/w'', sc_settings_path = ''/s.json'',
     sc_system_prompt_path = [], sc_model = ''opus'', sc_effort = None, sc_tools = [''Read''], sc_prompt = ''{model}'',
     sc_prompt_path = ''/p'', sc_session_id = ''id'', sc_resume = True, sc_log_file = ''/l''\<rparr>"

theorem default_agent_argv_witness:
  "build_argv sample_spawn =
    [''claude'', ''-p'', ''{model}'', ''--output-format'', ''stream-json'', ''--verbose'', ''--settings'', ''/s.json'',
     ''--permission-mode'', ''auto'', ''--model'', ''opus'', ''--tools'', ''Read'', ''--resume'', ''id'']"
  using default_agent_argv [of sample_spawn] by (simp add: sample_spawn_def session_args_def)

subsection \<open>Cancelling ends\<close>

text \<open>A clock that never goes back, and that a sleep moves on by at least the time slept.\<close>

definition clock_of :: "'w processes \<Rightarrow> 'w \<Rightarrow> time" where
  "clock_of P w = fst (pr_now P w)"

definition clock_runs :: "'w processes \<Rightarrow> bool" where
  "clock_runs P \<longleftrightarrow> (\<forall>w. clock_of P w \<le> clock_of P (snd (pr_now P w)))
     \<and> (\<forall>w pid sig. clock_of P w \<le> clock_of P (snd (pr_kill P pid sig w)))
     \<and> (\<forall>w d. clock_of P w + d \<le> clock_of P (pr_sleep P d w))"

lemma cancel_poll_ends:
  assumes "clock_runs P"
  shows "\<exists>r. cancel_poll P pgid deadline w = Some r"
proof (induction "nat (deadline - clock_of P w)" arbitrary: w rule: less_induct)
  case less
  obtain now w1 where now: "pr_now P w = (now, w1)" by (cases "pr_now P w")
  then have at: "now = clock_of P w" "clock_of P w \<le> clock_of P w1"
    using assms by (auto simp: clock_of_def clock_runs_def dest: spec [of _ w])
  show ?case
  proof (cases "now < deadline")
    case False
    with now show ?thesis by (subst cancel_poll.simps) auto
  next
    case True
    obtain e w2 where kill: "pr_kill P (- pgid) 0 w1 = (e, w2)" by (cases "pr_kill P (- pgid) 0 w1")
    show ?thesis
    proof (cases e)
      case (Some x)
      with now kill True show ?thesis by (subst cancel_poll.simps) auto
    next
      case None
      let ?w3 = "pr_sleep P cancel_poll_interval w2"
      have "clock_of P w1 \<le> clock_of P w2" using assms kill unfolding clock_runs_def by (metis snd_conv)
      moreover have "clock_of P w2 + cancel_poll_interval \<le> clock_of P ?w3" using assms by (simp add: clock_runs_def)
      ultimately have "nat (deadline - clock_of P ?w3) < nat (deadline - clock_of P w)"
        using at True by (simp add: cancel_poll_interval_def)
      from less [OF this] now kill None True show ?thesis by (subst cancel_poll.simps) simp
    qed
  qed
qed

text \<open>C35: With a running clock, cancelling a process group always returns: the polling loop ends when the group
  is gone or the deadline has passed.
\<close>

theorem cancel_returns:
  assumes "clock_runs P"
  shows "\<exists>r w'. cancel_group P pgid w = Some (r, w')"
proof (cases "signal_group P ''SIGTERM'' pgid sigterm w")
  case (Pair r w1)
  show ?thesis
  proof (cases r)
    case (Inl e)
    with Pair show ?thesis by (simp add: cancel_group_def)
  next
    case (Inr u)
    obtain now w2 where now: "pr_now P w1 = (now, w2)" by (cases "pr_now P w1")
    from cancel_poll_ends [OF assms] obtain gone w3 where
      "cancel_poll P pgid (now + cancel_deadline) w2 = Some (gone, w3)" by (metis surj_pair)
    with Pair Inr now show ?thesis by (cases gone) (auto simp: cancel_group_def)
  qed
qed

definition sample_processes :: "time processes" where
  "sample_processes = \<lparr>pr_environ = (\<lambda>_. []), pr_start = (\<lambda>_ _ _ _ t. (Inr 1, t)), pr_kill = (\<lambda>_ _ t. (None, t)),
     pr_wait = (\<lambda>_ t. (None, t)), pr_now = (\<lambda>t. (t, t)), pr_sleep = (\<lambda>d t. t + d)\<rparr>"

theorem cancel_returns_witness: "\<exists>r w'. cancel_group sample_processes 7 0 = Some (r, w')"
  by (rule cancel_returns) (simp add: clock_runs_def clock_of_def sample_processes_def)

subsection \<open>Elapsed times\<close>

text \<open>The elapsed time as \<open>ps\<close> prints it: \<open>[[DD-]hh:]mm:ss\<close>, every part with at least two digits.\<close>

definition two_digits :: "nat \<Rightarrow> string" where
  "two_digits n = (if n < 10 then ''0'' else []) @ nat_text n"

definition etime_text :: "nat \<Rightarrow> string" where
  "etime_text secs =
     (let d = secs div 86400; h = secs div 3600 mod 24; m = secs div 60 mod 60; s = secs mod 60
      in (if d > 0 then two_digits d @ ''-'' else []) @ (if d > 0 \<or> h > 0 then two_digits h @ '':'' else [])
         @ two_digits m @ '':'' @ two_digits s)"

lemma two_digits_chars: "c \<in> set (two_digits n) \<Longrightarrow> c \<noteq> CHR '':'' \<and> c \<noteq> CHR ''-''"
  using nat_text_digits [of c n] by (auto simp: two_digits_def split: if_splits)

lemma atoi_two_digits:
  assumes "int n \<le> max_int"
  shows "atoi (two_digits n) = Some (int n)"
proof -
  have digits: "digits_value 0 (nat_text n) = Some n" using digits_value_nat_text [of n] by simp
  show ?thesis
  proof (cases "n < 10")
    case True
    have "digits_value 0 (''0'' @ nat_text n) = digits_value 0 (nat_text n)" by (simp add: digit_value_def)
    with True digits assms show ?thesis by (simp add: two_digits_def atoi_def Let_def min_int_def)
  next
    case False
    obtain c r where t: "nat_text n = c # r" by (cases "nat_text n") auto
    with False digits assms hd_nat_text [OF t] show ?thesis by (simp add: two_digits_def atoi_def Let_def min_int_def)
  qed
qed

lemma split_two_digits:
  "split_char (CHR '':'') (two_digits a @ CHR '':'' # r) = two_digits a # split_char (CHR '':'') r"
  "split_char (CHR '':'') (two_digits a) = [two_digits a]"
  by (rule split_char_append split_char_notin; use two_digits_chars in blast)+

lemma cut_two_digits:
  "str_cut ''-'' (two_digits a @ CHR ''-'' # r) = Some (two_digits a, r)"
  by (rule cut_char_notin) (use two_digits_chars in blast)

lemma cut_clock: "str_cut ''-'' (two_digits a @ CHR '':'' # two_digits b) = None"
  "str_cut ''-'' (two_digits a @ CHR '':'' # two_digits b @ CHR '':'' # two_digits c) = None"
  using two_digits_chars by (auto simp: cut_char_None)

lemma clock_parts: "secs = (((secs div 86400) * 24 + secs div 3600 mod 24) * 60 + secs div 60 mod 60) * 60 + secs mod (60::nat)"
proof -
  have "secs div 86400 = secs div 3600 div 24" "secs div 3600 = secs div 60 div 60" by (simp_all flip: div_mult2_eq)
  then show ?thesis by simp
qed

text \<open>Every elapsed time \<open>ps\<close> prints is read back as that time.
\<close>

theorem etime_roundtrip:
  assumes "int secs \<le> max_int"
  shows "parse_etime (etime_text secs) = Inr (int secs * second)"
proof -
  define d h m s where parts: "d = secs div 86400" "h = secs div 3600 mod 24" "m = secs div 60 mod 60" "s = secs mod 60"
  have eq: "int secs = ((int d * 24 + int h) * 60 + int m) * 60 + int s"
  proof -
    have "secs = ((d * 24 + h) * 60 + m) * 60 + s" unfolding parts by (rule clock_parts)
    then have "int secs = int (((d * 24 + h) * 60 + m) * 60 + s)" by (rule arg_cong)
    then show ?thesis by (simp only: of_nat_add of_nat_mult of_nat_numeral)
  qed
  have "d \<le> secs" "h \<le> secs" "m \<le> secs" "s \<le> secs"
    unfolding parts by (auto intro: order_trans [OF mod_less_eq_dividend div_le_dividend])
  with assms have atoi: "atoi (two_digits d) = Some (int d)" "atoi (two_digits h) = Some (int h)"
    "atoi (two_digits m) = Some (int m)" "atoi (two_digits s) = Some (int s)"
    by (auto intro!: atoi_two_digits)
  have "parse_etime (etime_text secs) = Inr ((((int d * 24 + int h) * 60 + int m) * 60 + int s) * second)"
    unfolding etime_text_def parts [symmetric] Let_def
    by (simp add: parse_etime_def parse_clock_def atoi_or_def cut_two_digits cut_clock split_two_digits atoi algebra_simps)
  with eq show ?thesis by simp
qed

theorem etime_roundtrip_witness: "parse_etime (etime_text 93784) = Inr (93784 * second)"
  using etime_roundtrip [of 93784] by (simp add: max_int_def)

end
