(* ===== verification/Loop_State.thy ===== *)
theory Loop_State imports Store_Readable Spend Runner begin

text \<open>
  The state of the daemon loop of \<open>internal/loop\<close> and the operations its handlers are made of:
  \<open>deps.go\<close>, the helpers of \<open>loop.go\<close> and the recording of readings in \<open>internal/store/{intervals,utilization}.go\<close>.

  A handler works on a \<open>machine\<close>: the connection to the store, the world outside (git, GitHub, processes,
  files) and the \<open>tick\<close> it belongs to. The Go code passes the observation of a tick by value, but its maps
  are shared by every copy, so a handler that marks a run alive or drops a merge is seen by all later ones:
  the observation is a field of the state, read where the code reads it. A snapshot has a copy too; none of
  its methods reads a map that the handlers change.

  What the loop is given (\<open>Deps\<close>, the clock, the context, the file system) is the record \<open>loop_env\<close>. Log
  messages are left out.
\<close>

subsection \<open>State\<close>

record tick =
  tc_now :: time
  tc_obs :: observation
  tc_prev :: observation
  tc_spawned :: "ticket_url list"
  tc_cancelled :: "(int, bool) gomap"

record 'w machine =
  mc_conn :: conn
  mc_world :: 'w
  mc_tick :: tick

type_synonym ('w, 'a) act = "('w machine, 'a) io"

record 'w worktree_cli =
  wt_new :: "string \<Rightarrow> string \<Rightarrow> string \<Rightarrow> ('w, unit) io"
  wt_remove :: "string \<Rightarrow> string \<Rightarrow> remove_mode \<Rightarrow> ('w, unit) io"

definition tp_cli :: "'w host \<Rightarrow> 'w worktree_cli" where
  "tp_cli H = \<lparr>wt_new = worktree_new H, wt_remove = worktree_remove H\<rparr>"

record 'w agent_runner =
  ar_spawn :: "spawn_config \<Rightarrow> ('w, int) io"
  ar_liveness :: "int \<Rightarrow> time \<Rightarrow> time \<Rightarrow> ('w, bool) io"
  ar_cancel :: "int \<Rightarrow> ('w, unit) io"
  ar_reap :: "int \<Rightarrow> 'w \<Rightarrow> int option \<times> 'w"

record follow_up_payload =
  fp_message :: string
  fp_model :: string
  fp_effort :: "effort option"

record 'w loop_env =
  le_host :: "'w host"
  le_files :: "'w files"
  le_forge :: "'w forge"
  le_worktrees :: "'w worktree_cli"
  le_runner :: "'w agent_runner"
  le_now :: "'w \<Rightarrow> time \<times> 'w"
  le_context_error :: "'w \<Rightarrow> io_error option"
  le_observe :: "('w, observation) act"
  le_validate :: "string \<Rightarrow> store_repo \<Rightarrow> time \<Rightarrow> ('w, store_repo) io"
  le_remote_of :: "string \<Rightarrow> ('w, string) io"
  le_tickets_of :: "string \<Rightarrow> string \<Rightarrow> io_error + (string \<Rightarrow> ('w, source_ticket list) io)"
  le_config :: config
  le_runs_dir :: string
  le_settings_path :: string
  le_system_prompt_path :: string
  le_workflows :: "(string, workflow) gomap"
  le_decode_line :: line_decoder
  le_arithmetic :: arithmetic
  le_percent :: "float64 \<Rightarrow> int"
  le_metrics_json :: "run_metrics \<Rightarrow> string"
  le_payload_json :: "payload \<Rightarrow> string"
  le_follow_up :: "string \<Rightarrow> follow_up_payload option"
  le_lower :: "string \<Rightarrow> int list"
  le_hash :: "string \<Rightarrow> string"

definition on_store :: "'a query \<Rightarrow> ('w, 'a) act" where
  "on_store q s = (case q (mc_conn s) of (r, c) \<Rightarrow> (r, s\<lparr>mc_conn := c\<rparr>))"

definition on_world :: "('w, 'a) io \<Rightarrow> ('w, 'a) act" where
  "on_world m s = (case m (mc_world s) of (r, w) \<Rightarrow> (r, s\<lparr>mc_world := w\<rparr>))"

definition on_tick :: "(tick \<Rightarrow> tick) \<Rightarrow> ('w, unit) act" where
  "on_tick f s = (Inr (), s\<lparr>mc_tick := f (mc_tick s)\<rparr>)"

definition with_tick :: "(tick \<Rightarrow> ('w, 'a) act) \<Rightarrow> ('w, 'a) act" where
  "with_tick f s = f (mc_tick s) s"

definition update_obs :: "(observation \<Rightarrow> observation) \<Rightarrow> ('w, unit) act" where
  "update_obs f = on_tick (\<lambda>t. t\<lparr>tc_obs := f (tc_obs t)\<rparr>)"

definition clock_now :: "'w loop_env \<Rightarrow> ('w, time) act" where
  "clock_now E = on_world (\<lambda>w. case le_now E w of (t, w') \<Rightarrow> (Inr t, w'))"

definition context_error :: "'w loop_env \<Rightarrow> ('w, io_error option) act" where
  "context_error E = on_world (\<lambda>w. (Inr (le_context_error E w), w))"

text \<open>\<open>if err != nil { ... }\<close> with a handler that goes on.\<close>

definition or_else :: "('w, 'a) io \<Rightarrow> (io_error \<Rightarrow> ('w, 'a) io) \<Rightarrow> ('w, 'a) io" where
  "or_else m h w = (case m w of (Inl e, w') \<Rightarrow> h e w' | r \<Rightarrow> r)"

text \<open>\<open>if err != nil { return h(err) }; f\<close>.\<close>

definition try_else :: "('w, 'a) io \<Rightarrow> (io_error \<Rightarrow> ('w, 'b) io) \<Rightarrow> ('a \<Rightarrow> ('w, 'b) io) \<Rightarrow> ('w, 'b) io" where
  "try_else m h f w = (case m w of (Inl e, w') \<Rightarrow> h e w' | (Inr a, w') \<Rightarrow> f a w')"

definition checkout :: "'w loop_env \<Rightarrow> string \<Rightarrow> string" where
  "checkout E repo = checkout_path (cf_data_dir (le_config E)) repo"

definition git_ref :: "string \<Rightarrow> string" where "git_ref branch = ''origin/'' @ branch"

definition ref_text :: "branch_ref \<Rightarrow> string" where
  "ref_text ref = ref_repo ref @ ''/'' @ ref_branch ref"

text \<open>\<open>Snapshot.Entry\<close> where the code drops the second result: the zero \<open>Entry\<close> stands for no entry.\<close>

definition no_ticket :: ticket where
  "no_ticket = \<lparr>t_url = [], t_repo = [], t_branch = [], t_blocked_by = [], t_worked_example_branch = [],
     t_launch_context = [], t_choice = \<lparr>choice_model = [], choice_effort = None\<rparr>\<rparr>"

definition no_entry :: entry where
  "no_entry = \<lparr>e_ticket = no_ticket, e_unlock = no_unlock, e_state = StateUnknown, e_reason = [], e_run = None,
     e_elapsed = None, e_log_path = [], e_conflicted_base = [], e_draft_reason = [], e_launch_id = 0, e_base = [],
     e_ready_to_undraft = False, e_opens_as_draft = False, e_prompt_hash = [], e_last_push = None, e_restacked = False,
     e_next = no_next, e_workflow = []\<rparr>"

definition entry_at :: "snapshot \<Rightarrow> ticket_url \<Rightarrow> entry" where
  "entry_at snap url = (case entry_of snap url of Some e \<Rightarrow> e | None \<Rightarrow> no_entry)"

definition repo_branch :: "ticket \<Rightarrow> string" where
  "repo_branch t = t_repo t @ ''/'' @ t_branch t"

subsection \<open>Events and intents\<close>

definition record_event :: "'w loop_env \<Rightarrow> string \<Rightarrow> event_kind \<Rightarrow> string \<Rightarrow> ('w, unit) act" where
  "record_event E url kind detail =
     and_then (clock_now E) (\<lambda>at.
       wrapping (''append '' @ event_kind_text kind @ '' event for '' @ url) (on_store (append_event at url kind detail)))"

definition intent_pending :: io_error where "intent_pending = Sentinel ''intent stays pending''"

fun consume_each :: "'w loop_env \<Rightarrow> (intent \<Rightarrow> ('w, unit) act) \<Rightarrow> intent list \<Rightarrow> ('w, unit) act" where
  "consume_each E f [] s = (Inr (), s)"
| "consume_each E f (i # is) s =
     (case f i s of
        (Inl e, s') \<Rightarrow>
          if is_sentinel ''intent stays pending'' e then consume_each E f is s'
          else (Inl (Wrapped (''intent '' @ itoa (it_id i) @ '' for '' @ it_ticket i) e), s')
      | (Inr _, s') \<Rightarrow>
          and_then (and_then (clock_now E) (\<lambda>at.
              wrapping (''consume intent '' @ itoa (it_id i) @ '' for '' @ it_ticket i)
                (on_store (consume_verb_intent (it_id i) at))))
            (\<lambda>_. consume_each E f is) s')"

definition each_intent :: "'w loop_env \<Rightarrow> snapshot \<Rightarrow> verb \<Rightarrow> (intent \<Rightarrow> ('w, unit) act) \<Rightarrow> ('w, unit) act" where
  "each_intent E snap v f = consume_each E f (Intents snap v)"

definition each_pending_intent :: "'w loop_env \<Rightarrow> verb \<Rightarrow> (intent \<Rightarrow> ('w, unit) act) \<Rightarrow> ('w, unit) act" where
  "each_pending_intent E v f =
     and_then (wrapping (''list pending '' @ verb_text v @ '' intents'')
         (on_store (pending_verb_intents (le_payload_json E) v)))
       (\<lambda>pending. consume_each E f
          (map (\<lambda>p. \<lparr>it_id = vi_id p, it_ticket = vi_ticket_id p, it_verb = v, it_payload = vi_payload p\<rparr>) pending))"

definition consume_all :: "'w loop_env \<Rightarrow> intent list \<Rightarrow> ('w, unit) act" where
  "consume_all E is = consume_each E (\<lambda>_. ret ()) is"

subsection \<open>Errors of a tick\<close>

definition record_tick_error_once :: "'w loop_env \<Rightarrow> string \<Rightarrow> ('w, unit) act" where
  "record_tick_error_once E message =
     and_then (wrapping ''last tick error'' (on_store last_error)) (\<lambda>latest.
     if (case latest of None \<Rightarrow> False | Some e \<Rightarrow> te_message e = message) then ret ()
     else and_then (clock_now E) (\<lambda>at.
       wrapping ''record tick error'' (on_store (record_tick_error \<lparr>te_at = at, te_message = message\<rparr>))))"

text \<open>\<open>failTick\<close> of an error: it is recorded and returned, unless the context is done.\<close>

definition fail_tick :: "'w loop_env \<Rightarrow> io_error \<Rightarrow> ('w, unit) act" where
  "fail_tick E e =
     and_then (context_error E) (\<lambda>done.
     if done \<noteq> None then fail_with e
     else and_then (or_else (record_tick_error_once E (error_text e))
            (\<lambda>re. fail_with (Wrapped ''record tick error'' (Joined e re))))
          (\<lambda>_. fail_with e))"

subsection \<open>Readings\<close>

definition reading_row_of :: "reading \<Rightarrow> reading_row" where
  "reading_row_of r = \<lparr>ur_id = 0, ur_at = rd_at r, ur_window = rd_window r, ur_utilization = rd_utilization r,
     ur_resets_at = rd_resets_at r\<rparr>"

definition reading_of_row :: "reading_row \<Rightarrow> reading" where
  "reading_of_row u = \<lparr>rd_window = ur_window u, rd_utilization = ur_utilization u, rd_resets_at = ur_resets_at u,
     rd_at = ur_at u\<rparr>"

definition record_readings :: "reading list \<Rightarrow> unit query" where
  "record_readings readings =
     wrapping (''record '' @ itoa (int (length readings)) @ '' readings'') (q_record_readings (map reading_row_of readings))"

definition interval_row_of :: "spend_interval \<Rightarrow> interval_row" where
  "interval_row_of v = \<lparr>ui_id = 0, ui_window = sv_window v, ui_start_at = sv_start v, ui_end_at = sv_end v,
     ui_utilization_start = sv_utilization_start v, ui_utilization_end = sv_utilization_end v,
     ui_weight_usd = sv_weight_usd v\<rparr>"

definition record_readings_and_intervals :: "'w loop_env \<Rightarrow> reading list \<Rightarrow> string \<Rightarrow> ('w, unit) act" where
  "record_readings_and_intervals E readings projects_dir =
     (if readings = [] then ret ()
      else
        and_then (wrapping (''load transcripts under '' @ projects_dir)
            (on_world (load_requests (le_decode_line E) (le_files E) projects_dir))) (\<lambda>requests.
        and_then (wrapping ''read previous readings'' (on_store latest_readings_full)) (\<lambda>previous.
        and_then (wrapping ''build utilization intervals'' (lift_sum (spend_intervals
            (\<lambda>start end_at. Inr (sum_weight (le_arithmetic E) requests start end_at)) readings
            (map (\<lambda>(w, u). (w, reading_of_row u)) previous)))) (\<lambda>(intervals, _).
        and_then (wrapping ''record readings'' (on_store (record_readings readings))) (\<lambda>_.
        wrapping (''record '' @ itoa (int (length intervals)) @ '' intervals'')
          (on_store (q_record_intervals (map interval_row_of intervals))))))))"

end
