(* ===== verification/Loop_Push.thy ===== *)
theory Loop_Push imports Loop_State begin

text \<open>
  Pushing and refreshing of branches: \<open>push.go\<close>, \<open>refresh.go\<close> and \<open>events.go\<close> of \<open>internal/loop\<close>.

  The observation a handler is given is the one of its tick; see \<open>Loop_State\<close>.
\<close>

subsection \<open>Push\<close>

definition push_branch :: "'w host \<Rightarrow> string \<Rightarrow> string \<Rightarrow> sha \<Rightarrow> bool \<Rightarrow> ('w, unit) io" where
  "push_branch H repo_path branch tip restacked =
     (if \<not> restacked \<or> tip = [] then wrapping (''push '' @ branch) (push_branch_git H repo_path branch)
      else
        and_then (wrapping (''check '' @ branch @ '' descends from '' @ tip) (ancestor H repo_path tip branch))
          (\<lambda>descended.
             if descended then wrapping (''push '' @ branch) (push_branch_git H repo_path branch)
             else wrapping (''force-push restacked '' @ branch) (push_restacked H repo_path branch tip)))"

definition handoff_path :: "'w loop_env \<Rightarrow> run_id \<Rightarrow> string" where
  "handoff_path E i = path_join (le_runs_dir E) (itoa i @ ''.handoff.md'')"

definition read_handoff :: "'w loop_env \<Rightarrow> run_id \<Rightarrow> ('w, string option) act" where
  "read_handoff E i =
     try_else (on_world (fi_read_file (le_files E) (handoff_path E i))) (\<lambda>_. ret None) (\<lambda>body. ret (Some body))"

definition text_of :: "string option \<Rightarrow> string" where
  "text_of x = (case x of None \<Rightarrow> [] | Some s \<Rightarrow> s)"

definition run_id_of :: "(ticket_url, run_summary) gomap \<Rightarrow> ticket_url \<Rightarrow> run_id" where
  "run_id_of latest url = (case map_of latest url of None \<Rightarrow> 0 | Some r \<Rightarrow> rn_id r)"

definition pr_text :: "'w loop_env \<Rightarrow> ticket_url \<Rightarrow> string \<Rightarrow> ('w, string) act" where
  "pr_text E url stacked =
     try_else (on_store latest_runs_by_ticket) (\<lambda>_. ret stacked) (\<lambda>latest.
     and_then (read_handoff E (run_id_of latest url)) (\<lambda>body.
       let handoff = trim_space (text_of body)
       in ret (if handoff = [] then stacked
               else if stacked = [] then handoff
               else stacked @ nl @ nl @ handoff)))"

definition record_pushed :: "'w loop_env \<Rightarrow> entry \<Rightarrow> push \<Rightarrow> ('w, unit) act" where
  "record_pushed E e p =
     (let t = e_ticket e; base = u_base_branch (e_unlock e) in
      and_then (wrapping (''resolve origin/'' @ base)
          (on_world (rev_parse (le_host E) (checkout E (t_repo t)) (''origin/'' @ base)))) (\<lambda>base_sha.
      and_then (clock_now E) (\<lambda>at.
      and_then (wrapping (''record push of '' @ t_branch t)
          (on_store (record_push \<lparr>pq_ticket = t_url t, pq_tip = ps_local_tip p, pq_base_sha = base_sha,
             pq_base_branch = base, pq_at = at\<rparr>))) (\<lambda>_.
      record_event E (t_url t) EventPushed (''pushed '' @ ps_local_tip p @ '' to origin/'' @ base)))))"

definition open_pr :: "'w loop_env \<Rightarrow> entry \<Rightarrow> push \<Rightarrow> observation \<Rightarrow> ('w, unit) act" where
  "open_pr E e p ob =
     (let t = e_ticket e in
      and_then (pr_text E (t_url t) (ps_body p)) (\<lambda>body.
        on_world (fo_create (le_forge E) (get_or [] (ob_worktrees ob) (ticket_ref t))
          (u_base_branch (e_unlock e)) body (ps_opens_as_draft p))))"

definition last_pushed_tip :: "entry \<Rightarrow> sha" where
  "last_pushed_tip e = (case e_last_push e of None \<Rightarrow> [] | Some row \<Rightarrow> pw_pushed_tip row)"

definition push_one :: "'w loop_env \<Rightarrow> entry \<Rightarrow> push \<Rightarrow> ('w, unit) act" where
  "push_one E e p =
     with_tick (\<lambda>t. let ob = tc_obs t; tk = e_ticket e; url = t_url tk; base = u_base_branch (e_unlock e);
                        repo_path = checkout E (t_repo tk) in
       and_then (wrapping (''diff '' @ t_branch tk @ '' against origin/'' @ base)
           (on_world (changed_paths (le_host E) repo_path (''origin/'' @ base) (t_branch tk)))) (\<lambda>changed.
       let (refused, path) = push_refused changed (rs_deny (get_or no_settings (ob_settings ob) (t_repo tk))) in
       if refused then record_event E url EventPushRefused path
       else
         try_else (on_world (push_branch (le_host E) repo_path (t_branch tk) (last_pushed_tip e) (ps_force p)))
           (\<lambda>err. record_event E url EventPushFailed (error_text err))
           (\<lambda>_. if pr_state (pr_of ob (ticket_ref tk)) \<noteq> Open then
                  try_else (open_pr E e p ob) (\<lambda>err. record_event E url EventPushFailed (error_text err))
                    (\<lambda>_. record_pushed E e p)
                else record_pushed E e p)))"

definition push_pushable :: "'w loop_env \<Rightarrow> snapshot \<Rightarrow> ('w, unit) act" where
  "push_pushable E snap =
     with_tick (\<lambda>t. each_io
       (\<lambda>p. let e = entry_at snap (ps_ticket p) in wrapping (repo_branch (e_ticket e)) (push_one E e p))
       (Pushable snap (tc_obs t)))"

definition apply_retry_push_intents :: "'w loop_env \<Rightarrow> snapshot \<Rightarrow> ('w, unit) act" where
  "apply_retry_push_intents E snap =
     each_intent E snap VerbRetryPush (\<lambda>i.
       case entry_of snap (it_ticket i) of
         None \<Rightarrow> ret ()
       | Some e \<Rightarrow> with_tick (\<lambda>t. case Push snap (it_ticket i) (tc_obs t) of
           None \<Rightarrow> ret ()
         | Some p \<Rightarrow> wrapping (repo_branch (e_ticket e)) (push_one E e p)))"

subsection \<open>Refresh\<close>

definition conflict_detail :: "sha \<Rightarrow> sha \<Rightarrow> io_error \<Rightarrow> string" where
  "conflict_detail own_tip base_tip e = own_tip @ '' '' @ base_tip @ '' '' @ error_text e"

definition idle_worktree_for :: "ticket \<Rightarrow> observation \<Rightarrow> string \<times> string" where
  "idle_worktree_for t ob =
     (case map_of (ob_worktrees ob) (ticket_ref t) of
        None \<Rightarrow> ([], ''no worktree for '' @ t_branch t)
      | Some wt \<Rightarrow>
          if get_or False (ob_runs ob) (t_url t) then ([], ''a run is alive in '' @ wt) else (wt, []))"

definition restack_boundary :: "string \<Rightarrow> push_row \<Rightarrow> observation \<Rightarrow> sha" where
  "restack_boundary repo row ob =
     (if pw_base_branch row = [] then []
      else let p = pr_of ob (BranchRef repo (pw_base_branch row))
           in if pr_state p = Merged \<and> pr_head_oid p \<noteq> [] then pr_head_oid p else pw_base_sha_at_push row)"

definition error_of :: "io_error + unit \<Rightarrow> io_error option" where
  "error_of r = (case r of Inl e \<Rightarrow> Some e | Inr _ \<Rightarrow> None)"

definition merging_onto :: "'w host \<Rightarrow> string \<Rightarrow> string \<Rightarrow> ('w, bool \<times> string \<times> io_error option) io" where
  "merging_onto H wt ref =
     and_then (attempt (wrapping (''merge '' @ ref) (merge_git H wt ref))) (\<lambda>r. ret (False, ref, error_of r))"

definition advance_onto ::
  "'w host \<Rightarrow> string \<Rightarrow> string \<Rightarrow> string \<Rightarrow> push_row \<Rightarrow> observation \<Rightarrow> ('w, bool \<times> string \<times> io_error option) io" where
  "advance_onto H wt repo base row ob =
     (let ref = ''origin/'' @ base; boundary = restack_boundary repo row ob in
      if boundary = [] then merging_onto H wt ref
      else
        and_then (attempt (wrapping (''check '' @ boundary @ '' is an ancestor of '' @ ref) (ancestor H wt boundary ref)))
          (\<lambda>r. case r of
             Inl e \<Rightarrow> ret (False, [], Some e)
           | Inr descended \<Rightarrow>
               if descended then merging_onto H wt ref
               else and_then (attempt (wrapping (''rebase onto '' @ ref) (rebase H wt ref boundary)))
                      (\<lambda>r. ret (True, ''restacked onto '' @ ref @ '', dropping everything up to '' @ boundary, error_of r))))"

definition max_verify_detail :: nat where "max_verify_detail = 4000"
definition verify_timeout :: duration where "verify_timeout = 600 * second"

definition ellipsis :: string where
  "ellipsis = [char_of (0xE2::nat), char_of (0x80::nat), char_of (0xA6::nat)]"

definition verify_detail :: "io_error \<Rightarrow> string \<Rightarrow> string" where
  "verify_detail e out =
     (let detail = trim_space (error_text e @ nl @ out)
      in to_valid_utf8 (if length detail > max_verify_detail
           then take max_verify_detail detail @ '' '' @ ellipsis @ ''(truncated)'' else detail))"

definition verify_one :: "'w loop_env \<Rightarrow> ticket \<Rightarrow> string \<Rightarrow> string list \<Rightarrow> ('w, unit) act" where
  "verify_one E t wt argv =
     (case argv of
        [] \<Rightarrow> ret ()
      | name # args \<Rightarrow>
          and_then (on_world (\<lambda>w. let (po, w') = h_exec (le_host E) verify_timeout wt name args w
              in (Inr (finish_cmd verify_timeout wt argv po, po_stdout po), w')))
            (\<lambda>(failed, out). case failed of
               None \<Rightarrow> ret ()
             | Some e \<Rightarrow> record_event E (t_url t) EventVerificationFailed (verify_detail e out)))"

text \<open>\<open>refreshOne\<close> after its refusals: the branch is advanced, and the outcome recorded.\<close>

definition refresh_conflicted :: "'w loop_env \<Rightarrow> ticket \<Rightarrow> unlock \<Rightarrow> bool \<Rightarrow> string \<Rightarrow> io_error \<Rightarrow> ('w, unit) act" where
  "refresh_conflicted E t unl restacked detail e =
     with_tick (\<lambda>tick. let ob = tc_obs tick; url = t_url t in
       and_then (if restacked then wrapping (''record restack of '' @ url)
                   (record_event E url EventRestacked (detail @ '', conflicted'')) else ret ())
         (\<lambda>_. record_event E url EventRefreshConflicted
            (conflict_detail (get_or [] (ob_branch_tips ob) (ticket_ref t))
               (get_or [] (ob_branch_tips ob) (BranchRef (t_repo t) (u_base_branch unl))) e)))"

definition refresh_failed :: "'w loop_env \<Rightarrow> ticket \<Rightarrow> unlock \<Rightarrow> string \<Rightarrow> bool \<Rightarrow> string \<Rightarrow> io_error \<Rightarrow> ('w, unit) act" where
  "refresh_failed E t unl wt restacked detail e =
     and_then (context_error E) (\<lambda>done. case done of
       Some ce \<Rightarrow> fail_with (Wrapped (''advance '' @ t_url t) ce)
     | None \<Rightarrow>
         try_else (on_world (mid_merge (le_host E) wt))
           (\<lambda>me. fail_with (Wrapped (''check '' @ wt @ '' for a conflict'') (Joined e me)))
           (\<lambda>conflicted. if \<not> conflicted then fail_with (Wrapped (''advance '' @ t_url t) e)
              else refresh_conflicted E t unl restacked detail e))"

definition refresh_done :: "'w loop_env \<Rightarrow> ticket \<Rightarrow> string \<Rightarrow> bool \<Rightarrow> string \<Rightarrow> ('w, unit) act" where
  "refresh_done E t wt restacked detail =
     with_tick (\<lambda>tick. let kind = (if restacked then EventRestacked else EventRefreshed) in
       and_then (wrapping (''record '' @ event_kind_text kind @ '' of '' @ t_url t)
           (record_event E (t_url t) kind (''merged origin/'' @ t_branch t @ '' then '' @ detail)))
         (\<lambda>_. wrapping (''verify '' @ t_url t)
            (verify_one E t wt (rs_verify_command (get_or no_settings (ob_settings (tc_obs tick)) (t_repo t))))))"

definition refresh_one :: "'w loop_env \<Rightarrow> snapshot \<Rightarrow> ticket \<Rightarrow> push_row \<Rightarrow> bool \<Rightarrow> ('w, unit) act" where
  "refresh_one E snap t row requested =
     with_tick (\<lambda>tick. let ob = tc_obs tick; url = t_url t; e = entry_at snap url;
                           refuse = (\<lambda>detail. if \<not> requested then ret () else record_event E url EventRefreshRefused detail);
                           (wt, refusal) = idle_worktree_for t ob; unl = e_unlock e in
       if holds_worktree e then refuse held_worktree_refusal
       else if refusal \<noteq> [] then refuse refusal
       else if get_or False (ob_mid_merge ob) (ticket_ref t)
       then refuse (wt @ '' is left mid-merge; abort or commit it first'')
       else
         try_else (on_world (merge_ff_only (le_host E) wt (''origin/'' @ t_branch t)))
           (\<lambda>err. record_event E url EventRefreshRefused (error_text err))
           (\<lambda>_. if \<not> u_unlocked unl then refuse (u_reason unl)
              else and_then (on_world (advance_onto (le_host E) wt (t_repo t) (u_base_branch unl) row ob))
                (\<lambda>(restacked, detail, failed). case failed of
                   Some err \<Rightarrow> refresh_failed E t unl wt restacked detail err
                 | None \<Rightarrow> refresh_done E t wt restacked detail)))"

definition refresh_intents :: "snapshot \<Rightarrow> ticket_url \<Rightarrow> intent list" where
  "refresh_intents snap url = filter (\<lambda>i. it_ticket i = url) (Intents snap VerbRefresh)"

definition orphan_intents :: "snapshot \<Rightarrow> intent list" where
  "orphan_intents snap = filter (\<lambda>i. entry_of snap (it_ticket i) = None) (Intents snap VerbRefresh)"

definition apply_refresh_intents :: "'w loop_env \<Rightarrow> snapshot \<Rightarrow> ('w, unit) act" where
  "apply_refresh_intents E snap =
     and_then (each_io (\<lambda>r. let t = e_ticket (entry_at snap (rq_ticket r)) in
         and_then (wrapping (repo_branch t) (refresh_one E snap t (rq_row r) (rq_requested r)))
           (\<lambda>_. if rq_requested r then consume_all E (refresh_intents snap (rq_ticket r)) else ret ()))
         (Refreshes snap))
       (\<lambda>_. consume_all E (orphan_intents snap))"

subsection \<open>Transitions, drafts and merged bases\<close>

definition transition_event :: "transition_kind \<Rightarrow> event_kind" where
  "transition_event k = (case k of
     TransitionOpened \<Rightarrow> EventPROpened | TransitionMerged \<Rightarrow> EventPRMerged
   | TransitionChecksLanded \<Rightarrow> EventChecksLanded | TransitionVerdict \<Rightarrow> EventVerdictTransition)"

definition record_transitions :: "'w loop_env \<Rightarrow> snapshot \<Rightarrow> ('w, unit) act" where
  "record_transitions E snap =
     and_then (each_io (\<lambda>tr. let kind = transition_event (tr_kind tr) in
         wrapping (''record '' @ event_kind_text kind @ '' for '' @ tr_ticket tr)
           (on_store (append_event (tr_at tr) (tr_ticket tr) kind (tr_detail tr)))) (sn_transitions snap))
       (\<lambda>_. if \<forall>tr \<in> set (sn_transitions snap). tr_kind tr \<noteq> TransitionVerdict then ret ()
            else wrapping ''save last verdicts'' (on_store (save_last_verdicts (sn_verdicts snap))))"

definition ready_one :: "'w loop_env \<Rightarrow> ticket \<Rightarrow> ('w, unit) act" where
  "ready_one E t =
     try_else (on_world (fo_ready (le_forge E) (checkout E (t_repo t)) (t_branch t)))
       (\<lambda>err. record_event E (t_url t) EventDraftReadyFailed (error_text err))
       (\<lambda>_. record_event E (t_url t) EventDraftReady [])"

definition each_entry :: "snapshot \<Rightarrow> (entry \<Rightarrow> bool) \<Rightarrow> (entry \<Rightarrow> ('w, unit) act) \<Rightarrow> ('w, unit) act" where
  "each_entry snap keep f =
     each_io (\<lambda>e. if \<not> keep e then ret () else wrapping (repo_branch (e_ticket e)) (f e)) (sn_entries snap)"

definition apply_draft_gate :: "'w loop_env \<Rightarrow> snapshot \<Rightarrow> ('w, unit) act" where
  "apply_draft_gate E snap = each_entry snap e_ready_to_undraft (\<lambda>e. ready_one E (e_ticket e))"

definition retarget_one :: "'w loop_env \<Rightarrow> snapshot \<Rightarrow> ticket \<Rightarrow> push_row \<Rightarrow> ('w, unit) act" where
  "retarget_one E snap t row =
     try_else (on_world (fo_edit (le_forge E) (checkout E (t_repo t)) (t_branch t) default_base_branch))
       (\<lambda>err. record_event E (t_url t) EventRetargetFailed (error_text err))
       (\<lambda>_. and_then (clock_now E) (\<lambda>at.
         and_then (wrapping ''record retargeted push'' (on_store (record_push
             \<lparr>pq_ticket = t_url t, pq_tip = pw_pushed_tip row, pq_base_sha = pw_base_sha_at_push row,
               pq_base_branch = default_base_branch, pq_at = at\<rparr>))) (\<lambda>_.
         and_then (wrapping ''record retarget'' (record_event E (t_url t) EventRetargeted
             (''re-pointed '' @ t_branch t @ '' from '' @ pw_base_branch row @ '' at '' @ default_base_branch
              @ '', which merged''))) (\<lambda>_.
         wrapping ''refresh after retarget'' (refresh_one E snap t row False)))))"

definition retarget_merged :: "'w loop_env \<Rightarrow> snapshot \<Rightarrow> ('w, unit) act" where
  "retarget_merged E snap =
     each_io (\<lambda>r. let t = e_ticket (entry_at snap (rt_ticket r)) in
       wrapping (repo_branch t) (retarget_one E snap t (rt_row r))) (Retargets snap)"

end
