(* ===== verification/Loop_Runs.thy ===== *)
theory Loop_Runs imports Loop_Push begin

text \<open>
  The runs of agents: how one is started (\<open>cutAndSpawn\<close>, \<open>spawnRun\<close> and the launching in \<open>loop.go\<close>, \<open>steps.go\<close>,
  the agent files of \<open>settings.go\<close>) and how a tick settles the ones that ended (\<open>observeRuns\<close>, \<open>reconcileRuns\<close>,
  \<open>disposeRun\<close>, \<open>outcomeFor\<close>).

  A panic of the Go program (unwrapping an empty option, the first step of a workflow without steps) is the
  error \<open>panicked\<close>; the program does not recover from one.
\<close>

definition panicked :: io_error where "panicked = Sentinel ''panic''"

subsection \<open>Agent files\<close>

definition agent_settings :: string where
  "agent_settings = join nl [
     ''{'',
     ''  \"permissions\": {'',
     ''    \"deny\": ['',
     ''      \"Bash(git push:*)\",'',
     ''      \"Bash(gh:*)\",'',
     ''      \"WebFetch\",'',
     ''      \"WebSearch\"'',
     ''    ]'',
     ''  }'',
     ''}'', []]"

definition em_dash :: string where
  "em_dash = [char_of (0xE2::nat), char_of (0x80::nat), char_of (0x94::nat)]"

definition agent_system_prompt :: string where
  "agent_system_prompt = join nl [
     ''This session runs non-interactively (claude -p). Each run ends with your turn, and the'',
     ''owner may continue the session later with a message.'',
     [],
     ''Foreground subagents (Task, where you wait on the result within this turn) are allowed.'',
     ''Do not spawn a background subagent and end your turn waiting for its result: its completion'',
     ''notification arrives in a later turn, and this session has none. That result never reaches you,'',
     ''and the process exits with your work uncommitted.'',
     [],
     ''Do the writing, editing and committing yourself.'',
     [],
     ''Write a comment only if it passes this test: name the specific thing a reader would get wrong'',
     ''without it, and that thing must live outside this repo'' @ apos @ ''s control. If you cannot name it, or the'',
     ''answer is your own code being confusing, delete the comment and fix the code. The only exceptions:'',
     ''legal or licence headers, a directive that changes what the build does (//go:build, //go:generate),'',
     ''a constraint imposed from outside the repo (vendor, protocol, spec, upstream bug '' @ em_dash @ '' link it), and a'',
     ''doc comment on an exported identifier stating its contract.'',
     [],
     ''The shell is zsh. Prefer rg over grep --include for searching.'',
     [],
     ''Commit before your turn ends.'', []]"

text \<open>Each file is written whatever happened to the one before; the errors are joined.\<close>

definition write_agent_file :: "'w files \<Rightarrow> string \<times> string \<Rightarrow> 'w \<Rightarrow> io_error list \<times> 'w" where
  "write_agent_file F pc w =
     (case fi_write_file F (fst pc) (snd pc) w of
        (Inr _, w') \<Rightarrow> ([], w')
      | (Inl e, w') \<Rightarrow> ([Wrapped (''write agent file '' @ fst pc) e], w'))"

definition write_agent_files :: "'w files \<Rightarrow> string \<Rightarrow> string \<Rightarrow> ('w, unit) io" where
  "write_agent_files F settings_path system_prompt_path w =
     (let (e1, w1) = write_agent_file F (settings_path, agent_settings) w;
          (e2, w2) = write_agent_file F (system_prompt_path, agent_system_prompt) w1
      in (case e1 @ e2 of [] \<Rightarrow> Inr () | [e] \<Rightarrow> Inl e | e # e' # _ \<Rightarrow> Inl (Joined e e'), w2))"

subsection \<open>Steps\<close>

definition agent_model :: string where "agent_model = ''claude-sonnet-5-5''"
definition default_workflow :: string where "default_workflow = ''v0''"

definition no_step :: step where
  "no_step = \<lparr>s_name = [], s_command = False, s_model = [], s_tools = [], s_prompt = [], s_writes = False, s_on_fail = False\<rparr>"

record start =
  sa_workflow :: workflow
  sa_step :: step
  sa_verify :: "string list"

definition known_workflow :: "'w loop_env \<Rightarrow> string \<Rightarrow> workflow option" where
  "known_workflow E h =
     (if h = [] then None else find (\<lambda>w. w_hash w = h) (map snd (le_workflows E)))"

definition step_of :: "'w loop_env \<Rightarrow> pending_run \<Rightarrow> (workflow \<times> step) option" where
  "step_of E run =
     (case known_workflow E (pn_workflow_hash run) of
        None \<Rightarrow> None
      | Some w \<Rightarrow> map_option (\<lambda>s. (w, s)) (find (\<lambda>s. s_name s = pn_step run) (w_steps w)))"

definition final_step :: "workflow \<Rightarrow> step \<Rightarrow> bool" where
  "final_step w s \<longleftrightarrow> s_name (last (w_steps w)) = s_name s"

definition verify_of :: "observation \<Rightarrow> string \<Rightarrow> string list" where
  "verify_of ob repo = rs_verify_command (get_or no_settings (ob_settings ob) repo)"

definition start_of :: "'w loop_env \<Rightarrow> entry \<Rightarrow> observation \<Rightarrow> io_error + start" where
  "start_of E e ob =
     (let w = (case map_of (le_workflows E) (e_workflow e) of
                 Some w \<Rightarrow> w | None \<Rightarrow> get_or no_workflow (le_workflows E) default_workflow);
          verify = verify_of ob (t_repo (e_ticket e))
      in case w_steps w of
           [] \<Rightarrow> Inl panicked
         | s # _ \<Rightarrow> Inr \<lparr>sa_workflow = w,
             sa_step = (case first_step w (verify \<noteq> []) of Some f \<Rightarrow> f | None \<Rightarrow> s), sa_verify = verify\<rparr>)"

definition agent_prompt :: "store_ticket \<Rightarrow> ticket \<Rightarrow> string" where
  "agent_prompt tk launched =
     Compose launched @ (if ss_body tk \<noteq> [] then nl @ nl @ ''## Ticket'' @ nl @ nl @ ss_body tk else [])"

definition step_prompt :: "store_ticket \<Rightarrow> ticket \<Rightarrow> step \<Rightarrow> step_run list \<Rightarrow> string" where
  "step_prompt tk launched s pass =
     (if s_prompt s = [] then agent_prompt tk launched
      else trim_space (compose_step launched (s\<lparr>s_prompt := []\<rparr>) pass)
           @ (if ss_body tk \<noteq> [] then nl @ nl @ ''## Ticket body'' @ nl @ nl @ ss_body tk else []))"

subsection \<open>Starting a run\<close>

record spawn_spec =
  xs_ticket :: store_ticket
  xs_worktree :: string
  xs_baseline :: string
  xs_hash :: string
  xs_prompt :: string
  xs_kind :: run_kind
  xs_choice :: agent_choice
  xs_resume_session_id :: string
  xs_message :: string
  xs_workflow :: workflow
  xs_step :: step
  xs_verify :: "string list"

definition agent_kind :: "run_kind \<Rightarrow> bool" where
  "agent_kind k \<longleftrightarrow> k = RunKindAgent \<or> k = RunKindFollowUp"

definition session_of_spec :: "spawn_spec \<Rightarrow> run_session" where
  "session_of_spec sp =
     (if xs_resume_session_id sp \<noteq> [] then \<lparr>rj_start_new = False, rj_join_id = xs_resume_session_id sp, rj_message = xs_message sp\<rparr>
      else if agent_kind (xs_kind sp) then \<lparr>rj_start_new = True, rj_join_id = [], rj_message = xs_message sp\<rparr>
      else \<lparr>rj_start_new = False, rj_join_id = [], rj_message = []\<rparr>)"

text \<open>The first part of \<open>spawnRun\<close>: the default workflow where none is given, the kind and the choice of the step.\<close>

definition with_workflow :: "'w loop_env \<Rightarrow> spawn_spec \<Rightarrow> io_error + spawn_spec" where
  "with_workflow E sp =
     (if w_name (xs_workflow sp) \<noteq> [] then Inr sp
      else let w = get_or no_workflow (le_workflows E) default_workflow
           in case w_steps w of [] \<Rightarrow> Inl panicked | s # _ \<Rightarrow> Inr (sp\<lparr>xs_workflow := w, xs_step := s\<rparr>))"

definition with_choice :: "spawn_spec \<Rightarrow> spawn_spec" where
  "with_choice sp =
     (let s = xs_step sp; c = xs_choice sp in
      if s_command s then sp\<lparr>xs_kind := RunKindCommand, xs_choice := \<lparr>choice_model = [], choice_effort = None\<rparr>\<rparr>
      else if s_model s \<noteq> [] then sp\<lparr>xs_choice := \<lparr>choice_model = s_model s, choice_effort = None\<rparr>\<rparr>
      else if choice_model c = [] then sp\<lparr>xs_choice := c\<lparr>choice_model := agent_model\<rparr>\<rparr>
      else sp)"

definition run_path :: "'w loop_env \<Rightarrow> run_id \<Rightarrow> string \<Rightarrow> string" where
  "run_path E i ext = path_join (le_runs_dir E) (itoa i @ ''.'' @ ext)"

definition question_path :: "'w loop_env \<Rightarrow> run_id \<Rightarrow> string" where
  "question_path E i = run_path E i ''question''"

definition full_prompt :: "'w loop_env \<Rightarrow> run_id \<Rightarrow> spawn_spec \<Rightarrow> string" where
  "full_prompt E i sp =
     (let s = xs_step sp; can_ask = (s_tools s = [] \<or> ''Write'' \<in> set (s_tools s))
      in xs_prompt sp @ (if \<not> s_command s \<and> can_ask \<and> agent_kind (xs_kind sp)
                         then compose_asking (question_path E i) else []))"

definition system_prompt_for :: "'w loop_env \<Rightarrow> run_id \<Rightarrow> spawn_spec \<Rightarrow> ('w, string) act" where
  "system_prompt_for E i sp =
     (if s_prompt (xs_step sp) = [] \<or> s_command (xs_step sp) then ret (le_system_prompt_path E)
      else let path = run_path E i ''system.md'' in
        and_then (wrapping (''write system prompt for run '' @ itoa i)
            (on_world (fi_write_file (le_files E) path (agent_system_prompt @ nl @ s_prompt (xs_step sp)))))
          (\<lambda>_. ret path))"

definition spawn_config_of :: "'w loop_env \<Rightarrow> run_id \<Rightarrow> spawn_spec \<Rightarrow> string \<Rightarrow> string \<Rightarrow> spawn_config" where
  "spawn_config_of E i sp session system_prompt =
     (let blank = \<lparr>sc_agent_command = xs_verify sp, sc_worktree_path = xs_worktree sp, sc_settings_path = [],
            sc_system_prompt_path = [], sc_model = [], sc_effort = None, sc_tools = [], sc_prompt = [],
            sc_prompt_path = [], sc_session_id = [], sc_resume = False, sc_log_file = run_path E i ''jsonl''\<rparr>
      in if s_command (xs_step sp) then blank
         else blank\<lparr>sc_agent_command := cf_agent_command (le_config E), sc_settings_path := le_settings_path E,
           sc_system_prompt_path := (if xs_kind sp = RunKindAgent then system_prompt else []),
           sc_model := choice_model (xs_choice sp), sc_effort := choice_effort (xs_choice sp),
           sc_tools := s_tools (xs_step sp), sc_prompt := full_prompt E i sp, sc_prompt_path := run_path E i ''prompt'',
           sc_session_id := session, sc_resume := xs_resume_session_id sp \<noteq> []\<rparr>)"

definition spawn_failed :: "'w loop_env \<Rightarrow> run_id \<Rightarrow> ticket_url \<Rightarrow> io_error \<Rightarrow> ('w, unit) act" where
  "spawn_failed E i url e =
     and_then (clock_now E) (\<lambda>at.
     try_else (on_store (record_disposition \<lparr>dp_run_id = i, dp_outcome = disposition 0, dp_exit_code = None,
           dp_cost = None, dp_last_message = None, dp_metrics = None, dp_ended_at = at\<rparr>))
       (\<lambda>de. fail_with (Joined (Wrapped (''spawn run '' @ itoa i) e)
          (Wrapped (''record disposition for failed spawn of run '' @ itoa i) de)))
       (\<lambda>_. record_event E url EventSpawnFailed (error_text e)))"

definition spawned :: "'w loop_env \<Rightarrow> run_id \<Rightarrow> spawn_spec \<Rightarrow> int \<Rightarrow> ('w, unit) act" where
  "spawned E i sp pid =
     (let url = ss_url (xs_ticket sp) in
      and_then (clock_now E) (\<lambda>at.
      and_then (wrapping (''record spawn of run '' @ itoa i) (on_store (record_spawn i pid at (run_path E i ''jsonl'')))) (\<lambda>_.
      and_then (on_tick (\<lambda>t. t\<lparr>tc_spawned := tc_spawned t @ [url]\<rparr>)) (\<lambda>_.
      record_event E url EventRunLaunched (''spawned pid '' @ itoa pid @ '' in '' @ xs_worktree sp
        @ (if xs_baseline sp \<noteq> [] then '' from '' @ xs_baseline sp else []))))))"

definition insert_skeleton :: "spawn_spec \<Rightarrow> (int \<times> string) query" where
  "insert_skeleton sp = insert_session_run_skeleton
     \<lparr>rl_ticket = ss_url (xs_ticket sp), rl_kind = xs_kind sp, rl_baseline_sha = xs_baseline sp, rl_prompt_hash = xs_hash sp,
      rl_choice = xs_choice sp, rl_session = session_of_spec sp, rl_step = s_name (xs_step sp),
      rl_workflow = w_name (xs_workflow sp), rl_workflow_hash = w_hash (xs_workflow sp)\<rparr>"

text \<open>The log file is open while the agent is started, and closed whatever comes of it.\<close>

definition and_close_log :: "'w loop_env \<Rightarrow> run_id \<Rightarrow> ('w, unit) act \<Rightarrow> ('w, unit) act" where
  "and_close_log E i body s =
     (case body s of (r, s1) \<Rightarrow>
        (case on_world (fi_close (le_files E) (run_path E i ''jsonl'')) s1 of
           (Inr _, s2) \<Rightarrow> (r, s2)
         | (Inl e, s2) \<Rightarrow>
             let ce = Wrapped (''close log for run '' @ itoa i) e
             in (Inl (case r of Inl e0 \<Rightarrow> Joined e0 ce | Inr _ \<Rightarrow> ce), s2)))"

definition start_agent :: "'w loop_env \<Rightarrow> run_id \<Rightarrow> spawn_spec \<Rightarrow> string \<Rightarrow> string \<Rightarrow> ('w, unit) act" where
  "start_agent E i sp session system_prompt =
     try_else (on_world (ar_spawn (le_runner E) (spawn_config_of E i sp session system_prompt)))
       (spawn_failed E i (ss_url (xs_ticket sp))) (spawned E i sp)"

definition spawn_run :: "'w loop_env \<Rightarrow> spawn_spec \<Rightarrow> ('w, unit) act" where
  "spawn_run E spec =
     and_then (lift_sum (with_workflow E spec)) (\<lambda>spec.
     let sp = with_choice spec in
     and_then (wrapping (''insert run skeleton for '' @ ss_url (xs_ticket sp)) (on_store (insert_skeleton sp))) (\<lambda>(i, session).
     and_then (if s_command (xs_step sp) then ret ()
               else wrapping (''write prompt for run '' @ itoa i)
                 (on_world (fi_write_file (le_files E) (run_path E i ''prompt'') (full_prompt E i sp)))) (\<lambda>_.
     and_then (system_prompt_for E i sp) (\<lambda>system_prompt.
     and_then (wrapping (''open log for run '' @ itoa i) (on_world (fi_create (le_files E) (run_path E i ''jsonl'')))) (\<lambda>_.
     and_close_log E i (start_agent E i sp session system_prompt))))))"

definition agent_spec :: "store_ticket \<Rightarrow> string \<Rightarrow> string \<Rightarrow> string \<Rightarrow> ticket \<Rightarrow> start \<Rightarrow> string \<Rightarrow> spawn_spec" where
  "agent_spec tk wt baseline h launched begin_at prompt =
     \<lparr>xs_ticket = tk, xs_worktree = wt, xs_baseline = baseline, xs_hash = h, xs_prompt = prompt, xs_kind = RunKindAgent,
      xs_choice = t_choice launched, xs_resume_session_id = [], xs_message = [], xs_workflow = sa_workflow begin_at,
      xs_step = sa_step begin_at, xs_verify = sa_verify begin_at\<rparr>"

definition cut_failed :: "'w loop_env \<Rightarrow> store_ticket \<Rightarrow> string \<Rightarrow> start \<Rightarrow> io_error \<Rightarrow> ('w, unit) act" where
  "cut_failed E tk h begin_at e =
     and_then (clock_now E) (\<lambda>at.
     try_else (on_store (insert_cut_failed_run
           \<lparr>rl_ticket = ss_url tk, rl_kind = RunKindUnknown, rl_baseline_sha = [], rl_prompt_hash = h,
            rl_choice = \<lparr>choice_model = [], choice_effort = None\<rparr>,
            rl_session = \<lparr>rj_start_new = False, rj_join_id = [], rj_message = []\<rparr>, rl_step = s_name (sa_step begin_at),
            rl_workflow = w_name (sa_workflow begin_at), rl_workflow_hash = w_hash (sa_workflow begin_at)\<rparr> at))
       (\<lambda>ie. fail_with (Joined (Wrapped (''cut '' @ ss_branch tk) e)
          (Wrapped (''record failed cut of '' @ ss_branch tk) ie)))
       (\<lambda>_. record_event E (ss_url tk) EventCutFailed (error_text e)))"

definition cut_and_spawn ::
  "'w loop_env \<Rightarrow> store_ticket \<Rightarrow> ticket \<Rightarrow> string \<Rightarrow> string \<Rightarrow> start \<Rightarrow> ('w, unit) act" where
  "cut_and_spawn E tk launched base h begin_at =
     (let branch = ss_branch tk; repo_path = checkout E (ss_repo tk) in
      try_else (on_world (wt_new (le_worktrees E) repo_path branch (''origin/'' @ base)))
        (cut_failed E tk h begin_at)
        (\<lambda>_. and_then (wrapping (''read baseline for '' @ ss_url tk) (on_world (branch_tip (le_host E) repo_path branch))) (\<lambda>baseline.
           and_then (wrapping (''list worktrees after cutting '' @ branch) (on_world (worktree_paths (le_host E) repo_path))) (\<lambda>wts.
           case map_of wts branch of
             None \<Rightarrow> fail_with (Plain (''tp new '' @ branch @ '' reported success but git worktree list does not show it''))
           | Some wt \<Rightarrow> wrapping (''spawn agent in '' @ wt)
               (spawn_run E (agent_spec tk wt baseline h launched begin_at
                  (step_prompt tk launched (sa_step begin_at) [])))))))"

subsection \<open>Launching\<close>

fun with_handoffs :: "'w loop_env \<Rightarrow> step_run list \<Rightarrow> ('w, step_run list) act" where
  "with_handoffs E [] = ret []"
| "with_handoffs E (r # rs) =
     and_then (read_handoff E (sr_id r)) (\<lambda>body.
     and_then (with_handoffs E rs) (\<lambda>rest. ret (r\<lparr>sr_handoff := body\<rparr> # rest)))"

definition no_run_summary :: run_summary where
  "no_run_summary = \<lparr>rn_id = 0, rn_pgid = None, rn_proc_started_at = None, rn_outcome = None, rn_exit_code = None,
     rn_ended_at = None, rn_log_path = [], rn_baseline_sha = [], rn_prompt_hash = [], rn_kind = RunKindUnknown,
     rn_question = [], rn_step = [], rn_workflow_hash = []\<rparr>"

definition advance_pass :: "'w loop_env \<Rightarrow> store_ticket \<Rightarrow> entry \<Rightarrow> ('w, unit) act" where
  "advance_pass E tk e =
     with_tick (\<lambda>t. let ob = tc_obs t; url = ss_url tk in
       and_then (wrapping ''latest runs'' (on_store latest_runs_by_ticket)) (\<lambda>latest.
       let summary = get_or no_run_summary latest url in
       case known_workflow E (rn_workflow_hash summary) of
         None \<Rightarrow> ret ()
       | Some w \<Rightarrow>
       case map_of (ob_worktrees ob) (store_ticket_ref tk) of
         None \<Rightarrow> record_event E url EventSpawnFailed ''no worktree to continue the workflow in''
       | Some wt \<Rightarrow>
       let verify = verify_of ob (ss_repo tk) in
       and_then (wrapping ''pass runs'' (on_store pass_runs)) (\<lambda>passes.
       and_then (with_handoffs E (workflow_pass w (get_or [] passes url) (verify \<noteq> []))) (\<lambda>pass.
       and_then (wrapping (''read baseline for '' @ url)
           (on_world (branch_tip (le_host E) (checkout E (ss_repo tk)) (ss_branch tk)))) (\<lambda>baseline.
       case n_step (e_next e) of
         None \<Rightarrow> fail_with panicked
       | Some s \<Rightarrow>
           spawn_run E (agent_spec tk wt baseline (rn_prompt_hash summary) (e_ticket e)
             \<lparr>sa_workflow = w, sa_step = s, sa_verify = verify\<rparr> (step_prompt tk (e_ticket e) s pass)))))))"

definition no_store_ticket :: store_ticket where
  "no_store_ticket = \<lparr>ss_url = [], ss_repo = [], ss_branch = [], ss_blocked_by = [], ss_source = [], ss_title = [],
     ss_body = [], ss_status = [], ss_feature = [], ss_synced_at = 0\<rparr>"

type_synonym tickets_map = "(ticket_url, store_ticket) gomap"

definition store_tickets_by_url :: "store_ticket list \<Rightarrow> tickets_map" where
  "store_tickets_by_url ts = fold (\<lambda>t m. put (ss_url t) t m) ts []"

definition launch_one :: "'w loop_env \<Rightarrow> snapshot \<Rightarrow> tickets_map \<Rightarrow> ticket_url \<Rightarrow> ('w, unit) act" where
  "launch_one E snap by_url url =
     with_tick (\<lambda>t.
       if url \<in> set (tc_spawned t) then ret ()
       else let e = entry_at snap url; tk = get_or no_store_ticket by_url url in
         wrapping url
           (if e_run e \<noteq> None then advance_pass E tk e
            else and_then (lift_sum (start_of E e (tc_obs t))) (\<lambda>begin_at.
              cut_and_spawn E tk (e_ticket e) (u_base_branch (e_unlock e)) (e_prompt_hash e) begin_at)))"

definition launch_eligible :: "'w loop_env \<Rightarrow> snapshot \<Rightarrow> tickets_map \<Rightarrow> ('w, unit) act" where
  "launch_eligible E snap by_url =
     with_tick (\<lambda>t. each_io (launch_one E snap by_url) (launch_after snap (int (length (tc_spawned t)))))"

end
