(* ===== verification/Loop_Settle.thy ===== *)
theory Loop_Settle imports Loop_Runs begin

text \<open>
  Runs that ended, in \<open>internal/loop/loop.go\<close> and \<open>steps.go\<close>: which are alive (\<open>observeRuns\<close>), which are killed
  (\<open>applyKillIntents\<close>, \<open>interruptForFollowUps\<close>), and how one that is over gets its outcome (\<open>reconcileRuns\<close>,
  \<open>disposeRun\<close>, \<open>outcomeFor\<close>).
\<close>

subsection \<open>Files of a run\<close>

definition max_question_bytes :: nat where "max_question_bytes = 4096"
definition max_command_handoff_bytes :: nat where "max_command_handoff_bytes = 4000"

definition read_limited :: "'w files \<Rightarrow> string \<Rightarrow> nat \<Rightarrow> ('w, string) io" where
  "read_limited F path n w =
     (case fi_read_at F path n 0 w of (r, w1) \<Rightarrow>
        (case fi_close F path w1 of
           (Inr _, w2) \<Rightarrow> (r, w2)
         | (Inl ce, w2) \<Rightarrow> (Inl (case r of Inl e \<Rightarrow> Joined e ce | Inr _ \<Rightarrow> ce), w2)))"

definition read_question_file :: "'w loop_env \<Rightarrow> run_id \<Rightarrow> ('w, string option) act" where
  "read_question_file E i =
     (let F = le_files E; path = question_path E i in
      try_else (on_world (fi_open F path))
        (\<lambda>e. if is_not_exist e then ret None else fail_with (Wrapped (''open question for run '' @ itoa i) e))
        (\<lambda>_. and_then (wrapping (''read question for run '' @ itoa i) (on_world (read_limited F path max_question_bytes)))
           (\<lambda>question. ret (Some question))))"

definition parse_log :: "string \<Rightarrow> ('w, 'a) io \<Rightarrow> ('w, 'a option) act" where
  "parse_log path parse =
     (if path = [] then ret None else try_else (on_world parse) (\<lambda>_. ret None) (\<lambda>v. ret (Some v)))"

definition tail_of :: "'w loop_env \<Rightarrow> string \<Rightarrow> ('w, string) act" where
  "tail_of E path =
     (let F = le_files E in
      try_else (on_world (fi_open F path)) (\<lambda>_. ret []) (\<lambda>_.
      and_then (try_else (on_world (fi_size F path)) (\<lambda>_. ret [])
          (\<lambda>size. try_else (on_world (fi_read_at F path max_command_handoff_bytes
               (max 0 (size - int max_command_handoff_bytes)))) (\<lambda>_. ret []) ret)) (\<lambda>text.
      and_then (try_else (on_world (fi_close F path)) (\<lambda>_. ret ()) ret) (\<lambda>_.
      ret (to_valid_utf8 text)))))"

definition write_handoff :: "'w loop_env \<Rightarrow> pending_run \<Rightarrow> step \<Rightarrow> string option \<Rightarrow> bool \<Rightarrow> ('w, unit) act" where
  "write_handoff E run s last_message failed =
     and_then (if s_writes s then ret (text_of last_message)
         else if s_command s \<and> failed then
           and_then (tail_of E (pn_log_path run)) (\<lambda>text.
             ret (''The '' @ s_name s @ '' command failed. Its output ended:'' @ nl @ nl @ text))
         else ret [])
       (\<lambda>body. if trim_space body = [] then ret ()
          else try_else (on_world (fi_write_file (le_files E) (handoff_path E (pn_id run)) body)) (\<lambda>_. ret ()) ret)"

subsection \<open>Which runs are alive\<close>

definition observed_dead :: "'w loop_env \<Rightarrow> run_id \<Rightarrow> ticket_url \<Rightarrow> ('w, unit) act" where
  "observed_dead E i url =
     and_then (update_obs (\<lambda>ob. ob\<lparr>ob_runs := put url False (ob_runs ob)\<rparr>)) (\<lambda>_.
     and_then (read_question_file E i) (\<lambda>question. case question of
       None \<Rightarrow> ret ()
     | Some q \<Rightarrow> update_obs (\<lambda>ob. ob\<lparr>ob_questions := put i q (ob_questions ob)\<rparr>)))"

definition observe_run :: "'w loop_env \<Rightarrow> time \<Rightarrow> pending_run \<Rightarrow> ('w, unit) act" where
  "observe_run E now run =
     and_then (wrapping (''liveness for run '' @ itoa (pn_id run))
         (on_world (ar_liveness (le_runner E) (pn_pgid run) (pn_proc_started_at run) now)))
       (\<lambda>alive. if alive then update_obs (\<lambda>ob. mark_alive ob (pn_ticket_id run))
          else observed_dead E (pn_id run) (pn_ticket_id run))"

definition observe_runs :: "'w loop_env \<Rightarrow> ('w, unit) act" where
  "observe_runs E =
     and_then (wrapping ''list runs awaiting disposition'' (on_store pending_runs_awaiting_disposition)) (\<lambda>pending.
     and_then (update_obs (\<lambda>ob. ob\<lparr>ob_questions := []\<rparr>)) (\<lambda>_.
     and_then (clock_now E) (\<lambda>now. each_io (observe_run E now) pending)))"

subsection \<open>Killing\<close>

definition cancel_run :: "'w loop_env \<Rightarrow> ticket_url \<Rightarrow> int \<Rightarrow> ('w, unit) act" where
  "cancel_run E url pgid =
     and_then (wrapping (''cancel '' @ url @ '' (pgid '' @ itoa pgid @ '')'') (on_world (ar_cancel (le_runner E) pgid)))
       (\<lambda>_. on_tick (\<lambda>t. t\<lparr>tc_cancelled := put pgid True (tc_cancelled t)\<rparr>))"

definition apply_kill_intents :: "'w loop_env \<Rightarrow> ('w, unit) act" where
  "apply_kill_intents E =
     each_pending_intent E VerbKill (\<lambda>i.
       and_then (wrapping ''latest runs'' (on_store latest_runs_by_ticket)) (\<lambda>latest.
         case map_of latest (it_ticket i) of
           None \<Rightarrow> ret ()
         | Some run \<Rightarrow> (case (rn_pgid run, rn_outcome run) of
             (Some pgid, None) \<Rightarrow> cancel_run E (it_ticket i) pgid
           | _ \<Rightarrow> ret ())))"

text \<open>The process group of a run a follow-up may interrupt.\<close>

definition steerable :: "(ticket_url, run_summary) gomap \<Rightarrow> ticket_url \<Rightarrow> int option" where
  "steerable latest url =
     (case map_of latest url of
        None \<Rightarrow> None
      | Some run \<Rightarrow> if agent_kind (rn_kind run) \<and> rn_outcome run = None then rn_pgid run else None)"

fun interrupt_loop :: "'w loop_env \<Rightarrow> (ticket_url, run_summary) gomap \<Rightarrow> ticket_url list \<Rightarrow> ticket_url list \<Rightarrow> ('w, unit) act" where
  "interrupt_loop E latest done [] = ret ()"
| "interrupt_loop E latest done (url # urls) =
     (case steerable latest url of
        Some pgid \<Rightarrow>
          if url \<in> set done then interrupt_loop E latest done urls
          else and_then (cancel_run E url pgid) (\<lambda>_. interrupt_loop E latest (url # done) urls)
      | None \<Rightarrow> interrupt_loop E latest done urls)"

definition interrupt_for_follow_ups :: "'w loop_env \<Rightarrow> ('w, unit) act" where
  "interrupt_for_follow_ups E =
     and_then (wrapping ''list pending follow-up intents''
         (on_store (pending_verb_intents (le_payload_json E) VerbFollowUp))) (\<lambda>pending.
     if pending = [] then ret ()
     else and_then (wrapping ''latest runs'' (on_store latest_runs_by_ticket)) (\<lambda>latest.
       interrupt_loop E latest [] (map vi_ticket_id pending)))"

subsection \<open>The outcome of a run\<close>

definition follow_up_queued :: "'w loop_env \<Rightarrow> ticket_url \<Rightarrow> ('w, bool) act" where
  "follow_up_queued E url =
     and_then (wrapping ''list pending follow-up intents''
         (on_store (pending_verb_intents (le_payload_json E) VerbFollowUp)))
       (\<lambda>pending. ret (\<exists>i \<in> set pending. vi_ticket_id i = url))"

definition commits_since_baseline :: "'w loop_env \<Rightarrow> store_ticket \<Rightarrow> sha \<Rightarrow> ('w, int) act" where
  "commits_since_baseline E tk baseline =
     with_tick (\<lambda>t. let ob = tc_obs t; ref = store_ticket_ref tk; wt = get_or [] (ob_worktrees ob) ref in
       if wt \<noteq> [] then
         wrapping (''count commits in '' @ wt) (on_world (commits_since (le_host E) wt baseline ''HEAD''))
       else (case map_of (ob_branch_tips ob) ref of
               None \<Rightarrow> ret 0
             | Some tip \<Rightarrow> wrapping (''count commits on '' @ ss_repo tk @ ''/'' @ ss_branch tk)
                 (on_world (commits_since (le_host E) (checkout E (ss_repo tk)) baseline tip))))"

definition counted_commits :: "'w loop_env \<Rightarrow> pending_run \<Rightarrow> store_ticket \<Rightarrow> string \<Rightarrow> ('w, int) act" where
  "counted_commits E run tk baseline =
     (if baseline = [] then ret 0
      else wrapping (''commits since baseline for run '' @ itoa (pn_id run)) (commits_since_baseline E tk baseline))"

definition pass_baseline :: "'w loop_env \<Rightarrow> workflow \<Rightarrow> pending_run \<Rightarrow> bool \<Rightarrow> ('w, string) act" where
  "pass_baseline E w run has_verify =
     and_then (wrapping ''pass runs'' (on_store pass_runs)) (\<lambda>passes.
     case workflow_pass w (get_or [] passes (pn_ticket_id run)) has_verify of
       [] \<Rightarrow> ret (pn_baseline_sha run)
     | r # _ \<Rightarrow> wrapping ''pass baseline'' (on_store (run_baseline (sr_id r))))"

definition work_outcome :: "'w loop_env \<Rightarrow> pending_run \<Rightarrow> store_ticket \<Rightarrow> string \<Rightarrow> ('w, outcome) act" where
  "work_outcome E run tk baseline =
     and_then (counted_commits E run tk baseline) (\<lambda>commits. ret (disposition commits))"

definition earlier_step_outcome ::
  "'w loop_env \<Rightarrow> pending_run \<Rightarrow> store_ticket \<Rightarrow> step \<Rightarrow> int option \<Rightarrow> string option \<Rightarrow> ('w, outcome) act" where
  "earlier_step_outcome E run tk s code last_message =
     and_then (if \<not> s_command s \<and> \<not> s_writes s then counted_commits E run tk (pn_baseline_sha run) else ret 0)
       (\<lambda>commits. ret (step_outcome s \<lparr>ev_exit_code = code, ev_commits = commits, ev_handoff = last_message\<rparr>))"

definition carried_outcome ::
  "'w loop_env \<Rightarrow> pending_run \<Rightarrow> store_ticket \<Rightarrow> int option \<Rightarrow> string option \<Rightarrow> ('w, outcome) act" where
  "carried_outcome E run tk code last_message =
     (case step_of E run of
        None \<Rightarrow> work_outcome E run tk (pn_baseline_sha run)
      | Some (w, s) \<Rightarrow>
          if length (w_steps w) \<le> 1 then work_outcome E run tk (pn_baseline_sha run)
          else if \<not> final_step w s then earlier_step_outcome E run tk s code last_message
          else with_tick (\<lambda>t.
            and_then (wrapping (''pass baseline for run '' @ itoa (pn_id run))
                (pass_baseline E w run (verify_of (tc_obs t) (ss_repo tk) \<noteq> [])))
              (work_outcome E run tk)))"

definition outcome_for ::
  "'w loop_env \<Rightarrow> pending_run \<Rightarrow> store_ticket \<Rightarrow> int option \<Rightarrow> string option \<Rightarrow> ('w, outcome) act" where
  "outcome_for E run tk code last_message =
     and_then (if agent_kind (pn_kind run)
               then wrapping (''check queued follow-up for '' @ pn_ticket_id run) (follow_up_queued E (pn_ticket_id run))
               else ret False) (\<lambda>queued.
     if queued then ret OutcomeContinued
     else with_tick (\<lambda>t.
       case asked (pn_kind run) (map_of (ob_questions (tc_obs t)) (pn_id run)) of
         Some question \<Rightarrow>
           and_then (wrapping (''record question for run '' @ itoa (pn_id run))
               (on_store (record_question (pn_id run) question)))
             (\<lambda>_. ret OutcomeAsked)
       | None \<Rightarrow> carried_outcome E run tk code last_message))"

subsection \<open>Disposing of a run\<close>

definition record_run_readings :: "'w loop_env \<Rightarrow> pending_run \<Rightarrow> ('w, unit) act" where
  "record_run_readings E run =
     and_then (parse_log (pn_log_path run) (parse_readings (le_decode_line E) (le_files E) (pn_log_path run))) (\<lambda>readings.
     wrapping (''record readings for run '' @ itoa (pn_id run))
       (record_readings_and_intervals E (case readings of None \<Rightarrow> [] | Some rs \<Rightarrow> rs)
          (cf_claude_projects_dir (le_config E))))"

definition record_run_outcome ::
  "'w loop_env \<Rightarrow> pending_run \<Rightarrow> outcome \<Rightarrow> int option \<Rightarrow> string option \<Rightarrow> ('w, unit) act" where
  "record_run_outcome E run out code last_message =
     and_then (parse_log (pn_log_path run) (parse_metrics (le_decode_line E) (le_files E) (pn_log_path run))) (\<lambda>metrics.
     and_then (clock_now E) (\<lambda>at.
     wrapping (''record disposition for run '' @ itoa (pn_id run)) (on_store (record_disposition
       \<lparr>dp_run_id = pn_id run, dp_outcome = out, dp_exit_code = code,
        dp_cost = (case metrics of None \<Rightarrow> None | Some m \<Rightarrow> rx_cost_usd m), dp_last_message = last_message,
        dp_metrics = map_option (le_metrics_json E) metrics, dp_ended_at = at\<rparr>))))"

definition dispose_run :: "'w loop_env \<Rightarrow> pending_run \<Rightarrow> store_ticket \<Rightarrow> ('w, unit) act" where
  "dispose_run E run tk =
     and_then (on_world (\<lambda>w. case ar_reap (le_runner E) (pn_pgid run) w of (c, w') \<Rightarrow> (Inr c, w'))) (\<lambda>code.
     and_then (parse_log (pn_log_path run) (parse_last_message (le_decode_line E) (le_files E) (pn_log_path run))) (\<lambda>message.
     let last_message = (case message of None \<Rightarrow> None | Some m \<Rightarrow> m) in
     and_then (wrapping ''outcome'' (outcome_for E run tk code last_message)) (\<lambda>out.
     and_then (case step_of E run of
                 None \<Rightarrow> ret ()
               | Some (w, s) \<Rightarrow> write_handoff E run s last_message (out = OutcomeFailed)) (\<lambda>_.
     and_then (record_run_outcome E run out code last_message) (\<lambda>_.
     and_then (record_run_readings E run) (\<lambda>_.
     wrapping ''append run disposed event'' (record_event E (ss_url tk) EventRunDisposed (outcome_text out))))))))"

definition reconcile_run :: "'w loop_env \<Rightarrow> tickets_map \<Rightarrow> pending_run \<Rightarrow> ('w, unit) act" where
  "reconcile_run E by_url run =
     with_tick (\<lambda>t. let url = pn_ticket_id run; seen = map_of (ob_runs (tc_obs t)) url;
         dispose = wrapping (''dispose run '' @ itoa (pn_id run) @ '' of '' @ url)
           (dispose_run E run (get_or no_store_ticket by_url url)) in
       if seen = Some False then dispose
       else if seen \<noteq> None \<and> \<not> get_or False (tc_cancelled t) (pn_pgid run) then ret ()
       else
         and_then (clock_now E) (\<lambda>now.
         and_then (wrapping (''liveness for run '' @ itoa (pn_id run))
             (on_world (ar_liveness (le_runner E) (pn_pgid run) (pn_proc_started_at run) now))) (\<lambda>alive.
         if alive then update_obs (\<lambda>ob. mark_alive ob url)
         else and_then (observed_dead E (pn_id run) url) (\<lambda>_. dispose))))"

definition reconcile_runs :: "'w loop_env \<Rightarrow> tickets_map \<Rightarrow> ('w, unit) act" where
  "reconcile_runs E by_url =
     and_then (wrapping ''list runs awaiting disposition'' (on_store pending_runs_awaiting_disposition))
       (each_io (reconcile_run E by_url))"

end
