(* ===== verification/Loop_Verbs.thy ===== *)
theory Loop_Verbs imports Loop_Settle begin

text \<open>
  The verbs of \<open>internal/loop/verbs.go\<close> that a user asks for on a ticket: abort a merge, follow up on a run,
  cancel a launch, run again, remove the worktree. Each is applied to the intents that wait for it.
\<close>

subsection \<open>Abort\<close>

definition abort_one :: "'w loop_env \<Rightarrow> ticket \<Rightarrow> ('w, unit) act" where
  "abort_one E t =
     with_tick (\<lambda>tick. let (wt, refusal) = idle_worktree_for t (tc_obs tick) in
       if refusal \<noteq> [] then record_event E (t_url t) EventMergeAbortFailed refusal
       else
         try_else (on_world (merge_abort (le_host E) wt))
           (\<lambda>err. record_event E (t_url t) EventMergeAbortFailed (error_text err))
           (\<lambda>_. and_then (update_obs (\<lambda>ob. ob\<lparr>ob_mid_merge := del_key (ticket_ref t) (ob_mid_merge ob)\<rparr>))
              (\<lambda>_. record_event E (t_url t) EventMergeAborted [])))"

definition apply_abort_intents :: "'w loop_env \<Rightarrow> snapshot \<Rightarrow> ('w, unit) act" where
  "apply_abort_intents E snap =
     each_intent E snap VerbAbort (\<lambda>i. case entry_of snap (it_ticket i) of
       None \<Rightarrow> ret ()
     | Some e \<Rightarrow> wrapping (repo_branch (e_ticket e)) (abort_one E (e_ticket e)))"

subsection \<open>Follow-up\<close>

definition decode_follow_up :: "'w loop_env \<Rightarrow> string \<Rightarrow> follow_up_payload" where
  "decode_follow_up E raw =
     (case (if has_prefix raw ''{'' then le_follow_up E raw else None) of
        Some p \<Rightarrow> p
      | None \<Rightarrow> \<lparr>fp_message = raw, fp_model = [], fp_effort = None\<rparr>)"

fun transcript_in :: "'w loop_env \<Rightarrow> string \<Rightarrow> string list \<Rightarrow> ('w, string) act" where
  "transcript_in E session [] = ret []"
| "transcript_in E session (dir # dirs) =
     try_else (on_world (fi_stat (le_files E)
         (path_join (path_join (cf_claude_projects_dir (le_config E)) dir) (session @ ''.jsonl''))))
       (\<lambda>_. transcript_in E session dirs) (\<lambda>_. ret session)"

definition resumable_session :: "'w loop_env \<Rightarrow> string \<Rightarrow> ('w, string) act" where
  "resumable_session E session =
     (if session = [] then ret []
      else try_else (on_world (fi_read_dir (le_files E) (cf_claude_projects_dir (le_config E))))
        (\<lambda>e. if is_not_exist e then ret [] else fail_with (Wrapped ''read claude projects dir'' e))
        (transcript_in E session))"

definition follow_up_choice :: "agent_choice \<Rightarrow> follow_up_payload \<Rightarrow> agent_choice" where
  "follow_up_choice c p =
     \<lparr>choice_model = (if fp_model p \<noteq> [] then fp_model p else choice_model c),
      choice_effort = (if fp_effort p \<noteq> None then fp_effort p else choice_effort c)\<rparr>"

definition follow_up_spec :: "store_ticket \<Rightarrow> entry \<Rightarrow> string \<Rightarrow> string \<Rightarrow> follow_up_payload \<Rightarrow> string \<Rightarrow> spawn_spec" where
  "follow_up_spec tk e wt baseline picked session =
     (let message = fp_message picked;
          out = (case e_run e of None \<Rightarrow> OutcomeFailed
                 | Some run \<Rightarrow> (case rf_outcome run of None \<Rightarrow> OutcomeFailed | Some o' \<Rightarrow> o'))
      in \<lparr>xs_ticket = tk, xs_worktree = wt, xs_baseline = baseline, xs_hash = [],
          xs_prompt = (if session \<noteq> [] then compose_message message out else compose_follow_up message),
          xs_kind = RunKindFollowUp, xs_choice = follow_up_choice (t_choice (e_ticket e)) picked,
          xs_resume_session_id = session, xs_message = message, xs_workflow = no_workflow, xs_step = no_step,
          xs_verify = []\<rparr>)"

definition follow_up_one :: "'w loop_env \<Rightarrow> snapshot \<Rightarrow> store_ticket \<Rightarrow> string \<Rightarrow> ('w, unit) act" where
  "follow_up_one E snap tk payload =
     with_tick (\<lambda>t. let ob = tc_obs t; picked = decode_follow_up E payload; url = ss_url tk;
                        (wt, refusal) = idle_worktree_for (store_ticket_plan tk) ob in
       if get_or False (ob_runs ob) url then fail_with intent_pending
       else if refusal \<noteq> [] then record_event E url EventFollowUpRefused refusal
       else
         and_then (wrapping (''read baseline for follow-up of '' @ url)
             (on_world (branch_tip (le_host E) (checkout E (ss_repo tk)) (ss_branch tk)))) (\<lambda>baseline.
         and_then (wrapping ''find resumable session'' (resumable_session E (text_of (session_of snap url)))) (\<lambda>session.
         and_then (wrapping ''spawn follow-up''
             (spawn_run E (follow_up_spec tk (entry_at snap url) wt baseline picked session))) (\<lambda>_.
         with_tick (\<lambda>t. if url \<in> set (tc_spawned t) then update_obs (\<lambda>ob. mark_alive ob url) else ret ())))))"

definition apply_follow_up_intents :: "'w loop_env \<Rightarrow> snapshot \<Rightarrow> tickets_map \<Rightarrow> ('w, unit) act" where
  "apply_follow_up_intents E snap by_url =
     each_intent E snap VerbFollowUp (\<lambda>i. case map_of by_url (it_ticket i) of
       None \<Rightarrow> ret ()
     | Some tk \<Rightarrow> wrapping (ss_repo tk @ ''/'' @ ss_branch tk) (follow_up_one E snap tk (it_payload i)))"

subsection \<open>Cancel and run again\<close>

definition apply_cancel_intents :: "'w loop_env \<Rightarrow> ('w, unit) act" where
  "apply_cancel_intents E =
     each_pending_intent E VerbCancel (\<lambda>i.
       and_then (wrapping ''cancel launches'' (on_store (cancel_launches_for (it_ticket i)))) (\<lambda>members.
         record_event E (it_ticket i) EventLaunchCancelled (''launch cancelled, '' @ itoa members @ '' member(s)'')))"

definition re_run_one :: "'w loop_env \<Rightarrow> store_ticket \<Rightarrow> entry \<Rightarrow> string \<Rightarrow> ('w, unit) act" where
  "re_run_one E tk e base =
     with_tick (\<lambda>t. let ob = tc_obs t; launched = e_ticket e; repo_path = checkout E (ss_repo tk) in
       and_then (lift_sum (start_of E e ob)) (\<lambda>begin_at.
       case map_of (ob_worktrees ob) (store_ticket_ref tk) of
         None \<Rightarrow>
           and_then (wrapping (''clear stale branch before re-cutting '' @ ss_branch tk)
               (on_world (delete_branch_if_exists (le_host E) repo_path (ss_branch tk)))) (\<lambda>_.
           wrapping (''re-cut '' @ ss_branch tk) (cut_and_spawn E tk launched base (e_prompt_hash e) begin_at))
       | Some wt \<Rightarrow>
           and_then (wrapping (''read baseline for re-run of '' @ ss_url tk)
               (on_world (branch_tip (le_host E) repo_path (ss_branch tk)))) (\<lambda>baseline.
           wrapping (''spawn re-run in '' @ wt) (spawn_run E (agent_spec tk wt baseline (e_prompt_hash e) launched begin_at
             (step_prompt tk launched (sa_step begin_at) []))))))"

definition apply_re_run_intents :: "'w loop_env \<Rightarrow> snapshot \<Rightarrow> tickets_map \<Rightarrow> ('w, unit) act" where
  "apply_re_run_intents E snap by_url =
     each_intent E snap VerbReRun (\<lambda>i. case map_of by_url (it_ticket i) of
       None \<Rightarrow> ret ()
     | Some tk \<Rightarrow>
         let e = entry_at snap (ss_url tk); base = u_base_branch (e_unlock e)
         in wrapping (ss_repo tk @ ''/'' @ ss_branch tk)
              (re_run_one E tk e (if base = [] then default_base_branch else base)))"

subsection \<open>Removing the worktree\<close>

definition prune_run_logs :: "'w loop_env \<Rightarrow> run_id list \<Rightarrow> ('w, unit) act" where
  "prune_run_logs E ids =
     each_io (\<lambda>i. each_io (\<lambda>ext. try_else (on_world (fi_remove (le_files E) (run_path E i ext))) (\<lambda>_. ret ()) ret)
       [''jsonl'', ''prompt'', ''handoff.md'', ''system.md'']) ids"

text \<open>After the worktree is gone (or was not there): the issue is closed, the removal recorded, the ticket withdrawn.\<close>

definition withdraw_removed :: "'w loop_env \<Rightarrow> ticket \<Rightarrow> remove_mode \<Rightarrow> bool \<Rightarrow> ('w, unit) act" where
  "withdraw_removed E t mode merged =
     (let url = t_url t in
      try_else (on_world (fo_close_issue (le_forge E) (checkout E (t_repo t)) url))
        (\<lambda>err. record_event E url EventRemoveWorktreeRefused (error_text err))
        (\<lambda>_. and_then (wrapping ''record worktree removed'' (record_event E url EventWorktreeRemoved
               (if mode = RemoveForced then ''forced: origin ref pruned, branch at a proven tip'' else []))) (\<lambda>_.
           and_then (clock_now E) (\<lambda>at.
           and_then (wrapping (''withdraw '' @ url) (on_store (withdraw_ticket url at merged))) (\<lambda>runs.
           prune_run_logs E runs)))))"

text \<open>How a worktree may be removed: the mode, or why not.\<close>

definition remove_decision :: "'w loop_env \<Rightarrow> ticket \<Rightarrow> sha list \<Rightarrow> string \<Rightarrow> ('w, string + remove_mode) act" where
  "remove_decision E t proven wt =
     (let url = t_url t in
      and_then (wrapping (''check worktree dirty for '' @ url) (on_world (dirty (le_host E) wt))) (\<lambda>is_dirty.
      if is_dirty then ret (Inl ''worktree is dirty'')
      else
        and_then (wrapping (''check unpushed commits for '' @ url)
            (on_world (removal_state_for (le_host E) (checkout E (t_repo t)) (t_branch t) proven))) (\<lambda>st.
        case st of
          RemovableByMerged \<Rightarrow> ret (Inr RemoveMerged)
        | RemovableByForce \<Rightarrow> ret (Inr RemoveForced)
        | NotRemovable \<Rightarrow> ret (Inl ''worktree holds unpushed commits'')
        | RemovalUnknown \<Rightarrow>
            fail_with (Plain (''check unpushed commits for '' @ url @ '': removal state is unknown'')))))"

definition remove_worktree_one :: "'w loop_env \<Rightarrow> entry \<Rightarrow> removal \<Rightarrow> ('w, unit) act" where
  "remove_worktree_one E e removal =
     with_tick (\<lambda>tick. let ob = tc_obs tick; t = e_ticket e; url = t_url t;
                           refuse = record_event E url EventRemoveWorktreeRefused;
                           merged = (pr_state (pr_of ob (ticket_ref t)) = Merged) in
       if rm_refusal removal \<noteq> [] then refuse (rm_refusal removal)
       else case map_of (ob_worktrees ob) (ticket_ref t) of
         None \<Rightarrow> withdraw_removed E t RemoveMerged merged
       | Some wt \<Rightarrow>
           and_then (remove_decision E t (rm_proven_tips removal) wt) (\<lambda>decision.
           case decision of
             Inl detail \<Rightarrow> refuse detail
           | Inr mode \<Rightarrow>
               try_else (on_world (wt_remove (le_worktrees E) (checkout E (t_repo t)) (t_branch t) mode))
                 (\<lambda>err. refuse (error_text err)) (\<lambda>_. withdraw_removed E t mode merged)))"

definition apply_remove_worktree_intents :: "'w loop_env \<Rightarrow> snapshot \<Rightarrow> ('w, unit) act" where
  "apply_remove_worktree_intents E snap =
     each_intent E snap VerbRemoveWorktree (\<lambda>i. case entry_of snap (it_ticket i) of
       None \<Rightarrow> ret ()
     | Some e \<Rightarrow> wrapping (repo_branch (e_ticket e))
         (remove_worktree_one E e (removal_of snap (t_url (e_ticket e)))))"

end
