(* ===== verification/Loop_Tick.thy ===== *)
theory Loop_Tick imports Loop_Verbs begin

text \<open>
  One tick of the daemon: the intake of repositories, features and edits (\<open>repocheck.go\<close>, \<open>importFeature\<close>,
  \<open>applyEditTicketIntents\<close>), the observation, and \<open>RunOnce\<close> with \<open>absorb\<close> and \<open>act\<close> of \<open>internal/loop/loop.go\<close>.
\<close>

subsection \<open>Repositories\<close>

definition refuse_repo :: "store_repo \<Rightarrow> refusal_kind \<Rightarrow> string \<Rightarrow> store_repo" where
  "refuse_repo r kind rsn = r\<lparr>so_phase := RepoRefused, so_refusal_kind := kind, so_refusal := rsn\<rparr>"

definition merge_settings_of :: "gh_repo_settings \<Rightarrow> merge_settings" where
  "merge_settings_of s = \<lparr>ms_allow_merge_commit = gs_allow_merge_commit s, ms_allow_rebase_merge = gs_allow_rebase_merge s,
     ms_default_branch = gs_default_branch s\<rparr>"

definition validate_repo ::
  "codec \<Rightarrow> (string \<Rightarrow> repo_settings toml_answer) \<Rightarrow> 'w host \<Rightarrow> string \<Rightarrow> store_repo \<Rightarrow> time \<Rightarrow> ('w, store_repo) io" where
  "validate_repo K toml H data_dir r now =
     and_then (wrapping (''check '' @ so_name r @ '' on github'') (read_repo_settings K H (so_name r))) (\<lambda>settings.
     let (kind, rsn) = repo_refusal (merge_settings_of settings) in
     if kind \<noteq> RefusalUnknown then ret (refuse_repo r kind rsn)
     else let path = checkout_path data_dir (so_name r) in
       try_else (ensure_checkout H (so_name r) (so_remote r) path)
         (\<lambda>e. ret (refuse_repo r RefusalClone (error_text e)))
         (\<lambda>_. try_else (read_checkout_settings toml H path)
            (\<lambda>e. ret (refuse_repo r RefusalSettingsParse (error_text e)))
            (\<lambda>(_, src). ret (r\<lparr>so_phase := RepoReady, so_refusal_kind := RefusalUnknown, so_refusal := [],
               so_settings_source := source_text src, so_settings_read_at := now\<rparr>))))"

definition join_errors :: "io_error list \<Rightarrow> string" where
  "join_errors es = join nl (map error_text es)"

fun validate_loop :: "'w loop_env \<Rightarrow> store_repo list \<Rightarrow> io_error list \<Rightarrow> ('w, io_error list) act" where
  "validate_loop E [] failures = ret failures"
| "validate_loop E (r # rs) failures =
     (if so_phase r \<noteq> RepoCloning then validate_loop E rs failures
      else and_then (clock_now E) (\<lambda>now.
        try_else (on_world (le_validate E (cf_data_dir (le_config E)) r now))
          (\<lambda>e. validate_loop E rs (failures @ [Wrapped (''validate '' @ so_name r) e]))
          (\<lambda>settled. and_then (wrapping (''set state of '' @ so_name r) (on_store (set_repo_state settled)))
             (\<lambda>_. validate_loop E rs failures))))"

definition validate_cloning_repos :: "'w loop_env \<Rightarrow> ('w, unit) act" where
  "validate_cloning_repos E =
     and_then (wrapping ''list repos'' (on_store repos)) (\<lambda>rs.
     and_then (validate_loop E rs []) (\<lambda>failures.
     if failures = [] then ret () else record_tick_error_once E (join_errors failures)))"

definition start_cloning :: "store_repo \<Rightarrow> ('w, unit) act" where
  "start_cloning r =
     wrapping (''start cloning '' @ so_name r)
       (on_store (upsert_repo (r\<lparr>so_phase := RepoCloning, so_refusal_kind := RefusalUnknown, so_refusal := []\<rparr>)))"

definition new_repo :: "string \<Rightarrow> time \<Rightarrow> store_repo" where
  "new_repo name at = \<lparr>so_name = name, so_remote = [], so_phase = RepoPhaseUnknown, so_refusal_kind = RefusalUnknown,
     so_refusal = [], so_settings_source = [], so_settings_read_at = 0, so_tracked_at = at, so_project = [], so_hue = 0\<rparr>"

definition track_one :: "'w loop_env \<Rightarrow> string \<Rightarrow> ('w, unit) act" where
  "track_one E name =
     and_then (wrapping ''list repos'' (on_store repos)) (\<lambda>rs.
     and_then (clock_now E) (\<lambda>at.
     let known = find (\<lambda>r. equal_fold (so_name r) name) rs;
         r = (case known of Some r \<Rightarrow> r | None \<Rightarrow> new_repo name at) in
     if known \<noteq> None \<and> so_phase r = RepoReady then ret ()
     else if so_remote r = [] then
       try_else (on_world (le_remote_of E (so_name r)))
         (\<lambda>e. wrapping (''refuse '' @ so_name r) (on_store (upsert_repo (refuse_repo r RefusalClone (error_text e)))))
         (\<lambda>remote. start_cloning (r\<lparr>so_remote := remote\<rparr>))
     else start_cloning r))"

definition apply_track_intents :: "'w loop_env \<Rightarrow> ('w, unit) act" where
  "apply_track_intents E = each_pending_intent E VerbTrack (\<lambda>i. track_one E (it_ticket i))"

definition repo_name_for_dir :: "'w host \<Rightarrow> string \<Rightarrow> store_repo list \<Rightarrow> 'w \<Rightarrow> string option \<times> 'w" where
  "repo_name_for_dir H dir rs w =
     (case origin_url H dir w of
        (Inl _, w') \<Rightarrow> (None, w')
      | (Inr origin, w') \<Rightarrow> (map_option so_name (find (\<lambda>r. same_remote origin (so_remote r)) rs), w'))"

subsection \<open>Imports and edits\<close>

fun import_matches ::
  "'w loop_env \<Rightarrow> string \<Rightarrow> observation \<Rightarrow> store_repo list \<Rightarrow> imported_ticket list \<Rightarrow> ('w, imported_ticket list) act" where
  "import_matches E feature ob [] matched = ret matched"
| "import_matches E feature ob (r # rs) matched =
     (let kind = (case map_of (ob_settings ob) (so_name r) of
                    Some s \<Rightarrow> rs_tracker s | None \<Rightarrow> rs_tracker default_repo_settings) in
      and_then (wrapping (''import '' @ feature) (lift_sum (for_remote (le_tickets_of E) kind (so_remote r)))) (\<lambda>src.
      case src of
        None \<Rightarrow> import_matches E feature ob rs matched
      | Some tickets_in \<Rightarrow>
          and_then (wrapping (''import '' @ feature @ '' from '' @ so_name r) (on_world (tickets_in feature))) (\<lambda>ts.
          import_matches E feature ob rs
            (matched @ map (\<lambda>t. \<lparr>im_ticket = t, im_repo = so_name r, im_source = kind\<rparr>) ts))))"

definition conflict_in :: "io_error \<Rightarrow> io_error option" where
  "conflict_in = as_error (\<lambda>e. case e of Feature_conflict _ _ _ \<Rightarrow> Some e | _ \<Rightarrow> None)"

definition closure_in :: "io_error \<Rightarrow> io_error option" where
  "closure_in = as_error (\<lambda>e. case e of Feature_closure _ _ _ _ \<Rightarrow> Some e | _ \<Rightarrow> None)"

text \<open>The refusal an import is recorded with: \<open>errors.As\<close> of a conflict, then of a closure.\<close>

definition import_refusal :: "io_error \<Rightarrow> io_error option" where
  "import_refusal e = (case conflict_in e of Some c \<Rightarrow> Some c | None \<Rightarrow> closure_in e)"

definition import_feature :: "'w loop_env \<Rightarrow> string \<Rightarrow> ('w, unit) act" where
  "import_feature E feature =
     and_then (wrapping ''last observation'' (on_store last_observation)) (\<lambda>(ob, _).
     and_then (wrapping ''list ready repos'' (wrapping ''list repos'' (on_store repos))) (\<lambda>rs.
     and_then (import_matches E feature ob (ready_repos rs) []) (\<lambda>matched.
     and_then (clock_now E) (\<lambda>now.
     wrapping (''import tickets for '' @ feature)
       (or_else (on_store (import_tickets (le_lower E) feature matched now))
          (\<lambda>e. case import_refusal e of
             None \<Rightarrow> fail_with e
           | Some refusal \<Rightarrow> and_then (clock_now E) (\<lambda>at. on_store (record_import_refusal feature refusal at))))))))"

definition apply_import_intents :: "'w loop_env \<Rightarrow> ('w, unit) act" where
  "apply_import_intents E = each_pending_intent E VerbImport (\<lambda>i. import_feature E (it_ticket i))"

definition closure_feature :: "io_error \<Rightarrow> string" where
  "closure_feature e = (case e of Feature_closure feature _ _ _ \<Rightarrow> feature | _ \<Rightarrow> [])"

definition apply_edit :: "'w loop_env \<Rightarrow> time \<Rightarrow> edit_ticket_intent \<Rightarrow> ('w, unit) act" where
  "apply_edit E now i =
     and_then (or_else (on_store (edit_ticket (ei_ticket_id i) (ei_branch i) (ei_blocked_by i)))
         (\<lambda>e. case closure_in e of
            None \<Rightarrow> fail_with (Wrapped (''edit '' @ ei_ticket_id i) e)
          | Some c \<Rightarrow> wrapping (''record import refusal for '' @ ei_ticket_id i)
              (on_store (record_import_refusal (closure_feature c) c now))))
       (\<lambda>_. wrapping (''consume intent '' @ itoa (ei_id i) @ '' for '' @ ei_ticket_id i)
          (on_store (consume_verb_intent (ei_id i) now)))"

definition apply_edit_ticket_intents :: "'w loop_env \<Rightarrow> ('w, unit) act" where
  "apply_edit_ticket_intents E =
     and_then (wrapping ''list pending edit-ticket intents'' (on_store pending_edit_ticket_intents)) (\<lambda>is.
     and_then (clock_now E) (\<lambda>now. each_io (apply_edit E now) is))"

subsection \<open>Observing\<close>

definition new_observer :: "'w observer \<Rightarrow> string \<Rightarrow> ('w, observation) act" where
  "new_observer R data_dir =
     and_then (wrapping ''list observable repos'' (wrapping ''list repos'' (on_store repos))) (\<lambda>rs.
     and_then (wrapping ''list tickets'' (on_store tickets)) (\<lambda>ts.
     and_then (wrapping ''last observation'' (on_store last_observation)) (\<lambda>(prev, _).
     on_world (\<lambda>w. case observe R data_dir rs ts prev w of (ob, w') \<Rightarrow> (Inr ob, w')))))"

definition reread_local_tips :: "'w loop_env \<Rightarrow> ('w, unit) act" where
  "reread_local_tips E =
     with_tick (\<lambda>t. each_io (\<lambda>(ref, _).
       try_else (on_world (branch_tip (le_host E) (checkout E (ref_repo ref)) (ref_branch ref))) (\<lambda>_. ret ())
         (\<lambda>tip. update_obs (\<lambda>ob. ob\<lparr>ob_local_tips := put ref tip (ob_local_tips ob)\<rparr>)))
       (ob_worktrees (tc_obs t)))"

subsection \<open>The state of the repositories\<close>

definition repo_status_of :: "store_repo \<Rightarrow> repo_status" where
  "repo_status_of r = \<lparr>st_name = so_name r, st_phase = so_phase r, st_refusal_kind = so_refusal_kind r,
     st_refusal = so_refusal r\<rparr>"

definition with_status :: "repo_status \<Rightarrow> store_repo \<Rightarrow> store_repo" where
  "with_status s r = r\<lparr>so_phase := st_phase s, so_refusal_kind := st_refusal_kind s, so_refusal := st_refusal s\<rparr>"

definition record_repo_state :: "'w loop_env \<Rightarrow> store_repo \<Rightarrow> ('w, unit) act" where
  "record_repo_state E r =
     with_tick (\<lambda>t. let ob = tc_obs t; current = repo_status_of r; new_status = next_repo_status current ob;
                        source = map_of (ob_settings_sources ob) (so_name r);
                        set_state = (\<lambda>r. wrapping (''set state of '' @ so_name r) (on_store (set_repo_state r))) in
       if new_status = current \<and> (source = None \<or> source = Some (so_settings_source r)) then ret ()
       else case source of
         None \<Rightarrow> set_state (with_status new_status r)
       | Some src \<Rightarrow> and_then (clock_now E) (\<lambda>at.
           set_state ((with_status new_status r)\<lparr>so_settings_source := src, so_settings_read_at := at\<rparr>)))"

definition record_repo_states :: "'w loop_env \<Rightarrow> ('w, unit) act" where
  "record_repo_states E =
     and_then (wrapping ''list repos'' (on_store repos)) (each_io (record_repo_state E))"

definition record_repo_problems :: "'w loop_env \<Rightarrow> snapshot \<Rightarrow> ('w, unit) act" where
  "record_repo_problems E snap =
     (case repo_problems snap of [] \<Rightarrow> ret () | parts \<Rightarrow> record_tick_error_once E (join ''; '' parts))"

subsection \<open>A tick\<close>

definition loop_rules :: "'w loop_env \<Rightarrow> observation \<Rightarrow> rules" where
  "loop_rules E ob = rules_for \<lparr>da_max_agents = cf_max_agents (le_config E),
     da_spend_limit_5h = cf_spend_limit_5h (le_config E), da_workflows = le_workflows E\<rparr> ob"

definition derive_tick :: "'w loop_env \<Rightarrow> ('w, snapshot) act" where
  "derive_tick E =
     and_then (wrapping ''load plan input'' (on_store (plan_input (le_payload_json E) (le_percent E)))) (\<lambda>inp.
     and_then (clock_now E) (\<lambda>now.
     with_tick (\<lambda>t. ret (Derive (le_hash E) (loop_rules E (tc_obs t))
       (inp\<lparr>di_now := now, di_obs := tc_obs t, di_prev := tc_prev t\<rparr>)))))"

definition tick_checking_waits :: "store_ticket list \<Rightarrow> ('w, unit) act" where
  "tick_checking_waits ts =
     wrapping ''increment checking ticks'' (on_store (increment_checking_ticks (map ss_url ts)))"

definition absorb :: "'w loop_env \<Rightarrow> ('w, tickets_map) act" where
  "absorb E =
     and_then (wrapping ''list tickets'' (on_store tickets)) (\<lambda>ts. let by_url = store_tickets_by_url ts in
     and_then (wrapping ''last observation'' (on_store last_observation)) (\<lambda>(prev, _).
     and_then (on_tick (\<lambda>t. t\<lparr>tc_prev := prev\<rparr>)) (\<lambda>_.
     and_then (wrapping ''record repo states'' (record_repo_states E)) (\<lambda>_.
     and_then (wrapping ''tick checking waits'' (tick_checking_waits ts)) (\<lambda>_.
     and_then (clock_now E) (\<lambda>now.
     and_then (wrapping ''apply launch intents'' (on_store (apply_launch_intents now))) (\<lambda>_.
     and_then (wrapping ''cancel'' (apply_cancel_intents E)) (\<lambda>_.
     and_then (wrapping ''kill'' (apply_kill_intents E)) (\<lambda>_.
     and_then (wrapping ''interrupt for follow-ups'' (interrupt_for_follow_ups E)) (\<lambda>_.
     and_then (wrapping ''reconcile runs'' (reconcile_runs E by_url)) (\<lambda>_.
     and_then (with_tick (\<lambda>t. wrapping ''save observation'' (on_store (save_observation (tc_obs t))))) (\<lambda>_.
     ret by_url))))))))))))"

definition mark_spawned_alive :: "('w, unit) act" where
  "mark_spawned_alive = on_tick (\<lambda>t. t\<lparr>tc_obs := fold (\<lambda>url ob. mark_alive ob url) (tc_spawned t) (tc_obs t)\<rparr>)"

definition push_and_launch :: "'w loop_env \<Rightarrow> tickets_map \<Rightarrow> ('w, unit) act" where
  "push_and_launch E by_url =
     and_then (wrapping ''derive for push'' (derive_tick E)) (\<lambda>snap.
     and_then (wrapping ''push'' (push_pushable E (skipping snap (skipped_repos snap)))) (\<lambda>_.
     and_then (wrapping ''draft gate'' (apply_draft_gate E snap)) (\<lambda>_.
     wrapping ''launch'' (launch_eligible E snap by_url))))"

definition act :: "'w loop_env \<Rightarrow> snapshot \<Rightarrow> tickets_map \<Rightarrow> ('w, unit) act" where
  "act E snap by_url =
     and_then (wrapping ''transitions'' (record_transitions E snap)) (\<lambda>_.
     and_then (wrapping ''re-run'' (apply_re_run_intents E snap by_url)) (\<lambda>_.
     and_then (wrapping ''follow-up'' (apply_follow_up_intents E snap by_url)) (\<lambda>_.
     and_then (wrapping ''abort'' (apply_abort_intents E snap)) (\<lambda>_.
     and_then mark_spawned_alive (\<lambda>_.
     and_then (wrapping ''retarget'' (retarget_merged E snap)) (\<lambda>_.
     and_then (wrapping ''refresh'' (apply_refresh_intents E snap)) (\<lambda>_.
     and_then (reread_local_tips E) (\<lambda>_.
     and_then (wrapping ''retry push'' (apply_retry_push_intents E snap)) (\<lambda>_.
     and_then (wrapping ''remove worktree'' (apply_remove_worktree_intents E snap)) (\<lambda>_.
     push_and_launch E by_url))))))))))"

definition or_fail_tick :: "'w loop_env \<Rightarrow> ('w, 'a) act \<Rightarrow> ('w, 'a) act" where
  "or_fail_tick E m = or_else m (\<lambda>e. and_then (fail_tick E e) (\<lambda>_. fail_with e))"

definition begin_tick :: "observation \<Rightarrow> ('w, unit) act" where
  "begin_tick ob = on_tick (\<lambda>_. \<lparr>tc_now = 0, tc_obs = ob, tc_prev = new_observation 0, tc_spawned = [], tc_cancelled = []\<rparr>)"

text \<open>A failed observation is recorded as an error of the tick even when it repeats the last one.\<close>

definition observe_tick :: "'w loop_env \<Rightarrow> ('w, unit) act" where
  "observe_tick E =
     or_else (and_then (le_observe E) (\<lambda>ob. and_then (begin_tick ob) (\<lambda>_. observe_runs E)))
       (\<lambda>e. and_then (clock_now E) (\<lambda>at. let te = Wrapped ''observe'' e in
          try_else (on_store (record_tick_error \<lparr>te_at = at, te_message = error_text te\<rparr>))
            (\<lambda>re. fail_with (Wrapped ''record observe failure'' (Joined te re))) (\<lambda>_. fail_with te)))"

definition settle_tick :: "'w loop_env \<Rightarrow> ('w, unit) act" where
  "settle_tick E =
     and_then (clock_now E) (\<lambda>now.
     and_then (on_tick (\<lambda>t. t\<lparr>tc_now := now, tc_obs := (tc_obs t)\<lparr>ob_observed_at := now\<rparr>\<rparr>)) (\<lambda>_.
     or_fail_tick E (
       and_then (absorb E) (\<lambda>by_url.
       and_then (wrapping ''derive'' (derive_tick E)) (\<lambda>snap.
       and_then (wrapping ''record repo problems'' (record_repo_problems E snap)) (\<lambda>_.
       act E (skipping snap (skipped_repos snap)) by_url))))))"

definition run_once :: "'w loop_env \<Rightarrow> ('w, unit) act" where
  "run_once E =
     and_then (clock_now E) (\<lambda>now.
     and_then (or_else (on_store (prune_history now)) (\<lambda>_. ret ())) (\<lambda>_.
     and_then (or_fail_tick E (wrapping ''track'' (apply_track_intents E))) (\<lambda>_.
     and_then (or_fail_tick E (wrapping ''validate repos'' (validate_cloning_repos E))) (\<lambda>_.
     and_then (or_fail_tick E (wrapping ''import'' (apply_import_intents E))) (\<lambda>_.
     and_then (or_fail_tick E (wrapping ''edit ticket'' (apply_edit_ticket_intents E))) (\<lambda>_.
     and_then (observe_tick E) (\<lambda>_. settle_tick E)))))))"

text \<open>\<open>Run\<close>: an error of a tick is logged, and the next tick starts after the period or a nudge.\<close>

fun run_ticks :: "'w loop_env \<Rightarrow> nat \<Rightarrow> 'w machine \<Rightarrow> 'w machine" where
  "run_ticks E 0 s = s"
| "run_ticks E (Suc n) s = run_ticks E n (snd (run_once E s))"

end
