(* ===== verification/Store_History.thy ===== *)
theory Store_History imports Store_Integrity begin

text \<open>
  The second interpretation of \<open>kept\<close>: what is recorded stays recorded. Pushes and lasting events are only appended
  to, a run keeps what it was started for and, once it has an outcome, everything that describes how it ended, and
  an intent that was consumed is never pending again.
\<close>

definition lasting :: "event_row \<Rightarrow> bool" where
  "lasting e \<longleftrightarrow> ev_kind e \<noteq> ''tick_error''"

definition run_later :: "run_row \<Rightarrow> run_row \<Rightarrow> bool" where
  "run_later r r' \<longleftrightarrow> ru_id r' = ru_id r \<and> ru_ticket_id r' = ru_ticket_id r \<and> ru_kind r' = ru_kind r
     \<and> ru_baseline_sha r' = ru_baseline_sha r \<and> ru_prompt_hash r' = ru_prompt_hash r \<and> ru_step r' = ru_step r
     \<and> ru_workflow_hash r' = ru_workflow_hash r
     \<and> (ru_outcome r \<noteq> None \<longrightarrow> ru_outcome r' = ru_outcome r \<and> ru_exit_code r' = ru_exit_code r
          \<and> ru_ended_at r' = ru_ended_at r \<and> ru_cost_usd r' = ru_cost_usd r \<and> ru_last_message r' = ru_last_message r
          \<and> ru_metrics r' = ru_metrics r)"

definition intent_later :: "intent_row \<Rightarrow> intent_row \<Rightarrow> bool" where
  "intent_later i i' \<longleftrightarrow> iw_id i' = iw_id i \<and> iw_ticket_id i' = iw_ticket_id i \<and> iw_verb i' = iw_verb i
     \<and> iw_payload i' = iw_payload i \<and> (iw_consumed_at i \<noteq> None \<longrightarrow> iw_consumed_at i' = iw_consumed_at i)"

definition history :: "db \<Rightarrow> db \<Rightarrow> bool" where
  "history d0 d \<longleftrightarrow>
     (\<exists>ys. db_pushes d = db_pushes d0 @ ys)
   \<and> (\<exists>ys. filter lasting (db_events d) = filter lasting (db_events d0) @ ys)
   \<and> numbered ev_id (sq_events (db_seq d)) (db_events d)
   \<and> list_all2 run_later (db_runs d0) (take (length (db_runs d0)) (db_runs d))
   \<and> sq_intents (db_seq d0) \<le> sq_intents (db_seq d)
   \<and> (\<forall>i \<in> set (db_intents d). sq_intents (db_seq d0) < iw_id i \<or> (\<exists>j \<in> set (db_intents d0). intent_later j i))"

lemma run_later_refl [simp]: "run_later r r"
  by (simp add: run_later_def)

lemma run_later_trans: "run_later r s \<Longrightarrow> run_later s t \<Longrightarrow> run_later r t"
  by (auto simp: run_later_def)

lemma intent_later_refl [simp]: "intent_later i i"
  by (simp add: intent_later_def)

lemma intent_later_trans: "intent_later i j \<Longrightarrow> intent_later j k \<Longrightarrow> intent_later i k"
  by (auto simp: intent_later_def)

lemma history_refl: "integrity d \<Longrightarrow> history d d"
  unfolding history_def integrity_def by (simp add: list_all2_refl) (blast intro: intent_later_refl)

text \<open>The tables one at a time.\<close>

lemma history_event: "history d0 d \<Longrightarrow> history d0 (add_event at t k detail d)"
  by (auto simp: history_def add_event_def intro!: numbered_snoc)

lemma filter_delete_batch:
  assumes "\<And>e. P e \<Longrightarrow> \<not> Q e" and "numbered rid n rows"
  shows "filter Q (delete_batch P rid batch rows) = filter Q rows"
proof -
  have "rid e \<notin> rid ` set (take batch (filter P rows))" if "e \<in> set rows" "Q e" for e
  proof
    assume "rid e \<in> rid ` set (take batch (filter P rows))"
    then obtain f where f: "f \<in> set (take batch (filter P rows))" "rid f = rid e" by auto
    from in_set_takeD [OF f(1)] have "f \<in> set rows" "P f" by auto
    with numbered_unique [OF assms(2) _ that(1) f(2)] that(2) assms(1) show False by blast
  qed
  then show ?thesis by (auto simp: delete_batch_def Let_def intro: filter_cong)
qed

lemma history_prune_events:
  assumes "history d0 d" and "\<And>e. P e \<Longrightarrow> \<not> lasting e"
  shows "history d0 (d\<lparr>db_events := delete_batch P ev_id batch (db_events d)\<rparr>)"
  using assms filter_delete_batch [OF assms(2), where rows = "db_events d"]
  by (auto simp: history_def numbered_delete)

lemma history_add_run:
  assumes "history d0 d"
  shows "history d0 (next_run d r)"
proof -
  have "length (db_runs d0) \<le> length (db_runs d)"
    using assms by (auto simp: history_def dest!: list_all2_lengthD)
  with assms show ?thesis by (auto simp: history_def next_run_def)
qed

lemma history_update_runs:
  assumes "history d0 d" and "\<And>r. P r \<Longrightarrow> run_later r (f r)"
  shows "history d0 (snd (set_runs P f d))"
proof -
  have "run_later r (if P r then f r else r)" for r using assms(2) by simp
  then have later: "list_all2 run_later rs (update_where P f rs)" for rs
    by (auto simp: update_where_def list_all2_conv_all_nth)
  let ?n = "length (db_runs d0)"
  from assms(1) have "list_all2 run_later (db_runs d0) (take ?n (db_runs d))" by (simp add: history_def)
  from list_all2_trans [OF run_later_trans this later]
  have "list_all2 run_later (db_runs d0) (take ?n (update_where P f (db_runs d)))" by (simp add: update_where_def take_map)
  with assms(1) show ?thesis by (simp add: history_def set_runs_def)
qed

lemma history_intents:
  assumes "history d0 d" and "\<And>i'. i' \<in> set R \<Longrightarrow> \<exists>i \<in> set (db_intents d). intent_later i i'"
  shows "history d0 (d\<lparr>db_intents := R\<rparr>)"
proof -
  have "sq_intents (db_seq d0) < iw_id i' \<or> (\<exists>j \<in> set (db_intents d0). intent_later j i')" if i': "i' \<in> set R" for i'
  proof -
    from assms(2) [OF i'] obtain i where i: "i \<in> set (db_intents d)" "intent_later i i'" by blast
    with assms(1) have "sq_intents (db_seq d0) < iw_id i \<or> (\<exists>j \<in> set (db_intents d0). intent_later j i)"
      by (simp add: history_def)
    with i(2) show ?thesis by (auto simp: intent_later_def intro: intent_later_trans)
  qed
  with assms(1) show ?thesis by (simp add: history_def)
qed

lemma history_update_intents:
  assumes "history d0 d" and "\<And>i. P i \<Longrightarrow> intent_later i (f i)"
  shows "history d0 (d\<lparr>db_intents := update_where P f (db_intents d)\<rparr>)"
proof (rule history_intents [OF assms(1)])
  fix i' assume "i' \<in> set (update_where P f (db_intents d))"
  then obtain i where "i \<in> set (db_intents d)" "i' = (if P i then f i else i)" by (auto dest: set_update_where)
  with assms(2) show "\<exists>i \<in> set (db_intents d). intent_later i i'" by (intro bexI [of _ i]) auto
qed

text \<open>Tables and columns the history does not read.\<close>

lemma history_frame [simp]:
  "history d0 (d\<lparr>db_meta := m\<rparr>) = history d0 d" "history d0 (d\<lparr>db_tickets := ts\<rparr>) = history d0 d"
  "history d0 (d\<lparr>db_launches := ls\<rparr>) = history d0 d" "history d0 (d\<lparr>db_members := ms\<rparr>) = history d0 d"
  "history d0 (d\<lparr>db_repos := rs\<rparr>) = history d0 d" "history d0 (d\<lparr>db_projects := ps\<rparr>) = history d0 d"
  "history d0 (d\<lparr>db_readings := rr\<rparr>) = history d0 d" "history d0 (d\<lparr>db_intervals := ii\<rparr>) = history d0 d"
  "history d0 (d\<lparr>db_seq := db_seq d\<lparr>sq_launches := n\<rparr>\<rparr>) = history d0 d"
  "history d0 (d\<lparr>db_seq := db_seq d\<lparr>sq_projects := n\<rparr>\<rparr>) = history d0 d"
  "history d0 (d\<lparr>db_seq := db_seq d\<lparr>sq_readings := n\<rparr>\<rparr>) = history d0 d"
  "history d0 (d\<lparr>db_seq := db_seq d\<lparr>sq_intervals := n\<rparr>\<rparr>) = history d0 d"
  by (simp_all add: history_def)

interpretation recorded: kept "history d0" for d0
proof
  show "history d0 d \<Longrightarrow> history d0 (d\<lparr>db_meta := m\<rparr>)" for d m by simp
  show "keeps (history d0) (q_upsert_tickets rows)" "keeps (history d0) (q_import_tickets rows)" for rows
    unfolding q_upsert_tickets_def q_import_tickets_def upsert_rows_def by (auto intro!: keeps_stmt split: if_splits)
  show "keeps (history d0) (q_withdraw_tickets urls at)" "keeps (history d0) (q_withdraw_ticket url at)"
    "keeps (history d0) (q_set_blocked_bys ups)" "keeps (history d0) (q_edit_ticket url branch bs)" for urls url at ups branch bs
    unfolding q_withdraw_tickets_def q_withdraw_ticket_def q_set_blocked_bys_def q_edit_ticket_def set_tickets_def
    by (auto intro!: keeps_writes)
  show "keeps (history d0) (q_append_event at u k detail)" "keeps (history d0) (q_insert_launch_event at detail)"
    for at u k detail
    unfolding q_append_event_def q_insert_launch_event_def
    by (auto intro!: keeps_stmt keeps_writes history_event split: if_splits)
  show "keeps (history d0) (q_prune_consumed_intents before batch)" for before batch
    unfolding q_prune_consumed_intents_def Let_def
    by (rule keeps_writes) (auto intro!: history_intents intro: intent_later_refl dest: subsetD [OF set_delete_batch])
  show "keeps (history d0) (q_prune_tick_errors before batch)" for before batch
    unfolding q_prune_tick_errors_def Let_def by (rule keeps_writes) (auto intro!: history_prune_events simp: lasting_def)
  show "keeps (history d0) (q_prune_readings before batch)" "keeps (history d0) (q_prune_intervals before batch)"
    for before batch
    unfolding q_prune_readings_def q_prune_intervals_def Let_def by (auto intro!: keeps_writes)
  show "keeps (history d0) (insert_intent at t verb p)" for at t verb p
    unfolding insert_intent_def
    by (rule keeps_stmt) (auto simp: add_intent_def history_def split: if_splits)
  show "keeps (history d0) (q_claim_launch_intents at)" "keeps (history d0) (q_consume_verb_intent i at)" for at i
    unfolding q_claim_launch_intents_def q_consume_verb_intent_def Let_def pending_of_def
    by (auto intro!: keeps_writes history_update_intents simp: intent_later_def)
  show "keeps (history d0) (q_insert_launch at ctx model effort flow)" "keeps (history d0) (q_insert_launch_members l ms)"
    for at ctx model effort flow l ms
    unfolding q_insert_launch_def q_insert_launch_members_def Let_def
    by (rule keeps_stmt; auto simp: history_def split: if_splits)+
  show "keeps (history d0) (q_cancel_active_launches t)" for t
    unfolding q_cancel_active_launches_def Let_def by (auto intro!: keeps_writes)
  show "keeps (history d0) (stmt (insert_run r))" for r
    unfolding insert_run_def Let_def by (rule keeps_stmt) (auto intro!: history_add_run split: option.splits)
  show "keeps (history d0) (q_record_spawn n pgid started log)" "keeps (history d0) (q_record_question n question)"
    for n pgid started log question
    unfolding q_record_spawn_def q_record_question_def
    by (auto intro!: keeps_writes history_update_runs simp: run_later_def)
  show "keeps (history d0) (q_record_disposition n out code at cost msg met)" for n out code at cost msg met
    unfolding q_record_disposition_def Let_def
  proof (rule keeps_stmt)
    let ?hit = "\<lambda>r. ru_id r = n \<and> ru_outcome r = None"
    let ?f = "\<lambda>r. r\<lparr>ru_outcome := Some out, ru_exit_code := code, ru_ended_at := Some at, ru_cost_usd := cost,
        ru_last_message := msg, ru_metrics := met\<rparr>"
    fix d a d' assume I: "history d0 d"
      and run: "(if (\<exists>r \<in> set (db_runs d). ?hit r) \<and> out \<notin> set (map outcome_text all_outcomes)
         then Inl (check_violation ''runs_outcome_check'') else Inr (set_runs ?hit ?f d)) = Inr (a, d')"
    from run have "set_runs ?hit ?f d = (a, d')" by (simp split: if_splits)
    with history_update_runs [OF I, of ?hit ?f] show "history d0 d'" by (simp add: run_later_def)
  qed
  show "keeps (history d0) (q_record_push t tip base sha at)" for t tip base sha at
    unfolding q_record_push_def Let_def by (rule keeps_stmt) (auto simp: history_def split: if_splits)
  show "keeps (history d0) (q_upsert_repo rr)" "keeps (history d0) (q_set_repo_state name st rk ref src read_at)"
    for rr name st rk ref src read_at
    unfolding q_upsert_repo_def q_set_repo_state_def Let_def
    by (rule keeps_stmt; auto split: option.splits list.splits if_splits)+
  show "keeps (history d0) (q_create_project name hue at)" "keeps (history d0) (q_set_repo_project_id name pid)"
    "keeps (history d0) (q_edit_project old new hue)" for name hue at pid old new
    unfolding q_create_project_def q_set_repo_project_id_def q_edit_project_def Let_def
    by (rule keeps_stmt; auto simp: history_def split: option.splits list.splits if_splits)+
  show "keeps (history d0) (q_delete_project name)" for name
    unfolding q_delete_project_def Let_def by (auto intro!: keeps_writes)
  show "keeps (history d0) (q_record_readings rrs)" for rrs
  proof -
    have "history d0 d \<Longrightarrow> history d0 (add_reading r d)" for r d by (simp add: history_def add_reading_def Let_def)
    then have "history d0 d \<Longrightarrow> history d0 (fold add_reading rrs d)" for d by (induction rrs arbitrary: d) auto
    then show ?thesis unfolding q_record_readings_def by (intro keeps_writes) simp
  qed
  show "keeps (history d0) (q_record_intervals irs)" for irs
  proof -
    have "history d0 d \<Longrightarrow> history d0 (add_interval r d)" for r d by (simp add: history_def add_interval_def Let_def)
    then have "history d0 d \<Longrightarrow> history d0 (fold add_interval irs d)" for d by (induction irs arbitrary: d) auto
    then show ?thesis unfolding q_record_intervals_def by (intro keeps_writes) simp
  qed
qed

end
