(* ===== verification/Loop_Steps.thy ===== *)
theory Loop_Steps imports Loop_Tick Store_History begin

text \<open>
  How the handlers of the loop are followed from state to state. A query of a handler is one operation of \<open>Store_Steps\<close>
  or only reads (\<open>stores\<close>), and the ways to put handlers together keep every reflexive and transitive relation
  between states (locale \<open>steps\<close>).
\<close>

subsection \<open>Sequences of store operations\<close>

inductive evolves :: "db \<Rightarrow> db \<Rightarrow> bool" where
  same: "evolves d d"
| more: "evolves d (cn_db c) \<Longrightarrow> run_op op c = (r, c') \<Longrightarrow> evolves d (cn_db c')"

lemma evolves_op: "run_op op c = (r, c') \<Longrightarrow> evolves (cn_db c) (cn_db c')"
  by (rule evolves.more [OF evolves.same])

lemma evolves_trans: "evolves e f \<Longrightarrow> evolves d e \<Longrightarrow> evolves d f"
  by (induction rule: evolves.induct) (auto intro: evolves.intros)

context kept
begin

lemma evolves_keeps: "evolves d d' \<Longrightarrow> I d \<Longrightarrow> I d'"
  by (induction rule: evolves.induct) (auto dest: keepsD [OF keeps_op])

end

text \<open>A query that is one operation of the store, and a query that only reads.\<close>

definition stores :: "'a query \<Rightarrow> bool" where
  "stores q \<longleftrightarrow> (\<forall>c. evolves (cn_db c) (cn_db (snd (q c))))"

named_theorems storing \<open>queries that are operations of the store or only read\<close>

lemma storesI: "(\<And>c. cn_db (snd (q c)) = cn_db (snd (run_op op c))) \<Longrightarrow> stores q"
  unfolding stores_def using evolves_op [OF prod.collapse [symmetric]] by simp

lemma stores_reading:
  assumes "\<And>d. keeps (\<lambda>e. e = d) q"
  shows "stores q"
  unfolding stores_def
proof
  fix c
  have "cn_db (snd (q c)) = cn_db c" by (rule keepsD [OF assms prod.collapse [symmetric]]) (rule refl)
  then show "evolves (cn_db c) (cn_db (snd (q c)))" by (simp add: evolves.same)
qed

lemma ignore_db [simp]: "cn_db (snd (ignore q c)) = cn_db (snd (q c))"
  by (simp add: ignore_def and_then_def split: prod.splits sum.splits)

lemma wrapping_snd [simp]: "snd (wrapping s m w) = snd (m w)"
  by (simp add: wrapping_def split: prod.splits sum.splits)

lemma stores_append [storing]: "stores (append_event at url kind detail)"
  by (rule storesI [of _ "Append at url kind detail"]) simp

lemma stores_consume [storing]: "stores (consume_verb_intent i at)"
  by (rule storesI [of _ "Consume i at"]) simp

lemma stores_tick_error [storing]: "stores (record_tick_error e)"
  by (rule storesI [of _ "Tick_failed e"]) simp

lemma stores_push [storing]: "stores (record_push p)"
  by (rule storesI [of _ "Pushed p"]) simp

lemma stores_verdicts [storing]: "stores (save_last_verdicts m)"
  by (rule storesI [of _ "Save_verdicts m"]) simp

lemma stores_disposition [storing]: "stores (record_disposition p)"
  by (rule storesI [of _ "Disposed p"]) simp

lemma stores_spawn [storing]: "stores (record_spawn i pid at log)"
  by (rule storesI [of _ "Spawned i pid at log"]) simp

lemma stores_question [storing]: "stores (record_question i q)"
  by (rule storesI [of _ "Asked i q"]) simp

lemma stores_cut_failed [storing]: "stores (insert_cut_failed_run r at)"
  by (rule storesI [of _ "Insert_cut_failed r at"]) simp

lemma stores_skeleton [storing]: "stores (insert_session_run_skeleton r)"
proof (rule storesI [of _ "Insert_run r"])
  show "cn_db (snd (insert_session_run_skeleton r c)) = cn_db (snd (run_op (Insert_run r) c))" for c
    by (simp add: insert_run_skeleton_def and_then_def wrapping_def split: prod.splits sum.splits)
qed

lemma stores_withdraw [storing]: "stores (withdraw_ticket url at merged)"
  by (rule storesI [of _ "Withdraw url at merged"]) simp

lemma stores_cancel [storing]: "stores (cancel_launches_for t)"
  by (rule storesI [of _ "Cancel_launches t"]) simp

lemma stores_launches [storing]: "stores (apply_launch_intents now)"
  by (rule storesI [of _ "Apply_launches now"]) simp

lemma stores_import [storing]: "stores (import_tickets lower feature ts now)"
  by (rule storesI [of _ "Import lower feature ts now"]) simp

lemma stores_refusal [storing]: "stores (record_import_refusal feature e now)"
  by (rule storesI [of _ "Import_refused feature e now"]) simp

lemma stores_edit [storing]: "stores (edit_ticket url branch bs)"
  by (rule storesI [of _ "Edit url branch bs"]) simp

lemma stores_observation [storing]: "stores (save_observation ob)"
  by (rule storesI [of _ "Save_observation ob"]) simp

lemma stores_checking [storing]: "stores (increment_checking_ticks urls)"
  by (rule storesI [of _ "Count_checking urls"]) simp

lemma stores_set_repo [storing]: "stores (set_repo_state r)"
  by (rule storesI [of _ "Set_repo r"]) simp

lemma stores_upsert_repo [storing]: "stores (upsert_repo r)"
  by (rule storesI [of _ "Track_repo r"]) simp

lemma stores_prune [storing]: "stores (prune_history now)"
  by (rule storesI [of _ "Prune now"]) simp

lemma stores_readings [storing]: "stores (record_readings rs)"
  by (rule storesI [of _ "Store_readings (map reading_row_of rs)"]) (simp add: record_readings_def)

lemma stores_intervals [storing]: "stores (q_record_intervals rows)"
  by (rule storesI [of _ "Store_intervals rows"]) simp

subsection \<open>Queries that only read\<close>

lemma keeps_lift [keeping]: "keeps I (lift_sum r)"
  by (cases r) (simp_all add: keeps_def lift_sum_def)

lemma keeps_absent [keeping]: "keeps I q \<Longrightarrow> keeps I (or_absent what q)"
  by (auto simp: keeps_def or_absent_def split: prod.splits sum.splits if_splits)

lemma keeps_missing [keeping]: "keeps I q \<Longrightarrow> keeps I (or_not_found missing what q)"
  by (auto simp: keeps_def or_not_found_def split: prod.splits sum.splits)

lemmas read_queries = tickets_def q_list_tickets_def last_observation_def get_meta_def q_get_meta_def repos_def
  q_list_repos_def pending_verb_intents_def q_pending_verb_intents_def latest_runs_by_ticket_def
  q_list_latest_runs_by_ticket_def pass_runs_def q_list_pass_runs_def run_baseline_def q_run_baseline_def last_error_def
  latest_readings_full_def q_latest_readings_full_def pending_runs_awaiting_disposition_def
  q_pending_runs_awaiting_disposition_def pending_edit_ticket_intents_def q_pending_edit_ticket_intents_def

lemma keeps_tickets [keeping]: "keeps I tickets" and keeps_last_observation [keeping]: "keeps I last_observation"
  and keeps_repos [keeping]: "keeps I repos" and keeps_pending_verb [keeping]: "keeps I (pending_verb_intents json v)"
  and keeps_latest_runs [keeping]: "keeps I latest_runs_by_ticket" and keeps_pass_runs [keeping]: "keeps I pass_runs"
  and keeps_baseline [keeping]: "keeps I (run_baseline i)" and keeps_last_error [keeping]: "keeps I last_error"
  and keeps_readings [keeping]: "keeps I latest_readings_full"
  and keeps_pending_runs [keeping]: "keeps I pending_runs_awaiting_disposition"
  and keeps_pending_edits [keeping]: "keeps I pending_edit_ticket_intents"
  unfolding read_queries by (intro keeping)+

lemma keeps_session [keeping]: "keeps I (session_for runs url)"
  unfolding keeps_def
proof (intro allI impI)
  fix c r c' assume I: "I (cn_db c)" and run: "session_for runs url c = (r, c')"
  have "keeps I (latest_session_id url)"
    unfolding latest_session_id_def q_latest_session_id_def by (intro keeping)
  with I run show "I (cn_db c')"
    by (auto simp: session_for_def dest: keepsD split: if_splits prod.splits sum.splits)
qed

lemma keeps_read_tickets [keeping]: "keeps I (read_tickets runs ts sessions recs)"
  by (induction ts arbitrary: sessions recs) (auto intro!: keeping simp: has_event_def q_has_event_def)

lemma keeps_by_ticket [keeping]: "keeps I (pending_by_ticket json vs m)"
  by (induction json vs m rule: pending_by_ticket.induct) (simp_all only: pending_by_ticket.simps, (intro keeping; assumption?)+)

lemma keeps_plan_input [keeping]: "keeps I (plan_input json pct)"
  unfolding plan_input_def reading_input push_facts_def q_list_push_facts_def latest_refresh_outcomes_def
    q_list_latest_refresh_outcomes_def pending_intents_def get_meta_def q_get_meta_def Let_def case_prod_unfold
  by (intro keeping)

lemmas reading_keeps = keeps_tickets keeps_last_observation keeps_repos keeps_pending_verb keeps_latest_runs keeps_pass_runs
  keeps_baseline keeps_last_error keeps_readings keeps_pending_runs keeps_pending_edits keeps_plan_input

lemmas stores_reads [storing] = reading_keeps [THEN stores_reading]

subsection \<open>Handlers\<close>

text \<open>
  \<open>leads R m\<close>: whatever the state and the result, \<open>m\<close> goes from a state to one that \<open>R\<close> relates to it. For a relation
  that is reflexive and transitive the ways to put handlers together preserve this; the locale \<open>steps\<close> says so once for
  all relations below.
\<close>

definition leads :: "('s \<Rightarrow> 's \<Rightarrow> bool) \<Rightarrow> ('s, 'a) io \<Rightarrow> bool" where
  "leads R m \<longleftrightarrow> (\<forall>s. R s (snd (m s)))"

named_theorems moving \<open>where handlers lead\<close>

lemma leadsD: "leads R m \<Longrightarrow> m s = (r, s') \<Longrightarrow> R s s'"
  unfolding leads_def by (metis snd_conv)

lemma leadsI: "(\<And>s r s'. m s = (r, s') \<Longrightarrow> R s s') \<Longrightarrow> leads R m"
  unfolding leads_def by (metis prod.collapse)

lemma leads_if [moving]: "leads R m \<Longrightarrow> leads R n \<Longrightarrow> leads R (if b then m else n)"
  by simp

lemma leads_option [moving]: "leads R m \<Longrightarrow> (\<And>a. leads R (f a)) \<Longrightarrow> leads R (case x of None \<Rightarrow> m | Some a \<Rightarrow> f a)"
  by (simp split: option.split)

lemma leads_prod [moving]: "(\<And>a b. leads R (f a b)) \<Longrightarrow> leads R (case x of (a, b) \<Rightarrow> f a b)"
  by (simp split: prod.split)

lemma leads_list [moving]: "leads R m \<Longrightarrow> (\<And>y ys. leads R (f y ys)) \<Longrightarrow> leads R (case xs of [] \<Rightarrow> m | y # ys \<Rightarrow> f y ys)"
  by (simp split: list.split)

lemma leads_sum [moving]:
  "(\<And>a. leads R (f a)) \<Longrightarrow> (\<And>b. leads R (g b)) \<Longrightarrow> leads R (case x of Inl a \<Rightarrow> f a | Inr b \<Rightarrow> g b)"
  by (simp split: sum.split)

lemma leads_removal_state [moving]:
  "leads R m \<Longrightarrow> leads R n \<Longrightarrow> leads R l \<Longrightarrow> leads R k \<Longrightarrow>
     leads R (case st of RemovalUnknown \<Rightarrow> m | RemovableByMerged \<Rightarrow> n | RemovableByForce \<Rightarrow> l | NotRemovable \<Rightarrow> k)"
  by (simp split: removal_state.split)

lemma leads_with_tick [moving]: "(\<And>t. leads R (f t)) \<Longrightarrow> leads R (with_tick f)"
  by (simp add: leads_def with_tick_def)

lemma and_then_case: "and_then m f = try_else m fail_with f"
  by (simp add: fun_eq_iff and_then_def try_else_def split: prod.split sum.split)

lemma wrapping_case: "wrapping what m = try_else m (\<lambda>e. fail_with (Wrapped what e)) ret"
  by (simp add: fun_eq_iff wrapping_def try_else_def split: prod.split sum.split)

lemma or_else_case: "or_else m h = try_else m h ret"
  by (simp add: fun_eq_iff or_else_def try_else_def split: prod.split sum.split)

locale steps =
  fixes R :: "'s \<Rightarrow> 's \<Rightarrow> bool"
  assumes refl: "R s s" and trans: "R s t \<Longrightarrow> R t u \<Longrightarrow> R s u"
begin

lemma returns [moving]: "leads R (ret a)" and fails [moving]: "leads R (fail_with e)"
  by (simp_all add: leads_def refl)

lemma tries [moving]:
  assumes "leads R m" and "\<And>e. leads R (h e)" and "\<And>a. leads R (f a)"
  shows "leads R (try_else m h f)"
proof (rule leadsI)
  fix s r s' assume run: "try_else m h f s = (r, s')"
  obtain r1 s1 where first: "m s = (r1, s1)" by (meson surj_pair)
  note one = leadsD [OF assms(1) first]
  show "R s s'"
  proof (cases r1)
    case (Inl e)
    with run first have "h e s1 = (r, s')" by (simp add: try_else_def)
    from trans [OF one leadsD [OF assms(2) this]] show ?thesis .
  next
    case (Inr a)
    with run first have "f a s1 = (r, s')" by (simp add: try_else_def)
    from trans [OF one leadsD [OF assms(3) this]] show ?thesis .
  qed
qed

lemma binds [moving]: "leads R m \<Longrightarrow> (\<And>a. leads R (f a)) \<Longrightarrow> leads R (and_then m f)"
  unfolding and_then_case by (rule tries) (auto intro: fails)

lemma wraps [moving]: "leads R m \<Longrightarrow> leads R (wrapping what m)"
  unfolding wrapping_case by (rule tries) (auto intro: fails returns)

lemma recovers [moving]: "leads R m \<Longrightarrow> (\<And>e. leads R (h e)) \<Longrightarrow> leads R (or_else m h)"
  unfolding or_else_case by (rule tries) (auto intro: returns)

lemma attempts [moving]: "leads R m \<Longrightarrow> leads R (attempt m)"
  by (simp add: leads_def attempt_def split: prod.splits) (metis snd_conv)

lemma lifts [moving]: "leads R (lift_sum r)"
  by (cases r) (simp_all add: lift_sum_def leads_def refl)

lemma eaches [moving]:
  assumes "\<And>x. leads R (f x)"
  shows "leads R (each_io f xs)"
proof (induction xs)
  case Nil
  then show ?case by (simp add: leads_def refl)
next
  case (Cons x xs)
  have "each_io f (x # xs) = and_then (f x) (\<lambda>_. each_io f xs)" by (simp add: fun_eq_iff)
  with Cons assms show ?case by (simp add: binds)
qed

end

end
