(* ===== verification/Loop_Handlers.thy ===== *)
theory Loop_Handlers imports Loop_Steps begin

text \<open>
  Where every handler of a tick leads, once for all relations between states. The locale \<open>handlers\<close> is the contract
  between a relation and the environment of the loop: the relation holds when the tables evolve through operations of the
  store, when the world changes as the environment's operations may change it, and when the tick's record changes outside
  the settings it observed. Its lemmas walk through all handlers. The first interpretation gives that a tick changes the tables only
  through operations of the store.
\<close>

subsection \<open>Commands of the loop\<close>

text \<open>The arguments a handler may run \<open>git\<close>, \<open>gh\<close> and \<open>tp\<close> with.\<close>

definition plain_push :: "string list \<Rightarrow> bool" where
  "plain_push args \<longleftrightarrow> length args = 2 \<and> hd args = ''origin''"

definition leased_push :: "string list \<Rightarrow> bool" where
  "leased_push args \<longleftrightarrow> length args = 3 \<and> args ! 1 = ''origin''
     \<and> (let lease = ''--force-with-lease='' @ args ! 2 @ '':''
        in has_prefix (args ! 0) lease \<and> length lease < length (args ! 0))"

definition safe_git :: "string list \<Rightarrow> bool" where
  "safe_git args \<longleftrightarrow> (case args of [] \<Rightarrow> False | verb # rest \<Rightarrow>
     if verb = ''push'' then plain_push rest \<or> leased_push rest
     else verb \<in> {''diff'', ''rev-parse'', ''rev-list'', ''merge-base'', ''merge'', ''rebase'', ''status'', ''worktree'', ''branch''})"

definition safe_command :: "string \<times> string list \<Rightarrow> bool" where
  "safe_command c = (case c of (name, args) \<Rightarrow>
     name = ''git'' \<and> safe_git args
   \<or> name = ''gh'' \<and> take 2 args \<in> {[''pr'', ''create''], [''pr'', ''ready''], [''pr'', ''edit''], [''issue'', ''close'']}
   \<or> name = ''tp'' \<and> (take 1 args = [''new''] \<or> take 2 args \<in> {[''remove'', ''--merged''], [''remove'', ''--force'']}))"

lemma safe_git_verb [simp]:
  "verb \<noteq> ''push'' \<Longrightarrow> safe_command (''git'', verb # rest) \<longleftrightarrow>
     verb \<in> {''diff'', ''rev-parse'', ''rev-list'', ''merge-base'', ''merge'', ''rebase'', ''status'', ''worktree'', ''branch''}"
  by (simp add: safe_command_def safe_git_def)

lemma safe_plain_push [simp]: "safe_command (''git'', [''push'', ''origin'', branch])"
  by (simp add: safe_command_def safe_git_def plain_push_def)

lemma safe_leased_push:
  "tip \<noteq> [] \<Longrightarrow> safe_command (''git'', [''push'', ''--force-with-lease='' @ branch @ '':'' @ tip, ''origin'', branch])"
  using has_prefix_append [of "''--force-with-lease='' @ branch @ '':''" tip]
  by (simp add: safe_command_def safe_git_def leased_push_def Let_def)

lemma safe_gh [simp]:
  "take 2 args \<in> {[''pr'', ''create''], [''pr'', ''ready''], [''pr'', ''edit''], [''issue'', ''close'']} \<Longrightarrow> safe_command (''gh'', args)"
  by (simp add: safe_command_def)

lemma safe_tp [simp]:
  "take 1 args = [''new''] \<or> take 2 args \<in> {[''remove'', ''--merged''], [''remove'', ''--force'']} \<Longrightarrow> safe_command (''tp'', args)"
  by (auto simp: safe_command_def)

subsection \<open>What the environment may do to the world\<close>

definition gentle_files :: "('w \<Rightarrow> 'w \<Rightarrow> bool) \<Rightarrow> 'w files \<Rightarrow> bool" where
  "gentle_files W F \<longleftrightarrow>
     (\<forall>p. leads W (fi_open F p)) \<and> (\<forall>p. leads W (fi_read_all F p)) \<and> (\<forall>p. leads W (fi_close F p))
   \<and> (\<forall>p. leads W (fi_size F p)) \<and> (\<forall>p n i. leads W (fi_read_at F p n i)) \<and> (\<forall>p. leads W (fi_read_file F p))
   \<and> (\<forall>p x. leads W (fi_write_file F p x)) \<and> (\<forall>p. leads W (fi_create F p)) \<and> (\<forall>p. leads W (fi_remove F p))
   \<and> (\<forall>p. leads W (fi_stat F p)) \<and> (\<forall>p. leads W (fi_read_dir F p)) \<and> (\<forall>p w. W w (snd (fi_walk F p w)))"

definition gentle_runner :: "('w \<Rightarrow> 'w \<Rightarrow> bool) \<Rightarrow> 'w agent_runner \<Rightarrow> bool" where
  "gentle_runner W R \<longleftrightarrow>
     (\<forall>c. leads W (ar_spawn R c)) \<and> (\<forall>p a b. leads W (ar_liveness R p a b)) \<and> (\<forall>p. leads W (ar_cancel R p))
   \<and> (\<forall>p w. W w (snd (ar_reap R p w)))"

definition gentle_forge :: "('w \<Rightarrow> 'w \<Rightarrow> bool) \<Rightarrow> 'w forge \<Rightarrow> bool" where
  "gentle_forge W F \<longleftrightarrow>
     (\<forall>d b x dr. leads W (fo_create F d b x dr)) \<and> (\<forall>d b. leads W (fo_ready F d b))
   \<and> (\<forall>d b x. leads W (fo_edit F d b x)) \<and> (\<forall>d u. leads W (fo_close_issue F d u))"

definition gentle_worktrees :: "('w \<Rightarrow> 'w \<Rightarrow> bool) \<Rightarrow> 'w worktree_cli \<Rightarrow> bool" where
  "gentle_worktrees W T \<longleftrightarrow> (\<forall>d b x. leads W (wt_new T d b x)) \<and> (\<forall>d b m. leads W (wt_remove T d b m))"

definition gentle :: "('w \<Rightarrow> 'w \<Rightarrow> bool) \<Rightarrow> 'w loop_env \<Rightarrow> bool" where
  "gentle W E \<longleftrightarrow>
     (\<forall>timeout dir name args w. safe_command (name, args) \<longrightarrow> W w (snd (h_exec (le_host E) timeout dir name args w)))
   \<and> gentle_files W (le_files E) \<and> gentle_runner W (le_runner E) \<and> gentle_forge W (le_forge E)
   \<and> gentle_worktrees W (le_worktrees E) \<and> (\<forall>w. W w (snd (le_now E w)))
   \<and> (\<forall>d r at. leads W (le_validate E d r at)) \<and> (\<forall>n. leads W (le_remote_of E n))
   \<and> (\<forall>k r f feature. le_tickets_of E k r = Inr f \<longrightarrow> leads W (f feature))"

lemma gentle_everything: "gentle (\<lambda>_ _. True) E"
  by (simp add: gentle_def gentle_files_def gentle_runner_def gentle_forge_def gentle_worktrees_def leads_def)

definition stored :: "'w machine \<Rightarrow> db" where
  "stored s = cn_db (mc_conn s)"

text \<open>The settings a tick observed; the handlers do not change them.\<close>

definition settings_in :: "'w machine \<Rightarrow> (string, repo_settings) gomap" where
  "settings_in s = ob_settings (tc_obs (mc_tick s))"

lemma settings_in_upd [simp]:
  "settings_in (s\<lparr>mc_conn := c\<rparr>) = settings_in s" "settings_in (s\<lparr>mc_world := w\<rparr>) = settings_in s"
  by (simp_all add: settings_in_def)

lemma stored_upd [simp]:
  "stored (s\<lparr>mc_world := w\<rparr>) = stored s" "stored (s\<lparr>mc_tick := t\<rparr>) = stored s" "stored (s\<lparr>mc_conn := c\<rparr>) = cn_db c"
  by (simp_all add: stored_def)


subsection \<open>The contract\<close>

locale handlers = steps R for R :: "'w machine \<Rightarrow> 'w machine \<Rightarrow> bool" +
  fixes W :: "'w \<Rightarrow> 'w \<Rightarrow> bool" and E :: "'w loop_env"
  assumes world_refl: "W w w" and world_trans: "W w v \<Longrightarrow> W v u \<Longrightarrow> W w u"
    and environment: "gentle W E"
    and on_tables: "evolves (stored s) (stored t) \<Longrightarrow> mc_world t = mc_world s \<Longrightarrow> mc_tick t = mc_tick s \<Longrightarrow> R s t"
    and in_world: "W (mc_world s) w \<Longrightarrow> R s (s\<lparr>mc_world := w\<rparr>)"
    and in_tick: "ob_settings (tc_obs tck) = settings_in s \<Longrightarrow> R s (s\<lparr>mc_tick := tck\<rparr>)"
    and settings: "R s t \<Longrightarrow> settings_in t = settings_in s"
    and verifying: "rs_verify_command (get_or no_settings (settings_in s) repo) = name # args \<Longrightarrow>
      R s (s\<lparr>mc_world := snd (h_exec (le_host E) verify_timeout wt name args (mc_world s))\<rparr>)"
begin

sublocale world: steps W
  by unfold_locales (auto intro: world_refl world_trans)

lemma store [moving]: "stores q \<Longrightarrow> leads R (on_store q)"
  by (auto simp: leads_def stores_def on_store_def stored_def split: prod.split intro!: on_tables) (metis snd_conv)

lemma outside [moving]: "leads W m \<Longrightarrow> leads R (on_world m)"
  by (auto simp: leads_def on_world_def split: prod.split intro!: in_world) (metis snd_conv)

lemma tick_part [moving]: "(\<And>t. ob_settings (tc_obs (f t)) = ob_settings (tc_obs t)) \<Longrightarrow> leads R (on_tick f)"
  by (simp add: leads_def on_tick_def in_tick settings_in_def)

lemma obs_part [moving]: "(\<And>ob. ob_settings (g ob) = ob_settings ob) \<Longrightarrow> leads R (update_obs g)"
  unfolding update_obs_def by (rule tick_part) simp

lemma files [moving]:
  "leads W (fi_open (le_files E) p)" "leads W (fi_read_all (le_files E) p)" "leads W (fi_close (le_files E) p)"
  "leads W (fi_size (le_files E) p)" "leads W (fi_read_at (le_files E) p n i)" "leads W (fi_read_file (le_files E) p)"
  "leads W (fi_write_file (le_files E) p x)" "leads W (fi_create (le_files E) p)" "leads W (fi_remove (le_files E) p)"
  "leads W (fi_stat (le_files E) p)" "leads W (fi_read_dir (le_files E) p)"
  using environment by (simp_all add: gentle_def gentle_files_def)

lemma agents [moving]:
  "leads W (ar_spawn (le_runner E) c)" "leads W (ar_liveness (le_runner E) n a b)" "leads W (ar_cancel (le_runner E) n)"
  using environment by (simp_all add: gentle_def gentle_runner_def)

lemma forge [moving]:
  "leads W (fo_create (le_forge E) d b x dr)" "leads W (fo_ready (le_forge E) d b)" "leads W (fo_edit (le_forge E) d b x)"
  "leads W (fo_close_issue (le_forge E) d b)" "leads W (wt_new (le_worktrees E) d b x)" "leads W (wt_remove (le_worktrees E) d b m)"
  using environment by (simp_all add: gentle_def gentle_forge_def gentle_worktrees_def)

lemma others [moving]:
  "leads W (le_validate E d r at)" "leads W (le_remote_of E n)"
  using environment by (simp_all add: gentle_def)

lemma tickets_source: "le_tickets_of E k x = Inr f \<Longrightarrow> leads W (f feature)"
  using environment by (simp add: gentle_def)

lemma reaping: "W w (snd (ar_reap (le_runner E) n w))" and walking: "W w (snd (fi_walk (le_files E) p w))"
  and telling: "W w (snd (le_now E w))"
  using environment by (simp_all add: gentle_def gentle_runner_def gentle_files_def)

lemma clock [moving]: "leads R (clock_now E)"
  unfolding clock_now_def by (rule outside) (simp add: leads_def telling split: prod.split, metis telling snd_conv)

lemma stopping [moving]: "leads R (context_error E)"
  unfolding context_error_def by (rule outside) (simp add: leads_def world_refl)

lemma event [moving]: "leads R (record_event E url kind detail)"
  unfolding record_event_def by (intro moving storing)

end


subsection \<open>Commands\<close>

lemma leads_read [moving]:
  "(\<And>e. leads R (f e)) \<Longrightarrow> (\<And>x. leads R (g x)) \<Longrightarrow> leads R (\<lambda>w. (case h_read H p w of Inl e \<Rightarrow> f e | Inr x \<Rightarrow> g x) w)"
  by (simp add: leads_def split: sum.split)

lemma leads_stat [moving]:
  "leads R m \<Longrightarrow> (\<And>e. leads R (f e)) \<Longrightarrow> leads R (\<lambda>w. (case h_stat H p w of None \<Rightarrow> m | Some e \<Rightarrow> f e) w)"
  by (simp add: leads_def split: option.split)

lemma git_run_case:
  "git_run H repo args = try_else (git_out H repo args)
     (\<lambda>e. if exit_code e = Some 1 then ret ([], False) else fail_with (Wrapped ''run git status query'' e)) (\<lambda>out. ret (out, True))"
  by (simp add: fun_eq_iff git_run_def try_else_def split: prod.split sum.split)

lemma rebasing_loop_Cons:
  "rebasing_loop H wt (dir # dirs) =
     and_then (wrapping ''resolve rebase head'' (git_path H wt (dir @ ''/head-name'')))
       (\<lambda>head w. (case h_read H head w of
          Inl e \<Rightarrow> if is_not_exist e then rebasing_loop H wt dirs else fail_with (Wrapped (''read '' @ head @ '' for '' @ wt) e)
        | Inr ref \<Rightarrow> let name = trim_space ref
            in ret (if has_prefix name ''refs/heads/'' then trim_prefix name ''refs/heads/'' else [])) w)"
  by (auto simp: fun_eq_iff and_then_def Let_def split: prod.split sum.split)

lemma mid_rebase_loop_Cons:
  "mid_rebase_loop H wt (dir # dirs) =
     and_then (wrapping ''resolve rebase directory'' (git_path H wt dir))
       (\<lambda>path w. (case h_stat H path w of
          None \<Rightarrow> ret True
        | Some e \<Rightarrow> if is_not_exist e then mid_rebase_loop H wt dirs else fail_with (Wrapped (''stat '' @ path @ '' for '' @ wt) e)) w)"
  by (auto simp: fun_eq_iff and_then_def split: prod.split sum.split option.split)

context handlers
begin

lemma exec [moving]: "safe_command (name, args) \<Longrightarrow> leads W (output_within (le_host E) timeout dir name args)"
  using environment by (auto simp: leads_def output_within_def gentle_def Let_def split: prod.split option.split) (metis snd_conv)+

lemma git_commands [moving]:
  "safe_command (''git'', args) \<Longrightarrow> leads W (git_out (le_host E) repo args)"
  "safe_command (''git'', args) \<Longrightarrow> leads W (git_do (le_host E) what repo args)"
  "safe_command (''git'', args) \<Longrightarrow> leads W (git_run (le_host E) repo args)"
  "safe_command (''git'', args) \<Longrightarrow> leads W (succeeds (le_host E) repo args)"
  unfolding git_do_def succeeds_def git_run_case git_out_def output_cmd_def by (intro moving; assumption)+

lemma git_queries [moving]:
  "leads W (ref_exists (le_host E) repo ref)" "leads W (ancestor (le_host E) repo c ref)" "leads W (rev_parse (le_host E) repo ref)"
  "leads W (branch_tip (le_host E) repo branch)" "leads W (changed_paths (le_host E) repo base branch)"
  "leads W (commits_since (le_host E) repo base ref)" "leads W (dirty (le_host E) repo)"
  "leads W (git_path (le_host E) repo name)"
  unfolding ref_exists_def ancestor_def rev_parse_def branch_tip_def changed_paths_def commits_since_def dirty_def git_path_def Let_def
  by (intro moving; simp)+

lemma rebasing [moving]: "leads W (rebasing_loop (le_host E) wt dirs)"
  by (induction dirs) (simp_all only: rebasing_loop.simps(1) rebasing_loop_Cons Let_def, (intro moving; assumption?)+)

lemma mid_rebasing [moving]: "leads W (mid_rebase_loop (le_host E) wt dirs)"
  by (induction dirs) (simp_all only: mid_rebase_loop.simps(1) mid_rebase_loop_Cons, (intro moving; assumption?)+)

lemma worktrees_rebasing [moving]: "leads W (add_rebasing (le_host E) paths ws)"
  by (induction paths arbitrary: ws) (simp_all only: add_rebasing.simps rebasing_branch_def, (intro moving; assumption?)+)

lemma git_changes [moving]:
  "leads W (push_branch_git (le_host E) repo branch)" "tip \<noteq> [] \<Longrightarrow> leads W (push_restacked (le_host E) repo branch tip)"
  "leads W (merge_ff_only (le_host E) wt ref)" "leads W (merge_git (le_host E) wt ref)" "leads W (rebase (le_host E) wt onto up)"
  "leads W (mid_merge (le_host E) wt)" "leads W (merge_abort (le_host E) wt)" "leads W (worktree_paths (le_host E) repo)"
  "leads W (delete_branch_if_exists (le_host E) repo branch)" "leads W (removal_state_for (le_host E) repo branch proven)"
  unfolding push_branch_git_def push_restacked_def merge_ff_only_def merge_git_def rebase_def mid_merge_def merge_abort_def
    worktree_paths_def delete_branch_if_exists_def removal_state_for_def mid_rebase_def Let_def case_prod_unfold
  by (intro moving; (rule safe_leased_push, assumption | simp))+

lemma pushing [moving]: "leads W (push_branch (le_host E) repo branch tip restacked)"
  unfolding push_branch_def by (cases "tip = []") (simp_all only: simp_thms if_True, (intro moving; assumption?)+)

lemma advancing [moving]: "leads W (advance_onto (le_host E) wt repo base row ob)"
  unfolding advance_onto_def merging_onto_def Let_def by (intro moving)

end


lemma consume_each_Cons:
  "consume_each E f (i # is) =
     try_else (f i)
       (\<lambda>e. if is_sentinel ''intent stays pending'' e then consume_each E f is
            else fail_with (Wrapped (''intent '' @ itoa (it_id i) @ '' for '' @ it_ticket i) e))
       (\<lambda>_. and_then (and_then (clock_now E) (\<lambda>at.
              wrapping (''consume intent '' @ itoa (it_id i) @ '' for '' @ it_ticket i)
                (on_store (consume_verb_intent (it_id i) at))))
            (\<lambda>_. consume_each E f is))"
  by (simp add: fun_eq_iff try_else_def split: prod.split sum.split)

lemma consuming_steps:
  assumes "steps R" and "leads R (clock_now E)" and "\<And>n at. leads R (on_store (consume_verb_intent n at))"
    and "\<And>i. leads R (f i)"
  shows "leads R (consume_each E f is)"
proof (induction "is")
  case Nil
  then show ?case using steps.refl [OF assms(1)] by (simp add: leads_def)
next
  case (Cons i "is")
  then show ?case unfolding consume_each_Cons
    by (intro steps.tries [OF assms(1)] steps.binds [OF assms(1)] steps.wraps [OF assms(1)] steps.fails [OF assms(1)]
        leads_if assms(2-4))
qed

lemma for_each_line_case: "load_visits decode F ((path, e, is_dir) # visits) requests =
     (case e of
        Some err \<Rightarrow>
          if is_not_exist err then load_visits decode F visits requests else fail_with (Wrapped (''walk '' @ path) err)
      | None \<Rightarrow>
          if is_dir \<or> \<not> has_suffix path ''.jsonl'' then load_visits decode F visits requests
          else try_else (parse_transcript_usage decode F path)
            (\<lambda>err. if is_not_exist err then load_visits decode F visits requests
                   else fail_with (Wrapped (''parse transcript '' @ path) err))
            (\<lambda>found. load_visits decode F visits (requests @ found)))"
  by (auto simp: fun_eq_iff try_else_def split: option.split prod.split sum.split)

lemma mark_alive_settings [simp]: "ob_settings (mark_alive ob url) = ob_settings ob"
  by (simp add: mark_alive_def)

lemma mark_all_settings [simp]: "ob_settings (fold (\<lambda>url ob. mark_alive ob url) urls ob) = ob_settings ob"
  by (induction urls arbitrary: ob) simp_all

context handlers
begin

lemma consuming [moving]: "(\<And>i. leads R (f i)) \<Longrightarrow> leads R (consume_each E f is)"
  by (rule consuming_steps [OF steps_axioms clock store [OF stores_consume]])

lemma each_asked [moving]: "(\<And>i. leads R (f i)) \<Longrightarrow> leads R (each_intent E snap v f)"
  and each_pending [moving]: "(\<And>i. leads R (f i)) \<Longrightarrow> leads R (each_pending_intent E v f)"
  and all_consumed [moving]: "leads R (consume_all E is)"
  unfolding each_intent_def each_pending_intent_def consume_all_def by (intro moving storing; assumption?)+

lemma error_once [moving]: "leads R (record_tick_error_once E msg)"
  unfolding record_tick_error_once_def by (intro moving storing)

lemma tick_failing [moving]: "leads R (fail_tick E e)"
  unfolding fail_tick_def by (intro moving)

lemma or_failing [moving]: "leads R m \<Longrightarrow> leads R (or_fail_tick E m)"
  unfolding or_fail_tick_def by (intro moving)

subsection \<open>Pushes and refreshes\<close>

lemma push_ones [moving]: "leads R (push_one E e p)"
  unfolding push_one_def record_pushed_def open_pr_def pr_text_def read_handoff_def Let_def
  by (intro moving storing)

lemma push_all [moving]: "leads R (push_pushable E snap)" and retry_push [moving]: "leads R (apply_retry_push_intents E snap)"
  unfolding push_pushable_def apply_retry_push_intents_def Let_def by (intro moving)+

lemma verified:
  assumes "rs_verify_command (get_or no_settings (settings_in s) repo) = argv" and "verify_one E t wt argv s = (r, s')"
  shows "R s s'"
proof (cases argv)
  case Nil
  with assms show ?thesis by (simp add: verify_one_def refl)
next
  case (Cons name args)
  define s1 where "s1 = s\<lparr>mc_world := snd (h_exec (le_host E) verify_timeout wt name args (mc_world s))\<rparr>"
  define po where "po = fst (h_exec (le_host E) verify_timeout wt name args (mc_world s))"
  define rest where "rest = (case finish_cmd verify_timeout wt argv po of None \<Rightarrow> ret ()
    | Some e \<Rightarrow> record_event E (t_url t) EventVerificationFailed (verify_detail e (po_stdout po)))"
  have "verify_one E t wt argv s = rest s1"
    by (cases "h_exec (le_host E) verify_timeout wt name args (mc_world s)")
      (simp add: verify_one_def Cons and_then_def on_world_def Let_def rest_def s1_def po_def split: option.split)
  moreover have "leads R rest" unfolding rest_def by (intro moving)
  moreover have "R s s1" unfolding s1_def using assms(1) Cons by (intro verifying) simp
  ultimately show ?thesis using trans leadsD [of R rest s1 r s'] assms(2) by auto
qed

lemma refreshed [moving]: "leads R (refresh_done E t wt restacked detail)"
proof (rule leadsI)
  fix s r s' assume run: "refresh_done E t wt restacked detail s = (r, s')"
  define kind where "kind = (if restacked then EventRestacked else EventRefreshed)"
  define first where "first = wrapping (''record '' @ event_kind_text kind @ '' of '' @ t_url t)
    (record_event E (t_url t) kind (''merged origin/'' @ t_branch t @ '' then '' @ detail))"
  let ?argv = "rs_verify_command (get_or no_settings (settings_in s) (t_repo t))"
  have run: "and_then first (\<lambda>_. wrapping (''verify '' @ t_url t) (verify_one E t wt ?argv)) s = (r, s')"
    using run by (simp only: refresh_done_def with_tick_def first_def kind_def Let_def settings_in_def)
  obtain r1 s1 where f: "first s = (r1, s1)" by (meson surj_pair)
  have "leads R first" unfolding first_def by (intro moving)
  from leadsD [of R first, OF this f] have one: "R s s1" .
  show "R s s'"
  proof (cases r1)
    case (Inl e)
    with run f one show ?thesis by (simp add: and_then_def)
  next
    case (Inr u)
    with run f have "wrapping (''verify '' @ t_url t) (verify_one E t wt ?argv) s1 = (r, s')"
      by (simp add: and_then_def)
    then obtain r2 where "verify_one E t wt ?argv s1 = (r2, s')"
      by (auto simp: wrapping_def split: prod.splits sum.splits)
    from verified [OF _ this, of "t_repo t"] settings [OF one] trans [OF one] show ?thesis by simp
  qed
qed

lemma refresh_ones [moving]: "leads R (refresh_one E snap t row requested)"
  unfolding refresh_one_def refresh_failed_def refresh_conflicted_def Let_def by (intro moving)

lemma refresh_all [moving]: "leads R (apply_refresh_intents E snap)"
  and transitions [moving]: "leads R (record_transitions E snap)"
  and drafts [moving]: "leads R (apply_draft_gate E snap)"
  and retargets [moving]: "leads R (retarget_merged E snap)"
  unfolding apply_refresh_intents_def record_transitions_def apply_draft_gate_def each_entry_def ready_one_def
    retarget_merged_def retarget_one_def Let_def
  by (intro moving storing)+

subsection \<open>Starting runs\<close>

lemma log_closed [moving]:
  assumes "leads R body"
  shows "leads R (and_close_log E i body)"
proof (rule leadsI)
  fix s r s' assume run: "and_close_log E i body s = (r, s')"
  obtain r1 s1 where b: "body s = (r1, s1)" by (meson surj_pair)
  obtain r2 s2 where c: "on_world (fi_close (le_files E) (run_path E i ''jsonl'')) s1 = (r2, s2)" by (meson surj_pair)
  have closing: "leads R (on_world (fi_close (le_files E) (run_path E i ''jsonl'')))" by (intro moving)
  have "s' = s2" using run b c by (auto simp: and_close_log_def Let_def split: sum.splits)
  then show "R s s'"
    using trans [OF leadsD [OF assms b] leadsD [OF closing c]] by simp
qed

lemma spawning [moving]: "leads R (spawn_run E spec)"
  unfolding spawn_run_def start_agent_def spawn_failed_def spawned_def insert_skeleton_def system_prompt_for_def Let_def
  by (intro moving storing; simp)

lemma cutting [moving]: "leads R (cut_and_spawn E tk launched base h begin_at)"
  unfolding cut_and_spawn_def cut_failed_def Let_def by (intro moving storing)

lemma handing_over [moving]: "leads R (with_handoffs E rs)"
  by (induction rs) (simp_all only: with_handoffs.simps read_handoff_def, (intro moving; assumption?)+)

lemma launching [moving]: "leads R (launch_eligible E snap by_url)"
  unfolding launch_eligible_def launch_one_def advance_pass_def Let_def by (intro moving storing)

subsection \<open>Ended runs\<close>

lemma closed_after [moving]:
  assumes "leads W body"
  shows "leads W (and_close (le_files E) path what body)"
proof (rule leadsI)
  fix w r w' assume run: "and_close (le_files E) path what body w = (r, w')"
  obtain r1 w1 where b: "body w = (r1, w1)" by (meson surj_pair)
  obtain r2 w2 where c: "fi_close (le_files E) path w1 = (r2, w2)" by (meson surj_pair)
  have "w' = w2" using run b c by (auto simp: and_close_def split: sum.splits)
  then show "W w w'"
    using world_trans [OF leadsD [OF assms b] leadsD [OF files(3) c]] by simp
qed

lemma log_lines [moving]: "leads W (for_each_line decode (le_files E) path)"
  unfolding for_each_line_def by (intro moving)

lemma log_parts [moving]:
  "leads W (parse_transcript_usage decode (le_files E) path)" "leads W (parse_last_message decode (le_files E) path)"
  "leads W (parse_metrics decode (le_files E) path)" "leads W (parse_readings decode (le_files E) path)"
  unfolding parse_transcript_usage_def parse_last_message_def parse_metrics_def parse_readings_def by (intro moving)+

lemma visiting [moving]: "leads W (load_visits decode (le_files E) visits requests)"
proof (induction visits arbitrary: requests)
  case Nil
  then show ?case by (simp add: leads_def world_refl)
next
  case (Cons v visits)
  then show ?case by (cases v) (simp only: for_each_line_case, intro moving; assumption?)
qed

lemma transcripts [moving]: "leads W (load_requests decode (le_files E) dir)"
proof (rule leadsI)
  fix w r w' assume run: "load_requests decode (le_files E) dir w = (r, w')"
  obtain visits w1 where f: "fi_walk (le_files E) dir w = (visits, w1)" by (meson surj_pair)
  have "leads W (wrapping ''load transcript requests'' (load_visits decode (le_files E) visits []))" by (intro moving)
  moreover have "W w w1" using walking [of w dir] f by simp
  ultimately show "W w w'" using run f leadsD world_trans by (fastforce simp: load_requests_def)
qed

lemma limited [moving]: "leads W (read_limited (le_files E) path n)"
proof (rule leadsI)
  fix w r w' assume run: "read_limited (le_files E) path n w = (r, w')"
  obtain r1 w1 where b: "fi_read_at (le_files E) path n 0 w = (r1, w1)" by (meson surj_pair)
  obtain r2 w2 where c: "fi_close (le_files E) path w1 = (r2, w2)" by (meson surj_pair)
  have "w' = w2" using run b c by (auto simp: read_limited_def split: sum.splits)
  then show "W w w'"
    using world_trans [OF leadsD [OF files(5) b] leadsD [OF files(3) c]] by simp
qed

lemma log_parsed [moving]: "leads W m \<Longrightarrow> leads R (parse_log path m)"
  unfolding parse_log_def by (intro moving; assumption?)

lemma question_read [moving]: "leads R (read_question_file E i)"
  unfolding read_question_file_def Let_def by (intro moving)

lemma found_dead [moving]: "leads R (observed_dead E i url)"
  unfolding observed_dead_def by (intro moving; simp)

lemma runs_observed [moving]: "leads R (observe_runs E)"
  unfolding observe_runs_def observe_run_def by (intro moving storing; simp)

lemma run_cancelled [moving]: "leads R (cancel_run E url pgid)"
  unfolding cancel_run_def by (intro moving; simp)

lemma killing [moving]: "leads R (apply_kill_intents E)"
  unfolding apply_kill_intents_def case_prod_unfold by (intro moving storing)

lemma interrupting [moving]: "leads R (interrupt_loop E latest done urls)"
  by (induction urls arbitrary: "done") (simp_all only: interrupt_loop.simps, (intro moving; assumption?)+)

lemma interrupts [moving]: "leads R (interrupt_for_follow_ups E)"
  unfolding interrupt_for_follow_ups_def by (intro moving storing)

lemma outcomes [moving]: "leads R (outcome_for E run tk code last_message)"
  unfolding outcome_for_def carried_outcome_def earlier_step_outcome_def work_outcome_def pass_baseline_def
    counted_commits_def commits_since_baseline_def follow_up_queued_def Let_def
  by (intro moving storing)

lemma readings [moving]: "leads R (record_readings_and_intervals E rs dir)"
  unfolding record_readings_and_intervals_def Let_def by (intro moving storing)

lemma handed_over [moving]: "leads R (write_handoff E run st last_message failed)"
  and outcome_recorded [moving]: "leads R (record_run_outcome E run out code last_message)"
  and readings_recorded [moving]: "leads R (record_run_readings E run)"
  unfolding write_handoff_def tail_of_def record_run_outcome_def record_run_readings_def Let_def
  by (intro moving storing)+

lemma reaped [moving]: "leads R (on_world (\<lambda>w. case ar_reap (le_runner E) n w of (c, w') \<Rightarrow> (Inr c, w')))"
  by (rule outside) (simp add: leads_def reaping case_prod_beta)

lemma disposing [moving]: "leads R (dispose_run E run tk)"
  unfolding dispose_run_def Let_def by (intro moving)

lemma reconciling [moving]: "leads R (reconcile_run E by_url run)"
  unfolding reconcile_run_def Let_def by (intro moving; simp)

lemma reconciled [moving]: "leads R (reconcile_runs E by_url)"
  unfolding reconcile_runs_def by (intro moving storing)

subsection \<open>Verbs, intake and the parts of a tick\<close>

lemma aborting [moving]: "leads R (apply_abort_intents E snap)"
  unfolding apply_abort_intents_def abort_one_def Let_def by (intro moving storing; simp)

lemma transcript [moving]: "leads R (transcript_in E session dirs)"
  by (induction dirs) (simp_all only: transcript_in.simps, (intro moving; assumption?)+)

lemma following_up [moving]: "leads R (apply_follow_up_intents E snap by_url)"
  unfolding apply_follow_up_intents_def follow_up_one_def resumable_session_def Let_def by (intro moving storing; simp)

lemma cancelling [moving]: "leads R (apply_cancel_intents E)"
  and running_again [moving]: "leads R (apply_re_run_intents E snap by_url)"
  and removing_one [moving]: "leads R (remove_worktree_one E e removal)"
  unfolding apply_cancel_intents_def apply_re_run_intents_def re_run_one_def
    remove_worktree_one_def withdraw_removed_def remove_decision_def prune_run_logs_def Let_def
  by (intro moving storing)+

lemma removing [moving]: "leads R (apply_remove_worktree_intents E snap)"
  unfolding apply_remove_worktree_intents_def by (intro moving)

lemma validating_loop [moving]: "leads R (validate_loop E rs failures)"
  by (induction rs arbitrary: failures) (simp_all only: validate_loop.simps, (intro moving storing; assumption?)+)

lemma validating [moving]: "leads R (validate_cloning_repos E)"
  and tracking [moving]: "leads R (apply_track_intents E)"
  unfolding validate_cloning_repos_def apply_track_intents_def track_one_def start_cloning_def Let_def
  by (intro moving storing)+

lemma lifted:
  assumes "\<And>a. x = Inr a \<Longrightarrow> leads R (g a)"
  shows "leads R (and_then (wrapping what (lift_sum x)) g)"
  using assms by (cases x) (simp_all add: leads_def and_then_def wrapping_def lift_sum_def refl)

lemma source:
  assumes "for_remote (le_tickets_of E) kind remote = Inr (Some f)"
  shows "leads W (f feature)"
  using assms tickets_source by (auto simp: for_remote_def Let_def split: if_splits sum.splits)

lemma matching [moving]: "leads R (import_matches E feature ob rs matched)"
proof (induction rs arbitrary: matched)
  case Nil
  then show ?case by (simp only: import_matches.simps moving)
next
  case (Cons r rs)
  show ?case unfolding import_matches.simps Let_def
  proof (rule lifted)
    fix src assume src: "for_remote (le_tickets_of E) (case map_of (ob_settings ob) (so_name r) of
      None \<Rightarrow> rs_tracker default_repo_settings | Some s \<Rightarrow> rs_tracker s) (so_remote r) = Inr src"
    show "leads R (case src of None \<Rightarrow> import_matches E feature ob rs matched | Some tickets_in \<Rightarrow>
        and_then (wrapping (''import '' @ feature @ '' from '' @ so_name r) (on_world (tickets_in feature))) (\<lambda>ts.
        import_matches E feature ob rs (matched @ map (\<lambda>t. \<lparr>im_ticket = t, im_repo = so_name r,
          im_source = (case map_of (ob_settings ob) (so_name r) of
            None \<Rightarrow> rs_tracker default_repo_settings | Some s \<Rightarrow> rs_tracker s)\<rparr>) ts)))"
    proof (cases src)
      case None
      with Cons show ?thesis by simp
    next
      case (Some f)
      show ?thesis unfolding Some option.case by (intro binds wraps outside Cons source [OF src [unfolded Some]])
    qed
  qed
qed

lemma importing [moving]: "leads R (apply_import_intents E)"
  and editing [moving]: "leads R (apply_edit_ticket_intents E)"
  unfolding apply_import_intents_def import_feature_def apply_edit_ticket_intents_def apply_edit_def
  by (intro moving storing)+

lemma rereading [moving]: "leads R (reread_local_tips E)"
  unfolding reread_local_tips_def by (intro moving; simp)

lemma repo_states [moving]: "leads R (record_repo_states E)"
  and repo_problems [moving]: "leads R (record_repo_problems E snap)"
  and deriving [moving]: "leads R (derive_tick E)"
  unfolding record_repo_states_def record_repo_state_def record_repo_problems_def derive_tick_def Let_def
  by (intro moving storing)+

lemma absorbing [moving]: "leads R (absorb E)"
  unfolding absorb_def tick_checking_waits_def Let_def by (intro moving storing; simp)

lemma acting [moving]: "leads R (act E snap by_url)"
  unfolding act_def push_and_launch_def mark_spawned_alive_def by (intro moving; simp)

lemma settling [moving]: "leads R (settle_tick E)"
  unfolding settle_tick_def Let_def by (intro moving; simp)

end

subsection \<open>The tables evolve\<close>

definition evolution :: "'w machine \<Rightarrow> 'w machine \<Rightarrow> bool" where
  "evolution s t \<longleftrightarrow> evolves (stored s) (stored t)"

definition tick_evolution :: "'w machine \<Rightarrow> 'w machine \<Rightarrow> bool" where
  "tick_evolution s t \<longleftrightarrow> evolution s t \<and> settings_in t = settings_in s"

abbreviation moves :: "('w, 'a) act \<Rightarrow> bool" where
  "moves \<equiv> leads evolution"

interpretation evolution: steps evolution
  by unfold_locales (auto simp: evolution_def evolves.same intro: evolves_trans)

lemma gentle_step [moving]: "leads (\<lambda>_ _. True) m"
  by (simp add: leads_def)

interpretation evolving: handlers tick_evolution "\<lambda>_ _. True" E for E :: "'w loop_env"
proof unfold_locales
  show "tick_evolution s s" for s :: "'w machine"
    by (simp add: tick_evolution_def evolution.refl)
  show "tick_evolution s t \<Longrightarrow> tick_evolution t u \<Longrightarrow> tick_evolution s u" for s t u :: "'w machine"
    unfolding tick_evolution_def using evolution.trans by metis
qed (simp_all add: gentle_everything tick_evolution_def evolution_def evolves.same settings_in_def)

text \<open>A handler that respects the observed settings too; handlers that set the tick are followed directly.\<close>

lemma moves_handler [moving]: "leads tick_evolution m \<Longrightarrow> moves m"
  by (simp add: leads_def tick_evolution_def)

lemma moves_tick: "moves (on_tick f)"
  by (simp add: leads_def evolution_def on_tick_def stored_def evolves.same)

lemma moves_store: "stores q \<Longrightarrow> moves (on_store q)"
  by (intro moving)

lemma moves_consume: "(\<And>i. moves (f i)) \<Longrightarrow> moves (consume_each E f is)"
  by (rule consuming_steps [OF evolution.steps_axioms moves_handler [OF evolving.clock] moves_store [OF stores_consume]])

lemma moves_observer: "moves (new_observer R data_dir)"
  unfolding new_observer_def by (intro evolution.wraps evolution.binds moves_store storing leads_prod moves_handler evolving.outside gentle_step)

subsection \<open>The contract of the observer\<close>

locale daemon =
  fixes E :: "'w loop_env"
  assumes observes: "moves (le_observe E)"
begin

lemma tick_moves: "moves (run_once E)"
  unfolding run_once_def observe_tick_def begin_tick_def Let_def
  by (intro evolution.binds evolution.recovers evolution.tries evolution.fails evolution.returns moves_tick observes
      moves_handler [OF evolving.clock] moves_handler [OF evolving.or_failing] moves_handler [OF evolving.runs_observed]
      moves_handler [OF evolving.settling] evolving.wraps moving storing moves_store)

lemma ticks_evolve: "evolves (stored s) (stored (run_ticks E n s))"
proof (induction n arbitrary: s)
  case 0
  then show ?case by (simp add: evolves.same)
next
  case (Suc n)
  have "evolves (stored s) (stored (snd (run_once E s)))" using tick_moves by (simp add: leads_def evolution_def)
  with Suc [of "snd (run_once E s)"] show ?case by (auto intro: evolves_trans)
qed

lemma ticks_keep: "kept I \<Longrightarrow> I (stored s) \<Longrightarrow> I (stored (run_ticks E n s))"
  using kept.evolves_keeps [OF _ ticks_evolve] by blast

end

text \<open>The environment of the program: the observer of \<open>observe.go\<close> over the store.\<close>

definition observing :: "'w observer \<Rightarrow> 'w loop_env \<Rightarrow> 'w loop_env" where
  "observing R E = E\<lparr>le_observe := new_observer R (cf_data_dir (le_config E))\<rparr>"

interpretation observed_loop: daemon "observing R E" for R E
  by unfold_locales (simp add: observing_def moves_observer)

end
