(* ===== verification/Loop_Samples.thy ===== *)
theory Loop_Samples imports Loop_Tick begin

text \<open>
  A small daemon at which the properties of the loop are applied: the host runs every command successfully without output,
  no process is alive and no file exists. Its store holds one ticket with one agent run that awaits its outcome.
\<close>

definition sample_files :: "unit files" where
  "sample_files = \<lparr>fi_open = (\<lambda>p. fail_with (Not_exist p)), fi_read_all = (\<lambda>_. ret []), fi_close = (\<lambda>_. ret ()),
     fi_size = (\<lambda>_. ret 0), fi_read_at = (\<lambda>_ _ _. ret []), fi_read_file = (\<lambda>p. fail_with (Not_exist p)),
     fi_write_file = (\<lambda>_ _. ret ()), fi_create = (\<lambda>_. ret ()), fi_remove = (\<lambda>_. ret ()), fi_stat = (\<lambda>_. ret ()),
     fi_read_dir = (\<lambda>_. ret []), fi_walk = (\<lambda>_ w. ([], w))\<rparr>"

definition sample_runner :: "unit agent_runner" where
  "sample_runner = \<lparr>ar_spawn = (\<lambda>_. ret 4711), ar_liveness = (\<lambda>_ _ _. ret False), ar_cancel = (\<lambda>_. ret ()),
     ar_reap = (\<lambda>_ w. (None, w))\<rparr>"

definition sample_config :: config where
  "sample_config = \<lparr>cf_data_dir = ''/d'', cf_database_url = [], cf_claude_projects_dir = ''/p'', cf_max_agents = 1,
     cf_port = 0, cf_agent_command = default_agent_command, cf_max_turns = 1, cf_spend_limit_5h = 80,
     cf_board_poll_seconds = 1\<rparr>"

definition sample_arithmetic :: arithmetic where
  "sample_arithmetic = \<lparr>ar_add = (\<lambda>a b. a), ar_sub = (\<lambda>a b. a), ar_mul = (\<lambda>a b. a), ar_div = (\<lambda>a b. a), ar_sqrt = id,
     ar_of_int = (\<lambda>_. float_zero), ar_truncate = (\<lambda>_. 0), ar_literal = (\<lambda>_. float_zero)\<rparr>"

definition sample_flow :: workflow where
  "sample_flow = \<lparr>w_name = ''v0'', w_hash = ''h'', w_steps = [plain_step ''implement''], w_max_fix_rounds = 0\<rparr>"

definition sample_observer :: "unit observer" where
  "sample_observer = \<lparr>or_host = quiet_host, or_forge = gh_forge (sample_codec []) quiet_host,
     or_toml = (\<lambda>_. or_toml broken_observer []), or_sha256 = (\<lambda>_. [])\<rparr>"

definition sample_daemon :: "unit loop_env" where
  "sample_daemon = \<lparr>le_host = quiet_host, le_files = sample_files, le_forge = gh_forge (sample_codec []) quiet_host,
     le_worktrees = tp_cli quiet_host, le_runner = sample_runner, le_now = (\<lambda>w. (7, w)), le_context_error = (\<lambda>_. None),
     le_observe = fail_with (Plain ''no network''), le_validate = (\<lambda>_ r _. ret r), le_remote_of = (\<lambda>_. ret []),
     le_tickets_of = (\<lambda>_ _. Inl (Plain [])), le_config = sample_config, le_runs_dir = ''/r'', le_settings_path = ''/s'',
     le_system_prompt_path = ''/m'', le_workflows = [(''v0'', sample_flow)], le_decode_line = (\<lambda>_. None),
     le_arithmetic = sample_arithmetic, le_percent = (\<lambda>_. 0), le_metrics_json = (\<lambda>_. []), le_payload_json = (\<lambda>_. []),
     le_follow_up = (\<lambda>_. None), le_lower = (\<lambda>_. []), le_hash = (\<lambda>_. [])\<rparr>"

definition sample_db :: db where
  "sample_db = empty_db\<lparr>
     db_tickets := [\<lparr>tk_url = ''u'', tk_repo = ''o/app'', tk_branch = ''cc-1-a'', tk_blocked_by = [], tk_source = [],
       tk_title = [], tk_body = [], tk_status = [], tk_feature = [], tk_synced_at = None, tk_withdrawn_at = None\<rparr>],
     db_runs := [\<lparr>ru_id = 1, ru_ticket_id = Some ''u'', ru_kind = ''agent'', ru_pgid = Some 4711, ru_proc_started_at = Some 1,
       ru_baseline_sha = None, ru_prompt_hash = None, ru_log_path = None, ru_outcome = None, ru_exit_code = None,
       ru_ended_at = None, ru_cost_usd = None, ru_session_id = None, ru_message = None, ru_question = None,
       ru_last_message = None, ru_model = None, ru_effort = None, ru_metrics = None, ru_step = [], ru_workflow = [],
       ru_workflow_hash = []\<rparr>],
     db_intents := [\<lparr>iw_id = 1, iw_at = 0, iw_ticket_id = ''u'', iw_verb = ''kill'', iw_payload = No_payload,
       iw_consumed_at = None\<rparr>],
     db_seq := (db_seq empty_db)\<lparr>sq_runs := 1, sq_intents := 1\<rparr>\<rparr>"

definition no_tick :: tick where
  "no_tick = \<lparr>tc_now = 0, tc_obs = new_observation 0, tc_prev = new_observation 0, tc_spawned = [], tc_cancelled = []\<rparr>"

definition sample_machine :: "unit machine" where
  "sample_machine = \<lparr>mc_conn = calm sample_db, mc_world = (), mc_tick = no_tick\<rparr>"

end
