(* ===== verification/Loop_Progress.thy ===== *)
theory Loop_Progress imports Loop_Handlers Loop_Samples begin

text \<open>
  What the daemon keeps over time and what it brings about: the record it leaves in the store, the errors of failed
  ticks, the intents it consumes and the runs it settles.
\<close>

subsection \<open>Time\<close>

text \<open>
  A life of the daemon: ticks, and between them operations that others (the web server) perform on the same
  store, and changes of the world. A tick is not interleaved with other writers.
\<close>

inductive lives :: "'w loop_env \<Rightarrow> 'w machine \<Rightarrow> 'w machine \<Rightarrow> bool" for E where
  begins: "lives E s s"
| ticks: "lives E s t \<Longrightarrow> lives E s (snd (run_once E t))"
| others: "lives E s t \<Longrightarrow> run_op op (mc_conn t) = (r, c) \<Longrightarrow> lives E s (t\<lparr>mc_conn := c\<rparr>)"
| world: "lives E s t \<Longrightarrow> lives E s (t\<lparr>mc_world := w\<rparr>)"

lemma life_evolves: "lives (observing R E) s t \<Longrightarrow> evolves (stored s) (stored t)"
proof (induction rule: lives.induct)
  case (ticks t)
  then show ?case
    by (metis evolves_trans observed_loop.tick_moves leads_def evolution_def)
next
  case (others t op r c)
  from evolves_trans [OF evolves_op [OF others.hyps(2)]] others.IH show ?case by (simp add: stored_def)
qed (simp_all add: evolves.same stored_def)

lemma record_is_kept':
  assumes "integrity (stored s)" and "evolves (stored s) d"
  shows "integrity d \<and> history (stored s) d"
  using sound.evolves_keeps [OF assms(2,1)] recorded.evolves_keeps [OF assms(2) history_refl [OF assms(1)]] ..

lemma moves_history:
  assumes "moves m" and "m s = (r, s')" and "integrity (stored s)"
  shows "integrity (stored s')" and "history (stored s) (stored s')"
  using record_is_kept' [OF assms(3) leadsD [OF assms(1,2), unfolded evolution_def]] by auto

text \<open>A store operation that succeeded, seen from the tables.\<close>

lemma on_store_yields: "on_store q s = (Inr a, s') \<Longrightarrow> yields q (stored s) a (stored s')"
  by (auto simp: on_store_def stored_def intro: yieldsI split: prod.splits)

lemma on_world_stored: "on_world m s = (r, s') \<Longrightarrow> stored s' = stored s"
  by (auto simp: on_world_def stored_def split: prod.splits)

lemma on_tick_stored: "on_tick f s = (r, s') \<Longrightarrow> stored s' = stored s"
  and update_obs_stored: "update_obs g s = (r, s') \<Longrightarrow> stored s' = stored s"
  by (auto simp: on_tick_def update_obs_def stored_def)

lemma clock_now_stored: "clock_now E s = (r, s') \<Longrightarrow> stored s' = stored s \<and> (\<exists>at. r = Inr at)"
  by (auto simp: clock_now_def on_world_def stored_def split: prod.splits)

lemma context_error_stored: "context_error E s = (r, s') \<Longrightarrow> s' = s \<and> r = Inr (le_context_error E (mc_world s))"
  by (auto simp: context_error_def on_world_def)

lemma wrapping_exitE:
  assumes "wrapping what m s = (Inl e, s')"
  obtains e' where "m s = (Inl e', s')" and "e = Wrapped what e'"
  using assms by (auto simp: wrapping_exit)

lemma or_else_Inl: "or_else m h w = (Inl e, w') \<longleftrightarrow> (\<exists>e0 w0. m w = (Inl e0, w0) \<and> h e0 w0 = (Inl e, w'))"
  by (auto simp: or_else_def split: prod.splits sum.splits)

lemma try_else_eq:
  "try_else m h f w = (r, w') \<longleftrightarrow>
     (\<exists>e w1. m w = (Inl e, w1) \<and> h e w1 = (r, w')) \<or> (\<exists>a w1. m w = (Inr a, w1) \<and> f a w1 = (r, w'))"
  by (auto simp: try_else_def split: prod.splits sum.splits)

subsection \<open>Failed ticks\<close>

definition last_tick_error :: "db \<Rightarrow> string option" where
  "last_tick_error d = map_option te_message (me_last_error (db_meta d))"

lemma yields_record_error:
  assumes "yields (record_tick_error te) d u d'"
  shows "last_tick_error d' = Some (te_message te)"
  using assms unfolding record_tick_error_def
  by (auto elim!: yields_bind simp: put_meta_def q_put_meta_def append_event_def q_append_event_def add_event_def
      last_tick_error_def split: if_splits)

lemma error_recorded_once:
  assumes "record_tick_error_once E msg s = (Inr u, s')"
  shows "last_tick_error (stored s') = Some msg"
proof -
  from assms obtain latest s1 where first: "on_store last_error s = (Inr latest, s1)"
    and rest: "(if (case latest of None \<Rightarrow> False | Some e \<Rightarrow> te_message e = msg) then ret ()
       else and_then (clock_now E) (\<lambda>at. wrapping ''record tick error''
         (on_store (record_tick_error \<lparr>te_at = at, te_message = msg\<rparr>)))) s1 = (Inr u, s')"
    by (auto simp: record_tick_error_once_def and_then_Inr)
  from on_store_yields [OF first] have latest: "latest = me_last_error (db_meta (stored s1))"
    by (auto simp: last_error_def dest: yields_get_meta)
  show ?thesis
  proof (cases "case latest of None \<Rightarrow> False | Some e \<Rightarrow> te_message e = msg")
    case True
    with rest latest show ?thesis by (auto simp: last_tick_error_def split: option.splits)
  next
    case False
    with rest obtain at s2 where "on_store (record_tick_error \<lparr>te_at = at, te_message = msg\<rparr>) s2 = (Inr u, s')"
      by (auto simp: and_then_Inr)
    from yields_record_error [OF on_store_yields [OF this]] show ?thesis by simp
  qed
qed

text \<open>How the error of a tick ends up: recorded, or returned because the context is done or it could not be recorded.\<close>

definition accounted :: "'w loop_env \<Rightarrow> io_error \<Rightarrow> 'w machine \<Rightarrow> bool" where
  "accounted E e s \<longleftrightarrow>
     last_tick_error (stored s) = Some (error_text e)
   \<or> le_context_error E (mc_world s) \<noteq> None
   \<or> (\<exists>what d re. e = Wrapped what (Joined d re) \<and> what \<in> {''record tick error'', ''record observe failure''})"

lemma fail_tick_accounted:
  assumes "fail_tick E e s = (r, s')"
  shows "\<exists>e'. r = Inl e' \<and> accounted E e' s'"
proof (cases "le_context_error E (mc_world s)")
  case (Some ce)
  with assms have "r = Inl e \<and> s' = s" by (auto simp: fail_tick_def and_then_def context_error_def on_world_def)
  with Some show ?thesis by (auto simp: accounted_def)
next
  case None
  have c: "context_error E s = (Inr None, s)" using None by (simp add: context_error_def on_world_def)
  obtain r1 s1 where once: "record_tick_error_once E (error_text e) s = (r1, s1)" by (meson surj_pair)
  from assms c once have "(r, s') = (case r1 of
      Inl re \<Rightarrow> (Inl (Wrapped ''record tick error'' (Joined e re)), s1) | Inr _ \<Rightarrow> (Inl e, s1))"
    by (auto simp: fail_tick_def and_then_def or_else_def split: sum.splits)
  with error_recorded_once [of E "error_text e" s _ s1] once show ?thesis
    by (auto simp: accounted_def split: sum.splits)
qed

lemma or_fail_tick_accounted:
  assumes "or_fail_tick E m s = (Inl e, s')"
  shows "accounted E e s'"
  using assms unfolding or_fail_tick_def or_else_Inl and_then_Inl by (fastforce dest: fail_tick_accounted)

lemma observe_tick_accounted:
  assumes "observe_tick E s = (Inl e, s')"
  shows "accounted E e s'"
  using assms unfolding observe_tick_def or_else_Inl and_then_Inl Let_def try_else_eq
  by (elim exE conjE disjE)
    (auto simp: accounted_def dest!: clock_now_stored yields_record_error [OF on_store_yields])

lemma tick_accounted:
  assumes "run_once E s = (Inl e, s')"
  shows "accounted E e s'"
proof -
  have clock: "\<not> clock_now E s1 = (Inl e1, s2)" for s1 e1 s2 by (auto dest: clock_now_stored)
  have prune: "\<not> or_else q (\<lambda>_. ret ()) s1 = (Inl e1, s2)" for q :: "('a, unit) act" and s1 e1 s2
    by (simp add: or_else_Inl)
  have tick: "\<not> on_tick f s1 = (Inl e1, s2)" for f and s1 s2 :: "'a machine" and e1 by (simp add: on_tick_def)
  have settle: "accounted E e s'" if "settle_tick E s1 = (Inl e, s')" for s1
    using that unfolding settle_tick_def and_then_Inl by (auto simp: clock tick intro: or_fail_tick_accounted)
  from assms show ?thesis
    unfolding run_once_def and_then_Inl
    by (auto simp: clock prune intro: or_fail_tick_accounted observe_tick_accounted settle)
qed

subsection \<open>Consumed intents\<close>

definition consumed :: "int \<Rightarrow> db \<Rightarrow> bool" where
  "consumed n d \<longleftrightarrow> n \<le> sq_intents (db_seq d) \<and> (\<forall>i \<in> set (db_intents d). iw_id i = n \<longrightarrow> iw_consumed_at i \<noteq> None)"

lemma consumed_stays: "history d d' \<Longrightarrow> consumed n d \<Longrightarrow> consumed n d'"
  by (fastforce simp: history_def consumed_def intent_later_def)

lemma consume_consumes:
  assumes "yields (consume_verb_intent n at) d u d'" and "integrity d"
  shows "consumed n d'"
proof -
  from yields_matched [OF assms(1) [unfolded consume_verb_intent_def]] obtain k where
    k: "k \<noteq> 0" "yields (q_consume_verb_intent n at) d k d'" by blast
  then obtain i where "i \<in> set (db_intents d)" "iw_id i = n"
    by (auto simp: q_consume_verb_intent_def Let_def)
  moreover have "numbered iw_id (sq_intents (db_seq d)) (db_intents d)" using assms(2) by (simp add: integrity_def)
  ultimately have "n \<le> sq_intents (db_seq d)" by (auto simp: numbered_def)
  moreover have "iw_consumed_at i \<noteq> None" if "i \<in> set (db_intents d')" "iw_id i = n" for i
  proof -
    from k(2) have rows: "db_intents d' = update_where (\<lambda>i. iw_id i = n \<and> iw_consumed_at i = None)
        (\<lambda>i. i\<lparr>iw_consumed_at := Some at\<rparr>) (db_intents d)"
      by (auto simp: q_consume_verb_intent_def Let_def)
    from set_update_where [OF that(1) [unfolded rows]] obtain r where
      "i = (if iw_id r = n \<and> iw_consumed_at r = None then r\<lparr>iw_consumed_at := Some at\<rparr> else r)" by blast
    with that(2) show ?thesis by (cases "iw_consumed_at r"; cases "iw_id r = n") simp_all
  qed
  moreover from k(2) have "db_seq d' = db_seq d" by (auto simp: q_consume_verb_intent_def Let_def)
  ultimately show ?thesis by (simp add: consumed_def)
qed

definition postponed :: "(intent \<Rightarrow> ('w, unit) act) \<Rightarrow> intent \<Rightarrow> bool" where
  "postponed f i \<longleftrightarrow> (\<exists>s e t. f i s = (Inl e, t) \<and> is_sentinel ''intent stays pending'' e)"

lemma consume_each_progress:
  assumes "consume_each E f is s = (Inr u, s')" and "\<And>i. moves (f i)" and "integrity (stored s)" and "i \<in> set is"
  shows "consumed (it_id i) (stored s') \<or> postponed f i"
  using assms(1,3,4)
proof (induction "is" arbitrary: s)
  case (Cons j js)
  have rest: "consumed n (stored s')" if "consume_each E f js t = (Inr u, s')"
      "integrity (stored t)" "consumed n (stored t)" for t n
    by (rule consumed_stays [OF moves_history(2) [OF moves_consume that(1,2)] that(3)]) (rule assms(2))
  from Cons.prems(1) show ?case
    unfolding consume_each_Cons try_else_eq
  proof (elim disjE exE conjE)
    fix e t assume f: "f j s = (Inl e, t)" and "(if is_sentinel ''intent stays pending'' e then consume_each E f js
        else fail_with (Wrapped (''intent '' @ itoa (it_id j) @ '' for '' @ it_ticket j) e)) t = (Inr u, s')"
    then have s: "is_sentinel ''intent stays pending'' e" and r: "consume_each E f js t = (Inr u, s')"
      by (auto split: if_splits)
    show ?case
    proof (cases "i = j")
      case True
      with f s show ?thesis by (auto simp: postponed_def)
    next
      case False
      with Cons.prems(3) Cons.IH [OF r moves_history(1) [OF assms(2) f Cons.prems(2)]] show ?thesis by simp
    qed
  next
    fix v t assume f: "f j s = (Inr v, t)" and "and_then (and_then (clock_now E) (\<lambda>at.
        wrapping (''consume intent '' @ itoa (it_id j) @ '' for '' @ it_ticket j) (on_store (consume_verb_intent (it_id j) at))))
        (\<lambda>_. consume_each E f js) t = (Inr u, s')"
    then obtain at t1 t2 where c: "clock_now E t = (Inr at, t1)"
      and w: "on_store (consume_verb_intent (it_id j) at) t1 = (Inr (), t2)" and r: "consume_each E f js t2 = (Inr u, s')"
      by (auto simp: and_then_Inr)
    have t1: "integrity (stored t1)" using moves_history(1) [OF assms(2) f Cons.prems(2)] c by (auto dest: clock_now_stored)
    have t2: "integrity (stored t2)" by (rule moves_history(1) [OF moves_store [OF stores_consume] w t1])
    from consume_consumes [OF on_store_yields [OF w] t1] have "consumed (it_id j) (stored t2)" .
    with rest [OF r t2] Cons.prems(3) Cons.IH [OF r t2] show ?case by auto
  qed
qed simp

subsection \<open>Settled runs\<close>

definition settled :: "run_id \<Rightarrow> db \<Rightarrow> bool" where
  "settled n d \<longleftrightarrow> (\<exists>r \<in> set (db_runs d). ru_id r = n \<and> ru_outcome r \<noteq> None)"

lemma settled_stays:
  assumes "history d d'" and "settled n d"
  shows "settled n d'"
proof -
  from assms(2) obtain k where k: "k < length (db_runs d)" "ru_id (db_runs d ! k) = n" "ru_outcome (db_runs d ! k) \<noteq> None"
    by (auto simp: settled_def in_set_conv_nth)
  from assms(1) have l: "list_all2 run_later (db_runs d) (take (length (db_runs d)) (db_runs d'))" by (simp add: history_def)
  then have "k < length (db_runs d')" using list_all2_lengthD [OF l] k(1) by simp
  moreover have "run_later (db_runs d ! k) (db_runs d' ! k)" using list_all2_nthD [OF l k(1)] k(1) by simp
  ultimately show ?thesis using k by (auto simp: settled_def run_later_def intro!: bexI [of _ "db_runs d' ! k"])
qed

lemma update_where_hit:
  assumes "count_where P rows \<noteq> 0"
  shows "\<exists>r. P r \<and> f r \<in> set (update_where P f rows)"
proof -
  from assms obtain r where "r \<in> set rows" "P r" by auto
  then show ?thesis by (auto simp: update_where_def intro!: exI [of _ r])
qed

lemma disposition_settles:
  assumes "yields (record_disposition p) d u d'"
  shows "settled (dp_run_id p) d'"
proof -
  let ?hit = "\<lambda>r. ru_id r = dp_run_id p \<and> ru_outcome r = None"
  let ?f = "\<lambda>r. r\<lparr>ru_outcome := Some (outcome_text (dp_outcome p)), ru_exit_code := dp_exit_code p,
      ru_ended_at := Some (dp_ended_at p), ru_cost_usd := dp_cost p, ru_last_message := dp_last_message p,
      ru_metrics := dp_metrics p\<rparr>"
  from yields_matched [OF assms [unfolded record_disposition_def]]
  obtain k where "k \<noteq> 0" and "set_runs ?hit ?f d = (k, d')"
    by (auto simp: q_record_disposition_def Let_def split: if_splits)
  then have "count_where ?hit (db_runs d) \<noteq> 0" and d': "db_runs d' = update_where ?hit ?f (db_runs d)"
    by (auto simp: set_runs_def)
  from update_where_hit [OF this(1), of ?f] obtain r where "?hit r" "?f r \<in> set (db_runs d')" unfolding d' by blast
  then show ?thesis unfolding settled_def by (intro bexI [of _ "?f r"]) auto
qed

text \<open>No handler but the check of a process marks a run alive.\<close>

definition alive_in :: "'w machine \<Rightarrow> ticket_url \<Rightarrow> bool" where
  "alive_in s url \<longleftrightarrow> map_of (ob_runs (tc_obs (mc_tick s))) url = Some True"

definition no_new_alive :: "'w machine \<Rightarrow> 'w machine \<Rightarrow> bool" where
  "no_new_alive s t \<longleftrightarrow> (\<forall>url. alive_in t url \<longrightarrow> alive_in s url)"

interpretation no_new_alive: steps no_new_alive
  by unfold_locales (auto simp: no_new_alive_def)

lemma quiet_store [moving]: "leads no_new_alive (on_store q)" and quiet_world [moving]: "leads no_new_alive (on_world m)"
  by (simp_all add: leads_def no_new_alive_def alive_in_def on_store_def on_world_def split: prod.split)

lemma quiet_clock [moving]: "leads no_new_alive (clock_now E)"
  unfolding clock_now_def by (rule quiet_world)

lemma quiet_event [moving]: "leads no_new_alive (record_event E url kind detail)"
  unfolding record_event_def by (intro moving)

lemma quiet_dead [moving]: "leads no_new_alive (observed_dead E i url)"
proof -
  have "leads no_new_alive (update_obs (\<lambda>ob. ob\<lparr>ob_runs := put url False (ob_runs ob)\<rparr>))"
    "leads no_new_alive (update_obs (\<lambda>ob. ob\<lparr>ob_questions := put i q (ob_questions ob)\<rparr>))" for q
    by (auto simp: leads_def no_new_alive_def alive_in_def update_obs_def on_tick_def update_conv)
  then show ?thesis
    unfolding observed_dead_def read_question_file_def Let_def by (intro moving)
qed

lemma quiet_dispose [moving]: "leads no_new_alive (dispose_run E run tk)"
  unfolding dispose_run_def write_handoff_def tail_of_def record_run_outcome_def record_run_readings_def parse_log_def
    record_readings_and_intervals_def outcome_for_def carried_outcome_def earlier_step_outcome_def work_outcome_def
    pass_baseline_def counted_commits_def commits_since_baseline_def follow_up_queued_def Let_def
  by (intro moving)

definition answers_alive :: "'w loop_env \<Rightarrow> pending_run \<Rightarrow> bool" where
  "answers_alive E p \<longleftrightarrow>
     (\<exists>now w w'. ar_liveness (le_runner E) (pn_pgid p) (pn_proc_started_at p) now w = (Inr True, w'))"

text \<open>A handler that succeeded, seen from its first part.\<close>

lemma through:
  assumes "and_then m f s = (Inr b, s')" and "integrity (stored s)" and "moves m"
  obtains a t where "m s = (Inr a, t)" and "f a t = (Inr b, s')" and "integrity (stored t)"
  using assms moves_history(1) unfolding and_then_Inr by blast

lemma outcome_settles:
  assumes "record_run_outcome E run out code last_message s = (Inr u, s')"
  shows "settled (pn_id run) (stored s')"
  using assms unfolding record_run_outcome_def
  by (auto simp: and_then_Inr dest!: on_store_yields disposition_settles)

lemma settled_after:
  assumes "settled n (stored s)" and "integrity (stored s)" and "moves m" and "m s = (r, s')"
  shows "settled n (stored s')"
  by (rule settled_stays [OF moves_history(2) [OF assms(3,4,2)] assms(1)])

lemma dispose_settles:
  assumes "dispose_run E run tk s = (Inr u, s')" and "integrity (stored s)"
  shows "settled (pn_id run) (stored s')"
proof -
  from assms obtain out code msg s1 s2 s3 where
    rec: "record_run_outcome E run out code msg s1 = (Inr (), s2)" and i2: "integrity (stored s2)"
    and r: "record_run_readings E run s2 = (Inr (), s3)" and i3: "integrity (stored s3)"
    and e: "record_event E (ss_url tk) EventRunDisposed (outcome_text out) s3 = (Inr (), s')"
    unfolding dispose_run_def Let_def by (elim through) (auto intro!: moving)
  from settled_after [OF outcome_settles [OF rec] i2 moves_handler [OF evolving.readings_recorded] r]
  have "settled (pn_id run) (stored s3)" .
  from settled_after [OF this i3 moves_handler [OF evolving.event] e] show ?thesis .
qed

lemma reconcile_one:
  assumes "reconcile_run E by_url p s = (Inr u, s')" and "integrity (stored s)"
  shows "settled (pn_id p) (stored s') \<or> alive_in s (pn_ticket_id p) \<or> answers_alive E p"
    and "alive_in s' url \<Longrightarrow> alive_in s url \<or> url = pn_ticket_id p \<and> answers_alive E p"
proof -
  let ?url = "pn_ticket_id p"
  let ?seen = "map_of (ob_runs (tc_obs (mc_tick s))) ?url"
  let ?dispose = "wrapping (''dispose run '' @ itoa (pn_id p) @ '' of '' @ ?url)
      (dispose_run E p (get_or no_store_ticket by_url ?url))"
  have quiet: "alive_in t url" if "leads no_new_alive (m :: ('a, 'b) act)" "m t = (r, t')" "alive_in t' url" for m t t' r url
    using leadsD [OF that(1,2)] that(3) by (auto simp: no_new_alive_def)
  have disposed: "settled (pn_id p) (stored s') \<and> (\<forall>url. alive_in s' url \<longrightarrow> alive_in t url)"
    if "?dispose t = (Inr u, s')" "integrity (stored t)" for t
    using dispose_settles [OF _ that(2)] that(1) quiet [OF quiet_dispose] by auto
  consider (dead) "?seen = Some False" "?dispose s = (Inr u, s')"
    | (left) "alive_in s ?url" "s' = s"
    | (asked) now t1 alive t2 where "clock_now E s = (Inr now, t1)"
        "on_world (ar_liveness (le_runner E) (pn_pgid p) (pn_proc_started_at p) now) t1 = (Inr alive, t2)"
        "(if alive then update_obs (\<lambda>ob. mark_alive ob ?url)
          else and_then (observed_dead E (pn_id p) ?url) (\<lambda>_. ?dispose)) t2 = (Inr u, s')"
    using assms(1)
    by (cases ?seen) (auto simp: reconcile_run_def with_tick_def Let_def alive_in_def and_then_Inr split: if_splits)
  then have "(settled (pn_id p) (stored s') \<or> alive_in s ?url \<or> answers_alive E p)
    \<and> (alive_in s' url \<longrightarrow> alive_in s url \<or> url = ?url \<and> answers_alive E p)"
  proof cases
    case dead
    with disposed assms(2) show ?thesis by auto
  next
    case left
    then show ?thesis by simp
  next
    case asked
    have t2: "stored t2 = stored s" "alive_in t2 v = alive_in s v" for v
      using asked(1,2) by (auto simp: clock_now_def on_world_def stored_def alive_in_def split: prod.splits)
    show ?thesis
    proof (cases alive)
      case True
      with asked(2) have "answers_alive E p" by (auto simp: answers_alive_def on_world_def split: prod.splits)
      moreover from True asked(3) have "alive_in s' url \<longrightarrow> alive_in t2 url \<or> url = ?url"
        by (auto simp: update_obs_def on_tick_def alive_in_def mark_alive_def update_conv split: if_splits)
      ultimately show ?thesis using t2 by simp
    next
      case False
      with asked(3) obtain t3 where d: "observed_dead E (pn_id p) ?url t2 = (Inr (), t3)" and f: "?dispose t3 = (Inr u, s')"
        by (auto simp: and_then_Inr)
      have "integrity (stored t3)" by (rule moves_history(1) [OF moves_handler [OF evolving.found_dead] d]) (simp add: t2 assms(2))
      from disposed [OF f this] quiet [OF quiet_dead d] t2 show ?thesis by auto
    qed
  qed
  then show "settled (pn_id p) (stored s') \<or> alive_in s ?url \<or> answers_alive E p"
    and "alive_in s' url \<Longrightarrow> alive_in s url \<or> url = ?url \<and> answers_alive E p"
    by blast+
qed

lemma reconcile_progress:
  assumes "each_io (reconcile_run E by_url) ps s = (Inr u, s')" and "integrity (stored s)" and "p \<in> set ps"
  shows "settled (pn_id p) (stored s') \<or> alive_in s (pn_ticket_id p)
    \<or> (\<exists>q \<in> set ps. pn_ticket_id q = pn_ticket_id p \<and> answers_alive E q)"
  using assms
proof (induction ps arbitrary: s)
  case (Cons q qs)
  have each: "moves (each_io (reconcile_run E by_url) ps)" "moves (reconcile_run E by_url q)" for ps
    by (intro moves_handler evolving.eaches evolving.reconciling)+
  from Cons.prems(1) obtain t where one: "reconcile_run E by_url q s = (Inr (), t)"
    and rest: "each_io (reconcile_run E by_url) qs t = (Inr u, s')"
    by (auto simp: and_then_def split: prod.splits sum.splits)
  note t = moves_history(1) [OF each(2) one Cons.prems(2)]
  show ?case
  proof (cases "p = q")
    case True
    with reconcile_one(1) [OF one Cons.prems(2)] settled_stays [OF moves_history(2) [OF each(1) rest t]] show ?thesis by auto
  next
    case False
    with Cons.prems(3) Cons.IH [OF rest t] reconcile_one(2) [OF one Cons.prems(2), of "pn_ticket_id p"] show ?thesis by auto
  qed
qed simp

subsection \<open>What the daemon guarantees\<close>

text \<open>C2: Whatever the daemon's ticks do, whatever the web server's operations do between them and however the world
  changes, the tables keep their integrity and their history: recorded pushes and lasting events stay, a run keeps what it
  was started for and, once it has an outcome, how it ended, and a consumed intent never becomes pending again.\<close>

theorem record_is_kept:
  assumes "integrity (stored s)" and "lives (observing R E) s t"
  shows "integrity (stored t) \<and> history (stored s) (stored t)"
  using record_is_kept' [OF assms(1) life_evolves [OF assms(2)]] .

lemma sample_texts: "''agent'' \<in> run_kind_text ` set all_run_kinds \<and> ''kill'' \<in> set intent_verbs"
  by code_simp

lemma sample_integrity: "integrity (stored sample_machine)"
  by (simp add: sample_machine_def stored_def calm_def integrity_def numbered_def sample_db_def empty_db_def ticket_urls_def
      run_ok_def intent_ok_def keyed_def sample_texts)

theorem record_is_kept_witness:
  "integrity (stored (snd (run_once (observing sample_observer sample_daemon) sample_machine)))
    \<and> history (stored sample_machine) (stored (snd (run_once (observing sample_observer sample_daemon) sample_machine)))"
  by (rule record_is_kept [OF sample_integrity lives.ticks [OF lives.begins]])

text \<open>C19: Any number of ticks with the program's observer changes the tables only through the operations of the store, one
  after the other: the loop refines the specification whose steps are these operations.\<close>

theorem ticks_refine_store:
  "evolves (stored s) (stored (run_ticks (observing R E) n s))"
  by (rule observed_loop.ticks_evolve)

text \<open>C15: When a tick fails, its error is the last recorded one, unless the daemon is being stopped or the error could not
  be recorded, which the error itself then says.\<close>

theorem failed_tick_is_accounted:
  assumes "run_once E s = (Inl e, s')"
  shows "last_tick_error (stored s') = Some (error_text e)
    \<or> le_context_error E (mc_world s') \<noteq> None
    \<or> (\<exists>what d re. e = Wrapped what (Joined d re) \<and> what \<in> {''record tick error'', ''record observe failure''})"
  using tick_accounted [OF assms] unfolding accounted_def .




text \<open>The properties at the sample daemon.\<close>

lemma and_then_assoc: "and_then (and_then m f) g = and_then m (\<lambda>a. and_then (f a) g)"
  by (simp add: fun_eq_iff and_then_def split: prod.split sum.split)

definition before_settling :: "'w loop_env \<Rightarrow> ('w, unit) act" where
  "before_settling E =
     and_then (clock_now E) (\<lambda>now.
     and_then (or_else (on_store (prune_history now)) (\<lambda>_. ret ())) (\<lambda>_.
     and_then (or_fail_tick E (wrapping ''track'' (apply_track_intents E))) (\<lambda>_.
     and_then (or_fail_tick E (wrapping ''validate repos'' (validate_cloning_repos E))) (\<lambda>_.
     and_then (or_fail_tick E (wrapping ''import'' (apply_import_intents E))) (\<lambda>_.
     and_then (or_fail_tick E (wrapping ''edit ticket'' (apply_edit_ticket_intents E))) (\<lambda>_.
     observe_tick E))))))"

lemma run_once_stages: "run_once E = and_then (before_settling E) (\<lambda>_. settle_tick E)"
  by (simp add: run_once_def before_settling_def and_then_assoc)

lemma sample_fails: "fst (before_settling sample_daemon sample_machine) = Inl (Wrapped ''observe'' (Plain ''no network''))"
  by code_simp

lemma run_fst: "fst p = r \<Longrightarrow> p = (r, snd p)"
  by (metis prod.collapse)

theorem failed_tick_is_accounted_witness:
  "last_tick_error (stored (snd (run_once sample_daemon sample_machine))) = Some ''observe: no network''"
proof -
  have "fst (run_once sample_daemon sample_machine) = Inl (Wrapped ''observe'' (Plain ''no network''))"
    using sample_fails by (cases "before_settling sample_daemon sample_machine") (simp add: run_once_stages and_then_def)
  note this [THEN run_fst]
  from failed_tick_is_accounted [OF this] show ?thesis by (simp add: sample_daemon_def)
qed



end
