(* ===== verification/Loop_Safety.thy ===== *)
theory Loop_Safety imports Loop_Progress begin

text \<open>
  What the daemon never does. The commands it runs are made visible by a host that logs them; the theorems say which
  pushes and removals can be in the log, how many agents a tick starts, and when a run may be pushed.
\<close>

subsection \<open>A host that logs its commands\<close>

type_synonym command_log = "(string \<times> string list) list"

definition logged :: "'w host \<Rightarrow> ('w \<times> command_log) host" where
  "logged H = \<lparr>
     h_exec = (\<lambda>timeout dir name args w. case h_exec H timeout dir name args (fst w) of
        (po, w') \<Rightarrow> (po, (w', snd w @ [(name, args)]))),
     h_stat = (\<lambda>p w. h_stat H p (fst w)), h_read = (\<lambda>p w. h_read H p (fst w)),
     h_mkdir = (\<lambda>p w. case h_mkdir H p (fst w) of (e, w') \<Rightarrow> (e, (w', snd w)))\<rparr>"

text \<open>The rest of a world does not touch the log.\<close>

definition aside :: "('w \<Rightarrow> 'a \<times> 'w) \<Rightarrow> 'w \<times> command_log \<Rightarrow> 'a \<times> 'w \<times> command_log" where
  "aside m w = (case m (fst w) of (a, w') \<Rightarrow> (a, (w', snd w)))"

definition logged_files :: "'w files \<Rightarrow> ('w \<times> command_log) files" where
  "logged_files F = \<lparr>fi_open = (\<lambda>p. aside (fi_open F p)), fi_read_all = (\<lambda>p. aside (fi_read_all F p)),
     fi_close = (\<lambda>p. aside (fi_close F p)), fi_size = (\<lambda>p. aside (fi_size F p)),
     fi_read_at = (\<lambda>p n i. aside (fi_read_at F p n i)), fi_read_file = (\<lambda>p. aside (fi_read_file F p)),
     fi_write_file = (\<lambda>p x. aside (fi_write_file F p x)), fi_create = (\<lambda>p. aside (fi_create F p)),
     fi_remove = (\<lambda>p. aside (fi_remove F p)), fi_stat = (\<lambda>p. aside (fi_stat F p)),
     fi_read_dir = (\<lambda>p. aside (fi_read_dir F p)), fi_walk = (\<lambda>p. aside (fi_walk F p))\<rparr>"

definition logged_runner :: "'w agent_runner \<Rightarrow> ('w \<times> command_log) agent_runner" where
  "logged_runner R = \<lparr>ar_spawn = (\<lambda>c. aside (ar_spawn R c)), ar_liveness = (\<lambda>p a b. aside (ar_liveness R p a b)),
     ar_cancel = (\<lambda>p. aside (ar_cancel R p)), ar_reap = (\<lambda>p. aside (ar_reap R p))\<rparr>"

definition in_world :: "'w machine \<Rightarrow> 'v \<Rightarrow> 'v machine" where
  "in_world s w = \<lparr>mc_conn = mc_conn s, mc_world = w, mc_tick = mc_tick s\<rparr>"

definition logging :: "codec \<Rightarrow> 'w loop_env \<Rightarrow> ('w \<times> command_log) loop_env" where
  "logging K E = \<lparr>le_host = logged (le_host E), le_files = logged_files (le_files E),
     le_forge = gh_forge K (logged (le_host E)), le_worktrees = tp_cli (logged (le_host E)),
     le_runner = logged_runner (le_runner E), le_now = aside (le_now E), le_context_error = (\<lambda>w. le_context_error E (fst w)),
     le_observe = (\<lambda>s. case le_observe E (in_world s (fst (mc_world s))) of
        (r, t) \<Rightarrow> (r, in_world t (mc_world t, snd (mc_world s)))),
     le_validate = (\<lambda>d r t. aside (le_validate E d r t)), le_remote_of = (\<lambda>n. aside (le_remote_of E n)),
     le_tickets_of = (\<lambda>k r. map_sum id (\<lambda>f feature. aside (f feature)) (le_tickets_of E k r)),
     le_config = le_config E, le_runs_dir = le_runs_dir E, le_settings_path = le_settings_path E,
     le_system_prompt_path = le_system_prompt_path E, le_workflows = le_workflows E, le_decode_line = le_decode_line E,
     le_arithmetic = le_arithmetic E, le_percent = le_percent E, le_metrics_json = le_metrics_json E,
     le_payload_json = le_payload_json E, le_follow_up = le_follow_up E, le_lower = le_lower E, le_hash = le_hash E\<rparr>"

text \<open>Between two worlds only commands that \<open>ok\<close> accepts were run.\<close>

definition runs :: "(string \<times> string list \<Rightarrow> bool) \<Rightarrow> 'w \<times> command_log \<Rightarrow> 'w \<times> command_log \<Rightarrow> bool" where
  "runs ok w w' \<longleftrightarrow> (\<exists>ys. snd w' = snd w @ ys \<and> list_all ok ys)"

lemma runs_refl [simp]: "runs ok w w"
  by (simp add: runs_def)

lemma runs_trans: "runs ok w v \<Longrightarrow> runs ok v u \<Longrightarrow> runs ok w u"
  by (auto simp: runs_def)

lemma runs_mono: "runs ok w v \<Longrightarrow> (\<And>c. ok c \<Longrightarrow> ok' c) \<Longrightarrow> runs ok' w v"
  by (auto simp: runs_def list_all_iff)

lemma runs_logged: "ok (name, args) \<Longrightarrow> runs ok w (snd (h_exec (logged H) timeout dir name args w))"
  by (simp add: runs_def logged_def split: prod.split)

lemma log_aside [moving]: "leads (runs ok) (aside m)"
  by (simp add: leads_def aside_def runs_def split: prod.split)

lemma aside_runs [simp]: "runs ok w (snd (aside m w))"
  by (simp add: aside_def runs_def split: prod.split)

interpretation world_log: steps "runs ok" for ok
  by unfold_locales (auto intro: runs_trans)

lemma log_exec [moving]: "ok (name, args) \<Longrightarrow> leads (runs ok) (output_within (logged H) timeout dir name args)"
  by (simp add: leads_def output_within_def Let_def case_prod_beta runs_logged split: option.split del: split_paired_All)

lemma log_gh [moving]: "ok (''gh'', args) \<Longrightarrow> leads (runs ok) (gh_do (logged H) what dir args)"
  unfolding gh_do_def gh_run_def output_cmd_def by (intro moving; assumption?)

lemma logging_sel [simp]:
  "le_host (logging K E) = logged (le_host E)" "le_forge (logging K E) = gh_forge K (logged (le_host E))"
  "le_worktrees (logging K E) = tp_cli (logged (le_host E))" "le_files (logging K E) = logged_files (le_files E)"
  "checkout (logging K E) repo = checkout E repo"
  by (simp_all add: logging_def checkout_def)

lemma logging_gentle: "gentle (runs safe_command) (logging K E)"
proof -
  have "gentle_files (runs safe_command) (logged_files (le_files E))"
    by (simp add: gentle_files_def logged_files_def log_aside)
  moreover have "gentle_runner (runs safe_command) (logged_runner (le_runner E))"
    by (simp add: gentle_runner_def logged_runner_def log_aside)
  moreover have "gentle_forge (runs safe_command) (gh_forge K (logged (le_host E)))"
    unfolding gentle_forge_def gh_forge_def forge.simps create_pr_def ready_pr_def edit_pr_def close_issue_def create_args_def
    by (intro conjI allI; intro moving; simp)
  moreover have "gentle_worktrees (runs safe_command) (tp_cli (logged (le_host E)))"
    unfolding gentle_worktrees_def tp_cli_def worktree_cli.simps worktree_new_def worktree_remove_def remove_flag_def
    by (auto split: remove_mode.split option.split intro!: moving simp del: ret_simp)
  ultimately show ?thesis
    by (auto simp: gentle_def logging_def runs_logged log_aside map_sum_def split: sum.splits)
qed


subsection \<open>Commands of a tick\<close>

text \<open>The commands run so far, and the ones the settings of the repositories name for verification.\<close>

definition commands_run :: "('w \<times> command_log) machine \<Rightarrow> command_log" where
  "commands_run s = snd (mc_world s)"

definition verify_commands :: "'w machine \<Rightarrow> string list list" where
  "verify_commands s = map (\<lambda>(repo, st). rs_verify_command st) (settings_in s)"

definition allowed :: "string list list \<Rightarrow> string \<times> string list \<Rightarrow> bool" where
  "allowed configured c \<longleftrightarrow> safe_command c \<or> fst c # snd c \<in> set configured"

definition guarded :: "('w \<times> command_log) machine \<Rightarrow> ('w \<times> command_log) machine \<Rightarrow> bool" where
  "guarded s t \<longleftrightarrow> settings_in t = settings_in s \<and> runs (allowed (verify_commands s)) (mc_world s) (mc_world t)"

lemma configured: "rs_verify_command (get_or no_settings (settings_in s) repo) = name # args \<Longrightarrow> name # args \<in> set (verify_commands s)"
  by (force simp: verify_commands_def get_or_def no_settings_def dest: map_of_SomeD split: option.splits)

interpretation guarded: handlers guarded "runs safe_command" "logging K E" for K E
proof unfold_locales
  fix s t u :: "('a \<times> command_log) machine" and w v :: "'a \<times> command_log" and repo name args wt
  show "guarded s s" by (simp add: guarded_def)
  show "guarded s t \<Longrightarrow> guarded t u \<Longrightarrow> guarded s u"
    by (auto simp: guarded_def verify_commands_def intro: runs_trans)
  show "gentle (runs safe_command) (logging K E)" by (rule logging_gentle)
  show "guarded s (s\<lparr>mc_world := w\<rparr>)" if "runs safe_command (mc_world s) w"
    using runs_mono [OF that] by (simp add: guarded_def allowed_def)
  show "guarded s (s\<lparr>mc_world := snd (h_exec (le_host (logging K E)) verify_timeout wt name args (mc_world s))\<rparr>)"
    if "rs_verify_command (get_or no_settings (settings_in s) repo) = name # args"
    using configured [OF that] by (simp add: guarded_def allowed_def runs_logged)
qed (auto simp: guarded_def settings_in_def intro: runs_trans)



subsection \<open>Which pushes\<close>

text \<open>Between two states only commands that \<open>ok\<close> accepts were run.\<close>

definition machine_runs :: "(string \<times> string list \<Rightarrow> bool) \<Rightarrow> ('w \<times> command_log) machine \<Rightarrow> ('w \<times> command_log) machine \<Rightarrow> bool" where
  "machine_runs ok s t \<longleftrightarrow> runs ok (mc_world s) (mc_world t)"

interpretation machine_log: steps "machine_runs ok" for ok
  by unfold_locales (auto simp: machine_runs_def intro: runs_trans)

lemma log_world [moving]: "leads (runs ok) m \<Longrightarrow> leads (machine_runs ok) (on_world m)"
  by (simp add: leads_def machine_runs_def on_world_def case_prod_beta del: split_paired_All)

lemma log_store [moving]: "leads (machine_runs ok) (on_store q)"
  by (simp add: leads_def machine_runs_def on_store_def split: prod.split)

lemma log_clock [moving]: "leads (machine_runs ok) (clock_now (logging K E))"
  unfolding clock_now_def
  by (rule log_world) (simp add: leads_def logging_def aside_def runs_def split: prod.split)

lemma log_event [moving]: "leads (machine_runs ok) (record_event (logging K E) url kind detail)"
  unfolding record_event_def by (intro moving)

lemma log_files [moving]: "leads (runs ok) (fi_read_file (logged_files F) p)" "leads (runs ok) (fi_remove (logged_files F) p)"
  by (simp_all add: logged_files_def log_aside)

lemma log_git [moving]:
  "ok (''git'', args) \<Longrightarrow> leads (runs ok) (git_out (logged H) repo args)"
  "ok (''git'', args) \<Longrightarrow> leads (runs ok) (git_do (logged H) what repo args)"
  "ok (''git'', args) \<Longrightarrow> leads (runs ok) (git_run (logged H) repo args)"
  "ok (''git'', args) \<Longrightarrow> leads (runs ok) (succeeds (logged H) repo args)"
  unfolding git_do_def succeeds_def git_run_case git_out_def output_cmd_def by (intro moving; assumption)+

text \<open>What \<open>pushOne\<close> may push: nothing where a changed path is denied, by force only the tip it recorded as its last push.\<close>

definition is_push :: "string \<times> string list \<Rightarrow> bool" where
  "is_push c \<longleftrightarrow> fst c = ''git'' \<and> take 1 (snd c) = [''push'']"

definition push_form :: "entry \<Rightarrow> push \<Rightarrow> string \<times> string list \<Rightarrow> bool" where
  "push_form e p c \<longleftrightarrow>
     (let branch = t_branch (e_ticket e); tip = last_pushed_tip e in
      c = (''git'', [''push'', ''origin'', branch])
    \<or> ps_force p \<and> tip \<noteq> [] \<and> c = (''git'', [''push'', ''--force-with-lease='' @ branch @ '':'' @ tip, ''origin'', branch]))"

definition push_cleared :: "'w loop_env \<Rightarrow> entry \<Rightarrow> ('w \<times> command_log) machine \<Rightarrow> bool" where
  "push_cleared E e s \<longleftrightarrow>
     (let t = e_ticket e in
      \<exists>changed w. changed_paths (logged (le_host E)) (checkout E (t_repo t)) (''origin/'' @ u_base_branch (e_unlock e)) (t_branch t)
          (mc_world s) = (Inr changed, w)
        \<and> \<not> fst (push_refused changed (rs_deny (get_or no_settings (settings_in s) (t_repo t)))))"

definition push_guard :: "'w loop_env \<Rightarrow> entry \<Rightarrow> push \<Rightarrow> ('w \<times> command_log) machine \<Rightarrow> string \<times> string list \<Rightarrow> bool" where
  "push_guard E e p s c \<longleftrightarrow> (is_push c \<longrightarrow> push_cleared E e s \<and> push_form e p c)"

lemma not_push [simp]: "verb \<noteq> ''push'' \<Longrightarrow> \<not> is_push (''git'', verb # args)" "\<not> is_push (''gh'', args)"
  by (simp_all add: is_push_def)

lemma log_push_branch:
  assumes "\<And>c. push_form e p c \<Longrightarrow> ok c" and "\<And>c. \<not> is_push c \<Longrightarrow> ok c"
  shows "leads (runs ok) (push_branch (logged H) repo (t_branch (e_ticket e)) (last_pushed_tip e) (ps_force p))"
proof (cases "\<not> ps_force p \<or> last_pushed_tip e = []")
  case True
  then show ?thesis
    unfolding push_branch_def push_branch_git_def by (simp only: if_True) (intro moving; simp add: assms push_form_def)
next
  case False
  then show ?thesis
    unfolding push_branch_def push_branch_git_def push_restacked_def ancestor_def
    by (simp only: if_False) (intro moving; simp add: assms push_form_def Let_def)
qed


lemma log_changed [moving]:
  "(\<And>c. \<not> is_push c \<Longrightarrow> ok c) \<Longrightarrow> leads (runs ok) (changed_paths (logged H) repo base branch)"
  "(\<And>c. \<not> is_push c \<Longrightarrow> ok c) \<Longrightarrow> leads (runs ok) (rev_parse (logged H) repo ref)"
  unfolding changed_paths_def rev_parse_def by (intro moving; simp)+

lemma log_opened [moving]:
  assumes "\<And>c. \<not> is_push c \<Longrightarrow> ok c"
  shows "leads (machine_runs ok) (open_pr (logging K E) e p ob)" "leads (machine_runs ok) (record_pushed (logging K E) e p)"
  unfolding open_pr_def record_pushed_def pr_text_def read_handoff_def logging_sel gh_forge_def forge.simps create_pr_def create_args_def Let_def
  by (intro moving; simp add: assms)+

text \<open>What \<open>pushOne\<close> does once the changed paths are known.\<close>

definition push_changed :: "'w loop_env \<Rightarrow> entry \<Rightarrow> push \<Rightarrow> observation \<Rightarrow> ('w, unit) act" where
  "push_changed E e p ob =
     (let tk = e_ticket e; url = t_url tk in
      try_else (on_world (push_branch (le_host E) (checkout E (t_repo tk)) (t_branch tk) (last_pushed_tip e) (ps_force p)))
        (\<lambda>err. record_event E url EventPushFailed (error_text err))
        (\<lambda>_. if pr_state (pr_of ob (ticket_ref tk)) \<noteq> Open then
               try_else (open_pr E e p ob) (\<lambda>err. record_event E url EventPushFailed (error_text err))
                 (\<lambda>_. record_pushed E e p)
             else record_pushed E e p))"

lemma push_one_stages:
  "push_one E e p s = and_then
     (wrapping (''diff '' @ t_branch (e_ticket e) @ '' against origin/'' @ u_base_branch (e_unlock e))
       (on_world (changed_paths (le_host E) (checkout E (t_repo (e_ticket e)))
         (''origin/'' @ u_base_branch (e_unlock e)) (t_branch (e_ticket e)))))
     (\<lambda>changed. case push_refused changed (rs_deny (get_or no_settings (settings_in s) (t_repo (e_ticket e)))) of
        (refused, path) \<Rightarrow> if refused then record_event E (t_url (e_ticket e)) EventPushRefused path
          else push_changed E e p (tc_obs (mc_tick s))) s"
  unfolding push_one_def with_tick_def push_changed_def settings_in_def Let_def ..

lemma log_push_changed: "leads (machine_runs (\<lambda>c. is_push c \<longrightarrow> push_form e p c)) (push_changed (logging K E) e p ob)"
  unfolding push_changed_def logging_sel Let_def by (intro moving log_push_branch; simp)

text \<open>C5: A push of a finished branch runs \<open>git push\<close> only after the paths it changes were read and none of them is denied by the
  settings, and then plainly, or by force with a lease on the tip that was last pushed when the push asks for it.\<close>

theorem pushes_are_guarded:
  "\<exists>ys. commands_run (snd (push_one (logging K E) e p s)) = commands_run s @ ys \<and> list_all (push_guard E e p s) ys"
proof -
  let ?no = "\<lambda>c. \<not> is_push c"
  let ?deny = "rs_deny (get_or no_settings (settings_in s) (t_repo (e_ticket e)))"
  let ?changed = "changed_paths (logged (le_host E)) (checkout E (t_repo (e_ticket e)))
         (''origin/'' @ u_base_branch (e_unlock e)) (t_branch (e_ticket e))"
  obtain rc w1 where c: "?changed (mc_world s) = (rc, w1)" by (meson surj_pair)
  have first: "runs ?no (mc_world s) w1"
    using leadsD [OF log_changed(1) [of ?no] c] by simp
  have "machine_runs (push_guard E e p s) s (snd (push_one (logging K E) e p s))"
  proof (cases rc)
    case (Inl err)
    with c have "mc_world (snd (push_one (logging K E) e p s)) = w1"
      by (simp add: push_one_stages and_then_def wrapping_def on_world_def)
    with first show ?thesis by (auto simp: machine_runs_def push_guard_def intro: runs_mono)
  next
    case (Inr changed)
    obtain refused path where d: "push_refused changed ?deny = (refused, path)" by (meson surj_pair)
    let ?rest = "if refused then record_event (logging K E) (t_url (e_ticket e)) EventPushRefused path
      else push_changed (logging K E) e p (tc_obs (mc_tick s))"
    have eq: "push_one (logging K E) e p s = ?rest (s\<lparr>mc_world := w1\<rparr>)"
      using c Inr d by (simp add: push_one_stages and_then_def wrapping_def on_world_def)
    have after: "machine_runs (push_guard E e p s) (s\<lparr>mc_world := w1\<rparr>) (snd (?rest (s\<lparr>mc_world := w1\<rparr>)))"
    proof (cases refused)
      case True
      then show ?thesis by (simp add: log_event [unfolded leads_def, THEN spec])
    next
      case False
      then have "push_cleared E e s" using c Inr d by (auto simp: push_cleared_def Let_def)
      then have "machine_runs (push_guard E e p s) u v" if "machine_runs (\<lambda>c. is_push c \<longrightarrow> push_form e p c) u v" for u v :: "('a \<times> command_log) machine"
        using that by (auto simp: machine_runs_def push_guard_def intro: runs_mono)
      from this [OF log_push_changed [unfolded leads_def, THEN spec]] False show ?thesis by simp
    qed
    have "machine_runs (push_guard E e p s) s (s\<lparr>mc_world := w1\<rparr>)"
      using first by (auto simp: machine_runs_def push_guard_def intro: runs_mono)
    from machine_log.trans [OF this after] show ?thesis by (simp only: eq)
  qed
  then show ?thesis by (simp add: machine_runs_def runs_def commands_run_def)
qed


subsection \<open>Which removals\<close>

definition is_removal :: "string \<times> string list \<Rightarrow> bool" where
  "is_removal c \<longleftrightarrow> fst c = ''tp'' \<and> take 1 (snd c) = [''remove'']"

text \<open>A worktree goes only when nothing was refused, it was found clean, and git answered how its branch is safe.\<close>

definition removal_cleared :: "'w loop_env \<Rightarrow> entry \<Rightarrow> removal \<Rightarrow> ('w \<times> command_log) machine \<Rightarrow> string \<times> string list \<Rightarrow> bool" where
  "removal_cleared E e removal s c \<longleftrightarrow>
     (let t = e_ticket e; H = logged (le_host E) in
      rm_refusal removal = []
    \<and> (\<exists>wt w1 w2 st. map_of (ob_worktrees (tc_obs (mc_tick s))) (ticket_ref t) = Some wt
        \<and> dirty H wt (mc_world s) = (Inr False, w1)
        \<and> removal_state_for H (checkout E (t_repo t)) (t_branch t) (rm_proven_tips removal) w1 = (Inr st, w2)
        \<and> (st = RemovableByMerged \<and> c = (''tp'', [''remove'', ''--merged'', t_branch t])
           \<or> st = RemovableByForce \<and> c = (''tp'', [''remove'', ''--force'', t_branch t]))))"

definition removal_guard :: "'w loop_env \<Rightarrow> entry \<Rightarrow> removal \<Rightarrow> ('w \<times> command_log) machine \<Rightarrow> string \<times> string list \<Rightarrow> bool" where
  "removal_guard E e removal s c \<longleftrightarrow> (is_removal c \<longrightarrow> removal_cleared E e removal s c)"

lemma not_removal [simp]: "\<not> is_removal (''git'', args)" "\<not> is_removal (''gh'', args)"
  by (simp_all add: is_removal_def)

lemma log_decision:
  "leads (runs (\<lambda>c. \<not> is_removal c)) (dirty (logged H) wt)"
  "leads (runs (\<lambda>c. \<not> is_removal c)) (removal_state_for (logged H) repo branch proven)"
  unfolding dirty_def removal_state_for_def ref_exists_def rev_parse_def by (intro moving; simp)+

lemma log_withdrawn: "leads (machine_runs (\<lambda>c. \<not> is_removal c)) (withdraw_removed (logging K E) t mode merged)"
  unfolding withdraw_removed_def prune_run_logs_def logging_sel gh_forge_def forge.simps close_issue_def Let_def
  by (intro moving log_files; simp)


lemma decided:
  assumes "remove_decision (logging K E) t proven wt s = (Inr (Inr mode), s')"
  shows "\<exists>w1 w2 st. dirty (logged (le_host E)) wt (mc_world s) = (Inr False, w1)
      \<and> removal_state_for (logged (le_host E)) (checkout E (t_repo t)) (t_branch t) proven w1 = (Inr st, w2)
      \<and> (st = RemovableByMerged \<and> mode = RemoveMerged \<or> st = RemovableByForce \<and> mode = RemoveForced)"
  using assms
  by (auto simp: remove_decision_def and_then_def wrapping_def on_world_def Let_def
      split: prod.splits sum.splits if_splits removal_state.splits)

lemma log_decided: "leads (machine_runs (\<lambda>c. \<not> is_removal c)) (remove_decision (logging K E) t proven wt)"
  unfolding remove_decision_def logging_sel Let_def by (intro moving log_decision)

lemma log_removed:
  assumes "remove_flag mode = Some flag" and "\<And>c. \<not> is_removal c \<Longrightarrow> ok c" and "ok (''tp'', [''remove'', flag, t_branch t])"
  shows "leads (machine_runs ok) (try_else (on_world (wt_remove (le_worktrees (logging K E)) repo (t_branch t) mode))
     (\<lambda>err. record_event (logging K E) url kind (error_text err)) (\<lambda>_. withdraw_removed (logging K E) t mode merged))"
proof -
  have "leads (machine_runs ok) (withdraw_removed (logging K E) t mode merged)"
    using log_withdrawn assms(2) unfolding leads_def machine_runs_def by (metis (no_types, lifting) runs_mono)
  then show ?thesis
    unfolding logging_sel tp_cli_def worktree_cli.simps worktree_remove_def assms(1) option.case
    by (intro moving; simp add: assms)
qed

text \<open>C8: Removing a worktree runs \<open>tp remove\<close> only where the removal was not refused, the worktree was found clean, and the branch is
  safe: \<open>--merged\<close> where origin still has the branch, \<open>--force\<close> only where the local tip is one of the proven tips.\<close>

theorem removals_are_guarded:
  "\<exists>ys. commands_run (snd (remove_worktree_one (logging K E) e removal s)) = commands_run s @ ys
     \<and> list_all (removal_guard E e removal s) ys"
proof -
  let ?no = "\<lambda>c. \<not> is_removal c"
  let ?ok = "removal_guard E e removal s"
  let ?one = "remove_worktree_one (logging K E) e removal"
  have weak: "machine_runs ?ok u v" if "machine_runs ?no u v" for u v :: "('a \<times> command_log) machine"
    using that by (auto simp: machine_runs_def removal_guard_def intro: runs_mono)
  have "machine_runs ?ok s (snd (?one s))"
  proof (cases "rm_refusal removal = []")
    case False
    then show ?thesis
      by (simp add: remove_worktree_one_def with_tick_def Let_def log_event [unfolded leads_def, THEN spec])
  next
    case ok: True
    show ?thesis
    proof (cases "map_of (ob_worktrees (tc_obs (mc_tick s))) (ticket_ref (e_ticket e))")
      case None
      with ok show ?thesis
        by (simp add: remove_worktree_one_def with_tick_def Let_def weak log_withdrawn [unfolded leads_def, THEN spec])
    next
      case (Some wt)
      obtain rd s1 where d: "remove_decision (logging K E) (e_ticket e) (rm_proven_tips removal) wt s = (rd, s1)"
        by (meson surj_pair)
      have first: "machine_runs ?ok s s1" by (rule weak) (rule leadsD [OF log_decided d])
      have rest: "machine_runs ?ok s1 (snd (?one s))"
      proof (cases rd)
        case (Inl err)
        with d ok Some show ?thesis by (simp add: remove_worktree_one_def with_tick_def Let_def and_then_def machine_log.refl)
      next
        case (Inr decision)
        show ?thesis
        proof (cases decision)
          case (Inl detail)
          with Inr d ok Some show ?thesis
            by (simp add: remove_worktree_one_def with_tick_def Let_def and_then_def log_event [unfolded leads_def, THEN spec])
        next
          case mode: (Inr mode)
          from decided [OF d [unfolded Inr mode]] ok Some obtain flag where
            "remove_flag mode = Some flag" and "?ok (''tp'', [''remove'', flag, t_branch (e_ticket e)])"
            by (auto simp: removal_guard_def removal_cleared_def remove_flag_def Let_def)
          then have step: "leads (machine_runs ?ok) (try_else (on_world (wt_remove (le_worktrees (logging K E)) repo (t_branch (e_ticket e)) mode))
              (\<lambda>err. record_event (logging K E) url kind (error_text err)) (\<lambda>_. withdraw_removed (logging K E) (e_ticket e) mode merged))"
            for repo url kind merged
            by (intro log_removed [where flag = flag]) (auto simp: removal_guard_def)
          from Inr mode d ok Some show ?thesis
            by (simp add: remove_worktree_one_def with_tick_def Let_def and_then_def step [unfolded leads_def logging_sel, THEN spec])
        qed
      qed
      from machine_log.trans [OF first rest] show ?thesis .
    qed
  qed
  then show ?thesis by (simp add: machine_runs_def runs_def commands_run_def)
qed

end
