(* ===== verification/Loop_Limits.thy ===== *)
theory Loop_Limits imports Loop_Handlers Loop_Samples begin

text \<open>
  Limits of a tick: how many agents it starts, which outcome lets a branch be pushed, and how much of a failed
  verification is kept.
\<close>

subsection \<open>How many agents start\<close>

definition spawned_in :: "'w machine \<Rightarrow> int" where
  "spawned_in s = int (length (tc_spawned (mc_tick s)))"

definition same_spawned :: "'w machine \<Rightarrow> 'w machine \<Rightarrow> bool" where
  "same_spawned s t \<longleftrightarrow> tc_spawned (mc_tick t) = tc_spawned (mc_tick s)"

interpretation same_spawned: steps same_spawned
  by unfold_locales (auto simp: same_spawned_def)

lemma spawns_none [moving]: "leads same_spawned (on_store q)" "leads same_spawned (on_world w)"
  by (simp_all add: leads_def same_spawned_def on_store_def on_world_def split: prod.split)

lemma event_spawns_none [moving]: "leads same_spawned (clock_now E)" "leads same_spawned (record_event E url kind detail)"
  unfolding record_event_def clock_now_def by (intro moving)+

text \<open>\<open>spawns n m\<close>: \<open>m\<close> starts at most \<open>n\<close> agents.\<close>

definition spawns :: "nat \<Rightarrow> ('w, 'a) act \<Rightarrow> bool" where
  "spawns n m \<longleftrightarrow> (\<forall>s. spawned_in (snd (m s)) \<le> spawned_in s + int n)"

lemma spawns_mono: "spawns i m \<Longrightarrow> i \<le> n \<Longrightarrow> spawns n m"
  by (auto simp: spawns_def) (meson add_left_mono of_nat_mono order_trans)

lemma spawns_same: "leads same_spawned m \<Longrightarrow> spawns n m"
  by (simp add: leads_def same_spawned_def spawns_def spawned_in_def)

lemma spawnsD: "spawns n m \<Longrightarrow> m s = (r, s') \<Longrightarrow> spawned_in s' \<le> spawned_in s + int n"
  unfolding spawns_def by (metis snd_conv)

lemma spawns_tries:
  assumes "spawns i m" and "\<And>e. spawns j (h e)" and "\<And>a. spawns j (f a)"
  shows "spawns (i + j) (try_else m h f)"
  unfolding spawns_def
proof
  fix s
  obtain r1 s1 where m: "m s = (r1, s1)" by (meson surj_pair)
  have one: "spawned_in s1 \<le> spawned_in s + int i" by (rule spawnsD [OF assms(1) m])
  show "spawned_in (snd (try_else m h f s)) \<le> spawned_in s + int (i + j)"
  proof (cases r1)
    case (Inl e)
    with m one assms(2) [of e] show ?thesis by (auto simp: try_else_def spawns_def dest: spec [of _ s1])
  next
    case (Inr a)
    with m one assms(3) [of a] show ?thesis by (auto simp: try_else_def spawns_def dest: spec [of _ s1])
  qed
qed

lemma spawns_binds: "spawns i m \<Longrightarrow> (\<And>a. spawns j (f a)) \<Longrightarrow> spawns (i + j) (and_then m f)"
  unfolding and_then_case by (rule spawns_tries) (auto intro: spawns_same same_spawned.fails)

lemma spawns_wraps: "spawns i m \<Longrightarrow> spawns i (wrapping what m)"
  unfolding wrapping_case using spawns_tries [of i m 0 "\<lambda>e. fail_with (Wrapped what e)" ret] by (simp add: spawns_same same_spawned.fails same_spawned.returns)

lemma spawns_each:
  assumes "\<And>x. spawns 1 (f x)"
  shows "spawns (length xs) (each_io f xs)"
proof (induction xs)
  case Nil
  then show ?case by (simp add: spawns_def)
next
  case (Cons x xs)
  have "each_io f (x # xs) = and_then (f x) (\<lambda>_. each_io f xs)" by (simp add: fun_eq_iff)
  with spawns_binds [OF assms Cons] show ?case by simp
qed

text \<open>A prefix that starts none.\<close>

lemma spawns_after: "leads same_spawned m \<Longrightarrow> (\<And>a. spawns n (f a)) \<Longrightarrow> spawns n (and_then m f)"
  using spawns_binds [of 0 m n f] by (simp add: spawns_same)

lemma spawns_after_else:
  "leads same_spawned m \<Longrightarrow> (\<And>e. spawns n (h e)) \<Longrightarrow> (\<And>a. spawns n (f a)) \<Longrightarrow> spawns n (try_else m h f)"
  using spawns_tries [of 0 m n h f] by (simp add: spawns_same)

lemma spawns_tick: "(\<And>t. spawns n (f t)) \<Longrightarrow> spawns n (with_tick f)"
  by (simp add: spawns_def with_tick_def)

lemma failures_spawn_none [moving]: "leads same_spawned (spawn_failed E i url e)" "leads same_spawned (cut_failed E tk h begin_at e)"
  unfolding spawn_failed_def cut_failed_def by (intro moving)+

lemma spawns_ends: "spawns n (ret a)" "spawns n (fail_with e)" "spawns n (record_event E url kind detail)" "spawns n (cut_failed E tk h b e')"
  by (rule spawns_same, rule event_spawns_none failures_spawn_none same_spawned.returns same_spawned.fails)+

lemma spawns_option: "spawns n m \<Longrightarrow> (\<And>a. spawns n (f a)) \<Longrightarrow> spawns n (case x of None \<Rightarrow> m | Some a \<Rightarrow> f a)"
  and spawns_if: "spawns n m \<Longrightarrow> spawns n l \<Longrightarrow> spawns n (if b then m else l)"
  by (simp_all split: option.split)

lemmas spawns_parts = spawns_after spawns_wraps spawns_ends spawns_option spawns_if spawns_tick

lemma spawned_once: "spawns 1 (spawned E i sp pid)"
proof -
  have one: "spawns 1 (on_tick (\<lambda>t. t\<lparr>tc_spawned := tc_spawned t @ [ss_url (xs_ticket sp)]\<rparr>))"
    by (simp add: spawns_def on_tick_def spawned_in_def)
  have last: "spawns 1 (and_then (on_tick (\<lambda>t. t\<lparr>tc_spawned := tc_spawned t @ [ss_url (xs_ticket sp)]\<rparr>))
    (\<lambda>_. record_event E url kind detail))" for url kind detail
    using spawns_binds [OF one spawns_same [OF event_spawns_none(2)], of 0] by simp
  show ?thesis unfolding spawned_def Let_def
    by (rule spawns_after [OF event_spawns_none(1)], rule spawns_after [OF same_spawned.wraps [OF spawns_none(1)]], rule last)
qed

lemma closing_spawns: "spawns n body \<Longrightarrow> spawns n (and_close_log E i body)"
  unfolding spawns_def
proof
  fix s assume body: "\<forall>s. spawned_in (snd (body s)) \<le> spawned_in s + int n"
  obtain r1 s1 where b: "body s = (r1, s1)" by (meson surj_pair)
  obtain r2 s2 where c: "on_world (fi_close (le_files E) (run_path E i ''jsonl'')) s1 = (r2, s2)" by (meson surj_pair)
  have "same_spawned s1 s2" by (rule leadsD [OF spawns_none(2) c])
  then have "spawned_in s2 = spawned_in s1" by (simp add: same_spawned_def spawned_in_def)
  moreover have "spawned_in s1 \<le> spawned_in s + int n" using body [rule_format, of s] b by simp
  moreover have "snd (and_close_log E i body s) = s2" using b c by (auto simp: and_close_log_def Let_def split: sum.split)
  ultimately show "spawned_in (snd (and_close_log E i body s)) \<le> spawned_in s + int n" by simp
qed

lemma spawn_run_spawns: "spawns 1 (spawn_run E spec)"
  unfolding spawn_run_def start_agent_def system_prompt_for_def Let_def case_prod_unfold
  by (intro spawns_after closing_spawns spawns_after_else spawned_once) (intro moving spawns_same failures_spawn_none)+

lemma cut_spawns: "spawns 1 (cut_and_spawn E tk launched base h begin_at)"
  unfolding cut_and_spawn_def Let_def
  by (intro spawns_after_else spawns_parts spawn_run_spawns) (intro moving)+

lemma handoffs_spawn_none [moving]: "leads same_spawned (with_handoffs E rs)"
  by (induction rs) (simp_all only: with_handoffs.simps read_handoff_def, (intro moving; assumption?)+)

lemma advance_spawns: "spawns 1 (advance_pass E tk e)"
  unfolding advance_pass_def Let_def
  by (intro spawns_parts spawn_run_spawns) (intro moving)+

lemma launch_spawns: "spawns 1 (launch_one E snap by_url url)"
  unfolding launch_one_def Let_def
  by (intro spawns_parts advance_spawns cut_spawns) (intro moving)

text \<open>C11: The launches of a tick keep the running agents and those the tick has started within the cap of the settings, or start none
  where the cap is reached already; while spending is paused none is started.\<close>

theorem launches_within_cap:
  "sn_running snap + spawned_in (snd (launch_eligible E snap by_url s))
     \<le> (if sn_spend_paused snap then sn_running snap + spawned_in s
        else max (sn_max_agents snap) (sn_running snap + spawned_in s))"
proof -
  let ?launched = "launch_after snap (spawned_in s)"
  have "spawned_in (snd (launch_eligible E snap by_url s)) \<le> spawned_in s + int (length ?launched)"
    using spawns_each [of "launch_one E snap by_url" ?launched, OF launch_spawns]
    by (simp add: launch_eligible_def with_tick_def spawns_def spawned_in_def)
  moreover have "sn_spend_paused snap \<Longrightarrow> ?launched = []"
    by (simp add: launch_after_def launch_plan_def)
  ultimately show ?thesis
    using launch_plan_length [of "sn_launch snap" "sn_running snap + spawned_in s" "sn_max_agents snap" "sn_spend_paused snap"]
    by (auto simp: launch_after_def)
qed


subsection \<open>Which runs may be pushed\<close>

lemma work_outcome_push:
  assumes "work_outcome E run tk baseline s = (Inr OutcomePush, s')"
  shows "\<exists>n t t'. baseline \<noteq> [] \<and> 0 < n \<and> commits_since_baseline E tk baseline t = (Inr n, t')"
  using assms
  by (fastforce simp: work_outcome_def counted_commits_def and_then_def wrapping_def disposition_def
      split: prod.splits sum.splits if_splits)

lemma earlier_never_pushes: "fst (earlier_step_outcome E run tk st code msg s) \<noteq> Inr OutcomePush"
  by (auto simp: earlier_step_outcome_def and_then_def step_outcome_def Let_def split: prod.split sum.split)

lemma carried_push:
  assumes "carried_outcome E run tk code msg s = (Inr OutcomePush, s')"
  shows "(case step_of E run of None \<Rightarrow> True | Some (w, st) \<Rightarrow> length (w_steps w) \<le> 1 \<or> final_step w st)
    \<and> (\<exists>baseline n t t'. baseline \<noteq> [] \<and> 0 < n \<and> commits_since_baseline E tk baseline t = (Inr n, t'))"
proof (cases "step_of E run")
  case None
  with assms work_outcome_push show ?thesis by (fastforce simp: carried_outcome_def)
next
  case (Some ws)
  obtain w st where ws: "ws = (w, st)" by (cases ws)
  have last: "length (w_steps w) \<le> 1 \<or> final_step w st"
    using assms earlier_never_pushes [of E run tk st code msg s] Some ws by (auto simp: carried_outcome_def split: if_splits)
  have "\<exists>baseline t. work_outcome E run tk baseline t = (Inr OutcomePush, s')"
    using assms Some ws last
    by (auto simp: carried_outcome_def with_tick_def and_then_def wrapping_def split: if_splits prod.splits sum.splits)
  with work_outcome_push have "\<exists>baseline n t t'. baseline \<noteq> [] \<and> 0 < n \<and> commits_since_baseline E tk baseline t = (Inr n, t')"
    by blast
  with last Some ws show ?thesis by simp
qed



text \<open>A daemon whose git counts one commit.\<close>

definition counting_daemon :: "unit loop_env" where
  "counting_daemon = sample_daemon\<lparr>le_host := quiet_host\<lparr>h_exec := (\<lambda>_ _ _ _ w.
     (\<lparr>po_stdout = ''1'', po_stderr = [], po_err = None, po_deadline = False\<rparr>, w))\<rparr>\<rparr>"

definition counted_machine :: "unit machine" where
  "counted_machine = sample_machine\<lparr>mc_tick := no_tick\<lparr>tc_obs := (new_observation 0)
     \<lparr>ob_branch_tips := [(BranchRef ''o/app'' ''cc-1-a'', ''tip'')]\<rparr>\<rparr>\<rparr>"

definition counted_run :: pending_run where
  "counted_run = \<lparr>pn_id = 1, pn_ticket_id = ''u'', pn_kind = RunKindAgent, pn_pgid = 4711, pn_proc_started_at = 1,
     pn_baseline_sha = ''base'', pn_log_path = [], pn_step = [], pn_workflow_hash = []\<rparr>"

definition counted_ticket :: store_ticket where
  "counted_ticket = no_store_ticket\<lparr>ss_url := ''u'', ss_repo := ''o/app'', ss_branch := ''cc-1-a''\<rparr>"


subsection \<open>How much of a failed verification is kept\<close>

lemma to_valid_utf8_length: "length (to_valid_utf8 s) \<le> length s"
proof (induction s rule: to_valid_utf8.induct)
  case (2 c s)
  then show ?case by (fastforce simp: to_valid_utf8.simps(2) split: option.split)
qed simp

text \<open>The detail recorded of a failed verification is valid UTF-8 and at most 4015 bytes long, however long the output was.\<close>

theorem verify_detail_bounded:
  "length (verify_detail e out) \<le> 4015 \<and> to_valid_utf8 (verify_detail e out) = verify_detail e out"
proof -
  let ?text = "trim_space (error_text e @ nl @ out)"
  let ?cut = "if length ?text > max_verify_detail then take max_verify_detail ?text @ '' '' @ ellipsis @ ''(truncated)'' else ?text"
  have "length (to_valid_utf8 ?cut) \<le> length ?cut" by (rule to_valid_utf8_length)
  also have "length ?cut \<le> 4015" by (simp add: max_verify_detail_def ellipsis_def)
  finally show ?thesis by (simp add: verify_detail_def Let_def)
qed

end
