(* ===== verification/Go_Regexp.thy ===== *)
theory Go_Regexp imports Go_Strings begin

text \<open>
  The regular expressions of package \<open>regexp\<close>, as far as the program uses them: a match is the first in the order a
  backtracking matcher tries (\<open>leftmost-first\<close>), and a group yields the text it matched. Strings are bytes; a class that
  excludes characters takes the bytes of a rune one by one, which matches the same texts under the repetitions used here.
\<close>

datatype regex =
    One_of "char list"
  | None_of "char list"
  | Nothing
  | Cat regex regex
  | Either regex regex
  | Star regex
  | Group regex
  | At_begin
  | At_end
  | Word_edge

text \<open>What was read, last character first, what is left, and the texts of the groups.\<close>

type_synonym match_state = "string \<times> string \<times> string list"

fun star_loop :: "nat \<Rightarrow> (match_state \<Rightarrow> match_state list) \<Rightarrow> match_state \<Rightarrow> match_state list" where
  "star_loop 0 f st = [st]"
| "star_loop (Suc n) f st =
     concat (map (star_loop n f) (filter (\<lambda>st'. length (fst (snd st')) < length (fst (snd st))) (f st))) @ [st]"

definition word_char :: "char \<Rightarrow> bool" where
  "word_char c \<longleftrightarrow> (let n = of_char c :: nat in 97 \<le> n \<and> n \<le> 122 \<or> 65 \<le> n \<and> n \<le> 90 \<or> 48 \<le> n \<and> n \<le> 57 \<or> n = 95)"

definition word_at :: "string \<Rightarrow> bool" where
  "word_at s \<longleftrightarrow> (case s of [] \<Rightarrow> False | c # _ \<Rightarrow> word_char c)"

text \<open>All matches from a state on, in the order of preference; the text left bounds the rounds of a repetition.\<close>

primrec matches :: "regex \<Rightarrow> match_state \<Rightarrow> match_state list" where
  "matches (One_of cs) st = (case st of (past, rest, gs) \<Rightarrow>
     (case rest of [] \<Rightarrow> [] | c # s \<Rightarrow> if c \<in> set cs then [(c # past, s, gs)] else []))"
| "matches (None_of cs) st = (case st of (past, rest, gs) \<Rightarrow>
     (case rest of [] \<Rightarrow> [] | c # s \<Rightarrow> if c \<in> set cs then [] else [(c # past, s, gs)]))"
| "matches Nothing st = [st]"
| "matches (Cat a b) st = concat (map (matches b) (matches a st))"
| "matches (Either a b) st = matches a st @ matches b st"
| "matches (Star a) st = star_loop (length (fst (snd st))) (matches a) st"
| "matches (Group a) st = (case st of (past, rest, gs) \<Rightarrow>
     map (\<lambda>(b, r, g). (b, r, g @ [take (length rest - length r) rest])) (matches a st))"
| "matches At_begin st = (if fst st = [] then [st] else [])"
| "matches At_end st = (if fst (snd st) = [] then [st] else [])"
| "matches Word_edge st = (case st of (past, rest, gs) \<Rightarrow> if word_at past \<noteq> word_at rest then [st] else [])"

text \<open>The leftmost match: the text it covers, and the texts of its groups.\<close>

fun search_from :: "regex \<Rightarrow> string \<Rightarrow> string \<Rightarrow> (string \<times> string list) option" where
  "search_from r past rest =
     (case matches r (past, rest, []) of
        (_, s, gs) # _ \<Rightarrow> Some (take (length rest - length s) rest, gs)
      | [] \<Rightarrow> (case rest of [] \<Rightarrow> None | c # s \<Rightarrow> search_from r (c # past) s))"

definition find_match :: "regex \<Rightarrow> string \<Rightarrow> (string \<times> string list) option" where
  "find_match r s = search_from r [] s"

definition match_string :: "regex \<Rightarrow> string \<Rightarrow> bool" where
  "match_string r s \<longleftrightarrow> find_match r s \<noteq> None"

text \<open>All matches replaced, from left to right; an expression that matches the empty text replaces nothing there.\<close>

function replace_from :: "regex \<Rightarrow> (string \<Rightarrow> string) \<Rightarrow> string \<Rightarrow> string \<Rightarrow> string" where
  "replace_from r f past [] = []"
| "replace_from r f past (c # s) =
     (case matches r (past, c # s, []) of
        (past', s', _) # _ \<Rightarrow>
          if length s' \<le> length s then f (take (Suc (length s) - length s') (c # s)) @ replace_from r f past' s'
          else c # replace_from r f (c # past) s
      | [] \<Rightarrow> c # replace_from r f (c # past) s)"
  by pat_completeness auto

termination
  by (relation "measure (\<lambda>(r, f, past, s). length s)") auto

definition replace_all :: "regex \<Rightarrow> (string \<Rightarrow> string) \<Rightarrow> string \<Rightarrow> string" where
  "replace_all r f s = replace_from r f [] s"

subsection \<open>Building expressions\<close>

definition plus :: "regex \<Rightarrow> regex" where "plus r = Cat r (Star r)"

definition maybe :: "regex \<Rightarrow> regex" where "maybe r = Either r Nothing"

fun cats :: "regex list \<Rightarrow> regex" where
  "cats [] = Nothing"
| "cats (r # rs) = Cat r (cats rs)"

definition lit :: "string \<Rightarrow> regex" where "lit s = cats (map (\<lambda>c. One_of [c]) s)"

text \<open>The classes \<open>\s\<close>, \<open>\d\<close>, \<open>[a-zA-Z]\<close> and \<open>.\<close>.\<close>

definition blank_chars :: "char list" where
  "blank_chars = [CHR '' '', char_of (9::nat), newline, char_of (12::nat), char_of (13::nat)]"

definition digit_chars :: "char list" where
  "digit_chars = map (\<lambda>n. char_of (48 + n)) [0..<10]"

definition letter_chars :: "char list" where
  "letter_chars = map (\<lambda>n. char_of (97 + n)) [0..<26] @ map (\<lambda>n. char_of (65 + n)) [0..<26]"

subsection \<open>Matches cover what they read\<close>

text \<open>A match leaves a suffix of the text, so a search covers a part of it.\<close>

definition reads_on :: "match_state \<Rightarrow> match_state \<Rightarrow> bool" where
  "reads_on st st' \<longleftrightarrow> (\<exists>read. fst (snd st) = read @ fst (snd st') \<and> fst st' = rev read @ fst st)"

lemma reads_on_refl: "reads_on st st"
  by (simp add: reads_on_def)

lemma reads_on_trans: "reads_on a b \<Longrightarrow> reads_on b c \<Longrightarrow> reads_on a c"
  by (auto simp: reads_on_def)

lemma star_loop_reads:
  assumes "\<And>st st'. st' \<in> set (f st) \<Longrightarrow> reads_on st st'"
  shows "st' \<in> set (star_loop n f st) \<Longrightarrow> reads_on st st'"
proof (induction n arbitrary: st)
  case (Suc n)
  from Suc.prems consider "st' = st" | mid where "mid \<in> set (f st)" and "st' \<in> set (star_loop n f mid)" by fastforce
  then show ?case
  proof cases
    case 2
    show ?thesis by (rule reads_on_trans [OF assms [OF 2(1)] Suc.IH [OF 2(2)]])
  qed (simp add: reads_on_refl)
qed (simp add: reads_on_refl)

lemma matches_read: "st' \<in> set (matches r st) \<Longrightarrow> reads_on st st'"
proof (induction r arbitrary: st st')
  case (Cat a b)
  from Cat.prems obtain mid where "mid \<in> set (matches a st)" and "st' \<in> set (matches b mid)" by fastforce
  with Cat.IH show ?case by (metis reads_on_trans)
next
  case (Star r)
  from Star.prems star_loop_reads [of "matches r", OF Star.IH] show ?case by simp
next
  case (Group r)
  obtain past rest gs where st: "st = (past, rest, gs)" by (cases st)
  from Group.prems st obtain b s g where "(b, s, g) \<in> set (matches r st)" and "st' = (b, s, g @ [take (length rest - length s) rest])"
    by auto
  with Group.IH [of "(b, s, g)" st] st show ?case by (auto simp: reads_on_def)
qed (auto simp: reads_on_def split: list.splits if_splits)

lemma search_covers:
  "search_from r past rest = Some (text, gs) \<Longrightarrow> \<exists>pre post. rest = pre @ text @ post"
proof (induction r past rest rule: search_from.induct)
  case (1 r past rest)
  show ?case
  proof (cases "matches r (past, rest, [])")
    case Nil
    with 1 obtain c s where "rest = c # s" and "search_from r (c # past) s = Some (text, gs)" by (auto split: list.splits)
    with 1(1) [OF Nil] obtain pre post where "s = pre @ text @ post" by blast
    with \<open>rest = c # s\<close> show ?thesis by (intro exI [of _ "c # pre"] exI [of _ post]) simp
  next
    case (Cons st sts)
    obtain b s g where st: "st = (b, s, g)" by (cases st)
    from Cons st have "reads_on (past, rest, []) (b, s, g)" using matches_read [of st r "(past, rest, [])"] by simp
    then obtain read where read: "rest = read @ s" by (auto simp: reads_on_def)
    with 1(2) Cons st have "text = read" by simp
    with read show ?thesis by (intro exI [of _ "[]"] exI [of _ s]) simp
  qed
qed

end
