(* ===== verification/Log_Events.thy ===== *)
theory Log_Events imports Agent_Log Go_Regexp begin

text \<open>
  The events of an agent's log: \<open>internal/plan/agentlog/{parse,diff}.go\<close>, what the session page and the live log show
  of a stream of JSON lines. A line gives events, the tail turns the result of a shell command into the answer to it, and
  a parse groups the events by the skill that ran and counts the turns and the spending of each.

  The decoders of \<open>encoding/json\<close> are the record \<open>log_json\<close>; a value of a decoded object that is not a string is
  \<open>None\<close>.
\<close>

subsection \<open>Decoders\<close>

record tool_change =
  tc_type :: string
  tc_content :: string
  tc_hunks :: "string list list"

record log_json =
  lj_line :: line_decoder
  lj_input :: "string \<Rightarrow> (string, string option) gomap option"
  lj_change :: "string \<Rightarrow> tool_change option"
  lj_text :: "string \<Rightarrow> string option"
  lj_bash :: "string \<Rightarrow> (string \<times> string \<times> bool) option"
  lj_texts :: "string \<Rightarrow> string list option"

subsection \<open>\<open>diff.go\<close>\<close>

datatype diff_op = Keep | Add | Remove

record diff_line =
  dl_op :: diff_op
  dl_text :: string

record diff =
  df_lines :: "diff_line list"
  df_added :: int
  df_removed :: int

definition no_diff :: diff where "no_diff = \<lparr>df_lines = [], df_added = 0, df_removed = 0\<rparr>"

fun diff_op_text :: "diff_op \<Rightarrow> string" where
  "diff_op_text Add = ''add''"
| "diff_op_text Remove = ''del''"
| "diff_op_text Keep = ''ctx''"

definition diff_context :: nat where "diff_context = 2"
definition max_diff_lines :: nat where "max_diff_lines = 80"

text \<open>How many lines two texts share from the start on; on reversed lists, from the end.\<close>

fun common :: "'a list \<Rightarrow> 'a list \<Rightarrow> nat" where
  "common (x # xs) (y # ys) = (if x = y then Suc (common xs ys) else 0)"
| "common _ _ = 0"

definition append_rows :: "diff_line list \<Rightarrow> diff_op \<Rightarrow> string list \<Rightarrow> diff_line list" where
  "append_rows rows op lines = rows @ map (\<lambda>l. \<lparr>dl_op = op, dl_text = l\<rparr>) lines"

text \<open>The rune \<open>U+2026\<close>.\<close>

definition dots :: string where
  "dots = [char_of (0xE2::nat), char_of (0x80::nat), char_of (0xA6::nat)]"

definition cut_rows :: "diff_line list \<Rightarrow> diff_line list" where
  "cut_rows rows =
     (if length rows > max_diff_lines
      then take max_diff_lines rows @
        [\<lparr>dl_op = Keep, dl_text = dots @ '' '' @ nat_text (length rows - max_diff_lines) @ '' more lines''\<rparr>]
      else rows)"

definition line_diff :: "string \<Rightarrow> string \<Rightarrow> diff" where
  "line_diff was became =
     (if was = became then no_diff
      else
        let old = split_char newline was;
            new = split_char newline became;
            prefix = common old new;
            suffix = common (rev (drop prefix old)) (rev (drop prefix new));
            removed = drop prefix (take (length old - suffix) old);
            added = drop prefix (take (length new - suffix) new);
            rows = append_rows [] Keep (drop (prefix - diff_context) (take prefix old));
            rows = append_rows rows Remove removed;
            rows = append_rows rows Add added;
            rows = append_rows rows Keep (take diff_context (drop (length old - suffix) old))
        in \<lparr>df_lines = cut_rows rows, df_added = int (length added), df_removed = int (length removed)\<rparr>)"

subsection \<open>\<open>parse.go\<close>: kinds and events\<close>

datatype log_kind = Skill | File | Tool | Fail | Pass | Say | Cmd | Record | Commit

fun log_kind_text :: "log_kind \<Rightarrow> string" where
  "log_kind_text Skill = ''skill''"
| "log_kind_text File = ''file''"
| "log_kind_text Tool = ''tool''"
| "log_kind_text Fail = ''fail''"
| "log_kind_text Pass = ''pass''"
| "log_kind_text Say = ''say''"
| "log_kind_text Cmd = ''cmd''"
| "log_kind_text Record = ''record''"
| "log_kind_text Commit = ''commit''"

record log_event =
  lv_at :: duration
  lv_kind :: log_kind
  lv_tool :: string
  lv_detail :: string
  lv_call_id :: string
  lv_output :: string
  lv_output_lines :: nat
  lv_diff :: diff
  lv_done :: bool
  lv_exit_code :: int
  lv_interrupted :: bool
  lv_elapsed :: duration

text \<open>An event of a kind with the zero of every other field.\<close>

definition blank_event :: "log_kind \<Rightarrow> log_event" where
  "blank_event k = \<lparr>lv_at = 0, lv_kind = k, lv_tool = [], lv_detail = [], lv_call_id = [], lv_output = [],
     lv_output_lines = 0, lv_diff = no_diff, lv_done = False, lv_exit_code = 0, lv_interrupted = False, lv_elapsed = 0\<rparr>"

subsection \<open>\<open>parse.go\<close>: texts\<close>

definition max_output_lines :: nat where "max_output_lines = 40"
definition max_output_bytes :: nat where "max_output_bytes = 4000"

definition bound_output :: "string \<Rightarrow> string \<times> nat" where
  "bound_output whole =
     (if whole = [] then ([], 0)
      else
        let lines = split_char newline whole;
            kept = join [newline] (take max_output_lines lines);
            kept = (if length kept > max_output_bytes then to_valid_utf8 (take max_output_bytes kept) else kept);
            note = (if kept = whole then []
                    else newline # dots @ '' output cut short'' @
                      (if length lines > max_output_lines
                       then '', '' @ nat_text (length lines - max_output_lines) @ '' more lines'' else []))
        in (kept @ note, length lines))"

definition first_line :: "string \<Rightarrow> string" where
  "first_line s = trim_right_bytes [char_of (13::nat)] (cut_before [newline] s)"

definition count_lines :: "string \<Rightarrow> int" where
  "count_lines s = (if s = [] then 0 else int (length (filter (\<lambda>c. c = newline) (trim_suffix s [newline]))) + 1)"

definition join_non_empty :: "string list \<Rightarrow> string" where
  "join_non_empty parts = join [newline] (filter (\<lambda>p. p \<noteq> []) parts)"

definition text_of :: "(string, string option) gomap \<Rightarrow> string \<Rightarrow> string" where
  "text_of input key = (case get_or None input key of Some s \<Rightarrow> s | None \<Rightarrow> [])"

definition primary_input_keys :: "string list" where
  "primary_input_keys = [''command'', ''file_path'', ''pattern'', ''path'', ''url'', ''query'', ''description'', ''prompt'']"

definition primary_input :: "(string, string option) gomap \<Rightarrow> string" where
  "primary_input input =
     (case find (\<lambda>k. text_of input k \<noteq> []) primary_input_keys of Some k \<Rightarrow> text_of input k | None \<Rightarrow> [])"

text \<open>The result of a tool is a string or the blocks of a message.\<close>

definition result_text :: "log_json \<Rightarrow> content_block \<Rightarrow> string" where
  "result_text J b =
     (case lj_text J (cb_content b) of
        Some whole \<Rightarrow> whole
      | None \<Rightarrow> (case lj_texts J (cb_content b) of None \<Rightarrow> [] | Some texts \<Rightarrow> join [newline] texts))"

subsection \<open>\<open>parse.go\<close>: regular expressions\<close>

text \<open>\<open>^(?:Error: )?Exit code (\d+)\n?\<close>\<close>

definition exit_code_prefix :: regex where
  "exit_code_prefix = cats [At_begin, maybe (lit ''Error: ''), lit ''Exit code '', Group (plus (One_of digit_chars)),
     maybe (One_of [newline])]"

text \<open>\<open>(?:^|[;&|(]\s*|\s)git\s+(?:(?:-[Cc]\s+\S+|-\S+)\s+)*commit(?:\s|$)\<close>\<close>

definition git_commit_regexp :: regex where
  "git_commit_regexp = (let blank = One_of blank_chars; word = plus (None_of blank_chars) in
     cats [Either At_begin (Either (Cat (One_of '';&|('') (Star blank)) blank), lit ''git'', plus blank,
       Star (Cat (Either (cats [lit ''-'', One_of ''Cc'', plus blank, word]) (Cat (lit ''-'') word)) (plus blank)),
       lit ''commit'', Either blank At_end])"

text \<open>\<open>(?:^|\s)(?:-[a-zA-Z]*m|--message)(?:\s+|=)(?:"((?:[^"\\]|\\.)*)"|'([^']*)')\<close>\<close>

definition quote_mark :: char where "quote_mark = char_of (34::nat)"
definition tick_mark :: char where "tick_mark = char_of (39::nat)"
definition back_slash :: char where "back_slash = char_of (92::nat)"

definition commit_flag_m :: regex where
  "commit_flag_m = (let blank = One_of blank_chars in
     cats [Either At_begin blank,
       Either (cats [lit ''-'', Star (One_of letter_chars), lit ''m'']) (lit ''--message''),
       Either (plus blank) (lit ''=''),
       Either
         (cats [One_of [quote_mark],
            Group (Star (Either (None_of [quote_mark, back_slash]) (Cat (One_of [back_slash]) (None_of [newline])))),
            One_of [quote_mark]])
         (cats [One_of [tick_mark], Group (Star (None_of [tick_mark])), One_of [tick_mark]])])"

text \<open>\<open><<|\s(?:-F|--file)\b\<close>\<close>

definition commit_heredoc :: regex where
  "commit_heredoc = Either (lit ''<<'')
     (cats [One_of blank_chars, Either (lit ''-F'') (lit ''--file''), Word_edge])"

definition commit_message :: "string \<Rightarrow> string" where
  "commit_message command =
     (if match_string commit_heredoc command then []
      else case find_match commit_flag_m command of None \<Rightarrow> [] | Some (_, groups) \<Rightarrow> first_line (concat groups))"

subsection \<open>\<open>parse.go\<close>: the events of a line\<close>

definition file_tools :: "string list" where "file_tools = [''Read'', ''Write'', ''Edit'', ''NotebookEdit'']"

definition tool_event :: "log_json \<Rightarrow> content_block \<Rightarrow> log_event" where
  "tool_event J b =
     (let input = (case lj_input J (cb_input b) of None \<Rightarrow> [] | Some m \<Rightarrow> m)
      in if cb_name b = ''Skill''
         then (blank_event Skill)\<lparr>lv_tool := text_of input ''skill'', lv_detail := text_of input ''args'', lv_call_id := cb_id b\<rparr>
         else
           let kind = (if cb_name b = ''Bash'' then Cmd else if cb_name b \<in> set file_tools then File else Tool);
               e = (blank_event kind)\<lparr>lv_tool := cb_name b, lv_detail := primary_input input, lv_call_id := cb_id b\<rparr>
           in if cb_name b = ''Edit''
              then e\<lparr>lv_diff := line_diff (text_of input ''old_string'') (text_of input ''new_string'')\<rparr>
              else if cb_name b = ''Write''
              then e\<lparr>lv_diff := no_diff\<lparr>df_added := count_lines (text_of input ''content'')\<rparr>\<rparr>
              else e)"

definition tool_results :: "log_line \<Rightarrow> nat" where
  "tool_results l = length (filter (\<lambda>b. cb_type b = ''tool_result'') (lg_content l))"

definition count_change :: "string \<Rightarrow> diff \<Rightarrow> diff" where
  "count_change line d =
     (if has_prefix line ''+'' then d\<lparr>df_added := df_added d + 1\<rparr>
      else if has_prefix line ''-'' then d\<lparr>df_removed := df_removed d + 1\<rparr>
      else d)"

definition change_counts :: "log_json \<Rightarrow> string \<Rightarrow> diff" where
  "change_counts J raw =
     (if \<not> str_contains raw (quote_mark # ''structuredPatch'' @ [quote_mark]) then no_diff
      else case lj_change J raw of
        None \<Rightarrow> no_diff
      | Some c \<Rightarrow>
          if tc_type c = ''create'' then no_diff\<lparr>df_added := count_lines (tc_content c)\<rparr>
          else fold (fold count_change) (tc_hunks c) no_diff)"

definition result_event :: "log_json \<Rightarrow> content_block \<Rightarrow> log_event" where
  "result_event J b =
     (let whole = trim_right_bytes [newline] (result_text J b);
          (output, lines) = bound_output whole
      in (blank_event (if cb_is_error b then Fail else Pass))
           \<lparr>lv_detail := first_line whole, lv_call_id := cb_tool_use_id b, lv_output := output, lv_output_lines := lines\<rparr>)"

definition block_events :: "log_json \<Rightarrow> log_line \<Rightarrow> content_block \<Rightarrow> log_event list" where
  "block_events J l b =
     (if lg_type l = ''assistant'' \<and> cb_type b = ''tool_use'' then
        let e = tool_event J b
        in [if lv_kind e = Skill \<and> lg_parent_tool_use_id l \<noteq> []
            then (blank_event Tool)\<lparr>lv_tool := cb_name b, lv_detail := lv_tool e, lv_call_id := lv_call_id e\<rparr>
            else e]
      else if lg_type l = ''assistant'' \<and> cb_type b = ''text'' \<and> lg_parent_tool_use_id l = [] then
        let say = trim_space (cb_text b)
        in if say \<noteq> [] then [(blank_event Say)\<lparr>lv_detail := say\<rparr>] else []
      else if lg_type l = ''user'' \<and> cb_type b = ''tool_result'' then
        let e = result_event J b
        in [if tool_results l = 1 then e\<lparr>lv_diff := change_counts J (lg_tool_use_result l)\<rparr> else e]
      else [])"

definition line_events :: "log_json \<Rightarrow> log_line \<Rightarrow> log_event list" where
  "line_events J l = concat (map (block_events J l) (lg_content l))"

definition parse_line :: "log_json \<Rightarrow> string \<Rightarrow> log_event list" where
  "parse_line J line = (case lj_line J line of None \<Rightarrow> [] | Some l \<Rightarrow> line_events J l)"

subsection \<open>\<open>parse.go\<close>: the tail\<close>

record cmd_call =
  cc_command :: string
  cc_at :: time

text \<open>A set of call ids is the map of those that are set.\<close>

record tail =
  ta_skill_calls :: "string list"
  ta_cmd_calls :: "(string, cmd_call) gomap"

definition no_tail :: tail where "no_tail = \<lparr>ta_skill_calls = [], ta_cmd_calls = []\<rparr>"

definition no_block :: content_block where
  "no_block = \<lparr>cb_type = [], cb_id = [], cb_tool_use_id = [], cb_name = [], cb_text = [], cb_input = [], cb_content = [],
     cb_is_error = False\<rparr>"

text \<open>The last result of the line that answers the call.\<close>

definition answering_block :: "log_line \<Rightarrow> string \<Rightarrow> content_block" where
  "answering_block l call =
     fold (\<lambda>b found. if cb_type b = ''tool_result'' \<and> cb_tool_use_id b = call then b else found) (lg_content l) no_block"

text \<open>The output of the only result of a line, and whether it was interrupted.\<close>

definition bash_output :: "log_json \<Rightarrow> log_line \<Rightarrow> string \<times> bool" where
  "bash_output J l =
     (if tool_results l \<noteq> 1 then ([], False)
      else case lj_text J (lg_tool_use_result l) of
        Some failure \<Rightarrow> (failure, False)
      | None \<Rightarrow> (case lj_bash J (lg_tool_use_result l) of
          None \<Rightarrow> ([], False)
        | Some (out, err, interrupted) \<Rightarrow> (join_non_empty [out, err], interrupted)))"

text \<open>The exit code of a failed command, and its output without the line that tells it.\<close>

definition exit_code_of :: "string \<Rightarrow> int \<times> string" where
  "exit_code_of output =
     (case find_match exit_code_prefix output of
        None \<Rightarrow> (1, output)
      | Some (text, groups) \<Rightarrow>
          (case atoi (hd groups) of Some code \<Rightarrow> code | None \<Rightarrow> 1, drop (length text) output))"

definition is_commit :: "log_event \<Rightarrow> bool" where
  "is_commit e \<longleftrightarrow> lv_exit_code e = 0 \<and> \<not> lv_interrupted e \<and> match_string git_commit_regexp (lv_detail e)
     \<and> \<not> str_contains (lv_detail e) ''--dry-run''"

definition cmd_done :: "log_json \<Rightarrow> log_line \<Rightarrow> cmd_call \<Rightarrow> string \<Rightarrow> log_event" where
  "cmd_done J l call call_id =
     (let block = answering_block l call_id;
          (output, interrupted) = bash_output J l;
          output = (if output = [] then result_text J block else output);
          (code, output) = (if cb_is_error block then exit_code_of output else (0, output));
          elapsed = (if lg_timestamp l \<noteq> 0 \<and> cc_at call \<noteq> 0 then max 0 (lg_timestamp l - cc_at call) else 0);
          (shown, lines) = bound_output (trim_right_bytes [newline] output);
          e = (blank_event Cmd)\<lparr>lv_tool := ''Bash'', lv_detail := cc_command call, lv_call_id := call_id, lv_done := True,
                lv_interrupted := interrupted, lv_exit_code := code, lv_elapsed := elapsed, lv_output := shown,
                lv_output_lines := lines\<rparr>
      in if is_commit e
         then e\<lparr>lv_kind := Commit, lv_detail := commit_message (cc_command call), lv_output := [], lv_output_lines := 0\<rparr>
         else e)"

definition feed_event :: "log_json \<Rightarrow> log_line \<Rightarrow> log_event \<Rightarrow> log_event list \<times> tail \<Rightarrow> log_event list \<times> tail" where
  "feed_event J l e = (\<lambda>(done, t).
     if lv_kind e = Cmd
     then (done @ [e], t\<lparr>ta_cmd_calls :=
             put (lv_call_id e) \<lparr>cc_command = lv_detail e, cc_at = lg_timestamp l\<rparr> (ta_cmd_calls t)\<rparr>)
     else if lv_kind e = Pass \<or> lv_kind e = Fail
     then (case map_of (ta_cmd_calls t) (lv_call_id e) of
             Some call \<Rightarrow> (done @ [cmd_done J l call (lv_call_id e)],
               t\<lparr>ta_cmd_calls := del_key (lv_call_id e) (ta_cmd_calls t)\<rparr>)
           | None \<Rightarrow> (done @ [e], t))
     else (done @ [e], t))"

text \<open>The result of a skill call is not shown.\<close>

definition keep_event :: "log_event \<Rightarrow> log_event list \<times> tail \<Rightarrow> log_event list \<times> tail" where
  "keep_event e = (\<lambda>(kept, t).
     let t = (if lv_kind e = Skill \<and> lv_call_id e \<noteq> [] then t\<lparr>ta_skill_calls := lv_call_id e # ta_skill_calls t\<rparr> else t)
     in (if lv_kind e = Pass \<and> lv_call_id e \<in> set (ta_skill_calls t) then kept else kept @ [e], t))"

definition tail_keep :: "log_event list \<Rightarrow> tail \<Rightarrow> log_event list \<times> tail" where
  "tail_keep es t = fold keep_event es ([], t)"

definition tail_feed :: "log_json \<Rightarrow> log_line \<Rightarrow> tail \<Rightarrow> log_event list \<times> tail" where
  "tail_feed J l t = (case fold (feed_event J l) (line_events J l) ([], t) of (es, t) \<Rightarrow> tail_keep es t)"

definition tail_read :: "log_json \<Rightarrow> string \<Rightarrow> tail \<Rightarrow> log_event list \<times> tail" where
  "tail_read J line t = (case lj_line J line of None \<Rightarrow> ([], t) | Some l \<Rightarrow> tail_feed J l t)"

subsection \<open>\<open>parse.go\<close>: phases\<close>

record phase =
  ps_skill :: string
  ps_note :: string
  ps_at :: duration
  ps_events :: "log_event list"
  ps_turns :: int
  ps_spend :: float64

definition new_phase :: "string \<Rightarrow> string \<Rightarrow> duration \<Rightarrow> phase" where
  "new_phase skill note at = \<lparr>ps_skill = skill, ps_note = note, ps_at = at, ps_events = [], ps_turns = 0,
     ps_spend = float_zero\<rparr>"

record log_result =
  lr_outcome :: string
  lr_duration :: duration
  lr_turns :: int
  lr_cost_usd :: float64

record log_run =
  rg_phases :: "phase list"
  rg_result :: "log_result option"
  rg_lines :: nat
  rg_start :: time
  rg_end :: duration

definition line_result :: "log_line \<Rightarrow> log_result" where
  "line_result l = \<lparr>lr_outcome = lg_subtype l, lr_duration = lg_duration_ms l * millisecond, lr_turns = lg_num_turns l,
     lr_cost_usd = (case lg_cost_usd l of Some c \<Rightarrow> c | None \<Rightarrow> float_zero)\<rparr>"

definition add_event :: "log_event \<Rightarrow> phase \<Rightarrow> phase" where
  "add_event e p = p\<lparr>ps_events := ps_events p @ [e]\<rparr>"

text \<open>A skill begins a phase; any other event joins the last, and the first of them a phase without a skill.\<close>

definition run_append :: "log_event \<Rightarrow> phase list \<Rightarrow> phase list" where
  "run_append e ps =
     (if lv_kind e = Skill then ps @ [new_phase (lv_tool e) (lv_detail e) (lv_at e)]
      else let ps = (if ps = [] then [new_phase [] [] 0] else ps)
           in ps[length ps - 1 := add_event e (ps ! (length ps - 1))])"

text \<open>The answer takes the place of the command it answers, at its time.\<close>

definition answer_cmd :: "log_event \<Rightarrow> phase \<Rightarrow> phase option" where
  "answer_cmd e p =
     (case index_where (\<lambda>c. lv_kind c = Cmd \<and> \<not> lv_done c \<and> lv_call_id c = lv_call_id e) (ps_events p) of
        None \<Rightarrow> None
      | Some i \<Rightarrow> Some (p\<lparr>ps_events := (ps_events p)[i := e\<lparr>lv_at := lv_at (ps_events p ! i)\<rparr>]\<rparr>))"

record phase_usage =
  pu_phase :: int
  pu_main :: bool
  pu_usage :: request_usage

record log_parse =
  lp_run :: log_run
  lp_requests :: request_reader
  lp_by_request :: "phase_usage list"
  lp_tail :: tail
  lp_call_phase :: "(string, nat) gomap"

definition new_parse :: log_parse where
  "new_parse = \<lparr>lp_run = \<lparr>rg_phases = [], rg_result = None, rg_lines = 0, rg_start = 0, rg_end = 0\<rparr>,
     lp_requests = new_request_reader, lp_by_request = [], lp_tail = no_tail, lp_call_phase = []\<rparr>"

abbreviation set_run :: "(log_run \<Rightarrow> log_run) \<Rightarrow> log_parse \<Rightarrow> log_parse" where
  "set_run f s \<equiv> s\<lparr>lp_run := f (lp_run s)\<rparr>"

abbreviation set_phases :: "phase list \<Rightarrow> log_parse \<Rightarrow> log_parse" where
  "set_phases ps \<equiv> set_run (\<lambda>r. r\<lparr>rg_phases := ps\<rparr>)"

text \<open>The time of an event since the first, for lines that have one.\<close>

definition time_event :: "log_line \<Rightarrow> log_event \<Rightarrow> log_parse \<Rightarrow> log_event \<times> log_parse" where
  "time_event l e s =
     (if lg_timestamp l = 0 then (e, s)
      else
        let base = (if rg_start (lp_run s) = 0 then lg_timestamp l else rg_start (lp_run s));
            e = e\<lparr>lv_at := lg_timestamp l - base\<rparr>
        in (e, set_run (\<lambda>r. r\<lparr>rg_start := base, rg_end := max (rg_end r) (lv_at e)\<rparr>) s))"

text \<open>The phases with the command of a call answered, if it is in the phase that called or, unknown, in the last.\<close>

definition answered_phases :: "log_event \<Rightarrow> log_parse \<Rightarrow> phase list option" where
  "answered_phases e s =
     (let ps = rg_phases (lp_run s);
          i = (case map_of (lp_call_phase s) (lv_call_id e) of Some i \<Rightarrow> int i | None \<Rightarrow> int (length ps) - 1)
      in if lv_done e \<and> (lv_kind e = Cmd \<or> lv_kind e = Commit) \<and> 0 \<le> i
         then (case answer_cmd e (ps ! nat i) of None \<Rightarrow> None | Some p \<Rightarrow> Some (ps[nat i := p]))
         else None)"

definition place_event :: "log_event \<Rightarrow> log_parse \<Rightarrow> log_parse" where
  "place_event e s =
     (case answered_phases e s of
        Some ps \<Rightarrow> set_phases ps s
      | None \<Rightarrow>
          let ps = rg_phases (lp_run s)
          in case (if lv_kind e = Pass \<or> lv_kind e = Fail then map_of (lp_call_phase s) (lv_call_id e) else None) of
               Some i \<Rightarrow> set_phases (ps[i := add_event e (ps ! i)]) s
             | None \<Rightarrow>
                 let s = set_phases (run_append e ps) s
                 in if lv_call_id e \<noteq> [] \<and> lv_kind e \<noteq> Skill
                    then s\<lparr>lp_call_phase := put (lv_call_id e) (length (rg_phases (lp_run s)) - 1) (lp_call_phase s)\<rparr>
                    else s)"

definition parse_event :: "log_line \<Rightarrow> log_event \<Rightarrow> log_parse \<Rightarrow> log_parse" where
  "parse_event l e s = (case time_event l e s of (e, s) \<Rightarrow> place_event e s)"

definition no_usage :: usage where
  "no_usage = \<lparr>ug_input = 0, ug_cache_create = 0, ug_cache_read = 0, ug_output = 0\<rparr>"

text \<open>A request counts once, in the phase it was first seen in; its usage is the last a line of it told.\<close>

definition seen_request :: "nat \<Rightarrow> bool \<Rightarrow> bool \<Rightarrow> int \<Rightarrow> phase_usage list \<Rightarrow> phase_usage list" where
  "seen_request i first main here us =
     (if first then us @ [\<lparr>pu_phase = here, pu_main = main, pu_usage = request_usage_of [] 0 no_usage\<rparr>]
      else if pu_phase (us ! i) < 0 then us[i := (us ! i)\<lparr>pu_phase := here\<rparr>]
      else us)"

definition used_request :: "nat \<Rightarrow> log_line \<Rightarrow> phase_usage list \<Rightarrow> phase_usage list" where
  "used_request i l us =
     (if lg_message_usage l \<noteq> no_usage
      then us[i := (us ! i)\<lparr>pu_usage := request_usage_of (lg_model l) (lg_timestamp l) (lg_message_usage l)\<rparr>]
      else us)"

definition count_request :: "log_line \<Rightarrow> log_parse \<Rightarrow> log_parse" where
  "count_request l s =
     (if lg_type l = ''assistant'' \<and> lg_request_id l \<noteq> [] then
        (case reader_add l (lp_requests s) of
          ((i, first), requests) \<Rightarrow>
            s\<lparr>lp_requests := requests,
              lp_by_request := used_request i l (seen_request i first (lg_parent_tool_use_id l = [])
                (int (length (rg_phases (lp_run s))) - 1) (lp_by_request s))\<rparr>)
      else s)"

definition parse_step :: "log_json \<Rightarrow> string \<Rightarrow> log_parse \<Rightarrow> log_parse" where
  "parse_step J line s =
     (let s = set_run (\<lambda>r. r\<lparr>rg_lines := rg_lines r + 1\<rparr>) s
      in case lj_line J line of
           None \<Rightarrow> s
         | Some l \<Rightarrow>
             if lg_type l = ''result'' then set_run (\<lambda>r. r\<lparr>rg_result := Some (line_result l)\<rparr>) s
             else (case tail_feed J l (lp_tail s) of
                 (es, t) \<Rightarrow> count_request l (fold (parse_event l) es (s\<lparr>lp_tail := t\<rparr>))))"

definition charge :: "arithmetic \<Rightarrow> phase_usage \<Rightarrow> phase list \<Rightarrow> phase list" where
  "charge A u ps =
     (if ps = [] then ps
      else let i = nat (max 0 (pu_phase u)); p = ps ! i
           in ps[i := p\<lparr>ps_turns := (if pu_main u then ps_turns p + 1 else ps_turns p),
                        ps_spend := ar_add A (ps_spend p) (usage_weight A (pu_usage u))\<rparr>])"

definition finish_parse :: "arithmetic \<Rightarrow> log_parse \<Rightarrow> log_run" where
  "finish_parse A s = (lp_run s)\<lparr>rg_phases := fold (charge A) (lp_by_request s) (rg_phases (lp_run s))\<rparr>"

text \<open>The parse of what a reader gave before its end, or before an error.\<close>

definition parse_log :: "log_json \<Rightarrow> arithmetic \<Rightarrow> string \<times> io_error option \<Rightarrow> log_run \<times> io_error option" where
  "parse_log J A = (\<lambda>(text, e).
     (finish_parse A (fold (parse_step J) (complete_lines text) new_parse),
      case e of None \<Rightarrow> None | Some err \<Rightarrow> Some (Wrapped ''read agent log'' (Wrapped ''read log line'' err))))"

subsection \<open>The rows of an edit\<close>

lemma common_take: "take (common xs ys) xs = take (common xs ys) ys"
  by (induction xs ys rule: common.induct) auto

lemma common_le: "common xs ys \<le> length xs \<and> common xs ys \<le> length ys"
  by (induction xs ys rule: common.induct) auto

lemma common_stops: "common xs ys < length xs \<Longrightarrow> common xs ys < length ys \<Longrightarrow> xs ! common xs ys \<noteq> ys ! common xs ys"
  by (induction xs ys rule: common.induct) auto

text \<open>Cut at their common start and end, two lists differ only in between, from the first element and to the last.\<close>

definition same_ends :: "'a list \<Rightarrow> 'a list \<Rightarrow> nat \<times> nat" where
  "same_ends xs ys = (let p = common xs ys in (p, common (rev (drop p xs)) (rev (drop p ys))))"

lemma same_ends_cut:
  assumes "same_ends xs ys = (p, s)"
  shows "xs = take p xs @ drop p (take (length xs - s) xs) @ drop (length xs - s) xs"
    and "ys = take p xs @ drop p (take (length ys - s) ys) @ drop (length xs - s) xs"
    and "p + s \<le> length xs" and "p + s \<le> length ys"
proof -
  have p: "p = common xs ys" and s: "s = common (rev (drop p xs)) (rev (drop p ys))"
    using assms by (auto simp: same_ends_def Let_def)
  have "p \<le> length xs \<and> p \<le> length ys" unfolding p by (rule common_le)
  moreover have "s \<le> length xs - p \<and> s \<le> length ys - p"
    unfolding s using common_le [of "rev (drop p xs)" "rev (drop p ys)"] by simp
  ultimately show px: "p + s \<le> length xs" and py: "p + s \<le> length ys" by auto
  have cut: "zs = take p zs @ drop p (take (length zs - s) zs) @ drop (length zs - s) zs" if "p + s \<le> length zs" for zs :: "'a list"
  proof -
    have "p \<le> length zs - s" using that by simp
    then have "take p (take (length zs - s) zs) = take p zs" by (simp add: min_def)
    then have "take p zs @ drop p (take (length zs - s) zs) = take (length zs - s) zs" by (metis append_take_drop_id)
    then show ?thesis by (metis append_assoc append_take_drop_id)
  qed
  show "xs = take p xs @ drop p (take (length xs - s) xs) @ drop (length xs - s) xs" by (rule cut [OF px])
  have pre: "take p xs = take p ys" using common_take p by metis
  have "take s (rev (drop p xs)) = take s (rev (drop p ys))" using common_take s by metis
  then have "drop (length (drop p xs) - s) (drop p xs) = drop (length (drop p ys) - s) (drop p ys)"
    by (simp add: take_rev)
  with px py have post: "drop (length xs - s) xs = drop (length ys - s) ys" by simp
  show "ys = take p xs @ drop p (take (length ys - s) ys) @ drop (length xs - s) xs"
    using cut [OF py] by (simp only: pre post)
qed

lemma same_ends_differ:
  assumes "same_ends xs ys = (p, s)" and "removed = drop p (take (length xs - s) xs)" and "removed \<noteq> []"
    and "added = drop p (take (length ys - s) ys)" and "added \<noteq> []"
  shows "hd removed \<noteq> hd added \<and> last removed \<noteq> last added"
proof
  have p: "p = common xs ys" and s: "s = common (rev (drop p xs)) (rev (drop p ys))"
    using assms(1) by (auto simp: same_ends_def Let_def)
  from assms have less: "p + s < length xs" "p + s < length ys" by auto
  have "xs ! p \<noteq> ys ! p" using common_stops [of xs ys] less p by simp
  with assms less show "hd removed \<noteq> hd added" by (simp add: hd_drop_conv_nth)
  have "rev (drop p xs) ! s \<noteq> rev (drop p ys) ! s"
    using common_stops [of "rev (drop p xs)" "rev (drop p ys)"] less s by simp
  moreover have "last (drop p (take (length zs - s) zs)) = rev (drop p zs) ! s" if "p + s < length zs" for zs :: "'a list"
    using that by (simp add: last_conv_nth rev_nth algebra_simps)
  ultimately show "last removed \<noteq> last added" using assms less by simp
qed

abbreviation rows_of :: "diff_op \<Rightarrow> string list \<Rightarrow> diff_line list" where
  "rows_of op \<equiv> map (\<lambda>l. \<lparr>dl_op = op, dl_text = l\<rparr>)"

text \<open>
  The diff of an edit is a common start, a removed and an added middle and a common end of the two texts. It shows the middles
  between at most two lines of each end, cut at the limit, and counts them; no line both middles share at an end is in them.
\<close>

theorem line_diff_sound:
  assumes "was \<noteq> became"
  shows "\<exists>pre removed added post.
    split_char newline was = pre @ removed @ post \<and> split_char newline became = pre @ added @ post
    \<and> line_diff was became =
        \<lparr>df_lines = cut_rows (rows_of Keep (drop (length pre - 2) pre) @ rows_of Remove removed @ rows_of Add added
            @ rows_of Keep (take 2 post)),
          df_added = int (length added), df_removed = int (length removed)\<rparr>
    \<and> (removed = [] \<or> added = [] \<or> hd removed \<noteq> hd added \<and> last removed \<noteq> last added)"
proof -
  let ?old = "split_char newline was" and ?new = "split_char newline became"
  obtain p s where ends: "same_ends ?old ?new = (p, s)" by force
  then have p: "p = common ?old ?new" and s: "s = common (rev (drop p ?old)) (rev (drop p ?new))"
    by (auto simp: same_ends_def Let_def)
  note cut = same_ends_cut [OF ends]
  let ?removed = "drop p (take (length ?old - s) ?old)" and ?added = "drop p (take (length ?new - s) ?new)"
  from cut have len: "length (take p ?old) = p" by simp
  have "line_diff was became =
     \<lparr>df_lines = cut_rows (rows_of Keep (drop (length (take p ?old) - 2) (take p ?old)) @ rows_of Remove ?removed
         @ rows_of Add ?added @ rows_of Keep (take 2 (drop (length ?old - s) ?old))),
       df_added = int (length ?added), df_removed = int (length ?removed)\<rparr>"
    unfolding line_diff_def len using assms by (simp add: Let_def append_rows_def diff_context_def p [symmetric] s [symmetric])
  moreover have "?removed = [] \<or> ?added = [] \<or> hd ?removed \<noteq> hd ?added \<and> last ?removed \<noteq> last ?added"
    using same_ends_differ [OF ends] by blast
  ultimately show ?thesis using cut(1,2) by blast
qed

theorem line_diff_sound_witness:
  "\<exists>pre removed added post.
    split_char newline ''a'' = pre @ removed @ post \<and> split_char newline ''b'' = pre @ added @ post
    \<and> line_diff ''a'' ''b'' =
        \<lparr>df_lines = cut_rows (rows_of Keep (drop (length pre - 2) pre) @ rows_of Remove removed @ rows_of Add added
            @ rows_of Keep (take 2 post)),
          df_added = int (length added), df_removed = int (length removed)\<rparr>
    \<and> (removed = [] \<or> added = [] \<or> hd removed \<noteq> hd added \<and> last removed \<noteq> last added)"
  by (rule line_diff_sound) simp

subsection \<open>The turns of a session\<close>

lemma event_keeps_requests: "lp_requests (parse_event l e s) = lp_requests s \<and> lp_by_request (parse_event l e s) = lp_by_request s"
  by (simp add: parse_event_def time_event_def place_event_def Let_def split: option.split prod.split)

lemma events_keep_requests:
  "lp_requests (fold (parse_event l) es s) = lp_requests s \<and> lp_by_request (fold (parse_event l) es s) = lp_by_request s"
  by (induction es arbitrary: s) (simp_all add: event_keeps_requests)

text \<open>Before the requests are charged no phase has a turn, and every request names a phase there is.\<close>

definition uncharged :: "phase list \<Rightarrow> bool" where
  "uncharged ps \<longleftrightarrow> (\<forall>p \<in> set ps. ps_turns p = 0)"

lemma uncharged_update: "uncharged ps \<Longrightarrow> ps_turns p = 0 \<Longrightarrow> uncharged (ps[i := p])"
  using set_update_subset_insert [of ps i p] by (auto simp: uncharged_def)

lemma uncharged_nth: "uncharged ps \<Longrightarrow> i < length ps \<Longrightarrow> ps_turns (ps ! i) = 0"
  by (simp add: uncharged_def)

lemma update_uncharged: "uncharged ps \<Longrightarrow> ps_turns p = ps_turns (ps ! i) \<Longrightarrow> uncharged (ps[i := p])"
  by (cases "i < length ps") (simp_all add: uncharged_update uncharged_nth list_update_beyond)

definition grows :: "phase list \<Rightarrow> phase list \<Rightarrow> bool" where
  "grows ps ps' \<longleftrightarrow> (uncharged ps \<longrightarrow> uncharged ps') \<and> length ps \<le> length ps'"

lemma grows_refl: "grows ps ps" by (simp add: grows_def)

lemma grows_trans: "grows a b \<Longrightarrow> grows b c \<Longrightarrow> grows a c" by (auto simp: grows_def)

lemma update_grows: "ps_turns p = ps_turns (ps ! i) \<Longrightarrow> grows ps (ps[i := p])"
  by (simp add: grows_def update_uncharged)

lemma append_grows: "ps_turns p = 0 \<Longrightarrow> grows ps (ps @ [p])"
  by (auto simp: grows_def uncharged_def)

lemma run_append_grows: "grows ps (run_append e ps)"
proof (cases "lv_kind e = Skill")
  case True
  then show ?thesis by (simp add: run_append_def append_grows new_phase_def)
next
  case False
  let ?ps = "if ps = [] then [new_phase [] [] 0] else ps"
  have "grows ps ?ps" using append_grows [of "new_phase [] [] 0" "[]"] by (simp add: grows_refl new_phase_def)
  moreover have "grows ?ps (?ps[length ?ps - 1 := add_event e (?ps ! (length ?ps - 1))])"
    by (rule update_grows) (simp add: add_event_def)
  ultimately show ?thesis using False by (auto simp: run_append_def Let_def intro: grows_trans)
qed

lemma answered_grows: "answered_phases e s = Some ps \<Longrightarrow> grows (rg_phases (lp_run s)) ps"
  by (auto simp: answered_phases_def answer_cmd_def Let_def intro!: update_grows split: if_splits option.splits)

lemma place_grows: "grows (rg_phases (lp_run s)) (rg_phases (lp_run (place_event e s)))"
  by (auto simp: place_event_def Let_def answered_grows run_append_grows intro!: update_grows
      simp: add_event_def split: option.split)

lemma events_grow: "grows (rg_phases (lp_run s)) (rg_phases (lp_run (fold (parse_event l) es s)))"
proof (induction es arbitrary: s)
  case (Cons e es)
  have "rg_phases (lp_run (snd (time_event l e s))) = rg_phases (lp_run s)" by (simp add: time_event_def Let_def)
  then have "grows (rg_phases (lp_run s)) (rg_phases (lp_run (parse_event l e s)))"
    using place_grows [of "snd (time_event l e s)" "fst (time_event l e s)"] by (simp add: parse_event_def case_prod_beta)
  with Cons show ?case by (auto intro: grows_trans)
qed (simp add: grows_refl)

definition placed :: "log_parse \<Rightarrow> bool" where
  "placed s \<longleftrightarrow> uncharged (rg_phases (lp_run s))
     \<and> (\<forall>u \<in> set (lp_by_request s). pu_phase u < int (length (rg_phases (lp_run s))))"

abbreviation mains :: "phase_usage list \<Rightarrow> nat" where
  "mains us \<equiv> length (filter pu_main us)"

lemma mains_map: "mains us = length (filter id (map pu_main us))"
  by (simp add: filter_map comp_def)

text \<open>A line counts a request where the metrics of the run do.\<close>

lemma map_update_same: "f (g (us ! i)) = f (us ! i) \<Longrightarrow> map f (us[i := g (us ! i)]) = map f us"
  by (cases "i < length us") (simp_all add: map_update list_update_beyond list_update_same_conv)

lemma seen_request_mains: "map pu_main (seen_request i first main here us) = map pu_main us @ (if first then [main] else [])"
  by (simp add: seen_request_def map_update_same [of pu_main "\<lambda>u. u\<lparr>pu_phase := here\<rparr>"])

lemma used_request_mains: "map pu_main (used_request i l us) = map pu_main us"
  unfolding used_request_def
  by (simp add: map_update_same [of pu_main "\<lambda>u. u\<lparr>pu_usage := request_usage_of (lg_model l) (lg_timestamp l) (lg_message_usage l)\<rparr>"])

lemma used_mains: "mains (used_request i l us) = mains us"
  by (simp only: mains_map used_request_mains)

lemma seen_mains: "mains (seen_request i first main here us) = mains us + (if first \<and> main then 1 else 0)"
  unfolding mains_map seen_request_mains by simp

lemma count_request_mains:
  "mains (lp_by_request (count_request l s)) = mains (lp_by_request s)
     + (if snd (fst (reader_add l (lp_requests s))) \<and> lg_parent_tool_use_id l = [] then 1 else 0)
   \<and> lp_requests (count_request l s) = snd (reader_add l (lp_requests s))"
proof (cases "lg_type l = ''assistant'' \<and> lg_request_id l \<noteq> []")
  case True
  then show ?thesis
    by (simp add: count_request_def seen_mains used_mains split: prod.split)
next
  case False
  then have "reader_add l (lp_requests s) = ((0, False), lp_requests s)" by (auto simp: reader_add_def)
  moreover from False have "count_request l s = s" by (simp only: count_request_def if_False)
  ultimately show ?thesis by simp
qed

lemma by_request_keeps_phases: "lp_run (count_request l s) = lp_run s"
  by (simp add: count_request_def split: prod.split)

lemma update_nth_below:
  assumes "\<forall>u \<in> set us. pu_phase u < n" and "\<And>u. pu_phase u < n \<Longrightarrow> pu_phase (f u) < n"
  shows "\<forall>u \<in> set (us[i := f (us ! i)]). pu_phase u < n"
proof (cases "i < length us")
  case True
  then have "pu_phase (f (us ! i)) < n" using assms by simp
  then show ?thesis using assms(1) set_update_subset_insert [of us i "f (us ! i)"] by auto
qed (simp add: assms(1) list_update_beyond)

lemma count_request_placed: "placed s \<Longrightarrow> placed (count_request l s)"
proof -
  assume s: "placed s"
  let ?n = "int (length (rg_phases (lp_run s)))"
  have used: "\<forall>u \<in> set (used_request i l us). pu_phase u < ?n" if "\<forall>u \<in> set us. pu_phase u < ?n" for us i
    using update_nth_below [OF that, of
      "\<lambda>u. u\<lparr>pu_usage := request_usage_of (lg_model l) (lg_timestamp l) (lg_message_usage l)\<rparr>" i] that
    by (simp add: used_request_def)
  have "\<forall>u \<in> set (seen_request i first main (?n - 1) us). pu_phase u < ?n" if "\<forall>u \<in> set us. pu_phase u < ?n" for us i first main
    using update_nth_below [OF that, of "\<lambda>u. u\<lparr>pu_phase := ?n - 1\<rparr>" i] that by (auto simp: seen_request_def)
  note seen = this
  obtain i first requests where "reader_add l (lp_requests s) = ((i, first), requests)" by (metis prod.exhaust)
  then have "lp_by_request (count_request l s) = (if lg_type l = ''assistant'' \<and> lg_request_id l \<noteq> []
      then used_request i l (seen_request i first (lg_parent_tool_use_id l = []) (?n - 1) (lp_by_request s))
      else lp_by_request s)" by (simp only: count_request_def) simp
  moreover from s have us: "\<forall>u \<in> set (lp_by_request s). pu_phase u < ?n" by (simp add: placed_def)
  ultimately have "\<forall>u \<in> set (lp_by_request (count_request l s)). pu_phase u < ?n"
    using used [OF seen [OF us]] by presburger
  with s show ?thesis by (simp add: placed_def by_request_keeps_phases)
qed

lemma parse_step_placed: "placed s \<Longrightarrow> placed (parse_step J line s)"
proof -
  assume s: "placed s"
  have grow: "placed t" if "lp_by_request t = lp_by_request s" and "grows (rg_phases (lp_run s)) (rg_phases (lp_run t))" for t
    using s that by (fastforce simp: placed_def grows_def)
  let ?s = "set_run (\<lambda>r. r\<lparr>rg_lines := rg_lines r + 1\<rparr>) s"
  have "placed (fold (parse_event l) es (?s\<lparr>lp_tail := t\<rparr>))" for l es t
    using events_grow [of "?s\<lparr>lp_tail := t\<rparr>" l es] by (intro grow) (simp_all add: events_keep_requests)
  moreover have "placed ?s" and "placed (set_run (\<lambda>r. r\<lparr>rg_result := x\<rparr>) ?s)" for x
    by (rule grow; simp add: grows_refl)+
  ultimately show ?thesis by (simp add: parse_step_def Let_def count_request_placed split: option.split prod.split)
qed

lemma parse_steps_placed: "placed s \<Longrightarrow> placed (fold (parse_step J) lines s)"
  by (induction lines arbitrary: s) (simp_all add: parse_step_placed)

lemma parse_steps_mains:
  "rx_turns (snd (snd (metrics_loop (stamped_lines (lj_line J) at lines) model (lp_requests s) settled m)))
     = rx_turns m + int (mains (lp_by_request (fold (parse_step J) lines s))) - int (mains (lp_by_request s))"
proof (induction lines arbitrary: at model settled m s)
  case (Cons line lines)
  show ?case
  proof (cases "lj_line J line")
    case None
    then have "parse_step J line s = set_run (\<lambda>r. r\<lparr>rg_lines := rg_lines r + 1\<rparr>) s" by (simp add: parse_step_def)
    with None Cons [of at model "set_run (\<lambda>r. r\<lparr>rg_lines := rg_lines r + 1\<rparr>) s" settled m] show ?thesis by simp
  next
    case (Some l)
    show ?thesis
    proof (cases "lg_type l = ''result''")
      case True
      let ?s = "set_run (\<lambda>r. r\<lparr>rg_result := Some (line_result l)\<rparr>) (set_run (\<lambda>r. r\<lparr>rg_lines := rg_lines r + 1\<rparr>) s)"
      from True Some have "parse_step J line s = ?s" by (simp add: parse_step_def Let_def)
      with True Some Cons [of _ _ ?s] show ?thesis by (simp add: Let_def)
    next
      case False
      let ?s = "set_run (\<lambda>r. r\<lparr>rg_lines := rg_lines r + 1\<rparr>) s"
      obtain es t where feed: "tail_feed J l (lp_tail s) = (es, t)" by force
      define s1 where "s1 = fold (parse_event l) es (?s\<lparr>lp_tail := t\<rparr>)"
      obtain i first requests where added: "reader_add l (lp_requests s) = ((i, first), requests)" by (metis prod.exhaust)
      have e: "lp_requests s1 = lp_requests s" "lp_by_request s1 = lp_by_request s" by (simp_all add: s1_def events_keep_requests)
      have step: "parse_step J line s = count_request l s1" using Some False feed by (simp add: parse_step_def Let_def s1_def)
      have requests: "lp_requests (count_request l s1) = requests"
        and mains: "mains (lp_by_request (count_request l s1))
          = mains (lp_by_request s) + (if first \<and> lg_parent_tool_use_id l = [] then 1 else 0)"
        using count_request_mains [of l s1] added by (simp_all only: e fst_conv snd_conv)
      have IH: "rx_turns (snd (snd (metrics_loop (stamped_lines (lj_line J) at' lines) model' requests settled m')))
        = rx_turns m' + int (mains (lp_by_request (fold (parse_step J) lines (count_request l s1))))
          - int (mains (lp_by_request (count_request l s1)))" for at' model' m'
        using Cons [of at' model' "count_request l s1" settled m'] by (simp only: requests)
      show ?thesis using Some False added by (simp add: step Let_def IH mains)
    qed
  qed
qed simp

lemma int_sum_update: "i < length xs \<Longrightarrow> sum_list (xs[i := x]) = sum_list xs + x - xs ! i" for xs :: "int list"
proof (induction xs arbitrary: i)
  case (Cons a xs)
  then show ?case by (cases i) simp_all
qed simp

lemma charge_turns:
  assumes "ps \<noteq> []" and "pu_phase u < int (length ps)"
  shows "sum_list (map ps_turns (charge A u ps)) = sum_list (map ps_turns ps) + (if pu_main u then 1 else 0)
    \<and> length (charge A u ps) = length ps"
proof -
  let ?i = "nat (max 0 (pu_phase u))"
  from assms have i: "?i < length ps" by (cases "ps") auto
  have "map ps_turns (charge A u ps) = (map ps_turns ps)[?i := (if pu_main u then ps_turns (ps ! ?i) + 1 else ps_turns (ps ! ?i))]"
    using assms by (simp add: charge_def Let_def map_update)
  moreover have "length (charge A u ps) = length ps" by (simp add: charge_def Let_def)
  ultimately show ?thesis using i by (simp add: int_sum_update)
qed

lemma charges_turns:
  "ps \<noteq> [] \<Longrightarrow> \<forall>u \<in> set us. pu_phase u < int (length ps)
   \<Longrightarrow> sum_list (map ps_turns (fold (charge A) us ps)) = sum_list (map ps_turns ps) + int (mains us)"
proof (induction us arbitrary: ps)
  case (Cons u us)
  from Cons.prems have "sum_list (map ps_turns (charge A u ps)) = sum_list (map ps_turns ps) + (if pu_main u then 1 else 0)"
    and len: "length (charge A u ps) = length ps" using charge_turns by auto
  moreover have "charge A u ps \<noteq> []" using len Cons.prems by auto
  ultimately show ?case using Cons.IH [of "charge A u ps"] Cons.prems by auto
qed simp

lemma charge_Nil: "fold (charge A) us [] = []"
  by (induction us) (simp_all add: charge_def)

lemma add_requests_turns: "rx_turns (fold add_request rs m) = rx_turns m"
  by (induction rs arbitrary: m) (simp_all add: add_request_def)

lemma total_turns: "rx_turns (total_metrics x) = rx_turns (snd (snd x))"
  by (cases x) (simp add: total_metrics_def Let_def add_requests_turns add_request_def split: option.split)


definition sample_log_line :: log_line where
  "sample_log_line = \<lparr>lg_type = ''assistant'', lg_timestamp = 5, lg_request_id = ''r1'', lg_parent_tool_use_id = [],
     lg_model = ''sonnet'', lg_content = [no_block\<lparr>cb_type := ''tool_use'', cb_name := ''Skill''\<rparr>], lg_message_usage = no_usage,
     lg_tool_use_result = [], lg_subtype = [], lg_result_text = [], lg_duration_ms = 0, lg_num_turns = 0,
     lg_cost_usd = None, lg_usage = no_usage, lg_rate_limits = None\<rparr>"

definition sample_log_json :: log_json where
  "sample_log_json = \<lparr>lj_line = (\<lambda>_. Some sample_log_line), lj_input = (\<lambda>_. None), lj_change = (\<lambda>_. None),
     lj_text = (\<lambda>_. None), lj_bash = (\<lambda>_. None), lj_texts = (\<lambda>_. None)\<rparr>"

definition sample_arithmetic :: arithmetic where
  "sample_arithmetic = \<lparr>ar_add = (\<lambda>x y. x), ar_sub = (\<lambda>x y. x), ar_mul = (\<lambda>x y. x), ar_div = (\<lambda>x y. x),
     ar_sqrt = (\<lambda>x. x), ar_of_int = (\<lambda>_. float_zero), ar_truncate = (\<lambda>_. 0), ar_literal = (\<lambda>_. float_zero)\<rparr>"

lemma sample_phases: "rg_phases (fst (parse_log sample_log_json sample_arithmetic ([newline, newline], None))) \<noteq> []"
  by code_simp


subsection \<open>The output shown\<close>

theorem bound_output_bounded:
  "\<exists>kept tail_note. fst (bound_output whole) = kept @ tail_note \<and> length kept \<le> max_output_bytes
     \<and> (if tail_note = [] then kept = whole else kept \<noteq> whole)
     \<and> snd (bound_output whole) = (if whole = [] then 0 else length (split_char newline whole))"
proof (cases "whole = []")
  case True
  then show ?thesis by (simp add: bound_output_def)
next
  case False
  let ?kept = "join [newline] (take max_output_lines (split_char newline whole))"
  let ?cut = "if length ?kept > max_output_bytes then to_valid_utf8 (take max_output_bytes ?kept) else ?kept"
  have valid: "length (to_valid_utf8 s) \<le> length s" for s
    by (induction s rule: to_valid_utf8.induct) (auto simp: to_valid_utf8.simps(2) split: option.split dest: utf8_len_bounds)
  define kept where "kept = ?cut"
  have "length kept \<le> max_output_bytes"
    using valid [of "take max_output_bytes ?kept"] by (simp add: kept_def)
  moreover obtain tail_note where "bound_output whole = (kept @ tail_note, length (split_char newline whole))"
    and "if tail_note = [] then kept = whole else kept \<noteq> whole"
    unfolding bound_output_def Let_def kept_def [symmetric] using False by (cases "kept = whole") auto
  ultimately show ?thesis using False by (intro exI [of _ kept] exI [of _ tail_note]) simp
qed
end
