(* ===== verification/Go_Formats.thy ===== *)
theory Go_Formats imports Agent_Log begin

text \<open>
  What the pages use of packages \<open>net/url\<close>, \<open>time\<close> and \<open>fmt\<close>: escaping of a path segment and of a query, the encoding
  of a query, the text of a duration, and a number padded to two digits.
\<close>

subsection \<open>\<open>net/url\<close>\<close>

definition unreserved :: "char \<Rightarrow> bool" where
  "unreserved c \<longleftrightarrow> (let n = of_char c :: nat in
     97 \<le> n \<and> n \<le> 122 \<or> 65 \<le> n \<and> n \<le> 90 \<or> 48 \<le> n \<and> n \<le> 57) \<or> c \<in> set ''-_.~''"

definition upper_hex :: "nat \<Rightarrow> char" where
  "upper_hex d = (if d < 10 then char_of (48 + d) else char_of (55 + d))"

definition percent :: "char \<Rightarrow> string" where
  "percent c = (let n = of_char c in [CHR ''%'', upper_hex (n div 16), upper_hex (n mod 16)])"

definition path_escape :: "string \<Rightarrow> string" where
  "path_escape s = concat (map (\<lambda>c. if unreserved c \<or> c \<in> set ''$&+:=@'' then [c] else percent c) s)"

definition query_escape :: "string \<Rightarrow> string" where
  "query_escape s = concat (map (\<lambda>c. if unreserved c then [c] else if c = CHR '' '' then ''+'' else percent c) s)"

text \<open>\<open>Values.Encode\<close>, on a map that has one value for every key.\<close>

definition encode_query :: "(string, string) gomap \<Rightarrow> string" where
  "encode_query q = join ''&''
     (map (\<lambda>(k, v). query_escape k @ ''='' @ query_escape v) (sort_func (\<lambda>a b. str_compare (fst a) (fst b)) q))"

subsection \<open>\<open>time\<close>\<close>

definition minute :: duration where "minute = 60 * second"
definition hour :: duration where "hour = 60 * minute"

text \<open>Integer division and its rest, toward zero.\<close>

definition quot_of :: "int \<Rightarrow> int \<Rightarrow> int" where
  "quot_of a b = (if a < 0 then - (- a div b) else a div b)"

definition rest_of :: "int \<Rightarrow> int \<Rightarrow> int" where
  "rest_of a b = a - b * quot_of a b"

definition pad_zeros :: "nat \<Rightarrow> string \<Rightarrow> string" where
  "pad_zeros n s = replicate (n - length s) (CHR ''0'') @ s"

text \<open>The verb \<open>%02d\<close>; a sign counts for the width.\<close>

definition two_digits :: "int \<Rightarrow> string" where
  "two_digits n = (if n < 0 then itoa n else pad_zeros 2 (itoa n))"

text \<open>The digits after the point, without the zeros they end with.\<close>

definition fraction_text :: "nat \<Rightarrow> int \<Rightarrow> string" where
  "fraction_text prec v =
     (let ds = trim_right_bytes [CHR ''0''] (pad_zeros prec (itoa (v mod 10 ^ prec))) in if ds = [] then [] else ''.'' @ ds)"

definition micro_sign :: string where
  "micro_sign = [char_of (0xC2::nat), char_of (0xB5::nat)]"

definition abs_duration_string :: "duration \<Rightarrow> string" where
  "abs_duration_string u =
     (if u = 0 then ''0s''
      else if u < 1000 then itoa u @ ''ns''
      else if u < 1000000 then itoa (u div 1000) @ fraction_text 3 u @ micro_sign @ ''s''
      else if u < second then itoa (u div 1000000) @ fraction_text 6 u @ ''ms''
      else
        let s = u div second; m = s div 60; h = m div 60; secs = itoa (s mod 60) @ fraction_text 9 u @ ''s''
        in (if h > 0 then itoa h @ ''h'' else []) @ (if m > 0 then itoa (m mod 60) @ ''m'' else []) @ secs)"

definition duration_string :: "duration \<Rightarrow> string" where
  "duration_string d = (if d < 0 then ''-'' @ abs_duration_string (- d) else abs_duration_string d)"

text \<open>\<open>Format(time.RFC3339)\<close> in UTC, of a time in nanoseconds from the first of January of the year 1.\<close>

definition civil_date :: "int \<Rightarrow> int \<times> int \<times> int" where
  "civil_date days =
     (let z = days + 306; era = z div 146097; doe = z mod 146097;
          yoe = (doe - doe div 1460 + doe div 36524 - doe div 146096) div 365;
          doy = doe - (365 * yoe + yoe div 4 - yoe div 100);
          mp = (5 * doy + 2) div 153;
          month = (if mp < 10 then mp + 3 else mp - 9)
      in (yoe + era * 400 + (if month \<le> 2 then 1 else 0), month, doy - (153 * mp + 2) div 5 + 1))"

definition rfc3339 :: "time \<Rightarrow> string" where
  "rfc3339 t =
     (let secs = t div second; days = secs div 86400; s = secs mod 86400; (y, m, d) = civil_date days
      in pad_zeros 4 (itoa y) @ ''-'' @ two_digits m @ ''-'' @ two_digits d @ ''T'' @ two_digits (s div 3600) @ '':''
         @ two_digits (s div 60 mod 60) @ '':'' @ two_digits (s mod 60) @ ''Z'')"

end
