(* ===== verification/View_Log.thy ===== *)
theory View_Log imports Log_Events Go_Formats Store_Runs begin

text \<open>
  What the session page shows of a log: \<open>internal/web/view/{vocab,logline,logview,logreadout}.go\<close>. A line of the page
  is made of an event, a group of tool calls of the calls between two messages and their answers, and a detail of the
  phases of the log with the records of the store merged in.
\<close>

subsection \<open>\<open>vocab.go\<close>: filters\<close>

datatype log_filter = LogFilterUnknown | LogAll | LogSkills | LogTools | LogFails

fun log_filter_text :: "log_filter \<Rightarrow> string" where
  "log_filter_text LogFilterUnknown = []"
| "log_filter_text LogAll = ''all''"
| "log_filter_text LogSkills = ''skills''"
| "log_filter_text LogTools = ''tools''"
| "log_filter_text LogFails = ''fails''"

definition all_log_filters :: "log_filter list" where
  "all_log_filters = [LogAll, LogSkills, LogTools, LogFails]"

definition parse_log_filter :: "string \<Rightarrow> log_filter" where
  "parse_log_filter s = (case find (\<lambda>f. log_filter_text f = s) all_log_filters of Some f \<Rightarrow> f | None \<Rightarrow> LogAll)"

text \<open>\<open>Check\<close> of \<open>board.go\<close>.\<close>

record check =
  ck_name :: string
  ck_status :: string
  ck_conclusion :: string
  ck_details_url :: string
  ck_elapsed :: string

subsection \<open>\<open>logline.go\<close>: prose\<close>

record prose_span =
  sp_text :: string
  sp_code :: bool
  sp_strong :: bool

record prose_block =
  pb_list :: bool
  pb_items :: "prose_span list list"

definition plain_span :: "string \<Rightarrow> prose_span" where
  "plain_span s = \<lparr>sp_text = s, sp_code = False, sp_strong = False\<rparr>"

definition back_tick :: char where "back_tick = char_of (96::nat)"

definition next_delimiter :: "string \<Rightarrow> (nat \<times> string) option" where
  "next_delimiter s =
     (case (str_index s [back_tick], str_index s ''**'') of
        (None, None) \<Rightarrow> None
      | (Some tick, None) \<Rightarrow> Some (tick, [back_tick])
      | (None, Some bold) \<Rightarrow> Some (bold, ''**'')
      | (Some tick, Some bold) \<Rightarrow> if tick < bold then Some (tick, [back_tick]) else Some (bold, ''**''))"

lemma next_delimiter_index: "next_delimiter s = Some (at, delim) \<Longrightarrow> str_index s delim = Some at \<and> delim \<noteq> []"
  by (auto simp: next_delimiter_def split: option.splits if_splits)

function spans :: "string \<Rightarrow> prose_span list" where
  "spans s =
     (if s = [] then []
      else case next_delimiter s of
        None \<Rightarrow> [plain_span s]
      | Some (at, delim) \<Rightarrow>
          let rest = drop (at + length delim) s
          in case str_index rest delim of
               None \<Rightarrow> plain_span (take (at + length delim) s) # spans rest
             | Some stop \<Rightarrow>
                 if stop = 0 then plain_span (take (at + length delim) s) # spans rest
                 else (if at > 0 then [plain_span (take at s)] else []) @
                   \<lparr>sp_text = take stop rest, sp_code = (delim = [back_tick]), sp_strong = (delim = ''**'')\<rparr>
                   # spans (drop (stop + length delim) rest))"
  by pat_completeness auto

termination
  by (relation "measure length") (auto dest!: next_delimiter_index)

declare spans.simps [simp del, evals]

record prose_state =
  po_blocks :: "prose_block list"
  po_paragraph :: "string list"
  po_list :: "prose_span list list"

definition flush_paragraph :: "prose_state \<Rightarrow> prose_state" where
  "flush_paragraph s =
     (if po_paragraph s = [] then s
      else s\<lparr>po_blocks := po_blocks s @ [\<lparr>pb_list = False, pb_items = [spans (join '' '' (po_paragraph s))]\<rparr>],
             po_paragraph := []\<rparr>)"

definition flush_list :: "prose_state \<Rightarrow> prose_state" where
  "flush_list s =
     (if po_list s = [] then s
      else s\<lparr>po_blocks := po_blocks s @ [\<lparr>pb_list = True, pb_items = po_list s\<rparr>], po_list := []\<rparr>)"

definition prose_line :: "string \<Rightarrow> prose_state \<Rightarrow> prose_state" where
  "prose_line raw s =
     (let line = trim_space raw
      in if line = [] then flush_list (flush_paragraph s)
         else if has_prefix line ''- '' \<or> has_prefix line ''* '' then
           let s = flush_paragraph s in s\<lparr>po_list := po_list s @ [spans (drop 2 line)]\<rparr>
         else if has_prefix line ''#'' then
           let s = flush_list (flush_paragraph s);
               heading = trim_space (trim_left_bytes ''#'' line)
           in s\<lparr>po_blocks := po_blocks s @
                [\<lparr>pb_list = False, pb_items = [[\<lparr>sp_text = heading, sp_code = False, sp_strong = True\<rparr>]]\<rparr>]\<rparr>
         else let s = flush_list s in s\<lparr>po_paragraph := po_paragraph s @ [line]\<rparr>)"

definition prose_blocks :: "string \<Rightarrow> prose_block list" where
  "prose_blocks text =
     po_blocks (flush_list (flush_paragraph
       (fold prose_line (split_char newline text) \<lparr>po_blocks = [], po_paragraph = [], po_list = []\<rparr>)))"

subsection \<open>\<open>logline.go\<close>: words\<close>

definition plural :: "int \<Rightarrow> string \<Rightarrow> string \<Rightarrow> string" where
  "plural n one many = (if n = 1 then ''1 '' @ one else itoa n @ '' '' @ many)"

definition times_text :: "int \<Rightarrow> string" where
  "times_text n = (if n = 1 then ''once'' else if n = 2 then ''twice'' else itoa n @ '' times'')"

text \<open>The rune \<open>U+2713\<close>.\<close>

definition check_mark :: string where
  "check_mark = [char_of (0xE2::nat), char_of (0x9C::nat), char_of (0x93::nat)]"

definition elapsed_suffix :: "duration \<Rightarrow> string" where
  "elapsed_suffix d =
     (if d \<le> 0 then []
      else if d < second then '' '' @ duration_string (round_duration d millisecond)
      else '' '' @ duration_string (round_duration d (100 * millisecond)))"

definition format_offset :: "duration \<Rightarrow> string" where
  "format_offset d =
     (let d = round_duration d second
      in ''+'' @ two_digits (quot_of d minute) @ '':'' @ two_digits (quot_of (rest_of d minute) second))"

definition format_short :: "duration \<Rightarrow> string" where
  "format_short d =
     (let d = round_duration d second
      in if d < minute then itoa (quot_of d second) @ ''s''
         else if d < hour then itoa (quot_of d minute) @ ''m '' @ two_digits (quot_of (rest_of d minute) second) @ ''s''
         else itoa (quot_of d hour) @ ''h '' @ two_digits (quot_of (rest_of d hour) minute) @ ''m'')"

datatype tool_category = Other | Reading | Searching | Editing | Running_tool

definition category_of :: "string \<Rightarrow> tool_category" where
  "category_of tool =
     (if tool = ''Read'' then Reading
      else if tool \<in> {''Grep'', ''Glob'', ''WebSearch''} then Searching
      else if tool \<in> {''Edit'', ''MultiEdit'', ''Write'', ''NotebookEdit''} then Editing
      else if tool = ''Bash'' then Running_tool
      else Other)"

definition verb_of :: "string \<Rightarrow> string" where
  "verb_of tool =
     (case category_of tool of Searching \<Rightarrow> ''Search'' | Running_tool \<Rightarrow> ''Ran'' | _ \<Rightarrow> tool)"

subsection \<open>\<open>logline.go\<close>: lines\<close>

datatype line_shape = LineNone | LineSay | LineSkill | LineRecord | LineCall

record diff_row =
  dw_op :: string
  dw_text :: string

record page_line =
  li_kind :: string
  li_shape :: line_shape
  li_blocks :: "prose_block list"
  li_verb :: string
  li_arg :: string
  li_href :: string
  li_result :: string
  li_failed :: bool
  li_output :: string
  li_fold :: bool
  li_open :: bool
  li_diff :: "diff_row list"
  li_added :: int
  li_removed :: int
  li_anchor :: bool
  li_call_id :: string
  li_replace :: bool
  li_record :: string
  li_checks :: "check list"

definition blank_line :: page_line where
  "blank_line = \<lparr>li_kind = [], li_shape = LineNone, li_blocks = [], li_verb = [], li_arg = [], li_href = [],
     li_result = [], li_failed = False, li_output = [], li_fold = False, li_open = False, li_diff = [], li_added = 0,
     li_removed = 0, li_anchor = False, li_call_id = [], li_replace = False, li_record = [], li_checks = []\<rparr>"

definition one_line :: "string \<Rightarrow> string" where
  "one_line s = map (\<lambda>c. if c = newline then CHR '' '' else c) s"

definition flatten_line :: "page_line \<Rightarrow> page_line" where
  "flatten_line l = l\<lparr>li_verb := one_line (li_verb l), li_arg := one_line (li_arg l)\<rparr>"

definition say_line :: "string \<Rightarrow> page_line" where
  "say_line text = blank_line\<lparr>li_kind := log_kind_text Say, li_shape := LineSay, li_blocks := prose_blocks text\<rparr>"

definition last_space :: "string \<Rightarrow> nat option" where
  "last_space s = (if CHR '' '' \<in> set s then Some (length s - 1 - length (takeWhile (\<lambda>c. c \<noteq> CHR '' '') (rev s))) else None)"

definition record_line :: "string \<Rightarrow> string \<Rightarrow> page_line" where
  "record_line kind detail =
     (let line = blank_line\<lparr>li_kind := log_kind_text Record, li_shape := LineRecord, li_verb := kind, li_arg := detail,
            li_record := kind\<rparr>
      in if kind = event_kind_text EventRunLaunched then
           (case str_cut '' in '' detail of
              None \<Rightarrow> line\<lparr>li_verb := ''launched''\<rparr>
            | Some (_, place) \<Rightarrow> (case str_cut '' from '' place of
                None \<Rightarrow> line\<lparr>li_verb := ''launched'', li_arg := ''in '' @ place\<rparr>
              | Some (path, sha) \<Rightarrow>
                  line\<lparr>li_verb := ''launched'', li_arg := ''in '' @ path @ '' from base @ '' @ take 7 sha\<rparr>))
         else if kind = event_kind_text EventPushed then
           line\<lparr>li_verb := ''pushed'', li_arg := trim_prefix detail ''pushed ''\<rparr>
         else if kind = event_kind_text EventRunDisposed then line\<lparr>li_verb := ''agent run finished''\<rparr>
         else if kind = event_kind_text EventPROpened then
           (case str_cut '' https://'' detail of
              Some (number, href) \<Rightarrow>
                if href \<noteq> [] then line\<lparr>li_verb := ''opened'', li_arg := number, li_href := ''https://'' @ href\<rparr>
                else line\<lparr>li_verb := ''opened''\<rparr>
            | None \<Rightarrow> line\<lparr>li_verb := ''opened''\<rparr>)
         else if kind = event_kind_text EventChecksLanded then
           (case last_space detail of
              Some i \<Rightarrow> line\<lparr>li_verb := drop (i + 1) detail, li_arg := take i detail\<rparr>
            | None \<Rightarrow> line\<lparr>li_verb := ''check''\<rparr>)
         else if kind = event_kind_text EventPRMerged then line\<lparr>li_verb := ''merged''\<rparr>
         else line)"

subsection \<open>\<open>logline.go\<close>: calls\<close>

record call_pair =
  cp_call :: log_event
  cp_result :: log_event
  cp_called :: bool
  cp_answered :: bool
  cp_anchor :: bool

text \<open>The zero event has the zero kind, \<open>Skill\<close>.\<close>

definition zero_event :: log_event where "zero_event = blank_event Skill"

definition call_only :: "log_event \<Rightarrow> call_pair" where
  "call_only e = \<lparr>cp_call = e, cp_result = zero_event, cp_called = True, cp_answered = False, cp_anchor = False\<rparr>"

definition result_only :: "log_event \<Rightarrow> bool \<Rightarrow> call_pair" where
  "result_only e anchor = \<lparr>cp_call = zero_event, cp_result = e, cp_called = False, cp_answered = True, cp_anchor = anchor\<rparr>"

definition cmd_pair :: "log_event \<Rightarrow> bool \<Rightarrow> call_pair" where
  "cmd_pair e anchor = \<lparr>cp_call = e, cp_result = e, cp_called = True, cp_answered = lv_done e, cp_anchor = anchor\<rparr>"

definition cmd_failed :: "log_event \<Rightarrow> bool" where
  "cmd_failed e \<longleftrightarrow> lv_kind e = Cmd \<and> lv_done e \<and> (lv_exit_code e \<noteq> 0 \<or> lv_interrupted e)"

definition failed_event :: "log_event \<Rightarrow> bool" where
  "failed_event e \<longleftrightarrow> lv_kind e = Fail \<or> cmd_failed e"

definition pair_failed :: "call_pair \<Rightarrow> bool" where
  "pair_failed p \<longleftrightarrow> cp_answered p \<and> failed_event (cp_result p)"

fun kind_shown :: "log_filter \<Rightarrow> log_kind \<Rightarrow> bool" where
  "kind_shown LogSkills k = (k = Skill)"
| "kind_shown LogTools k = (k = Tool \<or> k = File \<or> k = Cmd \<or> k = Commit)"
| "kind_shown LogFails k = (k = Fail)"
| "kind_shown _ k = True"

definition event_shown :: "log_filter \<Rightarrow> log_event \<Rightarrow> bool" where
  "event_shown mode e = (if lv_kind e = Cmd \<and> mode = LogFails then cmd_failed e else kind_shown mode (lv_kind e))"

definition pair_shown :: "log_filter \<Rightarrow> call_pair \<Rightarrow> bool" where
  "pair_shown mode p \<longleftrightarrow>
     cp_called p \<and> event_shown mode (cp_call p) \<or> cp_answered p \<and> event_shown mode (cp_result p)"

definition cmd_word :: "call_pair \<Rightarrow> string" where
  "cmd_word p =
     (let e = cp_result p
      in if \<not> cp_answered p then ''running''
         else if lv_interrupted e then ''interrupted'' @ elapsed_suffix (lv_elapsed e)
         else if lv_exit_code e \<noteq> 0 then ''exit '' @ itoa (lv_exit_code e) @ elapsed_suffix (lv_elapsed e)
         else check_mark @ elapsed_suffix (lv_elapsed e))"

definition pair_kind :: "call_pair \<Rightarrow> string" where
  "pair_kind p =
     (if pair_failed p then log_kind_text Fail
      else if cp_called p then log_kind_text (lv_kind (cp_call p))
      else log_kind_text Pass)"

definition result_word :: "call_pair \<Rightarrow> string" where
  "result_word p =
     (if pair_failed p then ''failed''
      else case category_of (lv_tool (cp_call p)) of
        Reading \<Rightarrow> plural (int (lv_output_lines (cp_result p))) ''line'' ''lines''
      | Searching \<Rightarrow> plural (int (lv_output_lines (cp_result p))) ''match'' ''matches''
      | Editing \<Rightarrow> []
      | Running_tool \<Rightarrow> ''ok''
      | Other \<Rightarrow> ''done'')"

definition called_line :: "call_pair \<Rightarrow> page_line \<Rightarrow> page_line" where
  "called_line p l =
     (let e = cp_call p
      in if cp_called p
         then l\<lparr>li_verb := verb_of (lv_tool e), li_arg := lv_detail e, li_added := df_added (lv_diff e),
                li_removed := df_removed (lv_diff e),
                li_diff := map (\<lambda>r. \<lparr>dw_op = diff_op_text (dl_op r), dw_text = dl_text r\<rparr>) (df_lines (lv_diff e))\<rparr>
         else l)"

definition pair_line :: "call_pair \<Rightarrow> page_line" where
  "pair_line p =
     (let line = called_line p (blank_line\<lparr>li_kind := pair_kind p, li_shape := LineCall, li_failed := pair_failed p,
            li_anchor := cp_anchor p, li_verb := ''Result'', li_arg := lv_detail (cp_result p)\<rparr>)
      in if cp_called p \<and> lv_kind (cp_call p) = Cmd
         then let out = lv_output (cp_result p)
              in line\<lparr>li_call_id := lv_call_id (cp_call p), li_result := cmd_word p, li_output := out,
                   li_fold := (out \<noteq> []), li_open := (out \<noteq> [] \<and> li_failed line)\<rparr>
         else
           let counted = lv_diff (cp_result p);
               line = (if cp_called p \<and> cp_answered p \<and> df_added counted + df_removed counted > 0
                       then line\<lparr>li_added := df_added counted, li_removed := df_removed counted\<rparr> else line)
           in if cp_answered p
              then (let line = line\<lparr>li_result := result_word p\<rparr>
                    in if li_failed line \<or> category_of (lv_tool (cp_call p)) = Running_tool
                       then line\<lparr>li_output := lv_output (cp_result p)\<rparr> else line)
              else line)"

definition line_of_event :: "log_event \<Rightarrow> page_line" where
  "line_of_event e =
     (case lv_kind e of
        Say \<Rightarrow> say_line (lv_detail e)
      | Skill \<Rightarrow> blank_line\<lparr>li_kind := log_kind_text Skill, li_shape := LineSkill, li_verb := lv_tool e, li_arg := lv_detail e\<rparr>
      | Record \<Rightarrow>
          let line = record_line (lv_tool e) (lv_detail e)
          in if lv_at e > 0 then line\<lparr>li_result := format_offset (lv_at e)\<rparr> else line
      | Commit \<Rightarrow> blank_line\<lparr>li_kind := log_kind_text Commit, li_shape := LineCall, li_verb := ''commit'',
          li_arg := lv_detail e, li_result := check_mark @ elapsed_suffix (lv_elapsed e), li_call_id := lv_call_id e\<rparr>
      | Pass \<Rightarrow> pair_line (result_only e False)
      | Fail \<Rightarrow> pair_line (result_only e False)
      | Cmd \<Rightarrow> pair_line (cmd_pair e False)
      | _ \<Rightarrow> pair_line (call_only e))"

definition line_of :: "log_event \<Rightarrow> page_line" where
  "line_of e = flatten_line (line_of_event e)"

subsection \<open>\<open>logline.go\<close>: the summary of a group\<close>

definition mix_of :: "call_pair list \<Rightarrow> tool_category \<Rightarrow> int" where
  "mix_of pairs c = int (length (filter (\<lambda>p. cp_called p \<and> category_of (lv_tool (cp_call p)) = c) pairs))"

definition upper_byte :: "char \<Rightarrow> char" where
  "upper_byte c = (let k = (of_char c :: nat) in if 97 \<le> k \<and> k \<le> 122 then char_of (k - 32) else c)"

definition mix_summary :: "(tool_category \<Rightarrow> int) \<Rightarrow> string" where
  "mix_summary m =
     (let parts = (if m Reading > 0 then [''read '' @ plural (m Reading) ''file'' ''files''] else [])
            @ (if m Searching > 0 then [''searched '' @ times_text (m Searching)] else [])
            @ (if m Editing > 0 then [''edited '' @ plural (m Editing) ''file'' ''files''] else [])
            @ (if m Running_tool > 0 then [''ran '' @ plural (m Running_tool) ''command'' ''commands''] else []);
          parts = parts @ (if m Other > 0
            then [''used '' @ (if parts = [] then plural (m Other) ''tool'' ''tools''
                               else plural (m Other) ''other tool'' ''other tools'')] else [])
      in if parts = [] then ''Tool results''
         else let summary = join '', '' parts in map upper_byte (take 1 summary) @ drop 1 summary)"

subsection \<open>\<open>logview.go\<close>: phases\<close>

record call_group =
  gr_summary :: string
  gr_fail_note :: string
  gr_open :: bool
  gr_lines :: "page_line list"

record log_item =
  lt_kind :: string
  lt_line :: page_line
  lt_group :: call_group
  lt_folded :: bool
  lt_first_fail :: bool

record phase_view =
  pv_skill :: string
  pv_note :: string
  pv_at :: string
  pv_items :: "log_item list"

definition no_group :: call_group where
  "no_group = \<lparr>gr_summary = [], gr_fail_note = [], gr_open = False, gr_lines = []\<rparr>"

definition line_item :: "string \<Rightarrow> page_line \<Rightarrow> log_item" where
  "line_item kind l = \<lparr>lt_kind = kind, lt_line = l, lt_group = no_group, lt_folded = False, lt_first_fail = False\<rparr>"

definition calls_item :: "call_group \<Rightarrow> log_item" where
  "calls_item g = \<lparr>lt_kind = ''calls'', lt_line = blank_line, lt_group = g, lt_folded = True, lt_first_fail = False\<rparr>"

definition anchor_item :: log_item where
  "anchor_item = \<lparr>lt_kind = ''anchor'', lt_line = blank_line, lt_group = no_group, lt_folded = False, lt_first_fail = True\<rparr>"

text \<open>What a phase has shown, and the calls since the last message.\<close>

type_synonym builder = "log_item list \<times> call_pair list"

definition group_of :: "bool \<Rightarrow> call_pair list \<Rightarrow> call_group" where
  "group_of open_groups ps =
     \<lparr>gr_summary = mix_summary (mix_of ps),
       gr_fail_note = (let failed = length (filter pair_failed ps) in if failed > 0 then nat_text failed @ '' failed'' else []),
       gr_open = (open_groups \<or> list_ex cp_anchor ps),
       gr_lines = map (\<lambda>p. flatten_line (pair_line p)) ps\<rparr>"

definition flush :: "log_filter \<Rightarrow> bool \<Rightarrow> builder \<Rightarrow> builder" where
  "flush mode open_groups = (\<lambda>(items, pending).
     let (shown, hidden) = partition (pair_shown mode) pending
     in (items @ (if shown = [] then [] else [calls_item (group_of open_groups shown)])
               @ (if list_ex cp_anchor hidden then [anchor_item] else []), []))"

definition answer_pair :: "log_event \<Rightarrow> bool \<Rightarrow> call_pair list \<Rightarrow> call_pair list" where
  "answer_pair result anchor ps =
     (case index_where (\<lambda>p. cp_called p \<and> \<not> cp_answered p
             \<and> (lv_call_id result = [] \<or> lv_call_id (cp_call p) = lv_call_id result)) ps of
        Some i \<Rightarrow> ps[i := (ps ! i)\<lparr>cp_result := result, cp_answered := True, cp_anchor := anchor\<rparr>]
      | None \<Rightarrow> ps @ [result_only result anchor])"

definition show_item :: "log_filter \<Rightarrow> bool \<Rightarrow> log_kind \<Rightarrow> log_item \<Rightarrow> builder \<Rightarrow> builder" where
  "show_item mode open_groups kind item b =
     (case flush mode open_groups b of
        (items, pending) \<Rightarrow> (if kind_shown mode kind then items @ [item] else items, pending))"

definition build_event :: "log_filter \<Rightarrow> bool \<Rightarrow> log_event \<Rightarrow> bool \<Rightarrow> builder \<Rightarrow> builder" where
  "build_event mode open_groups e anchor b =
     (case lv_kind e of
        Say \<Rightarrow> show_item mode open_groups Say (line_item ''say'' (say_line (lv_detail e))) b
      | Record \<Rightarrow> show_item mode open_groups Record (line_item (log_kind_text Record) (line_of e)) b
      | Commit \<Rightarrow> show_item mode open_groups Commit (line_item (log_kind_text Commit) (line_of e)) b
      | Pass \<Rightarrow> (fst b, answer_pair e anchor (snd b))
      | Fail \<Rightarrow> (fst b, answer_pair e anchor (snd b))
      | Cmd \<Rightarrow> (fst b, snd b @ [cmd_pair e anchor])
      | _ \<Rightarrow> (fst b, snd b @ [call_only e]))"

text \<open>The index of the first failure among the events of all phases.\<close>

definition first_failure_index :: "phase list \<Rightarrow> nat option" where
  "first_failure_index ps = index_where failed_event (concat (map ps_events ps))"

fun build_events :: "log_filter \<Rightarrow> bool \<Rightarrow> nat option \<Rightarrow> nat \<Rightarrow> log_event list \<Rightarrow> builder \<Rightarrow> builder" where
  "build_events mode open_groups first idx [] b = b"
| "build_events mode open_groups first idx (e # es) b =
     build_events mode open_groups first (Suc idx) es (build_event mode open_groups e (first = Some idx) b)"

definition phase_view_of :: "phase \<Rightarrow> log_item list \<Rightarrow> phase_view" where
  "phase_view_of p items =
     \<lparr>pv_skill = ps_skill p, pv_note = ps_note p, pv_at = format_offset (ps_at p), pv_items = items\<rparr>"

fun build_phases_from :: "log_filter \<Rightarrow> nat option \<Rightarrow> nat \<Rightarrow> phase list \<Rightarrow> phase_view list" where
  "build_phases_from mode first idx [] = []"
| "build_phases_from mode first idx (p # ps) =
     (let open_groups = (mode = LogTools \<or> mode = LogFails);
          b = flush mode open_groups (build_events mode open_groups first idx (ps_events p) ([], []))
      in phase_view_of p (fst b) # build_phases_from mode first (idx + length (ps_events p)) ps)"

definition build_phases :: "phase list \<Rightarrow> log_filter \<Rightarrow> phase_view list" where
  "build_phases ps mode = build_phases_from mode (first_failure_index ps) 0 ps"

subsection \<open>\<open>logview.go\<close>: records and the detail of a log\<close>

definition shown_records :: "event_kind list" where
  "shown_records = [EventPRMerged, EventPROpened, EventChecksLanded, EventRunLaunched, EventPushed, EventRunDisposed]"

definition record_shown :: "event \<Rightarrow> bool" where
  "record_shown e \<longleftrightarrow> en_kind e \<in> set shown_records"

definition record_of :: "event \<Rightarrow> log_event" where
  "record_of e = (blank_event Record)\<lparr>lv_tool := event_kind_text (en_kind e), lv_detail := en_detail e\<rparr>"

definition last_record_id :: "event list \<Rightarrow> int" where
  "last_record_id rs = fold (\<lambda>r last_id. max last_id (en_id r)) rs 0"

text \<open>The last phase that had begun, or the first.\<close>

definition phase_index :: "phase list \<Rightarrow> duration \<Rightarrow> nat" where
  "phase_index ps at = fold (\<lambda>i found. if ps_at (ps ! i) \<le> at then i else found) [0..<length ps] 0"

definition insert_record :: "log_event \<Rightarrow> log_event list \<Rightarrow> log_event list" where
  "insert_record r es =
     (let at = (case index_where (\<lambda>e. lv_at e > lv_at r) es of Some i \<Rightarrow> i | None \<Rightarrow> length es)
      in take at es @ [r] @ drop at es)"

definition merge_record :: "event \<Rightarrow> log_run \<Rightarrow> log_run" where
  "merge_record r run =
     (let ps = (if rg_phases run = [] then [new_phase [] [] 0] else rg_phases run);
          rec = record_of r;
          rec = (if rg_start run \<noteq> 0 then rec\<lparr>lv_at := en_at r - rg_start run\<rparr> else rec);
          i = phase_index ps (lv_at rec)
      in run\<lparr>rg_phases := ps[i := (ps ! i)\<lparr>ps_events := insert_record rec (ps_events (ps ! i))\<rparr>]\<rparr>)"

definition merge_records :: "event list \<Rightarrow> log_run \<Rightarrow> log_run" where
  "merge_records rs run = fold merge_record rs run"

text \<open>The final answer is the message the log ends with, once it has a result; it leaves the phases.\<close>

definition take_final_answer :: "log_run \<Rightarrow> string \<times> log_run" where
  "take_final_answer run =
     (let ps = rg_phases run
      in if rg_result run = None \<or> ps = [] \<or> ps_events (last ps) = [] \<or> lv_kind (last (ps_events (last ps))) \<noteq> Say
         then ([], run)
         else (lv_detail (last (ps_events (last ps))),
               run\<lparr>rg_phases := butlast ps @ [(last ps)\<lparr>ps_events := butlast (ps_events (last ps))\<rparr>]\<rparr>))"

definition landed_item :: "log_item \<Rightarrow> bool" where
  "landed_item it \<longleftrightarrow> li_record (lt_line it) = event_kind_text EventChecksLanded"

text \<open>From the last item to the first: the last record of landed checks takes all of them, the ones before it go.\<close>

definition grid_item :: "check list \<Rightarrow> log_item \<Rightarrow> log_item list \<times> bool \<Rightarrow> log_item list \<times> bool" where
  "grid_item checks it = (\<lambda>(items, found).
     if \<not> landed_item it then (it # items, found)
     else if \<not> found then
       (it\<lparr>lt_line := (lt_line it)\<lparr>li_verb := ''checks'', li_arg := [], li_checks := checks\<rparr>\<rparr> # items, True)
     else (if li_checks (lt_line it) = [] then items else it # items, True))"

definition grid_phase :: "check list \<Rightarrow> phase_view \<Rightarrow> phase_view list \<times> bool \<Rightarrow> phase_view list \<times> bool" where
  "grid_phase checks p = (\<lambda>(ps, found).
     case foldr (grid_item checks) (pv_items p) ([], found) of
       (items, found) \<Rightarrow> (p\<lparr>pv_items := items\<rparr> # ps, found))"

definition grid_checks :: "phase_view list \<Rightarrow> check list \<Rightarrow> phase_view list" where
  "grid_checks ps checks = (if checks = [] then ps else fst (foldr (grid_phase checks) ps ([], False)))"

definition log_stream_path :: "string \<Rightarrow> int \<Rightarrow> int \<Rightarrow> log_filter \<Rightarrow> string" where
  "log_stream_path ticket start after_record mode =
     ''/ticket/'' @ path_escape ticket @ ''/log?from='' @ itoa start @ ''&records='' @ itoa after_record
     @ (if mode \<noteq> LogFilterUnknown \<and> mode \<noteq> LogAll then ''&log='' @ query_escape (log_filter_text mode) else [])"

text \<open>The complete lines of a log and where the stream goes on; \<open>None\<close> is the nil slice.\<close>

definition whole_part :: "string \<Rightarrow> string option \<times> int" where
  "whole_part data =
     (if newline \<notin> set data then (None, 0)
      else let n = length data - length (takeWhile (\<lambda>c. c \<noteq> newline) (rev data)) in (Some (take n data), int n))"

definition whole_lines :: "'w files \<Rightarrow> string \<Rightarrow> ('w, string option \<times> int) io" where
  "whole_lines F path w =
     (case fi_read_file F path w of
        (Inr data, w) \<Rightarrow> (Inr (whole_part data), w)
      | (Inl e, w) \<Rightarrow> if is_not_exist e then (Inr (None, 0), w) else (Inl (Wrapped (''read agent log '' @ path) e), w))"

subsection \<open>\<open>logreadout.go\<close>\<close>

record worked_line =
  wl_label :: string
  wl_stats :: string

record worked_summary =
  ws_wall :: string
  ws_turns :: int
  ws_spend_pct_week :: float64

text \<open>The wall time and the turns of a run; a result tells them itself.\<close>

definition measure_run :: "log_run \<Rightarrow> duration \<times> int" where
  "measure_run run =
     (case rg_result run of
        Some r \<Rightarrow> (lr_duration r, lr_turns r)
      | None \<Rightarrow> (rg_end run, sum_list (map ps_turns (rg_phases run))))"

text \<open>The rune \<open>U+00B7\<close>.\<close>

definition middle_dot :: string where "middle_dot = [char_of (0xC2::nat), char_of (0xB7::nat)]"

definition worked_of :: "duration \<times> int \<Rightarrow> worked_line" where
  "worked_of = (\<lambda>(wall, turns).
     \<lparr>wl_label = ''Worked for '' @ format_short wall,
      wl_stats = (if turns > 0 then middle_dot @ '' '' @ plural turns ''turn'' ''turns'' else [])\<rparr>)"

record log_detail =
  ld_path :: string
  ld_streaming :: bool
  ld_lines :: nat
  ld_phase_count :: nat
  ld_phases :: "phase_view list"
  ld_stream_path :: string
  ld_worked :: worked_line
  ld_summary :: worked_summary
  ld_final :: "page_line option"

record log_source =
  ls_path :: string
  ls_streaming :: bool
  ls_ticket_url :: string
  ls_records :: "event list"
  ls_checks :: "check list"

definition blank_summary :: worked_summary where
  "blank_summary = \<lparr>ws_wall = [], ws_turns = 0, ws_spend_pct_week = float_zero\<rparr>"

definition blank_detail :: "string \<Rightarrow> bool \<Rightarrow> log_detail" where
  "blank_detail path streaming = \<lparr>ld_path = path, ld_streaming = streaming, ld_lines = 0, ld_phase_count = 0,
     ld_phases = [], ld_stream_path = [], ld_worked = \<lparr>wl_label = [], wl_stats = []\<rparr>, ld_summary = blank_summary,
     ld_final = None\<rparr>"

text \<open>The detail of the lines and the records there are; the reader of the lines in memory gives no error.\<close>

definition detail_of_log :: "log_json \<Rightarrow> arithmetic \<Rightarrow> log_source \<Rightarrow> event list \<Rightarrow> log_filter \<Rightarrow> string option
    \<Rightarrow> log_detail \<Rightarrow> log_detail" where
  "detail_of_log J A src records mode whole d =
     (let parsed = (case whole of Some text \<Rightarrow> fst (parse_log J A (text, None)) | None \<Rightarrow> lp_run new_parse);
          (final, run) = take_final_answer parsed;
          stats = measure_run run
      in d\<lparr>ld_lines := rg_lines run, ld_phase_count := length (rg_phases run), ld_worked := worked_of stats,
           ld_summary := \<lparr>ws_wall = format_short (fst stats), ws_turns = snd stats, ws_spend_pct_week = float_zero\<rparr>,
           ld_phases := grid_checks (build_phases (rg_phases (merge_records records run)) mode) (ls_checks src),
           ld_final := (if final \<noteq> [] then Some (say_line final) else None)\<rparr>)"

definition build_log_detail :: "log_json \<Rightarrow> arithmetic \<Rightarrow> 'w files \<Rightarrow> log_source \<Rightarrow> log_filter \<Rightarrow> 'w \<Rightarrow> log_detail \<times> 'w" where
  "build_log_detail J A F src mode w =
     (let d = blank_detail (ls_path src) (ls_streaming src);
          records = filter record_shown (ls_records src)
      in case whole_lines F (ls_path src) w of
           (Inl e, w) \<Rightarrow> (d, w)
         | (Inr (whole, resume_at), w) \<Rightarrow>
             let d = d\<lparr>ld_stream_path := log_stream_path (ls_ticket_url src) resume_at (last_record_id records) mode\<rparr>
             in (if whole = None \<and> records = [] then d else detail_of_log J A src records mode whole d, w))"

subsection \<open>A message keeps its text\<close>

text \<open>The source of a span.\<close>

definition span_source :: "prose_span \<Rightarrow> string" where
  "span_source s =
     (let mark = (if sp_code s then [back_tick] else if sp_strong s then ''**'' else []) in mark @ sp_text s @ mark)"

lemma str_index_splits: "str_index s sub = Some n \<Longrightarrow> s = take n s @ sub @ drop (n + length sub) s"
proof -
  assume "str_index s sub = Some n"
  then obtain a b where cut: "str_cut sub s = Some (a, b)" and n: "n = length a" by (auto simp: str_index_def)
  from cut_Some_append [OF cut] n show ?thesis by simp
qed

lemma delimiter_mark: "next_delimiter s = Some (at, delim) \<Longrightarrow> delim = [back_tick] \<or> delim = ''**''"
  by (auto simp: next_delimiter_def split: option.splits if_splits)

theorem spans_keep_text: "concat (map span_source (spans s)) = s"
proof (induction s rule: spans.induct)
  case (1 s)
  show ?case
  proof (cases "s = [] \<or> next_delimiter s = None")
    case True
    then show ?thesis by (auto simp: spans.simps span_source_def plain_span_def)
  next
    case False
    then obtain at delim where some: "next_delimiter s = Some (at, delim)" by auto
    note at = str_index_splits [OF next_delimiter_index [OF some, THEN conjunct1]]
    define rest where "rest = drop (at + length delim) s"
    have head: "s = take (at + length delim) s @ rest" by (simp add: rest_def)
    have mark: "span_source \<lparr>sp_text = x, sp_code = (delim = [back_tick]), sp_strong = (delim = ''**'')\<rparr> = delim @ x @ delim" for x
      using delimiter_mark [OF some] by (auto simp: span_source_def)
    consider "str_index rest delim = None \<or> str_index rest delim = Some 0"
      | stop where "str_index rest delim = Some stop" and "stop \<noteq> 0" by (cases "str_index rest delim") auto
    then show ?thesis
    proof cases
      case 1
      then have "spans s = plain_span (take (at + length delim) s) # spans rest"
        using False some by (subst spans.simps) (auto simp: rest_def)
      moreover have "concat (map span_source (spans rest)) = rest"
        using 1 "1.IH"(1,2) [OF _ some refl] False by (auto simp: rest_def)
      moreover have "span_source (plain_span x) = x" for x by (simp add: span_source_def plain_span_def)
      ultimately show ?thesis using head by simp
    next
      case 2
      note stop = str_index_splits [OF 2(1)]
      have "spans s = (if at > 0 then [plain_span (take at s)] else []) @
          \<lparr>sp_text = take stop rest, sp_code = (delim = [back_tick]), sp_strong = (delim = ''**'')\<rparr>
          # spans (drop (stop + length delim) rest)"
        using False some 2 by (subst spans.simps) (simp add: rest_def)
      moreover have "concat (map span_source (spans (drop (stop + length delim) rest))) = drop (stop + length delim) rest"
        using 2 "1.IH"(3) [OF _ some refl] False by (auto simp: rest_def)
      ultimately have "concat (map span_source (spans s))
          = take at s @ delim @ take stop rest @ delim @ drop (stop + length delim) rest"
        by (auto simp: mark) (simp_all add: span_source_def plain_span_def)
      then show ?thesis using at stop by (simp add: rest_def)
    qed
  qed
qed

subsection \<open>The first failure of a log\<close>

definition item_anchors :: "log_item \<Rightarrow> nat" where
  "item_anchors it = length (filter li_anchor (gr_lines (lt_group it))) + (if li_anchor (lt_line it) then 1 else 0)
     + (if lt_first_fail it then 1 else 0)"

definition anchors :: "log_item list \<Rightarrow> nat" where
  "anchors items = sum_list (map item_anchors items)"

definition view_anchors :: "phase_view list \<Rightarrow> nat" where
  "view_anchors ps = sum_list (map (\<lambda>p. anchors (pv_items p)) ps)"

definition pending_anchors :: "call_pair list \<Rightarrow> nat" where
  "pending_anchors ps = length (filter cp_anchor ps)"

definition built :: "builder \<Rightarrow> nat" where
  "built b = anchors (fst b) + pending_anchors (snd b)"

lemma anchors_append [simp]: "anchors (xs @ ys) = anchors xs + anchors ys"
  by (simp add: anchors_def)

lemma anchors_simps [simp]: "anchors [] = 0" "anchors (it # items) = item_anchors it + anchors items"
  by (simp_all add: anchors_def)

lemma line_item_anchors: "\<not> li_anchor l \<Longrightarrow> item_anchors (line_item k l) = 0"
  by (simp add: item_anchors_def line_item_def no_group_def)

lemma pair_line_anchor: "li_anchor (flatten_line (pair_line p)) = cp_anchor p"
  by (simp add: flatten_line_def pair_line_def called_line_def Let_def)

lemma record_line_anchor: "\<not> li_anchor (record_line k d)"
  by (simp add: record_line_def blank_line_def Let_def split: option.split)

lemma line_of_anchor: "\<not> li_anchor (line_of e)"
  by (simp add: line_of_def flatten_line_def line_of_event_def pair_line_def called_line_def record_line_anchor say_line_def
      blank_line_def result_only_def cmd_pair_def call_only_def Let_def split: log_kind.split)

lemma group_anchors: "item_anchors (calls_item (group_of og ps)) = pending_anchors ps"
  by (simp add: item_anchors_def calls_item_def group_of_def blank_line_def pending_anchors_def pair_line_anchor
      filter_map comp_def Let_def)

lemma anchor_item_anchors: "item_anchors anchor_item = 1"
  by (simp add: item_anchors_def anchor_item_def no_group_def blank_line_def)

lemma hidden_anchor: "pending_anchors ps \<le> 1 \<Longrightarrow> (if list_ex cp_anchor ps then 1 else 0) = pending_anchors ps"
proof (cases "filter cp_anchor ps")
  case (Cons p qs)
  moreover assume "pending_anchors ps \<le> 1"
  moreover have "p \<in> set (filter cp_anchor ps)" unfolding Cons by simp
  then have "list_ex cp_anchor ps" by (auto simp: list_ex_iff)
  ultimately show ?thesis by (simp add: pending_anchors_def)
qed (auto simp: pending_anchors_def list_ex_iff filter_empty_conv)

lemma pending_partition: "pending_anchors (filter P ps) + pending_anchors (filter (Not \<circ> P) ps) = pending_anchors ps"
  by (induction ps) (simp_all add: pending_anchors_def)

lemma flush_built: "built b \<le> 1 \<Longrightarrow> built (flush mode og b) = built b \<and> snd (flush mode og b) = []"
proof -
  obtain items pending where b: "b = (items, pending)" by force
  let ?shown = "filter (pair_shown mode) pending" and ?hidden = "filter (Not \<circ> pair_shown mode) pending"
  assume "built b \<le> 1"
  with b pending_partition [of "pair_shown mode" pending] have "pending_anchors ?hidden \<le> 1" by (simp add: built_def)
  note hidden = hidden_anchor [OF this]
  have "built (flush mode og b) = anchors items + pending_anchors ?shown + (if list_ex cp_anchor ?hidden then 1 else 0)"
    by (cases "?shown = []") (simp_all add: b built_def flush_def group_anchors anchor_item_anchors pending_anchors_def
      del: filter_filter)
  also have "\<dots> = built b" unfolding hidden using pending_partition [of "pair_shown mode" pending] by (simp add: b built_def)
  finally show ?thesis by (simp add: b flush_def)
qed

text \<open>Only a call that is not yet answered takes an answer, and it has no anchor.\<close>

definition unanchored :: "builder \<Rightarrow> bool" where
  "unanchored b \<longleftrightarrow> (\<forall>p \<in> set (snd b). cp_anchor p \<longrightarrow> cp_answered p)"

lemma filter_update_length:
  "i < length xs \<Longrightarrow> \<not> P (xs ! i) \<Longrightarrow> length (filter P (xs[i := x])) = length (filter P xs) + (if P x then 1 else 0)"
proof (induction xs arbitrary: i)
  case (Cons y ys)
  then show ?case by (cases i) auto
qed simp

lemma answer_pair_anchors:
  assumes "\<forall>p \<in> set ps. cp_anchor p \<longrightarrow> cp_answered p"
  shows "pending_anchors (answer_pair e anchor ps) = pending_anchors ps + (if anchor then 1 else 0)
    \<and> (\<forall>p \<in> set (answer_pair e anchor ps). cp_anchor p \<longrightarrow> cp_answered p)"
proof (cases "index_where (\<lambda>p. cp_called p \<and> \<not> cp_answered p
    \<and> (lv_call_id e = [] \<or> lv_call_id (cp_call p) = lv_call_id e)) ps")
  case None
  with assms show ?thesis by (auto simp: answer_pair_def result_only_def pending_anchors_def)
next
  case (Some i)
  from index_where_Some [OF this] have i: "i < length ps" "\<not> cp_answered (ps ! i)" by simp_all
  with assms have "\<not> cp_anchor (ps ! i)" by auto
  with i Some assms show ?thesis
    by (auto simp: answer_pair_def pending_anchors_def filter_update_length dest!: subsetD [OF set_update_subset_insert])
qed

lemma build_event_built:
  assumes "built b + (if anchor then 1 else 0) \<le> 1" and "unanchored b" and "anchor \<longrightarrow> failed_event e"
  shows "built (build_event mode og e anchor b) = built b + (if anchor then 1 else 0)
    \<and> unanchored (build_event mode og e anchor b)"
proof -
  have le: "built b \<le> 1" using assms(1) by simp
  note flushed = flush_built [OF le, of mode og]
  have show_built: "built (show_item mode og k it b) = built b \<and> unanchored (show_item mode og k it b)" if "item_anchors it = 0" for k it
    using flushed that by (cases "flush mode og b") (simp add: show_item_def built_def unanchored_def pending_anchors_def)
  have items: "item_anchors (line_item k (line_of e)) = 0" "item_anchors (line_item k (say_line x)) = 0" for k x
    by (simp_all add: line_item_anchors line_of_anchor say_line_def blank_line_def)
  have free: "\<forall>p \<in> set (snd b). cp_anchor p \<longrightarrow> cp_answered p" using assms(2) by (simp add: unanchored_def)
  show ?thesis
  proof (cases "lv_kind e")
    case Cmd
    then have "anchor \<longrightarrow> lv_done e" using assms(3) by (auto simp: failed_event_def cmd_failed_def)
    with Cmd free show ?thesis
      by (auto simp: build_event_def built_def unanchored_def pending_anchors_def cmd_pair_def)
  next
    case Fail
    with answer_pair_anchors [OF free, of e anchor] show ?thesis by (simp add: build_event_def built_def unanchored_def)
  next
    case Pass
    with answer_pair_anchors [OF free, of e anchor] show ?thesis by (simp add: build_event_def built_def unanchored_def)
  next
    case Say
    with assms(3) show_built [OF items(2)] show ?thesis by (simp add: build_event_def failed_event_def cmd_failed_def)
  next
    case Record
    with assms(3) show_built [OF items(1)] show ?thesis by (simp add: build_event_def failed_event_def cmd_failed_def)
  next
    case Commit
    with assms(3) show_built [OF items(1)] show ?thesis by (simp add: build_event_def failed_event_def cmd_failed_def)
  qed (use assms(3) free in
      \<open>auto simp: build_event_def failed_event_def cmd_failed_def built_def unanchored_def pending_anchors_def call_only_def\<close>)
qed

definition hits :: "nat option \<Rightarrow> nat \<Rightarrow> nat \<Rightarrow> nat" where
  "hits first idx n = (case first of Some i \<Rightarrow> if idx \<le> i \<and> i < idx + n then 1 else 0 | None \<Rightarrow> 0)"

lemma hits_0 [simp]: "hits first idx 0 = 0"
  by (auto simp: hits_def split: option.split)

lemma hits_Suc: "hits first idx (Suc n) = (if first = Some idx then 1 else 0) + hits first (Suc idx) n"
  by (auto simp: hits_def split: option.split)

lemma build_events_built:
  assumes "built b + hits first idx (length es) \<le> 1" and "unanchored b"
    and "\<And>k. k < length es \<Longrightarrow> first = Some (idx + k) \<Longrightarrow> failed_event (es ! k)"
  shows "built (build_events mode og first idx es b) = built b + hits first idx (length es)"
  using assms
proof (induction es arbitrary: idx b)
  case (Cons e es)
  let ?hit = "first = Some idx"
  from Cons.prems(1) have le: "built b + (if ?hit then 1 else 0) \<le> 1" by (simp add: hits_Suc)
  from Cons.prems(3) [of 0] have "?hit \<longrightarrow> failed_event e" by simp
  note step = build_event_built [OF le Cons.prems(2) this, of mode og]
  have "built (build_events mode og first (Suc idx) es (build_event mode og e ?hit b))
      = built (build_event mode og e ?hit b) + hits first (Suc idx) (length es)"
  proof (rule Cons.IH)
    show "built (build_event mode og e ?hit b) + hits first (Suc idx) (length es) \<le> 1"
      using step Cons.prems(1) by (simp add: hits_Suc)
    show "unanchored (build_event mode og e ?hit b)" using step by simp
    show "failed_event (es ! k)" if "k < length es" "first = Some (Suc idx + k)" for k
      using Cons.prems(3) [of "Suc k"] that by simp
  qed
  with step show ?case by (simp add: hits_Suc)
qed simp

lemma build_phases_from_anchors:
  assumes "\<And>k. k < length (concat (map ps_events ps)) \<Longrightarrow> first = Some (idx + k) \<Longrightarrow> failed_event (concat (map ps_events ps) ! k)"
  shows "view_anchors (build_phases_from mode first idx ps) = hits first idx (length (concat (map ps_events ps)))"
  using assms
proof (induction ps arbitrary: idx)
  case Nil
  then show ?case by (simp add: view_anchors_def)
next
  case (Cons p ps)
  let ?og = "mode = LogTools \<or> mode = LogFails" and ?n = "length (ps_events p)"
  let ?b = "build_events mode ?og first idx (ps_events p) ([], [])"
  have "hits first idx ?n \<le> 1" by (simp add: hits_def split: option.split)
  moreover have "failed_event (ps_events p ! k)" if "k < ?n" "first = Some (idx + k)" for k
    using Cons.prems [of k] that by (simp add: nth_append)
  ultimately have built: "built ?b = hits first idx ?n"
    using build_events_built [of "([], [])" first idx "ps_events p" mode ?og] by (simp add: built_def unanchored_def pending_anchors_def)
  with \<open>hits first idx ?n \<le> 1\<close> have le: "built ?b \<le> 1" by simp
  from flush_built [OF le, of mode ?og] built have head: "anchors (fst (flush mode ?og ?b)) = hits first idx ?n"
    by (auto simp: built_def pending_anchors_def)
  have "view_anchors (build_phases_from mode first (idx + ?n) ps) = hits first (idx + ?n) (length (concat (map ps_events ps)))"
  proof (rule Cons.IH)
    fix k
    assume "k < length (concat (map ps_events ps))" "first = Some (idx + ?n + k)"
    with Cons.prems [of "?n + k"] show "failed_event (concat (map ps_events ps) ! k)" by (simp add: nth_append add.assoc)
  qed
  then show ?case using head
    by (auto simp: view_anchors_def phase_view_of_def Let_def hits_def split: option.split)
qed

theorem first_failure_anchored:
  "view_anchors (build_phases ps mode) = (if \<exists>e \<in> set (concat (map ps_events ps)). failed_event e then 1 else 0)"
proof -
  let ?es = "concat (map ps_events ps)"
  have "view_anchors (build_phases ps mode) = hits (first_failure_index ps) 0 (length ?es)"
    unfolding build_phases_def
    by (rule build_phases_from_anchors) (auto simp: first_failure_index_def dest: index_where_Some)
  also have "\<dots> = (if \<exists>e \<in> set ?es. failed_event e then 1 else 0)"
  proof (cases "first_failure_index ps")
    case None
    then have "\<not> (\<exists>e \<in> set ?es. failed_event e)" using index_where_None [of failed_event ?es]
      by (auto simp: first_failure_index_def)
    with None show ?thesis by (simp add: hits_def)
  next
    case (Some i)
    then have "i < length ?es" "failed_event (?es ! i)" by (auto simp: first_failure_index_def dest: index_where_Some)
    moreover from this have "\<exists>e \<in> set ?es. failed_event e" using nth_mem by blast
    ultimately show ?thesis using Some by (simp add: hits_def)
  qed
  finally show ?thesis .
qed
end
