(* ===== verification/View_Rows.thy ===== *)
theory View_Rows imports View_Log Gates Spend Store_Input begin

text \<open>
  The rows of the board: \<open>internal/web/view/{board,sections,scope,params,verbs,activity}.go\<close>. A row is a ticket of the store
  with the entry a derivation gives it; the board groups rows by the ticket they wait on, filters groups by a scope and
  sorts rows into sections.
\<close>

subsection \<open>\<open>vocab.go\<close>, \<open>scope.go\<close>: keys and marks\<close>

datatype section_key = SectionUnknown | SectionNeedsYou | SectionInProgress | SectionReady | SectionBlocked | SectionDone

fun section_key_text :: "section_key \<Rightarrow> string" where
  "section_key_text SectionUnknown = []"
| "section_key_text SectionNeedsYou = ''needs-you''"
| "section_key_text SectionInProgress = ''in-progress''"
| "section_key_text SectionReady = ''ready''"
| "section_key_text SectionBlocked = ''blocked''"
| "section_key_text SectionDone = ''done''"

definition all_section_keys :: "section_key list" where
  "all_section_keys = [SectionNeedsYou, SectionInProgress, SectionReady, SectionBlocked, SectionDone]"

record project_mark =
  mk_name :: string
  mk_hue :: int

definition no_mark :: project_mark where "no_mark = \<lparr>mk_name = [], mk_hue = 0\<rparr>"

text \<open>\<open>Age\<close> of \<open>chrome.go\<close>.\<close>

record age =
  ag_age :: string
  ag_stamp :: string

definition no_age :: age where "no_age = \<lparr>ag_age = [], ag_stamp = []\<rparr>"

subsection \<open>\<open>params.go\<close>\<close>

definition tickets_path :: string where "tickets_path = ''/tickets''"

definition with_query :: "string \<Rightarrow> string \<Rightarrow> string" where
  "with_query path query = (if query = [] then path else path @ ''?'' @ query)"

record params =
  pa_log :: log_filter
  pa_repo :: string
  pa_project :: string
  pa_feature :: string
  pa_filter :: section_key
  pa_all :: bool

definition no_params :: params where
  "no_params = \<lparr>pa_log = LogFilterUnknown, pa_repo = [], pa_project = [], pa_feature = [], pa_filter = SectionUnknown,
     pa_all = False\<rparr>"

definition normalize_filter :: "string \<Rightarrow> section_key" where
  "normalize_filter s = (case find (\<lambda>k. section_key_text k = s) all_section_keys of Some k \<Rightarrow> k | None \<Rightarrow> SectionUnknown)"

text \<open>The values of a parsed query; \<open>Get\<close> gives the first of a key, or nothing.\<close>

type_synonym url_values = "(string, string list) gomap"

definition first_value :: "url_values \<Rightarrow> string \<Rightarrow> string" where
  "first_value q k = (case get_or [] q k of v # _ \<Rightarrow> v | [] \<Rightarrow> [])"

definition parse_params :: "url_values \<Rightarrow> params" where
  "parse_params q = \<lparr>pa_log = parse_log_filter (first_value q ''log''), pa_repo = first_value q ''repo'',
     pa_project = first_value q ''project'', pa_feature = first_value q ''feature'',
     pa_filter = normalize_filter (first_value q ''filter''), pa_all = (first_value q ''all'' = ''1'')\<rparr>"

definition params_query :: "params \<Rightarrow> string" where
  "params_query v = encode_query
     ((if pa_all v then [(''all'', ''1'')] else []) @
      (if pa_filter v \<noteq> SectionUnknown then [(''filter'', section_key_text (pa_filter v))] else []) @
      (if pa_feature v \<noteq> [] then [(''feature'', pa_feature v)] else []) @
      (if pa_log v \<noteq> LogFilterUnknown \<and> pa_log v \<noteq> LogAll then [(''log'', log_filter_text (pa_log v))] else []) @
      (if pa_repo v \<noteq> [] then [(''repo'', pa_repo v)] else []) @
      (if pa_project v \<noteq> [] then [(''project'', pa_project v)] else []))"

definition with_scope :: "params \<Rightarrow> string \<Rightarrow> string" where
  "with_scope v path = with_query path (params_query (no_params\<lparr>pa_project := pa_project v\<rparr>))"

definition board_path :: "params \<Rightarrow> string" where "board_path v = with_query ''/board'' (params_query v)"

definition verb_path :: "params \<Rightarrow> string" where "verb_path v = with_query ''/verb'' (params_query v)"

text \<open>\<open>RepoPath\<close> of \<open>repos.go\<close>.\<close>

definition repo_path :: "string \<Rightarrow> string" where "repo_path name = ''/repos/'' @ name"

definition page_path :: "params \<Rightarrow> string" where
  "page_path v =
     (if pa_all v then with_query tickets_path (params_query (v\<lparr>pa_all := False\<rparr>))
      else if pa_repo v \<noteq> [] then with_query (repo_path (pa_repo v)) (params_query (v\<lparr>pa_repo := []\<rparr>))
      else if pa_feature v \<noteq> []
      then with_query (''/f/'' @ path_escape (pa_feature v)) (params_query (v\<lparr>pa_feature := []\<rparr>))
      else with_query tickets_path (params_query v))"

definition normalize_repo_scope :: "string \<Rightarrow> store_repo list \<Rightarrow> string" where
  "normalize_repo_scope repo tracked =
     (case find (\<lambda>r. equal_fold (so_name r) repo) tracked of
        Some r \<Rightarrow> if repo = [] then [] else so_name r
      | None \<Rightarrow> [])"

definition no_project :: project where "no_project = \<lparr>pr_name = [], pr_hue = 0, pr_repos = []\<rparr>"

definition normalize_project_scope :: "string \<Rightarrow> project list \<Rightarrow> project" where
  "normalize_project_scope project ps =
     (case find (\<lambda>p. equal_fold (pr_name p) project) ps of
        Some p \<Rightarrow> if project = [] then no_project else p
      | None \<Rightarrow> no_project)"

definition normalize_feature_scope :: "string \<Rightarrow> string list \<Rightarrow> string" where
  "normalize_feature_scope feature known = (if feature \<in> set known then feature else [])"

definition distinct_features :: "store_ticket list \<Rightarrow> string list" where
  "distinct_features ts =
     sort_func str_compare (remdups (filter (\<lambda>f. f \<noteq> []) (map ss_feature ts)))"

definition scoped_params :: "params \<Rightarrow> store_repo list \<Rightarrow> project list \<Rightarrow> store_ticket list \<Rightarrow> params \<times> project" where
  "scoped_params v rs ps ts =
     (let project = normalize_project_scope (pa_project v) ps
      in (v\<lparr>pa_repo := normalize_repo_scope (pa_repo v) rs, pa_project := pr_name project,
            pa_feature := normalize_feature_scope (pa_feature v) (distinct_features ts)\<rparr>, project))"

subsection \<open>\<open>board.go\<close>: rows\<close>

record verb_button =
  vb_verb :: verb
  vb_label :: string
  vb_key :: string
  vb_confirm :: string
  vb_pending :: bool

record row =
  rw_url :: string
  rw_ref :: string
  rw_repo :: string
  rw_feature :: string
  rw_project :: string
  rw_project_hue :: int
  rw_title :: string
  rw_state :: string
  rw_reason :: string
  rw_label :: string
  rw_detail :: string
  rw_updated :: age
  rw_last :: string
  rw_question :: string
  rw_glyph :: glyph_word
  rw_alive :: bool
  rw_verbs :: "verb list"
  rw_branch :: string
  rw_blocked_by :: "string list"
  rw_pending_verbs :: "verb list"
  rw_base :: string
  rw_base_verdict :: string
  rw_stack_depth :: int
  rw_merge_order :: int
  rw_warning :: string
  rw_blocking :: "string list"
  rw_after :: "string list"
  rw_unlocks :: "string list"
  rw_worktree :: string
  rw_pr_number :: int
  rw_pr_state :: string
  rw_pgid :: string
  rw_elapsed :: string
  rw_elapsed_seconds :: int
  rw_elapsed_percent :: int
  rw_log_path :: string
  rw_cancel_count :: int
  rw_spend_tokens :: int
  rw_checks_passed :: int
  rw_checks_total :: int
  rw_checks :: "check list"
  rw_red_checks :: "check list"
  rw_draft :: bool
  rw_draft_reason :: string
  rw_agent_pct_week :: float64
  rw_follow_up_pct_week :: float64
  rw_spend_pct_week :: float64
  rw_ticket_open :: bool
  rw_launchable :: bool
  rw_buttons :: "verb_button list"
  rw_session_path :: string
  rw_verb_path :: string
  rw_log :: log_detail

definition no_row :: row where
  "no_row = \<lparr>rw_url = [], rw_ref = [], rw_repo = [], rw_feature = [], rw_project = [], rw_project_hue = 0, rw_title = [], rw_state = [],
     rw_reason = [], rw_label = [], rw_detail = [], rw_updated = no_age, rw_last = [], rw_question = [],
     rw_glyph = GlyphUnknown, rw_alive = False, rw_verbs = [], rw_branch = [], rw_blocked_by = [], rw_pending_verbs = [],
     rw_base = [], rw_base_verdict = [], rw_stack_depth = 0, rw_merge_order = 0, rw_warning = [], rw_blocking = [],
     rw_after = [], rw_unlocks = [], rw_worktree = [], rw_pr_number = 0, rw_pr_state = [], rw_pgid = [], rw_elapsed = [],
     rw_elapsed_seconds = 0, rw_elapsed_percent = 0, rw_log_path = [], rw_cancel_count = 0, rw_spend_tokens = 0,
     rw_checks_passed = 0, rw_checks_total = 0, rw_checks = [], rw_red_checks = [], rw_draft = False, rw_draft_reason = [],
     rw_agent_pct_week = float_zero, rw_follow_up_pct_week = float_zero, rw_spend_pct_week = float_zero,
     rw_ticket_open = False, rw_launchable = False, rw_buttons = [], rw_session_path = [], rw_verb_path = [],
     rw_log = blank_detail [] False\<rparr>"

text \<open>\<open>cmp.Or\<close> on two texts.\<close>

definition or_else :: "string \<Rightarrow> string \<Rightarrow> string" where
  "or_else a b = (if a \<noteq> [] then a else b)"

definition ref_of :: "string \<Rightarrow> string" where "ref_of url = ''#'' @ path_base url"

text \<open>\<open>[A-Za-z][A-Za-z0-9+.-]*://[^\s,;']*[^\s,;:'.]\<close> and \<open>[;,:]?\s*log at \S+$\<close>\<close>

definition reason_url :: regex where
  "reason_url = cats [One_of letter_chars, Star (One_of (letter_chars @ digit_chars @ ''+.-'')), lit ''://'',
     Star (None_of (blank_chars @ '',;'' @ [tick_mark])), None_of (blank_chars @ '',;:.'' @ [tick_mark])]"

definition reason_log_path :: regex where
  "reason_log_path = cats [maybe (One_of '';,:''), Star (One_of blank_chars), lit ''log at '', plus (None_of blank_chars), At_end]"

definition detail_of :: "string \<Rightarrow> string" where
  "detail_of reason = replace_all reason_url ref_of (replace_all reason_log_path (\<lambda>_. []) reason)"

text \<open>\<open>ParseSessionRef\<close> and the paths of \<open>session.go\<close>: the owner, the name and the number of an issue's address.\<close>

record session_ref =
  sr_owner :: string
  sr_name :: string
  sr_n :: string
  sr_run :: run_id

definition parse_session_ref :: "string \<Rightarrow> session_ref option" where
  "parse_session_ref url =
     (let parts = split_char (CHR ''/'') (trim_suffix url ''/''); n = length parts
      in if n < 5 \<or> parts ! (n - 2) \<noteq> ''issues'' then None
         else Some \<lparr>sr_owner = parts ! (n - 4), sr_name = parts ! (n - 3), sr_n = parts ! (n - 1), sr_run = 0\<rparr>)"

definition ref_path :: "session_ref \<Rightarrow> string" where
  "ref_path r = ''/s/'' @ sr_owner r @ ''/'' @ sr_name r @ ''/'' @ sr_n r"

definition ref_path_with_run :: "session_ref \<Rightarrow> string" where
  "ref_path_with_run r = (if sr_run r = 0 then ref_path r else ref_path r @ ''?run='' @ itoa (sr_run r))"

definition session_path :: "string \<Rightarrow> string" where
  "session_path url = (case parse_session_ref url of None \<Rightarrow> [] | Some r \<Rightarrow> ref_path r)"

definition percent_of :: "int \<Rightarrow> int \<Rightarrow> int" where
  "percent_of part whole = (if whole \<le> 0 then 0 else quot_of (part * 100) whole)"

definition check_elapsed :: "check_state \<Rightarrow> string" where
  "check_elapsed cs =
     (if cs_started_at cs = 0 \<or> \<not> cs_completed_at cs > cs_started_at cs then []
      else format_short (cs_completed_at cs - cs_started_at cs))"

definition sorted_checks :: "(string, check_state) gomap \<Rightarrow> check list" where
  "sorted_checks checks =
     map (\<lambda>(name, cs). \<lparr>ck_name = name, ck_status = cs_status cs, ck_conclusion = cs_conclusion cs,
            ck_details_url = cs_details_url cs, ck_elapsed = check_elapsed cs\<rparr>)
       (sort_func (\<lambda>a b. str_compare (fst a) (fst b)) checks)"

definition red_checks_for :: "string list \<Rightarrow> (string, check_state) gomap \<Rightarrow> check list" where
  "red_checks_for red_leaves checks =
     (if red_leaves = [] then [] else filter (\<lambda>c. ck_name c \<in> set red_leaves) (sorted_checks checks))"

definition ready_to_merge_warning :: "pr \<Rightarrow> string" where
  "ready_to_merge_warning p =
     (if \<not> stacked_ready_to_merge_warning (pr_base_ref p) (pr_labels p) then []
      else ''ready-to-merge on a non-main base ('' @ pr_base_ref p
        @ ''): would squash into the parent branch, checks unseen'')"

definition removal_warning :: "state \<Rightarrow> string \<Rightarrow> string" where
  "removal_warning s detail =
     (if detail = [] \<or> VerbRemoveWorktree \<notin> set (verbs_of s) then [] else ''worktree removal refused: '' @ detail)"

definition run_verdict_label :: "run_fact option \<Rightarrow> string" where
  "run_verdict_label run =
     (case run of
        None \<Rightarrow> []
      | Some r \<Rightarrow> (case rf_verdict r of None \<Rightarrow> [] | Some v \<Rightarrow> kind_text (v_kind v)))"

definition row_red_leaves :: "entry \<Rightarrow> string list" where
  "row_red_leaves e =
     (case e_run e of
        None \<Rightarrow> []
      | Some r \<Rightarrow> (case rf_verdict r of None \<Rightarrow> [] | Some v \<Rightarrow> v_red_leaves v))"

type_synonym project_marks = "(string, project_mark) gomap"

definition ticket_row_of :: "derive_input \<Rightarrow> project_marks \<Rightarrow> store_ticket \<times> entry \<Rightarrow> row" where
  "ticket_row_of inp marks = (\<lambda>(t, e).
     let url = ss_url t;
         obs = di_obs inp;
         pr = get_or no_pr (ob_prs obs) (store_ticket_ref t);
         run = map_of (di_runs inp) url;
         mark = get_or no_mark marks (ss_repo t);
         checks = sorted_checks (pr_checks pr)
     in no_row\<lparr>
       rw_url := url, rw_repo := ss_repo t, rw_feature := ss_feature t, rw_project := mk_name mark,
       rw_project_hue := mk_hue mark, rw_title := get_or [] (ob_titles obs) url, rw_state := state_text (e_state e),
       rw_reason := e_reason e, rw_label := state_label (e_state e), rw_detail := detail_of (e_reason e),
       rw_question := (if e_state e = AwaitingInput then (case run of None \<Rightarrow> [] | Some r \<Rightarrow> rn_question r) else []),
       rw_glyph := state_glyph (e_state e), rw_alive := get_or False (ob_runs obs) url, rw_verbs := verbs_of (e_state e),
       rw_pending_verbs := map it_verb (get_or [] (di_intents inp) url), rw_branch := ss_branch t,
       rw_blocked_by := ss_blocked_by t, rw_base := u_base_branch (e_unlock e),
       rw_worktree := get_or [] (ob_worktrees obs) (store_ticket_ref t), rw_pr_number := pr_number pr,
       rw_pr_state := pr_state_text (pr_state pr),
       rw_pgid := (case run of None \<Rightarrow> [] | Some r \<Rightarrow> (case rn_pgid r of None \<Rightarrow> [] | Some p \<Rightarrow> itoa p)),
       rw_elapsed := (case e_elapsed e of None \<Rightarrow> [] | Some d \<Rightarrow> duration_string d),
       rw_elapsed_seconds := (case e_elapsed e of None \<Rightarrow> 0 | Some d \<Rightarrow> quot_of d second),
       rw_log_path := e_log_path e, rw_cancel_count := lm_members (get_or no_membership (di_memberships inp) url),
       rw_warning := or_else (ready_to_merge_warning pr) (removal_warning (e_state e) (get_or [] (di_removals inp) url)),
       rw_checks := checks, rw_red_checks := red_checks_for (row_red_leaves e) (pr_checks pr),
       rw_blocking := u_blocking (e_unlock e), rw_draft := pr_is_draft pr, rw_draft_reason := e_draft_reason e,
       rw_checks_passed := int (length (filter (\<lambda>c. ck_conclusion c = ''SUCCESS'') checks)),
       rw_checks_total := int (length checks)\<rparr>)"

text \<open>The place of a row in its stack, and its time in proportion to the longest.\<close>

definition place_row :: "(string, string) gomap \<Rightarrow> (string, string) gomap \<Rightarrow> int \<Rightarrow> row \<Rightarrow> row" where
  "place_row labels bases longest r =
     (let depth = stack_depth (rw_branch r) bases
      in r\<lparr>rw_base_verdict := (if rw_base r \<noteq> [] \<and> rw_base r \<noteq> default_base_branch then get_or [] labels (rw_base r) else []),
           rw_stack_depth := depth, rw_merge_order := depth + 1,
           rw_elapsed_percent := percent_of (rw_elapsed_seconds r) longest\<rparr>)"

subsection \<open>\<open>sections.go\<close>\<close>

definition name_row :: "(ticket_url, ticket_url list) gomap \<Rightarrow> (string, glyph_word) gomap \<Rightarrow> row \<Rightarrow> row" where
  "name_row unlocks glyphs r =
     r\<lparr>rw_unlocks := rw_unlocks r @ map ref_of (filter (has_key glyphs) (get_or [] unlocks (rw_url r))),
       rw_after := (if rw_glyph r \<noteq> GlyphBlocked then rw_after r
                    else rw_after r @ map ref_of
                      (filter (\<lambda>b. get_or GlyphUnknown glyphs b \<noteq> GlyphDone) (rw_blocked_by r)))\<rparr>"

definition name_dependencies :: "row list \<Rightarrow> ticket list \<Rightarrow> row list" where
  "name_dependencies rows ts =
     map (name_row (Unlocks ts) (fold (\<lambda>r m. put (rw_url r) (rw_glyph r) m) rows [])) rows"

definition derive_rows :: "store_ticket list \<Rightarrow> derive_input \<Rightarrow> snapshot \<Rightarrow> project_marks \<Rightarrow> row list" where
  "derive_rows ts inp snap marks =
     (let found = List.map_filter (\<lambda>t. map_option (\<lambda>e. (t, e)) (entry_of snap (ss_url t))) ts;
          labels = fold (\<lambda>(t, e) m. put (ss_branch t) (run_verdict_label (e_run e)) m) found [];
          bases = fold (\<lambda>(t, e) m. put (ss_branch t) (u_base_branch (e_unlock e)) m) found [];
          rows = map (ticket_row_of inp marks) found;
          longest = fold (\<lambda>r n. max n (rw_elapsed_seconds r)) rows 0
      in name_dependencies (map (place_row labels bases longest) rows) (di_tickets inp))"

record section_of_rows =
  se_key :: section_key
  se_glyph :: glyph_word
  se_stat :: string
  se_title :: string
  se_rows :: "row list"

definition section_order :: "section_of_rows list" where
  "section_order =
     [\<lparr>se_key = SectionNeedsYou, se_glyph = GlyphAttention, se_stat = ''need you'', se_title = ''Needs you'', se_rows = []\<rparr>,
      \<lparr>se_key = SectionInProgress, se_glyph = GlyphRunning, se_stat = ''in progress'', se_title = ''In progress'', se_rows = []\<rparr>,
      \<lparr>se_key = SectionReady, se_glyph = GlyphReady, se_stat = ''ready'', se_title = ''Ready'', se_rows = []\<rparr>,
      \<lparr>se_key = SectionBlocked, se_glyph = GlyphBlocked, se_stat = ''blocked'', se_title = ''Blocked'', se_rows = []\<rparr>,
      \<lparr>se_key = SectionDone, se_glyph = GlyphDone, se_stat = ''merged'', se_title = ''Done'', se_rows = []\<rparr>]"

fun glyph_section :: "glyph_word \<Rightarrow> section_key" where
  "glyph_section GlyphFailed = SectionNeedsYou"
| "glyph_section GlyphAttention = SectionNeedsYou"
| "glyph_section GlyphRunning = SectionInProgress"
| "glyph_section GlyphPending = SectionInProgress"
| "glyph_section GlyphChecking = SectionInProgress"
| "glyph_section GlyphReady = SectionReady"
| "glyph_section GlyphBlocked = SectionBlocked"
| "glyph_section GlyphDone = SectionDone"
| "glyph_section GlyphUnknown = SectionDone"

definition fill_section :: "row list \<Rightarrow> section_of_rows \<Rightarrow> section_of_rows" where
  "fill_section rows s =
     (let s = (if se_key s = SectionReady then s\<lparr>se_title := ''Ready to launch''\<rparr> else s)
      in s\<lparr>se_rows := se_rows s @ filter (\<lambda>r. glyph_section (rw_glyph r) = se_key s) rows\<rparr>)"

definition sectioned :: "row list \<Rightarrow> section_of_rows list" where
  "sectioned rows = filter (\<lambda>s. se_rows s \<noteq> []) (map (fill_section rows) section_order)"

definition filter_sections :: "section_of_rows list \<Rightarrow> section_key \<Rightarrow> section_of_rows list" where
  "filter_sections sections key =
     (if key = SectionUnknown then sections else filter (\<lambda>s. se_key s = key) sections)"

record filter_tab =
  ft_key :: section_key
  ft_title :: string
  ft_path :: string
  ft_count :: int
  ft_current :: bool

definition filter_tabs :: "section_of_rows list \<Rightarrow> params \<Rightarrow> filter_tab list" where
  "filter_tabs sections v =
     (let counts = fold (\<lambda>s m. put (se_key s) (int (length (se_rows s))) m) sections [];
          sum = sum_list (map (\<lambda>s. int (length (se_rows s))) sections)
      in \<lparr>ft_key = SectionUnknown, ft_title = ''All'', ft_path = with_scope v tickets_path, ft_count = sum,
          ft_current = (pa_filter v = SectionUnknown)\<rparr>
         # map (\<lambda>s. \<lparr>ft_key = se_key s, ft_title = se_title s,
              ft_path = page_path (no_params\<lparr>pa_filter := se_key s, pa_project := pa_project v, pa_all := True\<rparr>),
              ft_count = get_or 0 counts (se_key s), ft_current = (pa_filter v = se_key s)\<rparr>) section_order)"

end
