(* ===== verification/View_Board.thy ===== *)
theory View_Board imports View_Rows begin

text \<open>
  The board and the rail: \<open>internal/web/view/{board,verbs,scope,activity,stack,rail,graph}.go\<close>. Groups hold the rows that
  wait, directly or through others, on one ticket; the rail lists the rows that need somebody, those that run by
  feature, and those that are settled and still have a worktree.
\<close>

subsection \<open>\<open>board.go\<close>: groups\<close>

record row_group =
  rg_root :: "row option"
  rg_children :: "row list"

type_synonym children_map = "(string, row list) gomap"

definition add_child :: "row \<Rightarrow> children_map \<Rightarrow> children_map" where
  "add_child r m = (case rw_blocking r of [] \<Rightarrow> m | root # _ \<Rightarrow> put root (get_or [] m root @ [r]) m)"

definition children_by_root :: "row list \<Rightarrow> children_map" where
  "children_by_root rows = fold add_child rows []"

text \<open>The rows not seen before, and what is seen after them.\<close>

fun unseen_rows :: "string list \<Rightarrow> row list \<Rightarrow> row list" where
  "unseen_rows seen [] = []"
| "unseen_rows seen (r # rs) =
     (if rw_url r \<in> set seen then unseen_rows seen rs else r # unseen_rows (rw_url r # seen) rs)"

lemma unseen_rows_distinct:
  "distinct (map rw_url (unseen_rows seen rs)) \<and> rw_url ` set (unseen_rows seen rs) \<inter> set seen = {}
   \<and> set (unseen_rows seen rs) \<subseteq> set rs"
proof (induction seen rs rule: unseen_rows.induct)
  case (2 seen r rs)
  then show ?case by (auto simp: image_iff)
qed simp

definition child_urls :: "children_map \<Rightarrow> string set" where
  "child_urls m = rw_url ` (\<Union>p \<in> set m. set (snd p))"

lemma finite_child_urls [simp]: "finite (child_urls m)"
  by (simp add: child_urls_def)

lemma get_or_child_urls: "r \<in> set (get_or [] m u) \<Longrightarrow> rw_url r \<in> child_urls m"
  by (cases "has_key m u") (force simp: child_urls_def dest: get_or_in, simp add: get_or_no_key)

lemma new_rows_fewer:
  assumes "new = unseen_rows seen (get_or [] m u)"
  shows "card (child_urls m - set (map rw_url new @ seen)) + length new = card (child_urls m - set seen)"
proof -
  from unseen_rows_distinct [of seen "get_or [] m u"] assms
  have new: "distinct (map rw_url new)" "rw_url ` set new \<inter> set seen = {}" "set new \<subseteq> set (get_or [] m u)" by auto
  from new(3) get_or_child_urls have sub: "rw_url ` set new \<subseteq> child_urls m - set seen" using new(2) by auto
  have "child_urls m - set (map rw_url new @ seen) = (child_urls m - set seen) - rw_url ` set new" by auto
  moreover have "card (rw_url ` set new) = length new" using distinct_card [OF new(1)] by simp
  moreover have "card (rw_url ` set new) \<le> card (child_urls m - set seen)" by (rule card_mono) (simp_all add: sub)
  ultimately show ?thesis using card_Diff_subset [of "rw_url ` set new"] sub by simp
qed

text \<open>The queue of \<open>flattenChain\<close>: every round takes one ticket off and adds its children not seen yet.\<close>

function chain_loop :: "children_map \<Rightarrow> string list \<Rightarrow> string list \<Rightarrow> row list \<Rightarrow> row list" where
  "chain_loop m seen [] found = found"
| "chain_loop m seen (u # queue) found =
     (let new = unseen_rows seen (get_or [] m u)
      in chain_loop m (map rw_url new @ seen) (queue @ map rw_url new) (found @ new))"
  by pat_completeness auto

termination
proof (relation "measure (\<lambda>(m, seen, queue, found). card (child_urls m - set seen) + length queue)", goal_cases)
  case (2 m seen u queue found new)
  from new_rows_fewer [OF 2] show ?case by simp
qed simp

definition flatten_chain :: "string \<Rightarrow> children_map \<Rightarrow> row list" where
  "flatten_chain root m = chain_loop m [root] [root] []"

definition compare_members :: "row \<Rightarrow> row \<Rightarrow> int" where
  "compare_members a b =
     (if rw_merge_order a \<noteq> rw_merge_order b then int_compare (rw_merge_order a) (rw_merge_order b)
      else str_compare (rw_url a) (rw_url b))"

definition rows_by_url :: "row list \<Rightarrow> (string, row) gomap" where
  "rows_by_url rows = fold (\<lambda>r m. put (rw_url r) r m) rows []"

definition root_urls :: "children_map \<Rightarrow> string list" where
  "root_urls m = sort_func str_compare (filter (\<lambda>u. u \<notin> child_urls m) (map fst m))"

definition root_group :: "row list \<Rightarrow> children_map \<Rightarrow> string \<Rightarrow> row_group" where
  "root_group rows m root =
     \<lparr>rg_root = Some (get_or no_row (rows_by_url rows) root),
      rg_children = sort_func compare_members (flatten_chain root m)\<rparr>"

definition group_rows :: "row list \<Rightarrow> row_group list" where
  "group_rows rows =
     (let m = children_by_root rows;
          ungrouped = filter (\<lambda>r. rw_blocking r = [] \<and> \<not> has_key m (rw_url r)) rows
      in map (root_group rows m) (root_urls m)
         @ map (\<lambda>r. \<lparr>rg_root = None, rg_children = [r]\<rparr>) (sort_func (\<lambda>a b. str_compare (rw_url a) (rw_url b)) ungrouped))"

definition group_in_scope :: "row_group \<Rightarrow> string \<Rightarrow> (row \<Rightarrow> string) \<Rightarrow> bool" where
  "group_in_scope g scope scope_of \<longleftrightarrow>
     (case rg_root g of None \<Rightarrow> False | Some r \<Rightarrow> scope_of r = scope) \<or> list_ex (\<lambda>c. scope_of c = scope) (rg_children g)"

definition filter_groups :: "row_group list \<Rightarrow> string \<Rightarrow> (row \<Rightarrow> string) \<Rightarrow> row_group list" where
  "filter_groups groups scope scope_of =
     (if scope = [] then groups else filter (\<lambda>g. group_in_scope g scope scope_of) groups)"

definition filter_groups_by_repo :: "row_group list \<Rightarrow> string \<Rightarrow> row_group list" where
  "filter_groups_by_repo groups repo = filter_groups groups repo rw_repo"

definition filter_groups_by_feature :: "row_group list \<Rightarrow> string \<Rightarrow> row_group list" where
  "filter_groups_by_feature groups feature = filter_groups groups feature rw_feature"

definition filter_groups_by_project :: "row_group list \<Rightarrow> string list \<Rightarrow> row_group list" where
  "filter_groups_by_project groups rs =
     filter (\<lambda>g. \<not> ((case rg_root g of None \<Rightarrow> True | Some r \<Rightarrow> rw_repo r \<notin> set rs)
                     \<and> \<not> list_ex (\<lambda>c. rw_repo c \<in> set rs) (rg_children g))) groups"

definition group_members :: "row_group \<Rightarrow> row list" where
  "group_members g = (case rg_root g of None \<Rightarrow> [] | Some r \<Rightarrow> [r]) @ rg_children g"

definition rows_in :: "row_group list \<Rightarrow> row list" where
  "rows_in groups = concat (map group_members groups)"

subsection \<open>\<open>graph.go\<close>\<close>

definition graph_row :: "row \<Rightarrow> row" where
  "graph_row r = r\<lparr>rw_ref := ref_of (rw_url r), rw_session_path := session_path (rw_url r)\<rparr>"

definition graph :: "row_group list \<Rightarrow> row_group list" where
  "graph groups = map (\<lambda>g. \<lparr>rg_root = map_option graph_row (rg_root g), rg_children = map graph_row (rg_children g)\<rparr>) groups"

subsection \<open>\<open>verbs.go\<close>\<close>

definition confirmation :: "verb \<Rightarrow> row \<Rightarrow> string \<Rightarrow> string \<Rightarrow> string \<Rightarrow> string" where
  "confirmation v r effect risk_label risk =
     verb_text v @ '' on '' @ rw_url r @ '' '' @ effect @ ''. It cannot be undone. '' @ risk_label @ '' at risk: ''
     @ or_else risk ''none recorded''"

definition verb_key :: "verb \<Rightarrow> string" where
  "verb_key v = (case v of VerbReRun \<Rightarrow> ''r'' | VerbRemoveWorktree \<Rightarrow> ''e'' | _ \<Rightarrow> [])"

definition verb_label_for :: "verb \<Rightarrow> row \<Rightarrow> string" where
  "verb_label_for v r = (if v = VerbCancel then ''cancel launch ('' @ itoa (rw_cancel_count r) @ '' tickets)'' else verb_text v)"

definition verb_confirm :: "verb \<Rightarrow> row \<Rightarrow> string" where
  "verb_confirm v r =
     (case v of
        VerbKill \<Rightarrow> confirmation VerbKill r
          ''signals the process group of its live agent run, stopping it where it is'' ''pgid'' (rw_pgid r)
      | VerbRemoveWorktree \<Rightarrow> confirmation VerbRemoveWorktree r
          ''closes its GitHub issue, deletes its worktree from disk, and drops it from the board'' ''worktree'' (rw_worktree r)
      | _ \<Rightarrow> [])"

definition verb_buttons :: "row \<Rightarrow> verb_button list" where
  "verb_buttons r =
     map (\<lambda>v. \<lparr>vb_verb = v, vb_label = verb_label_for v r, vb_key = verb_key v, vb_confirm = verb_confirm v r,
            vb_pending = (v \<in> set (rw_pending_verbs r))\<rparr>)
       (filter (\<lambda>v. v \<noteq> VerbLaunch \<and> v \<noteq> VerbFollowUp) (rw_verbs r))"

definition apply_view_state :: "params \<Rightarrow> row list \<Rightarrow> row list" where
  "apply_view_state v rows =
     map (\<lambda>r. let r = r\<lparr>rw_session_path := with_scope v (or_else (session_path (rw_url r)) tickets_path),
                rw_verb_path := verb_path v, rw_launchable := (VerbLaunch \<in> set (rw_verbs r))\<rparr>
              in r\<lparr>rw_buttons := verb_buttons r\<rparr>) rows"

subsection \<open>\<open>activity.go\<close>\<close>

definition short_age :: "duration \<Rightarrow> string" where
  "short_age d =
     (if d < minute then ''now''
      else if d < hour then itoa (d div minute) @ ''m''
      else if d < 24 * hour then itoa (d div hour) @ ''h''
      else itoa (d div (24 * hour)) @ ''d'')"

definition first_message_line :: "string \<Rightarrow> string" where
  "first_message_line s =
     (case find (\<lambda>l. l \<noteq> []) (map trim_space (split_char newline s)) of Some l \<Rightarrow> l | None \<Rightarrow> [])"

definition apply_activities :: "row list \<Rightarrow> (string \<times> time \<times> string) list \<Rightarrow> time \<Rightarrow> row list" where
  "apply_activities rows acts now =
     (let by_ticket = fold (\<lambda>(u, a) m. put u a m) acts []
      in map (\<lambda>r. case map_of by_ticket (rw_url r) of
           None \<Rightarrow> r
         | Some (at, message) \<Rightarrow>
             r\<lparr>rw_updated := \<lparr>ag_age = short_age (now - at), ag_stamp = rfc3339 at\<rparr>,
               rw_last := first_message_line message\<rparr>) rows)"

subsection \<open>Every row is in one group\<close>

lemma children_step:
  "set (get_or [] (fold add_child rows m) u)
     = set (get_or [] m u) \<union> {r \<in> set rows. rw_blocking r \<noteq> [] \<and> hd (rw_blocking r) = u}"
  by (induction rows arbitrary: m) (auto simp: add_child_def split: list.split)

lemma children_of: "c \<in> set (get_or [] (children_by_root rows) u) \<longleftrightarrow> c \<in> set rows \<and> rw_blocking c \<noteq> [] \<and> hd (rw_blocking c) = u"
  by (auto simp: children_by_root_def children_step)

lemma keys_step:
  "set (map fst (fold add_child rows m)) = set (map fst m) \<union> {hd (rw_blocking r) |r. r \<in> set rows \<and> rw_blocking r \<noteq> []}
   \<and> (distinct (map fst m) \<longrightarrow> distinct (map fst (fold add_child rows m)))"
proof (induction rows arbitrary: m)
  case (Cons r rows)
  have "set (map fst (add_child r m)) = set (map fst m) \<union> (if rw_blocking r = [] then {} else {hd (rw_blocking r)})"
    by (auto simp: add_child_def dom_update split: list.split)
  moreover have "distinct (map fst m) \<longrightarrow> distinct (map fst (add_child r m))"
    by (auto simp: add_child_def distinct_update split: list.split)
  ultimately show ?case using Cons [of "add_child r m"] by auto
qed simp

lemma child_values:
  "\<forall>p \<in> set m. \<forall>c \<in> set (snd p). c \<in> S \<Longrightarrow> \<forall>r \<in> set rows. rw_blocking r \<noteq> [] \<longrightarrow> r \<in> S
   \<Longrightarrow> \<forall>p \<in> set (fold add_child rows m). \<forall>c \<in> set (snd p). c \<in> S"
proof (induction rows arbitrary: m)
  case (Cons r rows)
  have "\<forall>p \<in> set (add_child r m). \<forall>c \<in> set (snd p). c \<in> S"
  proof (cases "rw_blocking r")
    case (Cons root us)
    have "c \<in> S" if "c \<in> set (get_or [] m root)" for c
      using that Cons.prems(1) get_or_in [of m root "[]"] get_or_no_key [of m root "[]"] by (cases "has_key m root") force+
    with Cons Cons.prems show ?thesis by (auto simp: add_child_def dest!: set_put)
  qed (simp add: add_child_def Cons.prems)
  with Cons show ?case by simp
qed simp

text \<open>The addresses of the rows that wait on another.\<close>

lemma child_urls_rows: "child_urls (children_by_root rows) = rw_url ` {r \<in> set rows. rw_blocking r \<noteq> []}"
proof
  let ?S = "{r \<in> set rows. rw_blocking r \<noteq> []}"
  have "\<forall>p \<in> set (children_by_root rows). \<forall>c \<in> set (snd p). c \<in> ?S"
    unfolding children_by_root_def by (rule child_values) auto
  then show "child_urls (children_by_root rows) \<subseteq> rw_url ` ?S" by (auto simp: child_urls_def)
  show "rw_url ` ?S \<subseteq> child_urls (children_by_root rows)"
    using get_or_child_urls children_of by fastforce
qed

inductive descends :: "children_map \<Rightarrow> string \<Rightarrow> row \<Rightarrow> bool" for m root where
  direct: "c \<in> set (get_or [] m root) \<Longrightarrow> descends m root c"
| through: "descends m root p \<Longrightarrow> c \<in> set (get_or [] m (rw_url p)) \<Longrightarrow> descends m root c"

lemma descends_child: "descends m root c \<Longrightarrow> rw_url c \<in> child_urls m"
  by (induction rule: descends.induct) (simp_all add: get_or_child_urls)

text \<open>What the queue has done: a ticket that left it has all its children seen.\<close>

definition chained :: "children_map \<Rightarrow> string \<Rightarrow> string list \<Rightarrow> string list \<Rightarrow> row list \<Rightarrow> bool" where
  "chained m root seen queue found \<longleftrightarrow>
     set seen = insert root (rw_url ` set found) \<and> set queue \<subseteq> set seen
     \<and> (\<forall>u \<in> set seen - set queue. \<forall>c \<in> set (get_or [] m u). rw_url c \<in> set seen)
     \<and> distinct (map rw_url found) \<and> root \<notin> rw_url ` set found \<and> (\<forall>r \<in> set found. descends m root r)"

lemma chained_step:
  assumes "chained m root seen (u # queue) found" and "new = unseen_rows seen (get_or [] m u)"
  shows "chained m root (map rw_url new @ seen) (queue @ map rw_url new) (found @ new)"
proof -
  from unseen_rows_distinct [of seen "get_or [] m u"] assms(2)
  have new: "distinct (map rw_url new)" "rw_url ` set new \<inter> set seen = {}" "set new \<subseteq> set (get_or [] m u)" by auto
  have all: "\<forall>c \<in> set rs. rw_url c \<in> set seen \<union> rw_url ` set (unseen_rows seen rs)" for seen and rs :: "row list"
    by (induction seen rs rule: unseen_rows.induct) auto
  from assms(1) have seen: "set seen = insert root (rw_url ` set found)" and queue: "u \<in> set seen" "set queue \<subseteq> set seen"
    and closed: "\<And>v c. v \<in> set seen \<Longrightarrow> v \<notin> set (u # queue) \<Longrightarrow> c \<in> set (get_or [] m v) \<Longrightarrow> rw_url c \<in> set seen"
    and dist: "distinct (map rw_url found)" and root: "root \<notin> rw_url ` set found"
    and desc: "\<And>r. r \<in> set found \<Longrightarrow> descends m root r"
    unfolding chained_def by (simp_all only: set_simps insert_subset) blast+
  from seen queue(1) have "u = root \<or> (\<exists>p \<in> set found. u = rw_url p)" by auto
  then have down: "descends m root c" if "c \<in> set new" for c
    using that new(3) desc by (auto intro: descends.intros)
  show ?thesis unfolding chained_def
  proof (intro conjI)
    show "\<forall>v \<in> set (map rw_url new @ seen) - set (queue @ map rw_url new).
        \<forall>c \<in> set (get_or [] m v). rw_url c \<in> set (map rw_url new @ seen)"
    proof (intro ballI)
      fix v c
      assume v: "v \<in> set (map rw_url new @ seen) - set (queue @ map rw_url new)" and c: "c \<in> set (get_or [] m v)"
      show "rw_url c \<in> set (map rw_url new @ seen)"
      proof (cases "v = u")
        case True
        with c all [of "get_or [] m u" seen] assms(2) show ?thesis by auto
      next
        case False
        with v have "v \<in> set seen" "v \<notin> set (u # queue)" by auto
        with c closed show ?thesis by auto
      qed
    qed
    show "set (map rw_url new @ seen) = insert root (rw_url ` set (found @ new))" using seen by auto
    show "set (queue @ map rw_url new) \<subseteq> set (map rw_url new @ seen)" using queue by auto
    show "distinct (map rw_url (found @ new))" using dist new(1,2) seen by auto
    show "root \<notin> rw_url ` set (found @ new)" using root new(2) seen by auto
    show "\<forall>r \<in> set (found @ new). descends m root r" using desc down by auto
  qed
qed

lemma chain_loop_chained:
  "chained m root seen queue found \<Longrightarrow>
     \<exists>seen'. chained m root seen' [] (chain_loop m seen queue found)"
proof (induction m seen queue found rule: chain_loop.induct)
  case (2 m seen u queue found)
  then show ?case using chained_step [OF 2(2) refl] by (simp add: Let_def)
qed auto

lemma flatten_chain_descends:
  "distinct (map rw_url (flatten_chain root m)) \<and> root \<notin> rw_url ` set (flatten_chain root m)
   \<and> (\<forall>r \<in> set (flatten_chain root m). descends m root r)
   \<and> (\<forall>r. descends m root r \<longrightarrow> rw_url r \<in> insert root (rw_url ` set (flatten_chain root m)))"
proof -
  have "chained m root [root] [root] []" by (simp add: chained_def)
  from chain_loop_chained [OF this] obtain seen where c: "chained m root seen [] (flatten_chain root m)"
    by (auto simp: flatten_chain_def)
  then have closed: "\<forall>u \<in> set seen. \<forall>c \<in> set (get_or [] m u). rw_url c \<in> set seen" and "root \<in> set seen"
    unfolding chained_def by simp_all blast
  have "rw_url r \<in> set seen" if "descends m root r" for r
    using that by (induction rule: descends.induct) (use closed \<open>root \<in> set seen\<close> in blast)+
  with c show ?thesis by (auto simp: chained_def)
qed

lemma descends_root_unique:
  assumes "descends (children_by_root rows) a r" and "descends (children_by_root rows) b r"
    and "a \<notin> child_urls (children_by_root rows)" and "b \<notin> child_urls (children_by_root rows)"
    and "inj_on rw_url (set rows)"
  shows "a = b"
  using assms(1,2)
proof (induction rule: descends.induct)
  case (direct c)
  from direct(2) show ?case
  proof cases
    case (through p)
    with direct(1) descends_child [OF through(1)] assms(3) show ?thesis by (auto simp: children_of)
  qed (use direct(1) in \<open>simp add: children_of\<close>)
next
  case (through p c)
  from through(4) show ?case
  proof cases
    case direct
    with through(2) descends_child [OF through(1)] assms(4) show ?thesis by (auto simp: children_of)
  next
    case (through q)
    have same: "rw_url q = rw_url p" using through(2) \<open>c \<in> set (get_or [] (children_by_root rows) (rw_url p))\<close> by (simp add: children_of)
    have row: "x \<in> set rows" if "descends (children_by_root rows) y x" for x y using that by cases (auto simp: children_of)
    have "q = p" using inj_onD [OF assms(5) same] row [OF through(1)] row [OF \<open>descends (children_by_root rows) a p\<close>] by simp
    with through(1) \<open>descends (children_by_root rows) b p \<Longrightarrow> a = b\<close> show ?thesis by simp
  qed
qed

lemma distinct_concat_map:
  "distinct xs \<Longrightarrow> \<forall>x \<in> set xs. distinct (f x) \<Longrightarrow> (\<And>x y z. x \<in> set xs \<Longrightarrow> y \<in> set xs \<Longrightarrow> z \<in> set (f x) \<Longrightarrow> z \<in> set (f y) \<Longrightarrow> x = y)
   \<Longrightarrow> distinct (concat (map f xs))"
proof (induction xs)
  case (Cons x xs)
  have "distinct (concat (map f xs))" using Cons.prems by (intro Cons.IH) auto
  moreover have "set (f x) \<inter> set (f y) = {}" if "y \<in> set xs" for y
    using Cons.prems(1) Cons.prems(3) [of x y] that by auto
  ultimately show ?case using Cons.prems(2) by auto
qed simp

lemma rows_by_url_step:
  "(\<exists>r \<in> set rows. rw_url r = u \<and> get_or no_row (fold (\<lambda>r m. put (rw_url r) r m) rows m) u = r)
   \<or> u \<notin> rw_url ` set rows \<and> get_or no_row (fold (\<lambda>r m. put (rw_url r) r m) rows m) u = get_or no_row m u"
proof (induction rows arbitrary: m)
  case (Cons x xs)
  from Cons [of "put (rw_url x) x m"] show ?case by (cases "u = rw_url x") auto
qed simp

lemma rows_by_url_get:
  assumes "inj_on rw_url (set rows)" and "r \<in> set rows"
  shows "get_or no_row (rows_by_url rows) (rw_url r) = r"
  using rows_by_url_step [of rows "rw_url r" "[]"] assms unfolding rows_by_url_def by (auto dest: inj_onD)

text \<open>The rows form a forest: who waits, waits on a row of the board, and the waiting has an end.\<close>

definition waits_end :: "row list \<Rightarrow> (string \<Rightarrow> nat) \<Rightarrow> bool" where
  "waits_end rows rank \<longleftrightarrow> (\<forall>r \<in> set rows. rw_blocking r \<noteq> [] \<longrightarrow>
     hd (rw_blocking r) \<in> rw_url ` set rows \<and> rank (hd (rw_blocking r)) < rank (rw_url r))"

lemma descends_rows: "descends (children_by_root rows) root r \<Longrightarrow> r \<in> set rows \<and> rw_blocking r \<noteq> []"
  by (cases rule: descends.cases) (auto simp: children_of)

lemma root_exists:
  assumes "waits_end rows rank" and "r \<in> set rows" and "rw_blocking r \<noteq> []"
  shows "\<exists>root. descends (children_by_root rows) root r \<and> root \<in> set (root_urls (children_by_root rows))"
  using assms(2,3)
proof (induction "rank (rw_url r)" arbitrary: r rule: less_induct)
  case less
  let ?m = "children_by_root rows" and ?u = "hd (rw_blocking r)"
  have child: "r \<in> set (get_or [] ?m ?u)" using less.prems by (simp add: children_of)
  show ?case
  proof (cases "?u \<in> child_urls ?m")
    case False
    have "?u \<in> set (map fst ?m)" unfolding children_by_root_def using keys_step [of rows "[]"] less.prems by auto
    with False child show ?thesis by (auto simp: root_urls_def intro: descends.direct)
  next
    case True
    then obtain p where p: "p \<in> set rows" "rw_blocking p \<noteq> []" "rw_url p = ?u" by (auto simp: child_urls_rows)
    then have "rank (rw_url p) < rank (rw_url r)" using assms(1) less.prems by (simp add: waits_end_def)
    from less.hyps [OF this p(1,2)] obtain root where "descends ?m root p" "root \<in> set (root_urls ?m)" by blast
    with descends.through [of ?m root p r] child p(3) show ?thesis by auto
  qed
qed

definition root_members :: "row list \<Rightarrow> string \<Rightarrow> row list" where
  "root_members rows root = group_members (root_group rows (children_by_root rows) root)"

lemma root_row:
  assumes "waits_end rows rank" and "inj_on rw_url (set rows)" and "root \<in> set (root_urls (children_by_root rows))"
  shows "\<exists>p \<in> set rows. rw_url p = root \<and> rw_blocking p = [] \<and> get_or no_row (rows_by_url rows) root = p"
proof -
  from assms(3) have key: "root \<in> set (map fst (children_by_root rows))" and free: "root \<notin> child_urls (children_by_root rows)"
    by (auto simp: root_urls_def)
  from key obtain r where "r \<in> set rows" "rw_blocking r \<noteq> []" "hd (rw_blocking r) = root"
    unfolding children_by_root_def using keys_step [of rows "[]"] by auto
  with assms(1) obtain p where p: "p \<in> set rows" "rw_url p = root" by (auto simp: waits_end_def)
  with free have "rw_blocking p = []" by (auto simp: child_urls_rows)
  with p rows_by_url_get [OF assms(2) p(1)] show ?thesis by auto
qed

lemma root_members_set:
  assumes "waits_end rows rank" and "inj_on rw_url (set rows)" and "root \<in> set (root_urls (children_by_root rows))"
  shows "set (root_members rows root) = {r \<in> set rows. rw_url r = root \<or> descends (children_by_root rows) root r}
    \<and> distinct (map rw_url (root_members rows root))"
proof -
  let ?m = "children_by_root rows" and ?c = "flatten_chain root (children_by_root rows)"
  from root_row [OF assms] obtain p where p: "p \<in> set rows" "rw_url p = root" "get_or no_row (rows_by_url rows) root = p" by blast
  from flatten_chain_descends [of root ?m] have dist: "distinct (map rw_url ?c)" "root \<notin> rw_url ` set ?c"
    and desc: "\<And>r. r \<in> set ?c \<Longrightarrow> descends ?m root r"
    and all: "\<And>r. descends ?m root r \<Longrightarrow> rw_url r \<in> insert root (rw_url ` set ?c)" by auto
  have members: "set (root_members rows root) = insert p (set ?c)"
    using p(3) by (simp add: root_members_def group_members_def root_group_def)
  have "insert p (set ?c) = {r \<in> set rows. rw_url r = root \<or> descends ?m root r}"
  proof (intro set_eqI iffI)
    fix r
    assume "r \<in> insert p (set ?c)"
    with p desc descends_rows show "r \<in> {r \<in> set rows. rw_url r = root \<or> descends ?m root r}" by blast
  next
    fix r
    assume r: "r \<in> {r \<in> set rows. rw_url r = root \<or> descends ?m root r}"
    with all have "rw_url r \<in> rw_url ` insert p (set ?c)" using p(2) by auto
    then obtain q where q: "q \<in> insert p (set ?c)" "rw_url r = rw_url q" by auto
    with p(1) desc descends_rows have "q \<in> set rows" by blast
    with q r assms(2) show "r \<in> insert p (set ?c)" by (auto dest: inj_onD)
  qed
  moreover have "distinct (map rw_url (root_members rows root))"
  proof -
    have "mset (map rw_url (sort_func compare_members ?c)) = mset (map rw_url ?c)" by simp
    then have "distinct (map rw_url (sort_func compare_members ?c))" using dist(1) by (metis mset_eq_imp_distinct_iff)
    with p dist(2) show ?thesis by (simp add: root_members_def group_members_def root_group_def)
  qed
  ultimately show ?thesis using members by simp
qed


definition sample_rows :: "row list" where
  "sample_rows = [no_row\<lparr>rw_url := ''a''\<rparr>, no_row\<lparr>rw_url := ''b'', rw_blocking := [''a'']\<rparr>, no_row\<lparr>rw_url := ''c''\<rparr>]"


text \<open>Two tickets that wait on each other are in no group, so no page shows them.\<close>

definition mutual_rows :: "row list" where
  "mutual_rows = [no_row\<lparr>rw_url := ''a'', rw_blocking := [''b'']\<rparr>, no_row\<lparr>rw_url := ''b'', rw_blocking := [''a'']\<rparr>]"

lemma mutual_rows_vanish: "group_rows mutual_rows = []"
proof -
  have m: "children_by_root mutual_rows = [(''b'', [mutual_rows ! 0]), (''a'', [mutual_rows ! 1])]"
    by (simp add: children_by_root_def mutual_rows_def add_child_def no_row_def)
  show ?thesis by (simp add: group_rows_def m root_urls_def child_urls_def) (simp add: mutual_rows_def no_row_def)
qed
end
