(* ===== verification/View_Rail.thy ===== *)
theory View_Rail imports View_Board begin

text \<open>
  The rail, the scopes, the stack of a ticket and the banner of a repository:
  \<open>internal/web/view/{rail,scope,stack,banner,chrome}.go\<close>, as functions of rows and of the rows of the store.
\<close>

subsection \<open>\<open>scope.go\<close>\<close>

record scope_entry =
  sc_label :: string
  sc_kind :: string
  sc_value :: string
  sc_hue :: int
  sc_initial :: string
  sc_path :: string

definition scope_project :: string where "scope_project = ''project''"
definition scope_repo :: string where "scope_repo = ''repo''"

text \<open>The first rune in upper case: a byte for the names a project may have, which begin with a letter or a digit.\<close>

definition initial :: "string \<Rightarrow> string" where
  "initial name = map upper_byte (take (case utf8_len name of Some n \<Rightarrow> n | None \<Rightarrow> 1) name)"

definition compare_fold :: "string \<Rightarrow> string \<Rightarrow> int" where
  "compare_fold a b = str_compare (lower_text a) (lower_text b)"

definition project_entry :: "project \<Rightarrow> scope_entry" where
  "project_entry p = \<lparr>sc_label = pr_name p, sc_kind = scope_project, sc_value = pr_name p, sc_hue = pr_hue p,
     sc_initial = initial (pr_name p), sc_path = ''/tickets?project='' @ query_escape (pr_name p)\<rparr>"

definition repo_entry :: "store_repo \<Rightarrow> scope_entry" where
  "repo_entry r = \<lparr>sc_label = so_name r, sc_kind = scope_repo, sc_value = so_name r, sc_hue = 0, sc_initial = [],
     sc_path = ''/tickets?repo='' @ query_escape (so_name r)\<rparr>"

definition scope_list :: "project list \<Rightarrow> store_repo list \<Rightarrow> scope_entry list" where
  "scope_list ps rs =
     sort_func (\<lambda>a b. compare_fold (sc_label a) (sc_label b)) (map project_entry ps)
     @ sort_func (\<lambda>a b. str_compare (sc_label a) (sc_label b)) (map repo_entry (filter (\<lambda>r. so_project r = []) rs))"

definition max_scope_keys :: nat where "max_scope_keys = 9"

record scope_choice =
  sh_entry :: scope_entry
  sh_key :: string
  sh_current :: bool
  sh_avatar :: bool

definition scope_choice_of :: "string \<Rightarrow> string \<Rightarrow> nat \<times> scope_entry \<Rightarrow> scope_choice" where
  "scope_choice_of project repo = (\<lambda>(i, e).
     \<lparr>sh_entry = e, sh_key = (if i < max_scope_keys then ''g '' @ nat_text (i + 1) else []),
      sh_current = (sc_kind e = scope_project \<and> sc_value e = project
        \<or> sc_kind e = scope_repo \<and> project = [] \<and> sc_value e = repo),
      sh_avatar = (sc_kind e = scope_project)\<rparr>)"

definition scope_choices :: "scope_entry list \<Rightarrow> string \<Rightarrow> string \<Rightarrow> scope_choice list" where
  "scope_choices es project repo = map (scope_choice_of project repo) (zip [0..<length es] es)"

definition row_mark :: "row \<Rightarrow> project_mark" where
  "row_mark r = \<lparr>mk_name = rw_project r, mk_hue = rw_project_hue r\<rparr>"

definition compare_marks :: "project_mark \<Rightarrow> project_mark \<Rightarrow> int" where
  "compare_marks a b =
     (let c = compare_fold (mk_name a) (mk_name b) in if c \<noteq> 0 then c else str_compare (mk_name a) (mk_name b))"

definition all_hues :: "int list" where "all_hues = [min_hue..max_hue]"

text \<open>A hue out of range would be an index out of range; the store takes no other.\<close>

definition hue_uses :: "project list \<Rightarrow> int \<Rightarrow> nat" where
  "hue_uses ps hue = length (filter (\<lambda>p. pr_hue p = hue) ps)"

definition least_used_hue :: "project list \<Rightarrow> int" where
  "least_used_hue ps = fold (\<lambda>hue best. if hue_uses ps hue < hue_uses ps best then hue else best) all_hues min_hue"

subsection \<open>\<open>rail.go\<close>\<close>

record rail_item =
  ri_url :: string
  ri_ref :: string
  ri_title :: string
  ri_repo :: string
  ri_feature :: string
  ri_project :: project_mark
  ri_glyph :: glyph_word
  ri_label :: string
  ri_detail :: string
  ri_verb :: verb
  ri_reply :: bool
  ri_path :: string
  ri_selected :: bool
  ri_started :: string
  ri_updated :: age
  ri_last :: string

record rail_feature =
  rf_key :: string
  rf_name :: string
  rf_open :: bool
  rf_marks :: "project_mark list"
  rf_live :: "rail_item list"
  rf_blocked :: int
  rf_ready :: int
  rf_merged :: int
  rf_total :: int

record rail_page =
  rl_needs_you :: "rail_item list"
  rl_features :: "rail_feature list"
  rl_settled_key :: string
  rl_settled_open :: bool
  rl_settled :: "rail_item list"
  rl_query :: string

record rail_params =
  rp_sel :: string
  rp_open :: "string list"
  rp_query :: string
  rp_project :: string
  rp_repo :: string
  rp_project_repos :: "string list"

definition rail_settled_key :: string where "rail_settled_key = ''settled''"

definition no_match :: "rail_page \<Rightarrow> bool" where
  "no_match r \<longleftrightarrow> rl_query r \<noteq> [] \<and> rl_needs_you r = [] \<and> rl_features r = [] \<and> rl_settled r = []"

definition waiting_line :: "rail_feature \<Rightarrow> string" where
  "waiting_line f = join '', ''
     ((if rf_blocked f > 0 then [itoa (rf_blocked f) @ '' blocked''] else []) @
      (if rf_ready f > 0 then [itoa (rf_ready f) @ '' ready''] else []))"

definition scope_rail_rows :: "row list \<Rightarrow> rail_params \<Rightarrow> row list" where
  "scope_rail_rows rows v =
     (if rp_repo v = [] \<and> rp_project v = [] then rows
      else
        let groups = filter_groups_by_repo (group_rows rows) (rp_repo v);
            groups = (if rp_project v \<noteq> [] then filter_groups_by_project groups (rp_project_repos v) else groups)
        in rows_in groups)"

definition rail_feature_key :: "row \<Rightarrow> string \<times> string" where
  "rail_feature_key r =
     (if rw_feature r = [] then (''repo:'' @ rw_repo r, rw_repo r) else (''feature:'' @ rw_feature r, rw_feature r))"

definition glyph_rank :: "glyph_word \<Rightarrow> int" where "glyph_rank g = (if g = GlyphFailed then 0 else 1)"

definition ref_number :: "string \<Rightarrow> int" where
  "ref_number url = (case atoi (path_base url) of Some n \<Rightarrow> n | None \<Rightarrow> 0)"

definition by_repo_then_ref :: "rail_item \<Rightarrow> rail_item \<Rightarrow> int" where
  "by_repo_then_ref a b =
     (let c = str_compare (ri_repo a) (ri_repo b); d = int_compare (ref_number (ri_url a)) (ref_number (ri_url b))
      in if c \<noteq> 0 then c else if d \<noteq> 0 then d else str_compare (ri_url a) (ri_url b))"

definition awaiting_input :: "row \<Rightarrow> bool" where "awaiting_input r \<longleftrightarrow> rw_state r = state_text AwaitingInput"

definition rail_item_of :: "time \<Rightarrow> rail_params \<Rightarrow> row \<Rightarrow> rail_item" where
  "rail_item_of now v r =
     (let reply = awaiting_input r \<and> VerbFollowUp \<in> set (rw_verbs r) \<and> rw_detail r \<noteq> [];
          v1 = (if reply then None else find (\<lambda>x. x \<noteq> VerbFollowUp \<and> x \<noteq> VerbLaunch) (rw_verbs r))
      in \<lparr>ri_url = rw_url r, ri_ref = ref_of (rw_url r), ri_title = rw_title r, ri_repo = rw_repo r,
          ri_feature = snd (rail_feature_key r), ri_project = row_mark r, ri_glyph = rw_glyph r, ri_label = rw_label r,
          ri_detail = rw_detail r, ri_verb = (case v1 of Some x \<Rightarrow> x | None \<Rightarrow> VerbUnknown), ri_reply = reply,
          ri_path = with_scope (no_params\<lparr>pa_project := rp_project v\<rparr>) (or_else (session_path (rw_url r)) tickets_path),
          ri_selected = (rp_sel v \<noteq> [] \<and> rp_sel v = session_path (rw_url r)),
          ri_started = (if rw_alive r \<and> rw_glyph r = GlyphRunning
                        then rfc3339 (now - rw_elapsed_seconds r * second) else []),
          ri_updated = rw_updated r, ri_last = (if reply then [] else rw_last r)\<rparr>)"

definition count_glyph :: "glyph_word \<Rightarrow> row list \<Rightarrow> int" where
  "count_glyph g rows = int (length (filter (\<lambda>r. rw_glyph r = g) rows))"

definition feature_marks :: "row list \<Rightarrow> project_mark list" where
  "feature_marks members = fold (\<lambda>r ms. if mk_name (row_mark r) \<noteq> [] \<and> row_mark r \<notin> set ms then ms @ [row_mark r] else ms) members []"

definition rail_feature_of :: "time \<Rightarrow> rail_params \<Rightarrow> string \<times> row list \<Rightarrow> rail_feature" where
  "rail_feature_of now v = (\<lambda>(key, members).
     \<lparr>rf_key = key, rf_name = snd (rail_feature_key (hd members)), rf_open = (key \<in> set (rp_open v)),
      rf_marks = sort_func compare_marks (feature_marks members),
      rf_live = sort_func by_repo_then_ref
        (map (rail_item_of now v) (filter (\<lambda>r. rail_group (rw_glyph r) = (GroupInFlight, False)) members)),
      rf_blocked = count_glyph GlyphBlocked members, rf_ready = count_glyph GlyphReady members,
      rf_merged = count_glyph GlyphDone members, rf_total = int (length members)\<rparr>)"

definition by_feature :: "row list \<Rightarrow> (string, row list) gomap" where
  "by_feature rows = fold (\<lambda>r m. put (fst (rail_feature_key r)) (get_or [] m (fst (rail_feature_key r)) @ [r]) m) rows []"

definition matches_all :: "string list \<Rightarrow> string list \<Rightarrow> bool" where
  "matches_all terms fs \<longleftrightarrow> list_all (\<lambda>t. list_ex (\<lambda>f. str_contains (lower_text f) t) fs) terms"

definition item_matches :: "string list \<Rightarrow> rail_item \<Rightarrow> bool" where
  "item_matches terms it =
     matches_all terms [ri_ref it, trim_prefix (ri_ref it) ''#'', ri_title it, ri_repo it, ri_feature it]"

text \<open>\<open>strings.Fields\<close>: the words between the white space of ASCII.\<close>

fun words_from :: "string \<Rightarrow> string \<Rightarrow> string list" where
  "words_from w [] = (if w = [] then [] else [w])"
| "words_from w (c # s) =
     (if ascii_space c then (if w = [] then words_from [] s else w # words_from [] s) else words_from (w @ [c]) s)"

definition filter_rail :: "rail_page \<Rightarrow> string \<Rightarrow> rail_page" where
  "filter_rail r query =
     (let terms = words_from [] (lower_text query); keep = filter (item_matches terms)
      in if terms = [] then r
         else r\<lparr>rl_query := trim_space query, rl_needs_you := keep (rl_needs_you r),
           rl_features := map (\<lambda>f. f\<lparr>rf_open := True\<rparr>) (filter (\<lambda>f. rf_live f \<noteq> [])
             (map (\<lambda>f. if matches_all terms [rf_name f] then f else f\<lparr>rf_live := keep (rf_live f)\<rparr>) (rl_features r))),
           rl_settled := keep (rl_settled r), rl_settled_open := True\<rparr>)"

definition build_rail :: "row list \<Rightarrow> time \<Rightarrow> rail_params \<Rightarrow> rail_page" where
  "build_rail all_rows now v =
     (let rows = scope_rail_rows all_rows v;
          item = rail_item_of now v;
          needs = map item (filter (\<lambda>r. fst (rail_group (rw_glyph r)) = GroupNeedsYou) rows);
          settled = map item (filter (\<lambda>r. fst (rail_group (rw_glyph r)) = GroupSettled \<and> rw_worktree r \<noteq> []) rows);
          rank = (\<lambda>a b. let c = int_compare (glyph_rank (ri_glyph a)) (glyph_rank (ri_glyph b))
                        in if c \<noteq> 0 then c else by_repo_then_ref a b);
          order = (\<lambda>a b. let c = str_compare (rf_name a) (rf_name b) in if c \<noteq> 0 then c else str_compare (rf_key a) (rf_key b))
      in filter_rail
           \<lparr>rl_needs_you = sort_func rank needs,
            rl_features = sort_func order (filter (\<lambda>f. rf_live f \<noteq> []) (map (rail_feature_of now v) (by_feature rows))),
            rl_settled_key = rail_settled_key, rl_settled_open = (rail_settled_key \<in> set (rp_open v)),
            rl_settled = sort_func by_repo_then_ref settled, rl_query = []\<rparr> (rp_query v))"

subsection \<open>\<open>stack.go\<close>\<close>

record stack_link =
  sk_ref :: string
  sk_title :: string
  sk_glyph :: glyph_word
  sk_label :: string
  sk_path :: string
  sk_metric :: string
  sk_current :: bool

text \<open>A wave is the links of its tickets; its number is its place from 1, or 0 where it has none.\<close>

record stack_wave =
  sw_n :: int
  sw_members :: "stack_link list"

record stack_view =
  sv_blockers :: "stack_link list"
  sv_unlocks :: "stack_link list"
  sv_feature :: string
  sv_project :: project_mark
  sv_merged :: int
  sv_total :: int
  sv_graph_path :: string
  sv_board_path :: string
  sv_waves :: "stack_wave list"

definition float_positive :: "float64 \<Rightarrow> bool" where
  "float_positive x \<longleftrightarrow> float_le float_zero x \<and> \<not> float_le x float_zero"

text \<open>The verb \<open>%.2f\<close> is the parameter \<open>fixed2\<close>.\<close>

definition stack_metric :: "(float64 \<Rightarrow> string) \<Rightarrow> row \<Rightarrow> string" where
  "stack_metric fixed2 r =
     (if rw_alive r \<and> rw_elapsed r \<noteq> [] then rw_elapsed r
      else if float_positive (rw_spend_pct_week r) then fixed2 (rw_spend_pct_week r) @ ''%''
      else [])"

definition stack_link_of :: "(float64 \<Rightarrow> string) \<Rightarrow> row list \<Rightarrow> string \<Rightarrow> string \<Rightarrow> stack_link" where
  "stack_link_of fixed2 rows current url =
     (let known = get_or no_row (rows_by_url rows) url
      in \<lparr>sk_ref = ref_of url, sk_title = rw_title known, sk_glyph = rw_glyph known, sk_label = rw_label known,
          sk_path = session_path url, sk_metric = stack_metric fixed2 known, sk_current = (url = current)\<rparr>)"

definition add_wave_member :: "int \<Rightarrow> stack_link \<Rightarrow> stack_wave list \<Rightarrow> stack_wave list" where
  "add_wave_member n l ws =
     (let ws = ws @ replicate (nat n - length ws) \<lparr>sw_n = 0, sw_members = []\<rparr>; i = nat n - 1
      in ws[i := \<lparr>sw_n = n, sw_members = sw_members (ws ! i) @ [l]\<rparr>])"

definition build_stack :: "(float64 \<Rightarrow> string) \<Rightarrow> row_group list \<Rightarrow> row \<Rightarrow> stack_view" where
  "build_stack fixed2 groups r =
     (let rows = rows_in groups;
          link = stack_link_of fixed2 rows (rw_url r);
          members = filter (\<lambda>m. rw_feature m = rw_feature r) rows;
          waves = Waves (fold (\<lambda>m b. put (rw_url m) (rw_blocked_by m) b) members []);
          path = ''/f/'' @ path_escape (rw_feature r);
          s = \<lparr>sv_blockers = map link (rw_blocked_by r),
               sv_unlocks = map (\<lambda>m. link (rw_url m)) (filter (\<lambda>m. rw_url r \<in> set (rw_blocked_by m)) rows),
               sv_feature = [], sv_project = no_mark, sv_merged = 0, sv_total = 0, sv_graph_path = [], sv_board_path = [],
               sv_waves = []\<rparr>
      in if rw_feature r = [] then s
         else s\<lparr>sv_feature := rw_feature r, sv_board_path := path, sv_graph_path := path @ ''/graph'',
           sv_project := row_mark r, sv_total := int (length members),
           sv_merged := int (length (filter (\<lambda>m. rw_state m = state_text PRMerged) members)),
           sv_waves := fold (\<lambda>m ws. add_wave_member (get_or 0 waves (rw_url m)) (link (rw_url m)) ws) members []\<rparr>)"

subsection \<open>\<open>banner.go\<close>\<close>

datatype banner_state = BannerUnknown | BannerUntracked | BannerCloning | BannerReady | BannerRefused

fun banner_state_text :: "banner_state \<Rightarrow> string" where
  "banner_state_text BannerUnknown = []"
| "banner_state_text BannerUntracked = ''untracked''"
| "banner_state_text BannerCloning = ''cloning''"
| "banner_state_text BannerReady = ''ready''"
| "banner_state_text BannerRefused = ''refused''"

record check_step =
  sp_label :: string
  sp_glyph :: glyph_word

record banner_view =
  bn_repo :: string
  bn_state :: banner_state
  bn_glyph :: glyph_word
  bn_text :: string
  bn_steps :: "check_step list"

definition banner_polling :: "banner_view \<Rightarrow> bool" where "banner_polling b \<longleftrightarrow> bn_state b = BannerCloning"

definition can_track :: "banner_view \<Rightarrow> bool" where
  "can_track b \<longleftrightarrow> bn_state b = BannerUntracked \<or> bn_state b = BannerRefused"

definition track_label :: "banner_view \<Rightarrow> string" where
  "track_label b = (if bn_state b = BannerRefused then ''Track again'' else ''Track'')"

definition banner_state_of :: "store_repo \<Rightarrow> banner_state" where
  "banner_state_of r = (case so_phase r of RepoReady \<Rightarrow> BannerReady | RepoRefused \<Rightarrow> BannerRefused | _ \<Rightarrow> BannerCloning)"

definition banner_words :: "banner_state \<Rightarrow> store_repo option \<Rightarrow> glyph_word \<times> string" where
  "banner_words s r =
     (case s of
        BannerCloning \<Rightarrow> (GlyphRunning, ''Checking the repo on GitHub, then cloning it.'')
      | BannerReady \<Rightarrow>
          (GlyphDone,
            if (case r of Some x \<Rightarrow> so_settings_source x = source_text SourceFile | None \<Rightarrow> False)
            then ''Settings from .command-centre.toml on main.''
            else ''No .command-centre.toml on main: defaults are in use.'')
      | BannerRefused \<Rightarrow> (GlyphFailed, case r of Some x \<Rightarrow> so_refusal x | None \<Rightarrow> [])
      | _ \<Rightarrow> (GlyphReady, ''Not tracked.''))"

definition check_order :: "refusal_kind list" where
  "check_order = [RefusalMergeSettings, RefusalDefaultBranch, RefusalClone, RefusalSettingsParse]"

definition check_rank :: "refusal_kind \<Rightarrow> nat" where
  "check_rank k = (case index_where (\<lambda>x. x = k) check_order of Some i \<Rightarrow> i | None \<Rightarrow> length check_order)"

definition step_glyph :: "banner_state \<Rightarrow> refusal_kind \<Rightarrow> refusal_kind \<Rightarrow> glyph_word" where
  "step_glyph s refusal k =
     (if s = BannerReady then GlyphDone
      else if s = BannerCloning then GlyphRunning
      else if s = BannerRefused \<and> check_rank k < check_rank refusal then GlyphDone
      else if s = BannerRefused \<and> k = refusal then GlyphFailed
      else GlyphReady)"

definition check_steps :: "banner_state \<Rightarrow> refusal_kind \<Rightarrow> check_step list" where
  "check_steps s refusal =
     map (\<lambda>(label, k). \<lparr>sp_label = label, sp_glyph = step_glyph s refusal k\<rparr>)
       [(''clone'', RefusalClone), (''squash-only merges'', RefusalMergeSettings),
        (''default branch is main'', RefusalDefaultBranch), (''settings file'', RefusalSettingsParse)]"

text \<open>The banner of a repository, of the row it has and whether it waits to be tracked.\<close>

definition banner_of :: "string \<Rightarrow> bool \<Rightarrow> store_repo option \<Rightarrow> banner_view" where
  "banner_of scope pending known =
     (let (name, s) = (if pending then (scope, BannerCloning)
                       else case known of None \<Rightarrow> (scope, BannerUntracked) | Some r \<Rightarrow> (so_name r, banner_state_of r));
          (glyph, text) = banner_words s known
      in \<lparr>bn_repo = name, bn_state = s, bn_glyph = glyph, bn_text = text,
          bn_steps = check_steps s (case known of Some r \<Rightarrow> so_refusal_kind r | None \<Rightarrow> RefusalUnknown)\<rparr>)"

text \<open>\<open>KnownRepo\<close> on the repositories of the store.\<close>

definition known_repo :: "store_repo list \<Rightarrow> string \<Rightarrow> store_repo option" where
  "known_repo rs scope = find (\<lambda>r. scope \<noteq> [] \<and> equal_fold (so_name r) scope) rs"

definition project_marks_of :: "store_repo list \<Rightarrow> project_marks" where
  "project_marks_of rs =
     fold (\<lambda>r m. if so_project r \<noteq> [] then put (so_name r) \<lparr>mk_name = so_project r, mk_hue = so_hue r\<rparr> m else m) rs []"

end
