(* ===== verification/View_Pages.thy ===== *)
theory View_Pages imports View_Rail Loop_Runs begin

text \<open>
  The readers of the pages: \<open>internal/web/view/{frame,chrome,reader,rail,banner,spend}.go\<close> and the
  queries of \<open>internal/store/{insights,intervals}.go\<close> they need. A page is read from the store and, for the logs of
  runs, from files; it changes neither, only the cache of what settled logs have spent.
\<close>

subsection \<open>What a page is read from\<close>

record 'w visit =
  vs_conn :: conn
  vs_world :: 'w
  vs_settled :: "(string, int) gomap"

type_synonym ('w, 'a) page = "('w visit, 'a) io"

definition on_store :: "'a query \<Rightarrow> ('w, 'a) page" where
  "on_store q v = (case q (vs_conn v) of (r, c) \<Rightarrow> (r, v\<lparr>vs_conn := c\<rparr>))"

definition on_files :: "('w, 'a) io \<Rightarrow> ('w, 'a) page" where
  "on_files f v = (case f (vs_world v) of (r, w) \<Rightarrow> (r, v\<lparr>vs_world := w\<rparr>))"

record 'w pages =
  pe_json :: "payload \<Rightarrow> string"
  pe_hash :: "string \<Rightarrow> string"
  pe_workflows :: "(string, workflow) gomap"
  pe_arith :: arithmetic
  pe_log :: log_json
  pe_files :: "'w files"
  pe_fixed2 :: "float64 \<Rightarrow> string"
  pe_data_dir :: string
  pe_spend_limit :: int
  pe_poll_seconds :: int

subsection \<open>\<open>insights.go\<close>, \<open>intervals.go\<close>: spending\<close>

text \<open>\<open>SUM\<close> of the costs there are, in the order of the rows.\<close>

definition sum_costs :: "arithmetic \<Rightarrow> run_row list \<Rightarrow> float64" where
  "sum_costs A rows = fold (\<lambda>c s. ar_add A s c) (List.map_filter ru_cost_usd rows) float_zero"

record ticket_spend =
  ts_agent_usd :: float64
  ts_follow_up_usd :: float64
  ts_merged :: bool

text \<open>One row for a ticket and each record of its merge, or one row for a ticket without any.\<close>

definition merge_times :: "db \<Rightarrow> string \<Rightarrow> time option list" where
  "merge_times d url =
     (let ms = map Some (map ev_at (filter (\<lambda>e. ev_kind e = ''pr_merged'' \<and> ev_ticket_id e = Some url) (db_events d)))
      in if ms = [] then [None] else ms)"

definition spend_row :: "arithmetic \<Rightarrow> db \<Rightarrow> ticket_row \<Rightarrow> time option \<Rightarrow> string \<times> ticket_spend" where
  "spend_row A d t merged =
     (let rs = filter (\<lambda>r. ru_ticket_id r = Some (tk_url t) \<and>
            (case ru_ended_at r of None \<Rightarrow> False | Some e \<Rightarrow> (case merged of None \<Rightarrow> True | Some m \<Rightarrow> e < m))) (db_runs d)
      in (tk_url t, \<lparr>ts_agent_usd = sum_costs A (filter (\<lambda>r. ru_kind r = ''agent'') rs),
           ts_follow_up_usd = sum_costs A (filter (\<lambda>r. ru_kind r = ''follow_up'') rs), ts_merged = (merged \<noteq> None)\<rparr>))"

definition q_board_ticket_spend :: "arithmetic \<Rightarrow> string option \<Rightarrow> string option \<Rightarrow> (string \<times> ticket_spend) list query" where
  "q_board_ticket_spend A repo feature = reads (\<lambda>d.
     concat (map (\<lambda>t. map (spend_row A d t) (merge_times d (tk_url t)))
       (filter (\<lambda>t. (repo = None \<or> Some (tk_repo t) = repo) \<and> (feature = None \<or> Some (tk_feature t) = feature)) (db_tickets d))))"

definition board_ticket_spend :: "arithmetic \<Rightarrow> string \<Rightarrow> string \<Rightarrow> (string, ticket_spend) gomap query" where
  "board_ticket_spend A repo feature =
     and_then (wrapping ''select ticket spend'' (q_board_ticket_spend A (null_if_empty repo) (null_if_empty feature)))
       (\<lambda>rows. ret (fold (\<lambda>(u, s) m. put u s m) rows []))"

definition interval_of :: "interval_row \<Rightarrow> spend_interval" where
  "interval_of r = \<lparr>sv_window = ui_window r, sv_start = ui_start_at r, sv_end = ui_end_at r,
     sv_utilization_start = ui_utilization_start r, sv_utilization_end = ui_utilization_end r, sv_weight_usd = ui_weight_usd r\<rparr>"

definition fit_factors :: "arithmetic \<Rightarrow> time \<Rightarrow> (string, fit_result) gomap query" where
  "fit_factors A now =
     and_then (wrapping ''select intervals'' (q_list_intervals_since (now - trailing_window)))
       (\<lambda>rows. ret (spend_fit A (map interval_of rows) now))"

definition q_cc_cost_since :: "arithmetic \<Rightarrow> time \<Rightarrow> time \<Rightarrow> (float64 \<times> float64) query" where
  "q_cc_cost_since A five seven = reads (\<lambda>d.
     let since = (\<lambda>t. filter (\<lambda>r. case ru_ended_at r of None \<Rightarrow> False | Some e \<Rightarrow> t \<le> e) (db_runs d))
     in (sum_costs A (since five), sum_costs A (since seven)))"

definition cc_cost_usd :: "arithmetic \<Rightarrow> time \<Rightarrow> (string, float64) gomap query" where
  "cc_cost_usd A now =
     and_then (wrapping ''select cc cost'' (q_cc_cost_since A (now - 5 * hour) (now - 7 * 24 * hour)))
       (\<lambda>(five, seven). ret [(five_hour, five), (seven_day, seven)])"

subsection \<open>\<open>chrome.go\<close>\<close>

record crumb =
  cr_label :: string
  cr_path :: string
  cr_project :: "project_mark option"
  cr_mono :: bool

record nav_item =
  ni_label :: string
  ni_path :: string
  ni_key :: string
  ni_icon :: string
  ni_badge :: string
  ni_warn :: bool
  ni_current :: bool

record gauge =
  ga_label :: string
  ga_pct :: int
  ga_calibrating :: bool
  ga_cc_pct :: int
  ga_resets_at :: time

record refused_repo =
  rz_name :: string
  rz_reason :: string
  rz_path :: string

record chrome =
  ch_workspace :: string
  ch_live_agents :: int
  ch_observe :: age
  ch_observe_stale :: bool
  ch_last_error :: "(age \<times> string) option"
  ch_gauges :: "gauge list"
  ch_spend_paused :: "(int \<times> int) option"
  ch_refused_repos :: "refused_repo list"
  ch_open_tickets :: int
  ch_page_title :: string
  ch_home :: bool
  ch_crumbs :: "crumb list"
  ch_repo_scope :: string
  ch_feature_scope :: string
  ch_project_scope :: string
  ch_project_hue :: int
  ch_project_initial :: string
  ch_scope_menu :: "scope_choice list"
  ch_launch :: nav_item
  ch_nav :: "nav_item list"

definition key_tickets :: string where "key_tickets = ''g t''"
definition key_insights :: string where "key_insights = ''g i''"
definition key_repos :: string where "key_repos = ''g r''"
definition key_launch :: string where "key_launch = ''c''"
definition app_title :: string where "app_title = ''Command Centre''"

definition blank_nav :: nav_item where
  "blank_nav = \<lparr>ni_label = [], ni_path = [], ni_key = [], ni_icon = [], ni_badge = [], ni_warn = False, ni_current = False\<rparr>"

definition set_current :: "string \<Rightarrow> chrome \<Rightarrow> chrome" where
  "set_current key c = c\<lparr>ch_launch := (ch_launch c)\<lparr>ni_current := (ni_key (ch_launch c) = key)\<rparr>,
     ch_nav := map (\<lambda>n. n\<lparr>ni_current := (ni_key n = key)\<rparr>) (ch_nav c)\<rparr>"

definition badge :: "string \<Rightarrow> string \<Rightarrow> bool \<Rightarrow> chrome \<Rightarrow> chrome" where
  "badge key text warn c =
     c\<lparr>ch_nav := map (\<lambda>n. if ni_key n = key then n\<lparr>ni_badge := text, ni_warn := warn\<rparr> else n) (ch_nav c)\<rparr>"

definition titled :: "string \<Rightarrow> chrome \<Rightarrow> chrome" where
  "titled page c = c\<lparr>ch_page_title := page @ '' '' @ middle_dot @ '' '' @ app_title\<rparr>"

definition scope_to_project :: "project \<Rightarrow> chrome \<Rightarrow> chrome" where
  "scope_to_project p c =
     c\<lparr>ch_project_scope := pr_name p, ch_project_hue := pr_hue p, ch_project_initial := initial (pr_name p)\<rparr>"

definition plain_crumb :: "string \<Rightarrow> string \<Rightarrow> crumb" where
  "plain_crumb label path = \<lparr>cr_label = label, cr_path = path, cr_project = None, cr_mono = False\<rparr>"

definition project_crumb :: "project_mark \<Rightarrow> crumb" where
  "project_crumb m = \<lparr>cr_label = mk_name m,
     cr_path = with_query tickets_path (params_query (no_params\<lparr>pa_project := mk_name m\<rparr>)),
     cr_project = Some m, cr_mono = False\<rparr>"

definition feature_crumbs :: "row list \<Rightarrow> string \<Rightarrow> crumb list" where
  "feature_crumbs rows feature =
     (case find (\<lambda>r. rw_project r \<noteq> []) rows of Some r \<Rightarrow> [project_crumb (row_mark r)] | None \<Rightarrow> [])
     @ [plain_crumb feature []]"

definition window_split :: "(string, fit_result) gomap \<Rightarrow> (string, float64) gomap \<Rightarrow> (string, fit_result \<times> float64) gomap" where
  "window_split fits costs = map (\<lambda>(w, fit). (w, (fit, get_or float_zero costs w))) fits"

definition no_fit :: fit_result where "no_fit = \<lparr>fr_factor = float_zero, fr_samples = 0\<rparr>"

definition derive_gauge ::
  "arithmetic \<Rightarrow> string \<Rightarrow> string \<Rightarrow> (string, float64 \<times> time) gomap \<Rightarrow> (string, fit_result \<times> float64) gomap \<Rightarrow> gauge" where
  "derive_gauge A label window gauges split =
     (let (utilization, resets) = get_or (float_zero, 0) gauges window;
          (fit, cc) = get_or (no_fit, float_zero) split window;
          pct = spend_pct A utilization;
          (share, calibrating) = spend_share A pct fit cc
      in \<lparr>ga_label = label, ga_pct = pct, ga_calibrating = calibrating, ga_cc_pct = share, ga_resets_at = resets\<rparr>)"

definition relative_age :: "time \<Rightarrow> time \<Rightarrow> age" where
  "relative_age now at = \<lparr>ag_age = duration_string (round_duration (now - at) second) @ '' ago'', ag_stamp = rfc3339 at\<rparr>"

definition live_agents :: "store_ticket list \<Rightarrow> observation \<Rightarrow> int" where
  "live_agents ts ob = int (length (filter (\<lambda>t. get_or False (ob_runs ob) (ss_url t)) ts))"

definition workspace_name :: "string \<Rightarrow> string" where
  "workspace_name dir = (if dir = [] then [] else path_base dir)"

definition observe_stale_after :: duration where "observe_stale_after = 20 * second"

definition refused_repos :: "store_repo list \<Rightarrow> refused_repo list" where
  "refused_repos rs = map (\<lambda>r. \<lparr>rz_name = so_name r, rz_reason = so_refusal r, rz_path = repo_path (so_name r)\<rparr>)
     (filter (\<lambda>r. so_phase r = RepoRefused) rs)"

text \<open>What every page is built from.\<close>

record frame =
  fm_now :: time
  fm_params :: params
  fm_tickets :: "store_ticket list"
  fm_in :: derive_input
  fm_snap :: snapshot
  fm_repos :: "store_repo list"
  fm_rows :: "row list"
  fm_last_err :: "tick_error option"
  fm_gauges :: "(string, float64 \<times> time) gomap"
  fm_project :: project
  fm_project_list :: "project list"
  fm_split :: "(string, fit_result \<times> float64) gomap"

definition build_chrome :: "'w pages \<Rightarrow> frame \<Rightarrow> chrome" where
  "build_chrome P f =
     (let v = fm_params f; now = fm_now f; ob = di_obs (fm_in f); observed = di_observed (fm_in f);
          used = fst (get_or (float_zero, 0) (fm_gauges f) five_hour)
      in set_current key_tickets
        \<lparr>ch_workspace = workspace_name (pe_data_dir P), ch_live_agents = live_agents (fm_tickets f) ob,
         ch_observe = (if observed then relative_age now (ob_observed_at ob) else \<lparr>ag_age = ''never'', ag_stamp = []\<rparr>),
         ch_observe_stale = (observed \<longrightarrow> observe_stale_after \<le> now - ob_observed_at ob),
         ch_last_error = (case fm_last_err f of
             None \<Rightarrow> None
           | Some e \<Rightarrow> if \<not> observed \<or> te_at e > ob_observed_at ob then Some (relative_age now (te_at e), te_message e) else None),
         ch_gauges = [derive_gauge (pe_arith P) ''five-hour'' five_hour (fm_gauges f) (fm_split f),
                      derive_gauge (pe_arith P) ''weekly'' seven_day (fm_gauges f) (fm_split f)],
         ch_spend_paused = (let pct = spend_pct (pe_arith P) used
                            in if spend_paused (pe_spend_limit P) pct then Some (pct, pe_spend_limit P) else None),
         ch_refused_repos = [], ch_open_tickets = 0, ch_page_title = app_title, ch_home = False, ch_crumbs = [],
         ch_repo_scope = pa_repo v, ch_feature_scope = pa_feature v, ch_project_scope = [], ch_project_hue = 0,
         ch_project_initial = [], ch_scope_menu = [],
         ch_launch = blank_nav\<lparr>ni_path := with_scope v ''/launch'', ni_key := key_launch\<rparr>,
         ch_nav = [
           blank_nav\<lparr>ni_label := ''All tickets'', ni_path := with_scope v tickets_path, ni_key := key_tickets,
             ni_icon := ''inbox'', ni_badge := ''0''\<rparr>,
           blank_nav\<lparr>ni_label := ''Insights'', ni_key := key_insights, ni_icon := ''chart'',
             ni_path := with_query ''/insights''
               (params_query (no_params\<lparr>pa_feature := pa_feature v, pa_project := pa_project v\<rparr>))\<rparr>,
           blank_nav\<lparr>ni_label := ''Repos'', ni_path := with_scope v ''/repos'', ni_key := key_repos, ni_icon := ''repo''\<rparr>]\<rparr>)"

definition rail_scope_of :: "frame \<Rightarrow> rail_params" where
  "rail_scope_of f = \<lparr>rp_sel = [], rp_open = [], rp_query = [], rp_project = pr_name (fm_project f),
     rp_repo = pa_repo (fm_params f), rp_project_repos = pr_repos (fm_project f)\<rparr>"

definition frame_chrome :: "'w pages \<Rightarrow> frame \<Rightarrow> chrome" where
  "frame_chrome P f =
     (let refused = refused_repos (fm_repos f);
          open_tickets = int (length (filter (\<lambda>r. rw_glyph r \<noteq> GlyphDone) (scope_rail_rows (fm_rows f) (rail_scope_of f))));
          c = scope_to_project (fm_project f) (build_chrome P f);
          c = c\<lparr>ch_scope_menu := scope_choices (scope_list (fm_project_list f) (fm_repos f)) (pr_name (fm_project f))
                   (pa_repo (fm_params f)), ch_refused_repos := refused, ch_open_tickets := open_tickets\<rparr>;
          c = badge key_tickets (itoa open_tickets) False c
      in if refused \<noteq> [] then badge key_repos (nat_text (length refused) @ '' refused'') True c else c)"

subsection \<open>\<open>frame.go\<close>, \<open>reader.go\<close>: what a page reads\<close>

text \<open>A page derives with the workflows alone: the caps of the daemon only matter to what the daemon launches.\<close>

definition derive_at :: "'w pages \<Rightarrow> derive_input \<Rightarrow> snapshot" where
  "derive_at P inp = Derive (pe_hash P)
     (rules_for \<lparr>da_max_agents = 0, da_spend_limit_5h = 0, da_workflows = pe_workflows P\<rparr> (di_obs inp)) inp"

definition read_input :: "'w pages \<Rightarrow> ('w, derive_input) page" where
  "read_input P = wrapping ''load plan input'' (on_store (plan_input (pe_json P) (spend_pct (pe_arith P))))"

definition read_snapshot :: "'w pages \<Rightarrow> time \<Rightarrow> ('w, snapshot) page" where
  "read_snapshot P now = and_then (read_input P) (\<lambda>inp. ret (derive_at P (inp\<lparr>di_now := now\<rparr>)))"

definition gauge_split :: "'w pages \<Rightarrow> time \<Rightarrow> ('w, (string, fit_result \<times> float64) gomap) page" where
  "gauge_split P now =
     and_then (wrapping ''load fit factors'' (on_store (fit_factors (pe_arith P) now))) (\<lambda>fits.
     and_then (wrapping ''load cc cost usd'' (on_store (cc_cost_usd (pe_arith P) now))) (\<lambda>cost.
     ret (window_split fits cost)))"

definition load_frame :: "'w pages \<Rightarrow> time \<Rightarrow> params \<Rightarrow> ('w, frame \<times> chrome) page" where
  "load_frame P now v =
     and_then (wrapping ''load tickets'' (on_store tickets)) (\<lambda>ts.
     and_then (read_input P) (\<lambda>inp.
     and_then (wrapping ''load repos'' (on_store repos)) (\<lambda>rs.
     and_then (wrapping ''load projects'' (on_store projects)) (\<lambda>prs.
     and_then (wrapping ''load last error'' (on_store last_error)) (\<lambda>failed.
     and_then (wrapping ''load latest readings'' (on_store latest_readings)) (\<lambda>gauges.
     and_then (wrapping ''gauge split'' (gauge_split P now)) (\<lambda>split.
     let (v, project) = scoped_params v rs prs ts;
         inp = inp\<lparr>di_now := now\<rparr>;
         snap = derive_at P inp;
         rows = derive_rows ts inp snap (project_marks_of rs)
     in and_then (wrapping ''load activities'' (on_store activities)) (\<lambda>acts.
        let f = \<lparr>fm_now = now, fm_params = v, fm_tickets = ts, fm_in = inp, fm_snap = snap, fm_repos = rs,
                 fm_rows = apply_activities rows acts now, fm_last_err = failed, fm_gauges = gauges, fm_project = project,
                 fm_project_list = prs, fm_split = split\<rparr>
        in ret (f, frame_chrome P f)))))))))"

definition read_chrome :: "'w pages \<Rightarrow> time \<Rightarrow> params \<Rightarrow> ('w, chrome) page" where
  "read_chrome P now v = and_then (wrapping ''load frame'' (load_frame P now v)) (\<lambda>(f, c). ret c)"

subsection \<open>\<open>rail.go\<close>, \<open>banner.go\<close>: the rail and the banner\<close>

record rail_view =
  rv_rail :: rail_page
  rv_gauges :: "gauge list"
  rv_live :: int
  rv_observe :: age
  rv_stale :: bool
  rv_error :: "(age \<times> string) option"

definition rail_from_frame :: "frame \<Rightarrow> chrome \<Rightarrow> rail_params \<Rightarrow> rail_view" where
  "rail_from_frame f c v =
     (let v = v\<lparr>rp_repo := pa_repo (fm_params f), rp_project := pr_name (fm_project f), rp_project_repos := pr_repos (fm_project f)\<rparr>
      in \<lparr>rv_rail = build_rail (fm_rows f) (fm_now f) v, rv_gauges = ch_gauges c, rv_live = ch_live_agents c,
          rv_observe = ch_observe c, rv_stale = ch_observe_stale c, rv_error = ch_last_error c\<rparr>)"

definition read_rail :: "'w pages \<Rightarrow> time \<Rightarrow> rail_params \<Rightarrow> ('w, rail_view) page" where
  "read_rail P now v =
     and_then (wrapping ''load frame'' (load_frame P now (no_params\<lparr>pa_repo := rp_repo v, pa_project := rp_project v\<rparr>)))
       (\<lambda>(f, c). ret (rail_from_frame f c v))"

definition no_rail_params :: rail_params where
  "no_rail_params = \<lparr>rp_sel = [], rp_open = [], rp_query = [], rp_project = [], rp_repo = [], rp_project_repos = []\<rparr>"

text \<open>Home leads to the first ticket that needs its owner, or to the board.\<close>

definition read_home :: "'w pages \<Rightarrow> time \<Rightarrow> ('w, chrome \<times> string) page" where
  "read_home P now =
     and_then (wrapping ''load frame'' (load_frame P now no_params)) (\<lambda>(f, c).
     ret (c\<lparr>ch_home := True\<rparr>,
       case rl_needs_you (rv_rail (rail_from_frame f c no_rail_params)) of [] \<Rightarrow> tickets_path | i # _ \<Rightarrow> ri_path i))"

definition read_known_repo :: "string \<Rightarrow> ('w, store_repo option) page" where
  "read_known_repo scope = and_then (wrapping ''load repos'' (on_store repos)) (\<lambda>rs. ret (known_repo rs scope))"

definition read_banner :: "'w pages \<Rightarrow> string \<Rightarrow> ('w, banner_view) page" where
  "read_banner P scope =
     and_then (wrapping ''track pending'' (on_store (track_pending (pe_json P) scope))) (\<lambda>pending.
     and_then (wrapping ''load known repo'' (read_known_repo scope)) (\<lambda>known.
     ret (banner_of scope pending known)))"

subsection \<open>\<open>spend.go\<close>: the cache of what logs have spent\<close>

definition tokens_of :: "run_metrics \<Rightarrow> int" where
  "tokens_of m = sum_list (map (\<lambda>r. us_input r + us_cache_create r + us_cache_read r + us_output r) (rx_requests m))"

text \<open>
  The mutex and the single flight keep concurrent readers apart; in one page there is one reader. A log counts as
  settled, and is not read again, once its result line has told a cost.
\<close>

definition spend_of :: "'w pages \<Rightarrow> string \<Rightarrow> ('w, int) page" where
  "spend_of P path v =
     (if path = [] then (Inr 0, v)
      else case map_of (vs_settled v) path of
        Some tokens \<Rightarrow> (Inr tokens, v)
      | None \<Rightarrow>
          (case on_files (parse_metrics (lj_line (pe_log P)) (pe_files P) path) v of
             (Inl e, v) \<Rightarrow>
               (if is_not_exist e \<or> is_sentinel ''no parseable lines'' e then (Inr 0, v)
                else (Inl (Wrapped ''read spend'' (Wrapped (''measure spend of '' @ path) e)), v))
           | (Inr m, v) \<Rightarrow>
               (Inr (tokens_of m),
                if rx_cost_usd m \<noteq> None then v\<lparr>vs_settled := put path (tokens_of m) (vs_settled v)\<rparr> else v)))"

fun apply_spend :: "'w pages \<Rightarrow> row list \<Rightarrow> ('w, row list) page" where
  "apply_spend P [] = ret []"
| "apply_spend P (r # rs) =
     and_then (wrapping (''read spend for '' @ rw_log_path r) (spend_of P (rw_log_path r))) (\<lambda>tokens.
     and_then (apply_spend P rs) (\<lambda>rs. ret (r\<lparr>rw_spend_tokens := tokens\<rparr> # rs)))"

definition apply_ticket_spend :: "arithmetic \<Rightarrow> (string, ticket_spend) gomap \<Rightarrow> float64 \<Rightarrow> row list \<Rightarrow> row list" where
  "apply_ticket_spend A by_url factor =
     map (\<lambda>r. case map_of by_url (rw_url r) of
        None \<Rightarrow> r
      | Some s \<Rightarrow>
          (let (agent, follow_up, both) = kind_pct_week A (ts_agent_usd s) (ts_follow_up_usd s) factor
           in r\<lparr>rw_agent_pct_week := agent, rw_follow_up_pct_week := follow_up, rw_spend_pct_week := both,
                rw_ticket_open := \<not> ts_merged s\<rparr>))"

subsection \<open>\<open>reader.go\<close>: the board\<close>

record board =
  bd_chrome :: chrome
  bd_groups :: "row_group list"
  bd_sections :: "section_of_rows list"
  bd_tabs :: "filter_tab list"
  bd_context :: string
  bd_board_path :: string
  bd_poll_seconds :: int
  bd_launched :: "age option"
  bd_ticket_count :: int
  bd_wave_count :: int

definition context_feature :: string where "context_feature = ''feature''"
definition context_repo :: string where "context_repo = ''repo''"

definition first_launch :: "time \<Rightarrow> string \<Rightarrow> ('w, age option) page" where
  "first_launch now feature v =
     (if feature = [] then (Inr None, v)
      else case on_store (feature_first_launch feature) v of
        (Inr at, v) \<Rightarrow> (Inr (Some (relative_age now at)), v)
      | (Inl e, v) \<Rightarrow> (if is_not_found e then Inr None else Inl (Wrapped ''load feature first launch'' e), v))"

definition board_of :: "'w pages \<Rightarrow> frame \<Rightarrow> chrome \<Rightarrow> row list \<Rightarrow> age option \<Rightarrow> board" where
  "board_of P f c rows launched =
     (let v = fm_params f; project = fm_project f;
          groups = filter_groups_by_feature (filter_groups_by_repo (group_rows (apply_view_state v rows)) (pa_repo v)) (pa_feature v);
          groups = (if pr_name project \<noteq> [] then filter_groups_by_project groups (pr_repos project) else groups);
          c = titled (View_Rows.or_else (pa_feature v) (View_Rows.or_else (pr_name project) (View_Rows.or_else (pa_repo v) ''Tickets''))) c;
          scoped = rows_in groups;
          c = c\<lparr>ch_crumbs := (if pa_feature v \<noteq> [] then feature_crumbs scoped (pa_feature v) else [plain_crumb ''All tickets'' []])\<rparr>;
          sections = sectioned scoped;
          blocking = fold (\<lambda>r m. put (rw_url r) (rw_blocked_by r) m) scoped []
      in \<lparr>bd_chrome = c, bd_groups = groups, bd_sections = filter_sections sections (pa_filter v),
          bd_tabs = filter_tabs sections v, bd_context = (if pa_feature v \<noteq> [] then context_repo else context_feature),
          bd_board_path = board_path v, bd_poll_seconds = pe_poll_seconds P, bd_launched = launched,
          bd_ticket_count = int (length scoped), bd_wave_count = wave_count blocking\<rparr>)"

definition read_board :: "'w pages \<Rightarrow> time \<Rightarrow> params \<Rightarrow> ('w, board) page" where
  "read_board P now v =
     and_then (wrapping ''load frame'' (load_frame P now v)) (\<lambda>(f, c).
     and_then (wrapping ''load board ticket spend''
         (on_store (board_ticket_spend (pe_arith P) (pa_repo (fm_params f)) (pa_feature (fm_params f))))) (\<lambda>by_url.
     and_then (wrapping ''apply spend'' (apply_spend P (fm_rows f))) (\<lambda>rows.
     let rows = apply_ticket_spend (pe_arith P) by_url
                  (fr_factor (fst (get_or (no_fit, float_zero) (fm_split f) seven_day))) rows
     in and_then (first_launch now (pa_feature (fm_params f))) (\<lambda>launched.
        ret (board_of P f c rows launched)))))"

definition open_count :: "board \<Rightarrow> int" where
  "open_count b = int (length (filter (\<lambda>r. glyph_section (rw_glyph r) \<noteq> SectionDone) (rows_in (bd_groups b))))"

definition launch_count :: "board \<Rightarrow> int" where
  "launch_count b = int (length (filter rw_launchable (rows_in (bd_groups b))))"

definition distinct_count :: "row list \<Rightarrow> (row \<Rightarrow> string) \<Rightarrow> int" where
  "distinct_count rows f = int (card (set (filter (\<lambda>v. v \<noteq> []) (map f rows))))"

definition row_for :: "board \<Rightarrow> session_ref \<Rightarrow> row option" where
  "row_for b ref = find (\<lambda>r. parse_session_ref (rw_url r) = Some (ref\<lparr>sr_run := 0\<rparr>)) (rows_in (bd_groups b))"

end
