(* ===== verification/View_Launch.thy ===== *)
theory View_Launch imports View_Pages begin

text \<open>
  The pages that launch tickets and those about repositories: \<open>internal/web/view/{candidates,repos}.go\<close>. What a
  candidate shows is the preview of the snapshot with no further context, and its hash is the one the launch handler
  compares.
\<close>

subsection \<open>\<open>candidates.go\<close>\<close>

definition agent_models :: "string list" where "agent_models = [agent_model, ''opus'', ''sonnet'', ''haiku'']"

record candidate =
  cd_url :: string
  cd_ref :: string
  cd_title :: string
  cd_repo :: string
  cd_feature :: string
  cd_label :: string
  cd_reason :: string
  cd_base :: string
  cd_base_verdict :: string
  cd_prompt_hash :: string
  cd_blocked_by :: "string list"
  cd_prompt :: string

record launch_modal =
  lm_feature :: string
  lm_project :: project_mark
  lm_feature_query :: string
  lm_ticket_query :: string
  lm_pending :: bool
  lm_refused :: string
  lm_empty :: bool
  lm_models :: "string list"
  lm_default_model :: string
  lm_efforts :: "effort list"
  lm_workflows :: "string list"
  lm_workflow :: string

definition new_launch_modal :: "'w pages \<Rightarrow> launch_modal" where
  "new_launch_modal P = \<lparr>lm_feature = [], lm_project = no_mark, lm_feature_query = [], lm_ticket_query = [], lm_pending = False,
     lm_refused = [], lm_empty = False, lm_models = agent_models, lm_default_model = agent_model, lm_efforts = all_efforts,
     lm_workflows = sort_func str_compare (map fst (pe_workflows P)), lm_workflow = default_workflow\<rparr>"

definition feature_launch_path :: "string \<Rightarrow> string" where
  "feature_launch_path feature = ''/f/'' @ path_escape feature @ ''/launch''"

definition modal_path :: "launch_modal \<Rightarrow> string" where
  "modal_path m = (if lm_feature m \<noteq> [] then feature_launch_path (lm_feature m) else ''/launch?'' @ lm_ticket_query m)"

record candidate_inputs =
  ci_tickets :: "store_ticket list"
  ci_snap :: snapshot
  ci_marks :: project_marks

definition feature_mark :: "candidate_inputs \<Rightarrow> string \<Rightarrow> project_mark" where
  "feature_mark i feature =
     (case find (\<lambda>t. has_key (ci_marks i) (ss_repo t) \<and> ss_feature t = feature) (ci_tickets i) of
        Some t \<Rightarrow> get_or no_mark (ci_marks i) (ss_repo t)
      | None \<Rightarrow> no_mark)"

definition load_candidate_inputs :: "'w pages \<Rightarrow> time \<Rightarrow> ('w, candidate_inputs) page" where
  "load_candidate_inputs P now =
     and_then (wrapping ''load tickets'' (on_store tickets)) (\<lambda>ts.
     and_then (wrapping ''load snapshot'' (read_snapshot P now)) (\<lambda>snap.
     and_then (wrapping ''load repos'' (on_store repos)) (\<lambda>rs.
     ret \<lparr>ci_tickets = ts, ci_snap = snap, ci_marks = project_marks_of rs\<rparr>)))"

definition unknown_ticket :: "string \<Rightarrow> io_error" where
  "unknown_ticket url = Plain (''unknown ticket '' @ quoted url)"

definition candidate_of :: "(string, store_ticket) gomap \<Rightarrow> preview_row \<Rightarrow> candidate" where
  "candidate_of stored r =
     (let t = get_or no_store_ticket stored (t_url (pv_ticket r))
      in \<lparr>cd_url = ss_url t, cd_ref = ref_of (ss_url t), cd_title = ss_title t, cd_repo = ss_repo t, cd_feature = ss_feature t,
          cd_label = preview_label_text (pv_label r), cd_reason = pv_reason r, cd_base = ''origin/'' @ pv_base r,
          cd_base_verdict = run_verdict_label (pv_base_run r), cd_prompt_hash = pv_prompt_hash r,
          cd_blocked_by = ss_blocked_by t, cd_prompt = pv_prompt r\<rparr>)"

definition preview_candidates :: "(string \<Rightarrow> string) \<Rightarrow> string list \<Rightarrow> candidate_inputs \<Rightarrow> io_error + candidate list" where
  "preview_candidates hash requested i =
     (case snapshot_preview hash (ci_snap i) requested [] of
        Inl u \<Rightarrow> Inl (Wrapped ''preview'' (unknown_ticket u))
      | Inr rows \<Rightarrow>
          let stored = fold (\<lambda>t m. put (ss_url t) t m) (ci_tickets i) []
          in Inr (map (candidate_of stored) rows))"

definition candidate_selection :: "url_values \<Rightarrow> store_ticket list \<Rightarrow> io_error + string list" where
  "candidate_selection q ts =
     (let feature = first_value q ''feature'' in
      if feature \<noteq> [] then Inr (map ss_url (filter (\<lambda>t. ss_feature t = feature) ts))
      else if get_or [] q ''ticket'' = []
      then Inl (Plain ''either ?feature= or at least one ?ticket= is required'')
      else Inr (get_or [] q ''ticket''))"

definition invalid :: "io_error + 'a \<Rightarrow> io_error + 'a" where
  "invalid r = (case r of Inl e \<Rightarrow> Inl (Invalid_error e) | Inr a \<Rightarrow> Inr a)"

definition read_candidates :: "'w pages \<Rightarrow> time \<Rightarrow> url_values \<Rightarrow> ('w, candidate list) page" where
  "read_candidates P now q =
     and_then (wrapping ''load candidate inputs'' (load_candidate_inputs P now)) (\<lambda>i.
     and_then (lift_sum (invalid (candidate_selection q (ci_tickets i)))) (\<lambda>requested.
     lift_sum (invalid (preview_candidates (pe_hash P) requested i))))"

definition candidate_query :: "string list \<Rightarrow> string" where
  "candidate_query requested = join ''&'' (map (\<lambda>u. ''ticket='' @ query_escape u) requested)"

definition ticket_modal :: "'w pages \<Rightarrow> time \<Rightarrow> string list \<Rightarrow> ('w, launch_modal) page" where
  "ticket_modal P now requested =
     and_then (wrapping ''load candidate inputs'' (load_candidate_inputs P now)) (\<lambda>i.
     and_then (wrapping ''preview candidates'' (lift_sum (preview_candidates (pe_hash P) requested i))) (\<lambda>_.
     ret ((new_launch_modal P)\<lparr>lm_ticket_query := candidate_query requested\<rparr>)))"

text \<open>A feature without tickets shows why its last import was refused, if it was.\<close>

definition modal_without_candidates :: "string \<Rightarrow> import_error option \<Rightarrow> launch_modal \<Rightarrow> launch_modal" where
  "modal_without_candidates feature failed m =
     (case failed of
        Some e \<Rightarrow> if ie_feature e = feature then m\<lparr>lm_refused := ie_message e\<rparr> else m\<lparr>lm_empty := True\<rparr>
      | None \<Rightarrow> m\<lparr>lm_empty := True\<rparr>)"

definition feature_modal :: "'w pages \<Rightarrow> time \<Rightarrow> string \<Rightarrow> ('w, launch_modal) page" where
  "feature_modal P now feature =
     (let m = (new_launch_modal P)\<lparr>lm_feature := feature, lm_feature_query := query_escape feature\<rparr> in
      and_then (wrapping ''load pending verb intents'' (on_store (pending_verb_intents (pe_json P) VerbImport))) (\<lambda>is.
      if \<exists>i \<in> set is. vi_ticket_id i = feature then ret (m\<lparr>lm_pending := True\<rparr>)
      else
        and_then (wrapping ''load candidate inputs'' (load_candidate_inputs P now)) (\<lambda>i.
        let m = m\<lparr>lm_project := feature_mark i feature\<rparr> in
        and_then (wrapping ''load candidate selection''
            (lift_sum (candidate_selection [(''feature'', [feature])] (ci_tickets i)))) (\<lambda>requested.
        and_then (wrapping ''preview candidates'' (lift_sum (preview_candidates (pe_hash P) requested i))) (\<lambda>cs.
        if cs = []
        then and_then (wrapping ''load last import error'' (on_store last_import_error)) (\<lambda>failed.
             ret (modal_without_candidates feature failed m))
        else ret m)))))"

record launch_feature =
  lf_name :: string
  lf_project :: project_mark
  lf_path :: string
  lf_now :: int
  lf_on_unlock :: int

record launch_picker =
  lk_chrome :: chrome
  lk_features :: "launch_feature list"
  lk_launch :: "launch_modal option"

definition tickets_by_feature :: "store_ticket list \<Rightarrow> (string, string list) gomap" where
  "tickets_by_feature ts =
     fold (\<lambda>t m. if ss_feature t \<noteq> [] then put (ss_feature t) (get_or [] m (ss_feature t) @ [ss_url t]) m else m) ts []"

definition count_label :: "preview_label \<Rightarrow> candidate list \<Rightarrow> int" where
  "count_label l cs = int (length (filter (\<lambda>c. cd_label c = preview_label_text l) cs))"

text \<open>The features in the order of the map: which one's error is told first is open in the code.\<close>

fun launch_features ::
  "(string \<Rightarrow> string) \<Rightarrow> candidate_inputs \<Rightarrow> (string \<times> string list) list \<Rightarrow> io_error + launch_feature list" where
  "launch_features hash i [] = Inr []"
| "launch_features hash i ((feature, urls) # fs) =
     (case preview_candidates hash urls i of
        Inl e \<Rightarrow> Inl (Wrapped (''preview launch of feature '' @ feature) e)
      | Inr cs \<Rightarrow>
          (case launch_features hash i fs of
             Inl e \<Rightarrow> Inl e
           | Inr rows \<Rightarrow>
               let row = \<lparr>lf_name = feature, lf_project = feature_mark i feature, lf_path = feature_launch_path feature,
                          lf_now = count_label Now cs, lf_on_unlock = count_label OnUnlock cs\<rparr>
               in Inr (if lf_now row + lf_on_unlock row > 0 then row # rows else rows)))"

definition read_launch_picker :: "'w pages \<Rightarrow> time \<Rightarrow> ('w, launch_picker) page" where
  "read_launch_picker P now =
     and_then (wrapping ''load chrome'' (read_chrome P now no_params)) (\<lambda>c.
     and_then (wrapping ''load candidate inputs'' (load_candidate_inputs P now)) (\<lambda>i.
     and_then (lift_sum (launch_features (pe_hash P) i (tickets_by_feature (ci_tickets i)))) (\<lambda>fs.
     ret \<lparr>lk_chrome = (titled ''Launch'' c)\<lparr>ch_crumbs := [plain_crumb ''Launch a feature'' []]\<rparr>,
          lk_features = sort_func (\<lambda>a b. str_compare (lf_name a) (lf_name b)) fs, lk_launch = None\<rparr>)))"

end
