(* ===== verification/View_Repos.thy ===== *)
theory View_Repos imports View_Launch begin

text \<open>
  The pages of the repositories: \<open>internal/web/view/repos.go\<close>. Tracked repositories by project, those the owner may
  push to, and one repository with its board and the features that can be imported.
\<close>

record repo_line =
  rn_full_name :: string
  rn_tracked :: bool
  rn_path :: string
  rn_refused_branch :: string
  rn_project :: string
  rn_glyph :: glyph_word
  rn_status :: string
  rn_open_tickets :: int
  rn_steps :: "check_step list"

definition repo_status_line :: "banner_state \<Rightarrow> check_step list \<Rightarrow> string" where
  "repo_status_line state steps =
     (if state = BannerReady then ''Checks passed''
      else if state = BannerRefused then
        (case find (\<lambda>s. sp_glyph s = GlyphFailed) steps of
           Some s \<Rightarrow> ''Failed: '' @ sp_label s
         | None \<Rightarrow> ''Failed: checks'')
      else ''Checking the repo on GitHub'' @ dots)"

definition tracked_row :: "store_repo \<Rightarrow> int \<Rightarrow> repo_line" where
  "tracked_row r open_tickets =
     (let state = banner_state_of r; steps = check_steps state (so_refusal_kind r)
      in \<lparr>rn_full_name = so_name r, rn_tracked = True, rn_path = repo_path (so_name r), rn_refused_branch = [],
          rn_project = so_project r, rn_glyph = fst (banner_words state (Some r)), rn_status = repo_status_line state steps,
          rn_open_tickets = open_tickets, rn_steps = steps\<rparr>)"

definition open_by_repo :: "row list \<Rightarrow> (string, int) gomap" where
  "open_by_repo rows =
     fold (\<lambda>r m. if rw_glyph r \<noteq> GlyphDone then put (rw_repo r) (get_or 0 m (rw_repo r) + 1) m else m) rows []"

record repo_group =
  rq_scope :: scope_entry
  rq_count :: int
  rq_rows :: "repo_line list"

definition no_store_repo :: store_repo where
  "no_store_repo = \<lparr>so_name = [], so_remote = [], so_phase = RepoPhaseUnknown, so_refusal_kind = RefusalUnknown, so_refusal = [],
     so_settings_source = [], so_settings_read_at = 0, so_tracked_at = 0, so_project = [], so_hue = 0\<rparr>"

definition add_repo_group ::
  "store_repo list \<Rightarrow> (string, int) gomap \<Rightarrow> scope_entry \<times> string list \<Rightarrow> repo_group list \<Rightarrow> repo_group list" where
  "add_repo_group rs open_tickets = (\<lambda>(scope, members) groups.
     if members = [] then groups
     else
       let by_name = fold (\<lambda>r m. put (so_name r) r m) rs []
       in groups @ [\<lparr>rq_scope = scope, rq_count = int (length members),
            rq_rows = map (\<lambda>n. tracked_row (get_or no_store_repo by_name n) (get_or 0 open_tickets n)) members\<rparr>])"

definition repo_groups :: "store_repo list \<Rightarrow> project list \<Rightarrow> (string, int) gomap \<Rightarrow> repo_group list" where
  "repo_groups rs prs open_tickets =
     (let loose = sort_func str_compare (map so_name (filter (\<lambda>r. so_project r = []) rs));
          scoped = map (\<lambda>s. (s, case find (\<lambda>p. pr_name p = sc_value s) prs of Some p \<Rightarrow> pr_repos p | None \<Rightarrow> []))
                     (scope_list prs []);
          no_scope = \<lparr>sc_label = ''No project'', sc_kind = scope_repo, sc_value = [], sc_hue = 0, sc_initial = [], sc_path = []\<rparr>
      in fold (add_repo_group rs open_tickets) (scoped @ [(no_scope, loose)]) [])"

record import_error_view =
  iz_age :: string
  iz_feature :: string
  iz_message :: string

definition read_import_error :: "time \<Rightarrow> ('w, import_error_view option) page" where
  "read_import_error now =
     and_then (wrapping ''load last import error'' (on_store last_import_error)) (\<lambda>failed.
     ret (map_option (\<lambda>e. \<lparr>iz_age = ag_age (relative_age now (ie_at e)), iz_feature = ie_feature e, iz_message = ie_message e\<rparr>)
       failed))"

record repos_page =
  ro_chrome :: chrome
  ro_groups :: "repo_group list"
  ro_import_error :: "import_error_view option"

definition read_repos :: "'w pages \<Rightarrow> time \<Rightarrow> ('w, repos_page) page" where
  "read_repos P now =
     and_then (wrapping ''load frame'' (load_frame P now no_params)) (\<lambda>(f, c).
     and_then (wrapping ''import error'' (read_import_error now)) (\<lambda>err.
     ret \<lparr>ro_chrome = (titled ''Repos'' (set_current key_repos c))\<lparr>ch_crumbs := [plain_crumb ''Repos'' []]\<rparr>,
          ro_groups = repo_groups (fm_repos f) (fm_project_list f) (open_by_repo (fm_rows f)), ro_import_error = err\<rparr>))"

definition read_repo_groups :: "'w pages \<Rightarrow> time \<Rightarrow> ('w, repo_group list) page" where
  "read_repo_groups P now =
     and_then (wrapping ''load repo groups'' (load_frame P now no_params)) (\<lambda>(f, c).
     ret (repo_groups (fm_repos f) (fm_project_list f) (open_by_repo (fm_rows f))))"

definition tracks :: "store_repo list \<Rightarrow> gh_repo_summary \<Rightarrow> bool" where
  "tracks tracked p \<longleftrightarrow>
     (\<exists>r \<in> set tracked. equal_fold (so_name r) (gr_full_name p) \<or> same_remote (so_remote r) (gr_ssh_url p))"

definition pushable_line :: "gh_repo_summary \<Rightarrow> repo_line" where
  "pushable_line p = \<lparr>rn_full_name = gr_full_name p, rn_tracked = False, rn_path = repo_path (gr_full_name p),
     rn_refused_branch = (if gr_default_branch p \<noteq> default_base_branch then gr_default_branch p else []), rn_project = [],
     rn_glyph = GlyphUnknown, rn_status = [], rn_open_tickets = 0, rn_steps = []\<rparr>"

definition search_lines :: "string \<Rightarrow> store_repo list \<Rightarrow> gh_repo_summary list \<Rightarrow> repo_line list" where
  "search_lines query tracked pushable =
     (let q = lower_text (trim_space query);
          rows = map (\<lambda>r. tracked_row r 0) (filter (\<lambda>r. str_contains (lower_text (so_name r)) q) tracked);
          others = filter (\<lambda>p. str_contains (lower_text (gr_full_name p)) q \<and> \<not> tracks tracked p) pushable
      in if q = [] then rows
         else rows @ sort_func (\<lambda>a b. str_compare (rn_full_name a) (rn_full_name b)) (map pushable_line others))"

definition read_repo_search :: "string \<Rightarrow> gh_repo_summary list \<Rightarrow> ('w, repo_line list) page" where
  "read_repo_search query pushable =
     and_then (wrapping ''load repos'' (on_store repos)) (\<lambda>tracked. ret (search_lines query tracked pushable))"

subsection \<open>One repository\<close>

record feature_row =
  fw_feature :: string
  fw_other_repos :: "string list"

record known_part =
  kp_remote :: string
  kp_ready :: bool
  kp_project :: project_mark
  kp_open_tickets :: int
  kp_base :: string
  kp_projects :: "project_mark list"
  kp_default_hue :: int
  kp_hues :: "int list"
  kp_new_repos :: "string list"
  kp_unimported :: "feature_row list"
  kp_import_error :: "import_error_view option"
  kp_tickets :: board

record repo_view =
  ry_chrome :: chrome
  ry_title :: string
  ry_banner :: banner_view
  ry_known :: "known_part option"

definition repo_crumbs :: "string \<Rightarrow> crumb list" where
  "repo_crumbs name = [plain_crumb ''Repos'' ''/repos'', (plain_crumb name [])\<lparr>cr_mono := True\<rparr>]"

definition imported_features :: "store_repo \<Rightarrow> store_ticket list \<Rightarrow> string list" where
  "imported_features r ts = map ss_feature (filter (\<lambda>t. ss_feature t \<noteq> [] \<and> ss_repo t = so_name r) ts)"

text \<open>The other repositories with tickets of a feature, each once, in order.\<close>

definition other_repos :: "store_repo \<Rightarrow> store_ticket list \<Rightarrow> string \<Rightarrow> string list" where
  "other_repos r ts feature = sort_func str_compare
     (fold (\<lambda>t us. if ss_feature t = feature \<and> ss_repo t \<noteq> so_name r \<and> ss_repo t \<notin> set us then us @ [ss_repo t] else us)
        (filter (\<lambda>t. ss_feature t \<noteq> []) ts) [])"

definition unimported :: "store_repo \<Rightarrow> store_ticket list \<Rightarrow> string list \<Rightarrow> feature_row list" where
  "unimported r ts offered = map (\<lambda>f. \<lparr>fw_feature = f, fw_other_repos = other_repos r ts f\<rparr>)
     (filter (\<lambda>f. f \<notin> set (imported_features r ts)) offered)"

definition read_known_part :: "'w pages \<Rightarrow> time \<Rightarrow> store_repo \<Rightarrow> string list \<Rightarrow> ('w, known_part) page" where
  "read_known_part P now r offered =
     and_then (wrapping ''load tickets'' (on_store tickets)) (\<lambda>ts.
     and_then (wrapping ''load projects'' (on_store projects)) (\<lambda>prs.
     and_then (wrapping ''import error'' (read_import_error now)) (\<lambda>err.
     and_then (wrapping ''load board'' (read_board P now (parse_params [(''repo'', [so_name r])]))) (\<lambda>b.
     ret \<lparr>kp_remote = so_remote r, kp_ready = (so_phase r = RepoReady), kp_project = \<lparr>mk_name = so_project r, mk_hue = so_hue r\<rparr>,
          kp_open_tickets = get_or 0 (open_by_repo (rows_in (bd_groups b))) (so_name r), kp_base = ''origin/'' @ default_base_branch,
          kp_projects = map (\<lambda>p. \<lparr>mk_name = pr_name p, mk_hue = pr_hue p\<rparr>) prs, kp_default_hue = least_used_hue prs,
          kp_hues = all_hues, kp_new_repos = [so_name r], kp_unimported = unimported r ts offered, kp_import_error = err,
          kp_tickets = b\<rparr>))))"

definition read_repo_page :: "'w pages \<Rightarrow> time \<Rightarrow> string \<Rightarrow> string list \<Rightarrow> ('w, repo_view) page" where
  "read_repo_page P now scope offered =
     and_then (wrapping ''load chrome'' (read_chrome P now (parse_params []))) (\<lambda>c.
     let c = titled scope (set_current key_repos c) in
     and_then (wrapping ''load banner'' (read_banner P scope)) (\<lambda>banner.
     and_then (wrapping ''load known repo'' (read_known_repo scope)) (\<lambda>known.
     case known of
       None \<Rightarrow> ret \<lparr>ry_chrome = c\<lparr>ch_crumbs := repo_crumbs scope\<rparr>, ry_title = scope, ry_banner = banner, ry_known = None\<rparr>
     | Some r \<Rightarrow>
         and_then (read_known_part P now r offered) (\<lambda>k.
         ret \<lparr>ry_chrome = c\<lparr>ch_crumbs := repo_crumbs (so_name r)\<rparr>, ry_title = so_name r, ry_banner = banner,
              ry_known = Some k\<rparr>))))"

end
