(* ===== verification/View_Session.thy ===== *)
theory View_Session imports View_Repos Loop_Verbs begin

text \<open>
  The page of one ticket: \<open>internal/web/view/session.go\<close>. The steps of its workflow, the turns of its runs with their
  logs, the prompt the first was given and the follow-ups that wait.

  The metrics of a run are stored as JSON; the decoder that gives them back is the parameter \<open>decode\<close>.
\<close>

subsection \<open>The events of a ticket\<close>

definition event_page_size :: nat where "event_page_size = 500"

text \<open>
  The loop of \<open>EachTicketEvent\<close> page by page, until one is not full. The fuel is the number of pages; a full page has
  only events after the last one read, so one page more than there are events is enough.
\<close>

fun ticket_events_fuel :: "nat \<Rightarrow> string \<Rightarrow> int \<Rightarrow> event list query" where
  "ticket_events_fuel 0 url after = ret []"
| "ticket_events_fuel (Suc n) url after =
     and_then (wrapping (''read ticket events for '' @ url) (ticket_events_after url after event_page_size)) (\<lambda>es.
     if length es < event_page_size then ret es
     else and_then (ticket_events_fuel n url (en_id (last es))) (\<lambda>rest. ret (es @ rest)))"

definition each_ticket_event :: "string \<Rightarrow> int \<Rightarrow> event list query" where
  "each_ticket_event url after c = ticket_events_fuel (Suc (length (db_events (cn_db c)))) url after c"

subsection \<open>Steps\<close>

record step_cell =
  sl_step :: string
  sl_round :: nat
  sl_glyph :: glyph_word
  sl_model :: string
  sl_wall :: string
  sl_pct_week :: float64
  sl_turns :: int
  sl_live :: bool
  sl_run :: run_id

definition fix_step_name :: string where "fix_step_name = ''fix''"

definition step_label :: "step_cell \<Rightarrow> string" where
  "step_label c = (if 0 < sl_round c then sl_step c @ '' '' @ nat_text (sl_round c) else sl_step c)"

text \<open>The cell of a run: \<open>fixes\<close> repairs came before, \<open>live\<close> is what the running log has told.\<close>

definition cell_of ::
  "arithmetic \<Rightarrow> (string \<Rightarrow> run_metrics) \<Rightarrow> worked_summary option \<Rightarrow> float64 \<Rightarrow> nat \<Rightarrow> bool \<Rightarrow> session_run \<Rightarrow> step_cell" where
  "cell_of A decode live factor fixes running r =
     (let metrics = (if running then None else map_option decode (sn_metrics r))
      in \<lparr>sl_step = sn_step r,
          sl_round = (if sn_step r = fix_step_name then Suc fixes else 0),
          sl_glyph = (if running then GlyphRunning
                      else case parse_outcome (sn_outcome r) of Inr out \<Rightarrow> outcome_glyph out | Inl _ \<Rightarrow> GlyphPending),
          sl_model = sn_model r,
          sl_wall = (if running then (case live of Some s \<Rightarrow> ws_wall s | None \<Rightarrow> [])
                     else case metrics of None \<Rightarrow> [] | Some m \<Rightarrow> (case rx_wall m of Some d \<Rightarrow> format_short d | None \<Rightarrow> [])),
          sl_pct_week = (case sn_cost r of Some cost \<Rightarrow> pct_week A cost factor | None \<Rightarrow> float_zero),
          sl_turns = (if running then (case live of Some s \<Rightarrow> ws_turns s | None \<Rightarrow> 0)
                      else case metrics of None \<Rightarrow> 0 | Some m \<Rightarrow> rx_turns m),
          sl_live = running, sl_run = sn_run_id r\<rparr>)"

fun step_cells ::
  "arithmetic \<Rightarrow> (string \<Rightarrow> run_metrics) \<Rightarrow> worked_summary option \<Rightarrow> bool \<Rightarrow> float64 \<Rightarrow> nat \<Rightarrow> session_run list \<Rightarrow> step_cell list" where
  "step_cells A decode live alive factor fixes [] = []"
| "step_cells A decode live alive factor fixes (r # rs) =
     cell_of A decode live factor fixes (rs = [] \<and> alive) r
     # step_cells A decode live alive factor (if sn_step r = fix_step_name then Suc fixes else fixes) rs"

definition build_steps ::
  "arithmetic \<Rightarrow> (string \<Rightarrow> run_metrics) \<Rightarrow> session_run list \<Rightarrow> worked_summary option \<Rightarrow> bool \<Rightarrow> float64 \<Rightarrow> run_id \<Rightarrow>
   step_cell list \<times> step_cell option" where
  "build_steps A decode runs live alive factor pick =
     (let cells = step_cells A decode live alive factor 0 runs
      in (cells,
          if cells = [] then None
          else case find (\<lambda>c. sl_run c = pick) cells of Some c \<Rightarrow> Some c | None \<Rightarrow> Some (last cells)))"

subsection \<open>Turns, prompt and raw log\<close>

record turn =
  tu_you :: string
  tu_log :: log_detail
  tu_ask :: string

definition files_page :: "('w \<Rightarrow> 'a \<times> 'w) \<Rightarrow> ('w, 'a) page" where
  "files_page f v = (case f (vs_world v) of (a, w) \<Rightarrow> (Inr a, v\<lparr>vs_world := w\<rparr>))"

text \<open>The last run with the log of the row shows it; every other run shows its own log, which is not followed.\<close>

definition turn_of :: "'w pages \<Rightarrow> row \<Rightarrow> bool \<Rightarrow> bool \<Rightarrow> session_run \<Rightarrow> ('w, turn) page" where
  "turn_of P r first latest run =
     and_then
       (if \<not> latest \<or> sn_log_path run \<noteq> rw_log_path r
        then and_then (files_page (build_log_detail (pe_log P) (pe_arith P) (pe_files P)
                 \<lparr>ls_path = sn_log_path run, ls_streaming = False, ls_ticket_url = rw_url r, ls_records = [], ls_checks = []\<rparr> LogAll))
               (\<lambda>d. ret (d\<lparr>ld_stream_path := []\<rparr>))
        else ret (rw_log r))
       (\<lambda>d. ret \<lparr>tu_you = (if first then [] else sn_message run), tu_log = d, tu_ask = sn_question run\<rparr>)"

fun run_turns :: "'w pages \<Rightarrow> row \<Rightarrow> bool \<Rightarrow> session_run list \<Rightarrow> ('w, turn list) page" where
  "run_turns P r first [] = ret []"
| "run_turns P r first (run # rs) =
     and_then (turn_of P r first (rs = []) run) (\<lambda>t.
     and_then (run_turns P r False rs) (\<lambda>ts. ret (t # ts)))"

definition build_turns :: "'w pages \<Rightarrow> row \<Rightarrow> session_run list \<Rightarrow> ('w, turn list) page" where
  "build_turns P r runs =
     (if length runs < 2 then ret [\<lparr>tu_you = [], tu_log = rw_log r, tu_ask = rw_question r\<rparr>]
      else run_turns P r True runs)"

text \<open>\<open>path.Ext\<close>: from the last dot of the last element on.\<close>

definition path_ext :: "string \<Rightarrow> string" where
  "path_ext p = (let tail = takeWhile (\<lambda>c. c \<noteq> CHR ''.'' \<and> c \<noteq> CHR ''/'') (rev p)
     in if length tail < length p \<and> rev p ! length tail = CHR ''.'' then CHR ''.'' # rev tail else [])"

definition absent_is :: "'a \<Rightarrow> string \<Rightarrow> ('w, 'a) io \<Rightarrow> ('w, 'a) io" where
  "absent_is a what m w = (case m w of
      (Inl e, w') \<Rightarrow> (if is_not_exist e then Inr a else Inl (Wrapped what e), w')
    | r \<Rightarrow> r)"

definition read_prompt :: "'w pages \<Rightarrow> string \<Rightarrow> ('w, string \<times> bool) page" where
  "read_prompt P path =
     (if path = [] then ret ([], False)
      else on_files (absent_is ([], False) (''read prompt for '' @ path)
        (and_then (fi_read_file (pe_files P) (trim_suffix path (path_ext path) @ ''.prompt'')) (\<lambda>text. ret (text, True)))))"

definition raw_log :: "'w pages \<Rightarrow> bool \<Rightarrow> string \<Rightarrow> ('w, string) page" where
  "raw_log P raw path =
     (if \<not> raw \<or> path = [] then ret []
      else on_files (absent_is [] (''read log '' @ path) (fi_read_file (pe_files P) path)))"

subsection \<open>The page\<close>

record session_page =
  sx_chrome :: chrome
  sx_row :: row
  sx_stack :: stack_view
  sx_ref :: string
  sx_prompt :: "string \<times> bool"
  sx_turns :: "turn list"
  sx_raw :: bool
  sx_raw_text :: string
  sx_transcript_path :: string
  sx_raw_path :: string
  sx_actions_path :: string
  sx_actions :: "verb_button list"
  sx_callout :: bool
  sx_pr_url :: string
  sx_toast :: string
  sx_reset_composer :: bool
  sx_pending_messages :: "string list"
  sx_model :: string
  sx_models :: "string list"
  sx_efforts :: "effort list"
  sx_launched :: "age option"
  sx_worked :: "worked_summary option"
  sx_steps :: "step_cell list"
  sx_selected :: "step_cell option"
  sx_steps_path :: string

definition err_session_not_found :: io_error where "err_session_not_found = Sentinel ''view: no such session''"

definition session_crumbs :: "row \<Rightarrow> crumb list" where
  "session_crumbs r =
     (if rw_project r \<noteq> [] then [project_crumb (row_mark r)] else []) @
     (if rw_feature r \<noteq> [] then [plain_crumb (rw_feature r) (''/f/'' @ path_escape (rw_feature r))] else []) @
     [plain_crumb (View_Rows.or_else (rw_title r) (ref_of (rw_url r))) []]"

definition pr_url_of :: "row \<Rightarrow> string" where
  "pr_url_of r = (if 0 < rw_pr_number r then ''https://github.com/'' @ rw_repo r @ ''/pull/'' @ itoa (rw_pr_number r) else [])"

text \<open>What \<open>Session\<close> reads after the board: the page of the row it found.\<close>

record session_reads =
  sq_pending :: "string list"
  sq_model :: string
  sq_runs :: "session_run list"
  sq_log :: log_detail
  sq_turns :: "turn list"
  sq_fit :: float64
  sq_prompt :: "string \<times> bool"
  sq_raw_text :: string
  sq_launched :: "age option"

definition follow_up_of :: "(string \<Rightarrow> follow_up_payload option) \<Rightarrow> string \<Rightarrow> follow_up_payload" where
  "follow_up_of payload raw =
     (case (if has_prefix raw ''{'' then payload raw else None) of
        Some p \<Rightarrow> p
      | None \<Rightarrow> \<lparr>fp_message = raw, fp_model = [], fp_effort = None\<rparr>)"

definition entry_model :: "snapshot \<Rightarrow> string \<Rightarrow> string" where
  "entry_model snap url =
     View_Rows.or_else (case entry_of snap url of Some e \<Rightarrow> choice_model (t_choice (e_ticket e)) | None \<Rightarrow> []) agent_model"

definition session_log :: "'w pages \<Rightarrow> row \<Rightarrow> event list \<Rightarrow> ('w, log_detail) page" where
  "session_log P r records = files_page (build_log_detail (pe_log P) (pe_arith P) (pe_files P)
     \<lparr>ls_path = rw_log_path r, ls_streaming = rw_alive r, ls_ticket_url = rw_url r, ls_records = records,
      ls_checks = rw_checks r\<rparr> LogAll)"

definition read_session_parts ::
  "'w pages \<Rightarrow> (string \<Rightarrow> follow_up_payload option) \<Rightarrow> time \<Rightarrow> bool \<Rightarrow> row \<Rightarrow> ('w, session_reads) page" where
  "read_session_parts P payload now raw r =
     and_then (wrapping ''load pending verb intents'' (on_store (pending_verb_intents (pe_json P) VerbFollowUp))) (\<lambda>is.
     and_then (wrapping ''load snapshot'' (read_snapshot P now)) (\<lambda>snap.
     and_then (wrapping ''load session runs for ticket'' (on_store (session_runs_for_ticket (rw_url r)))) (\<lambda>runs.
     and_then (wrapping ''load ticket events'' (on_store (each_ticket_event (rw_url r) 0))) (\<lambda>records.
     and_then (session_log P r records) (\<lambda>log.
     and_then (if raw then ret [\<lparr>tu_you = [], tu_log = log, tu_ask = []\<rparr>] else build_turns P (r\<lparr>rw_log := log\<rparr>) runs) (\<lambda>turns.
     and_then (wrapping ''load fit factors'' (on_store (fit_factors (pe_arith P) now))) (\<lambda>fits.
     and_then (wrapping ''read prompt'' (read_prompt P (case runs of [] \<Rightarrow> rw_log_path r | run # _ \<Rightarrow> sn_log_path run))) (\<lambda>prompt.
     and_then (wrapping ''load raw log'' (raw_log P raw (rw_log_path r))) (\<lambda>raw_text.
     and_then (first_launch now (rw_feature r)) (\<lambda>launched.
     ret \<lparr>sq_pending = map (\<lambda>i. fp_message (follow_up_of payload (vi_payload i)))
            (filter (\<lambda>i. vi_ticket_id i = rw_url r) is),
          sq_model = entry_model snap (rw_url r), sq_runs = runs, sq_log = log, sq_turns = turns,
          sq_fit = fr_factor (get_or no_fit fits seven_day), sq_prompt = prompt, sq_raw_text = raw_text,
          sq_launched = launched\<rparr>))))))))))"

definition session_of_reads ::
  "'w pages \<Rightarrow> (string \<Rightarrow> run_metrics) \<Rightarrow> session_ref \<Rightarrow> bool \<Rightarrow> board \<Rightarrow> row \<Rightarrow> session_reads \<Rightarrow> session_page" where
  "session_of_reads P decode ref raw b r q =
     (let self = ref_path ref; r' = r\<lparr>rw_log := sq_log q\<rparr>;
          worked = (if 0 < ld_phase_count (sq_log q) then Some ((ld_summary (sq_log q))\<lparr>ws_spend_pct_week := rw_spend_pct_week r\<rparr>) else None);
          (steps, selected) = build_steps (pe_arith P) decode (sq_runs q) worked (rw_alive r) (sq_fit q) (sr_run ref);
          turns = (case index_where (\<lambda>run. sn_run_id run = sr_run ref) (sq_runs q) of
              Some i \<Rightarrow> if raw then sq_turns q else take 1 (drop i (sq_turns q))
            | None \<Rightarrow> sq_turns q)
      in \<lparr>sx_chrome = (titled (ref_of (rw_url r)) ((bd_chrome b)\<lparr>ch_home := False\<rparr>))\<lparr>ch_crumbs := session_crumbs r\<rparr>,
          sx_row = r', sx_stack = build_stack (pe_fixed2 P) (bd_groups b) r', sx_ref = ref_of (rw_url r), sx_prompt = sq_prompt q,
          sx_turns = turns, sx_raw = raw, sx_raw_text = sq_raw_text q, sx_transcript_path = self,
          sx_raw_path = self @ ''?log=raw'', sx_actions_path = self @ ''/actions'',
          sx_actions = map (\<lambda>a. a\<lparr>vb_label := verb_text (vb_verb a)\<rparr>) (rw_buttons r),
          sx_callout = (rw_glyph r = GlyphFailed \<or> rw_glyph r = GlyphAttention), sx_pr_url = pr_url_of r, sx_toast = [],
          sx_reset_composer = False, sx_pending_messages = sq_pending q, sx_model = sq_model q,
          sx_models = (if sq_model q \<in> set agent_models then agent_models else agent_models @ [sq_model q]),
          sx_efforts = all_efforts, sx_launched = sq_launched q, sx_worked = worked, sx_steps = steps, sx_selected = selected,
          sx_steps_path = ref_path_with_run ref\<rparr>)"

definition read_session ::
  "'w pages \<Rightarrow> (string \<Rightarrow> run_metrics) \<Rightarrow> (string \<Rightarrow> follow_up_payload option) \<Rightarrow> time \<Rightarrow> session_ref \<Rightarrow> bool \<Rightarrow> ('w, session_page) page" where
  "read_session P decode payload now ref raw =
     and_then (wrapping ''load board'' (read_board P now no_params)) (\<lambda>b.
     case row_for b ref of
       None \<Rightarrow> fail_with err_session_not_found
     | Some r \<Rightarrow> and_then (read_session_parts P payload now raw r) (\<lambda>q. ret (session_of_reads P decode ref raw b r q)))"

end
