(* ===== verification/Web_Requests.thy ===== *)
theory Web_Requests imports View_Session begin

text \<open>
  What the handlers of the web server share: \<open>internal/web/respond.go\<close>, \<open>internal/web/hx\<close> and the helpers of
  \<open>internal/web/server.go\<close>. A request with its headers and forms, the answers, the status an error is answered with, the
  names of repositories, and the path a form may send the browser back to.
\<close>

subsection \<open>Requests\<close>

text \<open>
  The parsed forms are the standard library's: \<open>hr_form\<close> has the values of the body before those of the query, \<open>hr_post\<close>
  those of the body. A header or a cookie that is not there reads as the empty text.
\<close>

record request =
  hr_headers :: "(string, string) gomap"
  hr_cookies :: "(string, string) gomap"
  hr_raw_query :: string
  hr_query :: url_values
  hr_form :: url_values
  hr_post :: url_values
  hr_form_error :: "io_error option"

definition header :: "request \<Rightarrow> string \<Rightarrow> string" where
  "header r k = get_or [] (hr_headers r) k"

definition form_value :: "request \<Rightarrow> string \<Rightarrow> string" where
  "form_value r k = first_value (hr_form r) k"

definition form_values :: "request \<Rightarrow> string \<Rightarrow> string list" where
  "form_values r k = get_or [] (hr_form r) k"

definition query_value :: "request \<Rightarrow> string \<Rightarrow> string" where
  "query_value r k = first_value (hr_query r) k"

text \<open>\<open>hx.IsRequest\<close>: htmx asks for a fragment, but not to restore its history.\<close>

definition is_hx :: "request \<Rightarrow> bool" where
  "is_hx r \<longleftrightarrow> header r ''HX-Request'' = ''true'' \<and> header r ''HX-History-Restore-Request'' \<noteq> ''true''"

definition non_blank :: "string list \<Rightarrow> string list" where
  "non_blank vs = filter (\<lambda>v. v \<noteq> []) (map trim_space vs)"

subsection \<open>Errors and their status\<close>

definition bad_request :: int where "bad_request = 400"
definition not_found :: int where "not_found = 404"
definition conflict :: int where "conflict = 409"
definition unprocessable :: int where "unprocessable = 422"
definition internal_error :: int where "internal_error = 500"

definition with_http_status :: "int \<Rightarrow> ('w, 'a) io \<Rightarrow> ('w, 'a) io" where
  "with_http_status n m w = (case m w of (Inl e, w') \<Rightarrow> (Inl (Status_error n e), w') | r \<Rightarrow> r)"

definition reject :: "int \<Rightarrow> string \<Rightarrow> ('w, 'a) io" where
  "reject n message = fail_with (Status_error n (Plain message))"

definition status_map :: "(string \<times> int) list" where
  "status_map = [(''store: project already exists'', conflict), (''store: not found'', not_found),
     (''store: invalid project'', bad_request), (''view: no such session'', not_found)]"

definition status_error_in :: "io_error \<Rightarrow> (int \<times> io_error) option" where
  "status_error_in = as_error (\<lambda>e. case e of Status_error n x \<Rightarrow> Some (n, x) | _ \<Rightarrow> None)"

definition invalid_error_in :: "io_error \<Rightarrow> io_error option" where
  "invalid_error_in = as_error (\<lambda>e. case e of Invalid_error x \<Rightarrow> Some x | _ \<Rightarrow> None)"

definition status_of :: "io_error \<Rightarrow> int" where
  "status_of e =
     (case status_error_in e of
        Some (n, _) \<Rightarrow> n
      | None \<Rightarrow>
          if invalid_error_in e \<noteq> None then bad_request
          else case find (\<lambda>(s, _). is_sentinel s e) status_map of Some (_, n) \<Rightarrow> n | None \<Rightarrow> internal_error)"

text \<open>The innermost error of a chain that still says something about the one it wraps.\<close>

fun unwrapped :: "io_error \<Rightarrow> io_error option" where
  "unwrapped (Wrapped _ e) = Some e"
| "unwrapped (Status_error _ e) = Some e"
| "unwrapped (Invalid_error e) = Some e"
| "unwrapped _ = None"

fun narrow :: "string \<Rightarrow> io_error \<Rightarrow> io_error" where
  "narrow s (Wrapped what e) = (if unwrapped e \<noteq> None \<and> is_sentinel s e then narrow s e else Wrapped what e)"
| "narrow s (Status_error n e) = (if unwrapped e \<noteq> None \<and> is_sentinel s e then narrow s e else Status_error n e)"
| "narrow s (Invalid_error e) = (if unwrapped e \<noteq> None \<and> is_sentinel s e then narrow s e else Invalid_error e)"
| "narrow s e = e"

definition client_message :: "io_error \<Rightarrow> string" where
  "client_message e =
     (case status_error_in e of
        Some (_, x) \<Rightarrow> error_text x
      | None \<Rightarrow>
          (case invalid_error_in e of
             Some x \<Rightarrow> error_text x
           | None \<Rightarrow>
               (case find (\<lambda>(s, _). is_sentinel s e) status_map of
                  Some (s, _) \<Rightarrow> error_text (narrow s e)
                | None \<Rightarrow> error_text e)))"

subsection \<open>Names of repositories\<close>

definition repo_name_chars :: "char list" where "repo_name_chars = letter_chars @ digit_chars @ ''_.-''"

text \<open>\<open>^[A-Za-z0-9_.-]+/[A-Za-z0-9_.-]+$\<close>\<close>

definition repo_name :: regex where
  "repo_name = cats [At_begin, plus (One_of repo_name_chars), lit ''/'', plus (One_of repo_name_chars), At_end]"

definition valid_repo :: "string \<Rightarrow> bool" where
  "valid_repo name \<longleftrightarrow>
     match_string repo_name name \<and> (\<forall>seg \<in> set (split_char (CHR ''/'') name). seg \<noteq> ''.'' \<and> seg \<noteq> ''..'')"

subsection \<open>The way back\<close>

text \<open>
  Package \<open>net/url\<close> on a text that begins with one slash: the fragment and the query are cut off, a control character
  or a percent sign without two hexadecimal digits is an error, and the path is decoded.
\<close>

definition control_byte :: "char \<Rightarrow> bool" where
  "control_byte c \<longleftrightarrow> (let n = of_char c :: nat in n < 32 \<or> n = 127)"

definition hex_value :: "char \<Rightarrow> nat option" where
  "hex_value c = (let n = of_char c :: nat in
     if 48 \<le> n \<and> n \<le> 57 then Some (n - 48) else if 97 \<le> n \<and> n \<le> 102 then Some (n - 87)
     else if 65 \<le> n \<and> n \<le> 70 then Some (n - 55) else None)"

fun unescape :: "string \<Rightarrow> string option" where
  "unescape [] = Some []"
| "unescape (c # cs) =
     (if c = CHR ''%'' then
        (case cs of
           a # b # rest \<Rightarrow>
             (case (hex_value a, hex_value b) of
                (Some x, Some y) \<Rightarrow> map_option (Cons (char_of (16 * x + y))) (unescape rest)
              | _ \<Rightarrow> None)
         | _ \<Rightarrow> None)
      else map_option (Cons c) (unescape cs))"

definition path_char :: "char \<Rightarrow> bool" where
  "path_char c \<longleftrightarrow> unreserved c \<or> c \<in> set ''$&+,/:;=@''"

definition escape_path :: "string \<Rightarrow> string" where
  "escape_path s = concat (map (\<lambda>c. if path_char c then [c] else percent c) s)"

definition valid_encoded :: "string \<Rightarrow> bool" where
  "valid_encoded s \<longleftrightarrow> (\<forall>c \<in> set s. path_char c \<or> c \<in> set ''!()*[]%'' \<or> c = tick_mark)"

record local_url =
  lu_path :: string
  lu_escaped :: string

definition parse_local :: "string \<Rightarrow> local_url option" where
  "parse_local back =
     (let (u, rest) = (case str_cut ''#'' back of None \<Rightarrow> (back, []) | Some parts \<Rightarrow> parts); p = cut_before ''?'' u
      in if (\<exists>c \<in> set u. control_byte c) \<or> unescape rest = None then None
         else map_option (\<lambda>path. \<lparr>lu_path = path, lu_escaped = (if valid_encoded p then p else escape_path path)\<rparr>) (unescape p))"

text \<open>Any other text is not asked what it parses to: it is not a path of the server.\<close>

definition return_path :: "string \<Rightarrow> string \<Rightarrow> string \<Rightarrow> string" where
  "return_path back prefix fallback =
     (if \<not> has_prefix back ''/'' \<or> has_prefix back ''//'' \<or> str_contains back [back_slash] then fallback
      else case parse_local back of
        None \<Rightarrow> fallback
      | Some u \<Rightarrow>
          if \<not> has_prefix (lu_path u) prefix then fallback
          else if \<exists>seg \<in> set (split_char (CHR ''/'') (lu_path u)). seg = ''.'' \<or> seg = ''..'' then fallback
          else if prefix = ''/s/'' then lu_escaped u
          else back)"

subsection \<open>No way off the server\<close>

lemma upper_hex_value: "n < 16 \<Longrightarrow> hex_value (upper_hex n) = Some n"
  by (simp add: hex_value_def upper_hex_def Let_def)

lemma unreserved_hex: "n < 16 \<Longrightarrow> unreserved (upper_hex n)"
  by (simp add: unreserved_def upper_hex_def Let_def)

lemma byte_high: "of_char c div 16 < (16::nat)"
  by (rule less_mult_imp_div_less) simp

lemma unescape_percent: "unescape (percent c @ s) = map_option (Cons c) (unescape s)"
  using byte_high [of c] by (simp add: percent_def Let_def upper_hex_value)

lemma unescape_escape: "unescape (escape_path s) = Some s"
proof (induction s)
  case Nil
  then show ?case by (simp add: escape_path_def)
next
  case (Cons c s)
  have "path_char c \<Longrightarrow> c \<noteq> CHR ''%''" by (auto simp: path_char_def unreserved_def)
  with Cons show ?case by (auto simp: escape_path_def unescape_percent)
qed

definition harmless :: "char \<Rightarrow> bool" where
  "harmless c \<longleftrightarrow> c \<noteq> back_slash \<and> \<not> control_byte c \<and> c \<noteq> CHR ''?'' \<and> c \<noteq> CHR ''#''"

lemma back_slash_char: "back_slash = CHR 0x5C"
  by code_simp

lemma path_char_harmless: "path_char c \<Longrightarrow> harmless c"
  by (auto simp: harmless_def path_char_def unreserved_def control_byte_def back_slash_char Let_def)

lemma escape_harmless: "c \<in> set (escape_path s) \<Longrightarrow> harmless c"
proof -
  assume "c \<in> set (escape_path s)"
  then obtain d where d: "c \<in> set (if path_char d then [d] else percent d)" 
    unfolding escape_path_def set_concat set_map by blast
  have "harmless x" if "x \<in> set (percent d)" for x
  proof -
    have "of_char d div 16 < (16::nat)" by (rule byte_high)
    with that have "x = CHR ''%'' \<or> unreserved x" by (auto simp: percent_def Let_def unreserved_hex)
    then show ?thesis
      by (auto intro: path_char_harmless simp: path_char_def) (simp add: harmless_def control_byte_def back_slash_char)
  qed
  with d show ?thesis by (auto simp: path_char_harmless split: if_splits)
qed

lemma cut_before_absent: "c \<notin> set s \<Longrightarrow> cut_before [c] s = s"
  by (simp add: cut_before_def cut_char_None [THEN iffD2])

lemma cut_before_starts: "\<exists>r. s = cut_before [c] s @ r \<and> c \<notin> set (cut_before [c] s)"
proof (cases "c \<in> set s")
  case True
  then obtain a b where "s = a @ c # b" "c \<notin> set a" by (meson split_list_first)
  then show ?thesis by (auto simp: cut_before_def cut_char_notin)
qed (auto simp: cut_before_absent)

lemma starts_local:
  assumes "way = p @ rest" and "has_prefix way ''/''" and "\<not> has_prefix way ''//''" and "p \<noteq> []"
  shows "has_prefix p ''/'' \<and> \<not> has_prefix p ''//''"
  using assms by (cases p) (auto simp: has_prefix_iff)



end
