(* ===== verification/Web_Handlers.thy ===== *)
theory Web_Handlers imports Web_Requests begin

text \<open>
  The handlers of \<open>internal/web/{server,projects,importfeatures,session_page}.go\<close>. A handler reads pages and calls the
  operations of the store, and answers or fails; what it answers with is data, which the HTML templates only print. The
  routes and the answer to an error are in \<open>Web_Routes\<close>, the log stream in \<open>Web_Stream\<close>.
\<close>

subsection \<open>The server\<close>

text \<open>
  The clock, the list of repositories the owner may push to, the trackers, the random name of a launch group and the JSON
  encoders are of the machine around the server; \<open>sv_page_url\<close> is the path and query of the address in the browser, if it
  parses.
\<close>

record 'w server =
  sv_pages :: "'w pages"
  sv_now :: "'w \<Rightarrow> time \<times> 'w"
  sv_metrics :: "string \<Rightarrow> run_metrics"
  sv_follow_up :: "string \<Rightarrow> follow_up_payload option"
  sv_encode :: "follow_up_payload \<Rightarrow> string"
  sv_agent_command :: "string list"
  sv_pushable :: "('w, gh_repo_summary list) io"
  sv_features :: "string \<Rightarrow> string \<Rightarrow> io_error + ('w, string list) io"
  sv_group :: "('w, string) io"
  sv_page_url :: "string \<Rightarrow> (string \<times> url_values) option"

text \<open>What the server keeps between requests, and the nudges it gave the daemon.\<close>

record 'w web =
  wb_visit :: "'w visit"
  wb_pushable :: "(gh_repo_summary list \<times> time) option"
  wb_nudges :: nat

definition on_view :: "('w, 'a) page \<Rightarrow> ('w web, 'a) io" where
  "on_view m s = (case m (wb_visit s) of (r, v) \<Rightarrow> (r, s\<lparr>wb_visit := v\<rparr>))"

definition now_at :: "'w server \<Rightarrow> ('w web, time) io" where
  "now_at S = on_view (\<lambda>v. case sv_now S (vs_world v) of (t, w) \<Rightarrow> (Inr t, v\<lparr>vs_world := w\<rparr>))"

definition nudge :: "('w web, unit) io" where
  "nudge s = (Inr (), s\<lparr>wb_nudges := Suc (wb_nudges s)\<rparr>)"

definition timed :: "'w server \<Rightarrow> (time \<Rightarrow> ('w web, 'a) io) \<Rightarrow> ('w web, 'a) io" where
  "timed S f = and_then (now_at S) f"

subsection \<open>Answers\<close>

datatype view_data =
    Home_data chrome string
  | Board_data board
  | Feature_data board "launch_modal option"
  | Picker_data launch_picker
  | Rail_data rail_view
  | Graph_data "row_group list"
  | Events_data "event list"
  | Modal_data launch_modal
  | Candidates_data "candidate list"
  | Repos_data repos_page string "(repo_line list \<times> string) option"
  | Repo_data repo_view
  | Groups_data "repo_group list"
  | Search_data "repo_line list \<times> string"
  | Banner_data banner_view bool
  | Session_data session_page
  | Flash_data string

datatype response =
    Html int string view_data
  | Json view_data
  | See_other string
  | Hx_location string
  | Http_error int string

definition ok :: int where "ok = 200"

definition html :: "string \<Rightarrow> view_data \<Rightarrow> ('w, response) io" where
  "html template_name d = ret (Html ok template_name d)"

definition see_other :: "request \<Rightarrow> string \<Rightarrow> ('w, response) io" where
  "see_other r path = ret (if is_hx r then Hx_location path else See_other path)"

definition fragment :: "request \<Rightarrow> string \<Rightarrow> string \<Rightarrow> view_data \<Rightarrow> ('w, response) io" where
  "fragment r host block d = (if \<not> is_hx r then see_other r host else html block d)"

text \<open>A form the standard library could not parse is a bad request.\<close>

definition parsed_form :: "request \<Rightarrow> ('w, unit) io" where
  "parsed_form r = (case hr_form_error r of Some e \<Rightarrow> fail_with (Status_error bad_request e) | None \<Rightarrow> ret ())"

subsection \<open>Pages of tickets\<close>

definition handle_index :: "'w server \<Rightarrow> ('w web, response) io" where
  "handle_index S = timed S (\<lambda>t.
     and_then (wrapping ''load home'' (on_view (read_home (sv_pages S) t))) (\<lambda>(c, target).
     html ''home.tmpl'' (Home_data c target)))"

definition board_at :: "'w server \<Rightarrow> url_values \<Rightarrow> ('w web, board) io" where
  "board_at S q = timed S (\<lambda>t. wrapping ''load board'' (on_view (read_board (sv_pages S) t (parse_params q))))"

definition handle_tickets :: "'w server \<Rightarrow> request \<Rightarrow> ('w web, response) io" where
  "handle_tickets S r =
     and_then (board_at S (put ''all'' [''1''] (hr_query r))) (\<lambda>b. html ''tickets.tmpl'' (Board_data b))"

definition feature_board :: "'w server \<Rightarrow> request \<Rightarrow> string \<Rightarrow> ('w web, board) io" where
  "feature_board S r feature =
     and_then (board_at S (put ''feature'' [feature] (hr_query r))) (\<lambda>b.
     if ch_feature_scope (bd_chrome b) \<noteq> feature then reject not_found (''no feature '' @ quoted feature) else ret b)"

definition render_feature :: "'w server \<Rightarrow> request \<Rightarrow> string \<Rightarrow> string \<Rightarrow> ('w web, response) io" where
  "render_feature S r template_name feature =
     and_then (wrapping ''load feature board'' (feature_board S r feature)) (\<lambda>b. html template_name (Feature_data b None))"

definition handle_feature_launch :: "'w server \<Rightarrow> request \<Rightarrow> string \<Rightarrow> ('w web, response) io" where
  "handle_feature_launch S r feature =
     and_then (wrapping ''load feature board'' (feature_board S r feature)) (\<lambda>b. timed S (\<lambda>t.
     and_then (wrapping ''load feature modal''
         (on_view (feature_modal (sv_pages S) t (ch_feature_scope (bd_chrome b))))) (\<lambda>m.
     html ''feature.tmpl'' (Feature_data b (Some m)))))"

definition modal_for :: "'w server \<Rightarrow> time \<Rightarrow> string \<Rightarrow> string list \<Rightarrow> ('w web, launch_modal) io" where
  "modal_for S t feature selected =
     (if feature \<noteq> [] then wrapping ''load feature modal'' (on_view (feature_modal (sv_pages S) t feature))
      else if selected = [] then reject bad_request ''either feature or at least one ticket is required''
      else with_http_status bad_request (on_view (ticket_modal (sv_pages S) t selected)))"

definition handle_launch_picker :: "'w server \<Rightarrow> request \<Rightarrow> ('w web, response) io" where
  "handle_launch_picker S r = timed S (\<lambda>t.
     and_then (wrapping ''load launch picker'' (on_view (read_launch_picker (sv_pages S) t))) (\<lambda>p.
     let requested = get_or [] (hr_query r) ''ticket'' in
     if requested = [] then html ''launch_picker.tmpl'' (Picker_data p)
     else timed S (\<lambda>t.
       and_then (with_http_status bad_request (modal_for S t [] requested)) (\<lambda>m.
       html ''launch_picker.tmpl'' (Picker_data (p\<lparr>lk_launch := Some m\<rparr>))))))"

definition rail_selection :: "'w server \<Rightarrow> string \<Rightarrow> string" where
  "rail_selection S url = (case sv_page_url S url of
     Some (path, _) \<Rightarrow> if has_prefix path ''/s/'' then path else []
   | None \<Rightarrow> [])"

definition rail_scope :: "'w server \<Rightarrow> string \<Rightarrow> string \<times> string" where
  "rail_scope S url = (case sv_page_url S url of
     Some (_, q) \<Rightarrow> (first_value q ''project'', first_value q ''repo'')
   | None \<Rightarrow> ([], []))"

text \<open>\<open>url.QueryUnescape\<close>: a plus is a space.\<close>

definition query_unescape :: "string \<Rightarrow> string option" where
  "query_unescape s = unescape (map (\<lambda>c. if c = CHR ''+'' then CHR '' '' else c) s)"

definition rail_open :: "request \<Rightarrow> string list" where
  "rail_open r = (case map_of (hr_cookies r) ''rail-open'' of
     None \<Rightarrow> []
   | Some c \<Rightarrow> (case query_unescape c of
       None \<Rightarrow> []
     | Some value \<Rightarrow> if value = [] then [] else split_char (CHR ''|'') value))"

definition handle_rail :: "'w server \<Rightarrow> request \<Rightarrow> ('w web, response) io" where
  "handle_rail S r =
     (let url = header r ''HX-Current-URL''; (project, repo) = rail_scope S url;
          v = \<lparr>rp_sel = rail_selection S url, rp_open = rail_open r, rp_query = trim_space (form_value r ''q''),
               rp_project = project, rp_repo = repo, rp_project_repos = []\<rparr>
      in timed S (\<lambda>t.
         and_then (wrapping ''load rail'' (on_view (read_rail (sv_pages S) t v))) (\<lambda>rail.
         fragment r ''/'' ''rail'' (Rail_data rail))))"

definition handle_graph :: "'w server \<Rightarrow> request \<Rightarrow> ('w web, response) io" where
  "handle_graph S r = and_then (board_at S (hr_query r)) (\<lambda>b. ret (Json (Graph_data (graph (bd_groups b)))))"

definition render_board :: "'w server \<Rightarrow> request \<Rightarrow> ('w web, response) io" where
  "render_board S r = and_then (board_at S (hr_query r)) (\<lambda>b.
     fragment r (''/tickets'' @ (if hr_raw_query r \<noteq> [] then ''?'' @ hr_raw_query r else [])) ''board'' (Board_data b))"

definition handle_events :: "('w web, response) io" where
  "handle_events = and_then (wrapping ''load events'' (on_view (on_store events))) (\<lambda>es. ret (Json (Events_data es)))"

subsection \<open>Launching\<close>

definition queue_import :: "'w server \<Rightarrow> string \<Rightarrow> ('w web, unit) io" where
  "queue_import S feature = timed S (\<lambda>t.
     and_then (wrapping ''queue verb intent'' (on_view (on_store (queue_verb_intent feature VerbImport [] t)))) (\<lambda>_. nudge))"

definition handle_launch_open :: "'w server \<Rightarrow> request \<Rightarrow> ('w web, response) io" where
  "handle_launch_open S r =
     and_then (parsed_form r) (\<lambda>_.
     let feature = form_value r ''feature'' in
     and_then (if feature \<noteq> [] then queue_import S feature else ret ()) (\<lambda>_. timed S (\<lambda>t.
     and_then (modal_for S t feature (form_values r ''ticket'')) (\<lambda>m.
     fragment r (modal_path m) ''launchDialog'' (Modal_data m)))))"

definition handle_candidates :: "'w server \<Rightarrow> request \<Rightarrow> ('w web, response) io" where
  "handle_candidates S r = timed S (\<lambda>t.
     and_then (modal_for S t (query_value r ''feature'') (get_or [] (hr_query r) ''ticket'')) (\<lambda>m.
     fragment r (modal_path m) ''launchDialog'' (Modal_data m)))"

definition handle_candidates_json :: "'w server \<Rightarrow> request \<Rightarrow> ('w web, response) io" where
  "handle_candidates_json S r = timed S (\<lambda>t.
     and_then (wrapping ''load candidates'' (on_view (read_candidates (sv_pages S) t (hr_query r)))) (\<lambda>cs.
     ret (Json (Candidates_data cs))))"

definition parse_agent_choice :: "string \<Rightarrow> string \<Rightarrow> io_error + agent_choice" where
  "parse_agent_choice model effort =
     (if model \<noteq> [] \<and> model \<notin> set agent_models then Inl (Plain (''unknown model '' @ quoted model))
      else if effort = [] then Inr \<lparr>choice_model = model, choice_effort = None\<rparr>
      else map_sum id (\<lambda>e. \<lparr>choice_model = model, choice_effort = Some e\<rparr>) (parsed ''parse effort'' (parse_effort effort)))"

text \<open>The fields \<open>hash\<close> of the form: a ticket and the hash its prompt was shown with; or the first that is neither.\<close>

fun previewed_hashes :: "string list \<Rightarrow> (string, string) gomap \<Rightarrow> string + (string, string) gomap" where
  "previewed_hashes [] m = Inr m"
| "previewed_hashes (f # fs) m =
     (case str_cut '' '' f of None \<Rightarrow> Inl f | Some (url, hash) \<Rightarrow> previewed_hashes fs (put url hash m))"

definition stale_row :: "(string, string) gomap \<Rightarrow> preview_row \<Rightarrow> bool" where
  "stale_row previewed r \<longleftrightarrow>
     (case map_of previewed (t_url (pv_ticket r)) of None \<Rightarrow> False | Some want \<Rightarrow> want \<noteq> pv_prompt_hash r)"

definition preview_or_reject :: "(string \<Rightarrow> string) \<Rightarrow> snapshot \<Rightarrow> string list \<Rightarrow> string \<Rightarrow> ('w, preview_row list) io" where
  "preview_or_reject hash snap requested launch_context =
     (case snapshot_preview hash snap requested launch_context of
        Inl u \<Rightarrow> fail_with (Status_error bad_request (unknown_ticket u))
      | Inr rows \<Rightarrow> ret rows)"

text \<open>The workflow a launch asks for, which the command of the agent must be able to run.\<close>

definition checked_workflow :: "'w server \<Rightarrow> request \<Rightarrow> ('w web, string) io" where
  "checked_workflow S r =
     (let workflow = View_Rows.or_else (form_value r ''workflow'') default_workflow in
      if \<not> has_key (pe_workflows (sv_pages S)) workflow then reject bad_request (''unknown workflow '' @ quoted workflow)
      else if workflow \<noteq> default_workflow \<and> sv_agent_command S \<noteq> [] \<and> ''{tools}'' \<notin> set (sv_agent_command S)
      then reject bad_request (''workflow '' @ quoted workflow @ '' needs an agent_command with {tools}'')
      else ret workflow)"

definition stale_message :: "(string, string) gomap \<Rightarrow> preview_row \<Rightarrow> string" where
  "stale_message previewed r =
     ''ticket '' @ t_url (pv_ticket r) @ '' was previewed at hash '' @ get_or [] previewed (t_url (pv_ticket r))
     @ '' and now composes to '' @ pv_prompt_hash r"

definition queue_launches ::
  "string list \<Rightarrow> (string, string) gomap \<Rightarrow> string \<Rightarrow> string \<Rightarrow> agent_choice \<Rightarrow> string \<Rightarrow> time \<Rightarrow> unit query" where
  "queue_launches requested hashes group_name launch_context choice workflow t =
     each_io (\<lambda>url. queue_launch_intent url
       \<lparr>la_prompt_hash = get_or [] hashes url, la_group = group_name, la_context = launch_context, la_choice = choice,
        la_workflow = workflow\<rparr> t) requested"

definition launch_from ::
  "'w server \<Rightarrow> request \<Rightarrow> (string, string) gomap \<Rightarrow> snapshot \<Rightarrow> ('w web, response) io" where
  "launch_from S r previewed snap =
     (let requested = form_values r ''ticket''; hash = pe_hash (sv_pages S) in
      and_then (with_http_status bad_request (lift_sum (parse_agent_choice (form_value r ''model'') (form_value r ''effort'')))) (\<lambda>choice.
      and_then (checked_workflow S r) (\<lambda>workflow.
      let launch_context = trim_space (form_value r ''context'') in
      and_then (preview_or_reject hash snap requested []) (\<lambda>base.
      case find (stale_row previewed) base of
        Some row \<Rightarrow> reject conflict (stale_message previewed row)
      | None \<Rightarrow>
          and_then (preview_or_reject hash snap requested launch_context) (\<lambda>rows.
          let hashes = fold (\<lambda>row m. put (t_url (pv_ticket row)) (pv_prompt_hash row) m) rows [] in
          and_then (wrapping ''pick launch group'' (on_view (on_files (sv_group S)))) (\<lambda>group_name. timed S (\<lambda>t.
          and_then (wrapping ''queue launch intent''
              (on_view (on_store (queue_launches requested hashes group_name launch_context choice workflow t)))) (\<lambda>_.
          ret (See_other ''/'')))))))))"

definition handle_launch :: "'w server \<Rightarrow> request \<Rightarrow> ('w web, response) io" where
  "handle_launch S r =
     and_then (parsed_form r) (\<lambda>_.
     if form_values r ''ticket'' = [] then reject bad_request ''at least one ticket is required''
     else
       (case previewed_hashes (form_values r ''hash'') [] of
          Inl field \<Rightarrow> reject bad_request
            (''malformed hash field '' @ quoted field @ '', want '' @ quoted ''<ticket> <hash>'')
        | Inr previewed \<Rightarrow> timed S (\<lambda>t.
            and_then (wrapping ''load snapshot'' (on_view (read_snapshot (sv_pages S) t))) (launch_from S r previewed))))"

subsection \<open>Verbs\<close>

definition redirect_or_swap :: "'w server \<Rightarrow> request \<Rightarrow> ('w web, response) io" where
  "redirect_or_swap S r =
     (if \<not> is_hx r then see_other r (return_path (form_value r ''return'') ''/'' ''/'') else render_board S r)"

definition after_session_verb :: "'w server \<Rightarrow> request \<Rightarrow> string \<Rightarrow> verb \<Rightarrow> ('w web, response) io" where
  "after_session_verb S r url v =
     (case parse_session_ref url of
        None \<Rightarrow> reject bad_request (quoted url @ '' has no session page'')
      | Some ref \<Rightarrow>
          if \<not> is_hx r then see_other r (ref_path ref)
          else timed S (\<lambda>t.
            and_then (wrapping ''load session''
                (on_view (read_session (sv_pages S) (sv_metrics S) (sv_follow_up S) t ref False))) (\<lambda>p.
            html ''sessionActions''
              (Session_data (p\<lparr>sx_toast := ''Queued '' @ verb_text v, sx_reset_composer := (v = VerbFollowUp)\<rparr>)))))"

text \<open>The payload of a follow-up; other verbs have none.\<close>

definition verb_payload :: "'w server \<Rightarrow> request \<Rightarrow> verb \<Rightarrow> ('w web, string) io" where
  "verb_payload S r v =
     (if v \<noteq> VerbFollowUp then ret []
      else let message = trim_space (form_value r ''prompt'') in
        if message = [] then reject bad_request ''prompt is required for follow-up''
        else case parse_agent_choice (form_value r ''model'') (form_value r ''effort'') of
          Inl e \<Rightarrow> reject bad_request (error_text e)
        | Inr choice \<Rightarrow> ret (sv_encode S \<lparr>fp_message = message, fp_model = choice_model choice, fp_effort = choice_effort choice\<rparr>))"

definition offered_verb :: "snapshot \<Rightarrow> string \<Rightarrow> verb \<Rightarrow> ('w web, unit) io" where
  "offered_verb snap url v =
     (case entry_of snap url of
        None \<Rightarrow> reject bad_request (''unknown ticket '' @ quoted url)
      | Some e \<Rightarrow>
          if \<not> offers snap url v
          then reject conflict (url @ '' is '' @ state_text (e_state e) @ '' and does not offer '' @ verb_text v @ '': '' @ e_reason e)
          else ret ())"

definition after_verb :: "'w server \<Rightarrow> request \<Rightarrow> string \<Rightarrow> verb \<Rightarrow> ('w web, response) io" where
  "after_verb S r url v =
     (if form_value r ''from'' = ''rail'' \<and> is_hx r then handle_rail S r
      else if form_value r ''from'' = ''session'' then after_session_verb S r url v
      else redirect_or_swap S r)"

definition queue_row_verb :: "'w server \<Rightarrow> request \<Rightarrow> string \<Rightarrow> verb \<Rightarrow> string \<Rightarrow> ('w web, unit) io" where
  "queue_row_verb S r url v p = timed S (\<lambda>t.
     and_then (wrapping ''load snapshot'' (on_view (read_snapshot (sv_pages S) t))) (\<lambda>snap.
     and_then (offered_verb snap url v) (\<lambda>_. timed S (\<lambda>t.
     wrapping ''queue verb intent'' (on_view (on_store (queue_verb_intent url v p t)))))))"

definition handle_verb :: "'w server \<Rightarrow> request \<Rightarrow> ('w web, response) io" where
  "handle_verb S r =
     (let raw = form_value r ''verb''; url = form_value r ''ticket'' in
      if raw = [] \<or> url = [] then reject bad_request ''verb and ticket are both required''
      else case parse_verb raw of
        Inl _ \<Rightarrow> reject bad_request (''unsupported verb '' @ quoted raw)
      | Inr v \<Rightarrow>
          if \<not> is_row_verb v then reject bad_request (''unsupported verb '' @ quoted raw)
          else
            and_then (verb_payload S r v) (\<lambda>p.
            and_then (queue_row_verb S r url v p) (\<lambda>_.
            after_verb S r url v)))"

definition handle_import_feature :: "'w server \<Rightarrow> request \<Rightarrow> string \<Rightarrow> ('w web, response) io" where
  "handle_import_feature S r feature = and_then (queue_import S feature) (\<lambda>_. redirect_or_swap S r)"

subsection \<open>Editing a ticket\<close>

definition ticket_by_url :: "store_ticket list \<Rightarrow> string \<Rightarrow> store_ticket option" where
  "ticket_by_url ts url = find (\<lambda>t. ss_url t = url) ts"

text \<open>A branch that has a worktree keeps its name.\<close>

definition branch_is_free :: "store_ticket \<Rightarrow> string \<Rightarrow> ('w web, unit) io" where
  "branch_is_free t branch =
     (if branch = ss_branch t then ret ()
      else and_then (wrapping ''load last observation'' (on_view (on_store last_observation))) (\<lambda>(ob, _).
        case map_of (ob_worktrees ob) (store_ticket_ref t) of
          Some path \<Rightarrow> reject conflict (''branch '' @ ss_branch t @ '' already has a worktree at '' @ path
            @ '', remove it before changing branch'')
        | None \<Rightarrow> ret ()))"

definition handle_ticket :: "'w server \<Rightarrow> request \<Rightarrow> ('w web, response) io" where
  "handle_ticket S r =
     and_then (parsed_form r) (\<lambda>_.
     let url = form_value r ''ticket''; branch = form_value r ''branch'' in
     if url = [] \<or> branch = [] then reject bad_request ''ticket and branch are both required''
     else
       and_then (wrapping ''load tickets'' (on_view (on_store tickets))) (\<lambda>ts.
       case ticket_by_url ts url of
         None \<Rightarrow> reject bad_request (''unknown ticket '' @ quoted url)
       | Some tk \<Rightarrow>
           and_then (branch_is_free tk branch) (\<lambda>_. timed S (\<lambda>t.
           and_then (wrapping ''queue edit ticket intent''
               (on_view (on_store (queue_edit_ticket_intent url branch (non_blank (form_values r ''blocked_by'')) t)))) (\<lambda>_.
           ret (See_other (return_path (form_value r ''return'') ''/s/'' ''/'')))))))"

subsection \<open>Repositories\<close>

definition pushable_ttl :: duration where "pushable_ttl = minute"

text \<open>The list the owner may push to is asked for at most once a minute; an error is not kept.\<close>

definition fetch_pushable :: "'w server \<Rightarrow> time \<Rightarrow> ('w web, gh_repo_summary list) io" where
  "fetch_pushable S t =
     and_then (wrapping ''fetch pushable repos'' (wrapping ''list pushable repos'' (on_view (on_files (sv_pushable S)))))
       (\<lambda>rs s. (Inr rs, s\<lparr>wb_pushable := Some (rs, t)\<rparr>))"

definition pushable_repos :: "'w server \<Rightarrow> time \<Rightarrow> ('w web, gh_repo_summary list) io" where
  "pushable_repos S t s =
     (case wb_pushable s of
        Some (rs, fetched) \<Rightarrow> if t - fetched < pushable_ttl then (Inr rs, s) else fetch_pushable S t s
      | None \<Rightarrow> fetch_pushable S t s)"

definition search_repos :: "'w server \<Rightarrow> string \<Rightarrow> ('w web, repo_line list \<times> string) io" where
  "search_repos S query = timed S (\<lambda>t.
     and_then (attempt (pushable_repos S t)) (\<lambda>found.
     let (pushable, problem) = (case found of Inl e \<Rightarrow> ([], error_text e) | Inr rs \<Rightarrow> (rs, [])) in
     and_then (wrapping ''search repos'' (on_view (read_repo_search query pushable))) (\<lambda>lines. ret (lines, problem))))"

definition handle_repos :: "'w server \<Rightarrow> request \<Rightarrow> ('w web, response) io" where
  "handle_repos S r = timed S (\<lambda>t.
     and_then (wrapping ''load repos'' (on_view (read_repos (sv_pages S) t))) (\<lambda>p.
     let q = query_value r ''q'' in
     if trim_space q = [] then html ''repos.tmpl'' (Repos_data p q None)
     else and_then (search_repos S q) (\<lambda>found. html ''repos.tmpl'' (Repos_data p q (Some found)))))"

text \<open>The features the tracker of each repository offers, each once, sorted.\<close>

fun import_features ::
  "'w server \<Rightarrow> store_repo list \<Rightarrow> (string, repo_settings) gomap \<Rightarrow> string list \<Rightarrow> ('w web, string list) io" where
  "import_features S [] settings seen = ret (sort_func str_compare (remdups seen))"
| "import_features S (r # rs) settings seen =
     (let kind = rs_tracker (case map_of settings (so_name r) of Some s \<Rightarrow> s | None \<Rightarrow> default_repo_settings) in
      and_then (wrapping (''repo '' @ so_name r) (lift_sum (for_remote (sv_features S) kind (so_remote r)))) (\<lambda>src.
      case src of
        None \<Rightarrow> import_features S rs settings seen
      | Some list_features \<Rightarrow>
          and_then (wrapping (''list features for '' @ so_name r) (on_view (on_files list_features))) (\<lambda>fs.
          import_features S rs settings (seen @ fs))))"

definition handle_repo :: "'w server \<Rightarrow> string \<Rightarrow> string \<Rightarrow> ('w web, response) io" where
  "handle_repo S owner name =
     (let scope = owner @ ''/'' @ name in
      if \<not> valid_repo scope then reject not_found (''repo '' @ quoted scope @ '' is not owner/name'')
      else
        and_then (wrapping ''load known repo'' (on_view (read_known_repo scope))) (\<lambda>known.
        and_then
          (case known of
             Some r \<Rightarrow>
               if so_phase r = RepoReady
               then and_then (wrapping ''load last observation'' (on_view (on_store last_observation))) (\<lambda>(ob, _).
                    wrapping ''import features'' (import_features S [r] (ob_settings ob) []))
               else ret []
           | None \<Rightarrow> ret []) (\<lambda>offered. timed S (\<lambda>t.
        and_then (wrapping ''load repo page'' (on_view (read_repo_page (sv_pages S) t scope offered))) (\<lambda>p.
        html ''repo.tmpl'' (Repo_data p))))))"

definition banner_states :: "banner_state list" where
  "banner_states = [BannerUntracked, BannerCloning, BannerReady, BannerRefused]"

text \<open>A page that shows another state than the banner has is reloaded; a banner that will not change stops the polling.\<close>

definition seen_before :: "string \<Rightarrow> banner_view \<Rightarrow> bool" where
  "seen_before raw b \<longleftrightarrow> bn_state b \<in> set banner_states \<and> banner_state_text (bn_state b) = raw"

definition stop_polling :: int where "stop_polling = 286"

definition handle_banner :: "'w server \<Rightarrow> request \<Rightarrow> ('w web, response) io" where
  "handle_banner S r =
     (let repo = query_value r ''repo''; seen = query_value r ''seen'';
          host = (if valid_repo repo then repo_path repo else ''/repos'') in
      and_then (wrapping ''load banner'' (on_view (read_banner (sv_pages S) repo))) (\<lambda>b.
      let refresh = (is_hx r \<and> seen \<noteq> [] \<and> \<not> seen_before seen b) in
      if is_hx r \<and> seen \<noteq> [] \<and> \<not> banner_polling b then ret (Html stop_polling ''repoBanner'' (Banner_data b refresh))
      else fragment r host ''repoBanner'' (Banner_data b refresh)))"

definition handle_track :: "'w server \<Rightarrow> request \<Rightarrow> ('w web, response) io" where
  "handle_track S r =
     (let repo = trim_space (form_value r ''repo'') in
      if \<not> valid_repo repo then reject bad_request (''repo '' @ quoted repo @ '' is not owner/name'')
      else timed S (\<lambda>t.
        and_then (wrapping ''queue track intent'' (on_view (on_store (queue_track_intent (pe_json (sv_pages S)) repo t)))) (\<lambda>queued.
        and_then (if queued then nudge else ret ()) (\<lambda>_.
        if \<not> is_hx r then see_other r (repo_path repo)
        else and_then (wrapping ''load banner'' (on_view (read_banner (sv_pages S) repo))) (\<lambda>b.
             html ''repoBanner'' (Banner_data b False))))))"

definition handle_repo_search :: "'w server \<Rightarrow> request \<Rightarrow> ('w web, response) io" where
  "handle_repo_search S r =
     (let query = query_value r ''q''; host = ''/repos?q='' @ query_escape query in
      if trim_space query = [] then timed S (\<lambda>t.
        and_then (wrapping ''load repo groups'' (on_view (read_repo_groups (sv_pages S) t))) (\<lambda>gs.
        fragment r host ''repoGroups'' (Groups_data gs)))
      else and_then (wrapping ''search repos'' (search_repos S query)) (\<lambda>found.
        fragment r host ''repoResults'' (Search_data found)))"

subsection \<open>\<open>projects.go\<close>\<close>

definition malformed_form :: "request \<Rightarrow> ('w, unit) io" where
  "malformed_form r = (case hr_form_error r of
     Some e \<Rightarrow> fail_with (Status_error bad_request (Wrapped ''malformed form'' e))
   | None \<Rightarrow> ret ())"

definition post_value :: "request \<Rightarrow> string \<Rightarrow> string" where
  "post_value r k = first_value (hr_post r) k"

definition respond_repo_groups :: "request \<Rightarrow> ('w web, response) io" where
  "respond_repo_groups r = see_other r (return_path (form_value r ''return'') ''/repos'' ''/repos'')"

definition bad_name :: "string \<Rightarrow> ('w, 'a) io" where
  "bad_name name = reject bad_request (''project name '' @ quoted name @ '' is malformed'')"

definition bad_hue :: "request \<Rightarrow> ('w, 'a) io" where
  "bad_hue r = reject bad_request
     (''hue '' @ quoted (post_value r ''hue'') @ '' is not '' @ itoa min_hue @ '' to '' @ itoa max_hue)"

definition handle_create_project :: "'w server \<Rightarrow> request \<Rightarrow> ('w web, response) io" where
  "handle_create_project S r =
     and_then (malformed_form r) (\<lambda>_.
     let name = trim_space (post_value r ''name''); members = get_or [] (hr_post r) ''repo'' in
     if \<not> project_name_ok name then bad_name name
     else case atoi (post_value r ''hue'') of
       None \<Rightarrow> bad_hue r
     | Some hue \<Rightarrow>
         if hue < min_hue \<or> hue > max_hue then bad_hue r
         else (case find (\<lambda>m. \<not> valid_repo m) members of
           Some m \<Rightarrow> reject bad_request (''repo '' @ quoted m @ '' is not owner/name'')
         | None \<Rightarrow> timed S (\<lambda>t.
             and_then (wrapping ''create project''
                 (on_view (on_store (create_project \<lparr>np_name = name, np_hue = hue, np_repos = members, np_at = t\<rparr>)))) (\<lambda>_.
             respond_repo_groups r))))"

definition handle_edit_project :: "request \<Rightarrow> string \<Rightarrow> ('w web, response) io" where
  "handle_edit_project r name =
     and_then (malformed_form r) (\<lambda>_.
     let new_name = trim_space (post_value r ''name'') in
     if \<not> project_name_ok new_name then bad_name new_name
     else case atoi (post_value r ''hue'') of
       None \<Rightarrow> bad_hue r
     | Some hue \<Rightarrow>
         and_then (wrapping ''edit project'' (on_view (on_store (edit_project name new_name hue)))) (\<lambda>_.
         respond_repo_groups r))"

definition handle_delete_project :: "request \<Rightarrow> string \<Rightarrow> ('w web, response) io" where
  "handle_delete_project r name =
     and_then (wrapping ''delete project'' (on_view (on_store (delete_project name)))) (\<lambda>_. respond_repo_groups r)"

definition handle_set_repo_project :: "request \<Rightarrow> string \<Rightarrow> string \<Rightarrow> ('w web, response) io" where
  "handle_set_repo_project r owner name =
     and_then (malformed_form r) (\<lambda>_.
     let repo = owner @ ''/'' @ name in
     if \<not> valid_repo repo then reject bad_request (''repo '' @ quoted repo @ '' is not owner/name'')
     else and_then (wrapping ''set repo project''
         (on_view (on_store (set_repo_project repo (trim_space (post_value r ''project'')))))) (\<lambda>_.
       respond_repo_groups r))"

subsection \<open>\<open>session_page.go\<close>\<close>

text \<open>\<open>strconv.ParseInt\<close> with its error ignored: no number reads as zero, one out of range as the nearest in range.\<close>

definition parse_run :: "string \<Rightarrow> run_id" where
  "parse_run s =
     (let neg = (case s of c # _ \<Rightarrow> c = CHR ''-'' | [] \<Rightarrow> False);
          ds = (case s of [] \<Rightarrow> [] | c # rest \<Rightarrow> if c = CHR ''-'' \<or> c = CHR ''+'' then rest else s)
      in if ds = [] then 0
         else case digits_value 0 ds of
           None \<Rightarrow> 0
         | Some n \<Rightarrow> max min_int (min max_int (if neg then - int n else int n)))"

definition session_ref_of :: "request \<Rightarrow> string \<Rightarrow> string \<Rightarrow> string \<Rightarrow> session_ref" where
  "session_ref_of r owner name n =
     \<lparr>sr_owner = owner, sr_name = name, sr_n = n, sr_run = parse_run (query_value r ''run'')\<rparr>"

definition session_at :: "'w server \<Rightarrow> session_ref \<Rightarrow> bool \<Rightarrow> ('w web, session_page) io" where
  "session_at S ref raw = timed S (\<lambda>t.
     wrapping ''load session'' (on_view (read_session (sv_pages S) (sv_metrics S) (sv_follow_up S) t ref raw)))"

definition handle_session :: "'w server \<Rightarrow> request \<Rightarrow> string \<Rightarrow> string \<Rightarrow> string \<Rightarrow> ('w web, response) io" where
  "handle_session S r owner name n =
     and_then (session_at S (session_ref_of r owner name n) (query_value r ''log'' = ''raw'')) (\<lambda>p.
     html ''session.tmpl'' (Session_data p))"

definition handle_session_actions :: "'w server \<Rightarrow> request \<Rightarrow> string \<Rightarrow> string \<Rightarrow> string \<Rightarrow> ('w web, response) io" where
  "handle_session_actions S r owner name n =
     and_then (session_at S (session_ref_of r owner name n) False) (\<lambda>p.
     fragment r (sx_transcript_path p) ''sessionActions'' (Session_data p))"

end
