(* ===== verification/Web_Routes.thy ===== *)
theory Web_Routes imports Web_Handlers Loop_Steps begin

text \<open>
  The routes of \<open>NewServer\<close> in \<open>internal/web/server.go\<close>, the answer to an error, and which operations of the store
  each handler runs: a request that reads changes no table.
\<close>

subsection \<open>Routes\<close>

datatype route =
    Get_index
  | Get_tickets
  | Get_feature string
  | Get_feature_graph string
  | Get_feature_launch string
  | Get_launch
  | Get_board
  | Get_rail
  | Get_graph
  | Get_session string string string
  | Get_session_actions string string string
  | Get_repos
  | Get_repo string string
  | Get_repo_search
  | Get_banner
  | Get_candidates
  | Get_candidates_json
  | Get_events
  | Post_track
  | Post_projects
  | Post_project string
  | Post_project_delete string
  | Post_repo_project string string
  | Post_import string
  | Post_launch_open
  | Post_launch
  | Post_verb
  | Post_ticket

fun serve :: "'w server \<Rightarrow> route \<Rightarrow> request \<Rightarrow> ('w web, response) io" where
  "serve S Get_index r = handle_index S"
| "serve S Get_tickets r = handle_tickets S r"
| "serve S (Get_feature f) r = render_feature S r ''feature.tmpl'' f"
| "serve S (Get_feature_graph f) r = render_feature S r ''feature_graph.tmpl'' f"
| "serve S (Get_feature_launch f) r = handle_feature_launch S r f"
| "serve S Get_launch r = handle_launch_picker S r"
| "serve S Get_board r = render_board S r"
| "serve S Get_rail r = handle_rail S r"
| "serve S Get_graph r = handle_graph S r"
| "serve S (Get_session owner name n) r = handle_session S r owner name n"
| "serve S (Get_session_actions owner name n) r = handle_session_actions S r owner name n"
| "serve S Get_repos r = handle_repos S r"
| "serve S (Get_repo owner name) r = handle_repo S owner name"
| "serve S Get_repo_search r = handle_repo_search S r"
| "serve S Get_banner r = handle_banner S r"
| "serve S Get_candidates r = handle_candidates S r"
| "serve S Get_candidates_json r = handle_candidates_json S r"
| "serve S Get_events r = handle_events"
| "serve S Post_track r = handle_track S r"
| "serve S Post_projects r = handle_create_project S r"
| "serve S (Post_project name) r = handle_edit_project r name"
| "serve S (Post_project_delete name) r = handle_delete_project r name"
| "serve S (Post_repo_project owner name) r = handle_set_repo_project r owner name"
| "serve S (Post_import feature) r = handle_import_feature S r feature"
| "serve S Post_launch_open r = handle_launch_open S r"
| "serve S Post_launch r = handle_launch S r"
| "serve S Post_verb r = handle_verb S r"
| "serve S Post_ticket r = handle_ticket S r"

definition reads_only :: "route \<Rightarrow> bool" where
  "reads_only rt \<longleftrightarrow> (case rt of
     Post_track \<Rightarrow> False | Post_projects \<Rightarrow> False | Post_project _ \<Rightarrow> False | Post_project_delete _ \<Rightarrow> False
   | Post_repo_project _ _ \<Rightarrow> False | Post_import _ \<Rightarrow> False | Post_launch_open \<Rightarrow> False | Post_launch \<Rightarrow> False
   | Post_verb \<Rightarrow> False | Post_ticket \<Rightarrow> False | _ \<Rightarrow> True)"

text \<open>\<open>writeError\<close>: the browser learns of its own mistakes; what went wrong inside is only logged.\<close>

definition error_response :: "request \<Rightarrow> io_error \<Rightarrow> response" where
  "error_response r e =
     (let status = status_of e in
      if internal_error \<le> status then Http_error status ''internal error''
      else if \<not> is_hx r then Http_error status (client_message e)
      else Html unprocessable ''flash'' (Flash_data (client_message e)))"

definition respond :: "'w server \<Rightarrow> route \<Rightarrow> request \<Rightarrow> 'w web \<Rightarrow> response \<times> 'w web" where
  "respond S rt r s = (case serve S rt r s of (Inl e, s') \<Rightarrow> (error_response r e, s') | (Inr a, s') \<Rightarrow> (a, s'))"

subsection \<open>What pages read\<close>

definition page_tables :: "'w visit \<Rightarrow> db" where "page_tables v = cn_db (vs_conn v)"
definition tables :: "'w web \<Rightarrow> db" where "tables s = page_tables (wb_visit s)"

definition same_page :: "'w visit \<Rightarrow> 'w visit \<Rightarrow> bool" where "same_page v v' \<longleftrightarrow> page_tables v' = page_tables v"
definition unmoved :: "'w web \<Rightarrow> 'w web \<Rightarrow> bool" where "unmoved s s' \<longleftrightarrow> tables s' = tables s"
definition served :: "'w web \<Rightarrow> 'w web \<Rightarrow> bool" where "served s s' \<longleftrightarrow> evolves (tables s) (tables s')"

lemma http_status_case: "with_http_status n m = try_else m (\<lambda>e. fail_with (Status_error n e)) ret"
  by (simp add: fun_eq_iff with_http_status_def try_else_def split: prod.split sum.split)

context steps
begin

lemma http_status [moving]: "leads R m \<Longrightarrow> leads R (with_http_status n m)"
  unfolding http_status_case by (rule tries) (auto intro: fails returns)

lemma answers [moving]:
  "leads R (html name d)" "leads R (see_other r path)" "leads R (fragment r host block d)" "leads R (reject n message)"
  "leads R (parsed_form r)" "leads R (malformed_form r)"
  unfolding html_def see_other_def fragment_def reject_def parsed_form_def malformed_form_def
  by (intro returns fails leads_if leads_option)+

lemma previews [moving]: "leads R (preview_or_reject hash snap us x)"
  unfolding preview_or_reject_def by (intro moving)

end

interpretation pages: steps same_page
  by unfold_locales (auto simp: same_page_def)

interpretation still: steps unmoved
  by unfold_locales (auto simp: unmoved_def)

interpretation serving: steps served
  by unfold_locales (auto simp: served_def intro: evolves.same evolves_trans)

lemma page_store [moving]:
  assumes "\<And>d. keeps (\<lambda>e. e = d) q"
  shows "leads same_page (on_store q)"
proof (rule leadsI)
  fix v r v' assume run: "on_store q v = (r, v')"
  obtain a c where q: "q (vs_conn v) = (a, c)" by (meson surj_pair)
  have "cn_db c = cn_db (vs_conn v)" by (rule keepsD [OF assms q]) (rule refl)
  with run q show "same_page v v'" by (auto simp: same_page_def page_tables_def View_Pages.on_store_def)
qed

lemma page_files [moving]: "leads same_page (on_files m)" "leads same_page (files_page f)"
  by (auto simp: leads_def same_page_def page_tables_def on_files_def files_page_def split: prod.splits)

lemma view_still [moving]: "leads same_page m \<Longrightarrow> leads unmoved (on_view m)"
  by (rule leadsI) (auto simp: on_view_def unmoved_def tables_def same_page_def dest!: leadsD split: prod.splits)

lemma still_serves: "leads unmoved m \<Longrightarrow> leads served m"
  by (auto simp: leads_def unmoved_def served_def evolves.same)

lemma view_serves [moving]: "leads same_page m \<Longrightarrow> leads served (on_view m)"
  by (intro still_serves view_still)

lemma store_serves [moving]: "stores q \<Longrightarrow> leads served (on_view (on_store q))"
  by (auto simp: leads_def served_def tables_def page_tables_def stores_def on_view_def View_Pages.on_store_def split: prod.splits)
    (metis snd_conv)

subsection \<open>Queries of pages\<close>

lemmas page_queries = q_list_projects_def q_latest_readings_full_def q_list_intervals_since_def q_cc_cost_since_def
  q_board_ticket_spend_def q_feature_first_launch_def q_latest_session_runs_def q_list_events_def
  q_ticket_activities_def

lemma keeps_page_queries [keeping]:
  "keeps I projects" "keeps I latest_readings" "keeps I (fit_factors A t)" "keeps I (cc_cost_usd A t)"
  "keeps I activities" "keeps I (track_pending json scope)" "keeps I (board_ticket_spend A repo feature)"
  "keeps I (feature_first_launch feature)" "keeps I last_import_error" "keeps I (session_runs_for_ticket url)"
  "keeps I events"
  unfolding projects_def latest_readings_def latest_readings_full_def fit_factors_def cc_cost_usd_def activities_def
    track_pending_def board_ticket_spend_def feature_first_launch_def last_import_error_def get_meta_def q_get_meta_def
    session_runs_for_ticket_def events_def page_queries Let_def case_prod_unfold
  by (intro keeping)+

lemma keeps_more_events [keeping]: "keeps I (ticket_events_fuel n url after)"
proof (induction n arbitrary: after)
  case 0
  then show ?case by (simp add: keeps_def ret_def)
next
  case (Suc n)
  have "keeps I (ticket_events_after url after event_page_size)"
    unfolding ticket_events_after_def q_list_ticket_events_after_def by (intro keeping)
  with Suc show ?case unfolding ticket_events_fuel.simps by (auto intro!: keeping)
qed

lemma keeps_each_event [keeping]: "keeps I (each_ticket_event url after)"
  using keeps_more_events unfolding keeps_def each_ticket_event_def by blast

subsection \<open>Pages\<close>

lemma page_input [moving]: "leads same_page (read_input P)" and page_snapshot [moving]: "leads same_page (read_snapshot P t)"
  and page_split [moving]: "leads same_page (gauge_split P t)"
  unfolding read_snapshot_def read_input_def gauge_split_def by (intro moving keeping)+

lemma page_frame [moving]: "leads same_page (load_frame P t v)"
  unfolding load_frame_def Let_def case_prod_unfold by (intro moving keeping)

lemma page_chrome [moving]: "leads same_page (read_chrome P t v)" and page_rail [moving]: "leads same_page (read_rail P t x)"
  and page_home [moving]: "leads same_page (read_home P t)" and page_known [moving]: "leads same_page (read_known_repo scope)"
  and page_banner [moving]: "leads same_page (read_banner P scope)"
  unfolding read_chrome_def read_rail_def read_home_def read_known_repo_def read_banner_def case_prod_unfold
  by (intro moving keeping)+

lemma page_spend [moving]: "leads same_page (spend_of P path)"
  by (rule leadsI)
    (auto simp: spend_of_def on_files_def same_page_def page_tables_def split: if_splits option.splits prod.splits sum.splits)

lemma page_spends [moving]: "leads same_page (apply_spend P rows)"
  by (induction rows) (simp_all only: apply_spend.simps, (intro moving; assumption?)+)

lemma page_first_launch [moving]: "leads same_page (first_launch t feature)"
proof (rule leadsI)
  fix v r v' assume run: "first_launch t feature v = (r, v')"
  obtain a v1 where q: "on_store (feature_first_launch feature) v = (a, v1)" by (meson surj_pair)
  have reading: "leads same_page (on_store (feature_first_launch feature))" by (intro moving keeping)
  show "same_page v v'" using run q leadsD [OF reading q]
    by (auto simp: first_launch_def same_page_def split: if_splits sum.splits)
qed

lemma page_board [moving]: "leads same_page (read_board P t v)"
  unfolding read_board_def Let_def case_prod_unfold by (intro moving keeping)

lemma page_inputs [moving]: "leads same_page (load_candidate_inputs P t)"
  unfolding load_candidate_inputs_def by (intro moving keeping)

lemma page_candidates [moving]: "leads same_page (read_candidates P t q)" "leads same_page (ticket_modal P t us)"
  "leads same_page (feature_modal P t f)" "leads same_page (read_launch_picker P t)"
  unfolding read_candidates_def ticket_modal_def feature_modal_def read_launch_picker_def Let_def by (intro moving keeping)+

lemma page_import_error [moving]: "leads same_page (read_import_error t)"
  unfolding read_import_error_def by (intro moving keeping)

lemma page_repos [moving]: "leads same_page (read_repos P t)" "leads same_page (read_repo_groups P t)"
  "leads same_page (read_repo_search q ps)" "leads same_page (read_known_part P t rp offered)"
  unfolding read_repos_def read_repo_groups_def read_repo_search_def read_known_part_def case_prod_unfold
  by (intro moving keeping)+

lemma page_repo [moving]: "leads same_page (read_repo_page P t scope offered)"
  unfolding read_repo_page_def Let_def by (intro moving keeping)

lemma page_turn [moving]: "leads same_page (turn_of P rw first latest run)"
  unfolding turn_of_def by (intro moving)

lemma page_run_turns [moving]: "leads same_page (run_turns P rw first runs)"
  by (induction runs arbitrary: first) (simp_all only: run_turns.simps, (intro moving; assumption?)+)

lemma page_turns [moving]: "leads same_page (build_turns P rw runs)"
  "leads same_page (read_prompt P path)" "leads same_page (raw_log P raw path)"
  "leads same_page (session_log P rw records)"
  unfolding build_turns_def read_prompt_def raw_log_def session_log_def by (intro moving)+

lemma page_session [moving]: "leads same_page (read_session P decode payload t ref raw)"
  unfolding read_session_def read_session_parts_def by (intro moving keeping)

subsection \<open>Handlers that read\<close>

lemma still_now [moving]: "leads unmoved (now_at S)"
  unfolding now_at_def by (rule view_still, rule leadsI) (auto simp: same_page_def page_tables_def split: prod.splits)

lemma still_timed [moving]: "(\<And>t. leads unmoved (f t)) \<Longrightarrow> leads unmoved (timed S f)"
  unfolding timed_def by (intro moving)

lemma still_nudge [moving]: "leads unmoved nudge"
  by (simp add: leads_def nudge_def unmoved_def tables_def)

lemma still_board [moving]: "leads unmoved (board_at S q)" and still_feature_board [moving]: "leads unmoved (feature_board S r f)"
  unfolding feature_board_def board_at_def by (intro moving)+

lemma still_modal [moving]: "leads unmoved (modal_for S t f us)"
  unfolding modal_for_def by (intro moving)

lemma still_tickets [moving]: "leads unmoved (handle_index S)" "leads unmoved (handle_tickets S r)"
  "leads unmoved (render_feature S r name f)" "leads unmoved (handle_feature_launch S r f)"
  "leads unmoved (handle_launch_picker S r)" "leads unmoved (handle_rail S r)" "leads unmoved (handle_graph S r)"
  "leads unmoved (render_board S r)" "leads unmoved handle_events" "leads unmoved (handle_candidates S r)"
  "leads unmoved (handle_candidates_json S r)"
  unfolding handle_index_def handle_tickets_def render_feature_def handle_feature_launch_def handle_launch_picker_def
    handle_rail_def handle_graph_def render_board_def handle_events_def handle_candidates_def handle_candidates_json_def
    Let_def case_prod_unfold
  by (intro moving keeping)+

lemma still_pushable [moving]: "leads unmoved (pushable_repos S t)"
proof -
  have "leads unmoved (fetch_pushable S t)"
    unfolding fetch_pushable_def
    by (intro moving) (auto simp: leads_def unmoved_def tables_def)
  then show ?thesis by (auto simp: leads_def pushable_repos_def unmoved_def split: option.splits)
qed

lemma still_search [moving]: "leads unmoved (search_repos S q)"
  unfolding search_repos_def Let_def case_prod_unfold by (intro moving)

lemma still_features [moving]: "leads unmoved (import_features S rs settings acc)"
  by (induction rs arbitrary: acc) (simp_all only: import_features.simps Let_def, (intro moving; assumption?)+)

lemma still_repos [moving]: "leads unmoved (handle_repos S r)" "leads unmoved (handle_repo S owner name)"
  "leads unmoved (handle_banner S r)" "leads unmoved (handle_repo_search S r)"
  unfolding handle_repos_def handle_repo_def handle_banner_def handle_repo_search_def Let_def case_prod_unfold
  by (intro moving keeping)+

lemma still_session [moving]: "leads unmoved (session_at S ref raw)" and still_sessions [moving]:
  "leads unmoved (handle_session S r owner name n)" "leads unmoved (handle_session_actions S r owner name n)"
  "leads unmoved (after_session_verb S r url v)"
  unfolding handle_session_def handle_session_actions_def after_session_verb_def session_at_def by (intro moving)+

lemma still_after [moving]: "leads unmoved (redirect_or_swap S r)" "leads unmoved (after_verb S r url v)"
  unfolding after_verb_def redirect_or_swap_def by (intro moving)+

text \<open>Requests that read leave every table as it was.\<close>

theorem reading_requests_change_nothing:
  assumes "reads_only rt"
  shows "tables (snd (respond S rt r s)) = tables s"
proof -
  have "leads unmoved (serve S rt r)"
    using assms by (cases rt; simp only: serve.simps reads_only_def route.simps; intro moving)
  then show ?thesis by (auto simp: leads_def unmoved_def respond_def split: prod.splits sum.splits) (metis snd_conv)+
qed

subsection \<open>Handlers that write\<close>

lemma stores_queues [storing]:
  "stores (queue_verb_intent u v p t)" "stores (queue_launch_intent u l t)" "stores (queue_edit_ticket_intent u b bs t)"
  by (rule storesI [of _ "Queue_verb u v p t"], simp, rule storesI [of _ "Queue_launch u l t"], simp,
    rule storesI [of _ "Queue_edit u b bs t"], simp)

lemma stores_track [storing]: "stores (queue_track_intent json repo t)"
  by (rule storesI [of _ "Queue_track json repo t"]) simp

lemma stores_projects [storing]:
  "stores (create_project p)" "stores (set_repo_project repo name)" "stores (edit_project old new hue)" "stores (delete_project name)"
  by (rule storesI [of _ "New_project p"], simp, rule storesI [of _ "Assign_project repo name"], simp,
    rule storesI [of _ "Change_project old new hue"], simp, rule storesI [of _ "Drop_project name"], simp)

interpretation connections: steps "\<lambda>c c'. evolves (cn_db c) (cn_db c')"
  by unfold_locales (auto intro: evolves.same evolves_trans)

lemma stores_launches_queued [storing]: "stores (queue_launches us hashes g x choice w t)"
proof -
  have each: "leads (\<lambda>c c'. evolves (cn_db c) (cn_db c')) q \<longleftrightarrow> stores q" for q :: "'a query"
    by (simp add: leads_def stores_def)
  show ?thesis
    unfolding queue_launches_def each [symmetric] by (rule connections.eaches) (simp add: each storing)
qed

lemma serves_now [moving]: "leads served (now_at S)"
  by (intro still_serves moving)

lemma serves_timed [moving]: "(\<And>t. leads served (f t)) \<Longrightarrow> leads served (timed S f)"
  unfolding timed_def by (intro moving)

lemma serves_nudge [moving]: "leads served nudge"
  by (intro still_serves moving)

lemma serves_reading [moving]:
  "leads served (handle_rail S r)" "leads served (redirect_or_swap S r)" "leads served (after_verb S r url v)"
  "leads served (modal_for S t f us)"
  by (intro still_serves moving)+

lemma serves_import [moving]: "leads served (queue_import S f)"
  unfolding queue_import_def by (intro moving storing)

end
