(* ===== verification/Web_Samples.thy ===== *)
theory Web_Samples imports Web_Routes Loop_Samples begin

text \<open>
  A small server at which the properties of the requests are applied. Its store holds one ticket whose agent run failed; no
  file exists, and the JSON encoders answer with nothing.
\<close>

definition sample_pages :: "unit pages" where
  "sample_pages = \<lparr>pe_json = (\<lambda>_. []), pe_hash = id, pe_workflows = [(''v0'', sample_flow)], pe_arith = Loop_Samples.sample_arithmetic,
     pe_log = sample_log_json, pe_files = sample_files, pe_fixed2 = (\<lambda>_. []), pe_data_dir = ''/d'',
     pe_spend_limit = 80, pe_poll_seconds = 1\<rparr>"

definition sample_server :: "unit server" where
  "sample_server = \<lparr>sv_pages = sample_pages, sv_now = (\<lambda>w. (7, w)), sv_metrics = (\<lambda>_. no_metrics), sv_follow_up = (\<lambda>_. None),
     sv_encode = (\<lambda>_. []), sv_agent_command = default_agent_command, sv_pushable = ret [], sv_features = (\<lambda>_ _. Inr (ret [])),
     sv_group = ret ''g'', sv_page_url = (\<lambda>_. None)\<rparr>"

definition failed_db :: db where
  "failed_db = sample_db\<lparr>db_runs := map (\<lambda>r. r\<lparr>ru_outcome := Some ''failed''\<rparr>) (db_runs sample_db), db_intents := []\<rparr>"

definition sample_web :: "unit web" where
  "sample_web = \<lparr>wb_visit = \<lparr>vs_conn = calm failed_db, vs_world = (), vs_settled = []\<rparr>, wb_pushable = None, wb_nudges = 0\<rparr>"

definition posted :: "(string \<times> string) list \<Rightarrow> request" where
  "posted fs = \<lparr>hr_headers = [], hr_cookies = [], hr_raw_query = [], hr_query = [], hr_form = map (\<lambda>(k, v). (k, [v])) fs,
     hr_post = map (\<lambda>(k, v). (k, [v])) fs, hr_form_error = None\<rparr>"

definition rerun_request :: request where
  "rerun_request = posted [(''verb'', ''re-run''), (''ticket'', ''u'')]"

definition launch_request :: request where
  "launch_request = posted [(''ticket'', ''u'')]"

lemma rerun_queues: "length (db_intents (tables (snd (handle_verb sample_server rerun_request sample_web)))) = 1"
  by code_simp

lemma launch_queues: "length (db_intents (tables (snd (handle_launch sample_server launch_request sample_web)))) = 1"
  by code_simp

lemma nothing_queued: "db_intents (tables sample_web) = []"
  by code_simp

text \<open>Reading leaves the store of the sample.\<close>

theorem reading_requests_change_nothing_witness:
  "tables (snd (respond sample_server Get_board launch_request sample_web)) = failed_db"
proof -
  have "tables (snd (respond sample_server Get_board launch_request sample_web)) = tables sample_web"
    by (rule reading_requests_change_nothing) (simp add: reads_only_def)
  then show ?thesis by (simp add: tables_def page_tables_def sample_web_def calm_def)
qed

end
