(* ===== verification/Web_Safety.thy ===== *)
theory Web_Safety imports Web_Samples begin

text \<open>
  What requests may do. Any number of requests changes the tables only through the operations of the store; a row verb is
  queued only if the ticket offers it in the state the tables have at that moment; and a launch queues intents only for
  tickets whose prompts are those that were previewed, in order and under one group.
\<close>

subsection \<open>Requests are operations of the store\<close>

lemma serves_changes [moving]:
  "leads served (handle_track S r)" "leads served (handle_create_project S r)" "leads served (handle_edit_project r name)"
  "leads served (handle_delete_project r name)" "leads served (handle_set_repo_project r owner name)"
  "leads served (handle_import_feature S r f)" "leads served (handle_launch_open S r)"
  unfolding handle_track_def handle_create_project_def handle_edit_project_def handle_delete_project_def
    handle_set_repo_project_def handle_import_feature_def handle_launch_open_def bad_name_def bad_hue_def
    respond_repo_groups_def Let_def
  by (intro moving storing)+

lemma still_choices [moving]:
  "leads unmoved (checked_workflow S r)" "leads unmoved (verb_payload S r v)" "leads unmoved (offered_verb snap url v)"
  "leads unmoved (branch_is_free tk branch)"
  unfolding checked_workflow_def verb_payload_def offered_verb_def branch_is_free_def Let_def case_prod_unfold
  by (intro moving keeping)+

lemmas serves_choices [moving] = still_choices [THEN still_serves]

lemma serves_launch [moving]: "leads served (handle_launch S r)"
  unfolding handle_launch_def launch_from_def Let_def by (intro moving storing)

lemma serves_verb [moving]: "leads served (handle_verb S r)"
  unfolding handle_verb_def queue_row_verb_def Let_def by (intro moving storing)

lemma serves_ticket [moving]: "leads served (handle_ticket S r)"
  unfolding handle_ticket_def Let_def by (intro moving storing keeping)

lemma serve_serves: "leads served (serve S rt r)"
proof (cases "reads_only rt")
  case True
  have "leads unmoved (serve S rt r)"
    using True by (cases rt; simp only: serve.simps reads_only_def route.simps; intro moving)
  then show ?thesis by (rule still_serves)
next
  case False
  then show ?thesis by (cases rt; simp only: serve.simps reads_only_def route.simps simp_thms; intro moving)
qed

definition serve_all :: "'w server \<Rightarrow> (route \<times> request) list \<Rightarrow> 'w web \<Rightarrow> 'w web" where
  "serve_all S requests s = fold (\<lambda>(rt, r) s. snd (respond S rt r s)) requests s"


subsection \<open>Where a write comes from\<close>

lemma written_after:
  assumes "and_then m f s = (r, s')" and "leads unmoved m" and "tables s' \<noteq> tables s"
  obtains a s1 where "m s = (Inr a, s1)" "tables s1 = tables s" "f a s1 = (r, s')"
  using assms leadsD [OF assms(2)] by (fastforce simp: and_then_def unmoved_def split: prod.splits sum.splits)

lemma written_before:
  assumes "and_then m f s = (r, s')" and "\<And>a. leads unmoved (f a)"
  obtains a s1 where "m s = (a, s1)" "tables s1 = tables s'"
  using assms leadsD [OF assms(2)] by (fastforce simp: and_then_def unmoved_def split: prod.splits sum.splits)

lemma written_timed:
  assumes "timed S f s = (r, s')" and "tables s' \<noteq> tables s"
  obtains t s1 where "tables s1 = tables s" "f t s1 = (r, s')"
proof -
  have still: "leads unmoved (now_at S)" by (intro moving)
  obtain t s1 where "tables s1 = tables s" "f t s1 = (r, s')"
    using written_after [OF assms(1)[unfolded timed_def] still assms(2)] by blast
  then show thesis by (rule that)
qed

lemma snapshot_read:
  assumes "wrapping what (on_view (read_snapshot P t)) s = (Inr snap, s1)"
  shows "\<exists>inp. yields (plan_input (pe_json P) (spend_pct (pe_arith P))) (tables s) inp (tables s)
    \<and> snap = derive_at P (inp\<lparr>di_now := t\<rparr>)"
proof -
  from assms obtain inp c1 where
    plan: "plan_input (pe_json P) (spend_pct (pe_arith P)) (vs_conn (wb_visit s)) = (Inr inp, c1)"
    and snap: "snap = derive_at P (inp\<lparr>di_now := t\<rparr>)"
    by (auto simp: on_view_def read_snapshot_def read_input_def and_then_def wrapping_def View_Pages.on_store_def ret_def
        split: prod.splits sum.splits)
  have "yields (plan_input (pe_json P) (spend_pct (pe_arith P))) (cn_db (vs_conn (wb_visit s))) inp (cn_db c1)"
    using plan by (rule yieldsI)
  moreover have "cn_db c1 = cn_db (vs_conn (wb_visit s))"
    using keepsD [OF keeps_plan_input plan, of "\<lambda>d. d = cn_db (vs_conn (wb_visit s))"] by simp
  ultimately show ?thesis using snap by (auto simp: tables_def page_tables_def)
qed

lemma queued_verb:
  assumes "wrapping what (on_view (on_store (queue_verb_intent url v p t))) s = (r, s')" and "tables s' \<noteq> tables s"
  shows "tables s' = add_intent t url (verb_text v) (if p = [] then No_payload else Text_payload p) (tables s)"
  using assms
  by (auto simp: on_view_def View_Pages.on_store_def wrapping_def queue_verb_intent_def q_queue_verb_intent_def insert_intent_def
      stmt_def Let_def tables_def page_tables_def split: prod.splits sum.splits option.splits if_splits)

text \<open>C17: 
  If a request for a verb changes the tables, the verb is a row verb its ticket offers in the snapshot derived from the tables
  at that moment, and the one change is its intent, with a payload only for a follow-up.
\<close>

theorem queued_verb_is_offered:
  assumes "handle_verb S r s = (res, s')" and "tables s' \<noteq> tables s"
  shows "\<exists>v p inp t t'. parse_verb (form_value r ''verb'') = Inr v \<and> is_row_verb v \<and> (v \<noteq> VerbFollowUp \<longrightarrow> p = [])
    \<and> yields (plan_input (pe_json (sv_pages S)) (spend_pct (pe_arith (sv_pages S)))) (tables s) inp (tables s)
    \<and> offers (derive_at (sv_pages S) (inp\<lparr>di_now := t\<rparr>)) (form_value r ''ticket'') v
    \<and> tables s' = add_intent t' (form_value r ''ticket'') (verb_text v)
         (if p = [] then No_payload else Text_payload p) (tables s)"
proof -
  let ?url = "form_value r ''ticket''"
  have rejecting: "leads unmoved (reject n m)" for n m by (intro moving)
  from assms obtain v where v: "parse_verb (form_value r ''verb'') = Inr v" "is_row_verb v"
    and run: "and_then (verb_payload S r v) (\<lambda>p. and_then (queue_row_verb S r ?url v p) (\<lambda>_. after_verb S r ?url v)) s = (res, s')"
    using leadsD [OF rejecting] by (fastforce simp: handle_verb_def Let_def unmoved_def split: if_splits sum.splits)
  from run assms(2) obtain p s1 where p: "verb_payload S r v s = (Inr p, s1)" and s1: "tables s1 = tables s"
    and next_step: "and_then (queue_row_verb S r ?url v p) (\<lambda>_. after_verb S r ?url v) s1 = (res, s')"
    using written_after [OF run still_choices(2) assms(2)] by blast
  have answers: "leads unmoved (after_verb S r ?url v)" for a :: unit by (intro moving)
  from next_step obtain a s2 where q: "queue_row_verb S r ?url v p s1 = (a, s2)" and s2: "tables s2 = tables s'"
    using written_before [OF next_step answers] by blast
  have moved: "tables s2 \<noteq> tables s1" using assms(2) s1 s2 by simp
  from q moved obtain t s3 where s3: "tables s3 = tables s1"
    and look: "and_then (wrapping ''load snapshot'' (on_view (read_snapshot (sv_pages S) t)))
      (\<lambda>snap. and_then (offered_verb snap ?url v) (\<lambda>_. timed S (\<lambda>t.
        wrapping ''queue verb intent'' (on_view (on_store (queue_verb_intent ?url v p t)))))) s3 = (a, s2)"
    using written_timed [OF q [unfolded queue_row_verb_def] moved] by blast
  have moved3: "tables s2 \<noteq> tables s3" using moved s3 by simp
  have reads: "leads unmoved (wrapping ''load snapshot'' (on_view (read_snapshot (sv_pages S) t)))" by (intro moving)
  from look obtain snap s4 where snap: "wrapping ''load snapshot'' (on_view (read_snapshot (sv_pages S) t)) s3 = (Inr snap, s4)"
    and s4: "tables s4 = tables s3"
    and rest: "and_then (offered_verb snap ?url v) (\<lambda>_. timed S (\<lambda>t.
        wrapping ''queue verb intent'' (on_view (on_store (queue_verb_intent ?url v p t))))) s4 = (a, s2)"
    using written_after [OF look reads moved3] by blast
  have moved4: "tables s2 \<noteq> tables s4" using moved s3 s4 by simp
  from rest obtain u s5 where offered: "offered_verb snap ?url v s4 = (Inr u, s5)" and s5: "tables s5 = tables s4"
    and queue: "timed S (\<lambda>t. wrapping ''queue verb intent'' (on_view (on_store (queue_verb_intent ?url v p t)))) s5 = (a, s2)"
    using written_after [OF rest still_choices(3) moved4] by blast
  have moved5: "tables s2 \<noteq> tables s5" using moved4 s5 by simp
  from queue obtain t' s6 where s6: "tables s6 = tables s5"
    and queued: "wrapping ''queue verb intent'' (on_view (on_store (queue_verb_intent ?url v p t'))) s6 = (a, s2)"
    using written_timed [OF queue moved5] by blast
  have moved6: "tables s2 \<noteq> tables s6" using moved5 s6 by simp
  have "tables s2 = add_intent t' ?url (verb_text v) (if p = [] then No_payload else Text_payload p) (tables s6)"
    using queued moved6 by (rule queued_verb)
  moreover from snapshot_read [OF snap] obtain inp where
    "yields (plan_input (pe_json (sv_pages S)) (spend_pct (pe_arith (sv_pages S)))) (tables s3) inp (tables s3)"
    "snap = derive_at (sv_pages S) (inp\<lparr>di_now := t\<rparr>)" by blast
  moreover have "offers snap ?url v"
    using offered by (auto simp: offered_verb_def reject_def fail_with_def split: option.splits if_splits)
  moreover have "v \<noteq> VerbFollowUp \<longrightarrow> p = []" using p by (auto simp: verb_payload_def ret_def)
  ultimately show ?thesis using v s1 s2 s3 s4 s5 s6 by metis
qed

theorem queued_verb_is_offered_witness:
  "\<exists>v inp t. parse_verb ''re-run'' = Inr v \<and> is_row_verb v \<and> offers (derive_at sample_pages (inp\<lparr>di_now := t\<rparr>)) ''u'' v"
proof -
  have form: "form_value rerun_request ''verb'' = ''re-run'' \<and> form_value rerun_request ''ticket'' = ''u''" by code_simp
  have pages: "sv_pages sample_server = sample_pages" by (simp add: sample_server_def)
  have "tables (snd (handle_verb sample_server rerun_request sample_web)) \<noteq> tables sample_web"
    using rerun_queues nothing_queued by auto
  from queued_verb_is_offered [OF surjective_pairing this] show ?thesis by (auto simp: form pages)
qed

subsection \<open>Launches queue what was previewed\<close>

lemma queued_intents:
  "each_io (\<lambda>u. queue_launch_intent u (p u) t) us c = (r, c') \<Longrightarrow>
     \<exists>n \<le> length us. (\<forall>a. r = Inr a \<longrightarrow> n = length us)
       \<and> cn_db c' = fold (\<lambda>u. add_intent t u ''launch'' (Launch_payload (p u))) (take n us) (cn_db c)"
proof (induction us arbitrary: c)
  case Nil
  then show ?case by simp
next
  case (Cons u us)
  have verb: "''launch'' \<in> set intent_verbs" by code_simp
  obtain a c1 where first: "queue_launch_intent u (p u) t c = (a, c1)" by (meson surj_pair)
  show ?case
  proof (cases a)
    case (Inl e)
    with first have "cn_db c1 = cn_db c"
      by (auto simp: queue_launch_intent_def q_queue_launch_intent_def insert_intent_def wrapping_def stmt_def verb Let_def
          split: prod.splits sum.splits option.splits)
    with Inl first Cons.prems show ?thesis by (auto intro!: exI [of _ 0] simp: and_then_def)
  next
    case (Inr b)
    with first have added: "cn_db c1 = add_intent t u ''launch'' (Launch_payload (p u)) (cn_db c)"
      by (auto simp: queue_launch_intent_def q_queue_launch_intent_def insert_intent_def wrapping_def stmt_def verb Let_def
          split: prod.splits sum.splits option.splits)
    have "each_io (\<lambda>u. queue_launch_intent u (p u) t) us c1 = (r, c')"
      using Cons.prems first Inr by (simp add: and_then_def)
    from Cons.IH [OF this] obtain n where n: "n \<le> length us" "\<forall>a. r = Inr a \<longrightarrow> n = length us"
      "cn_db c' = fold (\<lambda>u. add_intent t u ''launch'' (Launch_payload (p u))) (take n us) (cn_db c1)" by blast
    then show ?thesis by (intro exI [of _ "Suc n"]) (simp add: added)
  qed
qed

lemma selected_rows:
  assumes "well_indexed (sn_entries s) (sn_by_url s)"
  shows "selected_entries s us = Inr es \<Longrightarrow> map (\<lambda>e. t_url (e_ticket e)) es = us \<and> (\<forall>e \<in> set es. entry_of s (t_url (e_ticket e)) = Some e)"
proof (induction us arbitrary: es)
  case (Cons u us)
  have "t_url (e_ticket e) = u" if "entry_of s u = Some e" for u e using well_indexed_lookup(1) [OF assms that] by simp
  with Cons show ?case by (auto split: option.splits sum.splits)
qed simp

lemma hash_of_row:
  assumes "\<And>x y. x \<in> set rows \<Longrightarrow> y \<in> set rows \<Longrightarrow> k x = k y \<Longrightarrow> h x = h y" and "row \<in> set rows"
  shows "get_or [] (fold (\<lambda>row m. put (k row) (h row) m) rows m) (k row) = h row"
  using assms
proof (induction rows rule: rev_induct)
  case Nil
  then show ?case by simp
next
  case (snoc x rows)
  show ?case
  proof (cases "k row = k x")
    case True
    with snoc.prems(1) [of x row] snoc.prems(2) show ?thesis by simp
  next
    case False
    then have "row \<in> set rows" using snoc.prems(2) by auto
    with False snoc show ?thesis by simp
  qed
qed

lemma previewed_rows:
  assumes "well_indexed (sn_entries s) (sn_by_url s)" and "snapshot_preview hash s us x = Inr rows"
  shows "us = map (\<lambda>row. t_url (pv_ticket row)) rows"
    and "row \<in> set rows \<Longrightarrow>
      get_or [] (fold (\<lambda>row m. put (t_url (pv_ticket row)) (pv_prompt_hash row) m) rows []) (t_url (pv_ticket row))
        = pv_prompt_hash row"
proof -
  define f where "f e = \<lparr>pv_ticket = e_ticket e,
      pv_label = fst (Preview (e_unlock e) (map (\<lambda>u. (u, True)) us) (e_launch_id e) (e_conflicted_base e)),
      pv_reason = snd (Preview (e_unlock e) (map (\<lambda>u. (u, True)) us) (e_launch_id e) (e_conflicted_base e)),
      pv_base = e_base e, pv_base_run = base_run s (e_base e),
      pv_prompt = Compose ((e_ticket e)\<lparr>t_launch_context := x\<rparr>),
      pv_prompt_hash = hash (Compose ((e_ticket e)\<lparr>t_launch_context := x\<rparr>))\<rparr>" for e :: entry
  obtain es where es: "selected_entries s us = Inr es" and rows: "rows = map f es"
    using assms(2) by (auto simp: snapshot_preview_def Let_def case_prod_unfold f_def [abs_def] split: sum.splits)
  have f: "pv_ticket (f e) = e_ticket e" for e by (simp add: f_def)
  note sel = selected_rows [OF assms(1) es]
  show "us = map (\<lambda>row. t_url (pv_ticket row)) rows" using sel by (simp add: rows f comp_def)
  show "get_or [] (fold (\<lambda>row m. put (t_url (pv_ticket row)) (pv_prompt_hash row) m) rows []) (t_url (pv_ticket row))
        = pv_prompt_hash row" if "row \<in> set rows"
  proof (rule hash_of_row [OF _ that])
    fix a b assume "a \<in> set rows" "b \<in> set rows" and same: "t_url (pv_ticket a) = t_url (pv_ticket b)"
    then obtain d e where "d \<in> set es" "e \<in> set es" "a = f d" "b = f e" by (auto simp: rows)
    with same sel have "Some d = Some e" by (metis f)
    with \<open>a = f d\<close> \<open>b = f e\<close> show "pv_prompt_hash a = pv_prompt_hash b" by simp
  qed
qed

lemma queued_rows:
  assumes "well_indexed (sn_entries s) (sn_by_url s)" and "snapshot_preview hash s us x = Inr rows"
    and "queue_launches us (fold (\<lambda>row m. put (t_url (pv_ticket row)) (pv_prompt_hash row) m) rows []) g x choice flow t c
      = (r, c')"
  shows "\<exists>n \<le> length rows. (\<forall>a. r = Inr a \<longrightarrow> n = length rows)
    \<and> cn_db c' = fold (\<lambda>row. add_intent t (t_url (pv_ticket row)) ''launch'' (Launch_payload
         \<lparr>la_prompt_hash = pv_prompt_hash row, la_group = g, la_context = x, la_choice = choice, la_workflow = flow\<rparr>))
       (take n rows) (cn_db c)"
proof -
  note us = previewed_rows(1) [OF assms(1,2)]
  from queued_intents [OF assms(3) [unfolded queue_launches_def]] obtain n where n: "n \<le> length rows"
    "\<forall>a. r = Inr a \<longrightarrow> n = length rows"
    "cn_db c' = fold (\<lambda>u. add_intent t u ''launch'' (Launch_payload
       \<lparr>la_prompt_hash = get_or [] (fold (\<lambda>row m. put (t_url (pv_ticket row)) (pv_prompt_hash row) m) rows []) u,
        la_group = g, la_context = x, la_choice = choice, la_workflow = flow\<rparr>))
       (map (\<lambda>row. t_url (pv_ticket row)) (take n rows)) (cn_db c)"
    by (auto simp: us take_map)
  have "row \<in> set (take n rows) \<Longrightarrow> row \<in> set rows" for row by (rule in_set_takeD)
  then show ?thesis using n previewed_rows(2) [OF assms(1,2)]
    by (intro exI [of _ n]) (auto simp: fold_map comp_def intro!: fold_cong)
qed

lemma launched:
  assumes "launch_from S r previewed snap s = (res, s')" and "tables s' \<noteq> tables s"
    and indexed: "well_indexed (sn_entries snap) (sn_by_url snap)"
  shows "\<exists>t base rows g choice flow n. snapshot_preview (pe_hash (sv_pages S)) snap (form_values r ''ticket'') [] = Inr base
    \<and> list_all (\<lambda>row. \<not> stale_row previewed row) base
    \<and> snapshot_preview (pe_hash (sv_pages S)) snap (form_values r ''ticket'') (trim_space (form_value r ''context'')) = Inr rows
    \<and> n \<le> length rows \<and> ((\<exists>a. res = Inr a) \<longrightarrow> n = length rows)
    \<and> tables s' = fold (\<lambda>row. add_intent t (t_url (pv_ticket row)) ''launch'' (Launch_payload
         \<lparr>la_prompt_hash = pv_prompt_hash row, la_group = g, la_context = trim_space (form_value r ''context''),
          la_choice = choice, la_workflow = flow\<rparr>)) (take n rows) (tables s)"
proof -
  let ?us = "form_values r ''ticket''" and ?hash = "pe_hash (sv_pages S)" and ?x = "trim_space (form_value r ''context'')"
  let ?sent = "\<lambda>choice flow rows g t. and_then (wrapping ''queue launch intent'' (on_view (on_store (queue_launches ?us
            (fold (\<lambda>row m. put (t_url (pv_ticket row)) (pv_prompt_hash row) m) rows []) g ?x choice flow t)))) (\<lambda>_.
          ret (See_other ''/''))"
  let ?named = "\<lambda>choice flow rows. and_then (wrapping ''pick launch group'' (on_view (on_files (sv_group S))))
      (\<lambda>g. timed S (?sent choice flow rows g))"
  let ?second = "\<lambda>choice flow. and_then (preview_or_reject ?hash snap ?us ?x) (?named choice flow)"
  let ?first = "\<lambda>choice flow. and_then (preview_or_reject ?hash snap ?us []) (\<lambda>base. case find (stale_row previewed) base of
        Some row \<Rightarrow> reject conflict (stale_message previewed row) | None \<Rightarrow> ?second choice flow)"
  have preview: "\<exists>rows. snapshot_preview ?hash snap ?us x = Inr rows \<and> f rows s = (res, s')"
    if "and_then (preview_or_reject ?hash snap ?us x) f s = (res, s')" "tables s' \<noteq> tables s"
    for x s and f :: "preview_row list \<Rightarrow> ('a web, response) io"
    using that by (auto simp: preview_or_reject_def and_then_def fail_with_def ret_def split: sum.splits)
  have choices: "leads unmoved (with_http_status bad_request (lift_sum (parse_agent_choice model effort)))" for model effort
    by (intro moving)
  have names: "leads unmoved (wrapping ''pick launch group'' (on_view (on_files (sv_group S))))" by (intro moving)
  note run = assms(1) [unfolded launch_from_def Let_def]
  obtain choice s1 where s1: "tables s1 = tables s" and r1: "and_then (checked_workflow S r) (?first choice) s1 = (res, s')"
    using written_after [OF run choices assms(2)] by blast
  have m1: "tables s' \<noteq> tables s1" using assms(2) s1 by simp
  obtain flow s2 where s2: "tables s2 = tables s1" and r2: "?first choice flow s2 = (res, s')"
    using written_after [OF r1 still_choices(1) m1] by blast
  have m2: "tables s' \<noteq> tables s2" using m1 s2 by simp
  obtain base where base: "snapshot_preview ?hash snap ?us [] = Inr base" and fresh: "find (stale_row previewed) base = None"
    and r3: "?second choice flow s2 = (res, s')"
    using preview [OF r2 m2] m2 by (auto simp: reject_def fail_with_def split: option.splits)
  obtain rows where rows: "snapshot_preview ?hash snap ?us ?x = Inr rows"
    and r4: "?named choice flow rows s2 = (res, s')"
    using preview [OF r3 m2] by blast
  obtain g s3 where s3: "tables s3 = tables s2" and r5: "timed S (?sent choice flow rows g) s3 = (res, s')"
    using written_after [OF r4 names m2] by blast
  have m3: "tables s' \<noteq> tables s3" using m2 s3 by simp
  obtain t s4 where s4: "tables s4 = tables s3"
    and r6: "?sent choice flow rows g t s4 = (res, s')"
    using written_timed [OF r5 m3] by blast
  obtain a c where queue: "queue_launches ?us (fold (\<lambda>row m. put (t_url (pv_ticket row)) (pv_prompt_hash row) m) rows [])
      g ?x choice flow t (vs_conn (wb_visit s4)) = (a, c)" by (meson surj_pair)
  have ended: "cn_db c = tables s' \<and> ((\<exists>x. res = Inr x) \<longrightarrow> a = Inr ())" using r6 queue
    by (auto simp: and_then_def wrapping_def on_view_def View_Pages.on_store_def ret_def tables_def page_tables_def
        split: sum.splits prod.splits)
  have here: "cn_db (vs_conn (wb_visit s4)) = tables s" using s1 s2 s3 s4 by (simp add: tables_def page_tables_def)
  have kept: "list_all (\<lambda>row. \<not> stale_row previewed row) base" using fresh by (auto simp: find_None_iff list_all_iff)
  from queued_rows [OF indexed rows queue] obtain n where "n \<le> length rows" "\<forall>b. a = Inr b \<longrightarrow> n = length rows"
    "tables s' = fold (\<lambda>row. add_intent t (t_url (pv_ticket row)) ''launch'' (Launch_payload
         \<lparr>la_prompt_hash = pv_prompt_hash row, la_group = g, la_context = ?x, la_choice = choice, la_workflow = flow\<rparr>))
       (take n rows) (tables s)"
    using ended here by auto
  with base kept rows ended show ?thesis by blast
qed



end
