(* ===== verification/Web_Stream.thy ===== *)
theory Web_Stream imports Web_Routes begin

text \<open>
  The log stream of \<open>internal/web/logstream.go\<close>: the lines of the log of a ticket's latest run and the records of the
  ticket are sent as server-sent events while the run goes on. Following a growing log sends what reading it once sends, and
  a browser reads back the events that were written, if no data has a carriage return.
\<close>

subsection \<open>Lines of a log\<close>

record follow =
  fw_ticket :: string
  fw_path :: string
  fw_ended :: bool
  fw_offset :: int
  fw_after :: int
  fw_mode :: log_filter

definition carriage_return :: char where "carriage_return = CHR 0x0D"

text \<open>The line of an event; the answer of a command takes the place of the line that showed its call.\<close>

definition streamed_line :: "log_filter \<Rightarrow> log_event \<Rightarrow> page_line" where
  "streamed_line mode e =
     (line_of e)\<lparr>li_replace := (lv_kind e = Cmd \<or> lv_kind e = Commit) \<and> lv_done e \<and> lv_call_id e \<noteq> [] \<and> mode \<noteq> LogFails\<rparr>"

text \<open>The complete lines of a text that begins at an offset: what is sent after each, with the offset behind it.\<close>

function stream_lines :: "log_json \<Rightarrow> log_filter \<Rightarrow> string \<Rightarrow> int \<Rightarrow> tail \<Rightarrow> (int \<times> page_line) list \<times> int \<times> tail" where
  "stream_lines J mode text off t =
     (case str_cut [newline] text of
        None \<Rightarrow> ([], off, t)
      | Some (line, rest) \<Rightarrow>
          (let off = off + int (length line) + 1;
               (es, t) = tail_read J (trim_right_bytes [carriage_return, newline] line) t;
               (later, next_off, t) = stream_lines J mode rest off t
           in (map (\<lambda>e. (off, streamed_line mode e)) (filter (event_shown mode) es) @ later, next_off, t)))"
  by pat_completeness auto

termination
  by (relation "measure (\<lambda>(J, mode, text, off, t). length text)") (auto dest: cut_Some_append)

declare stream_lines.simps [simp del]

subsection \<open>Server-sent events\<close>

definition event_frame :: "int \<Rightarrow> string \<Rightarrow> string" where
  "event_frame n data =
     ''id: '' @ itoa n @ newline # concat (map (\<lambda>l. ''data: '' @ l @ [newline]) (split_char newline data)) @ [newline]"

text \<open>
  The client of a stream: writing to it, flushing, and waiting for the poll interval, which fails when the client has gone.
  \<open>ct_render\<close> executes the template of a line.
\<close>

record 'w client =
  ct_render :: "page_line \<Rightarrow> io_error + string"
  ct_write :: "string \<Rightarrow> ('w, unit) io"
  ct_flush :: "('w, unit) io"
  ct_wait :: "('w, unit) io"

definition client_gone :: string where "client_gone = ''client went away''"
definition canceled :: string where "canceled = ''context canceled''"
definition not_supported :: string where "not_supported = ''feature not supported''"

definition or_gone :: "('w, 'a) io \<Rightarrow> ('w, 'a) io" where
  "or_gone m w = (case m w of (Inl e, w) \<Rightarrow> (Inl (Joined (Sentinel client_gone) e), w) | r \<Rightarrow> r)"

definition write_event :: "'w client \<Rightarrow> int \<Rightarrow> string \<Rightarrow> ('w, unit) io" where
  "write_event C n data = or_gone (ct_write C (event_frame n data))"

definition flush_stream :: "'w client \<Rightarrow> ('w, unit) io" where
  "flush_stream C w =
     (case ct_flush C w of
        (Inl e, w) \<Rightarrow>
          (Inl (if is_sentinel not_supported e then Wrapped ''flush stream'' e else Joined (Sentinel client_gone) e), w)
      | r \<Rightarrow> r)"

definition write_end :: "'w client \<Rightarrow> ('w, unit) io" where
  "write_end C =
     and_then (or_gone (ct_write C (''event: end'' @ newline # ''data:'' @ [newline, newline]))) (\<lambda>_. flush_stream C)"

definition render_log_line :: "'w client \<Rightarrow> page_line \<Rightarrow> ('w, string) io" where
  "render_log_line C l = wrapping ''render log line'' (lift_sum (ct_render C l))"

subsection \<open>One round\<close>

definition send_line :: "'w client \<Rightarrow> int \<times> page_line \<Rightarrow> ('w, unit) io" where
  "send_line C item =
     and_then (wrapping ''render log line'' (render_log_line C (snd item))) (\<lambda>html.
     wrapping ''write event'' (write_event C (fst item) html))"

definition send_lines :: "log_json \<Rightarrow> 'w files \<Rightarrow> 'w client \<Rightarrow> tail \<Rightarrow> follow \<Rightarrow> ('w, nat \<times> tail \<times> follow) io" where
  "send_lines J F C t f w =
     (let path = fw_path f in
      case fi_open F path w of
        (Inl e, w) \<Rightarrow> if is_not_exist e then (Inr (0, t, f), w) else (Inl (Wrapped (''open log '' @ path) e), w)
      | (Inr _, w) \<Rightarrow>
          and_close F path (''close log '' @ path)
            (and_then (wrapping (''read log '' @ path) (fi_read_all F path)) (\<lambda>content.
             let (items, off, t) = stream_lines J (fw_mode f) (drop (nat (fw_offset f)) content) (fw_offset f) t in
             and_then (each_io (send_line C) items) (\<lambda>_. ret (length items, t, f\<lparr>fw_offset := off\<rparr>)))) w)"

definition record_wanted :: "log_filter \<Rightarrow> event \<Rightarrow> bool" where
  "record_wanted mode e \<longleftrightarrow> record_shown e \<and> event_shown mode (record_of e)"

definition send_record :: "'w client \<Rightarrow> follow \<Rightarrow> event \<Rightarrow> ('w, unit) io" where
  "send_record C f e =
     and_then (wrapping (''render record '' @ itoa (en_id e)) (render_log_line C (line_of (record_of e)))) (\<lambda>html.
     wrapping ''write event'' (write_event C (fw_offset f) html))"

definition send_records :: "'w client \<Rightarrow> follow \<Rightarrow> ('w web, nat \<times> follow) io" where
  "send_records C f = wrapping (''read ticket events for '' @ fw_ticket f)
     (and_then (on_view (View_Pages.on_store (each_ticket_event (fw_ticket f) (fw_after f)))) (\<lambda>es.
      let wanted = filter (record_wanted (fw_mode f)) es in
      and_then (on_view (on_files (each_io (send_record C f) wanted))) (\<lambda>_.
      ret (length wanted, f\<lparr>fw_after := fold (\<lambda>e _. en_id e) es (fw_after f)\<rparr>))))"

definition stream_log :: "string \<Rightarrow> ('w web, string \<times> bool) io" where
  "stream_log ticket s =
     (case on_view (View_Pages.on_store (latest_run_log ticket)) s of
        (Inl e, s) \<Rightarrow>
          if is_not_found e then (Inr ([], True), s)
          else (Inl (Wrapped (''read latest run log for '' @ ticket) e), s)
      | r \<Rightarrow> r)"

text \<open>A round of \<open>followLog\<close>: what to go on with, or nothing when the stream has ended.\<close>

definition follow_round :: "'w server \<Rightarrow> 'w client \<Rightarrow> tail \<Rightarrow> follow \<Rightarrow> ('w web, (tail \<times> follow) option) io" where
  "follow_round S C t f =
     and_then (wrapping ''send lines''
         (on_view (on_files (send_lines (pe_log (sv_pages S)) (pe_files (sv_pages S)) C t f)))) (\<lambda>(sent, t, f).
     and_then (wrapping ''send records'' (send_records C f)) (\<lambda>(records, f).
     and_then (wrapping ''flush stream'' (on_view (on_files (flush_stream C)))) (\<lambda>_.
     if fw_ended f \<and> sent + records = 0 then and_then (on_view (on_files (write_end C))) (\<lambda>_. ret None)
     else
       and_then (wrapping ''follow run log'' (on_view (on_files (ct_wait C)))) (\<lambda>_.
       and_then (wrapping ''load latest run log'' (stream_log (fw_ticket f))) (\<lambda>(path, ended).
       ret (Some (t, f\<lparr>fw_path := path, fw_ended := ended\<rparr>)))))))"

text \<open>\<open>followLog\<close> has no value if the client stays and the run never ends.\<close>

partial_function (option) follow_log ::
  "'w server \<Rightarrow> 'w client \<Rightarrow> tail \<Rightarrow> follow \<Rightarrow> 'w web \<Rightarrow> ((io_error + unit) \<times> 'w web) option" where
  "follow_log S C t f s =
     (case follow_round S C t f s of
        (Inl e, s) \<Rightarrow> Some (Inl e, s)
      | (Inr None, s) \<Rightarrow> Some (Inr (), s)
      | (Inr (Some (t, f)), s) \<Rightarrow> follow_log S C t f s)"

definition query_offset :: "request \<Rightarrow> string \<Rightarrow> ('w web, int) io" where
  "query_offset r key =
     (let raw = query_value r key in
      if raw = [] then ret 0
      else case atoi raw of
        None \<Rightarrow> reject bad_request (key @ '' '' @ quoted raw @ '' is not a non-negative integer'')
      | Some n \<Rightarrow> if n < 0 then reject bad_request (key @ '' '' @ quoted raw @ '' is not a non-negative integer'') else ret n)"

definition resumed_offset :: "request \<Rightarrow> int \<Rightarrow> int" where
  "resumed_offset r off = (case atoi (header r ''Last-Event-ID'') of Some n \<Rightarrow> if n \<ge> 0 then n else off | None \<Rightarrow> off)"

definition first_follow :: "request \<Rightarrow> string \<Rightarrow> ('w web, follow) io" where
  "first_follow r ticket =
     and_then (wrapping ''load query offset'' (query_offset r ''from'')) (\<lambda>off.
     and_then (wrapping ''load query offset'' (query_offset r ''records'')) (\<lambda>after_record.
     and_then (wrapping ''load latest run log'' (stream_log ticket)) (\<lambda>(path, ended).
     ret \<lparr>fw_ticket = ticket, fw_path = path, fw_ended = ended, fw_offset = resumed_offset r off, fw_after = after_record,
          fw_mode = parse_log_filter (query_value r ''log'')\<rparr>)))"

text \<open>How the stream ends for the client, if it does: a client that has gone is told nothing.\<close>

definition close_stream :: "'w client \<Rightarrow> io_error + unit \<Rightarrow> ('w web, unit) io" where
  "close_stream C res =
     (case res of
        Inr _ \<Rightarrow> ret ()
      | Inl e \<Rightarrow>
          if is_sentinel client_gone e \<or> is_sentinel canceled e then ret ()
          else (\<lambda>s.
            case on_view (on_files (and_then
                (ct_write C (''event: error'' @ newline # ''data: the log could not be read'' @ [newline, newline]))
                (\<lambda>_. write_end C))) s of
              (Inl e, s) \<Rightarrow> (if is_sentinel client_gone e then Inr () else Inl e, s)
            | r \<Rightarrow> r))"

definition handle_log :: "'w server \<Rightarrow> 'w client \<Rightarrow> request \<Rightarrow> string \<Rightarrow> 'w web \<Rightarrow> ((io_error + unit) \<times> 'w web) option" where
  "handle_log S C r ticket s =
     (case first_follow r ticket s of
        (Inl e, s) \<Rightarrow> Some (Inl e, s)
      | (Inr f, s) \<Rightarrow> map_option (\<lambda>(res, s). close_stream C res s) (follow_log S C no_tail f s))"

subsection \<open>Following a log that grows\<close>

lemma cut_char_Some: "str_cut [c] s = Some (a, b) \<Longrightarrow> c \<notin> set a \<and> s = a @ c # b"
  by (induction s arbitrary: a) (auto split: if_splits)

lemma stream_offset: "stream_lines J mode data off t = (items, next_off, t') \<Longrightarrow>
    off \<le> next_off \<and> newline \<notin> set (drop (nat (next_off - off)) data) \<and> nat (next_off - off) \<le> length data"
proof (induction J mode data off t arbitrary: items next_off t' rule: stream_lines.induct)
  case (1 J mode data off t)
  show ?case
  proof (cases "str_cut [newline] data")
    case None
    with "1.prems" show ?thesis by (subst (asm) stream_lines.simps) (simp add: cut_char_None)
  next
    case (Some parts)
    obtain line rest where parts: "parts = (line, rest)" by (cases parts)
    let ?off = "off + int (length line) + 1"
    obtain es t1 where read: "tail_read J (trim_right_bytes [carriage_return, newline] line) t = (es, t1)" by (meson surj_pair)
    obtain extra off1 t2 where rest: "stream_lines J mode rest ?off t1 = (extra, off1, t2)" by (metis surj_pair)
    have next_off: "next_off = off1"
      using "1.prems" Some parts read rest by (subst (asm) stream_lines.simps) (simp add: Let_def)
    have data: "data = line @ newline # rest" using cut_Some_append [OF Some [unfolded parts]] by simp
    from "1.IH" [OF Some [unfolded parts] refl refl read [symmetric] refl rest]
    have le: "?off \<le> off1" and clean: "newline \<notin> set (drop (nat (off1 - ?off)) rest)" and len: "nat (off1 - ?off) \<le> length rest"
      by blast+
    have "nat (off1 - off) = Suc (length line) + nat (off1 - ?off)" using le by simp
    then have "drop (nat (off1 - off)) data = drop (nat (off1 - ?off)) rest" by (simp add: data)
    with le clean len show ?thesis by (auto simp: next_off data)
  qed
qed

lemma stream_append:
  "stream_lines J mode (data @ extra) off t =
     (let (items, off1, t1) = stream_lines J mode data off t;
          (later, next_off, t2) = stream_lines J mode (drop (nat (off1 - off)) (data @ extra)) off1 t1
      in (items @ later, next_off, t2))"
proof (induction J mode data off t rule: stream_lines.induct)
  case (1 J mode data off t)
  show ?case
  proof (cases "str_cut [newline] data")
    case None
    then have "stream_lines J mode data off t = ([], off, t)" by (subst stream_lines.simps) simp
    then show ?thesis by (simp split: prod.split)
  next
    case (Some parts)
    obtain line rest where parts: "parts = (line, rest)" by (cases parts)
    let ?off = "off + int (length line) + 1"
    obtain es t1 where read: "tail_read J (trim_right_bytes [carriage_return, newline] line) t = (es, t1)" by (meson surj_pair)
    obtain items off1 t2 where rest: "stream_lines J mode rest ?off t1 = (items, off1, t2)" by (metis surj_pair)
    have data: "data = line @ newline # rest" using cut_Some_append [OF Some [unfolded parts]] by simp
    have clean: "newline \<notin> set line" using cut_char_Some [OF Some [unfolded parts]] by simp
    have cut: "str_cut [newline] (data @ extra) = Some (line, rest @ extra)" using cut_char_notin [OF clean] by (simp add: data)
    have le: "?off \<le> off1" using stream_offset [OF rest] by blast
    then have "nat (off1 - off) = Suc (length line) + nat (off1 - ?off)" by simp
    then have left: "drop (nat (off1 - off)) (data @ extra) = drop (nat (off1 - ?off)) (rest @ extra)" by (simp add: data)
    from "1.IH" [OF Some [unfolded parts] refl refl read [symmetric] refl] rest
    have IH: "stream_lines J mode (rest @ extra) ?off t1 =
      (let (later, next_off, t2) = stream_lines J mode (drop (nat (off1 - ?off)) (rest @ extra)) off1 t2 in (items @ later, next_off, t2))"
      by simp
    have whole: "stream_lines J mode data off t =
        (map (\<lambda>e. (?off, streamed_line mode e)) (filter (event_shown mode) es) @ items, off1, t2)"
      by (subst stream_lines.simps) (simp add: Some parts read rest Let_def)
    show ?thesis
      by (subst stream_lines.simps) (simp add: cut read IH whole left Let_def del: drop_append split: prod.split)
  qed
qed

text \<open>The rounds of a stream over a log to which a piece is appended between one round and the next.\<close>

fun stream_rounds ::
  "log_json \<Rightarrow> log_filter \<Rightarrow> string \<Rightarrow> string list \<Rightarrow> int \<Rightarrow> tail \<Rightarrow> (int \<times> page_line) list \<times> int \<times> tail" where
  "stream_rounds J mode content [] off t = stream_lines J mode (drop (nat off) content) off t"
| "stream_rounds J mode content (piece # pieces) off t =
     (let (items, off, t) = stream_lines J mode (drop (nat off) content) off t;
          (later, next_off, t) = stream_rounds J mode (content @ piece) pieces off t
      in (items @ later, next_off, t))"

text \<open>C39: 
  Following a log while it grows, however the writer cuts it into pieces, sends what reading the whole of it once sends: no
  line is lost, sent twice or split, and a command finds its answer although another round reads it.
\<close>

theorem stream_follows_growth:
  assumes "0 \<le> off"
  shows "stream_rounds J mode content pieces off t = stream_lines J mode (drop (nat off) (content @ concat pieces)) off t"
  using assms
proof (induction pieces arbitrary: content off t)
  case Nil
  then show ?case by simp
next
  case (Cons piece pieces)
  let ?extra = "piece @ concat pieces"
  obtain items off1 t1 where now: "stream_lines J mode (drop (nat off) content) off t = (items, off1, t1)" by (metis surj_pair)
  have le: "off \<le> off1" using stream_offset [OF now] by blast
  have left: "stream_lines J mode (drop (nat off) (content @ ?extra)) off t =
      (let (later, next_off, t2) = stream_lines J mode (drop (nat off1) (content @ ?extra)) off1 t1
       in (items @ later, next_off, t2))"
  proof (cases "nat off \<le> length content")
    case True
    have "drop (nat off) content @ ?extra = drop (nat off) (content @ ?extra)" using True by simp
    then have "drop (nat (off1 - off)) (drop (nat off) content @ ?extra) = drop (nat (off1 - off) + nat off) (content @ ?extra)"
      by (simp only: drop_drop)
    moreover have "nat (off1 - off) + nat off = nat off1" using le Cons.prems by simp
    ultimately have "drop (nat (off1 - off)) (drop (nat off) content @ ?extra) = drop (nat off1) (content @ ?extra)" by simp
    with True show ?thesis
      using stream_append [of J mode "drop (nat off) content" ?extra off t] by (simp add: now del: append_assoc)
  next
    case False
    then have "stream_lines J mode (drop (nat off) content) off t = ([], off, t)" by (subst stream_lines.simps) simp
    with now show ?thesis by (simp split: prod.split)
  qed
  have "0 \<le> off1" using le Cons.prems by simp
  from Cons.IH [OF this, of "content @ piece" t1] show ?case by (simp add: now left del: drop_append)
qed

definition two_lines :: string where "two_lines = [CHR ''a'', newline, CHR ''b'', newline]"

theorem stream_follows_growth_witness:
  "stream_rounds sample_log_json LogAll [] [take 1 two_lines, drop 1 two_lines] 0 no_tail
     = stream_lines sample_log_json LogAll two_lines 0 no_tail"
  using stream_follows_growth [of 0 sample_log_json LogAll "[]" "[take 1 two_lines, drop 1 two_lines]" no_tail]
  by (simp add: two_lines_def)

text \<open>
  The offset belongs to the log of one run. When a later run starts between two rounds, its log is read from the offset of
  the earlier one, so nothing of its beginning is sent.
\<close>

lemma later_run_is_skipped:
  assumes "fi_open F path w = (Inr (), w)" and "fi_read_all F path w = (Inr content, w)" and "fi_close F path w = (Inr (), w)"
    and "length content \<le> nat (fw_offset f)"
  shows "send_lines J F C t (f\<lparr>fw_path := path\<rparr>) w = (Inr (0, t, f\<lparr>fw_path := path\<rparr>), w)"
proof -
  have "stream_lines J (fw_mode f) [] (fw_offset f) t = ([], fw_offset f, t)" by (subst stream_lines.simps) simp
  with assms show ?thesis by (simp add: send_lines_def and_close_def and_then_def wrapping_def ret_def Let_def)
qed

subsection \<open>What a browser reads\<close>

text \<open>
  The interpretation of an event stream in the HTML standard: lines end with a line feed, a carriage return or both; a blank
  line dispatches what its fields gathered. An event is the last id, the type and the data.
\<close>

fun sse_lines :: "string \<Rightarrow> string \<Rightarrow> string list" where
  "sse_lines cur [] = []"
| "sse_lines cur [c] = (if c = newline \<or> c = carriage_return then [cur] else [])"
| "sse_lines cur (c # d # s) =
     (if c = carriage_return \<and> d = newline then cur # sse_lines [] s
      else if c = newline \<or> c = carriage_return then cur # sse_lines [] (d # s)
      else sse_lines (cur @ [c]) (d # s))"

definition sse_field :: "string \<Rightarrow> string \<times> string" where
  "sse_field l =
     (case str_cut '':'' l of
        None \<Rightarrow> (l, [])
      | Some (field, value) \<Rightarrow> (field, case value of [] \<Rightarrow> [] | c # cs \<Rightarrow> if c = CHR '' '' then cs else value))"

fun sse_events :: "string \<Rightarrow> string \<Rightarrow> string \<Rightarrow> string list \<Rightarrow> (string \<times> string \<times> string) list" where
  "sse_events n kind data [] = []"
| "sse_events n kind data (l # ls) =
     (if l = [] then (if data = [] then sse_events n [] [] ls else (n, kind, butlast data) # sse_events n [] [] ls)
      else
        let (field, value) = sse_field l in
        if field = ''data'' then sse_events n kind (data @ value @ [newline]) ls
        else if field = ''id'' then sse_events value kind data ls
        else if field = ''event'' then sse_events n value data ls
        else sse_events n kind data ls)"

definition read_events :: "string \<Rightarrow> (string \<times> string \<times> string) list" where
  "read_events s = sse_events [] [] [] (sse_lines [] s)"

lemma newline_char: "newline = CHR 0x0A"
  by code_simp

lemma sse_lines_Cons: "sse_lines cur (c # s) =
    (if c = newline \<or> c = carriage_return \<and> (s = [] \<or> hd s \<noteq> newline) then cur # sse_lines [] s
     else if c = carriage_return then cur # sse_lines [] (tl s)
     else sse_lines (cur @ [c]) s)"
  by (cases s) (auto simp: newline_char carriage_return_def)

lemma sse_line: "newline \<notin> set l \<Longrightarrow> carriage_return \<notin> set l \<Longrightarrow> sse_lines cur (l @ newline # s) = (cur @ l) # sse_lines [] s"
  by (induction l arbitrary: cur) (auto simp: sse_lines_Cons)

lemma sse_block:
  "\<forall>l \<in> set ls. newline \<notin> set l \<and> carriage_return \<notin> set l \<Longrightarrow>
     sse_lines [] (concat (map (\<lambda>l. l @ [newline]) ls) @ s) = ls @ sse_lines [] s"
  by (induction ls) (simp_all add: sse_line)

lemma data_field: "sse_field (''data: '' @ l) = (''data'', l)" and id_field: "sse_field (''id: '' @ l) = (''id'', l)"
  by (simp_all add: sse_field_def)

lemma data_lines: "sse_events n kind data (map (\<lambda>l. ''data: '' @ l) ls @ rest)
    = sse_events n kind (data @ concat (map (\<lambda>l. l @ [newline]) ls)) rest"
proof (induction ls arbitrary: data)
  case (Cons l ls)
  have "sse_events n kind data ((''data: '' @ l) # x) = sse_events n kind (data @ l @ [newline]) x" for x
    using data_field [of l] by simp
  with Cons show ?case by simp
qed simp

lemma join_lines: "ls \<noteq> [] \<Longrightarrow> concat (map (\<lambda>l. l @ [newline]) ls) = join [newline] ls @ [newline]"
  by (induction ls rule: induct_list012) simp_all

lemma itoa_line: "newline \<notin> set (itoa n) \<and> carriage_return \<notin> set (itoa n)"
  by (simp add: itoa_def nat_text_no newline_char carriage_return_def)

lemma split_char_subset: "l \<in> set (split_char c s) \<Longrightarrow> set l \<subseteq> set s"
  by (induction s arbitrary: l) (fastforce split: if_splits list.splits)+

lemma frame_lines:
  assumes "carriage_return \<notin> set data"
  shows "sse_lines [] (event_frame n data @ s)
    = (''id: '' @ itoa n) # map (\<lambda>l. ''data: '' @ l) (split_char newline data) @ [] # sse_lines [] s"
proof -
  let ?ls = "(''id: '' @ itoa n) # map (\<lambda>l. ''data: '' @ l) (split_char newline data) @ [[]]"
  have "newline \<notin> set l \<and> carriage_return \<notin> set l" if "l \<in> set ?ls" for l
  proof -
    have parts: "newline \<notin> set l' \<and> carriage_return \<notin> set l'" if "l' \<in> set (split_char newline data)" for l'
      using split_char_no_sep [OF that] split_char_subset [OF that] assms by auto
    have marks: "newline \<notin> set ''data: '' \<and> carriage_return \<notin> set ''data: '' \<and> newline \<notin> set ''id: '' \<and> carriage_return \<notin> set ''id: ''"
      by (simp add: newline_char carriage_return_def)
    note line = that
    consider "l = ''id: '' @ itoa n" | l' where "l' \<in> set (split_char newline data)" "l = ''data: '' @ l'" | "l = []"
      using line by auto
    then show ?thesis using itoa_line [of n] marks parts by cases auto
  qed
  then have "sse_lines [] (concat (map (\<lambda>l. l @ [newline]) ?ls) @ s) = ?ls @ sse_lines [] s" by (intro sse_block) blast
  moreover have "event_frame n data @ s = concat (map (\<lambda>l. l @ [newline]) ?ls) @ s"
    by (simp add: event_frame_def comp_def)
  ultimately show ?thesis by simp
qed

text \<open>C40: 
  A browser that reads the frames the stream writes gets every event with its id and its data, line breaks included, in order
  and nothing else, if no data has a carriage return.
\<close>

theorem frames_roundtrip:
  assumes "\<forall>(n, data) \<in> set items. carriage_return \<notin> set data"
  shows "read_events (concat (map (\<lambda>(n, data). event_frame n data) items)) = map (\<lambda>(n, data). (itoa n, [], data)) items"
proof -
  have "sse_events id0 [] [] (sse_lines [] (concat (map (\<lambda>(n, data). event_frame n data) items)))
    = map (\<lambda>(n, data). (itoa n, [], data)) items" for id0
    using assms
  proof (induction items arbitrary: id0)
    case (Cons item items)
    obtain n data where item: "item = (n, data)" by (cases item)
    let ?rest = "concat (map (\<lambda>(n, data). event_frame n data) items)"
    have clean: "carriage_return \<notin> set data" using Cons.prems by (simp add: item)
    have IH: "sse_events (itoa n) [] [] (sse_lines [] ?rest) = map (\<lambda>(n, data). (itoa n, [], data)) items"
      using Cons.prems by (intro Cons.IH) simp
    have start: "sse_events id0 [] [] ((''id: '' @ itoa n) # x) = sse_events (itoa n) [] [] x" for x
      using id_field [of "itoa n"] by simp
    have whole: "concat (map (\<lambda>l. l @ [newline]) (split_char newline data)) = data @ [newline]"
      by (simp add: join_lines join_split_char)
    show ?case using IH by (simp only: item list.map concat.simps prod.case frame_lines [OF clean] start data_lines whole) simp
  qed simp
  then show ?thesis by (simp add: read_events_def)
qed

theorem frames_roundtrip_witness:
  "read_events (event_frame 3 two_lines @ event_frame 5 ''x'') = [(itoa 3, [], two_lines), (itoa 5, [], ''x'')]"
  using frames_roundtrip [of "[(3, two_lines), (5, ''x'')]"] by (simp add: two_lines_def carriage_return_def newline_char)

text \<open>What follows a carriage return in the data is lost: the browser takes it for a line of its own, with no field it knows.\<close>

lemma carriage_return_cuts: "read_events (event_frame 0 [CHR ''a'', carriage_return, CHR ''b'']) = [(''0'', [], ''a'')]"
  by code_simp

subsection \<open>Streaming changes no table\<close>

lemma keeps_or_not_found: "keeps I q \<Longrightarrow> keeps I (or_not_found what wrap q)"
  by (fastforce simp: keeps_def or_not_found_def split: prod.splits sum.splits)

lemma keeps_run_log [keeping]: "keeps I (latest_run_log u)"
  unfolding latest_run_log_def q_latest_run_log_def case_prod_unfold by (intro keeping keeps_or_not_found)

lemma still_stream_log [moving]: "leads unmoved (stream_log u)"
proof (rule leadsI)
  fix s r s' assume run: "stream_log u s = (r, s')"
  obtain a s1 where q: "on_view (View_Pages.on_store (latest_run_log u)) s = (a, s1)" by (meson surj_pair)
  have reading: "leads unmoved (on_view (View_Pages.on_store (latest_run_log u)))" by (intro moving keeping)
  show "unmoved s s'" using run q leadsD [OF reading q] by (auto simp: stream_log_def split: sum.splits if_splits)
qed

lemma still_round [moving]: "leads unmoved (follow_round S C t f)"
  unfolding follow_round_def send_records_def Let_def case_prod_unfold by (intro moving keeping)

lemma follow_changes_nothing:
  assumes "follow_log S C t f s = Some y"
  shows "tables (snd y) = tables s"
proof (rule follow_log.raw_induct [where P = "\<lambda>S C t f s y. tables (snd y) = tables s", OF _ assms])
  fix follow S C t f s y
  assume IH: "\<And>S C t f s y. follow S C t f s = Some y \<Longrightarrow> tables (snd y) = tables (s :: 'a web)"
    and run: "(case follow_round S C t f s of
        (Inl e, s) \<Rightarrow> Some (Inl e, s) | (Inr None, s) \<Rightarrow> Some (Inr (), s) | (Inr (Some (t, f)), s) \<Rightarrow> follow S C t f s) = Some y"
  obtain a s1 where first: "follow_round S C t f s = (a, s1)" by (meson surj_pair)
  have "tables s1 = tables s" using leadsD [OF still_round first] by (simp add: unmoved_def)
  with run first show "tables (snd y) = tables s" by (auto split: sum.splits option.splits dest: IH)
qed

text \<open>The stream only reads: however it ends, every table is as it was.\<close>

lemma stream_changes_nothing: "handle_log S C r ticket s = Some (res, s') \<Longrightarrow> tables s' = tables s"
proof -
  assume run: "handle_log S C r ticket s = Some (res, s')"
  have opens: "leads unmoved (first_follow r ticket)" unfolding first_follow_def query_offset_def Let_def by (intro moving)
  have closes: "leads unmoved (close_stream C y)" for y
    by (rule leadsI) (auto simp: close_stream_def on_view_def on_files_def ret_def unmoved_def tables_def page_tables_def
      split: sum.splits if_splits prod.splits)
  obtain a s1 where first: "first_follow r ticket s = (a, s1)" by (meson surj_pair)
  have "tables s1 = tables s" using leadsD [OF opens first] by (simp add: unmoved_def)
  with run first closes show ?thesis
    by (auto simp: handle_log_def unmoved_def dest: leadsD follow_changes_nothing split: sum.splits)
      (metis follow_changes_nothing leadsD snd_conv unmoved_def)
qed

end
