(* ===== verification/Spec2Isabelle.thy ===== *)
theory Spec2Isabelle imports Loop_Safety Loop_Limits Web_Safety Web_Stream begin

text \<open>
  A model of command-center, a daemon with a web board that runs coding agents on tickets. This text says what the program
  is made of, which theory models which part, what the lemmas show, and what is left out.

  \<^bold>\<open>The program.\<close> \<open>internal/loop\<close> ticks: it observes the repositories through git and GitHub (\<open>internal/adapter\<close>),
  reads the facts of the store (\<open>internal/store\<close>, PostgreSQL behind the statements of \<open>ccdb\<close>), lets \<open>internal/plan\<close> derive
  a snapshot from both, and acts on it: it starts and settles agent runs (\<open>internal/adapter/runner\<close>), pushes, rebases and
  retargets branches, removes worktrees and records what happened. \<open>internal/web\<close> shows the snapshot that it derives from the
  same facts, and queues intents in the store for the next tick. Ticks and requests meet in the tables only.

  \<^bold>\<open>Conventions.\<close> A Go string is a list of bytes, an \<open>int\<close> an \<open>int\<close> with the parsers' ranges written out, a map an
  association list (\<open>gomap\<close>) whose order is arbitrary, a struct a \<open>record\<close>, an enumeration a \<open>datatype\<close>, a failing operation
  a state function with an error or a value (\<open>io\<close>, in \<open>Command\<close>), an error the chain that \<open>%w\<close> builds. Programs, files, clock,
  processes, the TOML and JSON decoders, SHA-256 and the operations on floats are fields of parameter records (\<open>host\<close>,
  \<open>codec\<close>, \<open>files\<close>, \<open>arithmetic\<close>, \<open>log_json\<close>, \<open>loop_env\<close>, \<open>server\<close>, \<open>client\<close>), so every theorem holds for any of them.

  \<^bold>\<open>Theories.\<close>
  \<^item> \<open>Prelude\<close>, \<open>Go_Strings\<close>, \<open>Go_Formats\<close>, \<open>Go_Regexp\<close>: maps, sorting and the parts of Go's library the source uses.
  \<^item> \<open>internal/plan\<close>: \<open>Vocab\<close> (ids, enumerations with printers and parsers), \<open>Verdict\<close> (\<open>verdict.go\<close>), \<open>Tickets\<close> (\<open>plan.go\<close>,
    \<open>dependents.go\<close>, \<open>draftgate.go\<close>, \<open>warning.go\<close>), \<open>Workflows\<close> (\<open>workflow.go\<close>, \<open>compose.go\<close>), \<open>Push_Policy\<close> (\<open>push.go\<close>),
    \<open>Observations\<close> (\<open>observation.go\<close>, \<open>rules.go\<close>, \<open>repostate.go\<close>), \<open>Status\<close> (\<open>Status\<close>, \<open>launch.go\<close>), \<open>Stacks\<close> (\<open>stack.go\<close>),
    \<open>Derive\<close> (\<open>derive.go\<close>, \<open>transition.go\<close>), \<open>Gates\<close> (\<open>gates.go\<close>, \<open>preview.go\<close>); \<open>Agent_Log\<close>, \<open>Log_Events\<close>, \<open>Spend\<close>
    (\<open>agentlog\<close>, \<open>spend\<close>).
  \<^item> \<open>internal/adapter\<close>: \<open>Command\<close>, \<open>Git\<close> (with \<open>tp\<close>), \<open>Gh\<close> (with \<open>tracker\<close>), \<open>Runner\<close>; \<open>internal/config\<close>: \<open>Config\<close>.
  \<^item> \<open>internal/store\<close>: \<open>Database\<close> (tables, statements, transactions and their failures), \<open>Queries\<close> (\<open>ccdb\<close>), \<open>Store_Tickets\<close>,
    \<open>Store_Runs\<close>, \<open>Store_Input\<close> (the operations); \<open>Store_Steps\<close> (the store as a state machine), \<open>Store_Import\<close>,
    \<open>Store_Integrity\<close>, \<open>Store_Readable\<close>, \<open>Store_History\<close> (what its operations keep).
  \<^item> \<open>internal/loop\<close>: \<open>Observe\<close>, \<open>Loop_State\<close> (the machine a handler works on), \<open>Loop_Push\<close>, \<open>Loop_Runs\<close>, \<open>Loop_Settle\<close>,
    \<open>Loop_Verbs\<close>, \<open>Loop_Tick\<close> (\<open>RunOnce\<close>); \<open>Loop_Steps\<close> and \<open>Loop_Handlers\<close> (where handlers lead, once for all relations),
    \<open>Loop_Progress\<close>, \<open>Loop_Safety\<close>, \<open>Loop_Limits\<close> (what a tick does and never does), \<open>Loop_Samples\<close>.
  \<^item> \<open>internal/web\<close>: \<open>View_Log\<close>, \<open>View_Rows\<close>, \<open>View_Board\<close>, \<open>View_Rail\<close>, \<open>View_Pages\<close>, \<open>View_Launch\<close>, \<open>View_Repos\<close>,
    \<open>View_Session\<close> (the readers of \<open>web/view\<close>), \<open>Web_Requests\<close>, \<open>Web_Handlers\<close>, \<open>Web_Routes\<close>, \<open>Web_Stream\<close> (the handlers),
    \<open>Web_Safety\<close> (what requests do), \<open>Web_Samples\<close>.

  \<^bold>\<open>What is shown.\<close> Decisions: the verdict is the three-valued reading of its predicate; unlocking, status, launches, pushes,
  held peers, transitions and the workflow machine each do exactly, or at most, what is stated. Store: in every reachable
  state, failures at any statement included, the tables keep their integrity, reading the input of a derivation succeeds,
  importing refines an update of the table read as a map, and lasting rows are kept. Loop: any number of ticks, and any number
  of requests, changes the tables only through operations of the store; a tick runs only commands of a known form, pushes and
  removes only behind its guards, stays within the cap, settles ended runs, consumes handled intents and accounts for its
  errors. Web: verbs are queued only if offered, launches only as previewed, redirects stay local, rows are grouped without
  loss, and the log stream neither loses nor repeats lines and is read back by a browser.

  The locales are the interfaces: \<open>comparator\<close> (a three-way comparison that sorting needs), \<open>vocabulary\<close> (a printer with
  distinct texts), \<open>kept\<close> (what each statement keeps, every operation keeps), \<open>steps\<close> (a reflexive and transitive relation
  that every way to put operations together keeps), \<open>handlers\<close> and \<open>daemon\<close> (what every handler and tick keeps). Each is
  interpreted on the definitions of the model, \<open>steps\<close> for the relations of the loop and of the web server alike.

  \<^bold>\<open>Bounds and fuel.\<close> Loops over finite data recurse on it, or on a measure. \<open>ticket_events_fuel\<close> is called with one
  more than the number of events, and every full page takes events off; trimming and replacing in a string take its length.
  The loop over ticks takes the number of ticks. \<open>follow_log\<close> and \<open>cancel_poll\<close> may run on and are partial functions into an
  option; cancelling is shown to return whenever the clock advances.

  \<^bold>\<open>Not modelled.\<close>
  \<^item> Interleaving: a tick and a request see no writer but themselves; between them anything may happen to the tables and
    the world. Reading a file is one step, so what is appended while it is read is seen by the next read.
  \<^item> PostgreSQL: timestamps keep their full precision, texts are ordered by bytes, lower case is that of ASCII, a sequence
    has no gaps but those of the statements that fail; a \<open>jsonb\<close> value reads back as it was written.
  \<^item> Cancellation of a context other than where the loop and the log stream ask for it, the logger, panics beyond the error
    \<open>panicked\<close>, and floating point arithmetic, which is a parameter.
  \<^item> HTML templates, the encoding of answers, routing by path and the protection against requests from other origins, which
    the standard library does; a route is a constructor of \<open>route\<close>, and what is answered is the data that is printed.
  \<^item> The pages and queries of the insights with their charts, opening and migrating the database, the start of the process
    (\<open>cmd\<close>, \<open>internal/app\<close>), the demonstration mode (\<open>internal/demo\<close>) and the test doubles.
\<close>

end
